(* ===== verification/Prelude.thy ===== *)
theory Prelude
  imports Main "HOL-Library.Word"
begin

text \<open>
  The shared base of the development.  It names the machine integers of the
  Rust sources (\<open>u8\<close>, \<open>u16\<close>, \<open>u32\<close>, \<open>u64\<close>, \<open>i32\<close>), the collections of
  rewrite rules the component theories add to, the little-endian byte codecs
  (\<open>to_le_bytes\<close> and \<open>from_le_bytes\<close>), and the generic facts on lists,
  options and words that more than one component uses.

  Conventions.  Text (\<open>str\<close>, \<open>OsStr\<close>, \<open>Path\<close>) is a HOL \<open>string\<close>, read as the
  sequence of its bytes; a byte buffer (\<open>Vec<u8>\<close>, \<open>&[u8]\<close>) is an
  \<open>8 word list\<close>.  \<open>usize\<close> lengths and indices into a buffer are \<open>nat\<close>: they
  are bounded by the buffer, so they cannot wrap.
\<close>

unbundle bit_operations_syntax

type_synonym u8 = "8 word"
type_synonym u16 = "16 word"
type_synonym u32 = "32 word"
type_synonym u64 = "64 word"
type_synonym i32 = "32 word"
type_synonym bytes = "8 word list"

named_theorems state_simps \<open>unfolding rules of state-passing operations\<close>
named_theorems codec_simps \<open>decode after encode, one field at a time\<close>
named_theorems inv_intros \<open>invariants kept by the operations of a component\<close>

section \<open>Text and bytes\<close>

definition byte_of :: "char \<Rightarrow> u8" where
  "byte_of c = of_nat (of_char c)"

definition char_of_byte :: "u8 \<Rightarrow> char" where
  "char_of_byte b = char_of (unat b)"

definition as_bytes :: "string \<Rightarrow> bytes" where
  "as_bytes s = map byte_of s"

definition from_bytes :: "bytes \<Rightarrow> string" where
  "from_bytes bs = map char_of_byte bs"

lemma of_char_less_256 [simp]: "(of_char c :: nat) < 256"
  by (cases c) (simp add: of_char_def horner_sum_simps)

lemma char_of_byte_byte_of [simp]: "char_of_byte (byte_of c) = c"
  by (simp add: char_of_byte_def byte_of_def unat_of_nat take_bit_nat_eq_self)

lemma byte_of_char_of_byte [simp]: "byte_of (char_of_byte b) = b"
proof -
  have "unat b < 256" by (rule order_less_le_trans[OF unsigned_less]) simp
  then have "(of_char (char_of (unat b) :: char) :: nat) = unat b" by simp
  then show ?thesis by (simp add: byte_of_def char_of_byte_def)
qed

lemma from_bytes_as_bytes [simp]: "from_bytes (as_bytes s) = s"
  by (simp add: from_bytes_def as_bytes_def comp_def)

lemma as_bytes_from_bytes [simp]: "as_bytes (from_bytes bs) = bs"
  by (simp add: from_bytes_def as_bytes_def comp_def)

lemma length_as_bytes [simp]: "length (as_bytes s) = length s"
  by (simp add: as_bytes_def)

lemma length_from_bytes [simp]: "length (from_bytes bs) = length bs"
  by (simp add: from_bytes_def)

lemma as_bytes_append [simp]: "as_bytes (s @ t) = as_bytes s @ as_bytes t"
  by (simp add: as_bytes_def)

lemma as_bytes_Nil [simp]: "as_bytes [] = []"
  by (simp add: as_bytes_def)

lemma as_bytes_inject [simp]: "as_bytes s = as_bytes t \<longleftrightarrow> s = t"
  by (metis from_bytes_as_bytes)

lemma byte_of_inject: "byte_of c = byte_of d \<longleftrightarrow> c = d"
  by (metis char_of_byte_byte_of)

lemma as_bytes_eq_Nil [simp]: "as_bytes s = [] \<longleftrightarrow> s = []"
  by (simp add: as_bytes_def)

lemma byte_of_NUL: "byte_of (CHR 0x00) = 0"
  by (simp add: byte_of_def)

lemma NUL_in_as_bytes: "0 \<in> set (as_bytes s) \<longleftrightarrow> CHR 0x00 \<in> set s"
  by (force simp: as_bytes_def byte_of_inject simp flip: byte_of_NUL)

text \<open>\<open>str::split\<close> on one separator character: the pieces between the separators.\<close>

fun split_on :: "char \<Rightarrow> string \<Rightarrow> string list" where
  "split_on sep [] = [[]]"
| "split_on sep (c # cs) =
    (if c = sep then [] # split_on sep cs
     else case split_on sep cs of p # ps \<Rightarrow> (c # p) # ps | [] \<Rightarrow> [[c]])"

section \<open>Lists\<close>

lemma takeWhile_replicate_append:
  assumes "\<And>y ys. zs = y # ys \<Longrightarrow> y \<noteq> x"
  shows "takeWhile ((=) x) (replicate n x @ zs) = replicate n x"
    and "dropWhile ((=) x) (replicate n x @ zs) = zs"
  using assms by (induction n) (cases zs; auto)+

lemma append_eq_longer:
  assumes "xs @ ys = zs @ ws" "length zs \<le> length xs"
  obtains us where "xs = zs @ us" "ws = us @ ys"
  using assms by (auto simp: append_eq_append_conv2)

lemma append_eq_shorter:
  assumes "xs @ ys = zs @ ws" "length xs \<le> length zs"
  shows "xs = take (length xs) zs"
  using assms by (auto simp: append_eq_append_conv2)

section \<open>Little-endian integers\<close>

text \<open>\<open>nat_le n k\<close> is the \<open>n\<close>-byte little-endian form of \<open>k\<close>, \<open>le_nat\<close> reads it back;
  \<open>to_le_bytes\<close> and \<open>from_le_bytes\<close> are the two at a word's width.\<close>

fun nat_le :: "nat \<Rightarrow> nat \<Rightarrow> bytes" where
  "nat_le 0 k = []"
| "nat_le (Suc n) k = of_nat k # nat_le n (k div 256)"

fun le_nat :: "bytes \<Rightarrow> nat" where
  "le_nat [] = 0"
| "le_nat (b # bs) = unat b + 256 * le_nat bs"

definition to_le_bytes :: "nat \<Rightarrow> 'a::len word \<Rightarrow> bytes" where
  "to_le_bytes n w = nat_le n (unat w)"

definition from_le_bytes :: "bytes \<Rightarrow> 'a::len word" where
  "from_le_bytes bs = of_nat (le_nat bs)"

lemma length_nat_le [simp]: "length (nat_le n k) = n"
  by (induction n arbitrary: k) simp_all

lemma length_to_le_bytes [simp]: "length (to_le_bytes n w) = n"
  by (simp add: to_le_bytes_def)

lemma unat_of_nat_u8: "unat (of_nat k :: u8) = k mod 256"
  by (simp add: unat_of_nat take_bit_eq_mod)

lemma le_nat_nat_le: "le_nat (nat_le n k) = k mod 256 ^ n"
proof (induction n arbitrary: k)
  case (Suc n)
  then show ?case by (simp add: unat_of_nat_u8 mod_mult2_eq mult.commute)
qed simp

lemma le_nat_nat_le_less [simp]: "k < 256 ^ n \<Longrightarrow> le_nat (nat_le n k) = k"
  by (simp add: le_nat_nat_le)

lemma from_to_le_bytes_2 [simp]: "from_le_bytes (to_le_bytes 2 w) = (w :: u16)"
proof -
  have "unat w < 2 ^ 16" by (rule order_less_le_trans[OF unsigned_less]) simp
  then show ?thesis by (simp add: to_le_bytes_def from_le_bytes_def)
qed

lemma from_to_le_bytes_4 [simp]: "from_le_bytes (to_le_bytes 4 w) = (w :: u32)"
proof -
  have "unat w < 2 ^ 32" by (rule order_less_le_trans[OF unsigned_less]) simp
  then show ?thesis by (simp add: to_le_bytes_def from_le_bytes_def)
qed

lemma from_to_le_bytes_8 [simp]: "from_le_bytes (to_le_bytes 8 w) = (w :: u64)"
proof -
  have "unat w < 2 ^ 64" by (rule order_less_le_trans[OF unsigned_less]) simp
  then show ?thesis by (simp add: to_le_bytes_def from_le_bytes_def)
qed

lemma unat_of_nat_u32 [simp]: "n < 2 ^ 32 \<Longrightarrow> unat (of_nat n :: u32) = n"
  by (simp add: unat_of_nat take_bit_nat_eq_self)

lemma unat_of_nat_u8_less [simp]: "n < 256 \<Longrightarrow> unat (of_nat n :: u8) = n"
  by (simp add: unat_of_nat_u8)

lemma unat_byte_of: "unat (byte_of c) = of_char c"
  by (simp add: byte_of_def unat_of_nat_u8)

lemma sint_64_small:
  assumes "unat (w :: 64 word) < 2 ^ 63"
  shows "sint w = int (unat w)"
proof -
  have "int (unat w) < int (2 ^ 63)" by (simp only: of_nat_less_iff assms)
  then have "uint w < 2 ^ 63" by simp
  moreover have "- (2 ^ 63) \<le> uint w" by (rule order_trans[of _ 0]) simp_all
  ultimately show ?thesis using signed_take_bit_int_eq_self[of 63 "uint w"] by (simp add: sint_uint)
qed

section \<open>Buffers\<close>

text \<open>\<open>n\<close> bytes at offset \<open>off\<close> of a structure, and a structure written over a zeroed buffer.\<close>

definition field_at :: "nat \<Rightarrow> nat \<Rightarrow> bytes \<Rightarrow> bytes" where
  "field_at off n bs = take n (drop off bs)"

definition zero_fill :: "nat \<Rightarrow> bytes \<Rightarrow> bytes" where
  "zero_fill n bs = take n (bs @ replicate n 0)"

lemma length_zero_fill [simp]: "length (zero_fill n bs) = n"
  by (simp add: zero_fill_def)

lemma zero_fill_fits: "length bs \<le> n \<Longrightarrow> zero_fill n bs = bs @ replicate (n - length bs) 0"
  by (simp add: zero_fill_def)

lemma field_at_skip:
  "length xs \<le> off \<Longrightarrow> field_at off n (xs @ ys) = field_at (off - length xs) n ys"
  by (simp add: field_at_def)

lemma field_at_0 [simp]: "length xs = n \<Longrightarrow> field_at 0 n (xs @ ys) = xs"
  by (simp add: field_at_def)

text \<open>A read into a buffer: the data replaces as many bytes of it as were read.\<close>

definition read_into :: "bytes \<Rightarrow> bytes \<Rightarrow> bytes" where
  "read_into buf data = take (length buf) data @ drop (length data) buf"

lemma length_read_into [simp]: "length (read_into buf data) = length buf"
  by (simp add: read_into_def)

section \<open>Numbers as text\<close>

text \<open>The formats \<open>{}\<close> and \<open>{:x}\<close> of an unsigned integer.\<close>

fun dec_digits :: "nat \<Rightarrow> string" where
  "dec_digits n = (if n < 10 then [char_of (48 + n)] else dec_digits (n div 10) @ [char_of (48 + n mod 10)])"

definition hex_digit :: "nat \<Rightarrow> char" where
  "hex_digit n = (if n < 10 then char_of (48 + n) else char_of (87 + n))"

fun hex_digits :: "nat \<Rightarrow> string" where
  "hex_digits n = (if n < 16 then [hex_digit n] else hex_digits (n div 16) @ [hex_digit (n mod 16)])"

declare dec_digits.simps [simp del] hex_digits.simps [simp del]

lemma dec_digits_not_Nil [simp]: "dec_digits n \<noteq> []"
  by (simp add: dec_digits.simps)

end
