(* ===== verification/Platform_Error.thy ===== *)
theory Platform_Error
  imports Prelude
begin

text \<open>
  The two-axis error model of \<open>platform/src/error.rs\<close>: the portable kind, the
  raw code in its own number space, the failing operation and the path.  Every
  fallible operation of the development returns a value of type \<open>'a result\<close>,
  the sum with the error on the left; \<open>Ok\<close> and \<open>Err\<close> name its two sides.
\<close>

datatype ErrorKind =
    NotFound | PermissionDenied | AlreadyExists | NotADirectory | IsADirectory
  | DirectoryNotEmpty | InvalidInput | WouldBlock | Interrupted | BrokenPipe
  | Unsupported | ConnectionRefused | ConnectionReset | ConnectionAborted
  | NotConnected | AddrInUse | AddrNotAvailable | TimedOut | FilesystemLoop
  | CrossesDevices | Other

datatype OsCode = Errno i32 | Win32 u32 | NoCode

record PlatformError =
  err_kind :: ErrorKind
  err_os :: OsCode
  err_op :: string
  err_path :: "string option"

definition new_error :: "ErrorKind \<Rightarrow> OsCode \<Rightarrow> string \<Rightarrow> PlatformError" where
  "new_error kind os op = \<lparr>err_kind = kind, err_os = os, err_op = op, err_path = None\<rparr>"

definition with_path :: "PlatformError \<Rightarrow> string \<Rightarrow> PlatformError" where
  "with_path e p = e\<lparr>err_path := Some p\<rparr>"

definition path_display :: "string option \<Rightarrow> string" where
  "path_display p = (case p of Some s \<Rightarrow> '' on '' @ s | None \<Rightarrow> '''')"

definition kind_debug :: "ErrorKind \<Rightarrow> string" where
  "kind_debug k =
    (case k of NotFound \<Rightarrow> ''NotFound'' | PermissionDenied \<Rightarrow> ''PermissionDenied''
     | AlreadyExists \<Rightarrow> ''AlreadyExists'' | NotADirectory \<Rightarrow> ''NotADirectory''
     | IsADirectory \<Rightarrow> ''IsADirectory'' | DirectoryNotEmpty \<Rightarrow> ''DirectoryNotEmpty''
     | InvalidInput \<Rightarrow> ''InvalidInput'' | WouldBlock \<Rightarrow> ''WouldBlock'' | Interrupted \<Rightarrow> ''Interrupted''
     | BrokenPipe \<Rightarrow> ''BrokenPipe'' | Unsupported \<Rightarrow> ''Unsupported''
     | ConnectionRefused \<Rightarrow> ''ConnectionRefused'' | ConnectionReset \<Rightarrow> ''ConnectionReset''
     | ConnectionAborted \<Rightarrow> ''ConnectionAborted'' | NotConnected \<Rightarrow> ''NotConnected''
     | AddrInUse \<Rightarrow> ''AddrInUse'' | AddrNotAvailable \<Rightarrow> ''AddrNotAvailable'' | TimedOut \<Rightarrow> ''TimedOut''
     | FilesystemLoop \<Rightarrow> ''FilesystemLoop'' | CrossesDevices \<Rightarrow> ''CrossesDevices'' | Other \<Rightarrow> ''Other'')"

definition os_debug :: "OsCode \<Rightarrow> string" where
  "os_debug c =
    (case c of
       Errno e \<Rightarrow> ''Errno('' @ (if sint e < 0 then ''-'' @ dec_digits (nat (- sint e))
                              else dec_digits (nat (sint e))) @ '')''
     | Win32 e \<Rightarrow> ''Win32('' @ dec_digits (unat e) @ '')''
     | NoCode \<Rightarrow> ''None'')"

definition display_error :: "PlatformError \<Rightarrow> string" where
  "display_error e =
    err_op e @ '' failed'' @ path_display (err_path e) @ '': '' @ kind_debug (err_kind e)
      @ '' ('' @ os_debug (err_os e) @ '')''"

type_synonym 'a result = "PlatformError + 'a"

abbreviation Ok :: "'a \<Rightarrow> 'a result" where "Ok \<equiv> Inr"
abbreviation Err :: "PlatformError \<Rightarrow> 'a result" where "Err \<equiv> Inl"

definition and_then :: "'a result \<Rightarrow> ('a \<Rightarrow> 'b result) \<Rightarrow> 'b result" where
  "and_then r f = (case r of Err e \<Rightarrow> Err e | Ok x \<Rightarrow> f x)"

definition map_err :: "(PlatformError \<Rightarrow> PlatformError) \<Rightarrow> 'a result \<Rightarrow> 'a result" where
  "map_err f r = (case r of Err e \<Rightarrow> Err (f e) | Ok x \<Rightarrow> Ok x)"

definition fails_with :: "ErrorKind \<Rightarrow> 'a result \<Rightarrow> bool" where
  "fails_with k r = (case r of Err e \<Rightarrow> err_kind e = k | Ok _ \<Rightarrow> False)"

definition is_ok :: "'a result \<Rightarrow> bool" where
  "is_ok r = (case r of Err _ \<Rightarrow> False | Ok _ \<Rightarrow> True)"

lemma new_error_sel [simp]:
  "err_kind (new_error k os op) = k" "err_os (new_error k os op) = os"
  "err_op (new_error k os op) = op" "err_path (new_error k os op) = None"
  by (simp_all add: new_error_def)

lemma with_path_sel [simp]:
  "err_kind (with_path e p) = err_kind e" "err_os (with_path e p) = err_os e"
  "err_op (with_path e p) = err_op e" "err_path (with_path e p) = Some p"
  by (simp_all add: with_path_def)

lemma and_then_simps [simp]:
  "and_then (Err e) f = Err e" "and_then (Ok x) f = f x"
  by (simp_all add: and_then_def)

lemma and_then_Ok_iff:
  "and_then r f = Ok y \<longleftrightarrow> (\<exists>x. r = Ok x \<and> f x = Ok y)"
  by (cases r) auto

lemma map_err_simps [simp]:
  "map_err f (Err e) = Err (f e)" "map_err f (Ok x) = Ok x"
  by (simp_all add: map_err_def)

lemma fails_with_simps [simp]:
  "fails_with k (Err e) \<longleftrightarrow> err_kind e = k" "\<not> fails_with k (Ok x)"
  by (simp_all add: fails_with_def)

lemma is_ok_simps [simp]: "\<not> is_ok (Err e)" "is_ok (Ok x)"
  by (simp_all add: is_ok_def)

lemma is_ok_iff: "is_ok r \<longleftrightarrow> (\<exists>x. r = Ok x)"
  by (cases r) auto

section \<open>Outcomes that may panic\<close>

text \<open>Where the code can index or slice out of range, or reach an \<open>unreachable!\<close>, the outcome
  is a \<open>run\<close>: a value, an error, or a panic.\<close>

datatype 'a run = Ret 'a | Fail PlatformError | Panic

definition run_bind :: "'a run \<Rightarrow> ('a \<Rightarrow> 'b run) \<Rightarrow> 'b run" where
  "run_bind r f = (case r of Ret x \<Rightarrow> f x | Fail e \<Rightarrow> Fail e | Panic \<Rightarrow> Panic)"

definition run_of :: "'a result \<Rightarrow> 'a run" where
  "run_of r = (case r of Ok x \<Rightarrow> Ret x | Err e \<Rightarrow> Fail e)"

lemma run_bind_simps [simp]:
  "run_bind (Ret x) f = f x" "run_bind (Fail e) f = Fail e" "run_bind Panic f = Panic"
  by (simp_all add: run_bind_def)

lemma run_of_simps [simp]: "run_of (Ok x) = Ret x" "run_of (Err e) = Fail e"
  by (simp_all add: run_of_def)

lemma run_bind_Ret_iff: "run_bind r f = Ret y \<longleftrightarrow> (\<exists>x. r = Ret x \<and> f x = Ret y)"
  by (cases r) auto

end
