(* ===== verification/Winargv.thy ===== *)
theory Winargv
  imports Platform_Error
begin

text \<open>
  Command-line construction, \<open>winargv/src/lib.rs\<close>: quoting one argument under the
  MSVCRT rules, quoting one for \<open>cmd.exe\<close> or refusing it, the whole command
  line, and POSIX shell quoting.  The fuzz oracle of
  \<open>fuzz/fuzz_targets/winargv_roundtrip.rs\<close> is modelled too (\<open>model_split\<close> and
  \<open>check\<close>), so that the statement of its assertion over every argument vector
  is a theorem of this theory.
\<close>

section \<open>The code\<close>

abbreviation QUOTE :: u16 where "QUOTE \<equiv> 0x22"
abbreviation BACKSLASH :: u16 where "BACKSLASH \<equiv> 0x5C"
abbreviation SPACE :: u16 where "SPACE \<equiv> 0x20"
abbreviation TAB :: u16 where "TAB \<equiv> 0x09"

datatype Target = Executable | Batch

definition to_lower_unit :: "u16 \<Rightarrow> u16" where
  "to_lower_unit u = (if 0x41 \<le> u \<and> u \<le> 0x5A then u + 32 else u)"

definition classify :: "u16 list \<Rightarrow> Target" where
  "classify program =
    (if length program < 4 then Executable
     else let lower = map to_lower_unit (drop (length program - 4) program) in
       if lower = [0x2E, 0x62, 0x61, 0x74] \<or> lower = [0x2E, 0x63, 0x6D, 0x64]
       then Batch else Executable)"

definition refuse :: "string \<Rightarrow> PlatformError" where
  "refuse what = new_error InvalidInput NoCode what"

fun quote_loop :: "u16 list \<Rightarrow> nat \<Rightarrow> u16 list \<Rightarrow> nat \<times> u16 list" where
  "quote_loop [] backslashes out = (backslashes, out)"
| "quote_loop (u # us) backslashes out =
    (if u = BACKSLASH then quote_loop us (backslashes + 1) (out @ [u])
     else
       let out1 = (if u = QUOTE then out @ replicate (backslashes + 1) BACKSLASH else out)
       in quote_loop us 0 (out1 @ [u]))"

definition needs_quote :: "u16 list \<Rightarrow> bool" where
  "needs_quote arg = (arg = [] \<or> list_ex (\<lambda>u. u = SPACE \<or> u = TAB \<or> u = QUOTE) arg)"

definition quote_arg_into :: "u16 list \<Rightarrow> u16 list \<Rightarrow> u16 list" where
  "quote_arg_into arg out =
    (let quote = needs_quote arg;
         out0 = (if quote then out @ [QUOTE] else out);
         (backslashes, out1) = quote_loop arg 0 out0
     in if quote then out1 @ replicate backslashes BACKSLASH @ [QUOTE] else out1)"

definition batch_forbidden :: "u16 \<Rightarrow> bool" where
  "batch_forbidden u = (u = 0 \<or> u = 0x0D \<or> u = 0x0A \<or> u = 0x25)"

fun double_quotes :: "u16 list \<Rightarrow> u16 list \<Rightarrow> u16 list" where
  "double_quotes [] out = out"
| "double_quotes (u # us) out =
    double_quotes us ((if u = QUOTE then out @ [QUOTE] else out) @ [u])"

definition quote_batch_arg_into :: "u16 list \<Rightarrow> u16 list \<Rightarrow> u16 list result" where
  "quote_batch_arg_into arg out =
    (if list_ex batch_forbidden arg
     then Err (refuse ''winargv: unrepresentable batch argument'')
     else Ok (double_quotes arg (out @ [QUOTE]) @ [QUOTE]))"

fun push_args :: "Target \<Rightarrow> u16 list list \<Rightarrow> u16 list \<Rightarrow> u16 list result" where
  "push_args target [] out = Ok out"
| "push_args target (arg # args) out =
    (case target of
       Executable \<Rightarrow> push_args target args (quote_arg_into arg (out @ [SPACE]))
     | Batch \<Rightarrow> and_then (quote_batch_arg_into arg (out @ [SPACE])) (push_args target args))"

definition build_command_line_wide :: "u16 list \<Rightarrow> u16 list list \<Rightarrow> u16 list result" where
  "build_command_line_wide program args =
    (if program = [] then Err (refuse ''winargv: empty program'')
     else if 0 \<in> set program \<or> list_ex (\<lambda>a. 0 \<in> set a) args
     then Err (refuse ''winargv: embedded NUL'')
     else push_args (classify program) args (quote_arg_into program []))"

definition shell_special :: "char \<Rightarrow> bool" where
  "shell_special c =
    (c \<in> set ([CHR 0x20, CHR 0x09, CHR 0x0A, CHR 0x27, CHR 0x22, CHR 0x5C, CHR 0x60]
            @ ''$&|;<>(){}*?[]!~#''))"

fun posix_escape :: "string \<Rightarrow> string" where
  "posix_escape [] = []"
| "posix_escape (c # cs) =
    (if c = CHR 0x27 then [CHR 0x27, CHR 0x5C, CHR 0x27, CHR 0x27] else [c]) @ posix_escape cs"

definition posix_quote_arg :: "string \<Rightarrow> string" where
  "posix_quote_arg arg =
    (if arg = [] then [CHR 0x27, CHR 0x27]
     else if \<not> list_ex shell_special arg then arg
     else [CHR 0x27] @ posix_escape arg @ [CHR 0x27])"

section \<open>The fuzz oracle\<close>

function split_args ::
    "u16 list \<Rightarrow> bool \<Rightarrow> bool \<Rightarrow> u16 list \<Rightarrow> u16 list list \<Rightarrow> u16 list list" where
  "split_args [] in_quotes in_arg current out = (if in_arg then out @ [current] else out)"
| "split_args (u # us) in_quotes in_arg current out =
    (if u = BACKSLASH then
       (let n = length (takeWhile ((=) BACKSLASH) (u # us));
            rest = dropWhile ((=) BACKSLASH) us
        in if rest \<noteq> [] \<and> hd rest = QUOTE then
             split_args (tl rest) (if odd n then in_quotes else \<not> in_quotes) True
               (current @ replicate (n div 2) BACKSLASH @ (if odd n then [QUOTE] else [])) out
           else split_args rest in_quotes True (current @ replicate n BACKSLASH) out)
     else if u = QUOTE then split_args us (\<not> in_quotes) True current out
     else if (u = SPACE \<or> u = TAB) \<and> \<not> in_quotes then
       (if in_arg then split_args us in_quotes False [] (out @ [current])
        else split_args us in_quotes False current out)
     else split_args us in_quotes True (current @ [u]) out)"
  by pat_completeness auto
termination split_args
  by (relation "measure (\<lambda>(l, _). length l)")
    (auto simp: le_imp_less_Suc length_dropWhile_le intro: le_less_trans[OF diff_le_self])

definition split_program :: "u16 list \<Rightarrow> u16 list \<times> u16 list" where
  "split_program line =
    (if line \<noteq> [] \<and> hd line = QUOTE
     then (takeWhile (\<lambda>u. u \<noteq> QUOTE) (tl line), drop 1 (dropWhile (\<lambda>u. u \<noteq> QUOTE) (tl line)))
     else (takeWhile (\<lambda>u. u \<noteq> SPACE \<and> u \<noteq> TAB) line, dropWhile (\<lambda>u. u \<noteq> SPACE \<and> u \<noteq> TAB) line))"

definition model_split :: "u16 list \<Rightarrow> u16 list list" where
  "model_split line =
    (let (program, rest) = split_program line in split_args rest False False [] [program])"

definition prog_exe :: "u16 list" where
  "prog_exe = [0x70, 0x72, 0x6F, 0x67, 0x2E, 0x65, 0x78, 0x65]"

definition s_bat :: "u16 list" where
  "s_bat = [0x73, 0x2E, 0x62, 0x61, 0x74]"

text \<open>\<open>check\<close> is the body of the fuzz target; it is true when no assertion of it fails.\<close>

definition check :: "u16 list list \<Rightarrow> bool" where
  "check args =
    ((case build_command_line_wide prog_exe args of
        Ok line \<Rightarrow>
          \<not> list_ex (\<lambda>a. 0 \<in> set a) args
          \<and> length (model_split line) = length args + 1
          \<and> list_all (\<lambda>i. model_split line ! (i + 1) = args ! i) [0..<length args]
      | Err e \<Rightarrow> list_ex (\<lambda>a. 0 \<in> set a) args \<and> err_kind e = InvalidInput)
     \<and>
     (let refused = list_ex (list_ex (\<lambda>u. u = 0 \<or> u = 0x0D \<or> u = 0x0A \<or> u = 0x25)) args in
      case build_command_line_wide s_bat args of
        Ok line \<Rightarrow> \<not> refused \<and> 0x0D \<notin> set line \<and> 0x0A \<notin> set line
      | Err e \<Rightarrow> refused \<and> err_kind e = InvalidInput))"

section \<open>Quoting, as a function of the argument\<close>

text \<open>The quoter appends to its output: \<open>enc\<close> is what it appends for the rest of an
  argument when \<open>k\<close> backslashes have just been written.\<close>

fun enc :: "bool \<Rightarrow> nat \<Rightarrow> u16 list \<Rightarrow> u16 list" where
  "enc q k [] = (if q then replicate k BACKSLASH @ [QUOTE] else [])"
| "enc q k (u # us) =
    (if u = BACKSLASH then u # enc q (Suc k) us
     else (if u = QUOTE then replicate (Suc k) BACKSLASH else []) @ u # enc q 0 us)"

lemma quote_loop_enc:
  "(case quote_loop us k out of
      (n, o1) \<Rightarrow> if q then o1 @ replicate n BACKSLASH @ [QUOTE] else o1) = out @ enc q k us"
  by (induction us k out rule: quote_loop.induct) (auto simp: Let_def)

lemma quote_arg_into_enc:
  "quote_arg_into arg out =
    out @ (if needs_quote arg then [QUOTE] else []) @ enc (needs_quote arg) 0 arg"
  using quote_loop_enc[of True arg 0 "out @ [QUOTE]"] quote_loop_enc[of False arg 0 out]
  by (auto simp: quote_arg_into_def split: prod.splits)

lemma double_quotes_append:
  "double_quotes us out = out @ concat (map (\<lambda>u. if u = QUOTE then [QUOTE, QUOTE] else [u]) us)"
  by (induction us out rule: double_quotes.induct) auto

section \<open>The splitter reads back what the quoter wrote\<close>

lemma split_args_backslashes:
  assumes "0 < n" and "\<And>y ys. tail = y # ys \<Longrightarrow> y \<noteq> BACKSLASH"
  shows "split_args (replicate n BACKSLASH @ tail) q a cur out =
    (if tail \<noteq> [] \<and> hd tail = QUOTE then
       split_args (tl tail) (if odd n then q else \<not> q) True
         (cur @ replicate (n div 2) BACKSLASH @ (if odd n then [QUOTE] else [])) out
     else split_args tail q True (cur @ replicate n BACKSLASH) out)"
proof -
  obtain m where n: "n = Suc m" using assms(1) by (cases n) auto
  show ?thesis
    using takeWhile_replicate_append[of tail BACKSLASH n] takeWhile_replicate_append[of tail BACKSLASH m]
      assms(2)
    by (auto simp: n Let_def)
qed

lemma split_args_enc:
  assumes tail: "\<And>y ys. tail = y # ys \<Longrightarrow> y = SPACE"
    and plain: "\<not> q \<Longrightarrow> SPACE \<notin> set us \<and> TAB \<notin> set us \<and> QUOTE \<notin> set us"
  shows "split_args (replicate k BACKSLASH @ enc q k us @ tail) q a cur out =
    split_args tail False (a \<or> q \<or> 0 < k \<or> us \<noteq> []) (cur @ replicate k BACKSLASH @ us) out"
  using plain
proof (induction us arbitrary: k a cur)
  case Nil
  have twice: "replicate k BACKSLASH @ replicate k BACKSLASH = replicate (2 * k) BACKSLASH"
    by (simp add: replicate_add[symmetric] mult_2)
  show ?case
  proof (cases "k = 0")
    case True
    then show ?thesis by (cases q) simp_all
  next
    case k: False
    show ?thesis
    proof (cases q)
      case True
      have "split_args (replicate (2 * k) BACKSLASH @ QUOTE # tail) q a cur out =
          split_args tail False True (cur @ replicate k BACKSLASH) out"
        using k True by (subst split_args_backslashes) auto
      then show ?thesis using True by (simp add: twice[symmetric] del: split_args.simps)
    next
      case False
      have "tail \<noteq> [] \<Longrightarrow> hd tail = SPACE" using tail by (cases tail) auto
      moreover have "\<And>y ys. tail = y # ys \<Longrightarrow> y \<noteq> BACKSLASH" using tail by force
      ultimately show ?thesis using k False by (auto simp: split_args_backslashes)
    qed
  qed
next
  case (Cons u us)
  show ?case
  proof (cases "u = BACKSLASH")
    case True
    have app: "replicate k BACKSLASH @ BACKSLASH # xs = replicate (Suc k) BACKSLASH @ xs" for xs
      by (simp add: replicate_app_Cons_same)
    then show ?thesis using True Cons.IH[of "Suc k" a cur] Cons.prems
      by (simp add: app del: split_args.simps replicate_Suc)
  next
    case nbs: False
    show ?thesis
    proof (cases "u = QUOTE")
      case True
      then have q using Cons.prems by auto
      have "replicate k BACKSLASH @ replicate (Suc k) BACKSLASH = replicate (2 * k + 1) BACKSLASH"
        by (simp only: replicate_add[symmetric]) simp
      then have "split_args (replicate k BACKSLASH @ enc q k (u # us) @ tail) q a cur out =
          split_args (enc q 0 us @ tail) q True (cur @ replicate k BACKSLASH @ [QUOTE]) out"
        using True split_args_backslashes[of "2 * k + 1" "QUOTE # enc q 0 us @ tail" q a cur out]
        by (simp del: replicate_Suc) (metis append.assoc)
      then show ?thesis using Cons.IH[of 0 True "cur @ replicate k BACKSLASH @ [QUOTE]"] True \<open>q\<close> by simp
    next
      case nq: False
      have step: "split_args (u # xs) q b c out = split_args xs q True (c @ [u]) out" for xs b c
        using nbs nq Cons.prems by auto
      have "split_args (replicate k BACKSLASH @ u # enc q 0 us @ tail) q a cur out =
          split_args (enc q 0 us @ tail) q True (cur @ replicate k BACKSLASH @ [u]) out"
        using nbs nq split_args_backslashes[of k "u # enc q 0 us @ tail" q a cur out]
        by (cases "k = 0") (simp_all add: step del: split_args.simps)
      then show ?thesis
        using nbs nq Cons.IH[of 0 True "cur @ replicate k BACKSLASH @ [u]"] Cons.prems by simp
    qed
  qed
qed

lemma split_args_quoted:
  assumes "\<And>y ys. tail = y # ys \<Longrightarrow> y = SPACE"
  shows "split_args (quote_arg_into arg [] @ tail) False a cur out =
    split_args tail False True (cur @ arg) out"
proof (cases "needs_quote arg")
  case True
  then show ?thesis
    using split_args_enc[of tail True arg 0 True cur out] assms
    by (simp add: quote_arg_into_enc)
next
  case False
  then have "arg \<noteq> []" "SPACE \<notin> set arg \<and> TAB \<notin> set arg \<and> QUOTE \<notin> set arg"
    by (auto simp: needs_quote_def list_ex_iff)
  then show ?thesis
    using split_args_enc[of tail False arg 0 a cur out] assms False
    by (simp add: quote_arg_into_enc)
qed

lemma push_args_Batch:
  "push_args Batch args out =
    (if list_ex (list_ex batch_forbidden) args
     then Err (refuse ''winargv: unrepresentable batch argument'')
     else Ok (out @ concat (map (\<lambda>a. SPACE # double_quotes a [QUOTE] @ [QUOTE]) args)))"
proof (induction args arbitrary: out)
  case (Cons arg args)
  have "double_quotes arg (out @ [SPACE, QUOTE]) = out @ SPACE # double_quotes arg [QUOTE]"
    by (simp add: double_quotes_append)
  then show ?case by (auto simp: quote_batch_arg_into_def Cons)
qed simp

lemma push_args_Executable:
  "push_args Executable args out = Ok (out @ concat (map (\<lambda>a. SPACE # quote_arg_into a []) args))"
proof (induction args arbitrary: out)
  case (Cons arg args)
  then show ?case by (simp add: quote_arg_into_enc)
qed simp

lemma split_args_line:
  "split_args (concat (map (\<lambda>a. SPACE # quote_arg_into a []) args)) False in_arg
     (if in_arg then cur else []) out = (if in_arg then out @ [cur] else out) @ args"
proof (induction args arbitrary: in_arg cur out)
  case (Cons arg args)
  let ?tail = "concat (map (\<lambda>a. SPACE # quote_arg_into a []) args)"
  have "y = SPACE" if "?tail = y # ys" for y ys using that by (cases args) auto
  then have quoted: "split_args (quote_arg_into arg [] @ ?tail) False False [] o1 =
      split_args ?tail False True arg o1" for o1
    using split_args_quoted[of ?tail arg False "[]" o1] by simp
  show ?case
    using quoted Cons[of True arg] by simp
qed simp

lemma split_args_line_fresh:
  "split_args (concat (map (\<lambda>a. SPACE # quote_arg_into a []) args)) False False [] out = out @ args"
  using split_args_line[of args False "[]" out] by simp

section \<open>The program token\<close>

text \<open>The program token is read by the simple rule, which knows no escapes: it reads a
  program back when it has no quote and, if it must be quoted, does not end in a backslash.\<close>

definition simple_program :: "u16 list \<Rightarrow> bool" where
  "simple_program p \<longleftrightarrow> p \<noteq> [] \<and> QUOTE \<notin> set p
    \<and> (SPACE \<in> set p \<or> TAB \<in> set p \<longrightarrow> last p \<noteq> BACKSLASH)"

lemma enc_no_quote:
  assumes "QUOTE \<notin> set us"
  shows "enc q k us = us @ (if q then
    replicate (if \<forall>u\<in>set us. u = BACKSLASH then k + length us
               else length (takeWhile ((=) BACKSLASH) (rev us))) BACKSLASH @ [QUOTE] else [])"
  using assms
proof (induction us arbitrary: k)
  case (Cons u us)
  have "takeWhile ((=) BACKSLASH) (rev us @ [u]) = takeWhile ((=) BACKSLASH) (rev us)"
    if "\<exists>x\<in>set us. x \<noteq> BACKSLASH"
    using that by (auto simp: takeWhile_append)
  moreover have "length (takeWhile ((=) BACKSLASH) (rev us @ [u])) = length us"
    if "\<forall>x\<in>set us. x = BACKSLASH" "u \<noteq> BACKSLASH"
    using that by (simp add: takeWhile_append)
  ultimately show ?case using Cons by (cases q; auto)
qed simp

lemma split_program_quoted:
  assumes "simple_program p"
    and "\<And>y ys. rest = y # ys \<Longrightarrow> y = SPACE"
  shows "split_program (quote_arg_into p [] @ rest) = (p, rest)"
proof (cases "needs_quote p")
  case True
  have p: "p \<noteq> []" "QUOTE \<notin> set p" "last p \<noteq> BACKSLASH"
    using assms True by (auto simp: simple_program_def needs_quote_def list_ex_iff)
  then obtain u us where "rev p = u # us" "u \<noteq> BACKSLASH" "last p \<in> set p"
    by (cases "rev p") auto
  then have "enc True 0 p = p @ [QUOTE]"
    using p by (auto simp: enc_no_quote)
  then show ?thesis using True p
    by (auto simp: quote_arg_into_enc split_program_def takeWhile_append dropWhile_append)
next
  case False
  then have p: "p \<noteq> []" "QUOTE \<notin> set p" "SPACE \<notin> set p" "TAB \<notin> set p"
    by (auto simp: needs_quote_def list_ex_iff)
  then have "hd p \<noteq> QUOTE" by (metis hd_in_set)
  moreover have "takeWhile (\<lambda>u. u \<noteq> SPACE \<and> u \<noteq> TAB) (p @ rest) = p"
    "dropWhile (\<lambda>u. u \<noteq> SPACE \<and> u \<noteq> TAB) (p @ rest) = rest"
    using p assms(2) by (cases rest; auto simp: takeWhile_append dropWhile_append)+
  ultimately show ?thesis using False p
    by (simp add: quote_arg_into_enc split_program_def enc_no_quote)
qed

lemma build_Executable:
  assumes "classify p = Executable" "p \<noteq> []" "0 \<notin> set p" "\<not> list_ex (\<lambda>a. 0 \<in> set a) args"
  shows "build_command_line_wide p args =
    Ok (quote_arg_into p [] @ concat (map (\<lambda>a. SPACE # quote_arg_into a []) args))"
  using assms by (simp add: build_command_line_wide_def push_args_Executable)

lemma model_split_line:
  assumes "simple_program p"
  shows "model_split (quote_arg_into p [] @ concat (map (\<lambda>a. SPACE # quote_arg_into a []) args)) = p # args"
proof -
  have "y = SPACE" if "concat (map (\<lambda>a. SPACE # quote_arg_into a []) args) = y # ys" for y ys
    using that by (cases args) auto
  then show ?thesis
    using split_program_quoted[OF assms] by (simp add: model_split_def split_args_line_fresh)
qed

lemma enc_set: "set (enc q k us) \<subseteq> set us \<union> {QUOTE, BACKSLASH}"
  by (induction us arbitrary: k) (auto split: if_splits)

lemma quote_arg_into_set: "set (quote_arg_into p []) \<subseteq> set p \<union> {QUOTE, BACKSLASH}"
  using enc_set[of "needs_quote p" 0 p] by (auto simp: quote_arg_into_enc)

lemma list_ex_NUL_forbidden:
  "list_ex (\<lambda>a. 0 \<in> set a) args \<Longrightarrow> list_ex (list_ex batch_forbidden) args"
  by (auto simp: list_ex_iff batch_forbidden_def)

lemma build_Batch:
  assumes "classify p = Batch" "0 \<notin> set p"
  shows "build_command_line_wide p args =
    (if list_ex (\<lambda>a. 0 \<in> set a) args then Err (refuse ''winargv: embedded NUL'')
     else if list_ex (list_ex batch_forbidden) args
     then Err (refuse ''winargv: unrepresentable batch argument'')
     else Ok (quote_arg_into p [] @ concat (map (\<lambda>a. SPACE # double_quotes a [QUOTE] @ [QUOTE]) args)))"
proof -
  have "p \<noteq> []" using assms by (auto simp: classify_def)
  then show ?thesis using assms by (simp add: build_command_line_wide_def push_args_Batch)
qed

lemma double_quotes_set: "set (double_quotes us [QUOTE]) \<subseteq> set us \<union> {QUOTE}"
  by (auto simp: double_quotes_append split: if_splits)

lemma batch_line_no_newline:
  assumes "\<not> list_ex (list_ex batch_forbidden) args" "u = 0x0D \<or> u = 0x0A"
  shows "u \<notin> set (concat (map (\<lambda>a. SPACE # double_quotes a [QUOTE] @ [QUOTE]) args))"
proof -
  have "u \<notin> set (double_quotes a [QUOTE])" if "a \<in> set args" for a
  proof -
    have "u \<notin> set a \<union> {QUOTE}" using that assms by (auto simp: list_ex_iff batch_forbidden_def)
    then show ?thesis using double_quotes_set[of a] by blast
  qed
  then show ?thesis using assms(2) by auto
qed

section \<open>A reference reader for one shell word\<close>

text \<open>\<open>sh_word\<close> reads one POSIX shell word under quote removal: inside single quotes every
  character stands for itself, outside a backslash makes the next one literal, and any
  other character the shell treats specially makes the word unreadable.\<close>

fun sh_read :: "bool \<Rightarrow> string \<Rightarrow> string option" where
  "sh_read True [] = None"
| "sh_read True (c # cs) =
    (if c = CHR 0x27 then sh_read False cs else map_option ((#) c) (sh_read True cs))"
| "sh_read False [] = Some []"
| "sh_read False [c] = (if shell_special c then None else Some [c])"
| "sh_read False (c # d # cs) =
    (if c = CHR 0x27 then sh_read True (d # cs)
     else if c = CHR 0x5C then map_option ((#) d) (sh_read False cs)
     else if shell_special c then None
     else map_option ((#) c) (sh_read False (d # cs)))"

definition sh_word :: "string \<Rightarrow> string option" where
  "sh_word s = (if s = [] then None else sh_read False s)"

lemma sh_read_plain: "\<not> list_ex shell_special s \<Longrightarrow> sh_read False s = Some s"
proof (induction s rule: induct_list012)
  case (3 c d cs)
  then have "c \<noteq> CHR 0x27" "c \<noteq> CHR 0x5C" by (auto simp: shell_special_def)
  with 3 show ?case by simp
qed simp_all

lemma sh_read_open: "xs \<noteq> [] \<Longrightarrow> sh_read False (CHR 0x27 # xs) = sh_read True xs"
  by (cases xs) auto

lemma sh_read_escape: "sh_read True (posix_escape s @ [CHR 0x27]) = Some s"
  by (induction s) (auto simp: sh_read_open)

section \<open>Properties\<close>

text \<open>C2.  The fuzz oracle of the command-line builder holds for every argument vector: under
  an executable program the built line splits back to exactly the arguments given, with NUL
  the only refusal; under a batch program exactly the vectors holding NUL, CR, LF or a
  percent sign are refused, and no accepted line carries a CR or LF.\<close>

theorem winargv_check_holds: "check args"
proof -
  have exe: "classify prog_exe = Executable" "simple_program prog_exe" "0 \<notin> set prog_exe"
    "prog_exe \<noteq> []"
    by (simp_all add: prog_exe_def classify_def to_lower_unit_def simple_program_def)
  have bat: "classify s_bat = Batch" "0 \<notin> set s_bat" "quote_arg_into s_bat [] = s_bat"
    by (simp_all add: s_bat_def classify_def to_lower_unit_def quote_arg_into_def needs_quote_def)
  have forbidden: "(\<lambda>u. u = 0 \<or> u = 0x0D \<or> u = 0x0A \<or> u = 0x25) = batch_forbidden"
    by (auto simp: batch_forbidden_def)
  have "case build_command_line_wide prog_exe args of
        Ok line \<Rightarrow>
          \<not> list_ex (\<lambda>a. 0 \<in> set a) args
          \<and> length (model_split line) = length args + 1
          \<and> list_all (\<lambda>i. model_split line ! (i + 1) = args ! i) [0..<length args]
      | Err e \<Rightarrow> list_ex (\<lambda>a. 0 \<in> set a) args \<and> err_kind e = InvalidInput"
  proof (cases "list_ex (\<lambda>a. 0 \<in> set a) args")
    case True
    then show ?thesis using exe by (simp add: build_command_line_wide_def refuse_def)
  next
    case False
    then show ?thesis using exe by (simp add: build_Executable model_split_line list_all_iff)
  qed
  moreover have "0x0D \<notin> set s_bat" "0x0A \<notin> set s_bat" by (simp_all add: s_bat_def)
  ultimately show ?thesis
    using batch_line_no_newline[of args] list_ex_NUL_forbidden[of args]
    unfolding check_def forbidden build_Batch[OF bat(1,2)] bat(3)
    by (simp add: refuse_def del: set_concat)
qed

text \<open>C9.  For any executable program the simple rule can read, and any arguments without
  NUL, a command line is built and the splitter returns the program followed by the
  arguments, unit for unit.\<close>

theorem build_command_line_roundtrip:
  assumes "classify program = Executable" "simple_program program" "0 \<notin> set program"
    and "\<not> list_ex (\<lambda>a. 0 \<in> set a) args"
  shows "\<exists>line. build_command_line_wide program args = Ok line \<and> model_split line = program # args"
  using assms model_split_line build_Executable by (auto simp: simple_program_def)

theorem build_command_line_roundtrip_witness:
  "\<exists>line. build_command_line_wide [0x61, 0x20, 0x62] [[], [0x5C, 0x22], [0x5C]] = Ok line
    \<and> model_split line = [[0x61, 0x20, 0x62], [], [0x5C, 0x22], [0x5C]]"
  by (rule build_command_line_roundtrip) (simp_all add: classify_def simple_program_def)

text \<open> Acceptance is exact: a command line is built precisely when the program is
  nonempty, no unit of program or arguments is NUL, and, for a batch target, no argument
  holds CR, LF or a percent sign; every refusal is \<open>InvalidInput\<close>.\<close>

theorem build_command_line_accepts_iff:
  "(is_ok (build_command_line_wide program args) \<longleftrightarrow>
      program \<noteq> [] \<and> 0 \<notin> set program \<and> \<not> list_ex (\<lambda>a. 0 \<in> set a) args
      \<and> \<not> (classify program = Batch \<and> list_ex (list_ex batch_forbidden) args))
   \<and> (is_ok (build_command_line_wide program args)
      \<or> fails_with InvalidInput (build_command_line_wide program args))"
  by (cases "classify program")
    (auto simp: build_command_line_wide_def push_args_Executable push_args_Batch refuse_def)

text \<open>POSIX quoting is exact: whatever the argument, the quoted text is one shell word
  that a shell reads back as the argument itself.\<close>

theorem posix_quote_arg_exact: "sh_word (posix_quote_arg arg) = Some arg"
proof (cases "arg = [] \<or> \<not> list_ex shell_special arg")
  case True
  then show ?thesis by (auto simp: posix_quote_arg_def sh_word_def sh_read_plain)
next
  case False
  obtain d ds where d: "posix_escape arg @ [CHR 0x27] = d # ds" by (cases "posix_escape arg") auto
  then have "sh_read False (CHR 0x27 # d # ds) = Some arg" using sh_read_escape[of arg] by simp
  then show ?thesis using False d by (simp add: posix_quote_arg_def sh_word_def)
qed

end
