(* ===== verification/Utf8.thy ===== *)
theory Utf8
  imports Prelude
begin

text \<open>
  UTF-8 as the standard library decides it: validity (\<open>String::from_utf8\<close>), the
  lossy reading (\<open>to_string_lossy\<close>, which puts U+FFFD for each maximal invalid
  piece), and the number of characters of a text.
\<close>

definition cont_byte :: "u8 \<Rightarrow> bool" where
  "cont_byte b = (0x80 \<le> b \<and> b \<le> 0xBF)"

text \<open>\<open>utf8_width\<close> is the length of the valid sequence at the front, and zero if there is none.\<close>

definition utf8_need :: "u8 \<Rightarrow> nat" where
  "utf8_need a =
    (if a < 0x80 then 1 else if 0xC2 \<le> a \<and> a \<le> 0xDF then 2
     else if 0xE0 \<le> a \<and> a \<le> 0xEF then 3 else if 0xF0 \<le> a \<and> a \<le> 0xF4 then 4 else 0)"

definition second_ok :: "u8 \<Rightarrow> u8 \<Rightarrow> bool" where
  "second_ok a b = (cont_byte b \<and> (a = 0xE0 \<longrightarrow> 0xA0 \<le> b) \<and> (a = 0xED \<longrightarrow> b \<le> 0x9F)
     \<and> (a = 0xF0 \<longrightarrow> 0x90 \<le> b) \<and> (a = 0xF4 \<longrightarrow> b \<le> 0x8F))"

definition utf8_width :: "bytes \<Rightarrow> nat" where
  "utf8_width bs =
    (case bs of [] \<Rightarrow> 0 | a # as \<Rightarrow>
     let n = utf8_need a in
     if n = 0 \<or> length bs < n then 0
     else if n = 1 \<or> (second_ok a (hd as) \<and> list_all cont_byte (take (n - 2) (tl as))) then n
     else 0)"

lemma utf8_width_le: "utf8_width bs \<le> length bs"
  by (cases bs) (auto simp: utf8_width_def Let_def)

lemma utf8_width_append:
  assumes "0 < utf8_width xs"
  shows "utf8_width (xs @ ys) = utf8_width xs"
proof -
  obtain a as where xs: "xs = a # as" using assms by (cases xs) (auto simp: utf8_width_def)
  have n: "0 < utf8_need a" "utf8_need a \<le> length xs"
    using assms by (auto simp: xs utf8_width_def Let_def split: if_splits)
  show ?thesis
  proof (cases "utf8_need a = 1")
    case False
    then have "as \<noteq> []" "utf8_need a - 2 \<le> length (tl as)" using n xs by auto
    then show ?thesis using n xs by (simp add: utf8_width_def Let_def)
  qed (use xs in \<open>simp add: utf8_width_def\<close>)
qed

function utf8_valid :: "bytes \<Rightarrow> bool" where
  "utf8_valid bs =
    (if bs = [] then True else if utf8_width bs = 0 then False
     else utf8_valid (drop (utf8_width bs) bs))"
  by pat_completeness auto
termination utf8_valid
  by (relation "measure length") auto

declare utf8_valid.simps [simp del]

lemma utf8_valid_Nil [simp]: "utf8_valid []"
  by (simp add: utf8_valid.simps)

lemma utf8_valid_append: "utf8_valid xs \<Longrightarrow> utf8_valid ys \<Longrightarrow> utf8_valid (xs @ ys)"
proof (induction xs rule: utf8_valid.induct)
  case (1 xs)
  show ?case
  proof (cases "xs = []")
    case False
    then have w: "0 < utf8_width xs" "utf8_valid (drop (utf8_width xs) xs)"
      using "1.prems"(1) utf8_valid.simps[of xs] by (auto split: if_splits)
    then have "utf8_valid (drop (utf8_width xs) xs @ ys)" using "1.IH" "1.prems"(2) False by simp
    then show ?thesis
      using w utf8_width_append[OF w(1)] utf8_width_le[of xs] by (subst utf8_valid.simps) simp
  qed (use 1 in simp)
qed

lemma utf8_valid_ascii: "a < 0x80 \<Longrightarrow> utf8_valid (a # as) = utf8_valid as"
  by (subst utf8_valid.simps) (simp add: utf8_width_def utf8_need_def)

definition is_str :: "string \<Rightarrow> bool" where
  "is_str s = utf8_valid (as_bytes s)"

text \<open>The length of the invalid piece at the front: a truncated sequence counts as far as it is
  well formed.\<close>

definition utf8_bad_len :: "bytes \<Rightarrow> nat" where
  "utf8_bad_len bs =
    (case bs of
       a # b # cs \<Rightarrow>
         if 3 \<le> utf8_need a \<and> second_ok a b
         then 2 + length (takeWhile cont_byte (take (utf8_need a - 2) cs)) else 1
     | _ \<Rightarrow> 1)"

lemma utf8_bad_len_pos: "0 < utf8_bad_len bs"
  by (simp add: utf8_bad_len_def split: list.split)

function utf8_lossy :: "bytes \<Rightarrow> bytes" where
  "utf8_lossy bs =
    (if bs = [] then []
     else if utf8_width bs = 0 then [0xEF, 0xBF, 0xBD] @ utf8_lossy (drop (utf8_bad_len bs) bs)
     else take (utf8_width bs) bs @ utf8_lossy (drop (utf8_width bs) bs))"
  by pat_completeness auto
termination utf8_lossy
  by (relation "measure length") (auto simp: utf8_bad_len_pos)

declare utf8_lossy.simps [simp del]

definition to_string_lossy :: "string \<Rightarrow> string" where
  "to_string_lossy s = from_bytes (utf8_lossy (as_bytes s))"

lemma utf8_lossy_valid: "utf8_valid bs \<Longrightarrow> utf8_lossy bs = bs"
proof (induction bs rule: utf8_valid.induct)
  case (1 bs)
  then show ?case
    by (subst utf8_lossy.simps) (use 1 utf8_valid.simps[of bs] in \<open>auto split: if_splits\<close>)
qed

lemma to_string_lossy_str: "is_str s \<Longrightarrow> to_string_lossy s = s"
  by (simp add: to_string_lossy_def is_str_def utf8_lossy_valid)

definition char_count :: "string \<Rightarrow> nat" where
  "char_count s = length (filter (\<lambda>b. \<not> cont_byte b) (as_bytes s))"

end
