(* ===== verification/Dbus_Value.thy ===== *)
theory Dbus_Value
  imports Platform_Error Utf8
begin

text \<open>
  The D-Bus values and the signature grammar of
  \<open>platform-linux/src/sys/dbus/value.rs\<close>.  A \<open>Double\<close> is its 64-bit pattern: the
  code only moves its bytes.  Indexing or slicing out of range is a \<open>Panic\<close>.
\<close>

section \<open>String slices\<close>

text \<open>A string slice \<open>&s[i..j]\<close>: it panics out of range and inside a character.\<close>

definition char_boundary :: "string \<Rightarrow> nat \<Rightarrow> bool" where
  "char_boundary s i = (i = length s \<or> (i < length s \<and>
     \<not> (0x80 \<le> (of_char (s ! i) :: nat) \<and> (of_char (s ! i) :: nat) < 0xC0)))"

definition str_slice :: "string \<Rightarrow> nat \<Rightarrow> nat \<Rightarrow> string run" where
  "str_slice s i j =
    (if i \<le> j \<and> j \<le> length s \<and> char_boundary s i \<and> char_boundary s j
     then Ret (take (j - i) (drop i s)) else Panic)"

section \<open>Values\<close>

datatype Value =
    Byte u8 | Boolean bool | Int16 u16 | UInt16 u16 | Int32 u32 | UInt32 u32
  | Int64 u64 | UInt64 u64 | Double u64
  | String string | ObjectPath string | Signature string
  | Array string "Value list" | Struct "Value list" | Variant Value
  | DictEntry Value Value

definition bad_signature :: "string \<Rightarrow> PlatformError" where
  "bad_signature detail = new_error InvalidInput NoCode detail"

definition align_of :: "char \<Rightarrow> nat" where
  "align_of c =
    (if c \<in> set ''ygv'' then 1
     else if c \<in> set ''nq'' then 2
     else if c \<in> set ''biusoa'' then 4
     else if c \<in> set ''xtd({'' then 8
     else 1)"

fun bracketed_scan :: "char \<Rightarrow> char \<Rightarrow> int \<Rightarrow> nat \<Rightarrow> string \<Rightarrow> nat result" where
  "bracketed_scan opn cls depth i [] = Err (bad_signature ''unterminated container type'')"
| "bracketed_scan opn cls depth i (b # bs) =
    (if b = opn then bracketed_scan opn cls (depth + 1) (i + 1) bs
     else if b = cls then
       (if depth - 1 = 0 then Ok (i + 1) else bracketed_scan opn cls (depth - 1) (i + 1) bs)
     else bracketed_scan opn cls depth (i + 1) bs)"

definition bracketed_len :: "string \<Rightarrow> char \<Rightarrow> char \<Rightarrow> nat result" where
  "bracketed_len sig opn cls = bracketed_scan opn cls 0 0 sig"

definition basic_code :: "char \<Rightarrow> bool" where
  "basic_code c = (c \<in> set ''ybnqiuxtdsogv'')"

fun type_len :: "string \<Rightarrow> nat result" where
  "type_len [] = Err (bad_signature ''empty signature where a type was expected'')"
| "type_len (c # cs) =
    (if c = CHR ''a'' then and_then (type_len cs) (\<lambda>n. Ok (1 + n))
     else if c = CHR ''('' then bracketed_len (c # cs) (CHR ''('') (CHR '')'')
     else if c = CHR ''{'' then bracketed_len (c # cs) (CHR ''{'') (CHR ''}'')
     else if basic_code c then Ok 1
     else Err (bad_signature ''unrecognized or unsupported type code''))"

definition split_one :: "string \<Rightarrow> (string \<times> string) result" where
  "split_one sig = and_then (type_len sig) (\<lambda>n. Ok (take n sig, drop n sig))"

fun signature_of :: "Value \<Rightarrow> string" where
  "signature_of (Byte _) = ''y''"
| "signature_of (Boolean _) = ''b''"
| "signature_of (Int16 _) = ''n''"
| "signature_of (UInt16 _) = ''q''"
| "signature_of (Int32 _) = ''i''"
| "signature_of (UInt32 _) = ''u''"
| "signature_of (Int64 _) = ''x''"
| "signature_of (UInt64 _) = ''t''"
| "signature_of (Double _) = ''d''"
| "signature_of (String _) = ''s''"
| "signature_of (ObjectPath _) = ''o''"
| "signature_of (Signature _) = ''g''"
| "signature_of (Array elem_sig _) = ''a'' @ elem_sig"
| "signature_of (Struct fs) = ''('' @ concat (map signature_of fs) @ '')''"
| "signature_of (Variant _) = ''v''"
| "signature_of (DictEntry k v) = ''{'' @ signature_of k @ signature_of v @ ''}''"

section \<open>Complete types\<close>

text \<open>Bracket balance of one kind: the depth never falls below zero and ends at zero.\<close>

fun balanced :: "char \<Rightarrow> char \<Rightarrow> nat \<Rightarrow> string \<Rightarrow> bool" where
  "balanced opn cls d [] = (d = 0)"
| "balanced opn cls d (b # bs) =
    (if b = opn then balanced opn cls (Suc d) bs
     else if b = cls then (d \<noteq> 0 \<and> balanced opn cls (d - 1) bs)
     else balanced opn cls d bs)"

definition complete_type :: "string \<Rightarrow> bool" where
  "complete_type s = (type_len s = Ok (length s)
    \<and> balanced (CHR ''('') (CHR '')'') 0 s \<and> balanced (CHR ''{'') (CHR ''}'') 0 s)"

lemma bracketed_scan_append:
  "bracketed_scan opn cls d i s = Ok n \<Longrightarrow> bracketed_scan opn cls d i (s @ t) = Ok n"
  by (induction opn cls d i s rule: bracketed_scan.induct) (auto split: if_splits)

lemma bracketed_scan_balanced:
  assumes "balanced opn cls d s" "opn \<noteq> cls"
  shows "bracketed_scan opn cls (int d + 1) i (s @ cls # t) = Ok (i + length s + 1)"
  using assms(1)
proof (induction s arbitrary: d i)
  case (Cons b s)
  consider "b = opn" | "b = cls" "b \<noteq> opn" | "b \<noteq> opn" "b \<noteq> cls" by blast
  then show ?case
  proof cases
    case 1
    then show ?thesis using Cons.IH[of "Suc d" "Suc i"] Cons.prems by (simp add: add.commute)
  next
    case 2
    then obtain d' where "d = Suc d'" using Cons.prems by (cases d) auto
    then show ?thesis using 2 Cons.IH[of d' "Suc i"] Cons.prems by (simp add: add.commute)
  next
    case 3
    then show ?thesis using Cons.IH[of d "Suc i"] Cons.prems by simp
  qed
qed (use assms(2) in simp)

lemma balanced_append:
  "balanced opn cls d s \<Longrightarrow> balanced opn cls (d + e) (s @ t) = balanced opn cls e t"
proof (induction s arbitrary: d)
  case (Cons b s)
  consider "b = opn" | "b = cls" "b \<noteq> opn" | "b \<noteq> opn" "b \<noteq> cls" by blast
  then show ?case
  proof cases
    case 1
    then show ?thesis using Cons.IH[of "Suc d"] Cons.prems by simp
  next
    case 2
    then obtain d' where "d = Suc d'" using Cons.prems by (cases d) auto
    then show ?thesis using 2 Cons by simp
  qed (use Cons in simp)
qed simp

lemmas balanced_append0 [simp] = balanced_append[where d = 0, simplified]

lemma balanced_concat:
  "(\<And>x. x \<in> set xs \<Longrightarrow> balanced opn cls 0 x) \<Longrightarrow> balanced opn cls 0 (concat xs)"
  by (induction xs) simp_all

lemma type_len_append: "type_len s = Ok n \<Longrightarrow> type_len (s @ t) = Ok n"
proof (induction s arbitrary: n rule: type_len.induct)
  case (2 c cs)
  show ?case
  proof (cases "c = CHR ''a''")
    case True
    then show ?thesis using 2 by (auto simp: and_then_Ok_iff)
  next
    case False
    then show ?thesis using 2
      by (auto simp: bracketed_len_def intro: bracketed_scan_append split: if_splits)
  qed
qed simp

lemma complete_type_append: "complete_type s \<Longrightarrow> type_len (s @ t) = Ok (length s)"
  by (simp add: complete_type_def type_len_append)

lemma split_one_complete: "complete_type s \<Longrightarrow> split_one (s @ t) = Ok (s, t)"
  by (simp add: split_one_def complete_type_append)

lemma complete_type_not_Nil: "complete_type s \<Longrightarrow> s \<noteq> []"
  by (auto simp: complete_type_def)

text \<open>The five ways a complete type is made.\<close>

lemma complete_type_basic: "basic_code c \<Longrightarrow> complete_type [c]"
  by (auto simp: complete_type_def basic_code_def)

lemma complete_type_array: "complete_type s \<Longrightarrow> complete_type (CHR ''a'' # s)"
  by (simp add: complete_type_def)

lemma bracketed_len_wrap:
  assumes "balanced opn cls 0 s" "opn \<noteq> cls"
  shows "bracketed_len (opn # s @ [cls]) opn cls = Ok (length s + 2)"
  using bracketed_scan_balanced[OF assms, of 1 "[]"] by (simp add: bracketed_len_def)

lemma balanced_wrap:
  assumes "balanced opn cls 0 s" "opn \<noteq> cls"
  shows "balanced opn cls 0 (opn # s @ [cls])"
  using balanced_append[OF assms(1), of 1 "[cls]"] assms(2) by simp

lemma complete_type_struct:
  assumes "\<And>x. x \<in> set xs \<Longrightarrow> complete_type x"
  shows "complete_type (CHR ''('' # concat xs @ '')'')"
proof -
  have b: "balanced (CHR ''('') (CHR '')'') 0 (concat xs)" "balanced (CHR ''{'') (CHR ''}'') 0 (concat xs)"
    using assms by (auto simp: complete_type_def intro: balanced_concat)
  then show ?thesis
    using balanced_wrap[OF b(1)] bracketed_len_wrap[OF b(1)] by (simp add: complete_type_def)
qed

lemma complete_type_dict:
  assumes "complete_type k" "complete_type v"
  shows "complete_type (CHR ''{'' # k @ v @ ''}'')"
proof -
  have b: "balanced (CHR ''{'') (CHR ''}'') 0 (k @ v)"
    using assms by (simp add: complete_type_def)
  show ?thesis
    using balanced_wrap[OF b] bracketed_len_wrap[OF b] assms by (simp add: complete_type_def)
qed

section \<open>Well-formed values\<close>

text \<open>\<open>wf_value\<close> is the D-Bus type discipline on a value: text is text, an array's elements
  have its element type, structs are not empty, the key of a dict entry is of a basic
  type and every signature that travels in a variant fits its one-byte length.\<close>

fun wf_value :: "Value \<Rightarrow> bool" where
  "wf_value (String s) = is_str s"
| "wf_value (ObjectPath s) = is_str s"
| "wf_value (Signature s) = (is_str s \<and> length s < 256)"
| "wf_value (Array e vs) = (complete_type e \<and> is_str e \<and> list_all (\<lambda>v. signature_of v = e \<and> wf_value v) vs)"
| "wf_value (Struct vs) = (vs \<noteq> [] \<and> list_all wf_value vs)"
| "wf_value (Variant v) = (wf_value v \<and> length (signature_of v) < 256)"
| "wf_value (DictEntry k v) = (wf_value k \<and> wf_value v \<and> length (signature_of k) = 1)"
| "wf_value _ = True"

lemma wf_value_complete: "wf_value v \<Longrightarrow> complete_type (signature_of v)"
proof (induction v rule: wf_value.induct)
  case (5 vs)
  then have "complete_type (CHR ''('' # concat (map signature_of vs) @ '')'')"
    by (intro complete_type_struct) (auto simp: list_all_iff)
  then show ?case by simp
next
  case (7 k v)
  then show ?case using complete_type_dict by simp
qed (auto intro: complete_type_basic complete_type_array simp: basic_code_def)

lemma signature_of_ascii_or_elem: "wf_value v \<Longrightarrow> signature_of v \<noteq> []"
  using complete_type_not_Nil wf_value_complete by blast

end
