(* ===== verification/Dbus_Wire.thy ===== *)
theory Dbus_Wire
  imports Dbus_Value
begin

text \<open>
  Marshaling of \<open>platform-linux/src/sys/dbus/wire.rs\<close>, little-endian and driven by
  the signature.  \<open>marshal\<close> recurses on the values; \<open>unmarshal\<close> is driven by the
  bytes and need not end, so it takes fuel and \<open>None\<close> is \<open>not finished yet\<close>.
  \<open>wire\<close> is the wire format itself, as a function of the position: \<open>marshal\<close> writes
  it and \<open>unmarshal\<close> reads it back.
\<close>

section \<open>The code\<close>

definition pad_len :: "nat \<Rightarrow> nat \<Rightarrow> nat" where
  "pad_len pos align = (align - pos mod align) mod align"

definition pad_to :: "bytes \<Rightarrow> nat \<Rightarrow> bytes" where
  "pad_to buf align = buf @ replicate (pad_len (length buf) align) 0"

definition truncated :: PlatformError where
  "truncated = new_error InvalidInput NoCode ''D-Bus message truncated (need more bytes)''"

definition take_n :: "bytes \<Rightarrow> nat \<Rightarrow> nat \<Rightarrow> (bytes \<times> nat) result" where
  "take_n buf offset n =
    (if offset + n > length buf then Err truncated
     else Ok (take n (drop offset buf), offset + n))"

definition align_read :: "bytes \<Rightarrow> nat \<Rightarrow> nat \<Rightarrow> nat result" where
  "align_read buf offset align =
    (let target = ((offset + align - 1) div align) * align in
     if target > length buf then Err truncated else Ok target)"

abbreviation mismatch :: PlatformError where
  "mismatch \<equiv> bad_signature ''value does not match signature''"

definition marshal_str :: "string \<Rightarrow> bytes \<Rightarrow> bytes" where
  "marshal_str s buf = buf @ to_le_bytes 4 (of_nat (length s) :: u32) @ as_bytes s @ [0]"

definition marshal_sig :: "string \<Rightarrow> bytes \<Rightarrow> bytes" where
  "marshal_sig s buf = buf @ [of_nat (length s)] @ as_bytes s @ [0]"

definition patch_len :: "bytes \<Rightarrow> nat \<Rightarrow> u32 \<Rightarrow> bytes" where
  "patch_len buf len_pos n = take len_pos buf @ to_le_bytes 4 n @ drop (len_pos + 4) buf"

definition marshal_basic :: "char \<Rightarrow> Value \<Rightarrow> bytes \<Rightarrow> bytes run" where
  "marshal_basic c v buf =
    (if c = CHR ''y'' then (case v of Byte x \<Rightarrow> Ret (buf @ [x]) | _ \<Rightarrow> Fail mismatch)
     else if c = CHR ''b'' then
       (case v of Boolean x \<Rightarrow> Ret (pad_to buf 4 @ to_le_bytes 4 (if x then 1 else 0 :: u32))
        | _ \<Rightarrow> Fail mismatch)
     else if c = CHR ''n'' then
       (case v of Int16 x \<Rightarrow> Ret (pad_to buf 2 @ to_le_bytes 2 x) | _ \<Rightarrow> Fail mismatch)
     else if c = CHR ''q'' then
       (case v of UInt16 x \<Rightarrow> Ret (pad_to buf 2 @ to_le_bytes 2 x) | _ \<Rightarrow> Fail mismatch)
     else if c = CHR ''i'' then
       (case v of Int32 x \<Rightarrow> Ret (pad_to buf 4 @ to_le_bytes 4 x) | _ \<Rightarrow> Fail mismatch)
     else if c = CHR ''u'' then
       (case v of UInt32 x \<Rightarrow> Ret (pad_to buf 4 @ to_le_bytes 4 x) | _ \<Rightarrow> Fail mismatch)
     else if c = CHR ''x'' then
       (case v of Int64 x \<Rightarrow> Ret (pad_to buf 8 @ to_le_bytes 8 x) | _ \<Rightarrow> Fail mismatch)
     else if c = CHR ''t'' then
       (case v of UInt64 x \<Rightarrow> Ret (pad_to buf 8 @ to_le_bytes 8 x) | _ \<Rightarrow> Fail mismatch)
     else if c = CHR ''d'' then
       (case v of Double x \<Rightarrow> Ret (pad_to buf 8 @ to_le_bytes 8 x) | _ \<Rightarrow> Fail mismatch)
     else if c = CHR ''s'' \<or> c = CHR ''o'' then
       (case v of String s \<Rightarrow> Ret (marshal_str s (pad_to buf 4))
        | ObjectPath s \<Rightarrow> Ret (marshal_str s (pad_to buf 4))
        | _ \<Rightarrow> Fail mismatch)
     else if c = CHR ''g'' then
       (case v of Signature s \<Rightarrow> Ret (marshal_sig s buf) | _ \<Rightarrow> Fail mismatch)
     else Fail (bad_signature ''unsupported type code''))"

text \<open>\<open>marshal_one\<close> is \<open>marshal_one\<close> of the source with its container arms; the arms of the
  basic types are \<open>marshal_basic\<close>.  The loop over an array's items is \<open>marshal_items\<close>.
  The buffer of a failed call is not returned: no caller looks at it.\<close>

fun marshal_one :: "string \<Rightarrow> Value \<Rightarrow> bytes \<Rightarrow> bytes run"
and marshal :: "string \<Rightarrow> Value list \<Rightarrow> bytes \<Rightarrow> bytes run"
and marshal_items :: "string \<Rightarrow> Value list \<Rightarrow> bytes \<Rightarrow> bytes run" where
  "marshal_one ty v buf =
    (case ty of [] \<Rightarrow> Panic | c # _ \<Rightarrow>
     if c = CHR ''a'' then
       (case v of Array elem_sig items \<Rightarrow>
          run_bind (str_slice ty 1 (length ty)) (\<lambda>rest.
          if elem_sig \<noteq> rest
          then Fail (bad_signature ''array element signature does not match its own value's'')
          else
            let buf1 = pad_to buf 4; len_pos = length buf1; buf2 = buf1 @ replicate 4 0 in
            case elem_sig of [] \<Rightarrow> Panic | e # _ \<Rightarrow>
            let buf3 = pad_to buf2 (align_of e); content_start = length buf3 in
            run_bind (marshal_items elem_sig items buf3) (\<lambda>buf4.
            Ret (patch_len buf4 len_pos (of_nat (length buf4 - content_start)))))
        | _ \<Rightarrow> Fail mismatch)
     else if c = CHR ''('' then
       (case v of Struct fs \<Rightarrow>
          run_bind (str_slice ty 1 (length ty - 1)) (\<lambda>inner. marshal inner fs (pad_to buf 8))
        | _ \<Rightarrow> Fail mismatch)
     else if c = CHR ''v'' then
       (case v of Variant inner \<Rightarrow>
          marshal_one (signature_of inner) inner (marshal_sig (signature_of inner) buf)
        | _ \<Rightarrow> Fail mismatch)
     else if c = CHR ''{'' then
       (case v of DictEntry k val \<Rightarrow>
          run_bind (str_slice ty 1 2) (\<lambda>key_ty.
          run_bind (marshal_one key_ty k (pad_to buf 8)) (\<lambda>buf1.
          run_bind (str_slice ty 2 (length ty - 1)) (\<lambda>val_ty.
          marshal_one val_ty val buf1)))
        | _ \<Rightarrow> Fail mismatch)
     else marshal_basic c v buf)"
| "marshal sig [] buf =
    (if sig = [] then Ret buf
     else run_bind (run_of (split_one sig)) (\<lambda>_.
       Fail (bad_signature ''fewer values than the signature requires'')))"
| "marshal sig (v # vs) buf =
    (if sig = [] then Fail (bad_signature ''more values than the signature requires'')
     else run_bind (run_of (split_one sig)) (\<lambda>(this_ty, rest).
       run_bind (marshal_one this_ty v buf) (\<lambda>buf1. marshal rest vs buf1)))"
| "marshal_items elem_sig [] buf = Ret buf"
| "marshal_items elem_sig (v # vs) buf =
    run_bind (marshal_one elem_sig v buf) (\<lambda>buf1. marshal_items elem_sig vs buf1)"

definition read_num :: "bytes \<Rightarrow> nat \<Rightarrow> nat \<Rightarrow> nat \<Rightarrow> (bytes \<Rightarrow> Value) \<Rightarrow> (Value \<times> nat) result" where
  "read_num buf offset align n make_v =
    and_then (align_read buf offset align) (\<lambda>o1.
    and_then (take_n buf o1 n) (\<lambda>(bs, o2). Ok (make_v bs, o2)))"

definition from_utf8 :: "bytes \<Rightarrow> string \<Rightarrow> string result" where
  "from_utf8 bs what = (if utf8_valid bs then Ok (from_bytes bs) else Err (bad_signature what))"

definition read_str :: "bytes \<Rightarrow> nat \<Rightarrow> (string \<Rightarrow> Value) \<Rightarrow> (Value \<times> nat) result" where
  "read_str buf offset make_v =
    and_then (align_read buf offset 4) (\<lambda>o1.
    and_then (take_n buf o1 4) (\<lambda>(len_bytes, o2).
    and_then (take_n buf o2 (unat (from_le_bytes len_bytes :: u32))) (\<lambda>(s, o3).
    and_then (take_n buf o3 1) (\<lambda>(_, o4).
    and_then (from_utf8 s ''string body is not valid UTF-8'') (\<lambda>s. Ok (make_v s, o4))))))"

definition read_sig :: "bytes \<Rightarrow> nat \<Rightarrow> (string \<times> nat) result" where
  "read_sig buf offset =
    and_then (take_n buf offset 1) (\<lambda>(b, o1).
    and_then (take_n buf o1 (unat (b ! 0))) (\<lambda>(s, o2).
    and_then (take_n buf o2 1) (\<lambda>(_, o3).
    and_then (from_utf8 s ''signature body is not valid UTF-8'') (\<lambda>s. Ok (s, o3)))))"

definition unmarshal_basic :: "char \<Rightarrow> bytes \<Rightarrow> nat \<Rightarrow> (Value \<times> nat) result" where
  "unmarshal_basic c buf offset =
    (if c = CHR ''y'' then and_then (take_n buf offset 1) (\<lambda>(bs, o1). Ok (Byte (bs ! 0), o1))
     else if c = CHR ''b'' then
       read_num buf offset 4 4 (\<lambda>bs. Boolean ((from_le_bytes bs :: u32) \<noteq> 0))
     else if c = CHR ''n'' then read_num buf offset 2 2 (\<lambda>bs. Int16 (from_le_bytes bs))
     else if c = CHR ''q'' then read_num buf offset 2 2 (\<lambda>bs. UInt16 (from_le_bytes bs))
     else if c = CHR ''i'' then read_num buf offset 4 4 (\<lambda>bs. Int32 (from_le_bytes bs))
     else if c = CHR ''u'' then read_num buf offset 4 4 (\<lambda>bs. UInt32 (from_le_bytes bs))
     else if c = CHR ''x'' then read_num buf offset 8 8 (\<lambda>bs. Int64 (from_le_bytes bs))
     else if c = CHR ''t'' then read_num buf offset 8 8 (\<lambda>bs. UInt64 (from_le_bytes bs))
     else if c = CHR ''d'' then read_num buf offset 8 8 (\<lambda>bs. Double (from_le_bytes bs))
     else if c = CHR ''s'' then read_str buf offset String
     else if c = CHR ''o'' then read_str buf offset ObjectPath
     else if c = CHR ''g'' then
       and_then (read_sig buf offset) (\<lambda>(s, o1). Ok (Signature s, o1))
     else Err (bad_signature ''unsupported type code''))"

definition fuel_bind :: "'a run option \<Rightarrow> ('a \<Rightarrow> 'b run option) \<Rightarrow> 'b run option" where
  "fuel_bind r f = (case r of None \<Rightarrow> None | Some (Ret x) \<Rightarrow> f x
     | Some (Fail e) \<Rightarrow> Some (Fail e) | Some Panic \<Rightarrow> Some Panic)"

text \<open>The heads of the container arms: what \<open>unmarshal_one\<close> reads and checks before it
  recurses.  For an array that is the element type, where its elements start and where
  they must end.\<close>

definition array_head :: "string \<Rightarrow> bytes \<Rightarrow> nat \<Rightarrow> (string \<times> nat \<times> nat) run" where
  "array_head ty buf offset =
    run_bind (run_of (align_read buf offset 4)) (\<lambda>o1.
    run_bind (run_of (take_n buf o1 4)) (\<lambda>(len_bytes, o2).
    let byte_len = unat (from_le_bytes len_bytes :: u32) in
    run_bind (str_slice ty 1 (length ty)) (\<lambda>elem_sig.
    case elem_sig of [] \<Rightarrow> Panic | e # _ \<Rightarrow>
    run_bind (run_of (align_read buf o2 (align_of e))) (\<lambda>o3.
    let content_end = o3 + byte_len in
    if content_end > length buf then Fail truncated else Ret (elem_sig, o3, content_end)))))"

definition struct_head :: "string \<Rightarrow> bytes \<Rightarrow> nat \<Rightarrow> (string \<times> nat) run" where
  "struct_head ty buf offset =
    run_bind (run_of (align_read buf offset 8)) (\<lambda>o1.
    run_bind (str_slice ty 1 (length ty - 1)) (\<lambda>inner. Ret (inner, o1)))"

definition variant_head :: "bytes \<Rightarrow> nat \<Rightarrow> (string \<times> nat) run" where
  "variant_head buf offset =
    run_bind (run_of (read_sig buf offset)) (\<lambda>(inner_sig, o1).
    run_bind (run_of (type_len inner_sig)) (\<lambda>k.
    if k \<noteq> length inner_sig
    then Fail (bad_signature ''variant signature is not a single complete type'')
    else Ret (inner_sig, o1)))"

definition dict_head :: "string \<Rightarrow> bytes \<Rightarrow> nat \<Rightarrow> (string \<times> string \<times> nat) run" where
  "dict_head ty buf offset =
    run_bind (run_of (align_read buf offset 8)) (\<lambda>o1.
    run_bind (str_slice ty 1 (length ty - 1)) (\<lambda>inner.
    run_bind (run_of (split_one inner)) (\<lambda>(key_ty, val_ty). Ret (key_ty, val_ty, o1))))"

definition array_tail :: "string \<Rightarrow> nat \<Rightarrow> Value list \<times> nat \<Rightarrow> (Value \<times> nat) run" where
  "array_tail elem_sig content_end r =
    (case r of (items, o4) \<Rightarrow>
     if o4 \<noteq> content_end
     then Fail (bad_signature ''array element did not end exactly at the declared length'')
     else Ret (Array elem_sig items, o4))"

fun unmarshal_one :: "nat \<Rightarrow> string \<Rightarrow> bytes \<Rightarrow> nat \<Rightarrow> (Value \<times> nat) run option"
and unmarshal :: "nat \<Rightarrow> string \<Rightarrow> bytes \<Rightarrow> nat \<Rightarrow> (Value list \<times> nat) run option"
and unmarshal_items :: "nat \<Rightarrow> string \<Rightarrow> bytes \<Rightarrow> nat \<Rightarrow> nat \<Rightarrow> (Value list \<times> nat) run option" where
  "unmarshal_one 0 ty buf offset = None"
| "unmarshal_one (Suc n) ty buf offset =
    (case ty of [] \<Rightarrow> Some Panic | c # _ \<Rightarrow>
     if c = CHR ''a'' then
       fuel_bind (Some (array_head ty buf offset)) (\<lambda>(elem_sig, start, content_end).
       fuel_bind (unmarshal_items n elem_sig buf start content_end) (\<lambda>r.
       Some (array_tail elem_sig content_end r)))
     else if c = CHR ''('' then
       fuel_bind (Some (struct_head ty buf offset)) (\<lambda>(inner, o1).
       fuel_bind (unmarshal n inner buf o1) (\<lambda>(fs, o2). Some (Ret (Struct fs, o2))))
     else if c = CHR ''v'' then
       fuel_bind (Some (variant_head buf offset)) (\<lambda>(inner_sig, o1).
       fuel_bind (unmarshal_one n inner_sig buf o1) (\<lambda>(v, o2). Some (Ret (Variant v, o2))))
     else if c = CHR ''{'' then
       fuel_bind (Some (dict_head ty buf offset)) (\<lambda>(key_ty, val_ty, o1).
       fuel_bind (unmarshal_one n key_ty buf o1) (\<lambda>(k, o2).
       fuel_bind (unmarshal_one n val_ty buf o2) (\<lambda>(v, o3).
       Some (Ret (DictEntry k v, o3)))))
     else Some (run_of (unmarshal_basic c buf offset)))"
| "unmarshal 0 sig buf offset = None"
| "unmarshal (Suc n) sig buf offset =
    (if sig = [] then Some (Ret ([], offset))
     else
       fuel_bind (Some (run_of (split_one sig))) (\<lambda>(this_ty, rest).
       fuel_bind (unmarshal_one n this_ty buf offset) (\<lambda>(v, o1).
       fuel_bind (unmarshal n rest buf o1) (\<lambda>(vs, o2). Some (Ret (v # vs, o2))))))"
| "unmarshal_items 0 elem_sig buf offset content_end = None"
| "unmarshal_items (Suc n) elem_sig buf offset content_end =
    (if \<not> offset < content_end then Some (Ret ([], offset))
     else
       fuel_bind (unmarshal_one n elem_sig buf offset) (\<lambda>(v, o1).
       fuel_bind (unmarshal_items n elem_sig buf o1 content_end) (\<lambda>(vs, o2).
       Some (Ret (v # vs, o2)))))"

end
