(* ===== verification/Dbus_Roundtrip.thy ===== *)
theory Dbus_Roundtrip
  imports Dbus_Wire
begin

text \<open>
  What marshaling computes.  \<open>wire\<close> gives the bytes of a value at a position;
  \<open>marshal\<close> appends exactly those bytes for well-formed values, and \<open>unmarshal\<close>
  reads them back wherever they stand in a buffer.  The theory ends with the two
  ways the reader goes wrong on signatures the grammar should not accept.
\<close>

declare marshal_one.simps [simp del]

section \<open>The wire format\<close>

definition zeros :: "nat \<Rightarrow> nat \<Rightarrow> bytes" where
  "zeros pos align = replicate (pad_len pos align) 0"

definition wire_str :: "string \<Rightarrow> bytes" where
  "wire_str s = to_le_bytes 4 (of_nat (length s) :: u32) @ as_bytes s @ [0]"

definition wire_sig :: "string \<Rightarrow> bytes" where
  "wire_sig s = [of_nat (length s)] @ as_bytes s @ [0]"

fun wire :: "nat \<Rightarrow> Value \<Rightarrow> bytes" and wires :: "nat \<Rightarrow> Value list \<Rightarrow> bytes" where
  "wire p (Byte x) = [x]"
| "wire p (Boolean x) = zeros p 4 @ to_le_bytes 4 (if x then 1 else 0 :: u32)"
| "wire p (Int16 x) = zeros p 2 @ to_le_bytes 2 x"
| "wire p (UInt16 x) = zeros p 2 @ to_le_bytes 2 x"
| "wire p (Int32 x) = zeros p 4 @ to_le_bytes 4 x"
| "wire p (UInt32 x) = zeros p 4 @ to_le_bytes 4 x"
| "wire p (Int64 x) = zeros p 8 @ to_le_bytes 8 x"
| "wire p (UInt64 x) = zeros p 8 @ to_le_bytes 8 x"
| "wire p (Double x) = zeros p 8 @ to_le_bytes 8 x"
| "wire p (String s) = zeros p 4 @ wire_str s"
| "wire p (ObjectPath s) = zeros p 4 @ wire_str s"
| "wire p (Signature s) = wire_sig s"
| "wire p (Array e vs) =
    (let p1 = p + pad_len p 4 + 4; p2 = p1 + pad_len p1 (align_of (hd e)); content = wires p2 vs
     in zeros p 4 @ to_le_bytes 4 (of_nat (length content) :: u32) @ zeros p1 (align_of (hd e)) @ content)"
| "wire p (Struct vs) = zeros p 8 @ wires (p + pad_len p 8) vs"
| "wire p (Variant v) =
    wire_sig (signature_of v) @ wire (p + length (wire_sig (signature_of v))) v"
| "wire p (DictEntry k v) =
    (let p1 = p + pad_len p 8; key = wire p1 k in zeros p 8 @ key @ wire (p1 + length key) v)"
| "wires p [] = []"
| "wires p (v # vs) = wire p v @ wires (p + length (wire p v)) vs"

lemma length_zeros [simp]: "length (zeros p a) = pad_len p a"
  by (simp add: zeros_def)

lemma pad_to_zeros: "pad_to buf a = buf @ zeros (length buf) a"
  by (simp add: pad_to_def zeros_def)

lemma complete_type_hd:
  assumes "complete_type s"
  obtains c cs where "s = c # cs" "(of_char c :: nat) < 0x80"
proof (cases s)
  case (Cons c cs)
  then have "c \<in> set ''a({ybnqiuxtdsogv''"
    using assms by (auto simp: complete_type_def basic_code_def split: if_splits)
  then have "(of_char c :: nat) < 0x80" by auto
  then show ?thesis using Cons that by blast
qed (use assms complete_type_not_Nil in blast)

lemma char_boundary_complete:
  assumes "complete_type s"
  shows "char_boundary (pre @ s @ post) (length pre)"
proof -
  obtain c cs where "s = c # cs" "(of_char c :: nat) < 0x80" using assms by (rule complete_type_hd)
  then show ?thesis by (simp add: char_boundary_def)
qed

lemma str_slice_middle:
  assumes "char_boundary (pre @ s @ post) (length pre)"
    and "char_boundary (pre @ s @ post) (length pre + length s)"
  shows "str_slice (pre @ s @ post) (length pre) (length pre + length s) = Ret s"
  using assms by (simp add: str_slice_def)

lemma str_slice_array: "complete_type e \<Longrightarrow> str_slice (CHR ''a'' # e) (Suc 0) (Suc (length e)) = Ret e"
  using str_slice_middle[of "''a''" e "[]"] char_boundary_complete[of e "''a''" "[]"]
  by (simp add: char_boundary_def)

lemma str_slice_struct:
  assumes "complete_type s" "cls = CHR '')'' \<or> cls = CHR ''}''"
  shows "str_slice (c # s @ t @ [cls]) (Suc 0) (Suc (length s + length t)) = Ret (s @ t)"
  using str_slice_middle[of "[c]" "s @ t" "[cls]"] char_boundary_complete[OF assms(1), of "[c]" "t @ [cls]"] assms(2)
  by (auto simp: char_boundary_def nth_append)

lemma str_slice_dict:
  assumes "complete_type [c]" "complete_type s"
  shows "str_slice (CHR ''{'' # c # s @ ''}'') (Suc 0) 2 = Ret [c]"
    and "str_slice (CHR ''{'' # c # s @ ''}'') 2 (Suc (Suc (length s))) = Ret s"
  using str_slice_middle[of "''{''" "[c]" "s @ ''}''"] str_slice_middle[of "[CHR ''{'', c]" s "''}''"]
    char_boundary_complete[OF assms(1), of "''{''" "s @ ''}''"]
    char_boundary_complete[OF assms(2), of "[CHR ''{'', c]" "''}''"]
  by (simp_all add: numeral_2_eq_2) (auto simp: char_boundary_def nth_append)

section \<open>Marshaling writes the wire format\<close>

lemma marshal_items_wires:
  assumes "\<And>v b. v \<in> set vs \<Longrightarrow> marshal_one e v b = Ret (b @ wire (length b) v)"
  shows "marshal_items e vs buf = Ret (buf @ wires (length buf) vs)"
  using assms by (induction vs arbitrary: buf) simp_all

lemma marshal_wires:
  assumes "\<And>v b. v \<in> set vs \<Longrightarrow> marshal_one (signature_of v) v b = Ret (b @ wire (length b) v)"
    and "\<And>v. v \<in> set vs \<Longrightarrow> complete_type (signature_of v)"
  shows "marshal (concat (map signature_of vs)) vs buf = Ret (buf @ wires (length buf) vs)"
  using assms
  by (induction vs arbitrary: buf) (simp_all add: split_one_complete complete_type_not_Nil)

lemma patch_len_array:
  "patch_len (b1 @ replicate 4 0 @ rest) (length b1) n = b1 @ to_le_bytes 4 n @ rest"
  by (simp add: patch_len_def)


lemma marshal_basic_wire:
  assumes "signature_of v = [c]" "c \<notin> set ''a(v{''"
  shows "marshal_basic c v buf = Ret (buf @ wire (length buf) v)"
  using assms
  by (cases v; clarsimp simp: marshal_basic_def pad_to_zeros wire_str_def marshal_str_def
      wire_sig_def marshal_sig_def)

lemma marshal_one_basic:
  assumes "signature_of v = [c]" "c \<notin> set ''a(v{''"
  shows "marshal_one [c] v buf = Ret (buf @ wire (length buf) v)"
  using assms marshal_basic_wire[of v c buf] by (subst marshal_one.simps) simp

lemma marshal_one_wire:
  "wf_value v \<Longrightarrow> marshal_one (signature_of v) v buf = Ret (buf @ wire (length buf) v)"
proof (induction v arbitrary: buf)
  case (Array e vs)
  then obtain c cs where e: "e = c # cs" using complete_type_not_Nil by (cases e) auto
  let ?b1 = "pad_to buf 4"
  let ?z = "zeros (length ?b1 + 4) (align_of c)"
  have items: "marshal_items e vs b = Ret (b @ wires (length b) vs)" for b
    using Array by (intro marshal_items_wires) (auto simp: list_all_iff)
  have "patch_len (?b1 @ replicate 4 0 @ ?z @ content) (length ?b1) n = ?b1 @ to_le_bytes 4 n @ ?z @ content"
    for content n by (rule patch_len_array)
  then show ?case
    using Array.prems items[of "?b1 @ replicate 4 0 @ ?z"] e str_slice_array[of e]
    by (subst marshal_one.simps) (simp add: Let_def pad_to_zeros add.assoc)
next
  case (Struct vs)
  have "marshal (concat (map signature_of vs)) vs b = Ret (b @ wires (length b) vs)" for b
    using Struct by (intro marshal_wires) (auto simp: list_all_iff wf_value_complete)
  moreover obtain w ws where "vs = w # ws" "complete_type (signature_of w)"
    using Struct.prems by (cases vs) (auto simp: wf_value_complete)
  ultimately show ?case
    using str_slice_struct[of "signature_of w" "CHR '')''" "CHR ''(''" "concat (map signature_of ws)"]
    by (subst marshal_one.simps) (simp add: pad_to_zeros)
next
  case (Variant v)
  then show ?case by (subst marshal_one.simps) (simp add: marshal_sig_def wire_sig_def)
next
  case (DictEntry k v)
  then obtain c where c: "signature_of k = [c]" by (auto simp: length_Suc_conv)
  have "complete_type [c]" "complete_type (signature_of v)"
    using DictEntry.prems c wf_value_complete[of k] wf_value_complete[of v] by simp_all
  note slices = str_slice_dict[OF this]
  show ?case using DictEntry c slices
    by (subst marshal_one.simps) (simp add: pad_to_zeros Let_def add.assoc)
qed (simp_all add: marshal_one_basic)

section \<open>Reading at a position\<close>

text \<open>\<open>occurs buf p bs\<close>: the bytes \<open>bs\<close> stand in \<open>buf\<close> at position \<open>p\<close>.\<close>

definition occurs :: "bytes \<Rightarrow> nat \<Rightarrow> bytes \<Rightarrow> bool" where
  "occurs buf p bs = (p + length bs \<le> length buf \<and> take (length bs) (drop p buf) = bs)"

lemma occurs_append [simp]:
  "occurs buf p (xs @ ys) \<longleftrightarrow> occurs buf p xs \<and> occurs buf (p + length xs) ys"
proof -
  have "take (length xs + length ys) (drop p buf) =
      take (length xs) (drop p buf) @ take (length ys) (drop (p + length xs) buf)"
    by (simp add: take_add add.commute)
  then show ?thesis
    by (auto simp: occurs_def)
qed

lemma occurs_Cons: "occurs buf p (x # xs) \<longleftrightarrow> occurs buf p [x] \<and> occurs buf (Suc p) xs"
  using occurs_append[of buf p "[x]" xs] by simp

lemma occurs_self: "occurs (pre @ bs @ post) (length pre) bs"
  by (simp add: occurs_def)

lemma occurs_length: "occurs buf p bs \<Longrightarrow> p + length bs \<le> length buf"
  by (simp add: occurs_def)

lemma take_n_occurs: "occurs buf p bs \<Longrightarrow> n = length bs \<Longrightarrow> take_n buf p n = Ok (bs, p + n)"
  by (simp add: take_n_def occurs_def)

lemma align_up: "0 < a \<Longrightarrow> ((p + a - 1) div a) * a = p + pad_len p a"
proof -
  assume a: "0 < a"
  define q r where "q = p div a" and "r = p mod a"
  have p: "p = a * q + r" and r: "r < a" using a by (simp_all add: q_def r_def)
  show ?thesis
  proof (cases "r = 0")
    case True
    have "(p + a - 1) div a = q" using a p True by (intro div_nat_eqI) auto
    then show ?thesis using True a p by (simp add: pad_len_def)
  next
    case False
    have "(p + a - 1) div a = Suc q" using a p r False by (intro div_nat_eqI) auto
    then show ?thesis using False r p by (simp add: pad_len_def r_def[symmetric])
  qed
qed

lemma align_read_occurs:
  "occurs buf p (zeros p a) \<Longrightarrow> 0 < a \<Longrightarrow> align_read buf p a = Ok (p + pad_len p a)"
  using occurs_length[of buf p "zeros p a"] align_up[of a p] by (simp add: align_read_def Let_def)

lemma align_of_pos [simp]: "0 < align_of c"
  by (simp add: align_of_def)

lemma read_num_occurs:
  assumes "occurs buf p (zeros p a @ bs)" "0 < a" "n = length bs"
  shows "read_num buf p a n f = Ok (f bs, p + (pad_len p a + n))"
proof -
  have "occurs buf (p + pad_len p a) bs" using assms(1) by simp
  from take_n_occurs[OF this assms(3)] assms show ?thesis
    by (simp add: read_num_def align_read_occurs add.assoc)
qed

lemma read_str_occurs:
  assumes "occurs buf p (zeros p 4 @ wire_str s)" "is_str s" "length s < 2 ^ 32"
  shows "read_str buf p f = Ok (f s, p + (pad_len p 4 + length (wire_str s)))"
proof -
  let ?p1 = "p + pad_len p 4" and ?n = "of_nat (length s) :: u32"
  have o: "occurs buf p (zeros p 4)" "occurs buf ?p1 (to_le_bytes 4 ?n)"
    "occurs buf (?p1 + 4) (as_bytes s)" "occurs buf (?p1 + 4 + length s) [0]"
    using assms(1) by (simp_all add: wire_str_def)
  note steps = align_read_occurs[OF o(1)] take_n_occurs[OF o(2), of 4]
    take_n_occurs[OF o(3), of "length s"] take_n_occurs[OF o(4), of 1]
  have "unat (from_le_bytes (to_le_bytes 4 ?n) :: u32) = length s"
    using assms(3) by simp
  then show ?thesis
    using assms(2) steps by (simp add: read_str_def from_utf8_def is_str_def wire_str_def)
qed

lemma read_sig_occurs:
  assumes "occurs buf p (wire_sig s)" "is_str s" "length s < 256"
  shows "read_sig buf p = Ok (s, p + length (wire_sig s))"
proof -
  have o: "occurs buf p [of_nat (length s)]" "occurs buf (p + 1) (as_bytes s)"
    "occurs buf (p + 1 + length s) [0]"
    using assms(1) occurs_append[of buf p "[of_nat (length s)]" "as_bytes s @ [0]"]
    by (simp_all add: wire_sig_def)
  note steps = take_n_occurs[OF o(1), of 1] take_n_occurs[OF o(2), of "length s"]
    take_n_occurs[OF o(3), of 1]
  show ?thesis
    using assms(2,3) steps by (simp add: read_sig_def from_utf8_def is_str_def wire_sig_def)
qed

section \<open>Unmarshaling reads the wire format\<close>

text \<open>\<open>weight v\<close> is fuel enough to read \<open>v\<close> back.\<close>

fun weight :: "Value \<Rightarrow> nat" where
  "weight (Array e vs) = 2 + sum_list (map (\<lambda>v. Suc (weight v)) vs)"
| "weight (Struct vs) = 2 + sum_list (map (\<lambda>v. Suc (weight v)) vs)"
| "weight (Variant v) = Suc (weight v)"
| "weight (DictEntry k v) = Suc (weight k + weight v)"
| "weight _ = 1"

definition list_weight :: "Value list \<Rightarrow> nat" where
  "list_weight vs = Suc (sum_list (map (\<lambda>v. Suc (weight v)) vs))"

lemma list_weight_simps [simp]:
  "list_weight [] = Suc 0" "list_weight (v # vs) = Suc (weight v) + list_weight vs"
  by (simp_all add: list_weight_def)

lemma weight_pos: "0 < weight v"
  by (cases v) auto

lemma fuel_bind_simps [simp]:
  "fuel_bind None f = None" "fuel_bind (Some (Ret x)) f = f x"
  "fuel_bind (Some (Fail e)) f = Some (Fail e)" "fuel_bind (Some Panic) f = Some Panic"
  by (simp_all add: fuel_bind_def)

text \<open>\<open>reads_back v\<close>: wherever the wire form of \<open>v\<close> stands, with enough fuel it is read as \<open>v\<close>.\<close>

definition reads_back :: "Value \<Rightarrow> bool" where
  "reads_back v \<longleftrightarrow> (\<forall>n buf p. weight v \<le> n \<longrightarrow> occurs buf p (wire p v)
     \<longrightarrow> p + length (wire p v) < 2 ^ 32
     \<longrightarrow> unmarshal_one n (signature_of v) buf p = Some (Ret (v, p + length (wire p v))))"

lemma wire_not_empty: "wf_value v \<Longrightarrow> 0 < length (wire p v)"
proof (induction v arbitrary: p)
  case (Struct vs)
  then show ?case by (cases vs) simp_all
qed (auto simp: Let_def wire_str_def wire_sig_def)

lemma unmarshal_items_wires:
  assumes "\<And>v. v \<in> set vs \<Longrightarrow> reads_back v \<and> wf_value v \<and> signature_of v = e"
    and "list_weight vs \<le> n" "occurs buf p (wires p vs)" "p + length (wires p vs) < 2 ^ 32"
  shows "unmarshal_items n e buf p (p + length (wires p vs)) =
    Some (Ret (vs, p + length (wires p vs)))"
  using assms
proof (induction vs arbitrary: n p)
  case Nil
  then show ?case by (cases n) simp_all
next
  case (Cons v vs)
  then obtain m where n: "n = Suc m" "weight v \<le> m" "list_weight vs \<le> m" by (cases n) auto
  let ?p1 = "p + length (wire p v)"
  have "unmarshal_one m e buf p = Some (Ret (v, ?p1))"
    using Cons.prems n unfolding reads_back_def by fastforce
  moreover have "unmarshal_items m e buf ?p1 (?p1 + length (wires ?p1 vs)) =
      Some (Ret (vs, ?p1 + length (wires ?p1 vs)))"
    using Cons.prems n by (intro Cons.IH) auto
  moreover have "0 < length (wire p v)" using Cons.prems wire_not_empty by simp
  ultimately show ?case using n by (simp add: add.assoc)
qed

lemma unmarshal_wires:
  assumes "\<And>v. v \<in> set vs \<Longrightarrow> reads_back v \<and> complete_type (signature_of v)"
    and "list_weight vs \<le> n" "occurs buf p (wires p vs)" "p + length (wires p vs) < 2 ^ 32"
  shows "unmarshal n (concat (map signature_of vs)) buf p =
    Some (Ret (vs, p + length (wires p vs)))"
  using assms
proof (induction vs arbitrary: n p)
  case Nil
  then show ?case by (cases n) simp_all
next
  case (Cons v vs)
  then obtain m where n: "n = Suc m" "weight v \<le> m" "list_weight vs \<le> m" by (cases n) auto
  let ?p1 = "p + length (wire p v)"
  have "unmarshal_one m (signature_of v) buf p = Some (Ret (v, ?p1))"
    using Cons.prems n unfolding reads_back_def by fastforce
  moreover have "unmarshal m (concat (map signature_of vs)) buf ?p1 =
      Some (Ret (vs, ?p1 + length (wires ?p1 vs)))"
    using Cons.prems n by (intro Cons.IH) auto
  ultimately show ?case using n Cons.prems(1)
    by (simp add: add.assoc split_one_complete complete_type_not_Nil)
qed

lemma unmarshal_basic_wire:
  assumes "signature_of v = [c]" "c \<notin> set ''a(v{''" "wf_value v"
    and "occurs buf p (wire p v)" "p + length (wire p v) < 2 ^ 32"
  shows "unmarshal_basic c buf p = Ok (v, p + length (wire p v))"
proof (cases v)
  case (Byte x)
  then show ?thesis using assms take_n_occurs[of buf p "[x]" 1]
    by (clarsimp simp: unmarshal_basic_def)
next
  case (Boolean x)
  then show ?thesis
    using assms read_num_occurs[of buf p 4 "to_le_bytes 4 (if x then 1 else 0 :: u32)" 4]
    by (clarsimp simp: unmarshal_basic_def)
next
  case (Int16 x)
  then show ?thesis using assms read_num_occurs[of buf p 2 "to_le_bytes 2 x" 2]
    by (clarsimp simp: unmarshal_basic_def)
next
  case (UInt16 x)
  then show ?thesis using assms read_num_occurs[of buf p 2 "to_le_bytes 2 x" 2]
    by (clarsimp simp: unmarshal_basic_def)
next
  case (Int32 x)
  then show ?thesis using assms read_num_occurs[of buf p 4 "to_le_bytes 4 x" 4]
    by (clarsimp simp: unmarshal_basic_def)
next
  case (UInt32 x)
  then show ?thesis using assms read_num_occurs[of buf p 4 "to_le_bytes 4 x" 4]
    by (clarsimp simp: unmarshal_basic_def)
next
  case (Int64 x)
  then show ?thesis using assms read_num_occurs[of buf p 8 "to_le_bytes 8 x" 8]
    by (clarsimp simp: unmarshal_basic_def)
next
  case (UInt64 x)
  then show ?thesis using assms read_num_occurs[of buf p 8 "to_le_bytes 8 x" 8]
    by (clarsimp simp: unmarshal_basic_def)
next
  case (Double x)
  then show ?thesis using assms read_num_occurs[of buf p 8 "to_le_bytes 8 x" 8]
    by (clarsimp simp: unmarshal_basic_def)
next
  case (String s)
  then have "length s < 2 ^ 32" using assms(5) by (simp add: wire_str_def)
  then show ?thesis using String assms read_str_occurs[of buf p s]
    by (clarsimp simp: unmarshal_basic_def)
next
  case (ObjectPath s)
  then have "length s < 2 ^ 32" using assms(5) by (simp add: wire_str_def)
  then show ?thesis using ObjectPath assms read_str_occurs[of buf p s]
    by (clarsimp simp: unmarshal_basic_def)
next
  case (Signature s)
  then show ?thesis using assms read_sig_occurs[of buf p s]
    by (clarsimp simp: unmarshal_basic_def)
qed (use assms in clarsimp)+

lemma reads_back_basic:
  assumes "signature_of v = [c]" "c \<notin> set ''a(v{''" "wf_value v"
  shows "reads_back v"
proof -
  have "unmarshal_one n [c] buf p = Some (run_of (unmarshal_basic c buf p))"
    if "weight v \<le> n" for n buf p
    using that assms(2) weight_pos[of v] by (cases n) auto
  then show ?thesis
    using unmarshal_basic_wire[OF assms] assms(1) by (auto simp: reads_back_def)
qed

lemma array_head_wire:
  assumes "occurs buf p (wire p (Array e vs))" "p + length (wire p (Array e vs)) < 2 ^ 32"
    and "complete_type e"
  defines "p1 \<equiv> p + pad_len p 4 + 4"
  defines "p2 \<equiv> p1 + pad_len p1 (align_of (hd e))"
  shows "array_head (CHR ''a'' # e) buf p = Ret (e, p2, p2 + length (wires p2 vs))"
proof -
  let ?n = "of_nat (length (wires p2 vs)) :: u32"
  obtain c cs where e: "e = c # cs" using assms(3) complete_type_not_Nil by (cases e) auto
  have o: "occurs buf p (zeros p 4)" "occurs buf (p + pad_len p 4) (to_le_bytes 4 ?n)"
    "occurs buf p1 (zeros p1 (align_of c))" "occurs buf p2 (wires p2 vs)"
    using assms(1) e by (simp_all add: Let_def p1_def p2_def)
  have len: "length (wires p2 vs) < 2 ^ 32"
    using assms(2) by (simp add: Let_def p1_def p2_def)
  note steps = align_read_occurs[OF o(1)] take_n_occurs[OF o(2), of 4] align_read_occurs[OF o(3)]
    str_slice_array[OF assms(3)] occurs_length[OF o(4)]
  then show ?thesis
    using len e by (simp add: array_head_def p1_def[symmetric] p2_def Let_def)
qed

lemma reads_back_Array:
  assumes "wf_value (Array e vs)" "\<And>v. v \<in> set vs \<Longrightarrow> reads_back v"
  shows "reads_back (Array e vs)"
  unfolding reads_back_def
proof (intro allI impI)
  fix n buf p
  assume w: "weight (Array e vs) \<le> n" and o: "occurs buf p (wire p (Array e vs))"
    and l: "p + length (wire p (Array e vs)) < 2 ^ 32"
  obtain m where n: "n = Suc m" "list_weight vs \<le> m"
    using w by (cases n) (auto simp: list_weight_def)
  define p2 where "p2 = p + pad_len p 4 + 4 + pad_len (p + pad_len p 4 + 4) (align_of (hd e))"
  have "array_head (CHR ''a'' # e) buf p = Ret (e, p2, p2 + length (wires p2 vs))"
    using array_head_wire[OF o l] assms(1) by (simp add: p2_def)
  moreover have "unmarshal_items m e buf p2 (p2 + length (wires p2 vs)) =
      Some (Ret (vs, p2 + length (wires p2 vs)))"
    using assms n o l
    by (intro unmarshal_items_wires) (auto simp: list_all_iff p2_def Let_def)
  ultimately show "unmarshal_one n (signature_of (Array e vs)) buf p =
      Some (Ret (Array e vs, p + length (wire p (Array e vs))))"
    using n by (simp add: array_tail_def Let_def p2_def add.assoc)
qed

lemma reads_back_Struct:
  assumes "wf_value (Struct vs)" "\<And>v. v \<in> set vs \<Longrightarrow> reads_back v"
  shows "reads_back (Struct vs)"
  unfolding reads_back_def
proof (intro allI impI)
  fix n buf p
  assume w: "weight (Struct vs) \<le> n" and o: "occurs buf p (wire p (Struct vs))"
    and l: "p + length (wire p (Struct vs)) < 2 ^ 32"
  obtain m where n: "n = Suc m" "list_weight vs \<le> m"
    using w by (cases n) (auto simp: list_weight_def)
  let ?p1 = "p + pad_len p 8"
  have "unmarshal m (concat (map signature_of vs)) buf ?p1 =
      Some (Ret (vs, ?p1 + length (wires ?p1 vs)))"
    using assms n o l by (intro unmarshal_wires) (auto simp: list_all_iff wf_value_complete)
  moreover obtain u us where "vs = u # us" "complete_type (signature_of u)"
    using assms(1) by (cases vs) (auto simp: wf_value_complete)
  moreover have "align_read buf p 8 = Ok ?p1" using o by (simp add: align_read_occurs)
  ultimately show "unmarshal_one n (signature_of (Struct vs)) buf p =
      Some (Ret (Struct vs, p + length (wire p (Struct vs))))"
    using n str_slice_struct[of "signature_of u" "CHR '')''" "CHR ''(''" "concat (map signature_of us)"]
    by (simp add: struct_head_def add.assoc)
qed

lemma reads_back_Variant:
  assumes "wf_value (Variant v)" "is_str (signature_of v)" "reads_back v"
  shows "reads_back (Variant v)"
  unfolding reads_back_def
proof (intro allI impI)
  fix n buf p
  let ?s = "signature_of v"
  assume w: "weight (Variant v) \<le> n" and o: "occurs buf p (wire p (Variant v))"
    and l: "p + length (wire p (Variant v)) < 2 ^ 32"
  obtain m where n: "n = Suc m" "weight v \<le> m" using w by (cases n) auto
  let ?p1 = "p + length (wire_sig ?s)"
  have "read_sig buf p = Ok (?s, ?p1)" using read_sig_occurs assms o by simp
  moreover have "type_len ?s = Ok (length ?s)"
    using assms(1) wf_value_complete[of v] by (simp add: complete_type_def)
  moreover have "unmarshal_one m ?s buf ?p1 = Some (Ret (v, ?p1 + length (wire ?p1 v)))"
    using assms(3) n o l by (simp add: reads_back_def)
  ultimately show "unmarshal_one n (signature_of (Variant v)) buf p =
      Some (Ret (Variant v, p + length (wire p (Variant v))))"
    using n by (simp add: variant_head_def add.assoc)
qed

lemma reads_back_DictEntry:
  assumes "wf_value (DictEntry k v)" "reads_back k" "reads_back v"
  shows "reads_back (DictEntry k v)"
  unfolding reads_back_def
proof (intro allI impI)
  fix n buf p
  assume w: "weight (DictEntry k v) \<le> n" and o: "occurs buf p (wire p (DictEntry k v))"
    and l: "p + length (wire p (DictEntry k v)) < 2 ^ 32"
  obtain m where n: "n = Suc m" "weight k \<le> m" "weight v \<le> m" using w by (cases n) auto
  let ?p1 = "p + pad_len p 8"
  let ?p2 = "?p1 + length (wire ?p1 k)"
  have c: "complete_type (signature_of k)" "complete_type (signature_of v)"
    using assms(1) wf_value_complete[of k] wf_value_complete[of v] by simp_all
  have "dict_head (signature_of (DictEntry k v)) buf p = Ret (signature_of k, signature_of v, ?p1)"
    using c o str_slice_struct[of "signature_of k" "CHR ''}''" "CHR ''{''" "signature_of v"]
    by (simp add: dict_head_def align_read_occurs split_one_complete Let_def)
  moreover have "unmarshal_one m (signature_of k) buf ?p1 = Some (Ret (k, ?p2))"
    using assms(2) n o l by (simp add: reads_back_def Let_def)
  moreover have "unmarshal_one m (signature_of v) buf ?p2 = Some (Ret (v, ?p2 + length (wire ?p2 v)))"
    using assms(3) n o l by (simp add: reads_back_def Let_def)
  ultimately show "unmarshal_one n (signature_of (DictEntry k v)) buf p =
      Some (Ret (DictEntry k v, p + length (wire p (DictEntry k v))))"
    using n by (simp add: Let_def add.assoc)
qed

lemma is_str_append: "is_str s \<Longrightarrow> is_str t \<Longrightarrow> is_str (s @ t)"
  by (simp add: is_str_def utf8_valid_append)

lemma is_str_concat: "(\<And>s. s \<in> set ss \<Longrightarrow> is_str s) \<Longrightarrow> is_str (concat ss)"
  by (induction ss) (auto simp: is_str_append, simp add: is_str_def)

lemma is_str_ascii: "(\<And>c. c \<in> set s \<Longrightarrow> (of_char c :: nat) < 0x80) \<Longrightarrow> is_str s"
proof (induction s)
  case (Cons c s)
  have "byte_of c < 0x80"
    using Cons.prems[of c] by (simp add: byte_of_def word_less_nat_alt unat_of_nat_u8)
  then show ?case using Cons by (simp add: is_str_def as_bytes_def utf8_valid_ascii)
qed (simp add: is_str_def)

lemma is_str_signature: "wf_value v \<Longrightarrow> is_str (signature_of v)"
proof (induction v)
  case (Array e vs)
  then show ?case using is_str_append[OF is_str_ascii[of "''a''"]] by simp
next
  case (Struct vs)
  have "is_str ''(''" "is_str '')''" by (rule is_str_ascii; simp)+
  moreover have "is_str (concat (map signature_of vs))"
    using Struct by (intro is_str_concat) (auto simp: list_all_iff)
  ultimately show ?case using is_str_append[of "''(''"] is_str_append[of _ "'')''"] by simp
next
  case (DictEntry k v)
  have "is_str ''{''" "is_str ''}''" by (rule is_str_ascii; simp)+
  then show ?case using DictEntry is_str_append by (metis signature_of.simps(16) wf_value.simps(7))
qed (auto intro: is_str_ascii)

lemma wf_reads_back: "wf_value v \<Longrightarrow> reads_back v"
proof (induction v)
  case (Array e vs)
  then show ?case by (intro reads_back_Array) (auto simp: list_all_iff)
next
  case (Struct vs)
  then show ?case by (intro reads_back_Struct) (auto simp: list_all_iff)
next
  case (Variant v)
  then show ?case by (intro reads_back_Variant) (auto intro: is_str_signature)
next
  case (DictEntry k v)
  then show ?case by (intro reads_back_DictEntry) auto
qed (auto intro: reads_back_basic)

lemma marshal_wf:
  "list_all wf_value vs \<Longrightarrow>
    marshal (concat (map signature_of vs)) vs buf = Ret (buf @ wires (length buf) vs)"
  by (intro marshal_wires) (auto simp: list_all_iff marshal_one_wire wf_value_complete)

lemma unmarshal_wf:
  "list_all wf_value vs \<Longrightarrow> list_weight vs \<le> n \<Longrightarrow> occurs buf p (wires p vs) \<Longrightarrow>
    p + length (wires p vs) < 2 ^ 32 \<Longrightarrow>
    unmarshal n (concat (map signature_of vs)) buf p = Some (Ret (vs, p + length (wires p vs)))"
  by (intro unmarshal_wires) (auto simp: list_all_iff wf_reads_back wf_value_complete)

section \<open>The format depends on the position modulo eight only\<close>

lemma pad_len_mod8:
  assumes "p mod 8 = q mod 8" "a \<in> {1, 2, 4, 8}"
  shows "pad_len p a = pad_len q a"
proof -
  have "p mod a = q mod a" using assms mod_mod_cancel[of a 8 p] mod_mod_cancel[of a 8 q] by auto
  then show ?thesis by (simp add: pad_len_def)
qed

lemma align_of_cases: "align_of c \<in> {1, 2, 4, 8}"
  by (simp add: align_of_def)

lemma add_mod8: "p mod 8 = q mod 8 \<Longrightarrow> (p + k) mod 8 = (q + k) mod (8 :: nat)"
  by (rule mod_add_cong) simp_all

lemma zeros_mod8: "p mod 8 = q mod 8 \<Longrightarrow> a \<in> {1, 2, 4, 8} \<Longrightarrow> zeros p a = zeros q a"
  unfolding zeros_def by (rule arg_cong[OF pad_len_mod8])

lemma wires_mod8_aux:
  assumes "\<forall>v\<in>set vs. \<forall>p q. p mod 8 = q mod 8 \<longrightarrow> wire p v = wire q v" "p mod 8 = q mod 8"
  shows "wires p vs = wires q vs"
  using assms
proof (induction vs arbitrary: p q)
  case (Cons v vs)
  have "wire p v = wire q v" using Cons.prems by (metis list.set_intros(1))
  moreover have "\<forall>v\<in>set vs. \<forall>p q. p mod 8 = q mod 8 \<longrightarrow> wire p v = wire q v"
    using Cons.prems(1) by (meson list.set_intros(2))
  then have "wires (p + k) vs = wires (q + k) vs" for k
    by (rule Cons.IH) (rule add_mod8[OF Cons.prems(2)])
  ultimately show ?case by simp
qed simp

lemma wire_mod8: "p mod 8 = q mod 8 \<Longrightarrow> wire p v = wire q v"
proof (induction v arbitrary: p q)
  case (Array e vs)
  note pq = Array.prems
  have 1: "zeros p 4 = zeros q 4" "pad_len p 4 = pad_len q 4"
    using zeros_mod8[OF pq, of 4] pad_len_mod8[OF pq, of 4] by simp_all
  let ?a = "align_of (hd e)"
  have 2: "(p + k) mod 8 = (q + k) mod 8" for k using pq by (rule add_mod8)
  have 3: "zeros (p + k) ?a = zeros (q + k) ?a" "pad_len (p + k) ?a = pad_len (q + k) ?a" for k
    using zeros_mod8[OF 2 align_of_cases] pad_len_mod8[OF 2 align_of_cases] by simp_all
  have 4: "wires (p + k) vs = wires (q + k) vs" for k
    using wires_mod8_aux[of vs, OF _ 2] Array.IH by blast
  show ?case by (simp add: Let_def 1 3 4 add.assoc)
next
  case (Struct vs)
  have "wires (p + k) vs = wires (q + k) vs" for k
    using wires_mod8_aux[of vs, OF _ add_mod8[OF Struct.prems]] Struct.IH by blast
  then show ?case using zeros_mod8[OF Struct.prems, of 8] pad_len_mod8[OF Struct.prems, of 8] by simp
next
  case (Variant v)
  show ?case using Variant.IH[OF add_mod8[OF Variant.prems]] by simp
next
  case (DictEntry k v)
  have "wire (p + n) k = wire (q + n) k" "wire (p + n) v = wire (q + n) v" for n
    using DictEntry.IH add_mod8[OF DictEntry.prems] by blast+
  then show ?case using zeros_mod8[OF DictEntry.prems, of 8] pad_len_mod8[OF DictEntry.prems, of 8]
    by (simp add: Let_def add.assoc)
qed (auto intro: zeros_mod8)

lemma wires_mod8: "p mod 8 = q mod 8 \<Longrightarrow> wires p vs = wires q vs"
  using wires_mod8_aux wire_mod8 by blast

section \<open>An array whose elements take no bytes\<close>

lemma unmarshal_empty_struct:
  assumes "8 dvd p" "p \<le> length buf"
  shows "unmarshal_one n ''()'' buf p \<in> {None, Some (Ret (Struct [], p))}"
proof (cases n)
  case (Suc m)
  have "align_read buf p 8 = Ok p"
    using assms align_up[of 8 p] by (simp add: align_read_def Let_def pad_len_def dvd_eq_mod_eq_0)
  then show ?thesis using Suc
    by (cases m) (simp_all add: struct_head_def str_slice_def char_boundary_def)
qed simp

lemma unmarshal_items_empty_struct:
  assumes "8 dvd p" "p < e" "e \<le> length buf"
  shows "unmarshal_items n ''()'' buf p e = None"
proof (induction n)
  case (Suc n)
  then show ?case using unmarshal_empty_struct[of p buf n] assms by auto
qed simp

section \<open>Properties\<close>

lemma run_of_Ret_iff: "run_of r = Ret x \<longleftrightarrow> r = Ok x"
  by (cases r) auto

lemma align_read_Ok: "align_read buf p a = Ok q \<Longrightarrow> a dvd q \<and> q \<le> length buf"
  by (auto simp: align_read_def Let_def split: if_splits)

lemma case_list_Ret_iff:
  "(case xs of [] \<Rightarrow> Panic | y # ys \<Rightarrow> f y ys) = Ret z \<longleftrightarrow> xs \<noteq> [] \<and> f (hd xs) (tl xs) = Ret z"
  by (cases xs) auto

lemma array_head_Ret:
  assumes "array_head ty buf p = Ret (e, start, content_end)"
  shows "align_of (hd e) dvd start \<and> content_end \<le> length buf"
  using assms
  by (auto simp: array_head_def run_bind_Ret_iff run_of_Ret_iff case_list_Ret_iff Let_def
      split: if_splits dest!: align_read_Ok)

text \<open>C1.  Marshaling and unmarshaling are inverse: well-formed values under their own
  signature are always marshaled, after whatever the buffer holds, and what was written is
  read back as the same values, ending exactly where the writing ended, whatever follows.
  \<open>list_weight\<close> units of fuel are enough.\<close>

theorem dbus_marshal_roundtrip:
  assumes "list_all wf_value vs"
  shows "\<exists>out. marshal (concat (map signature_of vs)) vs pre = Ret (pre @ out)
    \<and> (length (pre @ out) < 2 ^ 32 \<longrightarrow> (\<forall>n post. list_weight vs \<le> n \<longrightarrow>
         unmarshal n (concat (map signature_of vs)) (pre @ out @ post) (length pre)
           = Some (Ret (vs, length (pre @ out)))))"
  using marshal_wf[OF assms, of pre] unmarshal_wf[OF assms] occurs_self[of pre "wires (length pre) vs"]
  by (intro exI[of _ "wires (length pre) vs"]) simp

theorem dbus_marshal_roundtrip_witness:
  "\<exists>out. marshal ''a{sv}y'' [Array ''{sv}'' [DictEntry (String ''k'') (Variant (UInt32 7))], Byte 1] [0xFF]
      = Ret ([0xFF] @ out)
    \<and> (length ([0xFF] @ out) < 2 ^ 32 \<longrightarrow> (\<forall>n post. 11 \<le> n \<longrightarrow>
         unmarshal n ''a{sv}y'' ([0xFF] @ out @ post) 1
           = Some (Ret ([Array ''{sv}'' [DictEntry (String ''k'') (Variant (UInt32 7))], Byte 1],
               length ([0xFF] @ out)))))"
proof -
  have "list_all wf_value [Array ''{sv}'' [DictEntry (String ''k'') (Variant (UInt32 7))], Byte 1]"
    by code_simp
  from dbus_marshal_roundtrip[OF this, of "[0xFF]"] show ?thesis by simp
qed

text \<open>C27.  An array of empty structs makes no progress: with the signature \<open>a()\<close>, which
  the grammar accepts, and any nonzero length, unmarshaling never returns, whatever the
  fuel.  The bytes may come from a peer, inside a variant.\<close>

theorem dbus_unmarshal_empty_struct_array_diverges:
  assumes "array_head ''a()'' buf p = Ret (''()'', start, content_end)" "start < content_end"
  shows "unmarshal n ''a()'' buf p = None"
proof -
  have "8 dvd start" "content_end \<le> length buf"
    using array_head_Ret[OF assms(1)] by (simp_all add: align_of_def)
  then have "unmarshal_items k ''()'' buf start content_end = None" for k
    using assms(2) unmarshal_items_empty_struct by blast
  then have one: "unmarshal_one k ''a()'' buf p = None" for k
    using assms(1) by (cases k) simp_all
  have "split_one ''a()'' = Ok (''a()'', [])" by code_simp
  then show ?thesis using one by (cases n) simp_all
qed

theorem dbus_unmarshal_empty_struct_array_diverges_witness:
  "unmarshal 1000 ''a()'' [1, 0, 0, 0, 0, 0, 0, 0, 0xFF] 0 = None"
proof (rule dbus_unmarshal_empty_struct_array_diverges)
  show "array_head ''a()'' [1, 0, 0, 0, 0, 0, 0, 0, 0xFF] 0 = Ret (''()'', 8, 9)" by code_simp
qed simp

text \<open>A dict entry signature without a value type is accepted by the grammar and then
  indexed out of range: a variant holding \<open>{s}\<close> makes the reader panic, wherever it stands
  in a buffer whose alignment padding and key are present.\<close>

theorem dbus_unmarshal_dict_without_value_panics:
  assumes "occurs buf p (wire_sig ''{s}'')" "occurs buf (p + 5) (zeros (p + 5) 8 @ wire_str key)"
    and "is_str key" "length key < 2 ^ 32"
  shows "unmarshal_one (Suc (Suc (Suc n))) ''v'' buf p = Some Panic"
proof -
  define q where "q = p + 5 + pad_len (p + 5) 8"
  have "is_str ''{s}''" by (rule is_str_ascii) auto
  then have "read_sig buf p = Ok (''{s}'', p + 5)"
    using read_sig_occurs[OF assms(1)] by (simp add: wire_sig_def)
  moreover have "type_len ''{s}'' = Ok 3" "split_one ''s'' = Ok (''s'', [])" by code_simp+
  moreover have "align_read buf (p + 5) 8 = Ok q" using assms(2) by (simp add: align_read_occurs q_def)
  moreover have "8 dvd q" using align_up[of 8 "p + 5"] unfolding q_def by (metis dvd_triv_right zero_less_numeral)
  then have "4 dvd q" by (rule dvd_trans[rotated]) simp
  then have "zeros q 4 = []" "pad_len q 4 = 0" by (simp_all add: zeros_def pad_len_def dvd_eq_mod_eq_0)
  then have "read_str buf q String = Ok (String key, q + length (wire_str key))"
    using read_str_occurs[of buf q key String] assms by (simp add: q_def)
  ultimately show ?thesis
    by (simp add: variant_head_def dict_head_def unmarshal_basic_def str_slice_def char_boundary_def)
qed

theorem dbus_unmarshal_dict_without_value_panics_witness:
  "unmarshal_one 3 ''v'' [3, 0x7B, 0x73, 0x7D, 0, 0, 0, 0, 1, 0, 0, 0, 0x6B, 0] 0 = Some Panic"
proof -
  have "unmarshal_one (Suc (Suc (Suc 0))) ''v'' [3, 0x7B, 0x73, 0x7D, 0, 0, 0, 0, 1, 0, 0, 0, 0x6B, 0] 0
      = Some Panic"
  proof (rule dbus_unmarshal_dict_without_value_panics[where key = "''k''"])
    show "length ''k'' < 2 ^ 32" by simp
  qed code_simp+
  then show ?thesis by (simp add: numeral_3_eq_3)
qed

end
