(* ===== verification/Dbus_Message.thy ===== *)
theory Dbus_Message
  imports Dbus_Roundtrip
begin

text \<open>
  D-Bus messages, \<open>platform-linux/src/sys/dbus/message.rs\<close>: the fixed header, the
  header fields as an \<open>a(yv)\<close> value, and the body.  \<open>decode\<close> takes the fuel of the
  unmarshaler; the bound that is enough is \<open>msg_fuel\<close>.
\<close>

section \<open>The code\<close>

record Message =
  message_type :: u8
  msg_flags :: u8
  msg_serial :: u32
  msg_path :: "string option"
  msg_interface :: "string option"
  msg_member :: "string option"
  msg_error_name :: "string option"
  msg_reply_serial :: "u32 option"
  msg_destination :: "string option"
  msg_sender :: "string option"
  msg_signature :: string
  msg_body :: "Value list"

abbreviation TYPE_METHOD_CALL :: u8 where "TYPE_METHOD_CALL \<equiv> 1"
abbreviation TYPE_METHOD_RETURN :: u8 where "TYPE_METHOD_RETURN \<equiv> 2"
abbreviation TYPE_ERROR :: u8 where "TYPE_ERROR \<equiv> 3"

definition default_message :: Message where
  "default_message = \<lparr>message_type = 0, msg_flags = 0, msg_serial = 0, msg_path = None,
     msg_interface = None, msg_member = None, msg_error_name = None, msg_reply_serial = None,
     msg_destination = None, msg_sender = None, msg_signature = [], msg_body = []\<rparr>"

definition method_call ::
    "u32 \<Rightarrow> string \<Rightarrow> string \<Rightarrow> string \<Rightarrow> string \<Rightarrow> string \<Rightarrow> Value list \<Rightarrow> Message" where
  "method_call serial destination path interface member sig body =
    \<lparr>message_type = TYPE_METHOD_CALL, msg_flags = 0, msg_serial = serial, msg_path = Some path,
     msg_interface = Some interface, msg_member = Some member, msg_error_name = None,
     msg_reply_serial = None, msg_destination = Some destination, msg_sender = None,
     msg_signature = sig, msg_body = body\<rparr>"

definition field :: "u8 \<Rightarrow> Value \<Rightarrow> Value" where
  "field code v = Struct [Byte code, Variant v]"

definition opt_field :: "u8 \<Rightarrow> ('a \<Rightarrow> Value) \<Rightarrow> 'a option \<Rightarrow> Value list" where
  "opt_field code f o1 = (case o1 of Some x \<Rightarrow> [field code (f x)] | None \<Rightarrow> [])"

definition header_fields :: "Message \<Rightarrow> Value list" where
  "header_fields msg =
    opt_field 1 ObjectPath (msg_path msg)
    @ opt_field 2 String (msg_interface msg)
    @ opt_field 3 String (msg_member msg)
    @ opt_field 4 String (msg_error_name msg)
    @ opt_field 5 UInt32 (msg_reply_serial msg)
    @ opt_field 6 String (msg_destination msg)
    @ opt_field 7 String (msg_sender msg)
    @ (if msg_signature msg \<noteq> [] then [field 8 (Signature (msg_signature msg))] else [])"

definition encode :: "Message \<Rightarrow> bytes run" where
  "encode msg =
    run_bind (if msg_signature msg \<noteq> [] then marshal (msg_signature msg) (msg_body msg) [] else Ret [])
      (\<lambda>body_bytes.
       let out = [0x6C, message_type msg, msg_flags msg, 1]
             @ to_le_bytes 4 (of_nat (length body_bytes) :: u32)
             @ to_le_bytes 4 (msg_serial msg)
       in run_bind (marshal ''a(yv)'' [Array ''(yv)'' (header_fields msg)] out) (\<lambda>out1.
          Ret (pad_to out1 8 @ body_bytes)))"

definition bad :: "string \<Rightarrow> PlatformError" where
  "bad detail = new_error InvalidInput NoCode detail"

definition need_more_data :: PlatformError where
  "need_more_data = new_error WouldBlock NoCode ''D-Bus message incomplete, more bytes needed''"

definition apply_field :: "Message \<Rightarrow> Value \<Rightarrow> Message" where
  "apply_field msg f =
    (case f of
       Struct (Byte code # Variant val # _) \<Rightarrow>
         (case val of
            ObjectPath p \<Rightarrow> (if code = 1 then msg\<lparr>msg_path := Some p\<rparr> else msg)
          | String s \<Rightarrow>
             (if code = 2 then msg\<lparr>msg_interface := Some s\<rparr>
              else if code = 3 then msg\<lparr>msg_member := Some s\<rparr>
              else if code = 4 then msg\<lparr>msg_error_name := Some s\<rparr>
              else if code = 6 then msg\<lparr>msg_destination := Some s\<rparr>
              else if code = 7 then msg\<lparr>msg_sender := Some s\<rparr>
              else msg)
          | UInt32 u \<Rightarrow> (if code = 5 then msg\<lparr>msg_reply_serial := Some u\<rparr> else msg)
          | Signature s \<Rightarrow> (if code = 8 then msg\<lparr>msg_signature := s\<rparr> else msg)
          | _ \<Rightarrow> msg)
     | _ \<Rightarrow> msg)"

definition decode_header :: "nat \<Rightarrow> bytes \<Rightarrow> (Value list \<times> nat) run option" where
  "decode_header n buf =
    (case unmarshal n ''a(yv)'' buf 12 of
       Some (Fail e) \<Rightarrow> Some (Fail (if err_kind e = InvalidInput then need_more_data else e))
     | r \<Rightarrow> r)"

definition decode :: "nat \<Rightarrow> bytes \<Rightarrow> (Message \<times> nat) run option" where
  "decode n buf =
    (if length buf < 16 then Some (Fail need_more_data)
     else if buf ! 0 \<noteq> 0x6C then
       Some (Fail (new_error Unsupported NoCode ''big-endian D-Bus messages are not supported''))
     else
       let body_len = unat (from_le_bytes (take 4 (drop 4 buf)) :: u32);
           serial = from_le_bytes (take 4 (drop 8 buf)) :: u32
       in fuel_bind (decode_header n buf) (\<lambda>(header, offset).
       let body_start = offset + pad_len offset 8 in
       if length buf < body_start + body_len then Some (Fail need_more_data)
       else
         case header of
           Array _ field_structs # _ \<Rightarrow>
             let msg = foldl apply_field
                   (default_message\<lparr>message_type := buf ! 1, msg_flags := buf ! 2, msg_serial := serial\<rparr>)
                   field_structs
             in if msg_signature msg = [] then Some (Ret (msg\<lparr>msg_body := []\<rparr>, body_start + body_len))
                else fuel_bind (unmarshal n (msg_signature msg) buf body_start) (\<lambda>(body, _).
                  Some (Ret (msg\<lparr>msg_body := body\<rparr>, body_start + body_len)))
         | [] \<Rightarrow> Some Panic
         | _ \<Rightarrow> Some (Fail (bad ''header fields value was not the expected array''))))"

section \<open>Well-formed messages\<close>

definition opt_str :: "string option \<Rightarrow> bool" where
  "opt_str o1 = (case o1 of Some s \<Rightarrow> is_str s | None \<Rightarrow> True)"

definition wf_message :: "Message \<Rightarrow> bool" where
  "wf_message msg =
    (list_all wf_value (msg_body msg)
     \<and> msg_signature msg = concat (map signature_of (msg_body msg))
     \<and> length (msg_signature msg) < 256
     \<and> opt_str (msg_path msg) \<and> opt_str (msg_interface msg) \<and> opt_str (msg_member msg)
     \<and> opt_str (msg_error_name msg) \<and> opt_str (msg_destination msg) \<and> opt_str (msg_sender msg))"

definition msg_fuel :: "Message \<Rightarrow> nat" where
  "msg_fuel msg = list_weight [Array ''(yv)'' (header_fields msg)] + list_weight (msg_body msg)"

text \<open>A message whose header array holds one field, a variant of the unknown type \<open>z\<close>.\<close>

definition malformed_header :: bytes where
  "malformed_header = [0x6C, 2, 0, 1, 0, 0, 0, 0, 1, 0, 0, 0, 8, 0, 0, 0, 1, 1, 0x7A, 0, 0, 0, 0, 0]"

lemma opt_field_simps [simp]: "opt_field c f None = []" "opt_field c f (Some x) = [field c (f x)]"
  by (simp_all add: opt_field_def)

lemma field_simps [simp]:
  "signature_of (field c v) = ''(yv)''" "wf_value (field c v) \<longleftrightarrow> wf_value v \<and> length (signature_of v) < 256"
  by (simp_all add: field_def)

lemma wf_header_fields:
  assumes "wf_message msg"
  shows "wf_value (Array ''(yv)'' (header_fields msg))"
proof -
  have e: "complete_type ''(yv)''" "is_str ''(yv)''" by code_simp+
  have sig: "is_str (msg_signature msg)" 
    using assms by (auto simp: wf_message_def list_all_iff intro!: is_str_concat is_str_signature)
  have o: "list_all (\<lambda>v. signature_of v = ''(yv)'' \<and> wf_value v) (opt_field c f x)"
    if "\<And>y. x = Some y \<Longrightarrow> wf_value (f y) \<and> length (signature_of (f y)) < 256" for c f and x :: "'b option"
    using that by (cases x) simp_all
  show ?thesis
    unfolding wf_value.simps header_fields_def list_all_append
    using assms e sig by (intro conjI o) (auto simp: wf_message_def opt_str_def)
qed

lemma apply_opt:
  "msg_path m = None \<Longrightarrow> foldl apply_field m (opt_field 1 ObjectPath x) = m\<lparr>msg_path := x\<rparr>"
  "msg_interface m = None \<Longrightarrow> foldl apply_field m (opt_field 2 String x) = m\<lparr>msg_interface := x\<rparr>"
  "msg_member m = None \<Longrightarrow> foldl apply_field m (opt_field 3 String x) = m\<lparr>msg_member := x\<rparr>"
  "msg_error_name m = None \<Longrightarrow> foldl apply_field m (opt_field 4 String x) = m\<lparr>msg_error_name := x\<rparr>"
  "msg_reply_serial m = None \<Longrightarrow> foldl apply_field m (opt_field 5 UInt32 y) = m\<lparr>msg_reply_serial := y\<rparr>"
  "msg_destination m = None \<Longrightarrow> foldl apply_field m (opt_field 6 String x) = m\<lparr>msg_destination := x\<rparr>"
  "msg_sender m = None \<Longrightarrow> foldl apply_field m (opt_field 7 String x) = m\<lparr>msg_sender := x\<rparr>"
  "msg_signature m = [] \<Longrightarrow> foldl apply_field m
     (if s \<noteq> [] then [field 8 (Signature s)] else []) = m\<lparr>msg_signature := s\<rparr>"
  by (cases x; cases y; simp add: apply_field_def field_def)+

lemma fold_header_fields:
  "foldl apply_field (default_message\<lparr>message_type := message_type msg, msg_flags := msg_flags msg,
     msg_serial := msg_serial msg\<rparr>) (header_fields msg) = msg\<lparr>msg_body := []\<rparr>"
  unfolding header_fields_def foldl_append by (simp add: apply_opt default_message_def)

definition fixed_header :: "Message \<Rightarrow> nat \<Rightarrow> bytes" where
  "fixed_header msg body_len = [0x6C, message_type msg, msg_flags msg, 1]
     @ to_le_bytes 4 (of_nat body_len :: u32) @ to_le_bytes 4 (msg_serial msg)"

abbreviation header_value :: "Message \<Rightarrow> Value" where
  "header_value msg \<equiv> Array ''(yv)'' (header_fields msg)"

definition message_bytes :: "Message \<Rightarrow> bytes" where
  "message_bytes msg =
    (let body = wires 0 (msg_body msg); header = wire 12 (header_value msg) in
     fixed_header msg (length body) @ header @ zeros (12 + length header) 8 @ body)"

lemma length_fixed_header [simp]: "length (fixed_header msg n) = 12"
  by (simp add: fixed_header_def)

lemma encode_message_bytes:
  assumes "wf_message msg"
  shows "encode msg = Ret (message_bytes msg)"
proof -
  have body: "(if msg_signature msg \<noteq> [] then marshal (msg_signature msg) (msg_body msg) [] else Ret [])
      = Ret (wires 0 (msg_body msg))"
  proof (cases "msg_signature msg = []")
    case True
    then have "msg_body msg = []"
      using assms signature_of_ascii_or_elem by (cases "msg_body msg") (auto simp: wf_message_def)
    then show ?thesis using True by simp
  next
    case False
    then show ?thesis using assms marshal_wf[of "msg_body msg" "[]"] by (simp add: wf_message_def)
  qed
  have header: "marshal ''a(yv)'' [header_value msg] b = Ret (b @ wire (length b) (header_value msg))" for b
    using marshal_wf[of "[header_value msg]" b] wf_header_fields[OF assms] by simp
  show ?thesis
    unfolding encode_def body
    using header by (simp add: message_bytes_def fixed_header_def Let_def pad_to_zeros del: marshal.simps)
qed


lemma header_wire:
  "wire 12 (header_value msg) =
    to_le_bytes 4 (of_nat (length (wires 16 (header_fields msg))) :: u32) @ wires 16 (header_fields msg)"
  by (simp add: Let_def pad_len_def zeros_def align_of_def)

text \<open>What \<open>decode\<close> finds in any buffer that holds the fixed header of a message.\<close>

lemma fixed_header_reads:
  assumes "occurs buf 0 (fixed_header msg n)" "n < 2 ^ 32"
  shows "buf ! 0 = 0x6C" "buf ! 1 = message_type msg" "buf ! 2 = msg_flags msg"
    "unat (from_le_bytes (take 4 (drop 4 buf)) :: u32) = n"
    "(from_le_bytes (take 4 (drop 8 buf)) :: u32) = msg_serial msg"
proof -
  obtain post where buf: "buf = fixed_header msg n @ post"
    using assms(1) by (metis append_take_drop_id drop0 occurs_def)
  have d4: "drop 4 buf = to_le_bytes 4 (of_nat n :: u32) @ to_le_bytes 4 (msg_serial msg) @ post"
    by (simp add: buf fixed_header_def)
  then have d8: "drop 8 buf = to_le_bytes 4 (msg_serial msg) @ post"
    using drop_drop[of 4 4 buf] by simp
  show "buf ! 0 = 0x6C" "buf ! 1 = message_type msg" "buf ! 2 = msg_flags msg"
    by (simp_all add: buf fixed_header_def)
  show "unat (from_le_bytes (take 4 (drop 4 buf)) :: u32) = n"
    using d4 assms(2) by simp
  show "(from_le_bytes (take 4 (drop 8 buf)) :: u32) = msg_serial msg"
    using d8 by simp
qed

lemma decode_header_wf:
  assumes "wf_message msg" "msg_fuel msg \<le> n" "occurs buf 12 (wire 12 (header_value msg))"
    and "12 + length (wire 12 (header_value msg)) < 2 ^ 32"
  shows "decode_header n buf = Some (Ret ([header_value msg], 12 + length (wire 12 (header_value msg))))"
  using unmarshal_wf[of "[header_value msg]" n buf 12] wf_header_fields[OF assms(1)] assms(2-)
  by (simp add: decode_header_def msg_fuel_def del: wire.simps)

lemma decode_header_truncated:
  assumes "2 \<le> n" "16 \<le> length buf" "length buf < 12 + length (wire 12 (header_value msg))"
    and "12 + length (wire 12 (header_value msg)) < 2 ^ 32"
    and "take 4 (drop 12 buf) = take 4 (wire 12 (header_value msg))"
  shows "decode_header n buf = Some (Fail need_more_data)"
proof -
  obtain m where n: "n = Suc (Suc m)" using assms(1) by (metis add_2_eq_Suc le_Suc_ex)
  let ?k = "length (wires 16 (header_fields msg))"
  have k: "?k < 2 ^ 32" "length buf < 16 + ?k" using assms(3,4) by (simp_all only: header_wire length_append length_to_le_bytes)
  have "take 4 (drop 12 buf) = to_le_bytes 4 (of_nat ?k :: u32)"
    unfolding assms(5) header_wire by simp
  then have len: "unat (from_le_bytes (take 4 (drop 12 buf)) :: u32) = ?k" using k(1) by simp
  have "str_slice ''a(yv)'' 1 (length ''a(yv)'') = Ret ''(yv)''" "split_one ''a(yv)'' = Ok (''a(yv)'', [])" by code_simp+
  then have "unmarshal n ''a(yv)'' buf 12 = Some (Fail truncated)"
    using k len assms(2)
    by (simp add: n array_head_def align_read_def take_n_def align_of_def Let_def)
  then show ?thesis by (simp add: decode_header_def truncated_def)
qed

lemma decode_message_bytes:
  assumes wf: "wf_message msg" and fuel: "msg_fuel msg \<le> n"
    and small: "length (message_bytes msg) < 2 ^ 32"
  shows "decode n (message_bytes msg @ post) = Some (Ret (msg, length (message_bytes msg)))"
proof -
  define body header where "body = wires 0 (msg_body msg)" and "header = wire 12 (header_value msg)"
  define start where "start = 12 + length header + pad_len (12 + length header) 8"
  define buf where "buf = message_bytes msg @ post"
  have mb: "message_bytes msg =
      fixed_header msg (length body) @ header @ zeros (12 + length header) 8 @ body"
    by (simp add: message_bytes_def body_def header_def Let_def)
  have "occurs buf 0 (message_bytes msg)" unfolding buf_def using occurs_self[of "[]" "message_bytes msg" post] by simp
  then have o: "occurs buf 0 (fixed_header msg (length body))" "occurs buf 12 header" "occurs buf start body"
    by (simp_all add: mb start_def add.assoc)
  have len: "length (message_bytes msg) = start + length body" by (simp add: mb start_def)
  have lens: "length body < 2 ^ 32" "12 + length header < 2 ^ 32" "start + length body < 2 ^ 32"
    using small len by (simp_all add: start_def)
  have "4 \<le> length header" unfolding header_def header_wire by simp
  then have l16: "16 \<le> length buf" by (simp add: buf_def mb)
  have start8: "8 dvd start" using align_up[of 8 "12 + length header"] unfolding start_def
    by (metis dvd_triv_right zero_less_numeral)
  then have body: "body = wires start (msg_body msg)"
    unfolding body_def by (intro wires_mod8) (simp add: dvd_eq_mod_eq_0)
  note fh = fixed_header_reads[OF o(1) lens(1)]
  have hdr: "decode_header n buf = Some (Ret ([header_value msg], 12 + length header))"
    using decode_header_wf[OF wf fuel] o(2) lens(2) by (simp only: header_def)
  have unm: "unmarshal n (msg_signature msg) buf start = Some (Ret (msg_body msg, start + length body))"
    using unmarshal_wf[of "msg_body msg" n buf start] wf fuel o(3) lens(3)
    by (simp add: body wf_message_def msg_fuel_def)
  have nobody: "msg_body msg = []" if "msg_signature msg = []"
    using that wf signature_of_ascii_or_elem by (cases "msg_body msg") (auto simp: wf_message_def)
  show ?thesis
    unfolding decode_def buf_def[symmetric] hdr
    using l16 fh unm nobody len
    by (auto simp: Let_def fold_header_fields start_def[symmetric] buf_def)
qed

lemma occurs_take:
  assumes "occurs buf p bs" "p + length bs \<le> k"
  shows "occurs (take k buf) p bs"
proof -
  have "length bs \<le> k - p" using assms(2) by simp
  then show ?thesis using assms by (simp add: occurs_def drop_take min_def)
qed

lemma decode_prefix:
  assumes wf: "wf_message msg" and fuel: "msg_fuel msg \<le> n"
    and small: "length (message_bytes msg) < 2 ^ 32" and k: "k < length (message_bytes msg)"
  shows "decode n (take k (message_bytes msg)) = Some (Fail need_more_data)"
proof (cases "k < 16")
  case True
  then show ?thesis using k by (simp add: decode_def)
next
  case False
  define body header where "body = wires 0 (msg_body msg)" and "header = wire 12 (header_value msg)"
  define start where "start = 12 + length header + pad_len (12 + length header) 8"
  define buf where "buf = take k (message_bytes msg)"
  have mb: "message_bytes msg =
      fixed_header msg (length body) @ header @ zeros (12 + length header) 8 @ body"
    by (simp add: message_bytes_def body_def header_def Let_def)
  have len: "length (message_bytes msg) = start + length body" by (simp add: mb start_def)
  have lens: "length body < 2 ^ 32" "12 + length header < 2 ^ 32"
    using small len by (simp_all add: start_def)
  have lb: "length buf = k" using k by (simp add: buf_def)
  have "occurs (message_bytes msg) 0 (message_bytes msg)" by (simp add: occurs_def)
  then have o: "occurs (message_bytes msg) 0 (fixed_header msg (length body))"
      "occurs (message_bytes msg) 12 header"
    unfolding mb by simp_all
  note fh = fixed_header_reads[OF occurs_take[OF o(1), of k, folded buf_def] lens(1)]
  show ?thesis
  proof (cases "k < 12 + length header")
    case True
    obtain len rest where hw: "header = len @ rest" "length len = 4"
      unfolding header_def header_wire by fastforce
    then have "occurs buf 12 len"
      using o(2) False occurs_take[of "message_bytes msg" 12 len k] by (simp add: buf_def)
    then have "take 4 (drop 12 buf) = take 4 header" using hw by (simp add: occurs_def)
    then have "decode_header n buf = Some (Fail need_more_data)"
      using decode_header_truncated[of n buf msg] fuel True False lens(2) lb
      by (simp add: header_def msg_fuel_def del: wire.simps)
    then show ?thesis using fh False lb by (simp add: decode_def buf_def[symmetric])
  next
    case full: False
    have "decode_header n buf = Some (Ret ([header_value msg], 12 + length header))"
      using decode_header_wf[OF wf fuel, of buf] occurs_take[OF o(2), of k] full lens(2)
      by (simp add: header_def buf_def del: wire.simps)
    then show ?thesis
      using fh False lb k len by (simp add: decode_def buf_def[symmetric] start_def[symmetric] Let_def)
  qed
qed

section \<open>Properties\<close>

text \<open>C4.  Messages round trip: a well-formed message is always encoded, and decoding its
  bytes, whatever follows them in the buffer, gives back every field of the message and
  its exact length.\<close>

theorem dbus_message_roundtrip:
  assumes "wf_message msg"
  shows "\<exists>out. encode msg = Ret out
    \<and> (length out < 2 ^ 32 \<longrightarrow> (\<forall>n post. msg_fuel msg \<le> n \<longrightarrow>
         decode n (out @ post) = Some (Ret (msg, length out))))"
  using encode_message_bytes[OF assms] decode_message_bytes[OF assms] by blast

theorem dbus_message_roundtrip_witness:
  "\<exists>out. encode (method_call 7 ''d'' ''/p'' ''i'' ''m'' ''sv'' [String ''plain'', Variant (String [])]) = Ret out
    \<and> (length out < 2 ^ 32 \<longrightarrow> (\<forall>n post.
         msg_fuel (method_call 7 ''d'' ''/p'' ''i'' ''m'' ''sv'' [String ''plain'', Variant (String [])]) \<le> n \<longrightarrow>
         decode n (out @ post) =
           Some (Ret (method_call 7 ''d'' ''/p'' ''i'' ''m'' ''sv'' [String ''plain'', Variant (String [])], length out))))"
  by (rule dbus_message_roundtrip) code_simp

text \<open> Framing: of every strict prefix of an encoded message \<open>decode\<close> says that more
  bytes are needed, so a reader that accumulates bytes never accepts part of a message and
  never gives up on one that is still arriving.\<close>

theorem dbus_decode_prefix_needs_more:
  assumes "wf_message msg" "encode msg = Ret out" "length out < 2 ^ 32" "k < length out"
    and "msg_fuel msg \<le> n"
  shows "decode n (take k out) = Some (Fail need_more_data)"
  using assms encode_message_bytes[OF assms(1)] decode_prefix[OF assms(1,5)] by simp

theorem dbus_decode_prefix_needs_more_witness:
  "\<exists>out. encode (method_call 1 ''d'' ''/'' ''i'' ''m'' [] []) = Ret out \<and> 20 < length out
    \<and> decode 1000 (take 20 out) = Some (Fail need_more_data)"
proof -
  let ?m = "method_call 1 ''d'' ''/'' ''i'' ''m'' [] []"
  have "wf_message ?m" "msg_fuel ?m \<le> 1000" by code_simp+
  moreover have "length (message_bytes ?m) = 80" by code_simp
  ultimately show ?thesis
    using encode_message_bytes[of ?m] dbus_decode_prefix_needs_more[of ?m _ 20 1000] by auto
qed

end
