(* ===== verification/Dbus_Transport.thy ===== *)
theory Dbus_Transport
  imports Dbus_Message
begin

text \<open>
  The session-bus connection, \<open>platform-linux/src/sys/dbus/transport.rs\<close>: address
  parsing, the SASL handshake, the message reader and the call loop.

  The socket is the kernel's.  Here it is the list of what the coming reads will
  return and of how much the coming writes will take, and the log of what was sent;
  a read or write beyond the list blocks, and an operation that blocks for ever is
  \<open>None\<close>.  A read takes at most its buffer's size of the bytes that are ready, the
  rest stays.
\<close>

section \<open>The socket\<close>

record Sock =
  sock_rx :: "bytes result list"
  sock_tx :: "nat result list"
  sock_sent :: bytes

definition sock_read :: "Sock \<Rightarrow> nat \<Rightarrow> (bytes result \<times> Sock) option" where
  "sock_read s cap =
    (case sock_rx s of
       [] \<Rightarrow> None
     | Err e # rs \<Rightarrow> Some (Err e, s\<lparr>sock_rx := rs\<rparr>)
     | Ok bs # rs \<Rightarrow>
         if length bs \<le> cap then Some (Ok bs, s\<lparr>sock_rx := rs\<rparr>)
         else Some (Ok (take cap bs), s\<lparr>sock_rx := Ok (drop cap bs) # rs\<rparr>))"

definition sock_write :: "Sock \<Rightarrow> bytes \<Rightarrow> (nat result \<times> Sock) option" where
  "sock_write s bs =
    (case sock_tx s of
       [] \<Rightarrow> None
     | Err e # ts \<Rightarrow> Some (Err e, s\<lparr>sock_tx := ts\<rparr>)
     | Ok n # ts \<Rightarrow>
         let k = min n (length bs) in
         Some (Ok k, s\<lparr>sock_tx := ts, sock_sent := sock_sent s @ take k bs\<rparr>))"

definition rx_size :: "Sock \<Rightarrow> nat" where
  "rx_size s = sum_list (map (\<lambda>r. case r of Ok bs \<Rightarrow> Suc (length bs) | Err _ \<Rightarrow> 1) (sock_rx s))"

lemma sock_read_decreases:
  "sock_read s cap = Some (r, s') \<Longrightarrow> 0 < cap \<Longrightarrow> rx_size s' < rx_size s"
  by (auto simp: sock_read_def rx_size_def split: list.splits sum.splits if_splits)

lemma sock_write_decreases:
  "sock_write s bs = Some (r, s') \<Longrightarrow> length (sock_tx s') < length (sock_tx s)"
  by (auto simp: sock_write_def Let_def split: list.splits sum.splits)

section \<open>The code\<close>

definition proto_err :: "string \<Rightarrow> PlatformError" where
  "proto_err detail = new_error InvalidInput NoCode detail"

datatype UnixAddr = PathAddr bytes | AbstractAddr bytes

definition sun_path_bytes :: "UnixAddr \<Rightarrow> bytes" where
  "sun_path_bytes a = (case a of PathAddr p \<Rightarrow> p | AbstractAddr name \<Rightarrow> [0] @ name)"

definition strip_prefix :: "string \<Rightarrow> string \<Rightarrow> string option" where
  "strip_prefix p s = (if take (length p) s = p then Some (drop (length p) s) else None)"

definition parse_kv :: "string \<Rightarrow> UnixAddr list" where
  "parse_kv kv =
    (case strip_prefix ''path='' kv of
       Some path \<Rightarrow> [PathAddr (as_bytes path)]
     | None \<Rightarrow>
        (case strip_prefix ''abstract='' kv of
           Some name \<Rightarrow> [AbstractAddr (as_bytes name)]
         | None \<Rightarrow> []))"

definition parse_unix_addresses :: "string \<Rightarrow> UnixAddr list" where
  "parse_unix_addresses addr_str =
    concat (map (\<lambda>candidate.
      case strip_prefix ''unix:'' candidate of
        None \<Rightarrow> []
      | Some rest \<Rightarrow> concat (map parse_kv (split_on (CHR '','') rest)))
    (split_on (CHR '';'') addr_str))"

definition session_bus_addresses :: "string option \<Rightarrow> u32 \<Rightarrow> UnixAddr list" where
  "session_bus_addresses env uid =
    (let parsed = (case env of Some e \<Rightarrow> parse_unix_addresses e | None \<Rightarrow> []) in
     if parsed \<noteq> [] then parsed
     else [PathAddr (as_bytes (''/run/user/'' @ dec_digits (unat uid) @ ''/bus''))])"

text \<open>\<open>connect_one\<close> is the kernel's; the loop over the candidates is the code's.\<close>

fun connect_loop :: "(UnixAddr \<Rightarrow> 'fd result) \<Rightarrow> UnixAddr list \<Rightarrow> PlatformError option \<Rightarrow> 'fd result" where
  "connect_loop connect_one [] last_err =
    (case last_err of Some e \<Rightarrow> Err e
     | None \<Rightarrow> Err (new_error NotFound NoCode ''no usable D-Bus session bus address found''))"
| "connect_loop connect_one (a # as) last_err =
    (case connect_one a of Ok fd \<Rightarrow> Ok fd | Err e \<Rightarrow> connect_loop connect_one as (Some e))"

definition hex_encode :: "bytes \<Rightarrow> string" where
  "hex_encode bs = concat (map (\<lambda>b. [hex_digit (unat b div 16), hex_digit (unat b mod 16)]) bs)"

fun find_crlf :: "bytes \<Rightarrow> nat option" where
  "find_crlf (a # b # rest) =
    (if a = 0x0D \<and> b = 0x0A then Some 0 else map_option Suc (find_crlf (b # rest)))"
| "find_crlf _ = None"

abbreviation MAX_LINE :: nat where "MAX_LINE \<equiv> 4096"

function read_sasl_loop :: "bytes \<Rightarrow> Sock \<Rightarrow> ((bytes \<times> bytes) result \<times> Sock) option" where
  "read_sasl_loop buf s =
    (case find_crlf buf of
       Some pos \<Rightarrow> Some (Ok (take pos buf, drop (pos + 2) buf), s)
     | None \<Rightarrow>
        if length buf \<ge> MAX_LINE
        then Some (Err (proto_err ''SASL line exceeded the maximum accepted length''), s)
        else case sock_read s 256 of
          None \<Rightarrow> None
        | Some (Err e, s1) \<Rightarrow> Some (Err e, s1)
        | Some (Ok chunk, s1) \<Rightarrow>
            if chunk = []
            then Some (Err (proto_err ''D-Bus peer closed the connection during SASL auth''), s1)
            else read_sasl_loop (buf @ chunk) s1)"
  by pat_completeness auto
termination read_sasl_loop
  by (relation "measure (rx_size \<circ> snd)") (auto dest: sock_read_decreases)

definition read_sasl_line :: "Sock \<Rightarrow> ((bytes \<times> bytes) result \<times> Sock) option" where
  "read_sasl_line s = read_sasl_loop [] s"

function write_all :: "Sock \<Rightarrow> bytes \<Rightarrow> (unit result \<times> Sock) option" where
  "write_all s bs =
    (if bs = [] then Some (Ok (), s)
     else case sock_write s bs of
       None \<Rightarrow> None
     | Some (Err e, s1) \<Rightarrow> Some (Err e, s1)
     | Some (Ok n, s1) \<Rightarrow>
         if n = 0 then Some (Err (proto_err ''write to D-Bus socket accepted zero bytes''), s1)
         else write_all s1 (drop n bs))"
  by pat_completeness auto
termination write_all
  by (relation "measure (\<lambda>(s, _). length (sock_tx s))") (auto dest: sock_write_decreases)

definition auth_line :: "u32 \<Rightarrow> bytes" where
  "auth_line uid =
    as_bytes (''AUTH EXTERNAL '' @ hex_encode (as_bytes (dec_digits (unat uid)))) @ [0x0D, 0x0A]"

definition sasl_external_handshake :: "u32 \<Rightarrow> Sock \<Rightarrow> (bytes result \<times> Sock) option" where
  "sasl_external_handshake uid s =
    (case write_all s [0] of
       None \<Rightarrow> None
     | Some (Err e, s1) \<Rightarrow> Some (Err e, s1)
     | Some (Ok _, s1) \<Rightarrow>
    case write_all s1 (auth_line uid) of
       None \<Rightarrow> None
     | Some (Err e, s2) \<Rightarrow> Some (Err e, s2)
     | Some (Ok _, s2) \<Rightarrow>
    case read_sasl_line s2 of
       None \<Rightarrow> None
     | Some (Err e, s3) \<Rightarrow> Some (Err e, s3)
     | Some (Ok (line, leftover), s3) \<Rightarrow>
    if take 3 line \<noteq> as_bytes ''OK ''
    then Some (Err (proto_err ''D-Bus SASL EXTERNAL authentication was rejected''), s3)
    else case write_all s3 (as_bytes ''BEGIN'' @ [0x0D, 0x0A]) of
       None \<Rightarrow> None
     | Some (Err e, s4) \<Rightarrow> Some (Err e, s4)
     | Some (Ok _, s4) \<Rightarrow> Some (Ok leftover, s4))"

record Connection =
  conn_fd :: Sock
  next_serial :: u32
  read_buf :: bytes
  unique_name :: string

function read_one_message :: "nat \<Rightarrow> Connection \<Rightarrow> (Message run \<times> Connection) option" where
  "read_one_message n c =
    (case decode n (read_buf c) of
       None \<Rightarrow> None
     | Some Panic \<Rightarrow> Some (Panic, c)
     | Some (Ret (msg, consumed)) \<Rightarrow> Some (Ret msg, c\<lparr>read_buf := drop consumed (read_buf c)\<rparr>)
     | Some (Fail e) \<Rightarrow>
        if err_kind e \<noteq> WouldBlock then Some (Fail e, c)
        else case sock_read (conn_fd c) 4096 of
          None \<Rightarrow> None
        | Some (Err e, s) \<Rightarrow> Some (Fail e, c\<lparr>conn_fd := s\<rparr>)
        | Some (Ok chunk, s) \<Rightarrow>
            if chunk = [] then Some (Fail (proto_err ''D-Bus peer closed the connection''), c\<lparr>conn_fd := s\<rparr>)
            else read_one_message n (c\<lparr>conn_fd := s, read_buf := read_buf c @ chunk\<rparr>))"
  by pat_completeness auto
termination read_one_message
  by (relation "measure (\<lambda>(_, c). rx_size (conn_fd c))") (auto dest: sock_read_decreases)

definition reply_result :: "Message \<Rightarrow> Message run" where
  "reply_result reply =
    (if message_type reply = TYPE_METHOD_RETURN then Ret reply
     else if message_type reply = TYPE_ERROR then
       Fail (with_path (new_error Other NoCode ''D-Bus call returned an error'')
         (case msg_error_name reply of Some d \<Rightarrow> d | None \<Rightarrow> ''unknown''))
     else Fail (proto_err ''unexpected reply message type to a method call''))"

text \<open>The reply loop reads messages until one answers the call; \<open>n\<close> bounds the messages
  read as it bounds the unmarshaler.\<close>

fun call_loop :: "nat \<Rightarrow> nat \<Rightarrow> u32 \<Rightarrow> Connection \<Rightarrow> (Message run \<times> Connection) option" where
  "call_loop 0 n serial c = None"
| "call_loop (Suc k) n serial c =
    (case read_one_message n c of
       None \<Rightarrow> None
     | Some (Ret reply, c1) \<Rightarrow>
         if msg_reply_serial reply \<noteq> Some serial then call_loop k n serial c1
         else Some (reply_result reply, c1)
     | Some (Fail e, c1) \<Rightarrow> Some (Fail e, c1)
     | Some (Panic, c1) \<Rightarrow> Some (Panic, c1))"

definition call ::
    "nat \<Rightarrow> Connection \<Rightarrow> string \<Rightarrow> string \<Rightarrow> string \<Rightarrow> string \<Rightarrow> string \<Rightarrow> Value list
     \<Rightarrow> (Message run \<times> Connection) option" where
  "call n c destination path interface member sig body =
    (let serial = next_serial c;
         c0 = c\<lparr>next_serial := next_serial c + 1\<rparr>
     in case encode (method_call serial destination path interface member sig body) of
       Fail e \<Rightarrow> Some (Fail e, c0)
     | Panic \<Rightarrow> Some (Panic, c0)
     | Ret bs \<Rightarrow>
        (case write_all (conn_fd c0) bs of
           None \<Rightarrow> None
         | Some (Err e, s) \<Rightarrow> Some (Fail e, c0\<lparr>conn_fd := s\<rparr>)
         | Some (Ok _, s) \<Rightarrow> call_loop n n serial (c0\<lparr>conn_fd := s\<rparr>)))"

definition from_fd :: "nat \<Rightarrow> u32 \<Rightarrow> Sock \<Rightarrow> Connection run option" where
  "from_fd n uid s =
    (case sasl_external_handshake uid s of
       None \<Rightarrow> None
     | Some (Err e, _) \<Rightarrow> Some (Fail e)
     | Some (Ok leftover, s1) \<Rightarrow>
        (case call n \<lparr>conn_fd = s1, next_serial = 1, read_buf = leftover, unique_name = []\<rparr>
             ''org.freedesktop.DBus'' ''/org/freedesktop/DBus'' ''org.freedesktop.DBus'' ''Hello'' [] [] of
           None \<Rightarrow> None
         | Some (Fail e, _) \<Rightarrow> Some (Fail e)
         | Some (Panic, _) \<Rightarrow> Some Panic
         | Some (Ret reply, c) \<Rightarrow>
            (case msg_body reply of
               String name # _ \<Rightarrow> Some (Ret (c\<lparr>unique_name := name\<rparr>))
             | _ \<Rightarrow> Some (Fail (proto_err ''Hello did not return the expected unique name'')))))"

text \<open>\<open>Connection::session\<close> and \<open>Connection::connect_to\<close>, with the kernel's \<open>connect_one\<close>.\<close>

definition session ::
    "nat \<Rightarrow> (UnixAddr \<Rightarrow> Sock result) \<Rightarrow> string option \<Rightarrow> u32 \<Rightarrow> Connection run option" where
  "session n connect_one env uid =
    (case connect_loop connect_one (session_bus_addresses env uid) None of
       Err e \<Rightarrow> Some (Fail e)
     | Ok fd \<Rightarrow> from_fd n uid fd)"

definition connect_to ::
    "nat \<Rightarrow> (UnixAddr \<Rightarrow> Sock result) \<Rightarrow> u32 \<Rightarrow> string \<Rightarrow> Connection run option" where
  "connect_to n connect_one uid unix_address =
    (case parse_unix_addresses unix_address of
       [] \<Rightarrow> Some (Fail (proto_err ''no unix: address found in the given D-Bus address string''))
     | addr # _ \<Rightarrow>
        (case connect_one addr of Err e \<Rightarrow> Some (Fail e) | Ok fd \<Rightarrow> from_fd n uid fd))"

declare read_sasl_loop.simps [simp del] write_all.simps [simp del] read_one_message.simps [simp del]

section \<open>A stream that delivers\<close>

text \<open>A socket delivers when each coming read has at least one byte; \<open>rx_bytes\<close> is the
  stream, however it is cut into reads.\<close>

definition delivers :: "Sock \<Rightarrow> bool" where
  "delivers s = list_all (\<lambda>r. case r of Ok bs \<Rightarrow> bs \<noteq> [] | Err _ \<Rightarrow> False) (sock_rx s)"

definition rx_bytes :: "Sock \<Rightarrow> bytes" where
  "rx_bytes s = concat (map (\<lambda>r. case r of Ok bs \<Rightarrow> bs | Err _ \<Rightarrow> []) (sock_rx s))"

lemma sock_read_delivers:
  assumes "delivers s" "rx_bytes s \<noteq> []" "0 < cap"
  obtains chunk s' where "sock_read s cap = Some (Ok chunk, s')" "chunk \<noteq> []" "delivers s'"
    "rx_bytes s = chunk @ rx_bytes s'" "rx_size s' < rx_size s" "sock_sent s' = sock_sent s"
proof -
  obtain bs rs where rx: "sock_rx s = Ok bs # rs" "bs \<noteq> []"
    using assms(1,2) by (cases "sock_rx s") (auto simp: delivers_def rx_bytes_def split: sum.splits)
  show ?thesis
  proof (cases "length bs \<le> cap")
    case True
    show ?thesis
      by (rule that[of bs "s\<lparr>sock_rx := rs\<rparr>"])
        (use rx True assms in \<open>auto simp: sock_read_def delivers_def rx_bytes_def rx_size_def\<close>)
  next
    case False
    show ?thesis
      by (rule that[of "take cap bs" "s\<lparr>sock_rx := Ok (drop cap bs) # rs\<rparr>"])
        (use rx False assms in \<open>auto simp: sock_read_def delivers_def rx_bytes_def rx_size_def\<close>)
  qed
qed

section \<open>Messages are reassembled\<close>

definition sendable :: "nat \<Rightarrow> Message \<Rightarrow> bool" where
  "sendable n msg = (wf_message msg \<and> length (message_bytes msg) < 2 ^ 32 \<and> msg_fuel msg \<le> n)"

definition incoming :: "Connection \<Rightarrow> bytes" where
  "incoming c = read_buf c @ rx_bytes (conn_fd c)"

lemma read_one_message_reassembles:
  assumes "sendable n msg" "delivers (conn_fd c)" "incoming c = message_bytes msg @ post"
  shows "\<exists>c'. read_one_message n c = Some (Ret msg, c') \<and> incoming c' = post
    \<and> delivers (conn_fd c') \<and> next_serial c' = next_serial c
    \<and> sock_sent (conn_fd c') = sock_sent (conn_fd c)"
  using assms
proof (induction "rx_size (conn_fd c)" arbitrary: c rule: less_induct)
  case less
  let ?bs = "message_bytes msg"
  show ?case
  proof (cases "length ?bs \<le> length (read_buf c)")
    case True
    obtain x where x: "read_buf c = ?bs @ x" "post = x @ rx_bytes (conn_fd c)"
      using less.prems(3)[unfolded incoming_def] True by (rule append_eq_longer)
    then have "decode n (read_buf c) = Some (Ret (msg, length ?bs))"
      using less.prems(1) decode_message_bytes by (simp add: sendable_def)
    then show ?thesis
      using x less.prems by (subst read_one_message.simps) (simp add: incoming_def)
  next
    case False
    then have pre: "read_buf c = take (length (read_buf c)) ?bs"
      using append_eq_shorter[OF less.prems(3)[unfolded incoming_def]] by simp
    then have more: "decode n (read_buf c) = Some (Fail need_more_data)"
      using decode_prefix[of msg n "length (read_buf c)"] less.prems(1) False
      by (metis not_le sendable_def)
    have "rx_bytes (conn_fd c) \<noteq> []" using less.prems(3) False by (auto simp: incoming_def)
    then obtain chunk s' where s': "sock_read (conn_fd c) 4096 = Some (Ok chunk, s')" "chunk \<noteq> []"
      "delivers s'" "rx_bytes (conn_fd c) = chunk @ rx_bytes s'" "rx_size s' < rx_size (conn_fd c)"
      "sock_sent s' = sock_sent (conn_fd c)"
      by (rule sock_read_delivers[OF less.prems(2), where cap = 4096]) (simp, blast)
    let ?c = "c\<lparr>conn_fd := s', read_buf := read_buf c @ chunk\<rparr>"
    have "\<exists>c'. read_one_message n ?c = Some (Ret msg, c') \<and> incoming c' = post
      \<and> delivers (conn_fd c') \<and> next_serial c' = next_serial ?c
      \<and> sock_sent (conn_fd c') = sock_sent (conn_fd ?c)"
      using less.prems s' by (intro less.hyps) (simp_all add: incoming_def)
    then show ?thesis
      using more s' by (subst read_one_message.simps) (simp add: need_more_data_def)
  qed
qed

lemma call_loop_skips:
  assumes "list_all (\<lambda>m. sendable n m \<and> msg_reply_serial m \<noteq> Some serial) others"
    and "sendable n reply" "msg_reply_serial reply = Some serial"
    and "delivers (conn_fd c)" "length others < k"
    and "incoming c = concat (map message_bytes others) @ message_bytes reply @ post"
  shows "\<exists>c'. call_loop k n serial c = Some (reply_result reply, c') \<and> incoming c' = post
    \<and> delivers (conn_fd c') \<and> next_serial c' = next_serial c
    \<and> sock_sent (conn_fd c') = sock_sent (conn_fd c)"
  using assms
proof (induction others arbitrary: k c)
  case Nil
  then obtain k' where "k = Suc k'" by (cases k) auto
  then show ?case using Nil read_one_message_reassembles[of n reply c post] by auto
next
  case (Cons m ms)
  then obtain k' where k: "k = Suc k'" "length ms < k'" by (cases k) auto
  obtain c1 where c1: "read_one_message n c = Some (Ret m, c1)" "delivers (conn_fd c1)"
      "incoming c1 = concat (map message_bytes ms) @ message_bytes reply @ post"
      "next_serial c1 = next_serial c" "sock_sent (conn_fd c1) = sock_sent (conn_fd c)"
    using Cons.prems read_one_message_reassembles[of n m c] by auto
  then show ?case using Cons.IH[of c1 k'] Cons.prems k by auto
qed

section \<open>Writing and the handshake\<close>

lemma write_all_Ok:
  "write_all s bs = Some (Ok (), s') \<Longrightarrow> sock_sent s' = sock_sent s @ bs \<and> sock_rx s' = sock_rx s"
proof (induction s bs rule: write_all.induct)
  case (1 s bs)
  show ?case
  proof (cases "bs = []")
    case True
    then show ?thesis using "1.prems" by (simp add: write_all.simps)
  next
    case False
    then obtain n s1 where w: "sock_write s bs = Some (Ok n, s1)" "n \<noteq> 0" "write_all s1 (drop n bs) = Some (Ok (), s')"
      using "1.prems" by (subst (asm) write_all.simps) (auto split: option.splits sum.splits if_splits)
    then have "sock_sent s1 = sock_sent s @ take n bs" "sock_rx s1 = sock_rx s"
      by (auto simp: sock_write_def Let_def split: list.splits sum.splits)
    then show ?thesis using "1.IH"[OF False w(1)] w by auto
  qed
qed

lemma find_crlf_append: "find_crlf xs = Some k \<Longrightarrow> find_crlf (xs @ ys) = Some k"
  by (induction xs arbitrary: k rule: find_crlf.induct) (auto split: if_splits)

lemma find_crlf_bound: "find_crlf xs = Some k \<Longrightarrow> k + 2 \<le> length xs"
  by (induction xs arbitrary: k rule: find_crlf.induct) (auto split: if_splits)

lemma read_sasl_loop_line:
  assumes "delivers s" "buf @ rx_bytes s = line @ [0x0D, 0x0A] @ rest"
    and "find_crlf (line @ [0x0D, 0x0A]) = Some (length line)" "length line + 2 \<le> MAX_LINE"
  shows "\<exists>leftover s'. read_sasl_loop buf s = Some (Ok (line, leftover), s')
    \<and> leftover @ rx_bytes s' = rest \<and> delivers s'"
  using assms(1,2)
proof (induction "rx_size s" arbitrary: buf s rule: less_induct)
  case less
  show ?case
  proof (cases "find_crlf buf")
    case (Some k)
    have "find_crlf (buf @ rx_bytes s) = Some (length line)"
      using find_crlf_append[OF assms(3), of rest] less.prems(2) by simp
    then have k: "k = length line" using find_crlf_append[OF Some, of "rx_bytes s"] by simp
    have "length (line @ [0x0D, 0x0A]) \<le> length buf" using find_crlf_bound[OF Some] k by simp
    then obtain x where "buf = (line @ [0x0D, 0x0A]) @ x" "rest = x @ rx_bytes s"
      using less.prems(2) append_eq_longer[of buf "rx_bytes s" "line @ [0x0D, 0x0A]" rest] by auto
    then show ?thesis using less.prems(1) Some k by (subst read_sasl_loop.simps) auto
  next
    case None
    have short: "length buf < length line + 2"
    proof (rule ccontr)
      assume "\<not> ?thesis"
      then obtain x where "buf = (line @ [0x0D, 0x0A]) @ x"
        using less.prems(2) append_eq_longer[of buf "rx_bytes s" "line @ [0x0D, 0x0A]" rest] by auto
      then show False using None find_crlf_append[OF assms(3), of x] by simp
    qed
    then have "rx_bytes s \<noteq> []" using arg_cong[OF less.prems(2), of length] by auto
    then obtain chunk s' where s': "sock_read s 256 = Some (Ok chunk, s')" "chunk \<noteq> []"
      "delivers s'" "rx_bytes s = chunk @ rx_bytes s'" "rx_size s' < rx_size s"
      by (rule sock_read_delivers[OF less.prems(1), where cap = 256]) (simp, blast)
    have "\<exists>leftover s''. read_sasl_loop (buf @ chunk) s' = Some (Ok (line, leftover), s'')
      \<and> leftover @ rx_bytes s'' = rest \<and> delivers s''"
      using less.prems s' by (intro less.hyps) simp_all
    then show ?thesis
      using None s' short assms(4) by (subst read_sasl_loop.simps) auto
  qed
qed

lemma sendableI:
  assumes "wf_message msg" "encode msg = Ret out" "length out < 2 ^ 32" "msg_fuel msg \<le> n"
  shows "sendable n msg" "message_bytes msg = out"
  using assms encode_message_bytes[OF assms(1)] by (simp_all add: sendable_def)

section \<open>Properties\<close>

text \<open>C22.  Reassembly: however the stream is cut into reads, if what is buffered and what
  arrives begins with an encoded message, \<open>read_one_message\<close> returns that message and
  leaves exactly the bytes after it.\<close>

theorem dbus_read_one_message_reassembles:
  assumes "wf_message msg" "encode msg = Ret out" "length out < 2 ^ 32" "msg_fuel msg \<le> n"
    and "delivers (conn_fd c)" "incoming c = out @ post"
  shows "\<exists>c'. read_one_message n c = Some (Ret msg, c') \<and> incoming c' = post"
  using read_one_message_reassembles[OF sendableI(1)[OF assms(1-4)] assms(5)]
    sendableI(2)[OF assms(1-4)] assms(6) by blast

theorem dbus_read_one_message_reassembles_witness:
  "\<exists>out c'. encode (method_call 1 ''d'' ''/'' ''i'' ''m'' [] []) = Ret out \<and>
    read_one_message 1000 \<lparr>conn_fd = \<lparr>sock_rx = [Ok (take 30 (drop 7 out)), Ok (drop 37 out @ [9])],
        sock_tx = [], sock_sent = []\<rparr>, next_serial = 2, read_buf = take 7 out, unique_name = []\<rparr>
      = Some (Ret (method_call 1 ''d'' ''/'' ''i'' ''m'' [] []), c') \<and> incoming c' = [9]"
proof -
  let ?m = "method_call 1 ''d'' ''/'' ''i'' ''m'' [] []"
  let ?c = "\<lambda>out. \<lparr>conn_fd = \<lparr>sock_rx = [Ok (take 30 (drop 7 out)), Ok (drop 37 out @ [9])],
        sock_tx = [], sock_sent = []\<rparr>, next_serial = 2, read_buf = take 7 out, unique_name = []\<rparr>"
  define out where "out = message_bytes ?m"
  have wf: "wf_message ?m" "msg_fuel ?m \<le> 1000" by code_simp+
  have len: "length out = 80" unfolding out_def by code_simp
  have enc: "encode ?m = Ret out" using encode_message_bytes[OF wf(1)] by (simp add: out_def)
  have "take 30 (drop 7 out) @ drop 37 out = drop 7 out"
    using append_take_drop_id[of 30 "drop 7 out"] by simp
  then have "take 7 out @ take 30 (drop 7 out) @ drop 37 out = out" by simp
  then have inc: "incoming (?c out) = out @ [9]" by (simp add: incoming_def rx_bytes_def)
  have del: "delivers (conn_fd (?c out))" using len by (simp add: delivers_def)
  show ?thesis
    using dbus_read_one_message_reassembles[OF wf(1) enc _ wf(2) del inc] len enc by simp
qed

text \<open>C23.  A call returns its own reply: the request is written once, whole; every message
  that does not answer its serial is discarded; the first that does decides the result (a
  return as itself, an error reply as an error carrying its name, anything else refused);
  and the connection keeps exactly the bytes after it, with the next serial.\<close>

theorem dbus_call_returns_matching_reply:
  assumes "encode (method_call (next_serial c) d p i m sig body) = Ret req"
    and "write_all (conn_fd c) req = Some (Ok (), s)" "delivers (conn_fd c)"
    and "list_all (\<lambda>m. sendable n m \<and> msg_reply_serial m \<noteq> Some (next_serial c)) others"
    and "sendable n reply" "msg_reply_serial reply = Some (next_serial c)" "length others < n"
    and "incoming c = concat (map message_bytes others) @ message_bytes reply @ post"
  shows "\<exists>c'. call n c d p i m sig body = Some (reply_result reply, c') \<and> incoming c' = post
    \<and> next_serial c' = next_serial c + 1 \<and> sock_sent (conn_fd c') = sock_sent (conn_fd c) @ req"
proof -
  let ?c = "c\<lparr>next_serial := next_serial c + 1, conn_fd := s\<rparr>"
  have s: "sock_sent s = sock_sent (conn_fd c) @ req" "sock_rx s = sock_rx (conn_fd c)"
    using write_all_Ok[OF assms(2)] by auto
  then have "delivers (conn_fd ?c)"
      "incoming ?c = concat (map message_bytes others) @ message_bytes reply @ post"
    using assms(3,8) by (simp_all add: delivers_def incoming_def rx_bytes_def)
  from call_loop_skips[OF assms(4,5,6) this(1) assms(7) this(2)]
  show ?thesis using assms(1,2) s by (auto simp: call_def Let_def)
qed

theorem dbus_call_returns_matching_reply_witness:
  "\<exists>c'. call 1000
      \<lparr>conn_fd = \<lparr>sock_rx = [Ok (message_bytes (default_message\<lparr>message_type := 4\<rparr>)
            @ message_bytes (default_message\<lparr>message_type := 2, msg_reply_serial := Some 7\<rparr>) @ [1])],
          sock_tx = [Ok 4000], sock_sent = []\<rparr>,
        next_serial = 7, read_buf = [], unique_name = []\<rparr> ''d'' ''/'' ''i'' ''m'' [] []
    = Some (Ret (default_message\<lparr>message_type := 2, msg_reply_serial := Some 7\<rparr>), c')
    \<and> incoming c' = [1] \<and> next_serial c' = 8"
proof -
  let ?other = "default_message\<lparr>message_type := 4\<rparr>"
  let ?reply = "default_message\<lparr>message_type := 2, msg_reply_serial := Some 7\<rparr>"
  let ?fd = "\<lparr>sock_rx = [Ok (message_bytes ?other @ message_bytes ?reply @ [1])],
          sock_tx = [Ok 4000], sock_sent = []\<rparr>"
  let ?c = "\<lparr>conn_fd = ?fd, next_serial = 7, read_buf = [], unique_name = []\<rparr>"
  let ?req = "method_call 7 ''d'' ''/'' ''i'' ''m'' [] []"
  define req where "req = message_bytes ?req"
  have wf: "wf_message ?req" "wf_message ?other" "wf_message ?reply" by code_simp+
  have len: "length req = 80" "length (message_bytes ?other) = 16" "length (message_bytes ?reply) = 24"
    unfolding req_def by code_simp+
  have "msg_fuel ?other \<le> 1000" "msg_fuel ?reply \<le> 1000" by code_simp+
  then have ok: "sendable 1000 ?other" "sendable 1000 ?reply" using wf len by (simp_all add: sendable_def)
  have enc: "encode (method_call (next_serial ?c) ''d'' ''/'' ''i'' ''m'' [] []) = Ret req"
    using encode_message_bytes[OF wf(1)] by (simp add: req_def)
  have w: "write_all (conn_fd ?c) req = Some (Ok (), ?fd\<lparr>sock_tx := [], sock_sent := req\<rparr>)"
  proof -
    have "req \<noteq> []" using len(1) by auto
    then show ?thesis using len(1)
      by (simp add: write_all.simps[of _ req] write_all.simps[of _ "[]"] sock_write_def Let_def min_def)
  qed
  have "delivers (conn_fd ?c)" by (simp add: delivers_def)
  then show ?thesis
    using dbus_call_returns_matching_reply[OF enc w, of 1000 "[?other]" ?reply "[1]"] ok
    by (simp add: incoming_def rx_bytes_def reply_result_def default_message_def) blast
qed

text \<open>The SASL line reader stops at the first line end, however the bytes arrive: it
  returns the line before it, and what it read beyond it is not lost.\<close>

theorem sasl_line_any_fragmentation:
  assumes "delivers s" "rx_bytes s = line @ [0x0D, 0x0A] @ rest"
    and "find_crlf (line @ [0x0D, 0x0A]) = Some (length line)" "length line + 2 \<le> 4096"
  shows "\<exists>leftover s'. read_sasl_line s = Some (Ok (line, leftover), s') \<and> leftover @ rx_bytes s' = rest"
  using read_sasl_loop_line[OF assms(1) _ assms(3,4), of "[]"] assms(2) by (auto simp: read_sasl_line_def)

theorem sasl_line_any_fragmentation_witness:
  "\<exists>leftover s'. read_sasl_line \<lparr>sock_rx = [Ok [0x4F, 0x4B, 0x0D], Ok [0x0A, 0x6C]], sock_tx = [], sock_sent = []\<rparr>
     = Some (Ok ([0x4F, 0x4B], leftover), s') \<and> leftover @ rx_bytes s' = [0x6C]"
  by (rule sasl_line_any_fragmentation) (simp_all add: delivers_def rx_bytes_def)

end
