(* ===== verification/Platform_Security.thy ===== *)
theory Platform_Security
  imports Platform_Error
begin

text \<open>
  The status types and the disabled credential store of \<open>platform/src/security.rs\<close>.
  \<open>credential_store\<close> is the contract of its trait \<open>CredentialStore\<close>: a secret that
  was set is read back, other names are untouched, and a clean miss is no error.
\<close>

datatype CredentialStoreStatus = Available | Unavailable | StoreUnsupported

datatype SandboxStatus = Enforced | NotEnforced | SandboxUnsupported

definition null_available :: CredentialStoreStatus where
  "null_available = StoreUnsupported"

definition null_get :: "string \<Rightarrow> string \<Rightarrow> bytes option result" where
  "null_get service account = Ok None"

definition null_set :: "string \<Rightarrow> string \<Rightarrow> bytes \<Rightarrow> unit result" where
  "null_set service account secret = Ok ()"

locale credential_store =
  fixes get :: "'w \<Rightarrow> string \<Rightarrow> string \<Rightarrow> bytes option result"
    and set :: "'w \<Rightarrow> string \<Rightarrow> string \<Rightarrow> bytes \<Rightarrow> unit result \<times> 'w"
  assumes get_total: "is_ok (get w s a)"
    and set_total: "is_ok (fst (set w s a x))"
    and get_set: "get (snd (set w s a x)) s' a' =
      (if (s', a') = (s, a) then Ok (Some x) else get w s' a')"
begin

text \<open>A sequence of stores: the last write to a name is what is read.\<close>

fun sets :: "'w \<Rightarrow> (string \<times> string \<times> bytes) list \<Rightarrow> 'w" where
  "sets w [] = w"
| "sets w ((s, a, x) # ops) = sets (snd (set w s a x)) ops"

lemma get_sets:
  "get (sets w ops) s a =
    (case map_of (map (\<lambda>(s, a, x). ((s, a), x)) (rev ops)) (s, a) of
       Some x \<Rightarrow> Ok (Some x) | None \<Rightarrow> get w s a)"
proof (induction ops arbitrary: w)
  case (Cons op ops)
  obtain s1 a1 x1 where "op = (s1, a1, x1)" by (cases op) auto
  then show ?case
    using Cons[of "snd (set w s1 a1 x1)"] by (auto simp: get_set map_add_def split: option.splits)
qed simp

end

end
