(* ===== verification/Secret_Service.thy ===== *)
theory Secret_Service
  imports Dbus_Transport Platform_Security
begin

text \<open>
  The Secret Service client, \<open>platform-linux/src/sys/secret_service.rs\<close>: the Linux
  credential store over the D-Bus connection.  \<open>rpc\<close> is \<open>Connection::call\<close> and \<open>opn\<close>
  opens a fresh connection; both act on a state \<open>'c\<close>, which is the connection with
  whatever is behind it.  \<open>bus_get\<close> and its companions give them the transport of this
  library; the contract of the daemon is stated on \<open>rpc\<close>.
\<close>

section \<open>Actions on a connection\<close>

type_synonym ('c, 'a) action = "'c \<Rightarrow> ('a run \<times> 'c) option"
type_synonym 'c rpc =
  "string \<Rightarrow> string \<Rightarrow> string \<Rightarrow> string \<Rightarrow> string \<Rightarrow> Value list \<Rightarrow> ('c, Message) action"

definition act_bind :: "('c, 'a) action \<Rightarrow> ('a \<Rightarrow> ('c, 'b) action) \<Rightarrow> ('c, 'b) action" where
  "act_bind m f c =
    (case m c of
       None \<Rightarrow> None
     | Some (Ret x, c1) \<Rightarrow> f x c1
     | Some (Fail e, c1) \<Rightarrow> Some (Fail e, c1)
     | Some (Panic, c1) \<Rightarrow> Some (Panic, c1))"

definition act_ret :: "'a \<Rightarrow> ('c, 'a) action" where
  "act_ret x c = Some (Ret x, c)"

definition act_fail :: "PlatformError \<Rightarrow> ('c, 'a) action" where
  "act_fail e c = Some (Fail e, c)"

definition nth_opt :: "'a list \<Rightarrow> nat \<Rightarrow> 'a option" where
  "nth_opt xs i = (if i < length xs then Some (xs ! i) else None)"

section \<open>The code\<close>

abbreviation SERVICE_DEST :: string where "SERVICE_DEST \<equiv> ''org.freedesktop.secrets''"
abbreviation SERVICE_PATH :: string where "SERVICE_PATH \<equiv> ''/org/freedesktop/secrets''"
abbreviation SERVICE_IFACE :: string where "SERVICE_IFACE \<equiv> ''org.freedesktop.Secret.Service''"
abbreviation COLLECTION_IFACE :: string where "COLLECTION_IFACE \<equiv> ''org.freedesktop.Secret.Collection''"
abbreviation ITEM_IFACE :: string where "ITEM_IFACE \<equiv> ''org.freedesktop.Secret.Item''"
abbreviation PROPERTIES_IFACE :: string where "PROPERTIES_IFACE \<equiv> ''org.freedesktop.DBus.Properties''"
abbreviation NULL_PATH :: string where "NULL_PATH \<equiv> ''/''"

definition unreachable_err :: PlatformError where
  "unreachable_err = new_error Other NoCode
    ''the Secret Service backing store is not currently reachable (check CredentialStore::available() first)''"

definition is_benign_unreachable :: "PlatformError \<Rightarrow> bool" where
  "is_benign_unreachable e =
    (err_kind e = ConnectionRefused \<or> err_kind e = NotFound
     \<or> (err_kind e = Other \<and> err_path e = Some ''org.freedesktop.DBus.Error.ServiceUnknown''))"

definition attributes_value :: "string \<Rightarrow> string \<Rightarrow> Value" where
  "attributes_value service account =
    Array ''{ss}'' [DictEntry (String ''service'') (String service),
                    DictEntry (String ''account'') (String account)]"

definition get_property :: "'c rpc \<Rightarrow> string \<Rightarrow> string \<Rightarrow> string \<Rightarrow> ('c, Value) action" where
  "get_property rpc path iface prop =
    act_bind (rpc SERVICE_DEST path PROPERTIES_IFACE ''Get'' ''ss'' [String iface, String prop])
      (\<lambda>reply. case msg_body reply of
         Variant v # _ \<Rightarrow> act_ret v
       | _ \<Rightarrow> act_fail (proto_err ''Properties.Get did not return the expected variant''))"

definition unlock_collection :: "'c rpc \<Rightarrow> string \<Rightarrow> ('c, bool) action" where
  "unlock_collection rpc collection_path =
    act_bind (rpc SERVICE_DEST SERVICE_PATH SERVICE_IFACE ''Unlock'' ''ao''
        [Array ''o'' [ObjectPath collection_path]])
      (\<lambda>unlock. case (nth_opt (msg_body unlock) 0, nth_opt (msg_body unlock) 1) of
         (Some (Array _ unlocked), Some (ObjectPath prompt)) \<Rightarrow>
           act_ret (ObjectPath collection_path \<in> set unlocked \<and> prompt = NULL_PATH)
       | _ \<Rightarrow> act_fail (proto_err ''Unlock did not return the expected reply shape''))"

definition session_opened :: "'c rpc \<Rightarrow> Message \<Rightarrow> ('c, (string \<times> string) option) action" where
  "session_opened rpc open_reply =
    (case nth_opt (msg_body open_reply) 1 of
       Some (ObjectPath session_path) \<Rightarrow>
        act_bind (rpc SERVICE_DEST SERVICE_PATH SERVICE_IFACE ''ReadAlias'' ''s'' [String ''default''])
          (\<lambda>read_alias. case nth_opt (msg_body read_alias) 0 of
             Some (ObjectPath collection_path) \<Rightarrow>
               if collection_path = NULL_PATH then act_ret None
               else act_bind (get_property rpc collection_path COLLECTION_IFACE ''Locked'')
                 (\<lambda>locked.
                    if locked = Boolean True then
                      act_bind (unlock_collection rpc collection_path)
                        (\<lambda>unlocked. act_ret (if unlocked then Some (session_path, collection_path) else None))
                    else act_ret (Some (session_path, collection_path)))
           | _ \<Rightarrow> act_fail (proto_err ''ReadAlias did not return the expected object path''))
     | _ \<Rightarrow> act_fail (proto_err ''OpenSession did not return the expected session path''))"

text \<open>A benign failure of the first call is \<open>Ok(None)\<close>, every other failure is an error.\<close>

definition benign_none :: "('c, 'a) action \<Rightarrow> ('a \<Rightarrow> ('c, 'b option) action) \<Rightarrow> ('c, 'b option) action" where
  "benign_none m f c =
    (case m c of
       Some (Fail e, c1) \<Rightarrow> Some (if is_benign_unreachable e then Ret None else Fail e, c1)
     | _ \<Rightarrow> act_bind m f c)"

definition prepare_session_over :: "'c rpc \<Rightarrow> ('c, (string \<times> string) option) action" where
  "prepare_session_over rpc =
    benign_none (rpc SERVICE_DEST SERVICE_PATH SERVICE_IFACE ''OpenSession'' ''sv''
        [String ''plain'', Variant (String [])])
      (session_opened rpc)"

definition prepare_session :: "'c rpc \<Rightarrow> ('c, unit) action \<Rightarrow> ('c, (string \<times> string) option) action" where
  "prepare_session rpc opn = benign_none opn (\<lambda>_. prepare_session_over rpc)"

definition prepare_session_at ::
    "'c rpc \<Rightarrow> (string \<Rightarrow> ('c, unit) action) \<Rightarrow> string \<Rightarrow> ('c, (string \<times> string) option) action" where
  "prepare_session_at rpc connect address = benign_none (connect address) (\<lambda>_. prepare_session_over rpc)"

fun collect_bytes :: "Value list \<Rightarrow> bytes result" where
  "collect_bytes [] = Ok []"
| "collect_bytes (v # vs) =
    (case v of
       Byte b \<Rightarrow> and_then (collect_bytes vs) (\<lambda>bs. Ok (b # bs))
     | _ \<Rightarrow> Err (proto_err ''Secret value array contained a non-byte element''))"

definition secret_bytes :: "Message \<Rightarrow> bytes result" where
  "secret_bytes secret_reply =
    (case nth_opt (msg_body secret_reply) 0 of
       Some (Struct parts) \<Rightarrow>
        (case nth_opt parts 2 of
           Some (Array _ byte_values) \<Rightarrow> collect_bytes byte_values
         | _ \<Rightarrow> Err (proto_err ''Secret struct did not contain the expected value byte array''))
     | _ \<Rightarrow> Err (proto_err ''GetSecret did not return the expected Secret struct''))"

definition get_with :: "'c rpc \<Rightarrow> string \<Rightarrow> string \<Rightarrow> string \<Rightarrow> string \<Rightarrow> ('c, bytes option) action" where
  "get_with rpc session_path collection_path service account =
    act_bind (rpc SERVICE_DEST collection_path COLLECTION_IFACE ''SearchItems'' ''a{ss}''
        [attributes_value service account])
      (\<lambda>search. case nth_opt (msg_body search) 0 of
         Some (Array _ items) \<Rightarrow>
          (case nth_opt items 0 of
             Some (ObjectPath item_path) \<Rightarrow>
               act_bind (rpc SERVICE_DEST item_path ITEM_IFACE ''GetSecret'' ''o'' [ObjectPath session_path])
                 (\<lambda>secret_reply. case secret_bytes secret_reply of
                    Ok bs \<Rightarrow> act_ret (Some bs) | Err e \<Rightarrow> act_fail e)
           | _ \<Rightarrow> act_ret None)
       | _ \<Rightarrow> act_fail (proto_err ''SearchItems did not return the expected array''))"

definition item_properties :: "string \<Rightarrow> string \<Rightarrow> Value" where
  "item_properties service account =
    Array ''{sv}''
      [DictEntry (String ''org.freedesktop.Secret.Item.Label'')
         (Variant (String (''rustils: '' @ service @ '' ('' @ account @ '')''))),
       DictEntry (String ''org.freedesktop.Secret.Item.Attributes'')
         (Variant (attributes_value service account))]"

definition secret_struct :: "string \<Rightarrow> bytes \<Rightarrow> Value" where
  "secret_struct session_path secret =
    Struct [ObjectPath session_path, Array ''y'' [], Array ''y'' (map Byte secret), String ''text/plain'']"

definition set_with :: "'c rpc \<Rightarrow> string \<Rightarrow> string \<Rightarrow> string \<Rightarrow> string \<Rightarrow> bytes \<Rightarrow> ('c, unit) action" where
  "set_with rpc session_path collection_path service account secret =
    act_bind (rpc SERVICE_DEST collection_path COLLECTION_IFACE ''CreateItem'' ''a{sv}(oayays)b''
        [item_properties service account, secret_struct session_path secret, Boolean True])
      (\<lambda>reply. case (nth_opt (msg_body reply) 0, nth_opt (msg_body reply) 1) of
         (Some (ObjectPath _), Some (ObjectPath prompt)) \<Rightarrow>
           if prompt \<noteq> NULL_PATH
           then act_fail (proto_err ''CreateItem unexpectedly required an interactive prompt'')
           else act_ret ()
       | _ \<Rightarrow> act_fail (proto_err ''CreateItem did not return the expected reply shape''))"

definition status_of :: "((string \<times> string) option run \<times> 'c) option \<Rightarrow> (CredentialStoreStatus run \<times> 'c) option" where
  "status_of r =
    (case r of
       None \<Rightarrow> None
     | Some (Ret (Some _), c) \<Rightarrow> Some (Ret Available, c)
     | Some (Ret None, c) \<Rightarrow> Some (Ret Unavailable, c)
     | Some (Fail _, c) \<Rightarrow> Some (Ret Unavailable, c)
     | Some (Panic, c) \<Rightarrow> Some (Panic, c))"

definition available :: "'c rpc \<Rightarrow> ('c, unit) action \<Rightarrow> ('c, CredentialStoreStatus) action" where
  "available rpc opn c = status_of (prepare_session rpc opn c)"

definition with_session ::
    "('c, (string \<times> string) option) action \<Rightarrow> (string \<Rightarrow> string \<Rightarrow> ('c, 'a) action) \<Rightarrow> ('c, 'a) action" where
  "with_session prepare f =
    act_bind prepare (\<lambda>o1. case o1 of Some (sp, cp) \<Rightarrow> f sp cp | None \<Rightarrow> act_fail unreachable_err)"

definition get_secret :: "'c rpc \<Rightarrow> ('c, unit) action \<Rightarrow> string \<Rightarrow> string \<Rightarrow> ('c, bytes option) action" where
  "get_secret rpc opn service account =
    with_session (prepare_session rpc opn) (\<lambda>sp cp. get_with rpc sp cp service account)"

definition set_secret :: "'c rpc \<Rightarrow> ('c, unit) action \<Rightarrow> string \<Rightarrow> string \<Rightarrow> bytes \<Rightarrow> ('c, unit) action" where
  "set_secret rpc opn service account secret =
    with_session (prepare_session rpc opn) (\<lambda>sp cp. set_with rpc sp cp service account secret)"

definition available_at :: "'c rpc \<Rightarrow> (string \<Rightarrow> ('c, unit) action) \<Rightarrow> string \<Rightarrow> ('c, CredentialStoreStatus) action" where
  "available_at rpc connect address c = status_of (prepare_session_at rpc connect address c)"

definition get_at :: "'c rpc \<Rightarrow> (string \<Rightarrow> ('c, unit) action) \<Rightarrow> string \<Rightarrow> string \<Rightarrow> string \<Rightarrow> ('c, bytes option) action" where
  "get_at rpc connect address service account =
    with_session (prepare_session_at rpc connect address) (\<lambda>sp cp. get_with rpc sp cp service account)"

definition set_at :: "'c rpc \<Rightarrow> (string \<Rightarrow> ('c, unit) action) \<Rightarrow> string \<Rightarrow> string \<Rightarrow> string \<Rightarrow> bytes \<Rightarrow> ('c, unit) action" where
  "set_at rpc connect address service account secret =
    with_session (prepare_session_at rpc connect address) (\<lambda>sp cp. set_with rpc sp cp service account secret)"

text \<open>The operations over the transport: a fresh connection replaces the previous one.\<close>

definition bus_rpc :: "nat \<Rightarrow> Connection rpc" where
  "bus_rpc n destination path interface member sig body c =
    call n c destination path interface member sig body"

definition fresh :: "Connection run option \<Rightarrow> (Connection, unit) action" where
  "fresh r c =
    (case r of
       None \<Rightarrow> None
     | Some (Ret c1) \<Rightarrow> Some (Ret (), c1)
     | Some (Fail e) \<Rightarrow> Some (Fail e, c)
     | Some Panic \<Rightarrow> Some (Panic, c))"

definition bus_get ::
    "nat \<Rightarrow> (UnixAddr \<Rightarrow> Sock result) \<Rightarrow> string option \<Rightarrow> u32 \<Rightarrow> string \<Rightarrow> string
     \<Rightarrow> (Connection, bytes option) action" where
  "bus_get n connect_one env uid = get_secret (bus_rpc n) (fresh (session n connect_one env uid))"

definition bus_set ::
    "nat \<Rightarrow> (UnixAddr \<Rightarrow> Sock result) \<Rightarrow> string option \<Rightarrow> u32 \<Rightarrow> string \<Rightarrow> string \<Rightarrow> bytes
     \<Rightarrow> (Connection, unit) action" where
  "bus_set n connect_one env uid = set_secret (bus_rpc n) (fresh (session n connect_one env uid))"

section \<open>Sequencing\<close>

lemma act_bind_Ret [simp]: "m c = Some (Ret x, c1) \<Longrightarrow> act_bind m f c = f x c1"
  by (simp add: act_bind_def)

lemma act_bind_Fail [simp]: "m c = Some (Fail e, c1) \<Longrightarrow> act_bind m f c = Some (Fail e, c1)"
  by (simp add: act_bind_def)

lemma benign_none_Ret [simp]: "m c = Some (Ret x, c1) \<Longrightarrow> benign_none m f c = f x c1"
  by (simp add: benign_none_def)

lemma act_ret_apply [simp]: "act_ret x c = Some (Ret x, c)"
  by (simp add: act_ret_def)

lemma act_fail_apply [simp]: "act_fail e c = Some (Fail e, c)"
  by (simp add: act_fail_def)

lemma nth_opt_Cons [simp]: "nth_opt (x # xs) 0 = Some x" "nth_opt (x # xs) (Suc i) = nth_opt xs i"
  by (simp_all add: nth_opt_def)

lemma nth_opt_Nil [simp]: "nth_opt [] i = None"
  by (simp add: nth_opt_def)

lemma collect_bytes_map [simp]: "collect_bytes (map Byte bs) = Ok bs"
  by (induction bs) simp_all

section \<open>The contract of the daemon\<close>

text \<open>What the Secret Service specification promises of a service that no other client uses at the same time,
  and that unlocks its default collection without asking the user.  \<open>ok\<close> holds of the states in which it
  is up, \<open>opened c s\<close> that \<open>s\<close> is an open session, \<open>locked c\<close> that the default collection is locked;
  \<open>items c\<close> are the items of that collection by their paths, with attributes and secret.  A search finds
  the items whose attributes include the given ones; secrets are read and items made only in an unlocked
  collection; \<open>CreateItem\<close> with \<open>replace\<close> takes the place of an item with the same attributes.\<close>

type_synonym item = "(string \<rightharpoonup> string) \<times> bytes"

definition pairs_value :: "(string \<times> string) list \<Rightarrow> Value" where
  "pairs_value kvs = Array ''{ss}'' (map (\<lambda>(k, v). DictEntry (String k) (String v)) kvs)"

definition properties_value :: "(string \<times> Value) list \<Rightarrow> Value" where
  "properties_value ps = Array ''{sv}'' (map (\<lambda>(k, v). DictEntry (String k) (Variant v)) ps)"

definition same_store :: "('c \<Rightarrow> bool) \<Rightarrow> ('c \<Rightarrow> string \<Rightarrow> bool) \<Rightarrow> ('c \<Rightarrow> bool) \<Rightarrow> ('c \<Rightarrow> string \<Rightarrow> item option)
    \<Rightarrow> 'c \<Rightarrow> 'c \<Rightarrow> bool" where
  "same_store ok opened locked items c c' \<longleftrightarrow>
    ok c' \<and> items c' = items c \<and> locked c' = locked c \<and> (\<forall>s. opened c s \<longrightarrow> opened c' s)"

definition daemon_opens where
  "daemon_opens rpc opn ok opened locked items \<longleftrightarrow>
    (\<forall>c. ok c \<longrightarrow> (\<exists>c'. opn c = Some (Ret (), c') \<and> same_store ok opened locked items c c'))
    \<and> (\<forall>c. ok c \<longrightarrow> (\<exists>m v s c'.
        rpc SERVICE_DEST SERVICE_PATH SERVICE_IFACE ''OpenSession'' ''sv''
          [String ''plain'', Variant (String [])] c = Some (Ret m, c')
        \<and> msg_body m = [v, ObjectPath s] \<and> opened c' s \<and> same_store ok opened locked items c c'))"

definition daemon_collection where
  "daemon_collection rpc ok opened locked items cp \<longleftrightarrow>
    cp \<noteq> NULL_PATH
    \<and> (\<forall>c. ok c \<longrightarrow> (\<exists>m c'.
        rpc SERVICE_DEST SERVICE_PATH SERVICE_IFACE ''ReadAlias'' ''s'' [String ''default''] c = Some (Ret m, c')
        \<and> msg_body m = [ObjectPath cp] \<and> same_store ok opened locked items c c'))
    \<and> (\<forall>c. ok c \<longrightarrow> (\<exists>m c'.
        rpc SERVICE_DEST cp PROPERTIES_IFACE ''Get'' ''ss'' [String COLLECTION_IFACE, String ''Locked''] c
          = Some (Ret m, c')
        \<and> msg_body m = [Variant (Boolean (locked c))] \<and> same_store ok opened locked items c c'))
    \<and> (\<forall>c. ok c \<longrightarrow> (\<exists>m c'.
        rpc SERVICE_DEST SERVICE_PATH SERVICE_IFACE ''Unlock'' ''ao'' [Array ''o'' [ObjectPath cp]] c
          = Some (Ret m, c')
        \<and> msg_body m = [Array ''o'' [ObjectPath cp], ObjectPath NULL_PATH]
        \<and> \<not> locked c' \<and> ok c' \<and> items c' = items c \<and> (\<forall>s. opened c s \<longrightarrow> opened c' s)))"

definition daemon_items where
  "daemon_items rpc ok opened locked items cp \<longleftrightarrow>
    (\<forall>c kvs. ok c \<longrightarrow> distinct (map fst kvs) \<longrightarrow> (\<exists>m ps c'.
        rpc SERVICE_DEST cp COLLECTION_IFACE ''SearchItems'' ''a{ss}'' [pairs_value kvs] c = Some (Ret m, c')
        \<and> msg_body m = [Array ''o'' (map ObjectPath ps)] \<and> same_store ok opened locked items c c'
        \<and> set ps = {p. \<exists>at x. items c p = Some (at, x) \<and> map_of kvs \<subseteq>\<^sub>m at}))
    \<and> (\<forall>c p at x s. ok c \<longrightarrow> \<not> locked c \<longrightarrow> items c p = Some (at, x) \<longrightarrow> opened c s \<longrightarrow> (\<exists>m par ct c'.
        rpc SERVICE_DEST p ITEM_IFACE ''GetSecret'' ''o'' [ObjectPath s] c = Some (Ret m, c')
        \<and> msg_body m = [Struct [ObjectPath s, Array ''y'' par, Array ''y'' (map Byte x), String ct]]
        \<and> same_store ok opened locked items c c'))
    \<and> (\<forall>c ps kvs x sp ct. ok c \<longrightarrow> \<not> locked c \<longrightarrow> opened c sp \<longrightarrow> distinct (map fst ps) \<longrightarrow> distinct (map fst kvs)
        \<longrightarrow> map_of ps ''org.freedesktop.Secret.Item.Attributes'' = Some (pairs_value kvs) \<longrightarrow> (\<exists>m p c'.
        rpc SERVICE_DEST cp COLLECTION_IFACE ''CreateItem'' ''a{sv}(oayays)b''
          [properties_value ps,
           Struct [ObjectPath sp, Array ''y'' [], Array ''y'' (map Byte x), String ct], Boolean True] c = Some (Ret m, c')
        \<and> msg_body m = [ObjectPath p, ObjectPath NULL_PATH] \<and> ok c' \<and> locked c' = locked c
        \<and> items c' = (items c)(p \<mapsto> (map_of kvs, x))
        \<and> (case items c p of
             Some (at, _) \<Rightarrow> at = map_of kvs
           | None \<Rightarrow> \<forall>q y. items c q \<noteq> Some (map_of kvs, y))))"

definition secret_daemon where
  "secret_daemon rpc opn ok opened locked items cp \<longleftrightarrow>
    daemon_opens rpc opn ok opened locked items \<and> daemon_collection rpc ok opened locked items cp
    \<and> daemon_items rpc ok opened locked items cp"

text \<open>The attributes of the client's items, and its own collection: an item that has both of the
  client's attributes has no others, and no two items have the same.  \<open>secret_of\<close> is then what is stored
  under a pair of names.\<close>

definition client_attributes :: "string \<Rightarrow> string \<Rightarrow> string \<rightharpoonup> string" where
  "client_attributes s a = [''service'' \<mapsto> s, ''account'' \<mapsto> a]"

definition own_items :: "(string \<Rightarrow> item option) \<Rightarrow> bool" where
  "own_items its \<longleftrightarrow>
    (\<forall>p at x s a. its p = Some (at, x) \<and> client_attributes s a \<subseteq>\<^sub>m at \<longrightarrow> at = client_attributes s a)
    \<and> (\<forall>p q at x y. its p = Some (at, x) \<and> its q = Some (at, y) \<longrightarrow> p = q)"

definition stored_as :: "(string \<Rightarrow> item option) \<Rightarrow> string \<Rightarrow> string \<Rightarrow> bytes option \<Rightarrow> bool" where
  "stored_as its s a r \<longleftrightarrow>
    (case r of
       Some x \<Rightarrow> \<exists>p. its p = Some (client_attributes s a, x)
     | None \<Rightarrow> \<forall>p x. its p \<noteq> Some (client_attributes s a, x))"

lemma attributes_pairs: "attributes_value s a = pairs_value [(''service'', s), (''account'', a)]"
  by (simp add: attributes_value_def pairs_value_def)

lemma client_attributes_map_of: "client_attributes s a = map_of [(''service'', s), (''account'', a)]"
  by (auto simp: client_attributes_def)

lemma client_attributes_at [simp]:
  "client_attributes s a ''service'' = Some s" "client_attributes s a ''account'' = Some a"
  by (simp_all add: client_attributes_def)

lemma client_attributes_inj: "client_attributes s a = client_attributes s' a' \<longleftrightarrow> s = s' \<and> a = a'"
  by (metis client_attributes_at option.inject)

lemma client_attributes_le: "client_attributes s a \<subseteq>\<^sub>m client_attributes s' a' \<longleftrightarrow> s = s' \<and> a = a'"
proof
  assume le: "client_attributes s a \<subseteq>\<^sub>m client_attributes s' a'"
  then show "s = s' \<and> a = a'"
    using bspec[OF le[unfolded map_le_def], of "''service''"] bspec[OF le[unfolded map_le_def], of "''account''"]
    by (simp add: domI)
qed simp

lemma same_store_trans:
  "same_store ok opened locked items a b \<Longrightarrow> same_store ok opened locked items b c \<Longrightarrow>
    same_store ok opened locked items a c"
  by (auto simp: same_store_def)

text \<open>What a session is prepared for: an unlocked collection with the same items.\<close>

definition ready :: "('c \<Rightarrow> bool) \<Rightarrow> ('c \<Rightarrow> string \<Rightarrow> bool) \<Rightarrow> ('c \<Rightarrow> bool) \<Rightarrow> ('c \<Rightarrow> string \<Rightarrow> item option)
    \<Rightarrow> 'c \<Rightarrow> 'c \<Rightarrow> bool" where
  "ready ok opened locked items c c' \<longleftrightarrow>
    ok c' \<and> items c' = items c \<and> \<not> locked c' \<and> (\<forall>s. opened c s \<longrightarrow> opened c' s)"

lemma session_opened_daemon:
  assumes d: "daemon_collection rpc ok opened locked items cp" and "ok c" "msg_body m = [v, ObjectPath s]"
  shows "\<exists>c'. session_opened rpc m c = Some (Ret (Some (s, cp)), c') \<and> ready ok opened locked items c c'"
proof -
  obtain m1 c1 where 1: "rpc SERVICE_DEST SERVICE_PATH SERVICE_IFACE ''ReadAlias'' ''s'' [String ''default''] c
      = Some (Ret m1, c1)" "msg_body m1 = [ObjectPath cp]" "same_store ok opened locked items c c1"
    using d assms(2) by (simp add: daemon_collection_def) blast
  then have "ok c1" by (simp add: same_store_def)
  then obtain m2 c2 where 2: "rpc SERVICE_DEST cp PROPERTIES_IFACE ''Get'' ''ss''
      [String COLLECTION_IFACE, String ''Locked''] c1 = Some (Ret m2, c2)"
      "msg_body m2 = [Variant (Boolean (locked c1))]" "same_store ok opened locked items c1 c2"
    using d by (simp add: daemon_collection_def) blast
  then have "ok c2" by (simp add: same_store_def)
  then obtain m3 c3 where 3: "rpc SERVICE_DEST SERVICE_PATH SERVICE_IFACE ''Unlock'' ''ao''
      [Array ''o'' [ObjectPath cp]] c2 = Some (Ret m3, c3)"
      "msg_body m3 = [Array ''o'' [ObjectPath cp], ObjectPath NULL_PATH]"
      "\<not> locked c3" "ok c3" "items c3 = items c2" "\<forall>s. opened c2 s \<longrightarrow> opened c3 s"
    using d by (simp add: daemon_collection_def) blast
  have "cp \<noteq> NULL_PATH" using d by (simp add: daemon_collection_def)
  then have "session_opened rpc m c = Some (Ret (Some (s, cp)), if locked c1 then c3 else c2)"
    using 1(1,2) 2(1,2) 3(1,2) assms(3)
    by (simp add: session_opened_def get_property_def unlock_collection_def)
  moreover have "ready ok opened locked items c (if locked c1 then c3 else c2)"
    using same_store_trans[OF 1(3) 2(3)] 2(3) 3(3-6) by (simp add: ready_def same_store_def)
  ultimately show ?thesis by blast
qed

lemma prepare_session_daemon:
  assumes "daemon_opens rpc opn ok opened locked items" "daemon_collection rpc ok opened locked items cp" "ok c"
  shows "\<exists>s c'. prepare_session rpc opn c = Some (Ret (Some (s, cp)), c') \<and> opened c' s
    \<and> ready ok opened locked items c c'"
proof -
  obtain c1 where 1: "opn c = Some (Ret (), c1)" "same_store ok opened locked items c c1"
    using assms by (auto simp: daemon_opens_def)
  then have "ok c1" by (simp add: same_store_def)
  then obtain m v s c2 where 2: "rpc SERVICE_DEST SERVICE_PATH SERVICE_IFACE ''OpenSession'' ''sv''
      [String ''plain'', Variant (String [])] c1 = Some (Ret m, c2)"
      "msg_body m = [v, ObjectPath s]" "opened c2 s" "same_store ok opened locked items c1 c2"
    using assms(1) by (simp add: daemon_opens_def) blast
  then have "ok c2" by (simp add: same_store_def)
  then obtain c3 where 3: "session_opened rpc m c2 = Some (Ret (Some (s, cp)), c3)"
      "ready ok opened locked items c2 c3"
    using session_opened_daemon[OF assms(2) _ 2(2)] by blast
  have "opened c3 s" using 2(3) 3(2) by (simp add: ready_def)
  moreover have "ready ok opened locked items c c3"
    using same_store_trans[OF 1(2) 2(4)] 3(2) by (simp add: ready_def same_store_def)
  ultimately show ?thesis
    using 1(1) 2(1) 3(1) by (auto simp: prepare_session_def prepare_session_over_def)
qed

lemma daemon_itemsD:
  assumes "daemon_items rpc ok opened locked items cp" "ok c"
  shows "distinct (map fst kvs) \<Longrightarrow> \<exists>m ps c'.
      rpc SERVICE_DEST cp COLLECTION_IFACE ''SearchItems'' ''a{ss}'' [pairs_value kvs] c = Some (Ret m, c')
      \<and> msg_body m = [Array ''o'' (map ObjectPath ps)] \<and> same_store ok opened locked items c c'
      \<and> set ps = {p. \<exists>at x. items c p = Some (at, x) \<and> map_of kvs \<subseteq>\<^sub>m at}"
    and "\<not> locked c \<Longrightarrow> items c p = Some (at, x) \<Longrightarrow> opened c sp \<Longrightarrow> \<exists>m par ct c'.
      rpc SERVICE_DEST p ITEM_IFACE ''GetSecret'' ''o'' [ObjectPath sp] c = Some (Ret m, c')
      \<and> msg_body m = [Struct [ObjectPath sp, Array ''y'' par, Array ''y'' (map Byte x), String ct]]
      \<and> same_store ok opened locked items c c'"
    and "\<not> locked c \<Longrightarrow> opened c sp \<Longrightarrow> distinct (map fst ps) \<Longrightarrow> distinct (map fst kvs)
      \<Longrightarrow> map_of ps ''org.freedesktop.Secret.Item.Attributes'' = Some (pairs_value kvs) \<Longrightarrow> \<exists>m p c'.
      rpc SERVICE_DEST cp COLLECTION_IFACE ''CreateItem'' ''a{sv}(oayays)b''
        [properties_value ps,
         Struct [ObjectPath sp, Array ''y'' [], Array ''y'' (map Byte x), String ct], Boolean True] c = Some (Ret m, c')
      \<and> msg_body m = [ObjectPath p, ObjectPath NULL_PATH] \<and> ok c' \<and> locked c' = locked c
      \<and> items c' = (items c)(p \<mapsto> (map_of kvs, x))
      \<and> (case items c p of
           Some (at, _) \<Rightarrow> at = map_of kvs
         | None \<Rightarrow> \<forall>q y. items c q \<noteq> Some (map_of kvs, y))"
  using assms(2) assms(1)[unfolded daemon_items_def]
  by (elim conjE allE[of _ c], simp)+

lemma own_items_found:
  assumes "own_items its" "set ps = {p. \<exists>at x. its p = Some (at, x) \<and> client_attributes s a \<subseteq>\<^sub>m at}"
  shows "case ps of [] \<Rightarrow> stored_as its s a None | p # _ \<Rightarrow> \<exists>x. its p = Some (client_attributes s a, x)"
proof (cases ps)
  case Nil
  have "its p \<noteq> Some (client_attributes s a, x)" for p x
  proof
    assume "its p = Some (client_attributes s a, x)"
    then have "p \<in> set ps" using assms(2) map_le_refl by blast
    then show False using Nil by simp
  qed
  then show ?thesis using Nil by (simp add: stored_as_def)
next
  case (Cons p r)
  then have "p \<in> {p. \<exists>at x. its p = Some (at, x) \<and> client_attributes s a \<subseteq>\<^sub>m at}"
    unfolding assms(2)[symmetric] by simp
  then obtain at x where at: "its p = Some (at, x)" "client_attributes s a \<subseteq>\<^sub>m at" by blast
  then have "at = client_attributes s a" using assms(1) unfolding own_items_def by blast
  then show ?thesis using at(1) Cons by simp
qed

lemma get_secret_daemon:
  assumes d: "secret_daemon rpc opn ok opened locked items cp" and "ok c" and own: "own_items (items c)"
  shows "\<exists>r c'. get_secret rpc opn s a c = Some (Ret r, c') \<and> stored_as (items c) s a r"
proof -
  obtain sp c1 where 1: "prepare_session rpc opn c = Some (Ret (Some (sp, cp)), c1)" "opened c1 sp"
      "ready ok opened locked items c c1"
    using prepare_session_daemon assms unfolding secret_daemon_def by metis
  then have o1: "ok c1" "items c1 = items c" "\<not> locked c1" by (simp_all add: ready_def)
  have i: "daemon_items rpc ok opened locked items cp" using d by (simp add: secret_daemon_def)
  have keys: "distinct (map fst [(''service'', s), (''account'', a)])" by simp
  obtain m ps c2 where 2: "rpc SERVICE_DEST cp COLLECTION_IFACE ''SearchItems'' ''a{ss}'' [attributes_value s a] c1
      = Some (Ret m, c2)" "msg_body m = [Array ''o'' (map ObjectPath ps)]" "same_store ok opened locked items c1 c2"
      "set ps = {p. \<exists>at x. items c1 p = Some (at, x) \<and> client_attributes s a \<subseteq>\<^sub>m at}"
    using daemon_itemsD(1)[OF i o1(1) keys] unfolding attributes_pairs client_attributes_map_of by blast
  have o2: "ok c2" "items c2 = items c" "opened c2 sp" "\<not> locked c2"
    using 1(2) 2(3) o1 by (simp_all add: same_store_def)
  note found = own_items_found[OF own, of ps s a] 2(4) o1(2)
  show ?thesis
  proof (cases ps)
    case Nil
    then show ?thesis using found 1(1) 2 by (simp add: get_secret_def with_session_def get_with_def)
  next
    case (Cons p r)
    then obtain x where x: "items c p = Some (client_attributes s a, x)" using found by auto
    then obtain m3 par ct c3 where 3: "rpc SERVICE_DEST p ITEM_IFACE ''GetSecret'' ''o'' [ObjectPath sp] c2
        = Some (Ret m3, c3)"
        "msg_body m3 = [Struct [ObjectPath sp, Array ''y'' par, Array ''y'' (map Byte x), String ct]]"
      using daemon_itemsD(2)[OF i o2(1,4) _ o2(3), of p] o2(2) by auto
    have "stored_as (items c) s a (Some x)" using x by (auto simp: stored_as_def)
    then show ?thesis using 1(1) 2(1,2) 3 Cons
      by (simp add: get_secret_def with_session_def get_with_def secret_bytes_def eval_nat_numeral)
  qed
qed

lemma set_secret_daemon:
  assumes d: "secret_daemon rpc opn ok opened locked items cp" and "ok c"
  shows "\<exists>p c'. set_secret rpc opn s a x c = Some (Ret (), c') \<and> ok c'
    \<and> items c' = (items c)(p \<mapsto> (client_attributes s a, x))
    \<and> (case items c p of Some (at, _) \<Rightarrow> at = client_attributes s a
        | None \<Rightarrow> \<forall>q y. items c q \<noteq> Some (client_attributes s a, y))"
proof -
  obtain sp c1 where 1: "prepare_session rpc opn c = Some (Ret (Some (sp, cp)), c1)" "opened c1 sp"
      "ready ok opened locked items c c1"
    using prepare_session_daemon assms unfolding secret_daemon_def by metis
  then have o1: "ok c1" "items c1 = items c" "\<not> locked c1" by (simp_all add: ready_def)
  let ?kvs = "[(''service'', s), (''account'', a)]"
  let ?ps = "[(''org.freedesktop.Secret.Item.Label'', String (''rustils: '' @ s @ '' ('' @ a @ '')'')),
    (''org.freedesktop.Secret.Item.Attributes'', attributes_value s a)]"
  have props: "item_properties s a = properties_value ?ps"
    by (simp add: item_properties_def properties_value_def)
  have keys: "distinct (map fst ?ps)" "distinct (map fst ?kvs)"
      "map_of ?ps ''org.freedesktop.Secret.Item.Attributes'' = Some (pairs_value ?kvs)"
    by (simp_all add: attributes_pairs)
  have i: "daemon_items rpc ok opened locked items cp" using d by (simp add: secret_daemon_def)
  obtain m p c2 where 2: "rpc SERVICE_DEST cp COLLECTION_IFACE ''CreateItem'' ''a{sv}(oayays)b''
      [item_properties s a, secret_struct sp x, Boolean True] c1 = Some (Ret m, c2)"
      "msg_body m = [ObjectPath p, ObjectPath NULL_PATH]" "ok c2"
      "items c2 = (items c1)(p \<mapsto> (client_attributes s a, x))"
      "case items c1 p of Some (at, _) \<Rightarrow> at = client_attributes s a
        | None \<Rightarrow> \<forall>q y. items c1 q \<noteq> Some (client_attributes s a, y)"
    using daemon_itemsD(3)[OF i o1(1,3) 1(2) keys, of x "''text/plain''"]
    unfolding props secret_struct_def client_attributes_map_of by blast
  then have "set_secret rpc opn s a x c = Some (Ret (), c2)"
    using 1(1) by (simp add: set_secret_def with_session_def set_with_def)
  then show ?thesis using 2(3-5) unfolding o1(2) by blast
qed

text \<open>After a store, the collection is still the client's own.\<close>

lemma own_items_update:
  assumes "own_items its" "case its p of Some (at, _) \<Rightarrow> at = client_attributes s a
    | None \<Rightarrow> \<forall>q y. its q \<noteq> Some (client_attributes s a, y)"
  shows "own_items (its(p \<mapsto> (client_attributes s a, x)))"
proof -
  have other: "q = p" if "its q = Some (client_attributes s a, y)" for q y
    using assms that by (cases "its p") (auto simp: own_items_def split: prod.splits)
  then show ?thesis
    using assms(1) unfolding own_items_def
    by (auto simp: client_attributes_le split: if_splits)
qed

section \<open>An in-memory daemon\<close>

text \<open>A daemon that meets the contract: its items are a list, the path of an item is as long as its
  position, and a locked collection refuses to read secrets and to make items.\<close>

record Daemon =
  d_locked :: bool
  d_items :: "((string \<times> string) list \<times> bytes) list"

definition return_message :: "Value list \<Rightarrow> Message" where
  "return_message body = default_message\<lparr>message_type := 2, msg_body := body\<rparr>"

definition elements :: "Value \<Rightarrow> Value list" where
  "elements v = (case v of Array _ vs \<Rightarrow> vs | Struct vs \<Rightarrow> vs | _ \<Rightarrow> [])"

definition text_of :: "Value \<Rightarrow> string" where
  "text_of v = (case v of String s \<Rightarrow> s | _ \<Rightarrow> [])"

definition content :: "Value \<Rightarrow> Value" where
  "content v = (case v of Variant x \<Rightarrow> x | _ \<Rightarrow> v)"

definition entries :: "Value \<Rightarrow> (string \<times> Value) list" where
  "entries v = map (\<lambda>e. case e of DictEntry k x \<Rightarrow> (text_of k, content x) | _ \<Rightarrow> ([], e)) (elements v)"

definition attribute_pairs :: "Value \<Rightarrow> (string \<times> string) list" where
  "attribute_pairs v = map (\<lambda>(k, x). (k, text_of x)) (entries v)"

definition item_path :: "nat \<Rightarrow> string" where
  "item_path i = replicate i (CHR ''x'')"

definition all_match :: "(string \<times> string) list \<Rightarrow> (string \<times> string) list \<Rightarrow> bool" where
  "all_match big small \<longleftrightarrow> list_all (\<lambda>(k, v). map_of big k = Some v) small"

definition place_of :: "(string \<times> string) list \<Rightarrow> ((string \<times> string) list \<times> bytes) list \<Rightarrow> nat" where
  "place_of kvs its = length (takeWhile (\<lambda>it. set (fst it) \<noteq> set kvs) its)"

definition put_item :: "nat \<Rightarrow> 'a \<Rightarrow> 'a list \<Rightarrow> 'a list" where
  "put_item i x xs = (if i < length xs then xs[i := x] else xs @ [x])"

definition is_locked_err :: PlatformError where
  "is_locked_err = with_path (new_error Other NoCode ''D-Bus error reply'') ''org.freedesktop.Secret.Error.IsLocked''"

definition daemon_rpc :: "Daemon rpc" where
  "daemon_rpc destination path interface member sig body d =
    (if member = ''OpenSession'' then Some (Ret (return_message [Variant (String []), ObjectPath ''/s'']), d)
     else if member = ''ReadAlias'' then Some (Ret (return_message [ObjectPath ''/c'']), d)
     else if member = ''Get'' then Some (Ret (return_message [Variant (Boolean (d_locked d))]), d)
     else if member = ''Unlock'' then
       Some (Ret (return_message [Array ''o'' [ObjectPath ''/c''], ObjectPath ''/'']), d\<lparr>d_locked := False\<rparr>)
     else if member = ''SearchItems'' then
       Some (Ret (return_message [Array ''o'' (map (\<lambda>i. ObjectPath (item_path i))
         (filter (\<lambda>i. all_match (fst (d_items d ! i)) (attribute_pairs (body ! 0))) [0..<length (d_items d)]))]), d)
     else if d_locked d then Some (Fail is_locked_err, d)
     else if member = ''GetSecret'' then
       Some (Ret (return_message [Struct [body ! 0, Array ''y'' [],
         Array ''y'' (map Byte (snd (d_items d ! length path))), String ''text/plain'']]), d)
     else if member = ''CreateItem'' then
       (let kvs = attribute_pairs (the (map_of (entries (body ! 0)) ''org.freedesktop.Secret.Item.Attributes''));
            i = place_of kvs (d_items d)
        in Some (Ret (return_message [ObjectPath (item_path i), ObjectPath ''/'']),
             d\<lparr>d_items := put_item i (kvs, map (\<lambda>v. case v of Byte b \<Rightarrow> b | _ \<Rightarrow> 0) (elements (elements (body ! 1) ! 2)))
               (d_items d)\<rparr>))
     else Some (Fail (proto_err ''unexpected call''), d))"

definition d_ok :: "Daemon \<Rightarrow> bool" where
  "d_ok d \<longleftrightarrow> list_all (\<lambda>it. distinct (map fst (fst it))) (d_items d)"

definition d_item :: "Daemon \<Rightarrow> string \<Rightarrow> item option" where
  "d_item d p =
    (if p = item_path (length p) \<and> length p < length (d_items d)
     then Some (map_of (fst (d_items d ! length p)), snd (d_items d ! length p)) else None)"

lemma item_path_length [simp]: "length (item_path i) = i"
  by (simp add: item_path_def)

lemma d_item_Some: "d_item d p = Some it \<longleftrightarrow>
    (\<exists>i < length (d_items d). p = item_path i \<and> it = (map_of (fst (d_items d ! i)), snd (d_items d ! i)))"
  by (auto simp: d_item_def)

lemma entries_simps [simp]:
  "entries (pairs_value kvs) = map (\<lambda>(k, v). (k, String v)) kvs"
  "entries (properties_value ps) = ps"
  by (auto simp: entries_def pairs_value_def properties_value_def elements_def text_of_def content_def comp_def
      split_beta)

lemma attribute_pairs_value [simp]: "attribute_pairs (pairs_value kvs) = kvs"
  by (simp add: attribute_pairs_def text_of_def comp_def split_beta)

lemma all_match_iff:
  assumes "distinct (map fst small)"
  shows "all_match big small \<longleftrightarrow> map_of small \<subseteq>\<^sub>m map_of big"
  using assms by (auto simp: all_match_def list_all_iff map_le_def dom_map_of_conv_image_fst)

lemma place_of_spec:
  assumes "d_ok d" "distinct (map fst kvs)"
  shows "case d_item d (item_path (place_of kvs (d_items d))) of
      Some (at, _) \<Rightarrow> at = map_of kvs
    | None \<Rightarrow> \<forall>q y. d_item d q \<noteq> Some (map_of kvs, y)"
proof (cases "place_of kvs (d_items d) < length (d_items d)")
  case True
  then have "set (fst (d_items d ! place_of kvs (d_items d))) = set kvs"
    unfolding place_of_def by (metis (mono_tags, lifting) nth_length_takeWhile)
  moreover have "distinct (map fst (fst (d_items d ! place_of kvs (d_items d))))"
    using assms(1) True by (simp add: d_ok_def list_all_length)
  ultimately show ?thesis using True assms(2) by (simp add: d_item_def map_of_inject_set)
next
  case False
  then have "set (fst it) \<noteq> set kvs" if "it \<in> set (d_items d)" for it
    using that set_takeWhileD[of it "\<lambda>it. set (fst it) \<noteq> set kvs" "d_items d"] length_takeWhile_le
    unfolding place_of_def
    by (metis (mono_tags, lifting) nat_less_le takeWhile_eq_take take_all linorder_not_less)
  then have "map_of (fst it) \<noteq> map_of kvs" if "it \<in> set (d_items d)" for it
    using that assms map_of_inject_set[of "fst it" kvs] by (auto simp: d_ok_def list_all_iff)
  then show ?thesis using False by (auto simp: d_item_def)
qed

lemma d_item_put:
  assumes "i \<le> length (d_items d)"
  shows "d_item (d\<lparr>d_items := put_item i (kvs, x) (d_items d)\<rparr>) = (d_item d)(item_path i \<mapsto> (map_of kvs, x))"
  using assms by (auto simp: fun_eq_iff d_item_def put_item_def nth_append nth_list_update less_Suc_eq)

lemma d_ok_put:
  "d_ok d \<Longrightarrow> distinct (map fst kvs) \<Longrightarrow> d_ok (d\<lparr>d_items := put_item i (kvs, x) (d_items d)\<rparr>)"
  by (auto simp: d_ok_def put_item_def list_all_iff dest!: set_update_subset_insert[THEN subsetD])

lemma place_of_le: "place_of kvs its \<le> length its"
  by (simp add: place_of_def length_takeWhile_le)

lemma return_message_body [simp]: "msg_body (return_message body) = body"
  by (simp add: return_message_def)

lemma daemon_rpc_search:
  assumes "distinct (map fst kvs)"
  shows "\<exists>m ps d'. daemon_rpc dst p i ''SearchItems'' sg [pairs_value kvs] d = Some (Ret m, d')
    \<and> msg_body m = [Array ''o'' (map ObjectPath ps)] \<and> d' = d
    \<and> set ps = {p. \<exists>at x. d_item d p = Some (at, x) \<and> map_of kvs \<subseteq>\<^sub>m at}"
proof -
  let ?is = "filter (\<lambda>i. all_match (fst (d_items d ! i)) kvs) [0..<length (d_items d)]"
  have "daemon_rpc dst p i ''SearchItems'' sg [pairs_value kvs] d
      = Some (Ret (return_message [Array ''o'' (map ObjectPath (map item_path ?is))]), d)"
    by (simp add: daemon_rpc_def comp_def)
  moreover have "set (map item_path ?is) = {p. \<exists>at x. d_item d p = Some (at, x) \<and> map_of kvs \<subseteq>\<^sub>m at}"
    by (auto simp: d_item_Some all_match_iff[OF assms])
  ultimately show ?thesis
    by (intro exI[of _ "return_message [Array ''o'' (map ObjectPath (map item_path ?is))]"]
        exI[of _ "map item_path ?is"] exI[of _ d] conjI) (simp_all only: return_message_body)
qed

lemma daemon_rpc_secret:
  assumes "\<not> d_locked d" "d_item d p = Some (at, x)"
  shows "daemon_rpc dst p i ''GetSecret'' sg [ObjectPath sp] d = Some (Ret (return_message [Struct [ObjectPath sp,
    Array ''y'' [], Array ''y'' (map Byte x), String ''text/plain'']]), d)"
  using assms by (auto simp: daemon_rpc_def d_item_Some)

lemma daemon_rpc_create:
  assumes "\<not> d_locked d" "map_of ps ''org.freedesktop.Secret.Item.Attributes'' = Some (pairs_value kvs)"
  shows "daemon_rpc dst p i ''CreateItem'' sg [properties_value ps,
      Struct [ObjectPath sp, Array ''y'' [], Array ''y'' (map Byte x), String ct], Boolean True] d
    = Some (Ret (return_message [ObjectPath (item_path (place_of kvs (d_items d))), ObjectPath ''/'']),
        d\<lparr>d_items := put_item (place_of kvs (d_items d)) (kvs, x) (d_items d)\<rparr>)"
proof -
  have "elements (elements (Struct [ObjectPath sp, Array ''y'' [], Array ''y'' (map Byte x), String ct]) ! 2) = map Byte x"
    by (simp add: elements_def eval_nat_numeral)
  then show ?thesis using assms by (simp add: daemon_rpc_def Let_def comp_def)
qed

abbreviation "d_same \<equiv> same_store d_ok (\<lambda>_ _. True) d_locked d_item"

lemma d_same_refl: "d_ok d \<Longrightarrow> d_same d d"
  by (simp add: same_store_def)

lemma daemon_rpc_contract: "secret_daemon daemon_rpc (act_ret ()) d_ok (\<lambda>_ _. True) d_locked d_item ''/c''"
proof -
  have "daemon_opens daemon_rpc (act_ret ()) d_ok (\<lambda>_ _. True) d_locked d_item"
    by (simp add: daemon_opens_def same_store_def daemon_rpc_def)
  moreover have "daemon_collection daemon_rpc d_ok (\<lambda>_ _. True) d_locked d_item ''/c''"
    by (simp add: daemon_collection_def same_store_def daemon_rpc_def d_ok_def d_item_def fun_eq_iff)
  moreover have "daemon_items daemon_rpc d_ok (\<lambda>_ _. True) d_locked d_item ''/c''"
    unfolding daemon_items_def
  proof (intro conjI allI impI)
    fix d kvs assume "d_ok d" "distinct (map fst (kvs :: (string \<times> string) list))"
    then show "\<exists>m ps d'. daemon_rpc SERVICE_DEST ''/c'' COLLECTION_IFACE ''SearchItems'' ''a{ss}'' [pairs_value kvs] d = Some (Ret m, d')
        \<and> msg_body m = [Array ''o'' (map ObjectPath ps)] \<and> d_same d d'
        \<and> set ps = {p. \<exists>at x. d_item d p = Some (at, x) \<and> map_of kvs \<subseteq>\<^sub>m at}"
      using daemon_rpc_search[of kvs SERVICE_DEST "''/c''" COLLECTION_IFACE "''a{ss}''" d] d_same_refl[of d] by blast
  next
    fix d p at x s assume "d_ok d" "\<not> d_locked d" "d_item d p = Some (at, x)"
    then show "\<exists>m par ct d'. daemon_rpc SERVICE_DEST p ITEM_IFACE ''GetSecret'' ''o'' [ObjectPath s] d = Some (Ret m, d')
        \<and> msg_body m = [Struct [ObjectPath s, Array ''y'' par, Array ''y'' (map Byte x), String ct]] \<and> d_same d d'"
      using daemon_rpc_secret[of d p at x] d_same_refl[of d] by simp
  next
    fix d ps kvs x sp ct
    assume a: "d_ok d" "\<not> d_locked d" "distinct (map fst (ps :: (string \<times> Value) list))" "distinct (map fst kvs)"
      "map_of ps ''org.freedesktop.Secret.Item.Attributes'' = Some (pairs_value kvs)"
    let ?i = "place_of kvs (d_items d)"
    show "\<exists>m p d'. daemon_rpc SERVICE_DEST ''/c'' COLLECTION_IFACE ''CreateItem'' ''a{sv}(oayays)b''
          [properties_value ps, Struct [ObjectPath sp, Array ''y'' [], Array ''y'' (map Byte x), String ct], Boolean True] d
        = Some (Ret m, d')
      \<and> msg_body m = [ObjectPath p, ObjectPath NULL_PATH] \<and> d_ok d' \<and> d_locked d' = d_locked d
      \<and> d_item d' = (d_item d)(p \<mapsto> (map_of kvs, x))
      \<and> (case d_item d p of Some (at, _) \<Rightarrow> at = map_of kvs | None \<Rightarrow> \<forall>q y. d_item d q \<noteq> Some (map_of kvs, y))"
      using daemon_rpc_create[OF a(2,5)] d_ok_put[OF a(1,4)] d_item_put[OF place_of_le] place_of_spec[OF a(1,4)]
      by (intro exI[of _ "return_message [ObjectPath (item_path ?i), ObjectPath ''/'']"] exI[of _ "item_path ?i"]
          exI[of _ "d\<lparr>d_items := put_item ?i (kvs, x) (d_items d)\<rparr>"]) simp
  qed
  ultimately show ?thesis by (simp add: secret_daemon_def)
qed

section \<open>Requests are well typed\<close>

text \<open>The interface of the Secret Service and of the standard properties, as specified: the types of the arguments of
  each method that the client uses.\<close>

definition secret_interface :: "string \<Rightarrow> string \<Rightarrow> string option" where
  "secret_interface iface member = map_of
    [((SERVICE_IFACE, ''OpenSession''), ''sv''), ((SERVICE_IFACE, ''ReadAlias''), ''s''), ((SERVICE_IFACE, ''Unlock''), ''ao''),
     ((PROPERTIES_IFACE, ''Get''), ''ss''), ((COLLECTION_IFACE, ''SearchItems''), ''a{ss}''),
     ((COLLECTION_IFACE, ''CreateItem''), ''a{sv}(oayays)b''), ((ITEM_IFACE, ''GetSecret''), ''o'')] (iface, member)"

lemma wf_attributes_value [simp]:
  assumes "is_str s" "is_str a"
  shows "wf_value (attributes_value s a)" "signature_of (attributes_value s a) = ''a{ss}''"
proof -
  have "complete_type ''{ss}''" "is_str ''{ss}''" "is_str ''service''" "is_str ''account''" by code_simp+
  then show "wf_value (attributes_value s a)" "signature_of (attributes_value s a) = ''a{ss}''"
    using assms by (simp_all add: attributes_value_def)
qed

lemma wf_item_properties:
  assumes "is_str s" "is_str a"
  shows "wf_value (item_properties s a)" "signature_of (item_properties s a) = ''a{sv}''"
proof -
  have c: "complete_type ''{sv}''" "is_str ''{sv}''" "is_str ''org.freedesktop.Secret.Item.Label''"
    "is_str ''org.freedesktop.Secret.Item.Attributes''" "is_str ''rustils: ''" "is_str '' (''" "is_str '')''"
    by code_simp+
  have "is_str (''rustils: '' @ s @ '' ('' @ a @ '')'')"
    by (intro is_str_append c assms)
  then show "wf_value (item_properties s a)" "signature_of (item_properties s a) = ''a{sv}''"
    using c(1-4) wf_attributes_value[OF assms] by (simp_all add: item_properties_def)
qed

lemma wf_secret_struct:
  assumes "is_str sp"
  shows "wf_value (secret_struct sp x)" "signature_of (secret_struct sp x) = ''(oayays)''"
proof -
  have "complete_type ''y''" "is_str ''y''" "is_str ''text/plain''" by code_simp+
  then show "wf_value (secret_struct sp x)" "signature_of (secret_struct sp x) = ''(oayays)''"
    using assms by (simp_all add: secret_struct_def list_all_iff)
qed

text \<open>A connection that also keeps the requests made on it, and what Rust's strings give of a reply: its object
  paths are text.\<close>

type_synonym request = "string \<times> string \<times> string \<times> string \<times> string \<times> Value list"

definition recording :: "'c rpc \<Rightarrow> (request list \<times> 'c) rpc" where
  "recording rpc dst path iface member sig body = (\<lambda>(log, c).
    map_option (\<lambda>(r, c'). (r, (log @ [(dst, path, iface, member, sig, body)], c'))) (rpc dst path iface member sig body c))"

definition silent :: "('c, 'a) action \<Rightarrow> (request list \<times> 'c, 'a) action" where
  "silent m = (\<lambda>(log, c). map_option (\<lambda>(r, c'). (r, (log, c'))) (m c))"

fun paths_ok :: "Value \<Rightarrow> bool" where
  "paths_ok (ObjectPath p) = is_str p"
| "paths_ok (Array e vs) = list_all paths_ok vs"
| "paths_ok _ = True"

definition replies_ok :: "'c rpc \<Rightarrow> bool" where
  "replies_ok rpc \<longleftrightarrow> (\<forall>dst path iface member sig body c m c'.
    rpc dst path iface member sig body c = Some (Ret m, c') \<longrightarrow> list_all paths_ok (msg_body m))"

definition well_typed :: "request \<Rightarrow> bool" where
  "well_typed = (\<lambda>(dst, path, iface, member, sig, body).
    dst = SERVICE_DEST \<and> secret_interface iface member = Some sig \<and>
    is_str path \<and> is_str iface \<and> is_str member \<and>
    list_all wf_value body \<and> sig = concat (map signature_of body))"

text \<open>An action that makes only well-typed requests and returns only values with \<open>P\<close>.\<close>

definition types :: "('a \<Rightarrow> bool) \<Rightarrow> (request list \<times> 'c, 'a) action \<Rightarrow> bool" where
  "types P m \<longleftrightarrow> (\<forall>log c r log' c'. m (log, c) = Some (r, (log', c')) \<longrightarrow> list_all well_typed log
    \<longrightarrow> list_all well_typed log' \<and> (\<forall>x. r = Ret x \<longrightarrow> P x))"

lemma typesD:
  assumes "types P m" "m (log, c) = Some (r, (log', c'))" "list_all well_typed log"
  shows "list_all well_typed log'" "r = Ret x \<Longrightarrow> P x"
  using assms unfolding types_def by blast+

lemma types_bind:
  assumes "types P m" "\<And>x. P x \<Longrightarrow> types Q (f x)"
  shows "types Q (act_bind m f)"
  unfolding types_def
proof (intro allI impI)
  fix log c r log' c'
  assume run: "act_bind m f (log, c) = Some (r, (log', c'))" and ok: "list_all well_typed log"
  then obtain y log1 c1 where m: "m (log, c) = Some (y, (log1, c1))"
    by (auto simp: act_bind_def split: option.splits)
  note step = typesD[OF assms(1) m ok]
  show "list_all well_typed log' \<and> (\<forall>x. r = Ret x \<longrightarrow> Q x)"
  proof (cases y)
    case (Ret x)
    then have "f x (log1, c1) = Some (r, (log', c'))" using run m by simp
    then show ?thesis using typesD[OF assms(2)[OF step(2)[OF Ret]] _ step(1)] by blast
  qed (use run m step(1) in \<open>auto simp: act_bind_def\<close>)
qed

lemma types_ret [simp]: "types P (act_ret x) \<longleftrightarrow> P x"
  by (auto simp: types_def intro: exI[of _ "[]"])

lemma types_fail [simp]: "types P (act_fail e)"
  by (simp add: types_def)

lemma types_silent: "types (\<lambda>_. True) (silent m)"
  by (auto simp: types_def silent_def)

lemma types_weaken: "types P m \<Longrightarrow> (\<And>x. P x \<Longrightarrow> Q x) \<Longrightarrow> types Q m"
  by (auto simp: types_def)

lemma types_benign:
  assumes "types P m" "\<And>x. P x \<Longrightarrow> types Q (f x)" "Q None"
  shows "types Q (benign_none m f)"
  unfolding types_def
proof (intro allI impI)
  fix log c r log' c'
  assume run: "benign_none m f (log, c) = Some (r, (log', c'))" and ok: "list_all well_typed log"
  show "list_all well_typed log' \<and> (\<forall>x. r = Ret x \<longrightarrow> Q x)"
  proof (cases "\<exists>e c1. m (log, c) = Some (Fail e, c1)")
    case True
    then show ?thesis using run ok assms(3) typesD(1)[OF assms(1) _ ok]
      by (auto simp: benign_none_def split: if_splits)
  next
    case False
    then have bound: "act_bind m f (log, c) = Some (r, (log', c'))"
      using run by (auto simp: benign_none_def split: option.splits run.splits)
    have "types Q (act_bind m f)" by (rule types_bind[OF assms(1)]) (rule assms(2))
    from typesD[OF this bound ok] show ?thesis by blast
  qed
qed

lemma types_call:
  assumes "replies_ok rpc" "well_typed (dst, path, iface, member, sig, body)"
  shows "types (\<lambda>m. list_all paths_ok (msg_body m)) (recording rpc dst path iface member sig body)"
proof -
  have "list_all paths_ok (msg_body m)" if "rpc dst path iface member sig body c = Some (Ret m, c')" for c m c'
    using assms(1) that unfolding replies_ok_def by blast
  then show ?thesis using assms(2) by (auto simp: types_def recording_def)
qed

lemma paths_ok_nth:
  assumes "list_all paths_ok vs" "nth_opt vs i = Some v"
  shows "paths_ok v"
  using assms by (auto simp: nth_opt_def list_all_length split: if_splits)

text \<open>The literal parts of the requests.\<close>

lemma request_words:
  "is_str SERVICE_PATH" "is_str SERVICE_IFACE" "is_str COLLECTION_IFACE" "is_str ITEM_IFACE" "is_str PROPERTIES_IFACE"
  "is_str ''OpenSession''" "is_str ''ReadAlias''" "is_str ''Unlock''" "is_str ''Get''" "is_str ''SearchItems''"
  "is_str ''CreateItem''" "is_str ''GetSecret''" "is_str ''plain''" "is_str ''default''" "is_str ''Locked''"
  "is_str []" "is_str ''o''" "complete_type ''o''"
  by code_simp+

lemmas well_typed_simps = well_typed_def secret_interface_def request_words

lemma types_request:
  assumes "replies_ok rpc" "well_typed (dst, path, iface, member, sig, body)"
    and "\<And>m. list_all paths_ok (msg_body m) \<Longrightarrow> types Q (f m)"
  shows "types Q (act_bind (recording rpc dst path iface member sig body) f)"
  using types_bind[OF types_call[OF assms(1,2)] assms(3)] .

lemma types_get_property:
  assumes "replies_ok rpc" "is_str path"
  shows "types (\<lambda>_. True) (get_property (recording rpc) path COLLECTION_IFACE ''Locked'')"
  unfolding get_property_def using assms
  by (intro types_request) (simp_all add: well_typed_simps split: list.split Value.split)

lemma types_unlock:
  assumes "replies_ok rpc" "is_str cp"
  shows "types (\<lambda>_. True) (unlock_collection (recording rpc) cp)"
  unfolding unlock_collection_def using assms
  by (intro types_request) (simp_all add: well_typed_simps split: option.split Value.split)

definition session_ok :: "(string \<times> string) option \<Rightarrow> bool" where
  "session_ok r = (case r of None \<Rightarrow> True | Some (sp, cp) \<Rightarrow> is_str sp \<and> is_str cp)"

lemma session_ok_simps [simp]: "session_ok None" "session_ok (Some (sp, cp)) \<longleftrightarrow> is_str sp \<and> is_str cp"
  by (simp_all add: session_ok_def)

lemma paths_ok_path:
  "list_all paths_ok vs \<Longrightarrow> nth_opt vs i = Some (ObjectPath p) \<Longrightarrow> is_str p"
  using paths_ok_nth by fastforce

lemma types_locked:
  assumes "replies_ok rpc" "is_str sp" "is_str cp"
  shows "types session_ok (act_bind (get_property (recording rpc) cp COLLECTION_IFACE ''Locked'')
    (\<lambda>locked. if locked = Boolean True
       then act_bind (unlock_collection (recording rpc) cp) (\<lambda>unlocked. act_ret (if unlocked then Some (sp, cp) else None))
       else act_ret (Some (sp, cp))))"
proof -
  have "types session_ok (act_bind (unlock_collection (recording rpc) cp)
      (\<lambda>unlocked. act_ret (if unlocked then Some (sp, cp) else None)))"
    by (rule types_bind[OF types_unlock[OF assms(1,3)]]) (simp add: assms)
  then show ?thesis using assms by (intro types_bind[OF types_get_property]) simp_all
qed

lemma types_session_opened:
  assumes "replies_ok rpc" "list_all paths_ok (msg_body m)"
  shows "types session_ok (session_opened (recording rpc) m)"
proof (cases "\<exists>sp. nth_opt (msg_body m) 1 = Some (ObjectPath sp)")
  case True
  then obtain sp where sp: "nth_opt (msg_body m) 1 = Some (ObjectPath sp)" "is_str sp"
    using paths_ok_path[OF assms(2)] by blast
  have "types session_ok (case nth_opt (msg_body m') 0 of
      Some (ObjectPath cp) \<Rightarrow> if cp = NULL_PATH then act_ret None
        else act_bind (get_property (recording rpc) cp COLLECTION_IFACE ''Locked'')
          (\<lambda>locked. if locked = Boolean True
             then act_bind (unlock_collection (recording rpc) cp) (\<lambda>unlocked. act_ret (if unlocked then Some (sp, cp) else None))
             else act_ret (Some (sp, cp)))
    | _ \<Rightarrow> act_fail (proto_err ''ReadAlias did not return the expected object path''))"
    if "list_all paths_ok (msg_body m')" for m'
    using types_locked[OF assms(1) sp(2) paths_ok_path[OF that, of 0]] by (auto split: option.split Value.split)
  then show ?thesis unfolding session_opened_def sp(1) using assms(1)
    by (auto intro!: types_request simp: well_typed_simps)
qed (auto simp: session_opened_def split: option.split Value.split)

lemma types_prepare_session:
  assumes "replies_ok rpc"
  shows "types session_ok (prepare_session (recording rpc) (silent opn))"
proof -
  have req: "well_typed (SERVICE_DEST, SERVICE_PATH, SERVICE_IFACE, ''OpenSession'', ''sv'', [String ''plain'', Variant (String [])])"
    by (simp add: well_typed_simps)
  show ?thesis unfolding prepare_session_def prepare_session_over_def
    by (intro types_benign[OF types_silent] types_benign[OF types_call[OF assms req]] types_session_opened assms) simp_all
qed

lemma types_get_with:
  assumes "replies_ok rpc" "is_str sp" "is_str cp" "is_str s" "is_str a"
  shows "types (\<lambda>_. True) (get_with (recording rpc) sp cp s a)"
proof -
  have search: "well_typed (SERVICE_DEST, cp, COLLECTION_IFACE, ''SearchItems'', ''a{ss}'', [attributes_value s a])"
    using assms by (simp add: well_typed_simps)
  have secret: "types (\<lambda>_. True) (act_bind (recording rpc SERVICE_DEST p ITEM_IFACE ''GetSecret'' ''o'' [ObjectPath sp])
      (\<lambda>reply. case secret_bytes reply of Ok bs \<Rightarrow> act_ret (Some bs) | Err e \<Rightarrow> act_fail e))" if "is_str p" for p
    using that assms by (intro types_request) (simp_all add: well_typed_simps split: sum.split)
  have "is_str p" if "list_all paths_ok (msg_body m)" "nth_opt (msg_body m) 0 = Some (Array e vs)" "nth_opt vs 0 = Some (ObjectPath p)"
    for m e vs p
    using paths_ok_path[of vs 0 p] paths_ok_nth[OF that(1,2)] that(3) by simp
  then show ?thesis unfolding get_with_def using assms(1) search
    by (auto intro!: types_request secret split: option.split Value.split)
qed

lemma types_set_with:
  assumes "replies_ok rpc" "is_str sp" "is_str cp" "is_str s" "is_str a"
  shows "types (\<lambda>_. True) (set_with (recording rpc) sp cp s a x)"
proof -
  have "well_typed (SERVICE_DEST, cp, COLLECTION_IFACE, ''CreateItem'', ''a{sv}(oayays)b'',
      [item_properties s a, secret_struct sp x, Boolean True])"
    using assms wf_item_properties[OF assms(4,5)] wf_secret_struct[OF assms(2)] by (simp add: well_typed_simps)
  then show ?thesis unfolding set_with_def using assms(1)
    by (auto intro!: types_request split: option.split Value.split)
qed

lemma types_with_session:
  assumes "replies_ok rpc" "\<And>sp cp. is_str sp \<Longrightarrow> is_str cp \<Longrightarrow> types P (f sp cp)"
  shows "types P (with_session (prepare_session (recording rpc) (silent opn)) f)"
  unfolding with_session_def using assms(2)
  by (intro types_bind[OF types_prepare_session[OF assms(1)]]) (auto split: option.split)

lemma types_available:
  assumes "replies_ok rpc"
  shows "types (\<lambda>_. True) (available (recording rpc) (silent opn))"
  using types_prepare_session[OF assms, of opn]
  by (fastforce simp: types_def available_def status_of_def split: option.splits prod.splits run.splits)

lemma secret_interface_short: "secret_interface iface member = Some sig \<Longrightarrow> length sig < 256"
  by (auto simp: secret_interface_def split: if_splits)

lemma well_typed_message:
  assumes "well_typed (dst, path, iface, member, sig, body)"
  shows "wf_message (method_call n dst path iface member sig body)"
proof -
  have "is_str SERVICE_DEST" by code_simp
  moreover have "length sig < 256"
    using assms secret_interface_short[of iface member sig] by (simp add: well_typed_def)
  ultimately show ?thesis
    using assms by (simp add: well_typed_def wf_message_def method_call_def opt_str_def)
qed

lemma daemon_replies_ok: "replies_ok daemon_rpc"
proof -
  have "is_str (item_path i)" for i
  proof (induction i)
    case 0
    show ?case by (simp add: item_path_def request_words)
  next
    case (Suc i)
    have "is_str ''x''" by code_simp
    from is_str_append[OF this Suc] show ?case by (simp add: item_path_def)
  qed
  moreover have "is_str ''/s''" "is_str ''/c''" "is_str ''/''" by code_simp+
  ultimately show ?thesis
    by (auto simp: replies_ok_def daemon_rpc_def Let_def list_all_iff split: if_splits)
qed

section \<open>Properties\<close>


text \<open>An item of another program with one more attribute, beside those of the client.\<close>

definition shared_daemon :: Daemon where
  "shared_daemon = \<lparr>d_locked = True,
     d_items = [([(''service'', ''mail''), (''account'', ''bob''), (''xdg:schema'', ''other'')], [7])]\<rparr>"


text \<open>A search matches items with more attributes: the secret of such an item is returned although nothing is stored
  under the exact pair.\<close>

lemma secret_service_matches_more:
  "map_option fst (get_secret daemon_rpc (act_ret ()) ''mail'' ''bob'' shared_daemon) = Some (Ret (Some [7]))"
  by code_simp

text \<open>Reachability is reported honestly: when \<open>available\<close> says the store is not
  available, \<open>get\<close> and \<open>set\<close> in the same state fail with an error, never with a clean miss
  or a silent success; and when a clean miss or a secret is returned, the store was
  available.\<close>

theorem secret_service_unavailable_is_an_error:
  "(available rpc opn c = Some (Ret Unavailable, c') \<longrightarrow>
      (\<exists>e. get_secret rpc opn s a c = Some (Fail e, c') \<and> set_secret rpc opn s a x c = Some (Fail e, c')))
   \<and> (get_secret rpc opn s a c = Some (Ret r, c1) \<longrightarrow> (\<exists>c'. available rpc opn c = Some (Ret Available, c')))
   \<and> (set_secret rpc opn s a x c = Some (Ret (), c1) \<longrightarrow> (\<exists>c'. available rpc opn c = Some (Ret Available, c')))"
  by (auto simp: available_def status_of_def get_secret_def set_secret_def with_session_def act_bind_def
      act_fail_def split: option.splits prod.splits run.splits)

theorem secret_service_unavailable_is_an_error_witness:
  "\<exists>e. get_secret daemon_rpc (act_fail (new_error ConnectionRefused NoCode ''connect'')) ''s'' ''a''
      \<lparr>d_locked = False, d_items = []\<rparr> = Some (Fail e, \<lparr>d_locked = False, d_items = []\<rparr>)"
proof -
  have "available daemon_rpc (act_fail (new_error ConnectionRefused NoCode ''connect'')) \<lparr>d_locked = False, d_items = []\<rparr>
      = Some (Ret Unavailable, \<lparr>d_locked = False, d_items = []\<rparr>)"
    by (simp add: available_def prepare_session_def benign_none_def is_benign_unreachable_def status_of_def)
  then show ?thesis using secret_service_unavailable_is_an_error[where s = "''s''" and a = "''a''"] by fastforce
qed

text \<open>C30.  Every request that the client makes, in a store, a read or the check of availability, whatever
  the service answers (as long as the object paths in its answers are text), goes to the Secret Service, is
  a method of the specified interface with the argument types specified for it, is encoded without a panic,
  and the bus decodes exactly the call that was meant.\<close>

theorem secret_service_requests_well_typed:
  assumes "is_str s" "is_str a" "replies_ok rpc"
    and "set_secret (recording rpc) (silent opn) s a x ([], c) = Some (r1, (log, c'))
      \<or> get_secret (recording rpc) (silent opn) s a ([], c) = Some (r2, (log, c'))
      \<or> available (recording rpc) (silent opn) ([], c) = Some (r3, (log, c'))"
    and "(dst, path, iface, member, sig, body) \<in> set log" and "msg = method_call n dst path iface member sig body"
  shows "dst = SERVICE_DEST \<and> secret_interface iface member = Some sig
    \<and> (\<exists>out. encode msg = Ret out
        \<and> (length out < 2 ^ 32 \<longrightarrow> (\<forall>k post. msg_fuel msg \<le> k \<longrightarrow> decode k (out @ post) = Some (Ret (msg, length out)))))"
proof -
  have types: "types (\<lambda>_. True) (set_secret (recording rpc) (silent opn) s a x)"
      "types (\<lambda>_. True) (get_secret (recording rpc) (silent opn) s a)"
      "types (\<lambda>_. True) (available (recording rpc) (silent opn))"
    unfolding set_secret_def get_secret_def using assms(1-3)
    by (auto intro: types_with_session types_set_with types_get_with types_available)
  have "list_all well_typed log"
    using assms(4) typesD(1)[OF types(1)] typesD(1)[OF types(2)] typesD(1)[OF types(3)] by fastforce
  then have req: "well_typed (dst, path, iface, member, sig, body)" using assms(5) by (auto simp: list_all_iff)
  then have "wf_message msg" unfolding assms(6) by (rule well_typed_message)
  then show ?thesis using req encode_message_bytes decode_message_bytes by (auto simp: well_typed_def)
qed

theorem secret_service_requests_well_typed_witness:
  "\<exists>r log c'. set_secret (recording daemon_rpc) (silent (act_ret ())) ''mail'' ''bob'' [1] ([], \<lparr>d_locked = True, d_items = []\<rparr>)
      = Some (r, (log, c'))
    \<and> map (\<lambda>(_, _, _, member, _, _). member) log = [''OpenSession'', ''ReadAlias'', ''Get'', ''Unlock'', ''CreateItem'']
    \<and> (\<forall>(dst, path, iface, member, sig, body) \<in> set log. \<exists>out. encode (method_call 3 dst path iface member sig body) = Ret out)"
proof -
  let ?run = "set_secret (recording daemon_rpc) (silent (act_ret ())) ''mail'' ''bob'' [1] ([], \<lparr>d_locked = True, d_items = []\<rparr>)"
  have members: "map_option (\<lambda>(r, log, d). map (\<lambda>(_, _, _, member, _, _). member) log) ?run
      = Some [''OpenSession'', ''ReadAlias'', ''Get'', ''Unlock'', ''CreateItem'']"
    by code_simp
  then obtain r log c' where run: "?run = Some (r, (log, c'))" by auto
  have strs: "is_str ''mail''" "is_str ''bob''" by code_simp+
  have "\<exists>out. encode (method_call 3 dst path iface member sig body) = Ret out"
    if "(dst, path, iface, member, sig, body) \<in> set log" for dst path iface member sig body
    using secret_service_requests_well_typed[OF strs daemon_replies_ok disjI1[OF run] that refl] by blast
  then show ?thesis using run members by (intro exI[of _ r] exI[of _ log] exI[of _ c']) auto
qed

end
