(* ===== verification/Trust_Anchors.thy ===== *)
theory Trust_Anchors
  imports Platform_Error
begin

text \<open>
  Trust-anchor loading, \<open>platform-linux/src/sys/trust_anchors.rs\<close>: base64, PEM
  blocks and the probing policy.  The file system and the environment are
  parameters (\<open>Host\<close>): what \<open>std::env\<close> and \<open>std::fs\<close> answer for a name.
\<close>

section \<open>The code\<close>

definition sextet :: "u8 \<Rightarrow> u8 option" where
  "sextet c =
    (if 0x41 \<le> c \<and> c \<le> 0x5A then Some (c - 0x41)
     else if 0x61 \<le> c \<and> c \<le> 0x7A then Some (c - 0x61 + 26)
     else if 0x30 \<le> c \<and> c \<le> 0x39 then Some (c - 0x30 + 52)
     else if c = 0x2B then Some 62
     else if c = 0x2F then Some 63
     else None)"

definition is_ascii_whitespace :: "u8 \<Rightarrow> bool" where
  "is_ascii_whitespace c = (c = 0x20 \<or> c = 0x09 \<or> c = 0x0A \<or> c = 0x0C \<or> c = 0x0D)"

fun b64_loop :: "bytes \<Rightarrow> u32 \<Rightarrow> nat \<Rightarrow> bytes \<Rightarrow> bytes option" where
  "b64_loop [] acc bits out = Some out"
| "b64_loop (c # cs) acc bits out =
    (if c = 0x3D then Some out
     else if is_ascii_whitespace c then b64_loop cs acc bits out
     else case sextet c of
       None \<Rightarrow> None
     | Some s \<Rightarrow>
         let acc1 = push_bit 6 acc OR ucast s; bits1 = bits + 6 in
         if bits1 \<ge> 8
         then b64_loop cs acc1 (bits1 - 8) (out @ [ucast (drop_bit (bits1 - 8) acc1)])
         else b64_loop cs acc1 bits1 out)"

definition b64_decode :: "bytes \<Rightarrow> bytes option" where
  "b64_decode input = b64_loop input 0 0 []"

definition BEGIN :: string where "BEGIN = ''-----BEGIN CERTIFICATE-----''"
definition END :: string where "END = ''-----END CERTIFICATE-----''"

fun find_str :: "string \<Rightarrow> string \<Rightarrow> nat option" where
  "find_str pat [] = (if pat = [] then Some 0 else None)"
| "find_str pat (c # cs) =
    (if take (length pat) (c # cs) = pat then Some 0 else map_option Suc (find_str pat cs))"

function pem_to_ders :: "string \<Rightarrow> bytes list" where
  "pem_to_ders rest =
    (case find_str BEGIN rest of
       None \<Rightarrow> []
     | Some start \<Rightarrow>
        let after_begin = drop (start + length BEGIN) rest in
        (case find_str END after_begin of
           None \<Rightarrow> []
         | Some e \<Rightarrow>
            (case b64_decode (as_bytes (take e after_begin)) of
               Some der \<Rightarrow> (if der \<noteq> [] then [der] else [])
             | None \<Rightarrow> [])
            @ pem_to_ders (drop (e + length END) after_begin)))"
  by pat_completeness auto

lemma find_str_bound: "find_str pat s = Some k \<Longrightarrow> k + length pat \<le> length s"
proof (induction pat s arbitrary: k rule: find_str.induct)
  case (2 pat c cs)
  then show ?case
    by (cases "take (length pat) (c # cs) = pat") (auto simp: take_Cons' dest: arg_cong[of _ _ length] split: if_splits)
qed (auto split: if_splits)

termination pem_to_ders
  by (relation "measure length") (auto dest!: find_str_bound simp: BEGIN_def)

record Host =
  env_var :: "string \<Rightarrow> string option"
  read_to_string :: "string \<Rightarrow> string option"
  host_read_dir :: "string \<Rightarrow> (string \<times> bool) list option"
  path_exists :: "string \<Rightarrow> bool"
  path_is_dir :: "string \<Rightarrow> bool"

definition BUNDLE_PATHS :: "string list" where
  "BUNDLE_PATHS = [''/etc/ssl/certs/ca-certificates.crt'', ''/etc/pki/tls/certs/ca-bundle.crt'',
     ''/etc/ssl/ca-bundle.pem'', ''/etc/pki/tls/cacert.pem'', ''/etc/ssl/cert.pem'']"

definition DIR_PATHS :: "string list" where
  "DIR_PATHS = [''/etc/ssl/certs'', ''/etc/pki/tls/certs'']"

definition no_anchors :: "string \<Rightarrow> PlatformError" where
  "no_anchors detail = new_error NotFound NoCode detail"

definition non_empty :: "bytes list \<Rightarrow> string \<Rightarrow> bytes list result" where
  "non_empty anchors detail = (if anchors = [] then Err (no_anchors detail) else Ok anchors)"

definition read_bundle :: "Host \<Rightarrow> string \<Rightarrow> bytes list" where
  "read_bundle h path = (case read_to_string h path of Some text \<Rightarrow> pem_to_ders text | None \<Rightarrow> [])"

definition read_dir_anchors :: "Host \<Rightarrow> string \<Rightarrow> bytes list" where
  "read_dir_anchors h path =
    (case host_read_dir h path of
       None \<Rightarrow> []
     | Some entries \<Rightarrow>
         concat (map (\<lambda>(p, is_dir). if is_dir then [] else read_bundle h p) entries))"

definition load_anchors :: "Host \<Rightarrow> bytes list result" where
  "load_anchors h =
    (case env_var h ''SSL_CERT_FILE'' of
       Some file \<Rightarrow> non_empty (read_bundle h file) ''SSL_CERT_FILE names no usable certificates''
     | None \<Rightarrow>
    case env_var h ''SSL_CERT_DIR'' of
       Some dir \<Rightarrow> non_empty (read_dir_anchors h dir) ''SSL_CERT_DIR names no usable certificates''
     | None \<Rightarrow>
    case find (path_exists h) BUNDLE_PATHS of
       Some path \<Rightarrow> non_empty (read_bundle h path) ''distro CA bundle held no usable certificates''
     | None \<Rightarrow>
    case find (path_is_dir h) DIR_PATHS of
       Some path \<Rightarrow> non_empty (read_dir_anchors h path) ''distro CA directory held no usable certificates''
     | None \<Rightarrow> Err (no_anchors
         ''no OS trust store found (no SSL_CERT_FILE/SSL_CERT_DIR, no known bundle or directory)''))"

section \<open>A reference encoder\<close>

text \<open>Standard base64 with padding, three bytes at a time.\<close>

definition b64_char :: "u8 \<Rightarrow> u8" where
  "b64_char v = (if v < 26 then v + 0x41 else if v < 52 then v - 26 + 0x61
     else if v < 62 then v - 52 + 0x30 else if v = 62 then 0x2B else 0x2F)"

fun b64_encode :: "bytes \<Rightarrow> bytes" where
  "b64_encode [] = []"
| "b64_encode [x] =
    [b64_char (drop_bit 2 x), b64_char (push_bit 4 x AND 0x3F), 0x3D, 0x3D]"
| "b64_encode [x, y] =
    [b64_char (drop_bit 2 x), b64_char ((push_bit 4 x AND 0x3F) OR drop_bit 4 y),
     b64_char (push_bit 2 y AND 0x3F), 0x3D]"
| "b64_encode (x # y # z # rest) =
    [b64_char (drop_bit 2 x), b64_char ((push_bit 4 x AND 0x3F) OR drop_bit 4 y),
     b64_char ((push_bit 2 y AND 0x3F) OR drop_bit 6 z), b64_char (z AND 0x3F)] @ b64_encode rest"

lemma b64_char_table:
  "list_all (\<lambda>n. sextet (b64_char (of_nat n)) = Some (of_nat n) \<and> b64_char (of_nat n) \<noteq> 0x3D
     \<and> \<not> is_ascii_whitespace (b64_char (of_nat n))) [0..<64]"
  by code_simp

lemma b64_char_sextet:
  assumes "v < 64"
  shows "sextet (b64_char v) = Some v" "b64_char v \<noteq> 0x3D" "\<not> is_ascii_whitespace (b64_char v)"
proof -
  have "unat v < 64" using assms by (simp add: word_less_nat_alt)
  moreover have "of_nat (unat v) = v" by simp
  ultimately show "sextet (b64_char v) = Some v" "b64_char v \<noteq> 0x3D" "\<not> is_ascii_whitespace (b64_char v)"
    using b64_char_table by (auto simp: list_all_iff dest!: bspec[of _ _ "unat v"])
qed

lemma u8_bits_eqI:
  assumes "bit a 0 = bit b 0" "bit a 1 = bit b 1" "bit a 2 = bit b 2" "bit a 3 = bit b 3"
    "bit a 4 = bit b 4" "bit a 5 = bit b 5" "bit a 6 = bit b 6" "bit a 7 = bit b 7"
  shows "a = (b :: u8)"
proof (rule bit_word_eqI)
  fix n assume "n < LENGTH(8)"
  then have "n = 0 \<or> n = 1 \<or> n = 2 \<or> n = 3 \<or> n = 4 \<or> n = 5 \<or> n = 6 \<or> n = 7" by auto
  then show "bit a n = bit b n" using assms by auto
qed

lemma u8_bit_high: "8 \<le> n \<Longrightarrow> \<not> bit (y :: u8) n"
  using bit_imp_le_length[of y n] by auto

lemma sextet_lt: "\<lbrakk>\<not> bit v 6; \<not> bit v 7\<rbrakk> \<Longrightarrow> (v :: u8) < 64"
proof -
  assume h: "\<not> bit v 6" "\<not> bit v 7"
  have "v = v AND 0x3F" by (rule u8_bits_eqI) (simp_all add: bit_simps h)
  also have "\<dots> \<le> 0x3F" by (rule word_and_le1)
  finally show ?thesis by (simp add: word_less_nat_alt word_le_nat_alt)
qed

lemma sextets_small:
  "drop_bit 2 (x :: u8) < 64" "(y AND 0x3F :: u8) < 64"
  "(push_bit 4 x AND 0x3F) OR drop_bit 4 (y :: u8) < 64"
  "(push_bit 2 x AND 0x3F) OR drop_bit 6 (y :: u8) < 64"
  by (rule sextet_lt; simp add: bit_simps u8_bit_high)+

lemma group_bytes:
  fixes acc :: u32 and x y z :: u8
  defines "s1 \<equiv> drop_bit 2 x" and "s2 \<equiv> (push_bit 4 x AND 0x3F) OR drop_bit 4 y"
    and "s3 \<equiv> (push_bit 2 y AND 0x3F) OR drop_bit 6 z" and "s4 \<equiv> z AND 0x3F"
  defines "a1 \<equiv> push_bit 6 acc OR ucast s1"
  defines "a2 \<equiv> push_bit 6 a1 OR ucast s2"
  defines "a3 \<equiv> push_bit 6 a2 OR ucast s3"
  defines "a4 \<equiv> push_bit 6 a3 OR ucast s4"
  shows "ucast (drop_bit 4 a2) = x" "ucast (drop_bit 2 a3) = y" "ucast a4 = z"
  unfolding a4_def a3_def a2_def a1_def s1_def s2_def s3_def s4_def
  by (rule u8_bits_eqI; simp add: bit_simps u8_bit_high)+

lemma tail_bytes:
  fixes acc :: u32 and x y :: u8
  shows "ucast (drop_bit 4 (push_bit 6 (push_bit 6 acc OR ucast (drop_bit 2 x)) OR ucast (push_bit 4 x AND 0x3F))) = x"
    "ucast (drop_bit 2 (push_bit 6 (push_bit 6 (push_bit 6 acc OR ucast (drop_bit 2 x))
       OR ucast ((push_bit 4 x AND 0x3F) OR drop_bit 4 y)) OR ucast (push_bit 2 y AND 0x3F))) = y"
  by (rule u8_bits_eqI; simp add: bit_simps u8_bit_high)+

lemma b64_loop_char:
  assumes "v < 64"
  shows "b64_loop (b64_char v # cs) acc 0 out = b64_loop cs (push_bit 6 acc OR ucast v) 6 out"
    and "b64_loop (b64_char v # cs) acc 6 out = b64_loop cs (push_bit 6 acc OR ucast v) 4
      (out @ [ucast (drop_bit 4 (push_bit 6 acc OR ucast v))])"
    and "b64_loop (b64_char v # cs) acc 4 out = b64_loop cs (push_bit 6 acc OR ucast v) 2
      (out @ [ucast (drop_bit 2 (push_bit 6 acc OR ucast v))])"
    and "b64_loop (b64_char v # cs) acc 2 out = b64_loop cs (push_bit 6 acc OR ucast v) 0
      (out @ [ucast (push_bit 6 acc OR ucast v)])"
  using b64_char_sextet[OF assms] by (simp_all add: Let_def)

lemma b64_loop_pad: "b64_loop (0x3D # cs) acc bits out = Some out"
  by simp

lemma b64_loop_encode: "b64_loop (b64_encode bs) acc 0 out = Some (out @ bs)"
proof (induction bs arbitrary: acc out rule: b64_encode.induct)
  case (4 x y z rest)
  then show ?case
    by (simp only: b64_encode.simps append.simps append_assoc b64_loop_char[OF sextets_small(1)]
        b64_loop_char[OF sextets_small(2)] b64_loop_char[OF sextets_small(3)]
        b64_loop_char[OF sextets_small(4)] group_bytes)
qed (simp_all only: b64_encode.simps b64_loop.simps(1) append.simps append_assoc append_Nil2
    b64_loop_char[OF sextets_small(1)] b64_loop_char[OF sextets_small(2)]
    b64_loop_char[OF sextets_small(3)] b64_loop_pad group_bytes(1) tail_bytes)

lemma b64_loop_filter:
  "b64_loop cs acc bits out = b64_loop (filter (\<lambda>c. \<not> is_ascii_whitespace c) cs) acc bits out"
proof (induction cs arbitrary: acc bits out)
  case (Cons c cs)
  have "is_ascii_whitespace c \<Longrightarrow> c \<noteq> 0x3D" by (auto simp: is_ascii_whitespace_def)
  then show ?case using Cons by (auto simp: Let_def split: option.splits)
qed simp

section \<open>PEM blocks\<close>

declare pem_to_ders.simps [simp del]

lemma find_str_at:
  assumes "pat \<noteq> []" "hd pat \<notin> set xs"
  shows "find_str pat (xs @ pat @ ys) = Some (length xs)"
  using assms(2)
proof (induction xs)
  case Nil
  have "take (length pat) (pat @ ys) = pat" by simp
  then show ?case using assms(1) by (cases "pat @ ys") (auto simp del: take_append)
next
  case (Cons x xs)
  have "take (length pat) (x # zs) \<noteq> pat" for zs
  proof
    assume "take (length pat) (x # zs) = pat"
    then have "hd pat = x" using assms(1) by (metis hd_take length_greater_0_conv list.sel(1))
    then show False using Cons.prems by simp
  qed
  then show ?case using Cons by simp
qed

lemma find_str_absent:
  assumes "pat \<noteq> []" "hd pat \<notin> set xs"
  shows "find_str pat xs = None"
  using assms(2)
proof (induction xs)
  case (Cons x xs)
  have "take (length pat) (x # xs) \<noteq> pat"
  proof
    assume "take (length pat) (x # xs) = pat"
    then have "hd pat = x" using assms(1) by (metis hd_take length_greater_0_conv list.sel(1))
    then show False using Cons.prems by simp
  qed
  then show ?case using Cons by simp
qed (use assms(1) in simp)

definition block_ders :: "string \<Rightarrow> bytes list" where
  "block_ders body =
    (case b64_decode (as_bytes body) of Some der \<Rightarrow> (if der \<noteq> [] then [der] else []) | None \<Rightarrow> [])"

lemma pem_to_ders_block:
  assumes "CHR ''-'' \<notin> set noise" "CHR ''-'' \<notin> set body"
  shows "pem_to_ders (noise @ BEGIN @ body @ END @ rest) = block_ders body @ pem_to_ders rest"
proof -
  have ne: "BEGIN \<noteq> []" "hd BEGIN = CHR ''-''" "END \<noteq> []" "hd END = CHR ''-''"
    by (simp_all add: BEGIN_def END_def)
  have "find_str BEGIN (noise @ BEGIN @ body @ END @ rest) = Some (length noise)"
    "find_str END (body @ END @ rest) = Some (length body)"
    using find_str_at[of BEGIN noise] find_str_at[of END body rest] ne assms by simp_all
  then show ?thesis
    by (subst pem_to_ders.simps) (simp add: block_ders_def Let_def split: option.splits)
qed

section \<open>Properties\<close>

text \<open> The base64 decoder inverts the standard encoding, for every byte string and with
  white space anywhere in the text.\<close>

theorem b64_decode_inverts_encode:
  assumes "filter (\<lambda>c. \<not> is_ascii_whitespace c) input = b64_encode bs"
  shows "b64_decode input = Some bs"
  using b64_loop_filter[of input 0 0 "[]"] b64_loop_encode[of bs 0 "[]"] assms by (simp add: b64_decode_def)

theorem b64_decode_inverts_encode_witness:
  "b64_decode [0x0A, 0x4D, 0x49, 0x49, 0x0A, 0x42, 0x43, 0x67, 0x3D, 0x3D, 0x0A] = Some [0x30, 0x82, 0x01, 0x0A]"
  by (rule b64_decode_inverts_encode) code_simp

text \<open>Every certificate block is found, in order, and a damaged block costs only itself:
  over any sequence of blocks, with any text without hyphens around and inside them, the
  result is what each block decodes to on its own.\<close>

theorem pem_to_ders_blockwise:
  assumes "\<forall>(noise, body)\<in>set blocks. CHR ''-'' \<notin> set noise \<and> CHR ''-'' \<notin> set body"
    and "CHR ''-'' \<notin> set tail"
  shows "pem_to_ders (concat (map (\<lambda>(noise, body). noise @ BEGIN @ body @ END) blocks) @ tail)
    = concat (map (\<lambda>(noise, body). block_ders body) blocks)"
  using assms(1)
proof (induction blocks)
  case Nil
  have "find_str BEGIN tail = None" using assms(2) by (intro find_str_absent) (simp_all add: BEGIN_def)
  then show ?case by (subst pem_to_ders.simps) simp
next
  case (Cons b blocks)
  then show ?case by (cases b) (auto simp: pem_to_ders_block)
qed

theorem pem_to_ders_blockwise_witness:
  "pem_to_ders (concat (map (\<lambda>(noise, body). noise @ BEGIN @ body @ END)
      [(''x'', ''MIIBCg==''), ([], ''!''), ([], ''TQ=='')]) @ [])
    = [[0x30, 0x82, 0x01, 0x0A], [0x4D]]"
  using pem_to_ders_blockwise[of "[(''x'', ''MIIBCg==''), ([], ''!''), ([], ''TQ=='')]" "[]"]
  by (simp add: block_ders_def) code_simp

text \<open>C29.  Loading fails closed and the operator's choice is final: an \<open>Ok\<close> result is never
  empty, every failure is \<open>NotFound\<close>, and with \<open>SSL_CERT_FILE\<close> set nothing but that file
  is consulted.\<close>

theorem load_anchors_fails_closed:
  "(case load_anchors h of Ok anchors \<Rightarrow> anchors \<noteq> [] | Err e \<Rightarrow> err_kind e = NotFound)
   \<and> (case env_var h ''SSL_CERT_FILE'' of None \<Rightarrow> True
      | Some file \<Rightarrow> load_anchors h =
          (case read_bundle h file of [] \<Rightarrow> Err (no_anchors ''SSL_CERT_FILE names no usable certificates'')
           | ders \<Rightarrow> Ok ders))"
  by (simp add: load_anchors_def non_empty_def no_anchors_def split: option.split list.split)

end
