(* ===== verification/Mpsc.thy ===== *)
theory Mpsc
  imports Prelude
begin

text \<open>
  The channels of \<open>std::sync::mpsc\<close> as the mock backends use them: an unbounded queue
  with a count of live senders and one receiver.  A send fails when the receiver is
  gone; a receive on an empty queue waits while a sender lives and reports the
  disconnection when none does.
\<close>

record 'a Chan =
  ch_queue :: "'a list"
  ch_senders :: nat
  ch_receiver :: bool

datatype 'a received = Got 'a | Disconnected | Waiting

definition new_chan :: "'a Chan" where
  "new_chan = \<lparr>ch_queue = [], ch_senders = 1, ch_receiver = True\<rparr>"

definition send_chan :: "'a \<Rightarrow> 'a Chan \<Rightarrow> 'a Chan option" where
  "send_chan x c = (if ch_receiver c then Some (c\<lparr>ch_queue := ch_queue c @ [x]\<rparr>) else None)"

definition recv_chan :: "'a Chan \<Rightarrow> 'a received \<times> 'a Chan" where
  "recv_chan c =
    (case ch_queue c of
       x # xs \<Rightarrow> (Got x, c\<lparr>ch_queue := xs\<rparr>)
     | [] \<Rightarrow> (if ch_senders c = 0 then Disconnected else Waiting, c))"

definition drop_sender :: "'a Chan \<Rightarrow> 'a Chan" where
  "drop_sender c = c\<lparr>ch_senders := ch_senders c - 1\<rparr>"

definition drop_receiver :: "'a Chan \<Rightarrow> 'a Chan" where
  "drop_receiver c = c\<lparr>ch_queue := [], ch_receiver := False\<rparr>"

text \<open>Channels are allocated in a list and never freed; an index is a handle.\<close>

definition upd_chan :: "nat \<Rightarrow> ('a Chan \<Rightarrow> 'a Chan) \<Rightarrow> 'a Chan list \<Rightarrow> 'a Chan list" where
  "upd_chan i f cs = (if i < length cs then cs[i := f (cs ! i)] else cs)"

lemma upd_chan_length [simp]: "length (upd_chan i f cs) = length cs"
  by (simp add: upd_chan_def)

lemma upd_chan_nth [simp]:
  "j < length cs \<Longrightarrow> upd_chan i f cs ! j = (if i = j then f (cs ! j) else cs ! j)"
  by (simp add: upd_chan_def)

lemma new_chan_sel [simp]:
  "ch_queue new_chan = []" "ch_senders new_chan = 1" "ch_receiver new_chan"
  by (simp_all add: new_chan_def)

lemma drop_sender_sel [simp]:
  "ch_queue (drop_sender c) = ch_queue c" "ch_senders (drop_sender c) = ch_senders c - 1"
  "ch_receiver (drop_sender c) = ch_receiver c"
  by (simp_all add: drop_sender_def)

lemma drop_receiver_sel [simp]:
  "ch_queue (drop_receiver c) = []" "ch_senders (drop_receiver c) = ch_senders c"
  "\<not> ch_receiver (drop_receiver c)"
  by (simp_all add: drop_receiver_def)

lemma send_chan_live [simp]:
  "ch_receiver c \<Longrightarrow> send_chan x c = Some (c\<lparr>ch_queue := ch_queue c @ [x]\<rparr>)"
  by (simp add: send_chan_def)

lemma recv_chan_keeps [simp]:
  "ch_senders (snd (recv_chan c)) = ch_senders c" "ch_receiver (snd (recv_chan c)) = ch_receiver c"
  by (simp_all add: recv_chan_def split: list.split)

lemma recv_chan_live: "0 < ch_senders c \<Longrightarrow> fst (recv_chan c) \<noteq> Disconnected"
  by (simp add: recv_chan_def split: list.split)

section \<open>Reliable connections\<close>

text \<open>The contract of a connection whose state \<open>'s\<close> holds both of its ends, \<open>True\<close> and \<open>False\<close>:
  \<open>pending x\<close> is what was written towards the end \<open>x\<close> and not yet read there.  A write
  is accepted whole and adds to the other end's pending bytes only; a read with a buffer of \<open>n\<close>
  bytes returns a prefix of its own end's pending bytes and leaves the other direction alone; it
  waits only when nothing is pending, and never fails.  \<open>weight\<close> bounds the reads that empty
  a direction.\<close>

datatype stream_op = Write_op bool bytes | Read_op bool nat

text \<open>Any interleaving of writes and reads at the two ends, with what each end has read; a read that would
  wait is skipped, an operation that fails ends the run with \<open>None\<close>.\<close>

fun run_ops :: "(bool \<Rightarrow> nat \<Rightarrow> 's \<Rightarrow> (bytes \<times> 's) received) \<Rightarrow> (bool \<Rightarrow> bytes \<Rightarrow> 's \<Rightarrow> 's option)
    \<Rightarrow> stream_op list \<Rightarrow> (bool \<Rightarrow> bytes) \<Rightarrow> 's \<Rightarrow> ((bool \<Rightarrow> bytes) \<times> 's) option" where
  "run_ops rd wr [] got s = Some (got, s)"
| "run_ops rd wr (Write_op x bs # ops) got s =
    (case wr x bs s of None \<Rightarrow> None | Some s' \<Rightarrow> run_ops rd wr ops got s')"
| "run_ops rd wr (Read_op x n # ops) got s =
    (case rd x n s of
       Waiting \<Rightarrow> run_ops rd wr ops got s
     | Got (bs, s') \<Rightarrow> run_ops rd wr ops (got(x := got x @ bs)) s'
     | Disconnected \<Rightarrow> None)"

text \<open>What is written towards the end \<open>x\<close>.\<close>

fun written :: "bool \<Rightarrow> stream_op list \<Rightarrow> bytes" where
  "written x [] = []"
| "written x (Write_op y bs # ops) = (if y = x then [] else bs) @ written x ops"
| "written x (Read_op y n # ops) = written x ops"

text \<open>Reads at one end with a buffer of \<open>n\<close> bytes, at most \<open>k\<close> of them, until one would wait.\<close>

fun drain :: "(nat \<Rightarrow> 's \<Rightarrow> (bytes \<times> 's) received) \<Rightarrow> nat \<Rightarrow> nat \<Rightarrow> bytes \<Rightarrow> 's \<Rightarrow> bytes \<times> 's" where
  "drain rd 0 n got s = (got, s)"
| "drain rd (Suc k) n got s =
    (case rd n s of Got (bs, s') \<Rightarrow> drain rd k n (got @ bs) s' | _ \<Rightarrow> (got, s))"

locale byte_stream =
  fixes rd :: "bool \<Rightarrow> nat \<Rightarrow> 's \<Rightarrow> (bytes \<times> 's) received"
    and wr :: "bool \<Rightarrow> bytes \<Rightarrow> 's \<Rightarrow> 's option"
    and pending :: "bool \<Rightarrow> 's \<Rightarrow> bytes"
    and weight :: "bool \<Rightarrow> 's \<Rightarrow> nat"
    and inv :: "'s \<Rightarrow> bool"
  assumes wr_ok: "inv s \<Longrightarrow> \<exists>s'. wr x bs s = Some s' \<and> inv s' \<and>
      pending (\<not> x) s' = pending (\<not> x) s @ bs \<and> pending x s' = pending x s"
    and rd_ok: "inv s \<Longrightarrow> rd x n s = Got (bs, s') \<Longrightarrow> inv s' \<and> length bs \<le> n \<and>
      pending x s = bs @ pending x s' \<and> pending (\<not> x) s' = pending (\<not> x) s \<and>
      (0 < n \<longrightarrow> weight x s' < weight x s)"
    and rd_wait: "inv s \<Longrightarrow> rd x n s = Waiting \<Longrightarrow> pending x s = []"
    and rd_alive: "inv s \<Longrightarrow> rd x n s \<noteq> Disconnected"
begin

lemma rd_cases:
  assumes "inv s"
  obtains (got) bs s' where "rd x n s = Got (bs, s')" | (waits) "rd x n s = Waiting" "pending x s = []"
  using rd_alive[OF assms, of x n] rd_wait[OF assms, of x n]
  by (cases "rd x n s") force+

lemma run_ops_fifo:
  assumes "inv s"
  shows "\<exists>got' s'. run_ops rd wr ops got s = Some (got', s') \<and> inv s'
    \<and> (\<forall>x. got x @ pending x s @ written x ops = got' x @ pending x s')"
  using assms
proof (induction ops arbitrary: got s)
  case (Cons op ops)
  show ?case
  proof (cases op)
    case (Write_op y bs)
    obtain s' where s': "wr y bs s = Some s'" "inv s'" "pending (\<not> y) s' = pending (\<not> y) s @ bs"
        "pending y s' = pending y s"
      using wr_ok[OF Cons.prems] by blast
    then have "pending x s' = pending x s @ (if y = x then [] else bs)" for x by (cases "y = x") auto
    then show ?thesis using Cons.IH[OF s'(2), of got] s'(1) Write_op by auto
  next
    case (Read_op y n)
    from Cons.prems show ?thesis
    proof (cases rule: rd_cases[of s y n])
      case (got bs s')
      note s' = rd_ok[OF Cons.prems got]
      define g where "g = got(y := got y @ bs)"
      have g: "g x @ pending x s' = got x @ pending x s" for x using s' by (cases "x = y") (auto simp: g_def)
      obtain got' t where t: "run_ops rd wr ops g s' = Some (got', t)" "inv t"
          "\<forall>x. g x @ pending x s' @ written x ops = got' x @ pending x t"
        using Cons.IH[of s' g] s' by blast
      have "got x @ pending x s @ written x ops = got' x @ pending x t" for x
        using g[of x] t(3) by (metis append_assoc)
      then show ?thesis using t(1,2) got Read_op by (simp add: g_def)
    next
      case waits
      then show ?thesis using Cons Read_op by auto
    qed
  qed
qed simp

lemma drain_all:
  assumes "inv s" "0 < n" "weight x s \<le> k"
  shows "fst (drain (rd x) (Suc k) n got s) = got @ pending x s \<and> pending x (snd (drain (rd x) (Suc k) n got s)) = []"
  using assms
proof (induction k arbitrary: got s)
  case 0
  from 0(1) show ?case
  proof (cases rule: rd_cases[of s x n])
    case (got bs s')
    then show ?thesis using rd_ok[OF 0(1) got] 0 by simp
  qed simp
next
  case (Suc k)
  from Suc.prems(1) show ?case
  proof (cases rule: rd_cases[of s x n])
    case (got bs s')
    then show ?thesis using rd_ok[OF Suc.prems(1) got] Suc.IH[of s' "got @ bs" for got] Suc.prems by simp
  next
    case waits
    then show ?thesis by simp
  qed
qed

end

end
