(* ===== verification/Platform_Net.thy ===== *)
theory Platform_Net
  imports Platform_Error
begin

text \<open>
  What the socket traits of \<open>platform/src/net.rs\<close> exchange: the addresses of \<open>std::net\<close> and the
  durations of \<open>std::time\<close>.  An IPv4 address is the 32-bit and an IPv6 address the 128-bit
  number its octets spell in network order.
\<close>

section \<open>Addresses\<close>

datatype IpAddr = V4 u32 | V6 "128 word"

datatype SocketAddr = SocketAddrV4 u32 u16 | SocketAddrV6 "128 word" u16 u32 u32

fun sa_ip :: "SocketAddr \<Rightarrow> IpAddr" where
  "sa_ip (SocketAddrV4 i p) = V4 i"
| "sa_ip (SocketAddrV6 i p f sc) = V6 i"

fun sa_port :: "SocketAddr \<Rightarrow> u16" where
  "sa_port (SocketAddrV4 i p) = p"
| "sa_port (SocketAddrV6 i p f sc) = p"

fun socket_addr :: "IpAddr \<Rightarrow> u16 \<Rightarrow> SocketAddr" where
  "socket_addr (V4 i) p = SocketAddrV4 i p"
| "socket_addr (V6 i) p = SocketAddrV6 i p 0 0"

section \<open>Durations\<close>

text \<open>\<open>Duration\<close>: whole seconds and the nanoseconds below a second.\<close>

record Duration =
  dur_secs :: u64
  dur_nanos :: u32

definition duration_ok :: "Duration \<Rightarrow> bool" where
  "duration_ok d \<longleftrightarrow> unat (dur_nanos d) < 1000000000"

definition as_nanos :: "Duration \<Rightarrow> nat" where
  "as_nanos d = unat (dur_secs d) * 1000000000 + unat (dur_nanos d)"

definition subsec_micros :: "Duration \<Rightarrow> u32" where
  "subsec_micros d = dur_nanos d div 1000"

definition as_millis :: "Duration \<Rightarrow> nat" where
  "as_millis d = unat (dur_secs d) * 1000 + unat (dur_nanos d) div 1000000"

lemma unat_subsec_micros: "unat (subsec_micros d) = unat (dur_nanos d) div 1000"
  by (simp add: subsec_micros_def unat_div)

lemma as_millis_div:
  assumes "duration_ok d"
  shows "as_millis d = as_nanos d div 1000000"
proof -
  have "as_nanos d = unat (dur_nanos d) + 1000000 * (unat (dur_secs d) * 1000)"
    by (simp add: as_nanos_def)
  then show ?thesis by (simp add: as_millis_def)
qed

end
