(* ===== verification/Mock_Net.thy ===== *)
theory Mock_Net
  imports Mpsc Platform_Net
begin

text \<open>
  The in-memory network, \<open>platform-mock/src/net.rs\<close>: TCP, Unix and UDP sockets over
  process-global registries of channels.  \<open>Net\<close> is that global state.  A handle (a
  stream, a listener, a socket) is a value that names its channels by index; dropping
  it is an operation.  Every operation that would block is \<open>None\<close>.
\<close>

abbreviation LOCALHOST :: IpAddr where "LOCALHOST \<equiv> V4 0x7F000001"

section \<open>State\<close>

record 'addr MockStream =
  st_tx :: nat
  st_rx :: nat
  st_local :: 'addr
  st_peer :: 'addr
  read_buf :: bytes
  read_pos :: nat

record MockTcpStream = "SocketAddr MockStream" +
  read_timeout :: "nat option"

type_synonym MockUnixStream = "string option MockStream"

record MockTcpListener =
  tl_addr :: SocketAddr
  tl_rx :: nat

record MockUnixListener =
  ul_path :: string
  ul_rx :: nat

record MockUdpSocket =
  us_local :: SocketAddr
  us_rx :: nat

text \<open>The components of a path, by which \<open>Path\<close> compares and hashes: repeated separators, trailing ones and
  dots that are not in front do not count.\<close>

fun split_slash :: "string \<Rightarrow> string list" where
  "split_slash [] = [[]]"
| "split_slash (c # cs) =
    (if c = CHR ''/'' then [] # split_slash cs
     else case split_slash cs of p # ps \<Rightarrow> (c # p) # ps | [] \<Rightarrow> [[c]])"

definition path_components :: "string \<Rightarrow> string list" where
  "path_components p =
    (let ps = split_slash p
     in (if p \<noteq> [] \<and> hd p = CHR ''/'' then [''/''] else if hd ps = ''.'' then [''.''] else [])
        @ filter (\<lambda>c. c \<noteq> [] \<and> c \<noteq> ''.'') ps)"

text \<open>A registry maps an address to the channel its owner receives on.\<close>

record ('k, 'm) Registry =
  reg_map :: "'k \<rightharpoonup> nat"
  reg_chans :: "'m Chan list"

record Net =
  next_port :: u16
  pipes :: "bytes Chan list"
  tcp_reg :: "(SocketAddr, MockTcpStream \<times> SocketAddr) Registry"
  unix_reg :: "(string list, MockUnixStream \<times> string option) Registry"
  udp_reg :: "(SocketAddr, bytes \<times> SocketAddr) Registry"

definition empty_registry :: "('k, 'm) Registry" where
  "empty_registry = \<lparr>reg_map = (\<lambda>_. None), reg_chans = []\<rparr>"

definition initial_net :: Net where
  "initial_net = \<lparr>next_port = 40000, pipes = [], tcp_reg = empty_registry,
     unix_reg = empty_registry, udp_reg = empty_registry\<rparr>"

section \<open>Registries\<close>

definition reg_bind :: "'k \<Rightarrow> ('k, 'm) Registry \<Rightarrow> (nat \<times> ('k, 'm) Registry) option" where
  "reg_bind k r =
    (if reg_map r k \<noteq> None then None
     else Some (length (reg_chans r),
       r\<lparr>reg_map := (reg_map r)(k \<mapsto> length (reg_chans r)), reg_chans := reg_chans r @ [new_chan]\<rparr>))"

definition reg_send :: "nat \<Rightarrow> 'm \<Rightarrow> ('k, 'm) Registry \<Rightarrow> ('k, 'm) Registry option" where
  "reg_send c m r =
    (case send_chan m (reg_chans r ! c) of
       None \<Rightarrow> None
     | Some ch \<Rightarrow> Some (r\<lparr>reg_chans := (reg_chans r)[c := ch]\<rparr>))"

definition reg_recv :: "nat \<Rightarrow> ('k, 'm) Registry \<Rightarrow> 'm received \<times> ('k, 'm) Registry" where
  "reg_recv c r =
    (case recv_chan (reg_chans r ! c) of (x, ch) \<Rightarrow> (x, r\<lparr>reg_chans := (reg_chans r)[c := ch]\<rparr>))"

text \<open>Removing the entry drops its sender; then the owner's receiver goes.\<close>

definition reg_unbind :: "'k \<Rightarrow> nat \<Rightarrow> ('k, 'm) Registry \<Rightarrow> ('k, 'm) Registry" where
  "reg_unbind k c r =
    (let r1 = (case reg_map r k of
           None \<Rightarrow> r
         | Some s \<Rightarrow> r\<lparr>reg_map := (reg_map r)(k := None), reg_chans := upd_chan s drop_sender (reg_chans r)\<rparr>)
     in r1\<lparr>reg_chans := upd_chan c drop_receiver (reg_chans r1)\<rparr>)"

section \<open>The code\<close>

definition next_ephemeral_port :: "Net \<Rightarrow> u16 \<times> Net" where
  "next_ephemeral_port w = (next_port w, w\<lparr>next_port := next_port w + 1\<rparr>)"

definition err :: "ErrorKind \<Rightarrow> string \<Rightarrow> PlatformError" where
  "err kind op = new_error kind NoCode op"

definition new_pipe :: "Net \<Rightarrow> nat \<times> Net" where
  "new_pipe w = (length (pipes w), w\<lparr>pipes := pipes w @ [new_chan]\<rparr>)"

definition drop_stream :: "('addr, 'b) MockStream_scheme \<Rightarrow> Net \<Rightarrow> Net" where
  "drop_stream s w =
    w\<lparr>pipes := upd_chan (st_rx s) drop_receiver (upd_chan (st_tx s) drop_sender (pipes w))\<rparr>"

definition tcp_ends :: "SocketAddr \<Rightarrow> SocketAddr \<Rightarrow> nat \<Rightarrow> nat \<Rightarrow> MockTcpStream \<times> MockTcpStream" where
  "tcp_ends addr client_addr c2s s2c =
    (\<lparr>st_tx = s2c, st_rx = c2s, st_local = addr, st_peer = client_addr, read_buf = [], read_pos = 0,
      read_timeout = None\<rparr>,
     \<lparr>st_tx = c2s, st_rx = s2c, st_local = client_addr, st_peer = addr, read_buf = [], read_pos = 0,
      read_timeout = None\<rparr>)"

text \<open>The registry lock is held for the lookup only: what follows it may find the listener
  gone.\<close>

definition tcp_connect_to :: "nat \<Rightarrow> SocketAddr \<Rightarrow> Net \<Rightarrow> MockTcpStream result \<times> Net" where
  "tcp_connect_to listener_tx addr w =
    (let (port, w1) = next_ephemeral_port w;
         client_addr = socket_addr LOCALHOST port;
         (c2s, w2) = new_pipe w1;
         (s2c, w3) = new_pipe w2;
         (server_end, client_end) = tcp_ends addr client_addr c2s s2c
     in case reg_send listener_tx (server_end, client_addr) (tcp_reg w3) of
          None \<Rightarrow> (Err (err ConnectionRefused ''connect''), drop_stream client_end (drop_stream server_end w3))
        | Some r \<Rightarrow> (Ok client_end, w3\<lparr>tcp_reg := r\<rparr>))"

definition tcp_connect :: "SocketAddr \<Rightarrow> Net \<Rightarrow> MockTcpStream result \<times> Net" where
  "tcp_connect addr w =
    (case reg_map (tcp_reg w) addr of
       None \<Rightarrow> (Err (err ConnectionRefused ''connect''), w)
     | Some listener_tx \<Rightarrow> tcp_connect_to listener_tx addr w)"

definition choose_addr :: "SocketAddr \<Rightarrow> Net \<Rightarrow> SocketAddr \<times> Net" where
  "choose_addr addr w =
    (if sa_port addr = 0
     then (let (port, w1) = next_ephemeral_port w in (socket_addr (sa_ip addr) port, w1))
     else (addr, w))"

definition tcp_listen :: "SocketAddr \<Rightarrow> Net \<Rightarrow> MockTcpListener result \<times> Net" where
  "tcp_listen addr0 w0 =
    (let (addr, w) = choose_addr addr0 w0 in
     case reg_bind addr (tcp_reg w) of
       None \<Rightarrow> (Err (err AddrInUse ''listen''), w)
     | Some (rx, r) \<Rightarrow> (Ok \<lparr>tl_addr = addr, tl_rx = rx\<rparr>, w\<lparr>tcp_reg := r\<rparr>))"

definition unix_ends :: "string \<Rightarrow> nat \<Rightarrow> nat \<Rightarrow> MockUnixStream \<times> MockUnixStream" where
  "unix_ends path c2s s2c =
    (\<lparr>st_tx = s2c, st_rx = c2s, st_local = Some path, st_peer = None, read_buf = [], read_pos = 0\<rparr>,
     \<lparr>st_tx = c2s, st_rx = s2c, st_local = None, st_peer = Some path, read_buf = [], read_pos = 0\<rparr>)"

definition unix_connect_to :: "nat \<Rightarrow> string \<Rightarrow> Net \<Rightarrow> MockUnixStream result \<times> Net" where
  "unix_connect_to listener_tx path w =
    (let (c2s, w1) = new_pipe w;
         (s2c, w2) = new_pipe w1;
         (server_end, client_end) = unix_ends path c2s s2c
     in case reg_send listener_tx (server_end, None) (unix_reg w2) of
          None \<Rightarrow> (Err (err ConnectionRefused ''connect''), drop_stream client_end (drop_stream server_end w2))
        | Some r \<Rightarrow> (Ok client_end, w2\<lparr>unix_reg := r\<rparr>))"

definition unix_connect :: "string \<Rightarrow> Net \<Rightarrow> MockUnixStream result \<times> Net" where
  "unix_connect path w =
    (case reg_map (unix_reg w) (path_components path) of
       None \<Rightarrow> (Err (err ConnectionRefused ''connect''), w)
     | Some listener_tx \<Rightarrow> unix_connect_to listener_tx path w)"

definition unix_listen :: "string \<Rightarrow> Net \<Rightarrow> MockUnixListener result \<times> Net" where
  "unix_listen path w =
    (case reg_bind (path_components path) (unix_reg w) of
       None \<Rightarrow> (Err (err AddrInUse ''listen''), w)
     | Some (rx, r) \<Rightarrow> (Ok \<lparr>ul_path = path, ul_rx = rx\<rparr>, w\<lparr>unix_reg := r\<rparr>))"

definition udp_bind :: "SocketAddr \<Rightarrow> Net \<Rightarrow> MockUdpSocket result \<times> Net" where
  "udp_bind addr0 w0 =
    (let (addr, w) = choose_addr addr0 w0 in
     case reg_bind addr (udp_reg w) of
       None \<Rightarrow> (Err (err AddrInUse ''udp_bind''), w)
     | Some (rx, r) \<Rightarrow> (Ok \<lparr>us_local = addr, us_rx = rx\<rparr>, w\<lparr>udp_reg := r\<rparr>))"

subsection \<open>Streams\<close>

text \<open>The copy out of the buffered chunk that ends both \<open>read\<close> methods.\<close>

definition serve :: "nat \<Rightarrow> ('addr, 'b) MockStream_scheme \<Rightarrow> bytes \<times> ('addr, 'b) MockStream_scheme" where
  "serve cap s =
    (let n = min cap (length (read_buf s) - read_pos s)
     in (take n (drop (read_pos s) (read_buf s)), s\<lparr>read_pos := read_pos s + n\<rparr>))"

definition recv_pipe :: "nat \<Rightarrow> Net \<Rightarrow> bytes received \<times> Net" where
  "recv_pipe i w = (case recv_chan (pipes w ! i) of (x, ch) \<Rightarrow> (x, w\<lparr>pipes := (pipes w)[i := ch]\<rparr>))"

definition tcp_read :: "nat \<Rightarrow> MockTcpStream \<Rightarrow> Net \<Rightarrow> (bytes result \<times> MockTcpStream \<times> Net) option" where
  "tcp_read cap s w =
    (if read_pos s \<ge> length (read_buf s) then
       case recv_pipe (st_rx s) w of
         (Got chunk, w1) \<Rightarrow>
           (let (bs, s1) = serve cap (s\<lparr>read_buf := chunk, read_pos := 0\<rparr>) in Some (Ok bs, s1, w1))
       | (Disconnected, w1) \<Rightarrow> Some (Ok [], s, w1)
       | (Waiting, w1) \<Rightarrow>
           (case read_timeout s of
              Some d \<Rightarrow> Some (Err (err WouldBlock ''read''), s, w1)
            | None \<Rightarrow> None)
     else let (bs, s1) = serve cap s in Some (Ok bs, s1, w))"

definition unix_read :: "nat \<Rightarrow> ('addr, 'b) MockStream_scheme \<Rightarrow> Net
    \<Rightarrow> (bytes result \<times> ('addr, 'b) MockStream_scheme \<times> Net) option" where
  "unix_read cap s w =
    (if read_pos s \<ge> length (read_buf s) then
       case recv_pipe (st_rx s) w of
         (Got chunk, w1) \<Rightarrow>
           (let (bs, s1) = serve cap (s\<lparr>read_buf := chunk, read_pos := 0\<rparr>) in Some (Ok bs, s1, w1))
       | (Disconnected, w1) \<Rightarrow> Some (Ok [], s, w1)
       | (Waiting, w1) \<Rightarrow> None
     else let (bs, s1) = serve cap s in Some (Ok bs, s1, w))"

definition stream_write :: "bytes \<Rightarrow> ('addr, 'b) MockStream_scheme \<Rightarrow> Net \<Rightarrow> nat result \<times> Net" where
  "stream_write buf s w =
    (case send_chan buf (pipes w ! st_tx s) of
       None \<Rightarrow> (Err (err BrokenPipe ''write''), w)
     | Some ch \<Rightarrow> (Ok (length buf), w\<lparr>pipes := (pipes w)[st_tx s := ch]\<rparr>))"

definition set_nodelay :: "bool \<Rightarrow> MockTcpStream \<Rightarrow> unit result" where
  "set_nodelay nodelay s = Ok ()"

definition peer_addr :: "('addr, 'b) MockStream_scheme \<Rightarrow> 'addr result" where
  "peer_addr s = Ok (st_peer s)"

definition local_addr :: "('addr, 'b) MockStream_scheme \<Rightarrow> 'addr result" where
  "local_addr s = Ok (st_local s)"

definition set_read_timeout :: "nat option \<Rightarrow> MockTcpStream \<Rightarrow> unit result \<times> MockTcpStream" where
  "set_read_timeout timeout s = (Ok (), s\<lparr>read_timeout := timeout\<rparr>)"

subsection \<open>Listeners and datagrams\<close>

definition tcp_accept :: "MockTcpListener \<Rightarrow> Net \<Rightarrow> ((MockTcpStream \<times> SocketAddr) result \<times> Net) option" where
  "tcp_accept l w =
    (case reg_recv (tl_rx l) (tcp_reg w) of
       (Got (stream, peer), r) \<Rightarrow> Some (Ok (stream, peer), w\<lparr>tcp_reg := r\<rparr>)
     | (Disconnected, r) \<Rightarrow> Some (Err (err Other ''accept''), w)
     | (Waiting, r) \<Rightarrow> None)"

text \<open>Dropping the listener drops the connections nobody accepted.\<close>

definition tcp_drop_listener :: "MockTcpListener \<Rightarrow> Net \<Rightarrow> Net" where
  "tcp_drop_listener l w =
    (let queued = ch_queue (reg_chans (tcp_reg w) ! tl_rx l)
     in fold (\<lambda>(s, _). drop_stream s) queued (w\<lparr>tcp_reg := reg_unbind (tl_addr l) (tl_rx l) (tcp_reg w)\<rparr>))"

definition unix_accept ::
    "MockUnixListener \<Rightarrow> Net \<Rightarrow> ((MockUnixStream \<times> string option) result \<times> Net) option" where
  "unix_accept l w =
    (case reg_recv (ul_rx l) (unix_reg w) of
       (Got (stream, peer), r) \<Rightarrow> Some (Ok (stream, peer), w\<lparr>unix_reg := r\<rparr>)
     | (Disconnected, r) \<Rightarrow> Some (Err (err Other ''accept''), w)
     | (Waiting, r) \<Rightarrow> None)"

definition unix_drop_listener :: "MockUnixListener \<Rightarrow> Net \<Rightarrow> Net" where
  "unix_drop_listener l w =
    (let queued = ch_queue (reg_chans (unix_reg w) ! ul_rx l)
     in fold (\<lambda>(s, _). drop_stream s) queued (w\<lparr>unix_reg := reg_unbind (path_components (ul_path l)) (ul_rx l) (unix_reg w)\<rparr>))"

definition tcp_listener_addr :: "MockTcpListener \<Rightarrow> SocketAddr result" where
  "tcp_listener_addr l = Ok (tl_addr l)"

definition unix_listener_addr :: "MockUnixListener \<Rightarrow> string option result" where
  "unix_listener_addr l = Ok (Some (ul_path l))"

definition udp_send_to :: "bytes \<Rightarrow> SocketAddr \<Rightarrow> MockUdpSocket \<Rightarrow> Net \<Rightarrow> nat result \<times> Net" where
  "udp_send_to buf addr s w =
    (case reg_map (udp_reg w) addr of
       None \<Rightarrow> (Ok (length buf), w)
     | Some tx \<Rightarrow>
        (case reg_send tx (buf, us_local s) (udp_reg w) of
           None \<Rightarrow> (Ok (length buf), w)
         | Some r \<Rightarrow> (Ok (length buf), w\<lparr>udp_reg := r\<rparr>)))"

definition udp_recv_from ::
    "nat \<Rightarrow> MockUdpSocket \<Rightarrow> Net \<Rightarrow> ((bytes \<times> SocketAddr) result \<times> Net) option" where
  "udp_recv_from cap s w =
    (case reg_recv (us_rx s) (udp_reg w) of
       (Got (data, peer), r) \<Rightarrow> Some (Ok (take (min cap (length data)) data, peer), w\<lparr>udp_reg := r\<rparr>)
     | (Disconnected, r) \<Rightarrow> Some (Err (err Other ''recv_from''), w)
     | (Waiting, r) \<Rightarrow> None)"

definition udp_local_addr :: "MockUdpSocket \<Rightarrow> SocketAddr result" where
  "udp_local_addr s = Ok (us_local s)"

definition udp_drop :: "MockUdpSocket \<Rightarrow> Net \<Rightarrow> Net" where
  "udp_drop s w = w\<lparr>udp_reg := reg_unbind (us_local s) (us_rx s) (udp_reg w)\<rparr>"

section \<open>The registry contract\<close>

text \<open>\<open>owners\<close> lists the live listeners or sockets with their channels: an address is in the
  map exactly when a live owner has it, and its channel is open at both ends.\<close>

definition chan_open :: "'m Chan list \<Rightarrow> nat \<Rightarrow> bool" where
  "chan_open cs c \<longleftrightarrow> c < length cs \<and> ch_receiver (cs ! c) \<and> 0 < ch_senders (cs ! c)"

definition reg_inv :: "('k, 'm) Registry \<Rightarrow> ('k \<times> nat) list \<Rightarrow> bool" where
  "reg_inv r owners \<longleftrightarrow>
    reg_map r = map_of owners \<and> distinct (map fst owners) \<and> distinct (map snd owners)
    \<and> (\<forall>c \<in> snd ` set owners. chan_open (reg_chans r) c)"

lemma reg_inv_owner:
  assumes "reg_inv r owners" "(k, c) \<in> set owners"
  shows "chan_open (reg_chans r) c" "reg_map r k = Some c"
  using assms by (force simp: reg_inv_def)+

lemma reg_inv_lookup: "reg_inv r owners \<Longrightarrow> reg_map r k = Some c \<longleftrightarrow> (k, c) \<in> set owners"
  by (auto simp: reg_inv_def)

lemma reg_inv_unbound: "reg_inv r owners \<Longrightarrow> reg_map r k = None \<longleftrightarrow> k \<notin> fst ` set owners"
  by (simp add: reg_inv_def map_of_eq_None_iff)

lemma reg_inv_empty [simp]: "reg_inv empty_registry []"
  by (simp add: reg_inv_def empty_registry_def)

lemma chan_open_append [simp]:
  "chan_open (cs @ [new_chan]) c \<longleftrightarrow> chan_open cs c \<or> c = length cs"
  by (auto simp: chan_open_def nth_append less_Suc_eq)

lemma reg_bind_inv:
  assumes "reg_inv r owners" "reg_bind k r = Some (c, r')"
  shows "reg_inv r' ((k, c) # owners)"
proof -
  have "length (reg_chans r) \<notin> snd ` set owners"
    using assms(1) by (auto simp: reg_inv_def chan_open_def)
  moreover have "k \<notin> fst ` set owners"
    using assms reg_inv_unbound[OF assms(1), of k] by (auto simp: reg_bind_def split: if_splits)
  ultimately show ?thesis
    using assms by (auto simp: reg_inv_def reg_bind_def split: if_splits)
qed

lemma chan_open_update:
  assumes "ch_receiver ch = ch_receiver (cs ! c)" "ch_senders ch = ch_senders (cs ! c)"
  shows "chan_open (cs[c := ch]) d \<longleftrightarrow> chan_open cs d"
  using assms by (cases "d = c") (auto simp: chan_open_def nth_list_update)

lemma reg_inv_update:
  assumes "reg_inv r owners" "ch_receiver ch = ch_receiver (reg_chans r ! c)"
    "ch_senders ch = ch_senders (reg_chans r ! c)"
  shows "reg_inv (r\<lparr>reg_chans := (reg_chans r)[c := ch]\<rparr>) owners"
  using assms by (simp add: reg_inv_def chan_open_update)

lemma reg_send_inv:
  assumes "reg_inv r owners" "reg_send c m r = Some r'"
  shows "reg_inv r' owners"
  using assms reg_inv_update[OF assms(1)]
  by (auto simp: reg_send_def send_chan_def split: if_splits)

lemma reg_send_owner:
  assumes "reg_inv r owners" "(k, c) \<in> set owners"
  shows "\<exists>r'. reg_send c m r = Some r' \<and> reg_inv r' owners"
  using reg_inv_owner(1)[OF assms] reg_inv_update[OF assms(1)] by (simp add: reg_send_def chan_open_def)

lemma reg_recv_inv:
  assumes "reg_inv r owners" "reg_recv c r = (x, r')"
  shows "reg_inv r' owners"
proof -
  have "r' = r\<lparr>reg_chans := (reg_chans r)[c := snd (recv_chan (reg_chans r ! c))]\<rparr>"
    using assms(2) by (simp add: reg_recv_def split: prod.splits)
  then show ?thesis using reg_inv_update[OF assms(1)] by simp
qed

lemma reg_recv_owner:
  assumes "reg_inv r owners" "(k, c) \<in> set owners"
  shows "fst (reg_recv c r) \<noteq> Disconnected"
  using recv_chan_live[of "reg_chans r ! c"] reg_inv_owner(1)[OF assms]
  by (cases "recv_chan (reg_chans r ! c)") (simp add: reg_recv_def chan_open_def)

lemma map_of_filter_key:
  assumes "distinct (map fst xs)" "(k, c) \<in> set xs"
  shows "map_of (filter (\<lambda>x. x \<noteq> (k, c)) xs) = (map_of xs)(k := None)"
  using assms
proof (induction xs)
  case (Cons x xs)
  show ?case
  proof (cases "x = (k, c)")
    case True
    then have "k \<notin> fst ` set xs" using Cons.prems by auto
    moreover from this have "filter (\<lambda>x. x \<noteq> (k, c)) xs = xs"
      by (intro filter_True) (auto simp: image_iff)
    ultimately show ?thesis using True by (auto simp: fun_upd_idem_iff map_of_eq_None_iff)
  next
    case False
    then have "fst x \<noteq> k" using Cons.prems by (cases x) (auto simp: image_iff)
    then show ?thesis using Cons False by (cases x) (auto simp: fun_upd_twist)
  qed
qed simp

lemma reg_unbind_inv:
  assumes "reg_inv r owners" "(k, c) \<in> set owners"
  shows "reg_inv (reg_unbind k c r) (filter (\<lambda>x. x \<noteq> (k, c)) owners)"
proof -
  have d: "distinct (map fst owners)" "distinct (map snd owners)" using assms by (auto simp: reg_inv_def)
  have "c' \<noteq> c" if "(k', c') \<in> set owners" "(k', c') \<noteq> (k, c)" for k' c'
    using d(2) that inj_onD[of snd "set owners" "(k', c')" "(k, c)"] assms(2) by (auto simp: distinct_map)
  then show ?thesis
    using assms reg_inv_owner[OF assms] map_of_filter_key[OF d(1) assms(2)] d
    by (auto simp: reg_inv_def reg_unbind_def distinct_map_filter chan_open_def)
qed

section \<open>Reachable networks\<close>

definition add_handle :: "'h result \<Rightarrow> 'h list \<Rightarrow> 'h list" where
  "add_handle r hs = (case r of Ok h \<Rightarrow> h # hs | Err _ \<Rightarrow> hs)"

lemma add_handle_simps [simp]: "add_handle (Ok h) hs = h # hs" "add_handle (Err e) hs = hs"
  by (simp_all add: add_handle_def)

text \<open>The network with its live listeners and sockets, under every operation in any order.
  The two halves of a connect are also steps of their own, so that a listener may be
  dropped between them.\<close>

inductive net_reachable ::
    "Net \<Rightarrow> MockTcpListener list \<Rightarrow> MockUnixListener list \<Rightarrow> MockUdpSocket list \<Rightarrow> bool" where
  nr_init: "net_reachable initial_net [] [] []"
| nr_tcp_listen: "net_reachable w ls us ds \<Longrightarrow> tcp_listen a w = (r, w')
    \<Longrightarrow> net_reachable w' (add_handle r ls) us ds"
| nr_tcp_connect: "net_reachable w ls us ds \<Longrightarrow> tcp_connect a w = (r, w') \<Longrightarrow> net_reachable w' ls us ds"
| nr_tcp_connect_to: "net_reachable w ls us ds \<Longrightarrow> c < length (reg_chans (tcp_reg w))
    \<Longrightarrow> tcp_connect_to c a w = (r, w') \<Longrightarrow> net_reachable w' ls us ds"
| nr_tcp_accept: "net_reachable w ls us ds \<Longrightarrow> l \<in> set ls \<Longrightarrow> tcp_accept l w = Some (r, w')
    \<Longrightarrow> net_reachable w' ls us ds"
| nr_tcp_drop: "net_reachable w ls us ds \<Longrightarrow> l \<in> set ls
    \<Longrightarrow> net_reachable (tcp_drop_listener l w) (filter (\<lambda>x. x \<noteq> l) ls) us ds"
| nr_unix_listen: "net_reachable w ls us ds \<Longrightarrow> unix_listen p w = (r, w')
    \<Longrightarrow> net_reachable w' ls (add_handle r us) ds"
| nr_unix_connect: "net_reachable w ls us ds \<Longrightarrow> unix_connect p w = (r', w') \<Longrightarrow> net_reachable w' ls us ds"
| nr_unix_connect_to: "net_reachable w ls us ds \<Longrightarrow> c < length (reg_chans (unix_reg w))
    \<Longrightarrow> unix_connect_to c p w = (r', w') \<Longrightarrow> net_reachable w' ls us ds"
| nr_unix_accept: "net_reachable w ls us ds \<Longrightarrow> u \<in> set us \<Longrightarrow> unix_accept u w = Some (r', w')
    \<Longrightarrow> net_reachable w' ls us ds"
| nr_unix_drop: "net_reachable w ls us ds \<Longrightarrow> u \<in> set us
    \<Longrightarrow> net_reachable (unix_drop_listener u w) ls (filter (\<lambda>x. x \<noteq> u) us) ds"
| nr_udp_bind: "net_reachable w ls us ds \<Longrightarrow> udp_bind a w = (r, w')
    \<Longrightarrow> net_reachable w' ls us (add_handle r ds)"
| nr_udp_send: "net_reachable w ls us ds \<Longrightarrow> d \<in> set ds \<Longrightarrow> udp_send_to buf a d w = (n, w')
    \<Longrightarrow> net_reachable w' ls us ds"
| nr_udp_recv: "net_reachable w ls us ds \<Longrightarrow> d \<in> set ds \<Longrightarrow> udp_recv_from cap d w = Some (r, w')
    \<Longrightarrow> net_reachable w' ls us ds"
| nr_udp_drop: "net_reachable w ls us ds \<Longrightarrow> d \<in> set ds
    \<Longrightarrow> net_reachable (udp_drop d w) ls us (filter (\<lambda>x. x \<noteq> d) ds)"
| nr_tcp_read: "net_reachable w ls us ds \<Longrightarrow> tcp_read cap s w = Some (r, s', w') \<Longrightarrow> net_reachable w' ls us ds"
| nr_unix_read: "net_reachable w ls us ds \<Longrightarrow> unix_read cap (t :: MockUnixStream) w = Some (r', t', w') \<Longrightarrow> net_reachable w' ls us ds"
| nr_tcp_write: "net_reachable w ls us ds \<Longrightarrow> stream_write buf (s :: MockTcpStream) w = (n, w')
    \<Longrightarrow> net_reachable w' ls us ds"
| nr_unix_write: "net_reachable w ls us ds \<Longrightarrow> stream_write buf (t :: MockUnixStream) w = (n, w')
    \<Longrightarrow> net_reachable w' ls us ds"
| nr_tcp_drop_stream: "net_reachable w ls us ds \<Longrightarrow> net_reachable (drop_stream (s :: MockTcpStream) w) ls us ds"
| nr_unix_drop_stream: "net_reachable w ls us ds \<Longrightarrow> net_reachable (drop_stream (t :: MockUnixStream) w) ls us ds"

definition tcp_owner :: "MockTcpListener \<Rightarrow> SocketAddr \<times> nat" where "tcp_owner l = (tl_addr l, tl_rx l)"
definition unix_owner :: "MockUnixListener \<Rightarrow> string list \<times> nat" where "unix_owner l = (path_components (ul_path l), ul_rx l)"
definition udp_owner :: "MockUdpSocket \<Rightarrow> SocketAddr \<times> nat" where "udp_owner d = (us_local d, us_rx d)"

definition net_inv :: "Net \<Rightarrow> MockTcpListener list \<Rightarrow> MockUnixListener list \<Rightarrow> MockUdpSocket list \<Rightarrow> bool" where
  "net_inv w ls us ds \<longleftrightarrow>
    reg_inv (tcp_reg w) (map tcp_owner ls) \<and> reg_inv (unix_reg w) (map unix_owner us)
    \<and> reg_inv (udp_reg w) (map udp_owner ds)"

lemma owner_inj [simp]:
  "tcp_owner l = tcp_owner l' \<longleftrightarrow> l = l'" "udp_owner d = udp_owner d' \<longleftrightarrow> d = d'"
  by (auto simp: tcp_owner_def udp_owner_def)

lemma filter_map_neq:
  assumes "\<And>y. y \<in> set xs \<Longrightarrow> f y = f x \<longleftrightarrow> y = x"
  shows "filter (\<lambda>y. y \<noteq> f x) (map f xs) = map f (filter (\<lambda>z. z \<noteq> x) xs)"
  using assms by (simp add: filter_map comp_def cong: filter_cong)

lemma live_unix_owner:
  assumes "reg_inv (unix_reg w) (map unix_owner us)" "u \<in> set us" "v \<in> set us"
  shows "unix_owner v = unix_owner u \<longleftrightarrow> v = u"
proof -
  have "distinct (map (\<lambda>u. snd (unix_owner u)) us)"
    using assms(1) by (simp add: reg_inv_def comp_def)
  then show ?thesis using assms(2,3) by (auto simp: distinct_map inj_on_def)
qed

text \<open>Operations that leave the registries alone.\<close>

lemma drop_stream_regs [simp]:
  "tcp_reg (drop_stream s w) = tcp_reg w" "unix_reg (drop_stream s w) = unix_reg w"
  "udp_reg (drop_stream s w) = udp_reg w"
  by (simp_all add: drop_stream_def)

lemma fold_drop_stream_regs [simp]:
  "tcp_reg (fold (\<lambda>(s, _). drop_stream s) q w) = tcp_reg w"
  "unix_reg (fold (\<lambda>(s, _). drop_stream s) q w) = unix_reg w"
  "udp_reg (fold (\<lambda>(s, _). drop_stream s) q w) = udp_reg w"
  by (induction q arbitrary: w) auto

lemma choose_addr_regs:
  assumes "choose_addr a w = (a', w')"
  shows "tcp_reg w' = tcp_reg w" "unix_reg w' = unix_reg w" "udp_reg w' = udp_reg w"
  using assms by (auto simp: choose_addr_def next_ephemeral_port_def split: if_splits)

lemma recv_pipe_regs:
  assumes "recv_pipe i w = (x, w')"
  shows "tcp_reg w' = tcp_reg w" "unix_reg w' = unix_reg w" "udp_reg w' = udp_reg w"
  using assms by (auto simp: recv_pipe_def split: prod.splits)

lemma read_regs:
  "tcp_read cap s w = Some (r, s', w') \<Longrightarrow> net_inv w' ls us ds = net_inv w ls us ds"
  "unix_read cap t w = Some (r', t', w') \<Longrightarrow> net_inv w' ls us ds = net_inv w ls us ds"
  by (auto simp: tcp_read_def unix_read_def net_inv_def dest: recv_pipe_regs
      split: if_splits prod.splits received.splits option.splits)

lemma stream_write_regs:
  "stream_write buf s w = (n, w') \<Longrightarrow> net_inv w' ls us ds = net_inv w ls us ds"
  by (auto simp: stream_write_def net_inv_def split: option.splits)

lemma tcp_connect_to_inv:
  assumes "net_inv w ls us ds" "tcp_connect_to c a w = (r, w')"
  shows "net_inv w' ls us ds"
  using assms by (auto simp: tcp_connect_to_def net_inv_def Let_def next_ephemeral_port_def new_pipe_def
      intro: reg_send_inv split: option.splits prod.splits)

lemma unix_connect_to_inv:
  assumes "net_inv w ls us ds" "unix_connect_to c p w = (r, w')"
  shows "net_inv w' ls us ds"
  using assms by (auto simp: unix_connect_to_def net_inv_def Let_def new_pipe_def
      intro: reg_send_inv split: option.splits prod.splits)

lemma tcp_listen_inv:
  assumes "net_inv w ls us ds" "tcp_listen a w = (r, w')"
  shows "net_inv w' (add_handle r ls) us ds"
proof -
  obtain a1 w1 where "choose_addr a w = (a1, w1)" by fastforce
  then show ?thesis
    using assms choose_addr_regs[OF \<open>choose_addr a w = (a1, w1)\<close>] reg_bind_inv[of "tcp_reg w" _ a1]
    by (auto simp: tcp_listen_def net_inv_def tcp_owner_def split: option.splits prod.splits)
qed

lemma udp_bind_inv:
  assumes "net_inv w ls us ds" "udp_bind a w = (r, w')"
  shows "net_inv w' ls us (add_handle r ds)"
proof -
  obtain a1 w1 where "choose_addr a w = (a1, w1)" by fastforce
  then show ?thesis
    using assms choose_addr_regs[OF \<open>choose_addr a w = (a1, w1)\<close>] reg_bind_inv[of "udp_reg w" _ a1]
    by (auto simp: udp_bind_def net_inv_def udp_owner_def split: option.splits prod.splits)
qed

lemma unix_listen_inv:
  assumes "net_inv w ls us ds" "unix_listen p w = (r, w')"
  shows "net_inv w' ls (add_handle r us) ds"
  using assms reg_bind_inv[of "unix_reg w" _ "path_components p"]
  by (auto simp: unix_listen_def net_inv_def unix_owner_def split: option.splits prod.splits)

lemma drop_listener_inv:
  assumes "net_inv w ls us ds"
  shows "l \<in> set ls \<Longrightarrow> net_inv (tcp_drop_listener l w) (filter (\<lambda>x. x \<noteq> l) ls) us ds"
    and "u \<in> set us \<Longrightarrow> net_inv (unix_drop_listener u w) ls (filter (\<lambda>x. x \<noteq> u) us) ds"
    and "d \<in> set ds \<Longrightarrow> net_inv (udp_drop d w) ls us (filter (\<lambda>x. x \<noteq> d) ds)"
proof -
  note unbind = reg_unbind_inv[where k = "fst o1" and c = "snd o1" for o1, unfolded prod.collapse]
  show "net_inv (tcp_drop_listener l w) (filter (\<lambda>x. x \<noteq> l) ls) us ds" if "l \<in> set ls"
    using unbind[of "tcp_reg w" "map tcp_owner ls" "tcp_owner l"] assms that
    by (simp add: net_inv_def tcp_drop_listener_def Let_def filter_map_neq) (simp add: tcp_owner_def)
  show "net_inv (unix_drop_listener u w) ls (filter (\<lambda>x. x \<noteq> u) us) ds" if "u \<in> set us"
    using unbind[of "unix_reg w" "map unix_owner us" "unix_owner u"] assms that live_unix_owner[of w us u]
    by (simp add: net_inv_def unix_drop_listener_def Let_def filter_map_neq) (simp add: unix_owner_def)
  show "net_inv (udp_drop d w) ls us (filter (\<lambda>x. x \<noteq> d) ds)" if "d \<in> set ds"
    using unbind[of "udp_reg w" "map udp_owner ds" "udp_owner d"] assms that
    by (simp add: net_inv_def udp_drop_def filter_map_neq) (simp add: udp_owner_def)
qed

lemma net_reachable_inv: "net_reachable w ls us ds \<Longrightarrow> net_inv w ls us ds"
proof (induction rule: net_reachable.induct)
  case nr_init
  then show ?case by (simp add: net_inv_def initial_net_def)
next
  case (nr_tcp_connect w ls us ds a r w')
  then show ?case by (auto simp: tcp_connect_def dest: tcp_connect_to_inv split: option.splits)
next
  case (nr_unix_connect w ls us ds p r' w')
  then show ?case by (auto simp: unix_connect_def dest: unix_connect_to_inv split: option.splits)
next
  case (nr_tcp_accept w ls us ds l r w')
  then show ?case by (auto simp: tcp_accept_def net_inv_def dest: reg_recv_inv split: prod.splits received.splits)
next
  case (nr_unix_accept w ls us ds u r' w')
  then show ?case by (auto simp: unix_accept_def net_inv_def dest: reg_recv_inv split: prod.splits received.splits)
next
  case (nr_udp_recv w ls us ds d cap r w')
  then show ?case by (auto simp: udp_recv_from_def net_inv_def dest: reg_recv_inv split: prod.splits received.splits)
next
  case (nr_udp_send w ls us ds d buf a n w')
  then show ?case by (auto simp: udp_send_to_def net_inv_def dest: reg_send_inv split: option.splits)
next
  case (nr_tcp_drop_stream w ls us ds s)
  then show ?case by (simp add: net_inv_def)
next
  case (nr_unix_drop_stream w ls us ds s)
  then show ?case by (simp add: net_inv_def)
qed (blast intro: tcp_connect_to_inv unix_connect_to_inv tcp_listen_inv unix_listen_inv udp_bind_inv
    drop_listener_inv read_regs[THEN iffD2] stream_write_regs[THEN iffD2])+

section \<open>Connected pairs\<close>

text \<open>The two ends of a connection and the network.  \<open>True\<close> is the first end.\<close>

type_synonym ('a, 'b) pair = "('a, 'b) MockStream_scheme \<times> ('a, 'b) MockStream_scheme \<times> Net"
type_synonym tcp_pair = "MockTcpStream \<times> MockTcpStream \<times> Net"

definition in_flight :: "('a, 'b) MockStream_scheme \<Rightarrow> Net \<Rightarrow> bytes" where
  "in_flight e w = drop (read_pos e) (read_buf e) @ concat (ch_queue (pipes w ! st_rx e))"

definition receiving :: "('a, 'b) MockStream_scheme \<Rightarrow> ('a, 'b) MockStream_scheme \<Rightarrow> Net \<Rightarrow> bool" where
  "receiving e sender w \<longleftrightarrow>
    st_tx sender = st_rx e \<and> chan_open (pipes w) (st_rx e) \<and> read_pos e \<le> length (read_buf e)"

definition connected :: "('a, 'b) pair \<Rightarrow> bool" where
  "connected = (\<lambda>(a, b, w). receiving a b w \<and> receiving b a w \<and> st_rx a \<noteq> st_rx b)"

definition pending :: "bool \<Rightarrow> ('a, 'b) pair \<Rightarrow> bytes" where
  "pending x = (\<lambda>(a, b, w). in_flight (if x then a else b) w)"

definition unread :: "bool \<Rightarrow> ('a, 'b) pair \<Rightarrow> nat" where
  "unread x = (\<lambda>(a, b, w). length (in_flight (if x then a else b) w) + length (ch_queue (pipes w ! st_rx (if x then a else b))))"

definition pair_write :: "bool \<Rightarrow> bytes \<Rightarrow> ('a, 'b) pair \<Rightarrow> ('a, 'b) pair option" where
  "pair_write x bs = (\<lambda>(a, b, w). case stream_write bs (if x then a else b) w of
     (Ok n, w') \<Rightarrow> if n = length bs then Some (a, b, w') else None
   | (Err e, w') \<Rightarrow> None)"

text \<open>The outcome of a read at one end: bytes, a wait, or (\<open>Disconnected\<close>) an error.\<close>

definition outcome_at :: "bool \<Rightarrow> ('a, 'b) pair \<Rightarrow> (bytes result \<times> ('a, 'b) MockStream_scheme \<times> Net) option
    \<Rightarrow> (bytes \<times> ('a, 'b) pair) received" where
  "outcome_at x = (\<lambda>(a, b, _) r. case r of
     None \<Rightarrow> Waiting
   | Some (Ok bs, e, w) \<Rightarrow> Got (bs, if x then (e, b, w) else (a, e, w))
   | Some (Err _, e, w) \<Rightarrow> Disconnected)"

definition unix_pair_read :: "bool \<Rightarrow> nat \<Rightarrow> ('a, 'b) pair \<Rightarrow> (bytes \<times> ('a, 'b) pair) received" where
  "unix_pair_read x n = (\<lambda>(a, b, w). outcome_at x (a, b, w) (unix_read n (if x then a else b) w))"

definition tcp_pair_read :: "bool \<Rightarrow> nat \<Rightarrow> tcp_pair \<Rightarrow> (bytes \<times> tcp_pair) received" where
  "tcp_pair_read x n = (\<lambda>(a, b, w). outcome_at x (a, b, w) (tcp_read n (if x then a else b) w))"

definition tcp_connected :: "tcp_pair \<Rightarrow> bool" where
  "tcp_connected = (\<lambda>(a, b, w). connected (a, b, w) \<and> read_timeout a = None \<and> read_timeout b = None)"

text \<open>One read at an end that has an open sender, with what it changes.\<close>

lemma serve_eq:
  assumes "read_pos s \<le> length (read_buf s)"
  obtains n where "serve cap s = (take n (drop (read_pos s) (read_buf s)), s\<lparr>read_pos := read_pos s + n\<rparr>)"
    "n \<le> cap" "read_pos s + n \<le> length (read_buf s)" "0 < cap \<Longrightarrow> read_pos s < length (read_buf s) \<Longrightarrow> 0 < n"
  using assms by (auto simp: serve_def Let_def)

lemma unix_read_step:
  assumes "receiving e sender w"
  shows "case unix_read n e w of
      None \<Rightarrow> in_flight e w = []
    | Some (r, e', w') \<Rightarrow> \<exists>bs. r = Ok bs \<and> length bs \<le> n \<and> in_flight e w = bs @ in_flight e' w'
        \<and> receiving e' sender w' \<and> st_rx e' = st_rx e \<and> st_tx e' = st_tx e
        \<and> (\<exists>q. pipes w' = (pipes w)[st_rx e := (pipes w ! st_rx e)\<lparr>ch_queue := q\<rparr>])
        \<and> (0 < n \<longrightarrow> length (in_flight e' w') + length (ch_queue (pipes w' ! st_rx e))
             < length (in_flight e w) + length (ch_queue (pipes w ! st_rx e)))"
proof (cases "read_pos e < length (read_buf e)")
  case True
  obtain k where "serve n e = (take k (drop (read_pos e) (read_buf e)), e\<lparr>read_pos := read_pos e + k\<rparr>)"
      "k \<le> n" "read_pos e + k \<le> length (read_buf e)" "0 < n \<Longrightarrow> 0 < k"
    using serve_eq[of e n] True by auto
  moreover have "drop (read_pos e) (read_buf e) = take k (drop (read_pos e) (read_buf e)) @ drop (read_pos e + k) (read_buf e)"
    using append_take_drop_id[of k "drop (read_pos e) (read_buf e)"] by (simp add: add.commute)
  moreover have "pipes w = (pipes w)[st_rx e := (pipes w ! st_rx e)\<lparr>ch_queue := ch_queue (pipes w ! st_rx e)\<rparr>]"
    by simp
  ultimately show ?thesis using assms True
    by (auto simp: unix_read_def receiving_def in_flight_def Let_def intro!: exI[of _ "ch_queue (pipes w ! st_rx e)"])
next
  case False
  note open' = assms[unfolded receiving_def chan_open_def]
  show ?thesis
  proof (cases "ch_queue (pipes w ! st_rx e)")
    case Nil
    then show ?thesis using False open' by (auto simp: unix_read_def recv_pipe_def recv_chan_def in_flight_def)
  next
    case (Cons chunk q)
    let ?e = "e\<lparr>read_buf := chunk, read_pos := 0\<rparr>"
    have r: "recv_pipe (st_rx e) w = (Got chunk, w\<lparr>pipes := (pipes w)[st_rx e := (pipes w ! st_rx e)\<lparr>ch_queue := q\<rparr>]\<rparr>)"
      using Cons by (simp add: recv_pipe_def recv_chan_def)
    obtain k where k: "serve n ?e = (take k chunk, e\<lparr>read_buf := chunk, read_pos := k\<rparr>)" "k \<le> n" "k \<le> length chunk"
      using serve_eq[of ?e n] by auto
    then show ?thesis using open' False Cons r
      by (auto simp: unix_read_def receiving_def in_flight_def chan_open_def simp flip: append_assoc)
  qed
qed

text \<open>Without a read timeout the two \<open>read\<close> methods are the same.\<close>

lemma tcp_read_no_timeout: "read_timeout s = None \<Longrightarrow> tcp_read cap s w = unix_read cap s w"
  by (simp add: tcp_read_def unix_read_def split: received.splits prod.splits)

lemma unix_read_timeout:
  "unix_read cap s w = Some (r, s', w') \<Longrightarrow> read_timeout s' = read_timeout (s :: MockTcpStream)"
  by (auto simp: unix_read_def serve_def Let_def split: if_splits prod.splits received.splits)

lemma pair_write_ok:
  assumes "connected s"
  shows "\<exists>s'. pair_write x bs s = Some s' \<and> connected s' \<and> pending (\<not> x) s' = pending (\<not> x) s @ bs
    \<and> pending x s' = pending x s \<and> fst s' = fst s \<and> fst (snd s') = fst (snd s)"
proof -
  obtain a b w where s: "s = (a, b, w)" by (cases s)
  then show ?thesis using assms
    by (cases x) (auto simp: connected_def receiving_def pending_def in_flight_def pair_write_def stream_write_def
        chan_open_def nth_list_update)
qed

lemma unix_pair_read_ok:
  assumes "connected s"
  shows "case unix_pair_read x n s of
      Got (bs, s') \<Rightarrow> connected s' \<and> length bs \<le> n \<and> pending x s = bs @ pending x s'
        \<and> pending (\<not> x) s' = pending (\<not> x) s \<and> (0 < n \<longrightarrow> unread x s' < unread x s)
    | Waiting \<Rightarrow> pending x s = []
    | Disconnected \<Rightarrow> False"
proof -
  obtain a b w where s: "s = (a, b, w)" by (cases s)
  let ?e = "if x then a else b" and ?f = "if x then b else a"
  have e: "receiving ?e ?f w" "receiving ?f ?e w" "st_rx ?e \<noteq> st_rx ?f"
    using assms by (auto simp: s connected_def)
  show ?thesis
  proof (cases "unix_read n ?e w")
    case None
    then show ?thesis using unix_read_step[OF e(1), of n]
      by (simp add: s unix_pair_read_def outcome_at_def pending_def)
  next
    case (Some t)
    obtain r e' w' where t: "t = (r, e', w')" by (cases t)
    obtain bs q where r: "r = Ok bs" "length bs \<le> n" "in_flight ?e w = bs @ in_flight e' w'"
        "receiving e' ?f w'" "st_rx e' = st_rx ?e" "st_tx e' = st_tx ?e"
        "pipes w' = (pipes w)[st_rx ?e := (pipes w ! st_rx ?e)\<lparr>ch_queue := q\<rparr>]"
        "0 < n \<Longrightarrow> length (in_flight e' w') + length (ch_queue (pipes w' ! st_rx ?e))
           < length (in_flight ?e w) + length (ch_queue (pipes w ! st_rx ?e))"
      using unix_read_step[OF e(1), of n] Some t by auto
    have other: "in_flight ?f w' = in_flight ?f w" "receiving ?f e' w'"
      using e r(5-7) by (auto simp: in_flight_def receiving_def chan_open_def)
    show ?thesis using Some t r other e(3)
      by (cases x) (auto simp: s unix_pair_read_def outcome_at_def pending_def unread_def connected_def)
  qed
qed

lemma tcp_pair_read_eq: "tcp_connected s \<Longrightarrow> tcp_pair_read x n s = unix_pair_read x n s"
  by (cases s) (auto simp: tcp_connected_def tcp_pair_read_def unix_pair_read_def tcp_read_no_timeout)

lemma unix_pair_read_timeout:
  assumes "tcp_connected s" "unix_pair_read x n s = Got (bs, s')" "connected s'"
  shows "tcp_connected s'"
proof -
  obtain a b w where s: "s = (a, b, w)" by (cases s)
  then obtain e w' where "unix_read n (if x then a else b) w = Some (Ok bs, e, w')"
      "s' = (if x then (e, b, w') else (a, e, w'))"
    using assms(2) by (auto simp: unix_pair_read_def outcome_at_def split: option.splits prod.splits sum.splits)
  then show ?thesis using assms(1,3) s unix_read_timeout[of n "if x then a else b" w "Ok bs" e w']
    by (auto simp: tcp_connected_def)
qed

interpretation unix_pair: byte_stream unix_pair_read pair_write pending unread connected
proof
  fix s s' :: "('a, 'b) pair" and x n bs
  assume con: "connected s"
  note read = unix_pair_read_ok[OF con, where x = x and n = n]
  show "\<exists>s'. pair_write x bs s = Some s' \<and> connected s' \<and> pending (\<not> x) s' = pending (\<not> x) s @ bs \<and> pending x s' = pending x s"
    using pair_write_ok[OF con] by blast
  show "connected s' \<and> length bs \<le> n \<and> pending x s = bs @ pending x s' \<and> pending (\<not> x) s' = pending (\<not> x) s
      \<and> (0 < n \<longrightarrow> unread x s' < unread x s)" if "unix_pair_read x n s = Got (bs, s')"
    using that read by simp
  show "pending x s = []" if "unix_pair_read x n s = Waiting" using that read by simp
  show "unix_pair_read x n s \<noteq> Disconnected" using read by auto
qed

interpretation tcp_pair: byte_stream tcp_pair_read pair_write pending unread tcp_connected
proof
  fix s s' :: tcp_pair and x n bs
  assume c: "tcp_connected s"
  then have con: "connected s" by (cases s) (simp add: tcp_connected_def)
  note read = unix_pair_read_ok[OF con, where x = x and n = n]
  show "\<exists>s'. pair_write x bs s = Some s' \<and> tcp_connected s' \<and> pending (\<not> x) s' = pending (\<not> x) s @ bs \<and> pending x s' = pending x s"
    using pair_write_ok[OF con, of x bs] c by (cases s) (auto simp: tcp_connected_def)
  show "tcp_connected s' \<and> length bs \<le> n \<and> pending x s = bs @ pending x s' \<and> pending (\<not> x) s' = pending (\<not> x) s
      \<and> (0 < n \<longrightarrow> unread x s' < unread x s)" if "tcp_pair_read x n s = Got (bs, s')"
    using that read unix_pair_read_timeout[OF c, of x n bs s'] by (simp add: tcp_pair_read_eq[OF c])
  show "pending x s = []" if "tcp_pair_read x n s = Waiting"
    using that read by (simp add: tcp_pair_read_eq[OF c])
  show "tcp_pair_read x n s \<noteq> Disconnected"
    using read by (auto simp: tcp_pair_read_eq[OF c])
qed

section \<open>A new connection\<close>

lemma tcp_connect_accept:
  assumes inv: "net_inv w ls us ds" and l: "l \<in> set ls"
    and empty: "ch_queue (reg_chans (tcp_reg w) ! tl_rx l) = []"
    and con: "tcp_connect (tl_addr l) w = (r, w1)"
  shows "\<exists>c s w2. r = Ok c \<and> tcp_accept l w1 = Some (Ok (s, st_local c), w2)
    \<and> st_local c = socket_addr LOCALHOST (next_port w) \<and> st_peer c = tl_addr l
    \<and> st_local s = tl_addr l \<and> st_peer s = st_local c
    \<and> tcp_connected (c, s, w2) \<and> (\<forall>x. pending x (c, s, w2) = [])"
proof -
  have "reg_inv (tcp_reg w) (map tcp_owner ls)" "(tl_addr l, tl_rx l) \<in> set (map tcp_owner ls)"
    using inv l by (auto simp: net_inv_def tcp_owner_def)
  note opn = reg_inv_owner[OF this]
  then have "ch_receiver (reg_chans (tcp_reg w) ! tl_rx l)" "tl_rx l < length (reg_chans (tcp_reg w))"
    by (simp_all add: chan_open_def)
  then show ?thesis using con opn(2) empty
    by (auto simp: tcp_connect_def tcp_connect_to_def Let_def next_ephemeral_port_def new_pipe_def
        reg_send_def tcp_ends_def tcp_accept_def reg_recv_def recv_chan_def tcp_connected_def connected_def
        pending_def receiving_def in_flight_def chan_open_def nth_append)
qed

lemma owners_fst [simp]:
  "fst ` tcp_owner ` L = tl_addr ` L" "fst ` unix_owner ` U = (\<lambda>u. path_components (ul_path u)) ` U" "fst ` udp_owner ` D = us_local ` D"
  by (auto simp: tcp_owner_def unix_owner_def udp_owner_def image_image)

lemma tcp_connect_outcome:
  assumes "net_inv w ls us ds"
  shows "case fst (tcp_connect a w) of Ok c \<Rightarrow> a \<in> tl_addr ` set ls
    | Err e \<Rightarrow> a \<notin> tl_addr ` set ls \<and> err_kind e = ConnectionRefused"
proof -
  have inv: "reg_inv (tcp_reg w) (map tcp_owner ls)" using assms by (simp add: net_inv_def)
  show ?thesis
  proof (cases "reg_map (tcp_reg w) a")
    case None
    then show ?thesis using reg_inv_unbound[OF inv, of a] by (simp add: tcp_connect_def err_def)
  next
    case (Some c)
    then have o: "(a, c) \<in> set (map tcp_owner ls)" using reg_inv_lookup[OF inv] by blast
    then have "a \<in> tl_addr ` set ls" by (auto simp: tcp_owner_def)
    moreover have "is_ok (fst (tcp_connect_to c a w))"
      using reg_inv_owner(1)[OF inv o]
      by (simp add: tcp_connect_to_def Let_def next_ephemeral_port_def new_pipe_def tcp_ends_def reg_send_def
          chan_open_def)
    ultimately show ?thesis using Some by (auto simp: tcp_connect_def is_ok_iff)
  qed
qed

lemma unix_connect_outcome:
  assumes "net_inv w ls us ds"
  shows "case fst (unix_connect p w) of Ok c \<Rightarrow> path_components p \<in> (\<lambda>u. path_components (ul_path u)) ` set us
    | Err e \<Rightarrow> path_components p \<notin> (\<lambda>u. path_components (ul_path u)) ` set us \<and> err_kind e = ConnectionRefused"
proof -
  have inv: "reg_inv (unix_reg w) (map unix_owner us)" using assms by (simp add: net_inv_def)
  show ?thesis
  proof (cases "reg_map (unix_reg w) (path_components p)")
    case None
    then show ?thesis using reg_inv_unbound[OF inv, of "path_components p"] by (simp add: unix_connect_def err_def)
  next
    case (Some c)
    then have o: "(path_components p, c) \<in> set (map unix_owner us)" using reg_inv_lookup[OF inv] by blast
    then have "path_components p \<in> (\<lambda>u. path_components (ul_path u)) ` set us" by (auto simp: unix_owner_def)
    moreover have "is_ok (fst (unix_connect_to c p w))"
      using reg_inv_owner(1)[OF inv o]
      by (simp add: unix_connect_to_def Let_def new_pipe_def unix_ends_def reg_send_def chan_open_def)
    ultimately show ?thesis using Some by (auto simp: unix_connect_def is_ok_iff)
  qed
qed

lemma bind_outcome:
  assumes "net_inv w ls us ds"
  shows "sa_port a \<noteq> 0 \<Longrightarrow> case fst (tcp_listen a w) of Ok l \<Rightarrow> a \<notin> tl_addr ` set ls
      | Err e \<Rightarrow> a \<in> tl_addr ` set ls \<and> err_kind e = AddrInUse"
    and "case fst (unix_listen p w) of Ok l \<Rightarrow> path_components p \<notin> (\<lambda>u. path_components (ul_path u)) ` set us
      | Err e \<Rightarrow> path_components p \<in> (\<lambda>u. path_components (ul_path u)) ` set us \<and> err_kind e = AddrInUse"
    and "sa_port a \<noteq> 0 \<Longrightarrow> case fst (udp_bind a w) of Ok d \<Rightarrow> a \<notin> us_local ` set ds
      | Err e \<Rightarrow> a \<in> us_local ` set ds \<and> err_kind e = AddrInUse"
  using assms
    reg_inv_unbound[of "tcp_reg w" "map tcp_owner ls" a] reg_inv_unbound[of "unix_reg w" "map unix_owner us" "path_components p"]
    reg_inv_unbound[of "udp_reg w" "map udp_owner ds" a]
  by (auto simp: net_inv_def tcp_listen_def unix_listen_def udp_bind_def choose_addr_def reg_bind_def err_def)

lemma accept_outcome:
  assumes "net_inv w ls us ds"
  shows "l \<in> set ls \<Longrightarrow> tcp_accept l w = None \<or> (\<exists>x w'. tcp_accept l w = Some (Ok x, w'))"
    and "u \<in> set us \<Longrightarrow> unix_accept u w = None \<or> (\<exists>x w'. unix_accept u w = Some (Ok x, w'))"
    and "d \<in> set ds \<Longrightarrow> udp_recv_from n d w = None \<or> (\<exists>x w'. udp_recv_from n d w = Some (Ok x, w'))"
proof -
  show "tcp_accept l w = None \<or> (\<exists>x w'. tcp_accept l w = Some (Ok x, w'))" if "l \<in> set ls"
    using reg_recv_owner[of "tcp_reg w" "map tcp_owner ls" "tl_addr l" "tl_rx l"] assms that
    by (auto simp: net_inv_def tcp_owner_def tcp_accept_def split: prod.splits received.splits)
  show "unix_accept u w = None \<or> (\<exists>x w'. unix_accept u w = Some (Ok x, w'))" if "u \<in> set us"
    using reg_recv_owner[of "unix_reg w" "map unix_owner us" "path_components (ul_path u)" "ul_rx u"] assms that
    by (auto simp: net_inv_def unix_owner_def unix_accept_def split: prod.splits received.splits)
  show "udp_recv_from n d w = None \<or> (\<exists>x w'. udp_recv_from n d w = Some (Ok x, w'))" if "d \<in> set ds"
    using reg_recv_owner[of "udp_reg w" "map udp_owner ds" "us_local d" "us_rx d"] assms that
    by (auto simp: net_inv_def udp_owner_def udp_recv_from_def split: prod.splits received.splits)
qed

text \<open>The network after \<open>n\<close> ports were allocated.\<close>

primrec alloc_ports :: "nat \<Rightarrow> Net" where
  "alloc_ports 0 = initial_net"
| "alloc_ports (Suc n) = snd (next_ephemeral_port (alloc_ports n))"

lemma alloc_ports_eq: "alloc_ports n = initial_net\<lparr>next_port := 40000 + of_nat n\<rparr>"
  by (induction n) (simp_all add: next_ephemeral_port_def initial_net_def)

section \<open>Properties\<close>

text \<open>C17.  The registries agree with the live listeners and sockets in every reachable
  network: a connect succeeds exactly when a live listener has the address and is refused
  otherwise; binding fails with \<open>AddrInUse\<close> exactly when a live owner has the address; and
  an accept or a receive on a live handle waits or delivers, it never fails.\<close>

theorem mock_net_registries_agree:
  assumes "net_reachable w ls us ds"
  shows "(case fst (tcp_connect a w) of Ok c \<Rightarrow> a \<in> tl_addr ` set ls
           | Err e \<Rightarrow> a \<notin> tl_addr ` set ls \<and> err_kind e = ConnectionRefused)
    \<and> (case fst (unix_connect p w) of Ok c \<Rightarrow> path_components p \<in> (\<lambda>u. path_components (ul_path u)) ` set us
           | Err e \<Rightarrow> path_components p \<notin> (\<lambda>u. path_components (ul_path u)) ` set us \<and> err_kind e = ConnectionRefused)
    \<and> (sa_port a \<noteq> 0 \<longrightarrow> (case fst (tcp_listen a w) of Ok l \<Rightarrow> a \<notin> tl_addr ` set ls
           | Err e \<Rightarrow> a \<in> tl_addr ` set ls \<and> err_kind e = AddrInUse))
    \<and> (case fst (unix_listen p w) of Ok l \<Rightarrow> path_components p \<notin> (\<lambda>u. path_components (ul_path u)) ` set us
           | Err e \<Rightarrow> path_components p \<in> (\<lambda>u. path_components (ul_path u)) ` set us \<and> err_kind e = AddrInUse)
    \<and> (sa_port a \<noteq> 0 \<longrightarrow> (case fst (udp_bind a w) of Ok d \<Rightarrow> a \<notin> us_local ` set ds
           | Err e \<Rightarrow> a \<in> us_local ` set ds \<and> err_kind e = AddrInUse))
    \<and> (\<forall>l \<in> set ls. tcp_accept l w = None \<or> (\<exists>x w'. tcp_accept l w = Some (Ok x, w')))
    \<and> (\<forall>u \<in> set us. unix_accept u w = None \<or> (\<exists>x w'. unix_accept u w = Some (Ok x, w')))
    \<and> (\<forall>d \<in> set ds. udp_recv_from n d w = None \<or> (\<exists>x w'. udp_recv_from n d w = Some (Ok x, w')))"
  using net_reachable_inv[OF assms]
  by (intro conjI ballI impI tcp_connect_outcome unix_connect_outcome bind_outcome accept_outcome)

theorem mock_net_registries_agree_witness:
  "\<exists>l w. tcp_listen (SocketAddrV4 0 80) initial_net = (Ok l, w) \<and> is_ok (fst (tcp_connect (SocketAddrV4 0 80) w))
     \<and> \<not> is_ok (fst (tcp_connect (SocketAddrV4 0 81) w))"
proof -
  let ?l = "\<lparr>tl_addr = SocketAddrV4 0 80, tl_rx = 0\<rparr>"
  obtain w where w: "tcp_listen (SocketAddrV4 0 80) initial_net = (Ok ?l, w)"
    by (simp add: tcp_listen_def choose_addr_def reg_bind_def initial_net_def empty_registry_def)
  then have "net_reachable w [?l] [] []" using nr_tcp_listen[OF nr_init w] by simp
  from mock_net_registries_agree[OF this, of "SocketAddrV4 0 80"]
    mock_net_registries_agree[OF this, of "SocketAddrV4 0 81"]
  show ?thesis using w by (auto simp: is_ok_iff split: sum.splits)
qed



text \<open>An empty write is delivered as a read of no bytes, which a reader takes for the end of the stream.\<close>

lemma empty_write_reads_as_end:
  assumes "receiving b a w" "in_flight b w = []" "ch_queue (pipes w ! st_rx b) = []"
  shows "\<exists>w1 b' w2. stream_write [] a w = (Ok 0, w1) \<and> unix_read n b w1 = Some (Ok [], b', w2)"
  using assms
  by (auto simp: receiving_def chan_open_def in_flight_def stream_write_def unix_read_def recv_pipe_def recv_chan_def
      serve_def Let_def)

text \<open>The ephemeral port counter wraps: its \<open>n\<close>-th port is \<open>40000 + n\<close> modulo
  \<open>2^16\<close>, never zero for the first 25536 allocations, and zero at the next one, so that a
  listener asked for an ephemeral port is then bound to port 0.\<close>

theorem ephemeral_port_wraps:
  "unat (fst (next_ephemeral_port (alloc_ports n))) = (40000 + n) mod 2 ^ 16
    \<and> (fst (next_ephemeral_port (alloc_ports n)) = 0 \<longleftrightarrow> (n + 40000) mod 2 ^ 16 = 0)
    \<and> fst (tcp_listen (SocketAddrV4 0 0) (alloc_ports 25536)) = Ok \<lparr>tl_addr = SocketAddrV4 0 0, tl_rx = 0\<rparr>"
proof -
  have fst: "fst (next_ephemeral_port (alloc_ports n)) = 40000 + of_nat n" for n
    by (simp add: next_ephemeral_port_def alloc_ports_eq)
  have unat: "unat (fst (next_ephemeral_port (alloc_ports n))) = (40000 + n) mod 2 ^ 16"
    by (simp add: fst unat_word_ariths unat_of_nat mod_simps)
  moreover have "fst (next_ephemeral_port (alloc_ports n)) = 0 \<longleftrightarrow> (n + 40000) mod 2 ^ 16 = 0"
    using unat unat_eq_zero[of "fst (next_ephemeral_port (alloc_ports n))"] by (simp add: add.commute)
  moreover have "fst (tcp_listen (SocketAddrV4 0 0) (alloc_ports 25536)) = Ok \<lparr>tl_addr = SocketAddrV4 0 0, tl_rx = 0\<rparr>"
    unfolding alloc_ports_eq
    by (simp add: tcp_listen_def choose_addr_def next_ephemeral_port_def reg_bind_def initial_net_def
        empty_registry_def)
  ultimately show ?thesis by blast
qed

end
