(* ===== verification/BTree_Map.thy ===== *)
theory BTree_Map
  imports Main "HOL-Library.Char_ord" "HOL-Library.List_Lexorder"
begin

text \<open>
  The ordered map of the standard library (\<open>BTreeMap\<close>) as the mocks use it: an
  association list in strictly increasing key order, so that iteration is in key
  order.  What its clients rely on is the locale \<open>ordered_map\<close>; strings are
  ordered by their bytes, as \<open>OsStr\<close> and \<open>str\<close> are.
\<close>

type_synonym ('k, 'v) btree = "('k \<times> 'v) list"

definition bt_get :: "('k::linorder, 'v) btree \<Rightarrow> 'k \<Rightarrow> 'v option" where
  "bt_get m k = map_of m k"

fun bt_insert :: "('k::linorder, 'v) btree \<Rightarrow> 'k \<Rightarrow> 'v \<Rightarrow> ('k, 'v) btree" where
  "bt_insert [] k v = [(k, v)]"
| "bt_insert ((k', v') # m) k v =
    (if k < k' then (k, v) # (k', v') # m
     else if k = k' then (k, v) # m
     else (k', v') # bt_insert m k v)"

definition bt_remove :: "('k::linorder, 'v) btree \<Rightarrow> 'k \<Rightarrow> ('k, 'v) btree" where
  "bt_remove m k = filter (\<lambda>(k', _). k' \<noteq> k) m"

definition bt_inv :: "('k::linorder, 'v) btree \<Rightarrow> bool" where
  "bt_inv m = sorted_wrt (<) (map fst m)"

section \<open>The interface\<close>

locale ordered_map =
  fixes empty :: "'m" and get :: "'m \<Rightarrow> 'k::linorder \<Rightarrow> 'v option"
    and insert :: "'m \<Rightarrow> 'k \<Rightarrow> 'v \<Rightarrow> 'm" and remove :: "'m \<Rightarrow> 'k \<Rightarrow> 'm"
    and keys :: "'m \<Rightarrow> 'k list" and inv :: "'m \<Rightarrow> bool"
  assumes get_empty: "get empty k = None"
    and inv_empty: "inv empty"
    and get_insert: "inv m \<Longrightarrow> get (insert m k v) = (get m)(k \<mapsto> v)"
    and inv_insert: "inv m \<Longrightarrow> inv (insert m k v)"
    and get_remove: "inv m \<Longrightarrow> get (remove m k) = (get m)(k := None)"
    and inv_remove: "inv m \<Longrightarrow> inv (remove m k)"
    and keys_dom: "inv m \<Longrightarrow> set (keys m) = dom (get m)"
    and keys_sorted: "inv m \<Longrightarrow> sorted_wrt (<) (keys m)"
begin

lemma keys_distinct: "inv m \<Longrightarrow> distinct (keys m)"
  using keys_sorted strict_sorted_iff by blast

lemma keys_canonical:
  assumes "inv m" "inv m'" "dom (get m) = dom (get m')"
  shows "keys m = keys m'"
  using assms keys_sorted keys_dom strict_sorted_equal by metis

lemma get_move:
  assumes "inv m" "get m k = Some v"
  shows "get (insert (remove m k) k' v) = (get m)(k := None, k' \<mapsto> v)"
  using assms by (simp add: get_insert get_remove inv_remove)

lemma inv_move: "inv m \<Longrightarrow> inv (insert (remove m k) k' v)"
  by (simp add: inv_insert inv_remove)

end

section \<open>The sorted list provides it\<close>

lemma bt_inv_Cons: "bt_inv ((k, v) # m) \<longleftrightarrow> bt_inv m \<and> (\<forall>x\<in>fst ` set m. k < x)"
  by (auto simp: bt_inv_def)

lemma bt_inv_Nil: "bt_inv []"
  by (simp add: bt_inv_def)

lemma bt_insert_keys: "fst ` set (bt_insert m k v) = insert k (fst ` set m)"
  by (induction m k v rule: bt_insert.induct) auto

lemma bt_inv_insert: "bt_inv m \<Longrightarrow> bt_inv (bt_insert m k v)"
  by (induction m k v rule: bt_insert.induct)
    (force simp: bt_inv_Cons bt_inv_Nil bt_insert_keys)+

lemma bt_get_insert: "bt_inv m \<Longrightarrow> bt_get (bt_insert m k v) = (bt_get m)(k \<mapsto> v)"
  unfolding bt_get_def
  by (induction m k v rule: bt_insert.induct)
    (auto simp: bt_inv_Cons fun_eq_iff map_of_eq_None_iff)

lemma bt_get_remove: "bt_get (bt_remove m k) = (bt_get m)(k := None)"
  by (induction m) (auto simp: bt_get_def bt_remove_def fun_eq_iff)

lemma bt_inv_remove: "bt_inv m \<Longrightarrow> bt_inv (bt_remove m k)"
  by (simp add: bt_inv_def bt_remove_def sorted_wrt_map sorted_wrt_filter)

interpretation bt: ordered_map "[]" bt_get bt_insert bt_remove "map fst" bt_inv
proof
  fix m :: "('a, 'b) btree"
  show "set (map fst m) = dom (bt_get m)" by (simp add: bt_get_def[abs_def] dom_map_of_conv_image_fst)
qed (auto simp: bt_get_insert bt_inv_insert bt_get_remove bt_inv_remove,
     simp_all add: bt_get_def bt_inv_def)

lemmas bt_simps = bt.get_empty bt.inv_empty bt.get_insert bt.inv_insert bt.get_remove bt.inv_remove

lemma bt_get_Some_in: "bt_get m k = Some v \<Longrightarrow> (k, v) \<in> set m"
  by (simp add: bt_get_def map_of_SomeD)

lemma bt_in_get: "bt_inv m \<Longrightarrow> (k, v) \<in> set m \<Longrightarrow> bt_get m k = Some v"
  unfolding bt_get_def by (rule map_of_is_SomeI) (auto simp: bt_inv_def strict_sorted_iff)

end
