(* ===== verification/Platform_Process.thy ===== *)
theory Platform_Process
  imports Platform_Error BTree_Map
begin

text \<open>
  The process surface of \<open>platform/src/process.rs\<close>: the spawn specification and its
  builder, the decoded exit status, the signals, and the portable \<open>wait_any\<close> loop.
  \<open>'f\<close> is the type of an open file.  The loop runs over a world \<open>'w\<close> in which \<open>try_wait i\<close>
  polls the child \<open>i\<close>, \<open>now\<close> reads the clock in nanoseconds and \<open>sleep\<close> lets time pass.
\<close>

section \<open>The data types\<close>

datatype EnvSpec = EnvInherit | EnvExplicit "(string, string) btree"

datatype 'f Stdio = StdioInherit | StdioNull | StdioPipe | StdioFile 'f

datatype GroupSpec = GroupInherit | NewGroup | JoinGroup u32

record 'f Command =
  cmd_program :: string
  cmd_argv :: "string list"
  cmd_cwd :: string
  cmd_env :: EnvSpec
  cmd_stdin :: "'f Stdio"
  cmd_stdout :: "'f Stdio"
  cmd_stderr :: "'f Stdio"
  cmd_group :: GroupSpec
  cmd_detached :: bool

definition command_new :: "string \<Rightarrow> string \<Rightarrow> 'f Command" where
  "command_new program cwd =
    \<lparr>cmd_program = program, cmd_argv = [], cmd_cwd = cwd, cmd_env = EnvInherit,
     cmd_stdin = StdioInherit, cmd_stdout = StdioInherit, cmd_stderr = StdioInherit,
     cmd_group = GroupInherit, cmd_detached = False\<rparr>"

definition command_arg :: "string \<Rightarrow> 'f Command \<Rightarrow> 'f Command" where
  "command_arg a c = c\<lparr>cmd_argv := cmd_argv c @ [a]\<rparr>"

definition command_args :: "string list \<Rightarrow> 'f Command \<Rightarrow> 'f Command" where
  "command_args as c = c\<lparr>cmd_argv := cmd_argv c @ as\<rparr>"

definition command_env :: "EnvSpec \<Rightarrow> 'f Command \<Rightarrow> 'f Command" where
  "command_env e c = c\<lparr>cmd_env := e\<rparr>"

definition command_group :: "GroupSpec \<Rightarrow> 'f Command \<Rightarrow> 'f Command" where
  "command_group g c = c\<lparr>cmd_group := g\<rparr>"

definition command_detach :: "'f Command \<Rightarrow> 'f Command" where
  "command_detach c = c\<lparr>cmd_detached := True\<rparr>"

datatype ExitStatus = Code i32 | Signaled i32 | Stopped i32 | Continued

definition success :: "ExitStatus \<Rightarrow> bool" where
  "success s = (s = Code 0)"

definition terminal :: "ExitStatus \<Rightarrow> bool" where
  "terminal s = (case s of Code _ \<Rightarrow> True | Signaled _ \<Rightarrow> True | _ \<Rightarrow> False)"

datatype Signal = SigTerm | SigInt | SigHup | SigQuit | SigKill | SigStop | SigCont

section \<open>The portable wait-any loop\<close>

type_synonym 'w poll = "nat \<Rightarrow> 'w \<Rightarrow> ExitStatus option result \<times> 'w"

text \<open>One pass over the children from index \<open>i\<close>; \<open>k\<close> children are left.\<close>

fun poll_round :: "'w poll \<Rightarrow> nat \<Rightarrow> nat \<Rightarrow> 'w \<Rightarrow> nat option result \<times> 'w" where
  "poll_round try_wait i 0 w = (Ok None, w)"
| "poll_round try_wait i (Suc k) w =
    (case try_wait i w of
       (Err e, w1) \<Rightarrow> (Err e, w1)
     | (Ok (Some _), w1) \<Rightarrow> (Ok (Some i), w1)
     | (Ok None, w1) \<Rightarrow> poll_round try_wait (Suc i) k w1)"

abbreviation TICK :: nat where "TICK \<equiv> 10000000"

partial_function (option) wait_loop ::
    "'w poll \<Rightarrow> ('w \<Rightarrow> nat) \<Rightarrow> (nat \<Rightarrow> 'w \<Rightarrow> 'w) \<Rightarrow> nat \<Rightarrow> nat option \<Rightarrow> nat \<Rightarrow> 'w
     \<Rightarrow> (nat option result \<times> 'w) option" where
  "wait_loop try_wait now sleep n timeout start w =
    (case poll_round try_wait 0 n w of
       (Err e, w1) \<Rightarrow> Some (Err e, w1)
     | (Ok (Some i), w1) \<Rightarrow> Some (Ok (Some i), w1)
     | (Ok None, w1) \<Rightarrow>
         let elapsed = now w1 - start in
         (case timeout of
            Some limit \<Rightarrow>
              if elapsed \<ge> limit then Some (Ok None, w1)
              else wait_loop try_wait now sleep n timeout start (sleep (min TICK (limit - elapsed)) w1)
          | None \<Rightarrow> wait_loop try_wait now sleep n timeout start (sleep TICK w1)))"

definition wait_any ::
    "'w poll \<Rightarrow> ('w \<Rightarrow> nat) \<Rightarrow> (nat \<Rightarrow> 'w \<Rightarrow> 'w) \<Rightarrow> nat \<Rightarrow> nat option \<Rightarrow> 'w
     \<Rightarrow> (nat option result \<times> 'w) option" where
  "wait_any try_wait now sleep n timeout w =
    (if n = 0 then Some (Err (new_error InvalidInput NoCode ''wait_any''), w)
     else wait_loop try_wait now sleep n timeout (now w) w)"

lemma poll_round_hit:
  "poll_round try_wait i k w = (Ok (Some j), w') \<Longrightarrow>
    i \<le> j \<and> j < i + k \<and> (\<exists>st v. try_wait j v = (Ok (Some st), w'))"
  by (induction try_wait i k w rule: poll_round.induct) (fastforce split: prod.splits sum.splits option.splits)+

lemma poll_round_now:
  fixes now :: "'w \<Rightarrow> nat"
  assumes "\<And>i w. now w \<le> now (snd (try_wait i w))" "poll_round try_wait i k w = (r, w')"
  shows "now w \<le> now w'"
  using assms(2)
proof (induction k arbitrary: i w)
  case (Suc k)
  obtain x w1 where x: "try_wait i w = (x, w1)" by fastforce
  have "now w \<le> now w1" using assms(1)[of w i] x by simp
  then show ?case using Suc.IH[of "Suc i" w1] Suc.prems x by (auto split: sum.splits option.splits)
qed simp

lemma wait_loop_returns:
  assumes poll: "\<And>i w. now w \<le> now (snd (try_wait i w))" and sleep: "\<And>d w. now w + d \<le> now (sleep d w)"
    and "start \<le> now w"
  shows "\<exists>r w'. wait_loop try_wait now sleep n (Some limit) start w = Some (r, w')
    \<and> (case r of Ok (Some j) \<Rightarrow> j < n \<and> (\<exists>st v. try_wait j v = (Ok (Some st), w'))
       | Ok None \<Rightarrow> limit \<le> now w' - start | Err e \<Rightarrow> True)"
  using assms(3)
proof (induction "limit - (now w - start)" arbitrary: w rule: less_induct)
  case less
  obtain x w1 where x: "poll_round try_wait 0 n w = (x, w1)" by fastforce
  have now1: "now w \<le> now w1" using poll_round_now[OF poll x] .
  show ?case
  proof (cases "x = Ok None \<and> now w1 - start < limit")
    case True
    let ?w2 = "sleep (min TICK (limit - (now w1 - start))) w1"
    have w2: "now w1 < now ?w2"
      using sleep[of w1 "min TICK (limit - (now w1 - start))"] True by (simp add: min_def split: if_splits)
    have "\<exists>r w'. wait_loop try_wait now sleep n (Some limit) start ?w2 = Some (r, w')
        \<and> (case r of Ok (Some j) \<Rightarrow> j < n \<and> (\<exists>st v. try_wait j v = (Ok (Some st), w'))
           | Ok None \<Rightarrow> limit \<le> now w' - start | Err e \<Rightarrow> True)"
      by (rule less.hyps) (use True w2 now1 less.prems in auto)
    then show ?thesis using True x by (subst wait_loop.simps) (simp add: Let_def)
  next
    case False
    then show ?thesis using x poll_round_hit[of try_wait 0 n w]
      by (subst wait_loop.simps) (auto simp: Let_def split: sum.splits option.splits)
  qed
qed

section \<open>Properties\<close>

text \<open>C25.  With a timeout, the portable \<open>wait_any\<close> always returns, whatever the children do,
  provided polling does not turn the clock back and a sleep lasts at least as long as
  asked: it names a child that a poll has just found terminated, or it reports the
  timeout and the time has really passed.  With no children it is \<open>InvalidInput\<close>.\<close>

theorem wait_any_returns_in_time:
  assumes "\<And>i w. now w \<le> now (snd (try_wait i w))" "\<And>d w. now w + d \<le> now (sleep d w)"
  shows "\<exists>r w'. wait_any try_wait now sleep n (Some limit) w = Some (r, w')
    \<and> (n = 0 \<longrightarrow> fails_with InvalidInput r)
    \<and> (n \<noteq> 0 \<longrightarrow> (case r of Ok (Some j) \<Rightarrow> j < n \<and> (\<exists>st v. try_wait j v = (Ok (Some st), w'))
         | Ok None \<Rightarrow> limit \<le> now w' - now w | Err e \<Rightarrow> True))"
  using wait_loop_returns[of now try_wait sleep "now w" w n limit, OF assms order_refl]
  by (auto simp: wait_any_def)

theorem wait_any_returns_in_time_witness:
  "\<exists>r w'. wait_any (\<lambda>i w. (Ok None, w)) (\<lambda>w. w) (\<lambda>d w. w + d) 2 (Some 25000000) (7 :: nat) = Some (r, w')"
  using wait_any_returns_in_time[of "\<lambda>w. w" "\<lambda>i w. (Ok None, w)" "\<lambda>d w. w + d" 2 25000000 7] by auto

end
