(* ===== verification/Mock_Process.thy ===== *)
theory Mock_Process
  imports Platform_Process
begin

text \<open>
  The scripted process backend, \<open>platform-mock/src/process.rs\<close>.  The shared logs of the
  spawner (\<open>spawned\<close>, \<open>adopted\<close>) and its pid registries are fields of its state; every
  method takes its lock once, so it is one step.
\<close>

section \<open>The code\<close>

record Script =
  sc_status :: ExitStatus
  sc_stdout :: bytes

datatype StdioKind = KInherit | KNull | KPipe | KFile

fun stdio_kind :: "'f Stdio \<Rightarrow> StdioKind" where
  "stdio_kind StdioInherit = KInherit"
| "stdio_kind StdioNull = KNull"
| "stdio_kind StdioPipe = KPipe"
| "stdio_kind (StdioFile _) = KFile"

record SpawnRecord =
  sr_program :: string
  sr_argv :: "string list"
  sr_cwd :: string
  sr_env :: EnvSpec
  sr_stdin :: StdioKind
  sr_stdout :: StdioKind
  sr_stderr :: StdioKind
  sr_group :: GroupSpec

definition spawn_record :: "'f Command \<Rightarrow> SpawnRecord" where
  "spawn_record cmd =
    \<lparr>sr_program = cmd_program cmd, sr_argv = cmd_argv cmd, sr_cwd = cmd_cwd cmd, sr_env = cmd_env cmd,
     sr_stdin = stdio_kind (cmd_stdin cmd), sr_stdout = stdio_kind (cmd_stdout cmd),
     sr_stderr = stdio_kind (cmd_stderr cmd), sr_group = cmd_group cmd\<rparr>"

record MemPipe =
  mp_data :: bytes
  mp_pos :: nat

definition mem_pipe :: "bytes \<Rightarrow> MemPipe" where
  "mem_pipe bs = \<lparr>mp_data = bs, mp_pos = 0\<rparr>"

text \<open>\<open>read\<close> subtracts the position from the length; a position past the end would panic.\<close>

definition pipe_read :: "nat \<Rightarrow> MemPipe \<Rightarrow> (bytes \<times> MemPipe) run" where
  "pipe_read cap p =
    (if mp_pos p > length (mp_data p) then Panic
     else let n = min cap (length (mp_data p) - mp_pos p)
          in Ret (take n (drop (mp_pos p) (mp_data p)), p\<lparr>mp_pos := mp_pos p + n\<rparr>))"

definition pipe_write :: "bytes \<Rightarrow> MemPipe \<Rightarrow> nat result" where
  "pipe_write buf p = Ok (length buf)"

definition pipe_flush :: "MemPipe \<Rightarrow> unit result" where
  "pipe_flush p = Ok ()"

definition pipe_sync_all :: "MemPipe \<Rightarrow> unit result" where
  "pipe_sync_all p = Ok ()"

definition pipe_try_clone :: "MemPipe \<Rightarrow> MemPipe result" where
  "pipe_try_clone p = Ok \<lparr>mp_data = mp_data p, mp_pos = mp_pos p\<rparr>"

record MockSpawner =
  ms_scripts :: "(string, Script) btree"
  ms_spawned :: "SpawnRecord list"
  ms_adopted :: "u32 list"
  ms_live_pids :: "u32 set"
  ms_zombie_pids :: "u32 set"

definition spawner_new :: MockSpawner where
  "spawner_new = \<lparr>ms_scripts = [], ms_spawned = [], ms_adopted = [], ms_live_pids = {}, ms_zombie_pids = {}\<rparr>"

definition script :: "string \<Rightarrow> ExitStatus \<Rightarrow> MockSpawner \<Rightarrow> MockSpawner" where
  "script program status ms =
    ms\<lparr>ms_scripts := bt_insert (ms_scripts ms) program \<lparr>sc_status = status, sc_stdout = []\<rparr>\<rparr>"

definition script_with_output :: "string \<Rightarrow> ExitStatus \<Rightarrow> bytes \<Rightarrow> MockSpawner \<Rightarrow> MockSpawner" where
  "script_with_output program status out ms =
    ms\<lparr>ms_scripts := bt_insert (ms_scripts ms) program \<lparr>sc_status = status, sc_stdout = out\<rparr>\<rparr>"

record MockChild =
  mc_status :: ExitStatus
  mc_own_group :: bool
  mc_stdin :: "MemPipe option"
  mc_stdout :: "MemPipe option"
  mc_stderr :: "MemPipe option"

definition child_wait :: "MockChild \<Rightarrow> ExitStatus result" where
  "child_wait c = Ok (mc_status c)"

definition child_id :: "MockChild \<Rightarrow> u32" where
  "child_id c = 0"

definition child_kill_tree :: "Signal \<Rightarrow> MockChild \<Rightarrow> unit result" where
  "child_kill_tree sig c =
    (if mc_own_group c then Ok () else Err (new_error Unsupported NoCode ''kill_tree''))"

definition child_kill_single :: "Signal \<Rightarrow> MockChild \<Rightarrow> unit result" where
  "child_kill_single sig c = Ok ()"

definition child_try_wait :: "MockChild \<Rightarrow> ExitStatus option result \<times> MockChild" where
  "child_try_wait c = (Ok (Some (mc_status c)), c)"

definition child_wait_job :: "MockChild \<Rightarrow> ExitStatus result \<times> MockChild" where
  "child_wait_job c = (Ok (mc_status c), c)"

definition child_try_wait_job :: "MockChild \<Rightarrow> ExitStatus option result \<times> MockChild" where
  "child_try_wait_job c = (Ok (Some (mc_status c)), c)"

definition take_stdin :: "MockChild \<Rightarrow> MemPipe option \<times> MockChild" where
  "take_stdin c = (mc_stdin c, c\<lparr>mc_stdin := None\<rparr>)"

definition take_stdout :: "MockChild \<Rightarrow> MemPipe option \<times> MockChild" where
  "take_stdout c = (mc_stdout c, c\<lparr>mc_stdout := None\<rparr>)"

definition take_stderr :: "MockChild \<Rightarrow> MemPipe option \<times> MockChild" where
  "take_stderr c = (mc_stderr c, c\<lparr>mc_stderr := None\<rparr>)"

definition group_kill_tree :: "Signal \<Rightarrow> unit result" where
  "group_kill_tree sig = Ok ()"

definition group_kill_single :: "Signal \<Rightarrow> unit result" where
  "group_kill_single sig = Ok ()"

definition joins_group :: "GroupSpec \<Rightarrow> bool" where
  "joins_group g = (case g of JoinGroup _ \<Rightarrow> True | _ \<Rightarrow> False)"

definition is_pipe :: "'f Stdio \<Rightarrow> bool" where
  "is_pipe s = (case s of StdioPipe \<Rightarrow> True | _ \<Rightarrow> False)"

definition spawn :: "'f Command \<Rightarrow> MockSpawner \<Rightarrow> MockChild result \<times> MockSpawner" where
  "spawn cmd ms =
    (if cmd_detached cmd \<and> joins_group (cmd_group cmd)
     then (Err (new_error InvalidInput NoCode ''spawn: detach cannot join an existing group''), ms)
     else
       let ms1 = ms\<lparr>ms_spawned := ms_spawned ms @ [spawn_record cmd]\<rparr> in
       case bt_get (ms_scripts ms1) (cmd_program cmd) of
         None \<Rightarrow> (Err (with_path (new_error NotFound NoCode ''spawn'') (cmd_program cmd)), ms1)
       | Some sc \<Rightarrow>
          (Ok \<lparr>mc_status = sc_status sc,
             mc_own_group = (cmd_group cmd \<noteq> GroupInherit),
             mc_stdin = (if is_pipe (cmd_stdin cmd) then Some (mem_pipe []) else None),
             mc_stdout = (if is_pipe (cmd_stdout cmd) then Some (mem_pipe (sc_stdout sc)) else None),
             mc_stderr = (if is_pipe (cmd_stderr cmd) then Some (mem_pipe []) else None)\<rparr>, ms1))"

definition resolve :: "string \<Rightarrow> MockSpawner \<Rightarrow> string result" where
  "resolve program ms =
    (if bt_get (ms_scripts ms) program \<noteq> None then Ok program
     else Err (with_path (new_error NotFound NoCode ''resolve'') program))"

definition adopt :: "u32 \<Rightarrow> MockSpawner \<Rightarrow> unit result \<times> MockSpawner" where
  "adopt pid ms = (Ok (), ms\<lparr>ms_adopted := ms_adopted ms @ [pid]\<rparr>)"

definition is_alive :: "u32 \<Rightarrow> MockSpawner \<Rightarrow> bool result" where
  "is_alive pid ms = Ok (pid \<in> ms_live_pids ms)"

definition is_zombie :: "u32 \<Rightarrow> MockSpawner \<Rightarrow> bool result" where
  "is_zombie pid ms = Ok (pid \<in> ms_zombie_pids ms)"

section \<open>Reading a scripted pipe\<close>

text \<open>A consumer that reads until an empty read.\<close>

fun pipe_read_all :: "nat \<Rightarrow> nat \<Rightarrow> MemPipe \<Rightarrow> bytes run" where
  "pipe_read_all 0 cap p = Ret []"
| "pipe_read_all (Suc k) cap p =
    run_bind (pipe_read cap p) (\<lambda>(bs, p1).
      if bs = [] then Ret [] else run_bind (pipe_read_all k cap p1) (\<lambda>rest. Ret (bs @ rest)))"

lemma pipe_read_all_rest:
  assumes "mp_pos p \<le> length (mp_data p)" "0 < cap" "length (mp_data p) - mp_pos p < k"
  shows "pipe_read_all k cap p = Ret (drop (mp_pos p) (mp_data p))"
  using assms
proof (induction k arbitrary: p)
  case (Suc k)
  define n where "n = min cap (length (mp_data p) - mp_pos p)"
  let ?p1 = "p\<lparr>mp_pos := mp_pos p + n\<rparr>"
  have r: "pipe_read cap p = Ret (take n (drop (mp_pos p) (mp_data p)), ?p1)"
    using Suc.prems by (simp add: pipe_read_def n_def Let_def)
  show ?case
  proof (cases "mp_pos p = length (mp_data p)")
    case True
    then show ?thesis using r by simp
  next
    case False
    then have n: "0 < n" "mp_pos p + n \<le> length (mp_data p)" using Suc.prems by (auto simp: n_def)
    then have "pipe_read_all k cap ?p1 = Ret (drop (mp_pos p + n) (mp_data p))"
      using Suc.IH[of ?p1] Suc.prems by simp
    moreover have "take n (drop (mp_pos p) (mp_data p)) @ drop (mp_pos p + n) (mp_data p) = drop (mp_pos p) (mp_data p)"
      using append_take_drop_id[of n "drop (mp_pos p) (mp_data p)"] by (simp add: add.commute)
    ultimately show ?thesis using r n by simp
  qed
qed simp

lemma scripts_inv:
  "bt_inv (ms_scripts spawner_new)"
  "bt_inv (ms_scripts ms) \<Longrightarrow> bt_inv (ms_scripts (script_with_output p st out ms))"
  by (simp_all add: spawner_new_def script_with_output_def bt_simps)

section \<open>Properties\<close>

text \<open>A scripted program behaves as scripted: after registering it, a spawn of it that
  does not both detach and join a group is logged and yields a child whose every wait
  returns the scripted status, whose piped output reads back exactly the scripted bytes
  with any buffer size and then ends, whose pipe is handed out once, and whose
  \<open>kill_tree\<close> is refused exactly when the child inherits its group.\<close>

theorem mock_spawn_follows_script:
  assumes "bt_inv (ms_scripts ms)" "0 < cap"
    and "\<not> (cmd_detached cmd \<and> joins_group (cmd_group cmd))" "cmd_program cmd = p"
  shows "\<exists>c ms'. spawn cmd (script_with_output p st out ms) = (Ok c, ms')
    \<and> ms_spawned ms' = ms_spawned ms @ [spawn_record cmd]
    \<and> child_wait c = Ok st \<and> child_try_wait c = (Ok (Some st), c) \<and> child_wait_job c = (Ok st, c)
    \<and> (is_ok (child_kill_tree sig c) \<longleftrightarrow> cmd_group cmd \<noteq> GroupInherit)
    \<and> (cmd_stdout cmd = StdioPipe \<longrightarrow>
         (\<exists>pp c'. take_stdout c = (Some pp, c') \<and> pipe_read_all (Suc (length out)) cap pp = Ret out
            \<and> fst (take_stdout c') = None))
    \<and> (cmd_stdout cmd \<noteq> StdioPipe \<longrightarrow> fst (take_stdout c) = None)"
proof -
  have "bt_get (ms_scripts (script_with_output p st out ms)) p = Some \<lparr>sc_status = st, sc_stdout = out\<rparr>"
    using assms(1) by (simp add: script_with_output_def bt_simps)
  moreover have "pipe_read_all (Suc (length out)) cap (mem_pipe out) = Ret out"
    using pipe_read_all_rest[of "mem_pipe out" cap "Suc (length out)"] assms(2) by (simp add: mem_pipe_def)
  ultimately show ?thesis using assms(3,4)
    by (auto simp: spawn_def Let_def child_wait_def child_try_wait_def child_wait_job_def child_kill_tree_def
        take_stdout_def is_pipe_def script_with_output_def split: Stdio.splits simp del: pipe_read_all.simps)
qed

theorem mock_spawn_follows_script_witness:
  "\<exists>c ms'. spawn ((command_new ''ls'' ''/'')\<lparr>cmd_stdout := StdioPipe\<rparr> :: nat Command)
      (script_with_output ''ls'' (Code 3) [65, 10] spawner_new) = (Ok c, ms')
    \<and> child_wait c = Ok (Code 3)"
  using mock_spawn_follows_script[OF scripts_inv(1), of 16
      "(command_new ''ls'' ''/'')\<lparr>cmd_stdout := StdioPipe\<rparr>" "''ls''" "Code 3" "[65, 10]"]
  by (simp add: command_new_def) blast

text \<open>What the scripted spawner refuses: a detached spawn that joins a group, before
  anything is logged, and a program without a script, which is logged.  A detached spawn
  that leads a new group is accepted, where the documented contract of
  \<open>Command::detach\<close> has every backend refuse it.\<close>

theorem mock_spawn_refusals:
  "(cmd_detached cmd \<and> joins_group (cmd_group cmd) \<longrightarrow>
      snd (spawn cmd ms) = ms \<and> fails_with InvalidInput (fst (spawn cmd ms)))
   \<and> (\<not> (cmd_detached cmd \<and> joins_group (cmd_group cmd)) \<and> bt_get (ms_scripts ms) (cmd_program cmd) = None \<longrightarrow>
      fails_with NotFound (fst (spawn cmd ms)) \<and> ms_spawned (snd (spawn cmd ms)) = ms_spawned ms @ [spawn_record cmd])
   \<and> (\<exists>c. fst (spawn (command_detach (command_group NewGroup (command_new p d)))
        (script p st spawner_new)) = Ok c)"
  by (simp add: spawn_def Let_def joins_group_def command_detach_def command_group_def command_new_def
      script_def spawner_new_def bt_get_def)

theorem mock_spawn_refusals_witness:
  "fails_with InvalidInput
     (fst (spawn (command_detach (command_group (JoinGroup 7) (command_new ''x'' ''/'')) :: nat Command) spawner_new))"
proof -
  let ?c = "command_detach (command_group (JoinGroup 7) (command_new ''x'' ''/'')) :: nat Command"
  have "cmd_detached ?c \<and> joins_group (cmd_group ?c)"
    by (simp add: joins_group_def command_detach_def command_group_def)
  then show ?thesis using mock_spawn_refusals[of ?c spawner_new] by blast
qed

end
