(* ===== verification/Linux_Process.thy ===== *)
theory Linux_Process
  imports Platform_Process "HOL-Library.Multiset"
begin

text \<open>
  The Linux process backend: \<open>platform-linux/src/sys/spawn.rs\<close> over the system calls, and
  the \<open>Spawner\<close> and \<open>Child\<close> implementations of \<open>platform-linux/src/process.rs\<close>.  The
  kernel and the C library are a record: what each call will answer (\<open>k_ret\<close> for the
  \<open>posix_spawn\<close> helpers, \<open>k_pipe\<close>, \<open>k_posix_spawn\<close>, \<open>k_waits\<close>, \<open>k_kill\<close>), the open
  descriptors of this process, and a log of the calls that matter.  A wait beyond what
  the kernel will answer blocks: its value is \<open>None\<close>.  The status-word tests
  (\<open>WIFEXITED\<close> and its kin) are the C library's, a record of functions.
\<close>

section \<open>The kernel\<close>

datatype FileAction = AddChdir string | AddOpen nat string bool | AddDup2 i32 nat

record SpawnCall =
  sp_path :: string
  sp_argv :: "string list"
  sp_env :: "string list"
  sp_actions :: "FileAction list"
  sp_setpgroup :: "i32 option"
  sp_setsid :: bool

datatype WaitFlag = WNOHANG | WUNTRACED | WCONTINUED

record WaitAnswer =
  wa_ret :: i32
  wa_status :: i32
  wa_errno :: i32

record Kernel =
  k_environ :: "(string \<times> string) list"
  k_ret :: "nat \<Rightarrow> i32"
  k_nret :: nat
  k_pipe :: "nat \<Rightarrow> i32 + (i32 \<times> i32)"
  k_npipe :: nat
  k_fds :: "i32 list"
  k_posix_spawn :: "i32 + i32"
  k_spawned :: "SpawnCall list"
  k_waits :: "WaitAnswer list"
  k_wait_calls :: "(i32 \<times> WaitFlag list) list"
  k_kill :: "i32 \<Rightarrow> i32 \<Rightarrow> i32 option"
  k_kills :: "(i32 \<times> i32) list"

record WaitMacros =
  wifexited :: "i32 \<Rightarrow> bool"
  wexitstatus :: "i32 \<Rightarrow> i32"
  wifsignaled :: "i32 \<Rightarrow> bool"
  wtermsig :: "i32 \<Rightarrow> i32"
  wifstopped :: "i32 \<Rightarrow> bool"
  wstopsig :: "i32 \<Rightarrow> i32"

abbreviation EPERM :: i32 where "EPERM \<equiv> 1"
abbreviation ENOENT :: i32 where "ENOENT \<equiv> 2"
abbreviation ESRCH :: i32 where "ESRCH \<equiv> 3"
abbreviation EINTR :: i32 where "EINTR \<equiv> 4"
abbreviation EACCES :: i32 where "EACCES \<equiv> 13"
abbreviation ENOTDIR :: i32 where "ENOTDIR \<equiv> 20"
abbreviation EINVAL :: i32 where "EINVAL \<equiv> 22"

type_synonym 'a kact = "Kernel \<Rightarrow> 'a result \<times> Kernel"

definition kbind :: "'a kact \<Rightarrow> ('a \<Rightarrow> 'b kact) \<Rightarrow> 'b kact" where
  "kbind m f k = (case m k of (Err e, k1) \<Rightarrow> (Err e, k1) | (Ok x, k1) \<Rightarrow> f x k1)"

definition kret :: "'a \<Rightarrow> 'a kact" where
  "kret x k = (Ok x, k)"

definition kfail :: "PlatformError \<Rightarrow> 'a kact" where
  "kfail e k = (Err e, k)"

section \<open>Spawning\<close>

definition to_cstring :: "string \<Rightarrow> string \<Rightarrow> string result" where
  "to_cstring s op =
    (if CHR 0x00 \<in> set s then Err (with_path (new_error InvalidInput NoCode op) s) else Ok s)"

definition errno_err :: "string \<Rightarrow> i32 \<Rightarrow> string \<Rightarrow> PlatformError" where
  "errno_err op code path =
    (let kind = (if code = ENOENT then NotFound
                 else if code = EACCES \<or> code = EPERM then PermissionDenied
                 else if code = ENOTDIR then NotADirectory
                 else if code = EINVAL then InvalidInput
                 else Other);
         e = new_error kind (Errno code) op
     in if path = [] then e else with_path e path)"

fun to_cstrings :: "string \<Rightarrow> string list \<Rightarrow> string list result" where
  "to_cstrings op [] = Ok []"
| "to_cstrings op (s # ss) =
    and_then (to_cstring s op) (\<lambda>c. and_then (to_cstrings op ss) (\<lambda>cs. Ok (c # cs)))"

definition build_env :: "(string \<times> string) list \<Rightarrow> EnvSpec \<Rightarrow> string list result" where
  "build_env environ env =
    (let pairs = (case env of EnvInherit \<Rightarrow> environ | EnvExplicit m \<Rightarrow> m)
     in to_cstrings ''posix_spawn env'' (map (\<lambda>(k, v). k @ ''='' @ v) pairs))"

text \<open>One call of the \<open>posix_spawn\<close> helper family: it returns an error number or zero.\<close>

definition lib_call :: "string \<Rightarrow> string \<Rightarrow> unit kact" where
  "lib_call op path k =
    (let r = k_ret k (k_nret k); k1 = k\<lparr>k_nret := k_nret k + 1\<rparr>
     in if r \<noteq> 0 then (Err (errno_err op r path), k1) else (Ok (), k1))"

definition make_pipe :: "(i32 \<times> i32) kact" where
  "make_pipe k =
    (let k1 = k\<lparr>k_npipe := k_npipe k + 1\<rparr>
     in case k_pipe k (k_npipe k) of
          Inl code \<Rightarrow> (Err (errno_err ''pipe2'' code []), k1)
        | Inr (r, w) \<Rightarrow> (Ok (r, w), k1\<lparr>k_fds := r # w # k_fds k\<rparr>))"

definition close_fds :: "i32 list \<Rightarrow> Kernel \<Rightarrow> Kernel" where
  "close_fds fds k = k\<lparr>k_fds := fold remove1 fds (k_fds k)\<rparr>"

text \<open>Owned descriptors close when their owner goes out of scope on an error.\<close>

definition closing :: "i32 list \<Rightarrow> 'a kact \<Rightarrow> 'a kact" where
  "closing fds m k = (case m k of (Err e, k1) \<Rightarrow> (Err e, close_fds fds k1) | (Ok x, k1) \<Rightarrow> (Ok x, k1))"

text \<open>One standard stream: its file actions, the parent's end and the child's end.
  \<open>raw_fd\<close> is the downcast to this backend's own file type.\<close>

definition wire_slot ::
    "('f \<Rightarrow> i32 option) \<Rightarrow> nat \<Rightarrow> 'f Stdio \<Rightarrow> (FileAction list \<times> i32 option \<times> i32 option) kact" where
  "wire_slot raw_fd fd spec =
    (case spec of
       StdioInherit \<Rightarrow> kret ([], None, None)
     | StdioNull \<Rightarrow>
        kbind (lib_call ''posix_spawn addopen'' ''/dev/null'') (\<lambda>_.
          kret ([AddOpen fd ''/dev/null'' (fd \<noteq> 0)], None, None))
     | StdioPipe \<Rightarrow>
        kbind make_pipe (\<lambda>(r, w).
          let (child, parent) = (if fd = 0 then (r, w) else (w, r)) in
          closing [r, w] (kbind (lib_call ''posix_spawn adddup2'' []) (\<lambda>_.
            kret ([AddDup2 child fd], Some parent, Some child))))
     | StdioFile f \<Rightarrow>
        (case raw_fd f of
           None \<Rightarrow> kfail (new_error Unsupported NoCode ''posix_spawn: Stdio::File from a foreign backend'')
         | Some n \<Rightarrow> kbind (lib_call ''posix_spawn adddup2'' []) (\<lambda>_. kret ([AddDup2 n fd], None, None))))"

definition opt_list :: "'a option \<Rightarrow> 'a list" where
  "opt_list x = (case x of Some y \<Rightarrow> [y] | None \<Rightarrow> [])"

fun wire_stdio ::
    "('f \<Rightarrow> i32 option) \<Rightarrow> nat \<Rightarrow> 'f Stdio list
     \<Rightarrow> (FileAction list \<times> i32 option list \<times> i32 option list) kact" where
  "wire_stdio raw_fd fd [] = kret ([], [], [])"
| "wire_stdio raw_fd fd (spec # specs) =
    kbind (wire_slot raw_fd fd spec) (\<lambda>(acts, parent, child).
      closing (opt_list parent @ opt_list child)
        (kbind (wire_stdio raw_fd (Suc fd) specs) (\<lambda>(acts', parents, children).
          kret (acts @ acts', parent # parents, child # children))))"

definition target_pgid :: "GroupSpec \<Rightarrow> i32 option" where
  "target_pgid grp =
    (case grp of GroupInherit \<Rightarrow> None | JoinGroup pgid \<Rightarrow> Some pgid | NewGroup \<Rightarrow> Some 0)"

definition set_attributes :: "i32 option \<Rightarrow> bool \<Rightarrow> unit kact" where
  "set_attributes pgid detached =
    (if pgid = None \<and> \<not> detached then kret ()
     else kbind (lib_call ''posix_spawnattr_setpgroup'' []) (\<lambda>_.
       case pgid of Some _ \<Rightarrow> lib_call ''posix_spawnattr_setpgroup'' [] | None \<Rightarrow> kret ()))"

definition posix_spawn :: "SpawnCall \<Rightarrow> i32 kact" where
  "posix_spawn c k =
    (let k1 = k\<lparr>k_spawned := k_spawned k @ [c]\<rparr>
     in case k_posix_spawn k of
          Inl r \<Rightarrow> (Err (errno_err ''posix_spawn'' r (sp_path c)), k1)
        | Inr pid \<Rightarrow> (Ok pid, k1))"

definition lift_result :: "'a result \<Rightarrow> 'a kact" where
  "lift_result r k = (r, k)"

definition opt_fds :: "i32 option list \<Rightarrow> i32 list" where
  "opt_fds xs = concat (map opt_list xs)"

definition spawn_wired ::
    "string \<Rightarrow> string list \<Rightarrow> string list \<Rightarrow> GroupSpec \<Rightarrow> bool
     \<Rightarrow> FileAction list \<Rightarrow> i32 option list \<Rightarrow> i32 option list \<Rightarrow> (i32 \<times> i32 option list) kact" where
  "spawn_wired path argv env grp detached acts parents children =
    closing (opt_fds parents @ opt_fds children)
      (kbind (lib_call ''posix_spawnattr_init'' []) (\<lambda>_.
       kbind (set_attributes (target_pgid grp) detached) (\<lambda>_.
       kbind (posix_spawn \<lparr>sp_path = path, sp_argv = argv, sp_env = env, sp_actions = acts,
           sp_setpgroup = target_pgid grp, sp_setsid = detached\<rparr>) (\<lambda>pid k.
         (Ok (pid, parents), close_fds (opt_fds children) k)))))"

definition sys_spawn ::
    "('f \<Rightarrow> i32 option) \<Rightarrow> string \<Rightarrow> string \<Rightarrow> string list \<Rightarrow> string \<Rightarrow> EnvSpec \<Rightarrow> 'f Stdio list
     \<Rightarrow> GroupSpec \<Rightarrow> bool \<Rightarrow> (i32 \<times> i32 option list) kact" where
  "sys_spawn raw_fd path argv0 args cwd env stdio grp detached k0 =
    (kbind (lift_result (to_cstring path ''posix_spawn'')) (\<lambda>c_path.
     kbind (lift_result (to_cstring cwd ''posix_spawn chdir'')) (\<lambda>c_cwd.
     kbind (lift_result (to_cstrings ''posix_spawn argv'' (argv0 # args))) (\<lambda>c_argv.
     kbind (lift_result (build_env (k_environ k0) env)) (\<lambda>c_env.
     kbind (lib_call ''posix_spawn_file_actions_init'' []) (\<lambda>_.
     kbind (lib_call ''posix_spawn chdir'' cwd) (\<lambda>_.
     kbind (wire_stdio raw_fd 0 stdio) (\<lambda>(acts, parents, children).
       spawn_wired c_path c_argv c_env grp detached (AddChdir c_cwd # acts) parents children))))))) k0)"

section \<open>Signals and liveness\<close>

definition signum_of :: "Signal \<Rightarrow> i32" where
  "signum_of sig =
    (case sig of SigTerm \<Rightarrow> 15 | SigInt \<Rightarrow> 2 | SigHup \<Rightarrow> 1 | SigQuit \<Rightarrow> 3 | SigKill \<Rightarrow> 9
     | SigStop \<Rightarrow> 19 | SigCont \<Rightarrow> 18)"

definition os_kill :: "i32 \<Rightarrow> i32 \<Rightarrow> Kernel \<Rightarrow> i32 option \<times> Kernel" where
  "os_kill pid sig k = (k_kill k pid sig, k\<lparr>k_kills := k_kills k @ [(pid, sig)]\<rparr>)"

definition kill_group :: "i32 \<Rightarrow> Signal \<Rightarrow> unit kact" where
  "kill_group pid sig k =
    (case os_kill (- pid) (signum_of sig) k of
       (None, k1) \<Rightarrow> (Ok (), k1)
     | (Some code, k1) \<Rightarrow> (Err (errno_err ''kill'' code []), k1))"

definition kill_single :: "i32 \<Rightarrow> Signal \<Rightarrow> unit kact" where
  "kill_single pid sig k =
    (case os_kill pid (signum_of sig) k of
       (None, k1) \<Rightarrow> (Ok (), k1)
     | (Some code, k1) \<Rightarrow> (Err (errno_err ''kill'' code []), k1))"

definition is_alive :: "i32 \<Rightarrow> bool kact" where
  "is_alive pid k =
    (case os_kill pid 0 k of
       (None, k1) \<Rightarrow> (Ok True, k1)
     | (Some code, k1) \<Rightarrow>
         if code = ESRCH then (Ok False, k1)
         else if code = EPERM then (Ok True, k1)
         else (Err (errno_err ''kill'' code []), k1))"

text \<open>The parse of \<open>/proc/<pid>/stat\<close>: what follows the last closing parenthesis, then its
  first white-space separated word.  \<open>read_to_string\<close> gives the content, or the error
  number, with \<open>ENOENT\<close> its not-found case.\<close>

definition is_space :: "char \<Rightarrow> bool" where
  "is_space c = (c \<in> {CHR '' '', CHR 0x09, CHR 0x0A, CHR 0x0B, CHR 0x0C, CHR 0x0D})"

definition after_last :: "char \<Rightarrow> string \<Rightarrow> string option" where
  "after_last c s =
    (if c \<in> set s then Some (rev (takeWhile (\<lambda>x. x \<noteq> c) (rev s))) else None)"

definition first_word :: "string \<Rightarrow> string option" where
  "first_word s =
    (let t = dropWhile is_space s in if t = [] then None else Some (takeWhile (\<lambda>c. \<not> is_space c) t))"

definition i32_digits :: "i32 \<Rightarrow> string" where
  "i32_digits x = (if sint x < 0 then ''-'' @ dec_digits (nat (- sint x)) else dec_digits (nat (sint x)))"

definition stat_path :: "i32 \<Rightarrow> string" where
  "stat_path pid = ''/proc/'' @ i32_digits pid @ ''/stat''"

definition is_zombie :: "(string \<Rightarrow> i32 + string) \<Rightarrow> i32 \<Rightarrow> bool result" where
  "is_zombie read_to_string pid =
    (let path = stat_path pid;
         parse_err = with_path (new_error Other NoCode ''parse /proc/<pid>/stat'') path
     in case read_to_string path of
          Inl code \<Rightarrow>
            (if code = ENOENT then Ok False else Err (errno_err ''read /proc/<pid>/stat'' code path))
        | Inr contents \<Rightarrow>
            (case after_last (CHR '')'') contents of
               None \<Rightarrow> Err parse_err
             | Some rest \<Rightarrow>
                (case first_word rest of None \<Rightarrow> Err parse_err | Some state \<Rightarrow> Ok (state = ''Z''))))"

section \<open>Waiting\<close>

definition decode :: "WaitMacros \<Rightarrow> i32 \<Rightarrow> ExitStatus" where
  "decode m status =
    (if wifexited m status then Code (wexitstatus m status)
     else if wifsignaled m status then Signaled (wtermsig m status)
     else Code 1)"

definition decode_job :: "WaitMacros \<Rightarrow> i32 \<Rightarrow> ExitStatus" where
  "decode_job m status =
    (if wifexited m status then Code (wexitstatus m status)
     else if wifsignaled m status then Signaled (wtermsig m status)
     else if wifstopped m status then Stopped (wstopsig m status)
     else Continued)"

definition waitpid :: "i32 \<Rightarrow> WaitFlag list \<Rightarrow> Kernel \<Rightarrow> (WaitAnswer \<times> Kernel) option" where
  "waitpid pid flags k =
    (case k_waits k of
       [] \<Rightarrow> None
     | a # as \<Rightarrow> Some (a, k\<lparr>k_waits := as, k_wait_calls := k_wait_calls k @ [(pid, flags)]\<rparr>))"

lemma waitpid_decreases: "waitpid pid flags k = Some (a, k1) \<Longrightarrow> length (k_waits k1) < length (k_waits k)"
  by (auto simp: waitpid_def split: list.splits)

text \<open>The two retry loops, blocking and with \<open>WNOHANG\<close>; \<open>dec\<close> is the decoder of the variant.\<close>

function wait_retry :: "(i32 \<Rightarrow> ExitStatus) \<Rightarrow> i32 \<Rightarrow> WaitFlag list \<Rightarrow> Kernel
    \<Rightarrow> (ExitStatus result \<times> Kernel) option" where
  "wait_retry dec pid flags k =
    (case waitpid pid flags k of
       None \<Rightarrow> None
     | Some (a, k1) \<Rightarrow>
         if wa_ret a = pid then Some (Ok (dec (wa_status a)), k1)
         else if wa_errno a = EINTR then wait_retry dec pid flags k1
         else Some (Err (errno_err ''waitpid'' (wa_errno a) []), k1))"
  by pat_completeness auto
termination wait_retry
  by (relation "measure (\<lambda>(_, _, _, k). length (k_waits k))") (auto dest: waitpid_decreases)

function poll_retry :: "(i32 \<Rightarrow> ExitStatus) \<Rightarrow> i32 \<Rightarrow> WaitFlag list \<Rightarrow> Kernel
    \<Rightarrow> (ExitStatus option result \<times> Kernel) option" where
  "poll_retry dec pid flags k =
    (case waitpid pid flags k of
       None \<Rightarrow> None
     | Some (a, k1) \<Rightarrow>
         if wa_ret a = pid then Some (Ok (Some (dec (wa_status a))), k1)
         else if wa_ret a = 0 then Some (Ok None, k1)
         else if wa_errno a = EINTR then poll_retry dec pid flags k1
         else Some (Err (errno_err ''waitpid'' (wa_errno a) []), k1))"
  by pat_completeness auto
termination poll_retry
  by (relation "measure (\<lambda>(_, _, _, k). length (k_waits k))") (auto dest: waitpid_decreases)

declare wait_retry.simps [simp del] poll_retry.simps [simp del]

definition sys_wait :: "WaitMacros \<Rightarrow> i32 \<Rightarrow> Kernel \<Rightarrow> (ExitStatus result \<times> Kernel) option" where
  "sys_wait m pid = wait_retry (decode m) pid []"

definition sys_try_wait :: "WaitMacros \<Rightarrow> i32 \<Rightarrow> Kernel \<Rightarrow> (ExitStatus option result \<times> Kernel) option" where
  "sys_try_wait m pid = poll_retry (decode m) pid [WNOHANG]"

definition sys_wait_job :: "WaitMacros \<Rightarrow> i32 \<Rightarrow> Kernel \<Rightarrow> (ExitStatus result \<times> Kernel) option" where
  "sys_wait_job m pid = wait_retry (decode_job m) pid [WUNTRACED, WCONTINUED]"

definition sys_try_wait_job :: "WaitMacros \<Rightarrow> i32 \<Rightarrow> Kernel \<Rightarrow> (ExitStatus option result \<times> Kernel) option" where
  "sys_try_wait_job m pid = poll_retry (decode_job m) pid [WNOHANG, WUNTRACED, WCONTINUED]"

section \<open>Children\<close>

record LinuxChild =
  lc_pid :: i32
  lc_group :: "i32 option"
  lc_reaped :: "ExitStatus option"
  lc_pipes :: "i32 option list"

definition from_pid :: "i32 \<Rightarrow> i32 option \<Rightarrow> LinuxChild" where
  "from_pid pid grp = \<lparr>lc_pid = pid, lc_group = grp, lc_reaped = None, lc_pipes = [None, None, None]\<rparr>"

definition child_wait :: "WaitMacros \<Rightarrow> LinuxChild \<Rightarrow> Kernel \<Rightarrow> (ExitStatus result \<times> Kernel) option" where
  "child_wait m c k =
    (case lc_reaped c of Some status \<Rightarrow> Some (Ok status, k) | None \<Rightarrow> sys_wait m (lc_pid c) k)"

definition child_id :: "LinuxChild \<Rightarrow> u32" where
  "child_id c = lc_pid c"

definition child_kill_tree :: "Signal \<Rightarrow> LinuxChild \<Rightarrow> unit kact" where
  "child_kill_tree sig c =
    (case lc_group c of
       None \<Rightarrow> kfail (new_error Unsupported NoCode ''kill_tree'')
     | Some pgid \<Rightarrow> kill_group pgid sig)"

definition child_kill_single :: "Signal \<Rightarrow> LinuxChild \<Rightarrow> unit kact" where
  "child_kill_single sig c = kill_single (lc_pid c) sig"

definition child_try_wait ::
    "WaitMacros \<Rightarrow> LinuxChild \<Rightarrow> Kernel \<Rightarrow> (ExitStatus option result \<times> LinuxChild \<times> Kernel) option" where
  "child_try_wait m c k =
    (case lc_reaped c of
       None \<Rightarrow>
        (case sys_try_wait m (lc_pid c) k of
           None \<Rightarrow> None
         | Some (Err e, k1) \<Rightarrow> Some (Err e, c, k1)
         | Some (Ok r, k1) \<Rightarrow> Some (Ok r, c\<lparr>lc_reaped := r\<rparr>, k1))
     | Some status \<Rightarrow> Some (Ok (Some status), c, k))"

definition stash :: "ExitStatus \<Rightarrow> LinuxChild \<Rightarrow> LinuxChild" where
  "stash status c =
    (case status of Stopped _ \<Rightarrow> c | Continued \<Rightarrow> c | _ \<Rightarrow> c\<lparr>lc_reaped := Some status\<rparr>)"

definition child_wait_job ::
    "WaitMacros \<Rightarrow> LinuxChild \<Rightarrow> Kernel \<Rightarrow> (ExitStatus result \<times> LinuxChild \<times> Kernel) option" where
  "child_wait_job m c k =
    (case lc_reaped c of
       Some status \<Rightarrow> Some (Ok status, c, k)
     | None \<Rightarrow>
        (case sys_wait_job m (lc_pid c) k of
           None \<Rightarrow> None
         | Some (Err e, k1) \<Rightarrow> Some (Err e, c, k1)
         | Some (Ok status, k1) \<Rightarrow> Some (Ok status, stash status c, k1)))"

definition child_try_wait_job ::
    "WaitMacros \<Rightarrow> LinuxChild \<Rightarrow> Kernel \<Rightarrow> (ExitStatus option result \<times> LinuxChild \<times> Kernel) option" where
  "child_try_wait_job m c k =
    (case lc_reaped c of
       Some status \<Rightarrow> Some (Ok (Some status), c, k)
     | None \<Rightarrow>
        (case sys_try_wait_job m (lc_pid c) k of
           None \<Rightarrow> None
         | Some (Err e, k1) \<Rightarrow> Some (Err e, c, k1)
         | Some (Ok None, k1) \<Rightarrow> Some (Ok None, c, k1)
         | Some (Ok (Some s), k1) \<Rightarrow> Some (Ok (Some s), stash s c, k1)))"

definition take_pipe :: "nat \<Rightarrow> LinuxChild \<Rightarrow> i32 option \<times> LinuxChild" where
  "take_pipe i c = (lc_pipes c ! i, c\<lparr>lc_pipes := (lc_pipes c)[i := None]\<rparr>)"

definition take_stdin :: "LinuxChild \<Rightarrow> i32 option \<times> LinuxChild" where "take_stdin = take_pipe 0"
definition take_stdout :: "LinuxChild \<Rightarrow> i32 option \<times> LinuxChild" where "take_stdout = take_pipe 1"
definition take_stderr :: "LinuxChild \<Rightarrow> i32 option \<times> LinuxChild" where "take_stderr = take_pipe 2"

section \<open>The spawner\<close>

text \<open>\<open>metadata\<close> is what the file system says of a path: whether it is a regular file, and
  its mode bits (the mask \<open>0x49\<close> is octal 111).  \<open>path_join\<close> is \<open>Path::join\<close> of a directory and a name without
  a slash.\<close>

definition path_join :: "string \<Rightarrow> string \<Rightarrow> string" where
  "path_join dir name =
    (if dir = [] \<or> last dir = CHR ''/'' then dir @ name else dir @ ''/'' @ name)"

definition is_executable_file :: "(string \<Rightarrow> (bool \<times> u32) option) \<Rightarrow> string \<Rightarrow> bool" where
  "is_executable_file metadata path =
    (case metadata path of Some (is_file, mode) \<Rightarrow> is_file \<and> mode AND 0x49 \<noteq> 0 | None \<Rightarrow> False)"

fun search_path :: "(string \<Rightarrow> bool) \<Rightarrow> string list \<Rightarrow> string \<Rightarrow> string option" where
  "search_path is_exec [] program = None"
| "search_path is_exec (dir # dirs) program =
    (if is_exec (path_join dir program) then Some (path_join dir program)
     else search_path is_exec dirs program)"

definition resolve ::
    "(string \<Rightarrow> (bool \<times> u32) option) \<Rightarrow> string option \<Rightarrow> string \<Rightarrow> string result" where
  "resolve metadata path_var program =
    (if program = [] then Err (with_path (new_error InvalidInput NoCode ''resolve'') program)
     else if CHR ''/'' \<in> set program then
       (if is_executable_file metadata program then Ok program
        else Err (with_path (new_error NotFound NoCode ''resolve'') program))
     else
       case (case path_var of None \<Rightarrow> None | Some pv \<Rightarrow> search_path (is_executable_file metadata) (split_on (CHR '':'') pv) program) of
         Some candidate \<Rightarrow> Ok candidate
       | None \<Rightarrow> Err (with_path (new_error NotFound NoCode ''resolve'') program))"

definition joins_group :: "GroupSpec \<Rightarrow> bool" where
  "joins_group g = (case g of JoinGroup _ \<Rightarrow> True | _ \<Rightarrow> False)"

definition child_group :: "'f Command \<Rightarrow> i32 \<Rightarrow> i32 option" where
  "child_group cmd pid =
    (case cmd_group cmd of
       GroupInherit \<Rightarrow> (if cmd_detached cmd then Some pid else None)
     | NewGroup \<Rightarrow> Some pid
     | JoinGroup pgid \<Rightarrow> Some pgid)"

definition spawn ::
    "(string \<Rightarrow> (bool \<times> u32) option) \<Rightarrow> string option \<Rightarrow> ('f \<Rightarrow> i32 option) \<Rightarrow> 'f Command \<Rightarrow> LinuxChild kact" where
  "spawn metadata path_var raw_fd cmd =
    (if cmd_detached cmd \<and> joins_group (cmd_group cmd)
     then kfail (new_error InvalidInput NoCode ''spawn: detach cannot join an existing group'')
     else if cmd_detached cmd \<and> cmd_group cmd = NewGroup
     then kfail (new_error Unsupported NoCode ''spawn: detach with GroupSpec::NewGroup'')
     else
       kbind (lift_result (resolve metadata path_var (cmd_program cmd))) (\<lambda>resolved.
       kbind (sys_spawn raw_fd resolved (cmd_program cmd) (cmd_argv cmd) (cmd_cwd cmd) (cmd_env cmd)
                [cmd_stdin cmd, cmd_stdout cmd, cmd_stderr cmd] (cmd_group cmd) (cmd_detached cmd))
         (\<lambda>(pid, pipes).
           kret \<lparr>lc_pid = pid, lc_group = child_group cmd pid, lc_reaped = None, lc_pipes = pipes\<rparr>)))"

definition adopt :: "u32 \<Rightarrow> unit result" where
  "adopt pid = Err (new_error Unsupported NoCode ''adopt'')"

section \<open>Sequencing\<close>

lemma kbind_Ok: "kbind m f k = (Ok y, k') \<longleftrightarrow> (\<exists>x k1. m k = (Ok x, k1) \<and> f x k1 = (Ok y, k'))"
  by (auto simp: kbind_def split: prod.splits sum.splits)

lemma closing_Ok: "closing fds m k = (Ok y, k') \<longleftrightarrow> m k = (Ok y, k')"
  by (auto simp: closing_def split: prod.splits sum.splits)

lemma kret_Ok: "kret x k = (Ok y, k') \<longleftrightarrow> y = x \<and> k' = k"
  by (auto simp: kret_def)

lemma lift_result_Ok: "lift_result r k = (Ok y, k') \<longleftrightarrow> r = Ok y \<and> k' = k"
  by (auto simp: lift_result_def)

lemmas kact_Ok = kbind_Ok closing_Ok kret_Ok lift_result_Ok

section \<open>Calls that spawn nothing\<close>

definition no_spawn :: "'a kact \<Rightarrow> bool" where
  "no_spawn m \<longleftrightarrow> (\<forall>k. k_spawned (snd (m k)) = k_spawned k)"

named_theorems no_spawn_intros \<open>actions that do not reach \<open>posix_spawn\<close>\<close>

lemma no_spawnD: "no_spawn m \<Longrightarrow> m k = (r, k1) \<Longrightarrow> k_spawned k1 = k_spawned k"
  by (metis no_spawn_def snd_conv)

lemma no_spawn_bind [no_spawn_intros]:
  assumes "no_spawn m" "\<And>x. no_spawn (f x)"
  shows "no_spawn (kbind m f)"
  unfolding no_spawn_def
proof
  fix k
  obtain r k1 where "m k = (r, k1)" by fastforce
  then show "k_spawned (snd (kbind m f k)) = k_spawned k"
    using no_spawnD[OF assms(1)] assms(2) by (cases r) (auto simp: kbind_def no_spawn_def)
qed

lemma no_spawn_closing [no_spawn_intros]: "no_spawn m \<Longrightarrow> no_spawn (closing fds m)"
  unfolding no_spawn_def closing_def close_fds_def by (auto split: prod.splits sum.splits dest: spec) (metis snd_conv)+

lemma no_spawn_basic [no_spawn_intros]:
  "no_spawn (kret x)" "no_spawn (kfail e)" "no_spawn (lift_result r)" "no_spawn (lib_call op path)" "no_spawn make_pipe"
  by (auto simp: no_spawn_def kret_def kfail_def lift_result_def lib_call_def make_pipe_def Let_def
      split: sum.splits)

lemma no_spawn_wire_slot [no_spawn_intros]: "no_spawn (wire_slot raw_fd fd spec)"
  by (auto simp: wire_slot_def Let_def split: Stdio.splits option.splits prod.splits
      intro!: no_spawn_intros)

lemma no_spawn_wire_stdio [no_spawn_intros]: "no_spawn (wire_stdio raw_fd fd specs)"
  by (induction raw_fd fd specs rule: wire_stdio.induct)
    (auto intro!: no_spawn_intros split: prod.splits)

lemma no_spawn_set_attributes [no_spawn_intros]: "no_spawn (set_attributes pgid d)"
  by (auto simp: set_attributes_def intro!: no_spawn_intros split: option.splits)

lemma to_cstring_Ok: "to_cstring s op = Ok c \<longleftrightarrow> c = s \<and> CHR 0x00 \<notin> set s"
  by (auto simp: to_cstring_def)

lemma to_cstrings_Ok: "to_cstrings op ss = Ok cs \<longleftrightarrow> cs = ss \<and> list_all (\<lambda>s. CHR 0x00 \<notin> set s) ss"
  by (induction op ss arbitrary: cs rule: to_cstrings.induct) (auto simp: and_then_Ok_iff to_cstring_Ok)

lemma spawn_wired_Ok:
  assumes "spawn_wired path argv env grp detached acts parents children k = (Ok (pid, ps), k')"
  shows "ps = parents \<and> k_spawned k' = k_spawned k @ [\<lparr>sp_path = path, sp_argv = argv, sp_env = env,
    sp_actions = acts, sp_setpgroup = target_pgid grp, sp_setsid = detached\<rparr>]"
proof -
  obtain k1 k2 k3 where "lib_call ''posix_spawnattr_init'' [] k = (Ok (), k1)"
      "set_attributes (target_pgid grp) detached k1 = (Ok (), k2)"
      "posix_spawn \<lparr>sp_path = path, sp_argv = argv, sp_env = env, sp_actions = acts,
           sp_setpgroup = target_pgid grp, sp_setsid = detached\<rparr> k2 = (Ok pid, k3)"
      "ps = parents" "k' = close_fds (opt_fds children) k3"
    using assms by (auto simp: spawn_wired_def kact_Ok)
  then show ?thesis
    using no_spawnD[OF no_spawn_basic(4)] no_spawnD[OF no_spawn_set_attributes]
    by (auto simp: posix_spawn_def Let_def close_fds_def split: sum.splits)
qed

lemma sys_spawn_Ok:
  assumes "sys_spawn raw_fd path argv0 args cwd env stdio grp detached k = (Ok (pid, ps), k')"
  shows "\<exists>envs acts. build_env (k_environ k) env = Ok envs
    \<and> k_spawned k' = k_spawned k @ [\<lparr>sp_path = path, sp_argv = argv0 # args, sp_env = envs,
        sp_actions = AddChdir cwd # acts, sp_setpgroup = target_pgid grp, sp_setsid = detached\<rparr>]
    \<and> list_all (\<lambda>s. CHR 0x00 \<notin> set s) (path # cwd # (argv0 # args) @ envs)"
proof -
  obtain envs k1 k2 k3 acts parents children where
      c: "to_cstring path ''posix_spawn'' = Ok path" "to_cstring cwd ''posix_spawn chdir'' = Ok cwd"
        "to_cstrings ''posix_spawn argv'' (argv0 # args) = Ok (argv0 # args)" "build_env (k_environ k) env = Ok envs"
    and k: "lib_call ''posix_spawn_file_actions_init'' [] k = (Ok (), k1)"
        "lib_call ''posix_spawn chdir'' cwd k1 = (Ok (), k2)"
        "wire_stdio raw_fd 0 stdio k2 = (Ok (acts, parents, children), k3)"
    and w: "spawn_wired path (argv0 # args) envs grp detached (AddChdir cwd # acts) parents children k3
        = (Ok (pid, ps), k')"
    using assms unfolding sys_spawn_def
    by (auto simp del: to_cstrings.simps simp: kact_Ok to_cstring_Ok to_cstrings_Ok)
  have "k_spawned k3 = k_spawned k"
    using no_spawnD[OF no_spawn_basic(4) k(1)] no_spawnD[OF no_spawn_basic(4) k(2)]
      no_spawnD[OF no_spawn_wire_stdio k(3)] by simp
  then show ?thesis
    using c spawn_wired_Ok[OF w] by (auto simp del: to_cstrings.simps simp: build_env_def Let_def to_cstring_Ok to_cstrings_Ok)
qed

section \<open>Descriptor ownership\<close>

text \<open>\<open>owns A m g\<close>: an action that starts owning the descriptors \<open>A\<close> has released all of them
  when it fails, and owns exactly \<open>g x\<close> when it returns \<open>x\<close>.  \<open>keeps\<close> is the same but for a
  failure, which leaves \<open>A\<close> to the caller.\<close>

definition owns :: "i32 multiset \<Rightarrow> 'a kact \<Rightarrow> ('a \<Rightarrow> i32 multiset) \<Rightarrow> bool" where
  "owns A m g \<longleftrightarrow> (\<forall>k B. mset (k_fds k) = B + A \<longrightarrow>
    (case m k of (Err e, k1) \<Rightarrow> mset (k_fds k1) = B | (Ok x, k1) \<Rightarrow> mset (k_fds k1) = B + g x))"

definition keeps :: "i32 multiset \<Rightarrow> 'a kact \<Rightarrow> ('a \<Rightarrow> i32 multiset) \<Rightarrow> bool" where
  "keeps A m g \<longleftrightarrow> (\<forall>k B. mset (k_fds k) = B + A \<longrightarrow>
    (case m k of (Err e, k1) \<Rightarrow> mset (k_fds k1) = B + A | (Ok x, k1) \<Rightarrow> mset (k_fds k1) = B + g x))"

lemma mset_fold_remove1: "mset (fold remove1 xs ys) = mset ys - mset xs"
  by (induction xs arbitrary: ys) (simp_all add: diff_diff_add)

lemma owns_bind:
  assumes "owns A m g" "\<And>x. owns (g x) (f x) h"
  shows "owns A (kbind m f) h"
  unfolding owns_def
proof (intro allI impI)
  fix k :: Kernel and B
  assume k: "mset (k_fds k) = B + A"
  obtain r k1 where m: "m k = (r, k1)" by fastforce
  show "case kbind m f k of (Err e, k1) \<Rightarrow> mset (k_fds k1) = B | (Ok x, k1) \<Rightarrow> mset (k_fds k1) = B + h x"
    using assms(1)[unfolded owns_def, rule_format, OF k] assms(2)[unfolded owns_def, rule_format, of k1 B]
    by (cases r) (simp_all add: kbind_def m)
qed

lemma keeps_bind:
  assumes "keeps A m (\<lambda>_. A)" "\<And>x. keeps A (f x) h"
  shows "keeps A (kbind m f) h"
  unfolding keeps_def
proof (intro allI impI)
  fix k :: Kernel and B
  assume k: "mset (k_fds k) = B + A"
  obtain r k1 where m: "m k = (r, k1)" by fastforce
  show "case kbind m f k of (Err e, k1) \<Rightarrow> mset (k_fds k1) = B + A | (Ok x, k1) \<Rightarrow> mset (k_fds k1) = B + h x"
    using assms(1)[unfolded keeps_def, rule_format, OF k] assms(2)[unfolded keeps_def, rule_format, of k1 B]
    by (cases r) (simp_all add: kbind_def m)
qed

lemma owns_closing:
  assumes "keeps (mset fds) m g"
  shows "owns (mset fds) (closing fds m) g"
  unfolding owns_def
proof (intro allI impI)
  fix k :: Kernel and B
  assume "mset (k_fds k) = B + mset fds"
  with assms have "case m k of (Err e, k1) \<Rightarrow> mset (k_fds k1) = B + mset fds | (Ok x, k1) \<Rightarrow> mset (k_fds k1) = B + g x"
    by (simp add: keeps_def)
  then show "case closing fds m k of (Err e, k1) \<Rightarrow> mset (k_fds k1) = B | (Ok x, k1) \<Rightarrow> mset (k_fds k1) = B + g x"
    by (auto simp: closing_def close_fds_def mset_fold_remove1 split: prod.splits sum.splits)
qed

lemma keeps_owns:
  assumes "owns {#} m g"
  shows "keeps A m (\<lambda>x. A + g x)"
  unfolding keeps_def
proof (intro allI impI)
  fix k :: Kernel and B
  assume "mset (k_fds k) = B + A"
  then show "case m k of (Err e, k1) \<Rightarrow> mset (k_fds k1) = B + A | (Ok x, k1) \<Rightarrow> mset (k_fds k1) = B + (A + g x)"
    using assms[unfolded owns_def, rule_format, of k "B + A"]
    by (auto simp: add.assoc split: prod.splits sum.splits)
qed

lemma owns_basic:
  "g x = {#} \<Longrightarrow> owns {#} (kret x) g" "owns {#} (kfail e) g" "owns {#} (lift_result r) (\<lambda>_. {#})"
  "owns {#} (lib_call op path) (\<lambda>_. {#})" "owns {#} make_pipe (\<lambda>(r, w). {#r, w#})"
  by (auto simp: owns_def kret_def kfail_def lift_result_def lib_call_def make_pipe_def Let_def
      split: sum.splits)

lemma keeps_ret: "g x = A \<Longrightarrow> keeps A (kret x) g"
  by (simp add: keeps_def kret_def)

lemma keeps_lib_call: "keeps A (lib_call op path) (\<lambda>_. A)"
  using keeps_owns[OF owns_basic(4)] by simp

lemma keeps_map:
  assumes "keeps A m g" "\<And>x. h (t x) = g x"
  shows "keeps A (kbind m (\<lambda>x. kret (t x))) h"
  using assms unfolding keeps_def kbind_def kret_def by (fastforce split: prod.splits sum.splits)

definition slot_fds :: "FileAction list \<times> i32 option \<times> i32 option \<Rightarrow> i32 multiset" where
  "slot_fds = (\<lambda>(acts, p, c). mset (opt_list p @ opt_list c))"

definition wired_fds :: "FileAction list \<times> i32 option list \<times> i32 option list \<Rightarrow> i32 multiset" where
  "wired_fds = (\<lambda>(acts, ps, cs). mset (opt_fds ps @ opt_fds cs))"

lemma owns_pipe_ends:
  assumes "{#p, c#} = {#r, w#}"
  shows "owns {#r, w#} (closing [r, w] (kbind (lib_call op path) (\<lambda>_. kret (acts, Some p, Some c)))) slot_fds"
proof -
  have "keeps (mset [r, w]) (kbind (lib_call op path) (\<lambda>_. kret (acts, Some p, Some c))) slot_fds"
    by (rule keeps_bind[OF keeps_lib_call]) (simp add: keeps_ret assms slot_fds_def opt_list_def)
  from owns_closing[OF this] show ?thesis by simp
qed

lemma owns_wire_slot: "owns {#} (wire_slot raw_fd fd spec) slot_fds"
proof (cases spec)
  case StdioPipe
  have "owns {#} (kbind make_pipe (\<lambda>(r, w). let (child, parent) = (if fd = 0 then (r, w) else (w, r)) in
      closing [r, w] (kbind (lib_call ''posix_spawn adddup2'' []) (\<lambda>_.
        kret ([AddDup2 child fd], Some parent, Some child))))) slot_fds"
    by (rule owns_bind[OF owns_basic(5)])
      (auto simp: add_mset_commute intro!: owns_pipe_ends split: prod.splits)
  then show ?thesis using StdioPipe by (simp add: wire_slot_def)
qed (auto simp: wire_slot_def slot_fds_def opt_list_def split: option.splits
    intro!: owns_basic owns_bind[OF owns_basic(4)])

lemma owns_wire_stdio: "owns {#} (wire_stdio raw_fd fd specs) wired_fds"
proof (induction specs arbitrary: fd)
  case Nil
  show ?case by (simp add: owns_basic(1) wired_fds_def opt_fds_def)
next
  case (Cons spec specs)
  have "owns (slot_fds (acts, p, c)) (closing (opt_list p @ opt_list c)
      (kbind (wire_stdio raw_fd (Suc fd) specs) (\<lambda>(acts', ps, cs). kret (acts @ acts', p # ps, c # cs))))
      wired_fds" for acts p c
  proof -
    have "keeps (mset (opt_list p @ opt_list c))
        (kbind (wire_stdio raw_fd (Suc fd) specs) (\<lambda>x. kret (case x of (acts', ps, cs) \<Rightarrow> (acts @ acts', p # ps, c # cs))))
        wired_fds"
      by (rule keeps_map[OF keeps_owns[OF Cons.IH]]) (auto simp: wired_fds_def opt_fds_def)
    from owns_closing[OF this] show ?thesis by (simp add: slot_fds_def case_prod_unfold)
  qed
  then show ?case by (auto intro!: owns_bind[OF owns_wire_slot])
qed

lemma keeps_set_attributes: "keeps A (set_attributes pgid d) (\<lambda>_. A)"
  by (auto simp: set_attributes_def intro!: keeps_ret keeps_bind[OF keeps_lib_call] keeps_lib_call split: option.splits)

lemma keeps_posix_spawn: "keeps A (posix_spawn c) (\<lambda>_. A)"
  by (auto simp: keeps_def posix_spawn_def Let_def split: sum.splits)

lemma owns_spawn_wired:
  "owns (mset (opt_fds parents @ opt_fds children))
    (spawn_wired path argv env grp detached acts parents children) (\<lambda>(pid, ps). mset (opt_fds ps))"
proof -
  have "keeps (mset (opt_fds parents @ opt_fds children))
      (\<lambda>k. (Ok (pid, parents), close_fds (opt_fds children) k)) (\<lambda>(pid, ps). mset (opt_fds ps))" for pid :: i32
    by (auto simp: keeps_def close_fds_def mset_fold_remove1)
  then show ?thesis unfolding spawn_wired_def
    by (intro owns_closing keeps_bind[OF keeps_lib_call] keeps_bind[OF keeps_set_attributes]
        keeps_bind[OF keeps_posix_spawn])
qed

lemma owns_sys_spawn:
  "owns {#} (sys_spawn raw_fd path argv0 args cwd env stdio grp detached) (\<lambda>(pid, ps). mset (opt_fds ps))"
proof -
  have "owns {#} (\<lambda>k. kbind (lift_result (to_cstring path ''posix_spawn'')) (\<lambda>c_path.
     kbind (lift_result (to_cstring cwd ''posix_spawn chdir'')) (\<lambda>c_cwd.
     kbind (lift_result (to_cstrings ''posix_spawn argv'' (argv0 # args))) (\<lambda>c_argv.
     kbind (lift_result (build_env e env)) (\<lambda>c_env.
     kbind (lib_call ''posix_spawn_file_actions_init'' []) (\<lambda>_.
     kbind (lib_call ''posix_spawn chdir'' cwd) (\<lambda>_.
     kbind (wire_stdio raw_fd 0 stdio) (\<lambda>(acts, parents, children).
       spawn_wired c_path c_argv c_env grp detached (AddChdir c_cwd # acts) parents children))))))) k)
     (\<lambda>(pid, ps). mset (opt_fds ps))" for e
    using owns_spawn_wired
    by (intro owns_bind[OF owns_basic(3)] owns_bind[OF owns_basic(4)] owns_bind[OF owns_wire_stdio])
      (auto simp: wired_fds_def)
  then show ?thesis by (simp add: owns_def sys_spawn_def)
qed

lemma owns_spawn:
  "owns {#} (spawn metadata path_var raw_fd cmd) (\<lambda>c. mset (opt_fds (lc_pipes c)))"
  unfolding spawn_def
  by (auto intro!: owns_basic owns_bind[OF owns_basic(3)] owns_bind[OF owns_sys_spawn])
    (auto simp: owns_def kret_def)

section \<open>Polling a child\<close>

datatype child_op = TryWait | WaitJob | TryWaitJob

text \<open>The three polls with one result type, and a sequence of polls.\<close>

fun child_step :: "WaitMacros \<Rightarrow> child_op \<Rightarrow> LinuxChild \<Rightarrow> Kernel
    \<Rightarrow> (ExitStatus option result \<times> LinuxChild \<times> Kernel) option" where
  "child_step m TryWait c k = child_try_wait m c k"
| "child_step m TryWaitJob c k = child_try_wait_job m c k"
| "child_step m WaitJob c k =
    (case child_wait_job m c k of
       None \<Rightarrow> None
     | Some (Err e, c1, k1) \<Rightarrow> Some (Err e, c1, k1)
     | Some (Ok st, c1, k1) \<Rightarrow> Some (Ok (Some st), c1, k1))"

fun child_run :: "WaitMacros \<Rightarrow> child_op list \<Rightarrow> LinuxChild \<Rightarrow> Kernel
    \<Rightarrow> (ExitStatus option result list \<times> LinuxChild \<times> Kernel) option" where
  "child_run m [] c k = Some ([], c, k)"
| "child_run m (op # ops) c k =
    (case child_step m op c k of
       None \<Rightarrow> None
     | Some (r, c1, k1) \<Rightarrow>
        (case child_run m ops c1 k1 of None \<Rightarrow> None | Some (rs, c2, k2) \<Rightarrow> Some (r # rs, c2, k2)))"

definition reaped_ok :: "LinuxChild \<Rightarrow> bool" where
  "reaped_ok c = (case lc_reaped c of Some st \<Rightarrow> terminal st | None \<Rightarrow> True)"

lemma decode_terminal: "terminal (decode m status)"
  by (simp add: decode_def terminal_def)

lemma poll_retry_dec:
  assumes "poll_retry dec pid flags k = Some (Ok (Some st), k1)"
  shows "\<exists>status. st = dec status"
  using assms
proof (induction dec pid flags k rule: poll_retry.induct)
  case (1 dec pid flags k)
  then show ?case
    by (subst (asm) (2) poll_retry.simps) (auto split: option.splits prod.splits if_splits)
qed

lemma sys_try_wait_terminal:
  "sys_try_wait m pid k = Some (Ok r, k1) \<Longrightarrow> case r of Some st \<Rightarrow> terminal st | None \<Rightarrow> True"
  using poll_retry_dec[of "decode m" pid "[WNOHANG]" k] decode_terminal
  by (auto simp: sys_try_wait_def split: option.splits)

lemma stash_reaped:
  "lc_reaped c = None \<Longrightarrow> lc_reaped (stash st c) = (if terminal st then Some st else None)"
  by (simp add: stash_def terminal_def split: ExitStatus.splits)

text \<open>A poll of a child that is not reaped: what the kernel says decides what is stashed.\<close>

lemma child_step_fresh:
  assumes "lc_reaped c = None" "child_step m op c k = Some (r, c1, k1)"
  shows "lc_reaped c1 = (case r of Ok (Some st) \<Rightarrow> if terminal st then Some st else None | _ \<Rightarrow> None)"
proof (cases op)
  case TryWait
  then show ?thesis
    using assms sys_try_wait_terminal[of m "lc_pid c" k]
    by (auto simp: child_try_wait_def split: option.splits sum.splits prod.splits)
next
  case WaitJob
  then show ?thesis using assms
    by (auto simp: child_wait_job_def stash_reaped split: option.splits sum.splits prod.splits)
next
  case TryWaitJob
  then show ?thesis using assms
    by (auto simp: child_try_wait_job_def stash_reaped split: option.splits sum.splits prod.splits)
qed

lemma child_step_stashed:
  "lc_reaped c = Some st \<Longrightarrow> child_step m op c k = Some (Ok (Some st), c, k)"
  by (cases op) (simp_all add: child_try_wait_def child_wait_job_def child_try_wait_job_def)

lemma child_step_reaped:
  assumes "child_step m op c k = Some (r, c1, k1)" "reaped_ok c"
  shows "reaped_ok c1"
    and "r = Ok (Some st) \<Longrightarrow> lc_reaped c1 = (if terminal st then Some st else None)"
proof -
  consider "lc_reaped c = None" | st' where "lc_reaped c = Some st'" by fastforce
  then have "reaped_ok c1 \<and> (r = Ok (Some st) \<longrightarrow> lc_reaped c1 = (if terminal st then Some st else None))"
  proof cases
    case 1
    from child_step_fresh[OF this assms(1)] show ?thesis
      by (auto simp: reaped_ok_def split: sum.splits option.splits if_splits)
  next
    case 2
    then show ?thesis using assms child_step_stashed[OF 2, of m op k] by (auto simp: reaped_ok_def)
  qed
  then show "reaped_ok c1" "r = Ok (Some st) \<Longrightarrow> lc_reaped c1 = (if terminal st then Some st else None)" by auto
qed

lemma child_run_reaped:
  "child_run m ops c k = Some (rs, c1, k1) \<Longrightarrow> reaped_ok c \<Longrightarrow> reaped_ok c1"
proof (induction m ops c k arbitrary: rs rule: child_run.induct)
  case (2 m op ops c k)
  then show ?case using child_step_reaped(1) by (fastforce split: option.splits prod.splits)
qed simp

lemma child_run_stashed:
  "lc_reaped c = Some st \<Longrightarrow> child_run m ops c k = Some (replicate (length ops) (Ok (Some st)), c, k)"
  by (induction ops) (simp_all add: child_step_stashed)

section \<open>Properties\<close>

text \<open>C24.  Polling never loses the exit status and never waits for a reaped process: after any
  sequence of polls of a fresh child, once a poll reports that the child has terminated,
  every later poll and the final wait report that same status and make no further
  \<open>waitpid\<close> call; a stop or a continue is reported but never remembered as the end.\<close>

theorem linux_child_status_is_stable:
  assumes "child_run m before (from_pid pid grp) k0 = Some (rs, c, k)"
    and "child_step m op c k = Some (Ok (Some st), c1, k1)"
  shows "if terminal st
    then child_run m after c1 k1 = Some (replicate (length after) (Ok (Some st)), c1, k1)
      \<and> child_wait m c1 k1 = Some (Ok st, k1)
    else lc_reaped c1 = None"
proof -
  have "reaped_ok c" using child_run_reaped[OF assms(1)] by (simp add: reaped_ok_def from_pid_def)
  from child_step_reaped(2)[OF assms(2) this refl] show ?thesis
    by (auto simp: child_run_stashed child_wait_def)
qed

definition example_macros :: WaitMacros where
  "example_macros = \<lparr>wifexited = (\<lambda>s. s < 256), wexitstatus = (\<lambda>s. s), wifsignaled = (\<lambda>s. False),
     wtermsig = (\<lambda>s. s), wifstopped = (\<lambda>s. s < 512), wstopsig = (\<lambda>s. s)\<rparr>"

definition example_kernel :: "WaitAnswer list \<Rightarrow> Kernel" where
  "example_kernel ws = \<lparr>k_environ = [(''A'', ''1'')], k_ret = (\<lambda>_. 0), k_nret = 0, k_pipe = (\<lambda>n. Inr (10, 11)),
     k_npipe = 0, k_fds = [], k_posix_spawn = Inr 77, k_spawned = [], k_waits = ws, k_wait_calls = [],
     k_kill = (\<lambda>_ _. None), k_kills = []\<rparr>"

theorem linux_child_status_is_stable_witness:
  "\<exists>c1 k1. child_step example_macros WaitJob (from_pid 7 None)
      (example_kernel [\<lparr>wa_ret = -1, wa_status = 0, wa_errno = 4\<rparr>, \<lparr>wa_ret = 7, wa_status = 3, wa_errno = 0\<rparr>])
      = Some (Ok (Some (Code 3)), c1, k1)
    \<and> child_run example_macros [TryWait, TryWaitJob] c1 k1
        = Some (replicate (length [TryWait, TryWaitJob]) (Ok (Some (Code 3))), c1, k1)
    \<and> child_wait example_macros c1 k1 = Some (Ok (Code 3), k1)"
proof -
  let ?k = "example_kernel [\<lparr>wa_ret = -1, wa_status = 0, wa_errno = 4\<rparr>, \<lparr>wa_ret = 7, wa_status = 3, wa_errno = 0\<rparr>]"
  obtain c1 k1 where s: "child_step example_macros WaitJob (from_pid 7 None) ?k = Some (Ok (Some (Code 3)), c1, k1)"
    by (simp add: child_wait_job_def from_pid_def sys_wait_job_def wait_retry.simps waitpid_def example_kernel_def
        decode_job_def example_macros_def)
  have "child_run example_macros [] (from_pid 7 None) ?k = Some ([], from_pid 7 None, ?k)" by simp
  from linux_child_status_is_stable[OF this s, of "[TryWait, TryWaitJob]"] s
  show ?thesis by (auto simp: terminal_def)
qed

text \<open>What reaches \<open>posix_spawn\<close>: a successful spawn made exactly one call, with the
  program and its arguments unchanged and free of NUL bytes, the working directory set
  first, a new session exactly when detached and the group of the request, never both; and
  \<open>kill_tree\<close> has a target except for a plain inherited group, where it fails without
  sending any signal.  Detaching together with any group is refused before the kernel is
  asked anything.\<close>

theorem linux_spawn_placement:
  "(cmd_detached cmd \<and> cmd_group cmd \<noteq> GroupInherit \<longrightarrow>
      snd (spawn metadata path_var raw_fd cmd k) = k \<and> \<not> is_ok (fst (spawn metadata path_var raw_fd cmd k)))
   \<and> (spawn metadata path_var raw_fd cmd k = (Ok c, k') \<longrightarrow>
      (\<exists>call acts. k_spawned k' = k_spawned k @ [call]
        \<and> resolve metadata path_var (cmd_program cmd) = Ok (sp_path call)
        \<and> sp_argv call = cmd_program cmd # cmd_argv cmd
        \<and> list_all (\<lambda>s. CHR 0x00 \<notin> set s) (sp_path call # cmd_cwd cmd # sp_argv call @ sp_env call)
        \<and> sp_actions call = AddChdir (cmd_cwd cmd) # acts
        \<and> sp_setsid call = cmd_detached cmd \<and> sp_setpgroup call = target_pgid (cmd_group cmd)
        \<and> \<not> (sp_setsid call \<and> sp_setpgroup call \<noteq> None))
      \<and> lc_reaped c = None \<and> lc_group c = child_group cmd (lc_pid c)
      \<and> (lc_group c = None \<longleftrightarrow> cmd_group cmd = GroupInherit \<and> \<not> cmd_detached cmd)
      \<and> (lc_group c = None \<longrightarrow> child_kill_tree sig c k' = (Err (new_error Unsupported NoCode ''kill_tree''), k')))"
proof -
  have "cmd_detached cmd \<and> cmd_group cmd \<noteq> GroupInherit \<longrightarrow>
      snd (spawn metadata path_var raw_fd cmd k) = k \<and> \<not> is_ok (fst (spawn metadata path_var raw_fd cmd k))"
    by (cases "cmd_group cmd") (auto simp: spawn_def kfail_def joins_group_def)
  moreover have ?thesis if ok: "spawn metadata path_var raw_fd cmd k = (Ok c, k')"
  proof -
    have ref: "\<not> (cmd_detached cmd \<and> cmd_group cmd \<noteq> GroupInherit)" using ok calculation by auto
    then obtain p pid ps where p: "resolve metadata path_var (cmd_program cmd) = Ok p"
        "sys_spawn raw_fd p (cmd_program cmd) (cmd_argv cmd) (cmd_cwd cmd) (cmd_env cmd)
           [cmd_stdin cmd, cmd_stdout cmd, cmd_stderr cmd] (cmd_group cmd) (cmd_detached cmd) k = (Ok (pid, ps), k')"
        "c = \<lparr>lc_pid = pid, lc_group = child_group cmd pid, lc_reaped = None, lc_pipes = ps\<rparr>"
      using ok by (auto simp: spawn_def kact_Ok kfail_def split: if_splits)
    show ?thesis using calculation ref p sys_spawn_Ok[OF p(2)]
      by (auto simp: child_group_def target_pgid_def child_kill_tree_def kfail_def split: GroupSpec.splits)
  qed
  ultimately show ?thesis by blast
qed

lemma example_spawn:
  "\<exists>c k'. spawn (\<lambda>_. Some (True, 0x1ED)) None (\<lambda>_. None) ((command_new ''/ls'' ''/'')\<lparr>cmd_stdout := StdioPipe\<rparr> :: nat Command)
      (example_kernel []) = (Ok c, k') \<and> lc_pipes c = [None, Some 10, None]"
  by (simp add: spawn_def command_new_def example_kernel_def joins_group_def kbind_def lift_result_def resolve_def
      is_executable_file_def
      sys_spawn_def to_cstring_def build_env_def Let_def lib_call_def wire_slot_def kret_def make_pipe_def
      closing_def opt_list_def spawn_wired_def set_attributes_def target_pgid_def posix_spawn_def)

theorem linux_spawn_placement_witness:
  "\<exists>c k' call. spawn (\<lambda>_. Some (True, 0x1ED)) None (\<lambda>_. None) ((command_new ''/ls'' ''/'')\<lparr>cmd_stdout := StdioPipe\<rparr> :: nat Command)
      (example_kernel []) = (Ok c, k') \<and> k_spawned k' = k_spawned (example_kernel []) @ [call]
    \<and> sp_argv call = [''/ls''] \<and> \<not> sp_setsid call"
proof -
  let ?cmd = "(command_new ''/ls'' ''/'')\<lparr>cmd_stdout := StdioPipe\<rparr> :: nat Command"
  obtain c k' where ok: "spawn (\<lambda>_. Some (True, 0x1ED)) None (\<lambda>_. None) ?cmd (example_kernel []) = (Ok c, k')"
    using example_spawn by blast
  with linux_spawn_placement[of ?cmd "\<lambda>_. Some (True, 0x1ED)" None "\<lambda>_. None" "example_kernel []" c k' SigKill]
  obtain call where "k_spawned k' = k_spawned (example_kernel []) @ [call]"
      "sp_argv call = cmd_program ?cmd # cmd_argv ?cmd" "sp_setsid call = cmd_detached ?cmd" by blast
  then show ?thesis using ok by (auto simp: command_new_def)
qed

text \<open>C13.  No descriptor leaks from a spawn, whatever the kernel answers and wherever it
  fails: on an error every pipe end that was opened is closed again, and on success exactly
  the parent's ends handed to the child handle stay open, so that no stray copy of a write
  end keeps a reader from its end of file.\<close>

theorem linux_spawn_leaks_no_descriptor:
  "mset (k_fds (snd (spawn metadata path_var raw_fd cmd k))) = mset (k_fds k) +
    (case fst (spawn metadata path_var raw_fd cmd k) of
       Ok c \<Rightarrow> mset (concat (map opt_list (lc_pipes c))) | Err e \<Rightarrow> {#})"
  using owns_spawn[of metadata path_var raw_fd cmd, unfolded owns_def, rule_format, of k "mset (k_fds k)"]
  by (auto simp: opt_fds_def split: prod.splits sum.splits)

text \<open>The zombie test reads the state field of \<open>/proc/<pid>/stat\<close> whatever the process is
  called: the command name may contain spaces and closing parentheses, since the text is
  cut at its last parenthesis.  A missing entry is not a zombie.\<close>

theorem is_zombie_reads_state_field:
  assumes "CHR '')'' \<notin> set (gap @ state @ rest)" "list_all is_space gap"
    and "state \<noteq> []" "list_all (\<lambda>c. \<not> is_space c) state" "rest = [] \<or> is_space (hd rest)"
    and "read_stat (stat_path pid) = Inr (name @ '')'' @ gap @ state @ rest)"
  shows "is_zombie read_stat pid = Ok (state = ''Z'')"
proof -
  have "takeWhile (\<lambda>x. x \<noteq> CHR '')'') (rev (gap @ state @ rest) @ CHR '')'' # rev name) = rev (gap @ state @ rest)"
    using assms(1) by (subst takeWhile_append2) auto
  then have a: "after_last (CHR '')'') (name @ '')'' @ gap @ state @ rest) = Some (gap @ state @ rest)"
    by (simp add: after_last_def)
  have "dropWhile is_space (gap @ state @ rest) = dropWhile is_space (state @ rest)"
    using assms(2) by (subst dropWhile_append2) (auto simp: list_all_iff)
  also have "\<dots> = state @ rest" using assms(3,4) by (cases state) auto
  finally have d: "dropWhile is_space (gap @ state @ rest) = state @ rest" .
  have "takeWhile (\<lambda>c. \<not> is_space c) (state @ rest) = state"
    using assms(4,5) by (cases rest) (auto simp: takeWhile_append list_all_iff)
  then have "first_word (gap @ state @ rest) = Some state" using d assms(3) by (simp add: first_word_def)
  then show ?thesis using a assms(6) by (simp add: is_zombie_def Let_def)
qed

theorem is_zombie_reads_state_field_witness:
  "is_zombie (\<lambda>_. Inr ''7 (a) b) Z 1'') 7 = Ok True"
  using is_zombie_reads_state_field[of "'' ''" "''Z''" "'' 1''" "\<lambda>_. Inr ''7 (a) b) Z 1''" 7 "''7 (a) b''"]
  by (simp add: is_space_def)

end
