(* ===== verification/Linux_Wait.thy ===== *)
theory Linux_Wait
  imports Linux_Process
begin

text \<open>
  The multiplexed \<open>wait_any\<close> of the Linux backend: \<open>poll_pids\<close> over pidfds
  (\<open>platform-linux/src/sys/spawn.rs\<close>) and the override in \<open>platform-linux/src/process.rs\<close>, with
  its fast pass, its fallback to the portable loop of \<open>Platform_Process\<close>, and the reaping of
  the winner.  The kernel is a record of functions on a world \<open>'w\<close>; times are nanoseconds.
\<close>

section \<open>The kernel\<close>

abbreviation ENOSYS :: i32 where "ENOSYS \<equiv> 38"
abbreviation MILLI :: nat where "MILLI \<equiv> 1000000"

text \<open>\<open>ws_poll fds ms\<close> gives an error number or the number of ready descriptors with a test
  for each position; \<open>None\<close> means that the call never comes back.\<close>

record 'w WaitSys =
  ws_pidfd :: "i32 \<Rightarrow> 'w \<Rightarrow> (i32 + i32) \<times> 'w"
  ws_poll :: "i32 list \<Rightarrow> int \<Rightarrow> 'w \<Rightarrow> ((i32 + nat \<times> (nat \<Rightarrow> bool)) \<times> 'w) option"
  ws_close :: "i32 \<Rightarrow> 'w \<Rightarrow> 'w"
  ws_now :: "'w \<Rightarrow> nat"
  ws_sleep :: "nat \<Rightarrow> 'w \<Rightarrow> 'w"

section \<open>Polling pidfds\<close>

definition pidfd_open :: "'w WaitSys \<Rightarrow> i32 \<Rightarrow> 'w \<Rightarrow> i32 result \<times> 'w" where
  "pidfd_open ws pid w =
    (case ws_pidfd ws pid w of
       (Inl code, w1) \<Rightarrow>
         (Err (if code = ENOSYS then new_error Unsupported (Errno code) ''pidfd_open''
               else errno_err ''pidfd_open'' code []), w1)
     | (Inr fd, w1) \<Rightarrow> (Ok fd, w1))"

definition close_all :: "'w WaitSys \<Rightarrow> i32 list \<Rightarrow> 'w \<Rightarrow> 'w" where
  "close_all ws fds w = fold (ws_close ws) fds w"

fun open_pidfds :: "'w WaitSys \<Rightarrow> i32 list \<Rightarrow> i32 list \<Rightarrow> 'w \<Rightarrow> i32 list result \<times> 'w" where
  "open_pidfds ws [] pidfds w = (Ok pidfds, w)"
| "open_pidfds ws (pid # pids) pidfds w =
    (case pidfd_open ws pid w of
       (Err e, w1) \<Rightarrow> (Err e, close_all ws pidfds w1)
     | (Ok fd, w1) \<Rightarrow> open_pidfds ws pids (pidfds @ [fd]) w1)"

definition timeout_ms :: "nat option \<Rightarrow> nat \<Rightarrow> int" where
  "timeout_ms deadline now =
    (case deadline of None \<Rightarrow> -1 | Some d \<Rightarrow> int (min ((d - now) div MILLI) (2 ^ 31 - 1)))"

definition poll_once ::
  "'w WaitSys \<Rightarrow> i32 list \<Rightarrow> int \<Rightarrow> 'w \<Rightarrow> ((nat \<times> (nat \<Rightarrow> bool)) result \<times> 'w) option" where
  "poll_once ws fds ms w =
    (case ws_poll ws fds ms w of
       None \<Rightarrow> None
     | Some (Inl code, w1) \<Rightarrow> Some (Err (errno_err ''poll'' code []), w1)
     | Some (Inr r, w1) \<Rightarrow> Some (Ok r, w1))"

definition ready_result :: "i32 list \<Rightarrow> nat \<times> (nat \<Rightarrow> bool) \<Rightarrow> nat option result" where
  "ready_result fds r =
    (if fst r = 0 then Ok None
     else case List.find (snd r) [0..<length fds] of
            None \<Rightarrow> Err (new_error Other NoCode ''poll reported readiness but no pollfd shows revents'')
          | Some hit \<Rightarrow> Ok (Some hit))"

partial_function (option) poll_loop ::
  "'w WaitSys \<Rightarrow> i32 list \<Rightarrow> nat option \<Rightarrow> 'w \<Rightarrow> (nat option result \<times> 'w) option" where
  "poll_loop ws fds deadline w =
    (case poll_once ws fds (timeout_ms deadline (ws_now ws w)) w of
       None \<Rightarrow> None
     | Some (r, w1) \<Rightarrow>
         (case r of
            Inr x \<Rightarrow> Some (ready_result fds x, w1)
          | Inl e \<Rightarrow>
              (if err_os e = Errno EINTR then poll_loop ws fds deadline w1
               else Some (Err e, w1))))"

text \<open>\<open>Instant::now() + t\<close> panics beyond the last representable second.  The pidfds are closed
  on every way out.\<close>

definition INSTANT_END :: nat where
  "INSTANT_END = 2 ^ 63 * 1000000000"

definition poll_pids ::
  "'w WaitSys \<Rightarrow> i32 list \<Rightarrow> nat option \<Rightarrow> 'w \<Rightarrow> (nat option run \<times> 'w) option" where
  "poll_pids ws pids timeout w =
    (case open_pidfds ws pids [] w of
       (Err e, w1) \<Rightarrow> Some (Fail e, w1)
     | (Ok fds, w1) \<Rightarrow>
         (if timeout \<noteq> None \<and> INSTANT_END \<le> ws_now ws w1 + the timeout
          then Some (Panic, close_all ws fds w1)
          else case poll_loop ws fds (map_option (\<lambda>t. ws_now ws w1 + t) timeout) w1 of
                 None \<Rightarrow> None
               | Some (r, w2) \<Rightarrow> Some (run_of r, close_all ws fds w2)))"

section \<open>The override\<close>

datatype FastPass = Hit nat | Ours "(nat \<times> i32) list" | Foreign

text \<open>\<open>pid_of i\<close> is the pid of child \<open>i\<close> when it is a child of this backend.\<close>

fun fast_pass ::
  "'w poll \<Rightarrow> (nat \<Rightarrow> i32 option) \<Rightarrow> nat \<Rightarrow> nat \<Rightarrow> (nat \<times> i32) list \<Rightarrow> 'w \<Rightarrow> FastPass result \<times> 'w" where
  "fast_pass try_wait pid_of i 0 pending w = (Ok (Ours pending), w)"
| "fast_pass try_wait pid_of i (Suc k) pending w =
    (case try_wait i w of
       (Err e, w1) \<Rightarrow> (Err e, w1)
     | (Ok (Some _), w1) \<Rightarrow> (Ok (Hit i), w1)
     | (Ok None, w1) \<Rightarrow>
         (case pid_of i of
            Some pid \<Rightarrow> fast_pass try_wait pid_of (Suc i) k (pending @ [(i, pid)]) w1
          | None \<Rightarrow> (Ok Foreign, w1)))"

definition portable ::
  "'w WaitSys \<Rightarrow> 'w poll \<Rightarrow> nat \<Rightarrow> nat option \<Rightarrow> 'w \<Rightarrow> (nat option run \<times> 'w) option" where
  "portable ws try_wait n timeout w =
    map_option (\<lambda>(r, w1). (run_of r, w1)) (wait_any try_wait (ws_now ws) (ws_sleep ws) n timeout w)"

definition linux_wait_any ::
  "'w WaitSys \<Rightarrow> 'w poll \<Rightarrow> (nat \<Rightarrow> i32 option) \<Rightarrow> nat \<Rightarrow> nat option \<Rightarrow> 'w
   \<Rightarrow> (nat option run \<times> 'w) option" where
  "linux_wait_any ws try_wait pid_of n timeout w =
    (if n = 0 then Some (Fail (new_error InvalidInput NoCode ''wait_any''), w)
     else case fast_pass try_wait pid_of 0 n [] w of
       (Err e, w1) \<Rightarrow> Some (Fail e, w1)
     | (Ok (Hit i), w1) \<Rightarrow> Some (Ret (Some i), w1)
     | (Ok Foreign, w1) \<Rightarrow> portable ws try_wait n timeout w1
     | (Ok (Ours pending), w1) \<Rightarrow>
         (case poll_pids ws (map snd pending) timeout w1 of
            None \<Rightarrow> None
          | Some (Ret (Some pos), w2) \<Rightarrow>
              (let index = fst (pending ! pos) in
               case try_wait index w2 of
                 (Err e, w3) \<Rightarrow> Some (Fail e, w3)
               | (Ok _, w3) \<Rightarrow> Some (Ret (Some index), w3))
          | Some (Ret None, w2) \<Rightarrow> Some (Ret None, w2)
          | Some (Fail e, w2) \<Rightarrow>
              (if err_kind e = Unsupported then portable ws try_wait n timeout w2 else Some (Fail e, w2))
          | Some (Panic, w2) \<Rightarrow> Some (Panic, w2)))"

section \<open>The wait ends\<close>

text \<open>What the documentation of the calls promises: no call turns the clock back, a sleep
  lasts, a \<open>poll\<close> with a timeout comes back, reports nothing only when the timeout has passed,
  and is interrupted only while it waits.\<close>

definition clock_ok :: "'w WaitSys \<Rightarrow> 'w poll \<Rightarrow> bool" where
  "clock_ok ws try_wait \<longleftrightarrow>
    (\<forall>i w. ws_now ws w \<le> ws_now ws (snd (try_wait i w))) \<and>
    (\<forall>d w. ws_now ws w + d \<le> ws_now ws (ws_sleep ws d w)) \<and>
    (\<forall>p w. ws_now ws w \<le> ws_now ws (snd (ws_pidfd ws p w))) \<and>
    (\<forall>f w. ws_now ws w \<le> ws_now ws (ws_close ws f w)) \<and>
    (\<forall>fds (ms :: nat) w. \<exists>a w1. ws_poll ws fds (int ms) w = Some (a, w1) \<and> ws_now ws w \<le> ws_now ws w1 \<and>
       (a = Inl EINTR \<longrightarrow> 0 < ms \<and> ws_now ws w < ws_now ws w1) \<and>
       (\<forall>rev. a = Inr (0, rev) \<longrightarrow> ws_now ws w + ms * MILLI \<le> ws_now ws w1))"

lemma clock_okD:
  assumes "clock_ok ws try_wait"
  shows "ws_now ws w \<le> ws_now ws (snd (try_wait i w))"
    and "ws_now ws w + d \<le> ws_now ws (ws_sleep ws d w)"
    and "ws_now ws w \<le> ws_now ws (snd (ws_pidfd ws p w))"
    and "ws_now ws w \<le> ws_now ws (ws_close ws f w)"
  using assms by (auto simp: clock_ok_def)

lemma errno_err_os [simp]: "err_os (errno_err op code path) = Errno code"
  by (simp add: errno_err_def Let_def)

lemma poll_once_answer:
  assumes "clock_ok ws try_wait"
  obtains r w1 where "poll_once ws fds (int ms) w = Some (r, w1)" "ws_now ws w \<le> ws_now ws w1"
    "\<And>e. r = Err e \<Longrightarrow> err_os e = Errno EINTR \<Longrightarrow> 0 < ms \<and> ws_now ws w < ws_now ws w1"
    "\<And>rev. r = Ok (0, rev) \<Longrightarrow> ws_now ws w + ms * MILLI \<le> ws_now ws w1"
proof -
  obtain a w1 where a: "ws_poll ws fds (int ms) w = Some (a, w1)" "ws_now ws w \<le> ws_now ws w1"
    "a = Inl EINTR \<longrightarrow> 0 < ms \<and> ws_now ws w < ws_now ws w1"
    "\<forall>rev. a = Inr (0, rev) \<longrightarrow> ws_now ws w + ms * MILLI \<le> ws_now ws w1"
    using assms unfolding clock_ok_def by blast
  show thesis
  proof (cases a)
    case (Inl code)
    then show thesis using a by (intro that[of "Err (errno_err ''poll'' code [])" w1]) (auto simp: poll_once_def)
  next
    case (Inr x)
    then show thesis using a by (intro that[of "Ok x" w1]) (auto simp: poll_once_def)
  qed
qed

lemma ready_result_cases:
  "ready_result fds x = Ok None \<longleftrightarrow> fst x = 0"
  "ready_result fds x = Ok (Some hit) \<Longrightarrow> hit < length fds"
  by (auto simp: ready_result_def find_Some_iff split: option.splits if_splits)

text \<open>The time that has certainly passed when a wait of \<open>t\<close> nanoseconds reports its timeout: all but
  one millisecond of it, and at most the longest wait a poll can be asked for.\<close>

definition waited :: "nat \<Rightarrow> nat" where
  "waited t = min (t - (MILLI - 1)) ((2 ^ 31 - 1) * MILLI)"

lemma waited_le: "waited t \<le> min (t div MILLI) (2 ^ 31 - 1) * MILLI"
  using div_mult_mod_eq[of t MILLI] mod_less_divisor[of MILLI t] unfolding waited_def by linarith

lemma waited_step: "waited t \<le> s + waited (t - s)"
  unfolding waited_def by linarith

lemma waited_bound: "waited t \<le> t"
  unfolding waited_def by linarith

lemma poll_loop_returns:
  assumes "clock_ok ws try_wait"
  shows "\<exists>r w'. poll_loop ws fds (Some d) w = Some (r, w') \<and> ws_now ws w \<le> ws_now ws w' \<and>
    (\<forall>hit. r = Ok (Some hit) \<longrightarrow> hit < length fds) \<and>
    (r = Ok None \<longrightarrow> ws_now ws w + waited (d - ws_now ws w) \<le> ws_now ws w')"
proof (induction "d - ws_now ws w" arbitrary: w rule: less_induct)
  case less
  let ?t = "d - ws_now ws w"
  let ?ms = "min (?t div MILLI) (2 ^ 31 - 1)"
  have ms: "timeout_ms (Some d) (ws_now ws w) = int ?ms" by (simp add: timeout_ms_def)
  obtain r w1 where r: "poll_once ws fds (int ?ms) w = Some (r, w1)" "ws_now ws w \<le> ws_now ws w1"
    "\<And>e. r = Err e \<Longrightarrow> err_os e = Errno EINTR \<Longrightarrow> 0 < ?ms \<and> ws_now ws w < ws_now ws w1"
    "\<And>rev. r = Ok (0, rev) \<Longrightarrow> ws_now ws w + ?ms * MILLI \<le> ws_now ws w1"
    using poll_once_answer[OF assms] by blast
  show ?case
  proof (cases "\<exists>e. r = Err e \<and> err_os e = Errno EINTR")
    case True
    then obtain e where e: "r = Err e" "err_os e = Errno EINTR" by blast
    have adv: "0 < ?ms" "ws_now ws w < ws_now ws w1" using r(3)[OF e] by auto
    have "d - ws_now ws w1 < ?t" using adv by (auto simp: div_greater_zero_iff)
    from less.hyps[OF this] obtain r' w' where IH: "poll_loop ws fds (Some d) w1 = Some (r', w')"
      "ws_now ws w1 \<le> ws_now ws w'" "\<forall>hit. r' = Ok (Some hit) \<longrightarrow> hit < length fds"
      "r' = Ok None \<longrightarrow> ws_now ws w1 + waited (d - ws_now ws w1) \<le> ws_now ws w'" by blast
    have "poll_loop ws fds (Some d) w = Some (r', w')"
      using r(1) e IH(1) by (subst poll_loop.simps) (simp add: ms)
    moreover have "ws_now ws w + waited ?t \<le> ws_now ws w1 + waited (d - ws_now ws w1)"
      using waited_step[of ?t "ws_now ws w1 - ws_now ws w"] r(2) by simp
    ultimately show ?thesis using IH(2-4) r(2) by (intro exI[of _ r'] exI[of _ w']) auto
  next
    case False
    have "r = Ok (0, rev) \<Longrightarrow> ws_now ws w + waited ?t \<le> ws_now ws w1" for rev
      using r(4)[of rev] waited_le[of ?t] by linarith
    then show ?thesis
      using False r(1,2) ready_result_cases[of fds]
      by (subst poll_loop.simps) (auto simp: ms split: sum.splits)
  qed
qed

lemma close_all_now:
  "clock_ok ws try_wait \<Longrightarrow> ws_now ws w \<le> ws_now ws (close_all ws fs w)"
  by (induction fs arbitrary: w) (auto simp: close_all_def intro: le_trans clock_okD(4))

lemma open_pidfds_spec:
  assumes "clock_ok ws try_wait"
  shows "ws_now ws w \<le> ws_now ws (snd (open_pidfds ws pids acc w))"
    and "fst (open_pidfds ws pids acc w) = Ok fds \<Longrightarrow> length fds = length acc + length pids"
proof -
  show "ws_now ws w \<le> ws_now ws (snd (open_pidfds ws pids acc w))"
  proof (induction pids arbitrary: acc w)
    case (Cons pid pids)
    obtain a w1 where a: "ws_pidfd ws pid w = (a, w1)" by fastforce
    then have "ws_now ws w \<le> ws_now ws w1" using clock_okD(3)[OF assms, of w pid] by simp
    then show ?case
      using a Cons.IH[of w1] close_all_now[OF assms, of w1] by (cases a) (auto simp: pidfd_open_def intro: le_trans)
  qed simp
  show "fst (open_pidfds ws pids acc w) = Ok fds \<Longrightarrow> length fds = length acc + length pids"
    by (induction ws pids acc w rule: open_pidfds.induct) (auto split: prod.splits sum.splits)
qed

lemma poll_pids_returns:
  assumes "clock_ok ws try_wait"
  shows "\<exists>r w'. poll_pids ws pids (Some t) w = Some (r, w') \<and> ws_now ws w \<le> ws_now ws w' \<and>
    (\<forall>pos. r = Ret (Some pos) \<longrightarrow> pos < length pids) \<and>
    (r = Ret None \<longrightarrow> ws_now ws w + waited t \<le> ws_now ws w') \<and>
    (r = Panic \<longrightarrow> INSTANT_END \<le> ws_now ws w' + t)"
proof -
  obtain x w1 where x: "open_pidfds ws pids [] w = (x, w1)" by fastforce
  have now1: "ws_now ws w \<le> ws_now ws w1" using open_pidfds_spec(1)[OF assms, of w pids "[]"] x by simp
  show ?thesis
  proof (cases x)
    case (Inl e)
    then show ?thesis using x now1 by (simp add: poll_pids_def)
  next
    case (Inr fds)
    then have len: "length fds = length pids" using open_pidfds_spec(2)[OF assms, of pids "[]" w] x by simp
    obtain r w2 where r: "poll_loop ws fds (Some (ws_now ws w1 + t)) w1 = Some (r, w2)" "ws_now ws w1 \<le> ws_now ws w2"
      "\<forall>hit. r = Ok (Some hit) \<longrightarrow> hit < length fds"
      "r = Ok None \<longrightarrow> ws_now ws w1 + waited t \<le> ws_now ws w2"
      using poll_loop_returns[OF assms, of fds "ws_now ws w1 + t" w1] by auto
    show ?thesis
    proof (cases "INSTANT_END \<le> ws_now ws w1 + t")
      case True
      then show ?thesis
        using x Inr now1 close_all_now[OF assms, of w1 fds] by (simp add: poll_pids_def)
    next
      case False
      then have "poll_pids ws pids (Some t) w = Some (run_of r, close_all ws fds w2)"
        using x Inr r(1) by (simp add: poll_pids_def)
      then show ?thesis
        using r(2-4) now1 len close_all_now[OF assms, of w2 fds]
        by (cases r) (auto simp: run_of_def)
    qed
  qed
qed

lemma fast_pass_spec:
  assumes "clock_ok ws try_wait" "fast_pass try_wait pid_of i k acc w = (r, w')"
  shows "ws_now ws w \<le> ws_now ws w' \<and>
    (\<forall>j. r = Ok (Hit j) \<longrightarrow> i \<le> j \<and> j < i + k) \<and>
    (\<forall>pending. r = Ok (Ours pending) \<longrightarrow> map fst pending = map fst acc @ [i..<i + k])"
  using assms(2)
proof (induction k arbitrary: i acc w)
  case (Suc k)
  obtain x w1 where x: "try_wait i w = (x, w1)" by fastforce
  have now1: "ws_now ws w \<le> ws_now ws w1" using clock_okD(1)[OF assms(1), of w i] x by simp
  show ?case
  proof (cases "x = Ok None \<and> pid_of i \<noteq> None")
    case True
    then obtain pid where "fast_pass try_wait pid_of (Suc i) k (acc @ [(i, pid)]) w1 = (r, w')"
      using Suc.prems x by auto
    then show ?thesis using Suc.IH[of "Suc i" "acc @ [(i, pid)]" w1] now1 by (auto simp: upt_rec)
  next
    case False
    then show ?thesis using Suc.prems x now1 by (auto split: sum.splits option.splits)
  qed
qed auto

lemma portable_returns:
  assumes "clock_ok ws try_wait" "n \<noteq> 0"
  shows "\<exists>r w'. portable ws try_wait n (Some t) w = Some (r, w') \<and>
    (\<forall>j. r = Ret (Some j) \<longrightarrow> j < n) \<and>
    (r = Ret None \<longrightarrow> waited t \<le> ws_now ws w' - ws_now ws w) \<and> r \<noteq> Panic"
proof -
  obtain r w' where r: "wait_any try_wait (ws_now ws) (ws_sleep ws) n (Some t) w = Some (r, w')"
    "case r of Ok (Some j) \<Rightarrow> j < n \<and> (\<exists>st v. try_wait j v = (Ok (Some st), w'))
       | Ok None \<Rightarrow> t \<le> ws_now ws w' - ws_now ws w | Err e \<Rightarrow> True"
    using wait_loop_returns[of "ws_now ws" try_wait "ws_sleep ws" "ws_now ws w" w n t]
      clock_okD[OF assms(1)] assms(2) by (auto simp: wait_any_def)
  then show ?thesis using waited_bound[of t]
    by (auto simp: portable_def run_of_def split: sum.splits option.splits)
qed

lemma poll_result_cases:
  fixes r :: "nat option run"
  obtains (Hit) pos where "r = Ret (Some pos)" | (Timeout) "r = Ret None"
  | (Failed) e where "r = Fail e" | (Panicked) "r = Panic"
  by (metis run.exhaust option.exhaust)

section \<open>Properties\<close>

text \<open>C31. With a timeout the multiplexed \<open>wait_any\<close> always returns, whatever the children are and
  however often the poll is interrupted.  A child it names is one of the given ones.  When it
  reports the timeout, the time has passed up to one millisecond, or 2147483647 milliseconds
  have: a poll is asked for whole milliseconds and for no more than that, and an expired poll
  is not repeated.  It panics only for a deadline beyond the range of the clock.  Without
  children it is \<open>InvalidInput\<close>.\<close>

theorem linux_wait_any_returns:
  assumes "clock_ok ws try_wait"
  shows "\<exists>r w'. linux_wait_any ws try_wait pid_of n (Some t) w = Some (r, w') \<and>
    (n = 0 \<longrightarrow> r = Fail (new_error InvalidInput NoCode ''wait_any'')) \<and>
    (\<forall>j. r = Ret (Some j) \<longrightarrow> j < n) \<and>
    (r = Ret None \<longrightarrow> waited t \<le> ws_now ws w' - ws_now ws w) \<and>
    (r = Panic \<longrightarrow> INSTANT_END \<le> ws_now ws w' + t)"
proof (cases "n = 0")
  case False
  obtain x w1 where x: "fast_pass try_wait pid_of 0 n [] w = (x, w1)" by fastforce
  note fast = fast_pass_spec[OF assms x]
  have shift: "waited t \<le> ws_now ws v - ws_now ws w" if "waited t \<le> ws_now ws v - ws_now ws u"
    "ws_now ws w \<le> ws_now ws u" for u v using that by linarith
  have port: "\<exists>r w'. portable ws try_wait n (Some t) u = Some (r, w') \<and>
      (\<forall>j. r = Ret (Some j) \<longrightarrow> j < n) \<and>
      (r = Ret None \<longrightarrow> waited t \<le> ws_now ws w' - ws_now ws w) \<and> r \<noteq> Panic"
    if "ws_now ws w \<le> ws_now ws u" for u
    using portable_returns[OF assms False, of t u] shift that by blast
  show ?thesis
  proof (cases "\<exists>pending. x = Ok (Ours pending)")
    case True
    then obtain pending where p: "x = Ok (Ours pending)" by blast
    then have idx: "map fst pending = [0..<n]" using fast by simp
    have len: "length pending = n" using arg_cong[OF idx, of length] by simp
    have fstn: "pos < n \<Longrightarrow> fst (pending ! pos) < n" for pos
      using arg_cong[OF idx, of "\<lambda>xs. xs ! pos"] len by simp
    obtain r w2 where r: "poll_pids ws (map snd pending) (Some t) w1 = Some (r, w2)"
      "ws_now ws w1 \<le> ws_now ws w2" "\<forall>pos. r = Ret (Some pos) \<longrightarrow> pos < n"
      "r = Ret None \<longrightarrow> ws_now ws w1 + waited t \<le> ws_now ws w2"
      "r = Panic \<longrightarrow> INSTANT_END \<le> ws_now ws w2 + t"
      using poll_pids_returns[OF assms, of "map snd pending" t w1] len by auto
    have w2: "ws_now ws w \<le> ws_now ws w2" using fast r(2) by linarith
    have time: "r = Ret None \<longrightarrow> waited t \<le> ws_now ws w2 - ws_now ws w"
      using r(4) fast by linarith
    show ?thesis
      using False x p r(1,3,5) time fstn port[OF w2]
      by (cases r rule: poll_result_cases)
        (auto simp: linux_wait_any_def Let_def split: prod.splits sum.splits)
  next
    case no: False
    then show ?thesis
      using False x fast port[of w1]
      by (cases x; cases "projr x")
        (auto simp: linux_wait_any_def)
  qed
qed (simp add: linux_wait_any_def)

theorem linux_wait_any_returns_witness:
  "\<exists>r w'. linux_wait_any \<lparr>ws_pidfd = (\<lambda>p w. (Inr 5, w)),
      ws_poll = (\<lambda>fds ms w. if ms < 0 then None else Some (Inr (0, \<lambda>_. False), w + nat ms * MILLI)),
      ws_close = (\<lambda>f w. w), ws_now = (\<lambda>w. w), ws_sleep = (\<lambda>d w. w + d)\<rparr>
    (\<lambda>i w. (Ok None, w)) (\<lambda>i. Some 7) 2 (Some 2500000) (3 :: nat) = Some (r, w')"
proof -
  have "clock_ok \<lparr>ws_pidfd = (\<lambda>p w. (Inr 5, w)),
      ws_poll = (\<lambda>fds ms w. if ms < 0 then None else Some (Inr (0, \<lambda>_. False), w + nat ms * MILLI)),
      ws_close = (\<lambda>f w. w), ws_now = (\<lambda>w. w), ws_sleep = (\<lambda>d w. w + d)\<rparr> (\<lambda>i w. (Ok None, w :: nat))"
    by (simp add: clock_ok_def)
  from linux_wait_any_returns[OF this, of "\<lambda>i. Some 7" 2 2500000 3] show ?thesis by blast
qed

text \<open>A timeout shorter than a millisecond is reported at once.\<close>

lemma timeout_ms_submilli: "t < MILLI \<Longrightarrow> timeout_ms (Some (now + t)) now = 0"
  by (simp add: timeout_ms_def)

end
