(* ===== verification/Platform_Fs.thy ===== *)
theory Platform_Fs
  imports Platform_Error
begin

text \<open>
  The file-system surface of \<open>platform/src/fs.rs\<close>: its data types, the operations
  a directory capability offers to \<open>write_atomic\<close> (the record \<open>DirOps\<close>, one field
  per trait method the default method calls and one for dropping a file), and \<open>write_atomic\<close> itself.  The
  contract its correctness rests on is the locale \<open>atomic_dir\<close>; the in-memory
  backend provides it.
\<close>

section \<open>The data types\<close>

record OpenOptions =
  oo_read :: bool
  oo_write :: bool
  oo_append :: bool
  oo_create :: bool
  oo_create_new :: bool
  oo_truncate :: bool

definition default_open_options :: OpenOptions where
  "default_open_options = \<lparr>oo_read = False, oo_write = False, oo_append = False,
     oo_create = False, oo_create_new = False, oo_truncate = False\<rparr>"

definition open_read :: OpenOptions where
  "open_read = default_open_options\<lparr>oo_read := True\<rparr>"

definition create_truncate :: OpenOptions where
  "create_truncate = default_open_options\<lparr>oo_write := True, oo_create := True, oo_truncate := True\<rparr>"

record AccessMode =
  am_read :: bool
  am_write :: bool
  am_execute :: bool

definition access_read :: AccessMode where
  "access_read = \<lparr>am_read = True, am_write = False, am_execute = False\<rparr>"

definition access_write :: AccessMode where
  "access_write = \<lparr>am_read = False, am_write = True, am_execute = False\<rparr>"

definition access_execute :: AccessMode where
  "access_execute = \<lparr>am_read = False, am_write = False, am_execute = True\<rparr>"

datatype FileType = TFile | TDir | TSymlink | TOther

text \<open>\<open>md_modified\<close> is the time in nanoseconds relative to the Unix epoch.\<close>

record Metadata =
  md_type :: FileType
  md_len :: u64
  md_nlink :: u64
  md_modified :: int

record UnixMode =
  um_setuid :: bool
  um_setgid :: bool
  um_sticky :: bool
  um_uid :: u32
  um_gid :: u32
  um_permissions :: u16

definition default_unix_mode :: UnixMode where
  "default_unix_mode = \<lparr>um_setuid = False, um_setgid = False, um_sticky = False,
     um_uid = 0, um_gid = 0, um_permissions = 0\<rparr>"

record Mode =
  mo_setuid :: bool
  mo_setgid :: bool
  mo_sticky :: bool
  mo_permissions :: u16

datatype FileId = FileId u64 u64

record DirEntry =
  de_name :: string
  de_type :: FileType

section \<open>Atomic replacement\<close>

record ('st, 'f) DirOps =
  do_open :: "'st \<Rightarrow> string \<Rightarrow> OpenOptions \<Rightarrow> 'f result \<times> 'st"
  do_write :: "'st \<Rightarrow> 'f \<Rightarrow> bytes \<Rightarrow> nat result \<times> 'st"
  do_sync_all :: "'st \<Rightarrow> 'f \<Rightarrow> unit result \<times> 'st"
  do_remove_file :: "'st \<Rightarrow> string \<Rightarrow> unit result \<times> 'st"
  do_rename :: "'st \<Rightarrow> string \<Rightarrow> string \<Rightarrow> unit result \<times> 'st"
  do_sync_dir :: "'st \<Rightarrow> unit result \<times> 'st"
  do_drop :: "'st \<Rightarrow> 'f \<Rightarrow> 'st"

definition tmp_name :: "string \<Rightarrow> nat \<Rightarrow> u64 \<Rightarrow> string" where
  "tmp_name rel pid n = rel @ ''.rustils-tmp-'' @ dec_digits pid @ ''-'' @ hex_digits (unat n)"

definition tmp_options :: OpenOptions where
  "tmp_options = default_open_options\<lparr>oo_write := True, oo_create_new := True\<rparr>"

function write_loop ::
    "('st, 'f) DirOps \<Rightarrow> string \<Rightarrow> 'st \<Rightarrow> 'f \<Rightarrow> bytes \<Rightarrow> unit result \<times> 'st" where
  "write_loop ops tmp st f rest =
    (if rest = [] then (Ok (), st)
     else case do_write ops st f rest of
       (Err e, st1) \<Rightarrow> (Err e, st1)
     | (Ok n, st1) \<Rightarrow>
         if n = 0 then (Err (with_path (new_error Other NoCode ''write_atomic'') tmp), st1)
         else write_loop ops tmp st1 f (drop n rest))"
  by pat_completeness auto
termination write_loop
  by (relation "measure (\<lambda>(_, _, _, _, rest). length rest)") auto

declare write_loop.simps [simp del]

text \<open>The closure owns the open file and drops it on every way out.\<close>

definition write_and_sync ::
    "('st, 'f) DirOps \<Rightarrow> string \<Rightarrow> 'st \<Rightarrow> bytes \<Rightarrow> unit result \<times> 'st" where
  "write_and_sync ops tmp st contents =
    (case do_open ops st tmp tmp_options of
       (Err e, st1) \<Rightarrow> (Err e, st1)
     | (Ok f, st1) \<Rightarrow>
        (case (case write_loop ops tmp st1 f contents of
                 (Err e, st2) \<Rightarrow> (Err e, st2)
               | (Ok _, st2) \<Rightarrow> do_sync_all ops st2 f) of
           (r, st3) \<Rightarrow> (r, do_drop ops st3 f)))"

text \<open>The counter is the process-wide \<open>COUNTER\<close>; it is returned advanced.\<close>

definition write_atomic ::
    "('st, 'f) DirOps \<Rightarrow> nat \<Rightarrow> u64 \<Rightarrow> 'st \<Rightarrow> string \<Rightarrow> bytes \<Rightarrow> unit result \<times> u64 \<times> 'st" where
  "write_atomic ops pid counter st rel contents =
    (let tmp = tmp_name rel pid counter in
     case write_and_sync ops tmp st contents of
       (Err e, st1) \<Rightarrow> (Err e, counter + 1, snd (do_remove_file ops st1 tmp))
     | (Ok _, st1) \<Rightarrow>
        (case do_rename ops st1 tmp rel of
           (Err e, st2) \<Rightarrow> (Err e, counter + 1, st2)
         | (Ok _, st2) \<Rightarrow>
            (case do_sync_dir ops st2 of (r, st3) \<Rightarrow> (r, counter + 1, st3))))"

section \<open>The contract of a directory\<close>

text \<open>\<open>view\<close> maps a name of the directory to its entry, \<open>regular\<close> makes the entry of a regular
  file, and \<open>handle st f n c\<close> says that \<open>f\<close> is open for writing on the file named \<open>n\<close>, whose
  contents are \<open>c\<close>.  A write may take fewer bytes than offered, but not none.\<close>

locale atomic_dir =
  fixes ops :: "('st, 'f) DirOps" and inv :: "'st \<Rightarrow> bool"
    and view :: "'st \<Rightarrow> string \<Rightarrow> 'e option" and regular :: "bytes \<Rightarrow> 'e"
    and handle :: "'st \<Rightarrow> 'f \<Rightarrow> string \<Rightarrow> bytes \<Rightarrow> bool"
  assumes open_new: "inv st \<Longrightarrow> view st n = None \<Longrightarrow>
      \<exists>f st'. do_open ops st n tmp_options = (Ok f, st') \<and> inv st'
        \<and> view st' = (view st)(n \<mapsto> regular []) \<and> handle st' f n []"
    and open_existing: "inv st \<Longrightarrow> view st n = Some e \<Longrightarrow>
      \<exists>err. do_open ops st n tmp_options = (Err err, st) \<and> err_kind err = AlreadyExists"
    and write_appends: "inv st \<Longrightarrow> handle st f n c \<Longrightarrow> buf \<noteq> [] \<Longrightarrow>
      \<exists>k st'. do_write ops st f buf = (Ok k, st') \<and> 0 < k \<and> k \<le> length buf \<and> inv st'
        \<and> view st' = (view st)(n \<mapsto> regular (c @ take k buf)) \<and> handle st' f n (c @ take k buf)"
    and sync_all_ok: "inv st \<Longrightarrow> handle st f n c \<Longrightarrow> do_sync_all ops st f = (Ok (), st)"
    and rename_moves: "inv st \<Longrightarrow> view st a = Some e \<Longrightarrow> a \<noteq> b \<Longrightarrow>
      \<exists>st'. do_rename ops st a b = (Ok (), st') \<and> inv st' \<and> view st' = (view st)(a := None, b \<mapsto> e)"
    and remove_drops: "inv st \<Longrightarrow> view st n = Some (regular c) \<Longrightarrow>
      \<exists>st'. do_remove_file ops st n = (Ok (), st') \<and> inv st' \<and> view st' = (view st)(n := None)"
    and sync_dir_ok: "inv st \<Longrightarrow> do_sync_dir ops st = (Ok (), st)"
    and drop_keeps: "inv st \<Longrightarrow> inv (do_drop ops st f) \<and> view (do_drop ops st f) = view st"
begin

lemma write_loop_writes:
  assumes "inv st" "handle st f n c" "view st n = Some (regular c)"
  shows "\<exists>st'. write_loop ops tmp st f rest = (Ok (), st') \<and> inv st'
    \<and> view st' = (view st)(n \<mapsto> regular (c @ rest)) \<and> handle st' f n (c @ rest)"
  using assms
proof (induction "length rest" arbitrary: st c rest rule: less_induct)
  case less
  show ?case
  proof (cases "rest = []")
    case True
    then show ?thesis using less.prems by (subst write_loop.simps) auto
  next
    case False
    obtain k st1 where w: "do_write ops st f rest = (Ok k, st1)" "0 < k" "k \<le> length rest" "inv st1"
      "view st1 = (view st)(n \<mapsto> regular (c @ take k rest))" "handle st1 f n (c @ take k rest)"
      using write_appends[OF less.prems(1,2) False] by blast
    have "\<exists>st'. write_loop ops tmp st1 f (drop k rest) = (Ok (), st') \<and> inv st'
      \<and> view st' = (view st1)(n \<mapsto> regular ((c @ take k rest) @ drop k rest))
      \<and> handle st' f n ((c @ take k rest) @ drop k rest)"
      using w False by (intro less.hyps) auto
    then show ?thesis using w False by (subst write_loop.simps) auto
  qed
qed

lemma tmp_differs: "tmp_name rel pid n \<noteq> rel"
  by (simp add: tmp_name_def)

lemma write_atomic_publishes:
  assumes "inv st" "view st (tmp_name rel pid counter) = None"
  shows "\<exists>st'. write_atomic ops pid counter st rel contents = (Ok (), counter + 1, st') \<and> inv st'
    \<and> view st' = (view st)(rel \<mapsto> regular contents)"
proof -
  let ?tmp = "tmp_name rel pid counter"
  obtain f st1 where o: "do_open ops st ?tmp tmp_options = (Ok f, st1)" "inv st1"
    "view st1 = (view st)(?tmp \<mapsto> regular [])" "handle st1 f ?tmp []"
    using open_new[OF assms] by blast
  then obtain st2 where w: "write_loop ops ?tmp st1 f contents = (Ok (), st2)" "inv st2"
    "view st2 = (view st1)(?tmp \<mapsto> regular contents)" "handle st2 f ?tmp contents"
    using write_loop_writes[of st1 f ?tmp "[]" ?tmp contents] by auto
  note d = drop_keeps[OF w(2), of f]
  obtain st3 where r: "do_rename ops (do_drop ops st2 f) ?tmp rel = (Ok (), st3)" "inv st3"
    "view st3 = (view st2)(?tmp := None, rel \<mapsto> regular contents)"
    using rename_moves[of "do_drop ops st2 f" ?tmp "regular contents" rel] d w(3) tmp_differs by auto
  have "view st3 = (view st)(rel \<mapsto> regular contents)"
    using assms(2) by (auto simp: r(3) w(3) o(3) fun_eq_iff)
  then show ?thesis
    using o w r sync_all_ok[OF w(2,4)] sync_dir_ok[OF r(2)]
    by (simp add: write_atomic_def write_and_sync_def Let_def)
qed

lemma write_atomic_collides:
  assumes "inv st" "view st (tmp_name rel pid counter) = Some (regular c)"
  shows "\<exists>e st'. write_atomic ops pid counter st rel contents = (Err e, counter + 1, st')
    \<and> err_kind e = AlreadyExists \<and> view st' = (view st)(tmp_name rel pid counter := None)"
  using open_existing[OF assms] remove_drops[OF assms]
  by (auto simp: write_atomic_def write_and_sync_def Let_def)

end

end
