(* ===== verification/Mock_Fs.thy ===== *)
theory Mock_Fs
  imports Platform_Fs BTree_Map
begin

text \<open>
  The in-memory file system, \<open>platform-mock/src/fs.rs\<close>.  Nodes and file positions
  are shared cells (\<open>Arc<Mutex<_>>\<close>), so the model has a store: a node's address is
  its index in \<open>nodes\<close>, a position's in \<open>positions\<close>; allocation appends and nothing
  is freed.  A directory capability (\<open>MockDir\<close>) is an address, an open file is the
  record \<open>MockFile\<close>.  The locks are taken and released inside one operation, so
  every operation is one step on the store.
\<close>

section \<open>The store\<close>

type_synonym addr = nat

datatype Node = Unreachable | FileN bytes | DirN "(string, addr) btree" | SymlinkN string

record Store =
  nodes :: "Node list"
  positions :: "nat list"

record MockFile =
  mf_node :: addr
  mf_pos :: addr
  mf_readable :: bool
  mf_writable :: bool

definition node_at :: "Store \<Rightarrow> addr \<Rightarrow> Node" where
  "node_at st a = (if a < length (nodes st) then nodes st ! a else Unreachable)"

definition set_node :: "Store \<Rightarrow> addr \<Rightarrow> Node \<Rightarrow> Store" where
  "set_node st a n = st\<lparr>nodes := (nodes st)[a := n]\<rparr>"

definition alloc_node :: "Store \<Rightarrow> Node \<Rightarrow> addr \<times> Store" where
  "alloc_node st n = (length (nodes st), st\<lparr>nodes := nodes st @ [n]\<rparr>)"

definition alloc_pos :: "Store \<Rightarrow> addr \<times> Store" where
  "alloc_pos st = (length (positions st), st\<lparr>positions := positions st @ [0]\<rparr>)"

definition err :: "ErrorKind \<Rightarrow> string \<Rightarrow> string \<Rightarrow> PlatformError" where
  "err kind op rel = with_path (new_error kind NoCode op) rel"

section \<open>Directories and files\<close>

definition root :: "Store \<Rightarrow> addr \<times> Store" where
  "root st = alloc_node st (DirN [])"

definition with_file :: "Store \<Rightarrow> addr \<Rightarrow> string \<Rightarrow> bytes \<Rightarrow> Store run" where
  "with_file st d name contents =
    (case node_at st d of
       DirN entries \<Rightarrow>
         let (a, st1) = alloc_node st (FileN contents) in
         Ret (set_node st1 d (DirN (bt_insert entries name a)))
     | _ \<Rightarrow> Panic)"

definition child :: "Store \<Rightarrow> addr \<Rightarrow> string \<Rightarrow> string \<Rightarrow> addr result" where
  "child st d rel op =
    (case node_at st d of
       DirN entries \<Rightarrow>
         (case bt_get entries rel of Some a \<Rightarrow> Ok a | None \<Rightarrow> Err (err NotFound op rel))
     | _ \<Rightarrow> Err (err NotADirectory op rel))"

definition file_read :: "Store \<Rightarrow> MockFile \<Rightarrow> nat \<Rightarrow> bytes result \<times> Store" where
  "file_read st f cap =
    (if \<not> mf_readable f then (Err (new_error PermissionDenied NoCode ''read''), st)
     else case node_at st (mf_node f) of
       FileN data \<Rightarrow>
         let pos = positions st ! mf_pos f;
             remaining = drop (min pos (length data)) data;
             count = min (length remaining) cap
         in (Ok (take count remaining), st\<lparr>positions := (positions st)[mf_pos f := pos + count]\<rparr>)
     | _ \<Rightarrow> (Err (new_error IsADirectory NoCode ''read''), st))"

definition file_write :: "Store \<Rightarrow> MockFile \<Rightarrow> bytes \<Rightarrow> nat result \<times> Store" where
  "file_write st f buf =
    (if \<not> mf_writable f then (Err (new_error PermissionDenied NoCode ''write''), st)
     else case node_at st (mf_node f) of
       FileN data \<Rightarrow> (Ok (length buf), set_node st (mf_node f) (FileN (data @ buf)))
     | _ \<Rightarrow> (Err (new_error IsADirectory NoCode ''write''), st))"

definition file_flush :: "Store \<Rightarrow> MockFile \<Rightarrow> unit result \<times> Store" where
  "file_flush st f = (Ok (), st)"

definition file_sync_all :: "Store \<Rightarrow> MockFile \<Rightarrow> unit result \<times> Store" where
  "file_sync_all st f = (Ok (), st)"

definition try_clone :: "MockFile \<Rightarrow> MockFile result" where
  "try_clone f = Ok \<lparr>mf_node = mf_node f, mf_pos = mf_pos f, mf_readable = mf_readable f,
     mf_writable = mf_writable f\<rparr>"

definition new_file :: "Store \<Rightarrow> addr \<Rightarrow> bool \<Rightarrow> bool \<Rightarrow> MockFile \<times> Store" where
  "new_file st a readable writable =
    (let (p, st1) = alloc_pos st in
     (\<lparr>mf_node = a, mf_pos = p, mf_readable = readable, mf_writable = writable\<rparr>, st1))"

definition dir_open :: "Store \<Rightarrow> addr \<Rightarrow> string \<Rightarrow> OpenOptions \<Rightarrow> MockFile result \<times> Store" where
  "dir_open st d rel opts =
    (case child st d rel ''open'' of
       Ok a \<Rightarrow>
         if oo_create_new opts then (Err (err AlreadyExists ''open'' rel), st)
         else
           let st1 = (if oo_truncate opts
                 then (case node_at st a of FileN _ \<Rightarrow> set_node st a (FileN []) | _ \<Rightarrow> st)
                 else st);
               (f, st2) = new_file st1 a (oo_read opts) (oo_write opts \<or> oo_append opts)
           in (Ok f, st2)
     | Err e \<Rightarrow>
         if oo_create opts \<or> oo_create_new opts then
           (case node_at st d of
              DirN entries \<Rightarrow>
                let (a, st1) = alloc_node st (FileN []);
                    st2 = set_node st1 d (DirN (bt_insert entries rel a));
                    (f, st3) = new_file st2 a (oo_read opts) (oo_write opts \<or> oo_append opts)
                in (Ok f, st3)
            | _ \<Rightarrow> (Err (err NotADirectory ''open'' rel), st))
         else (Err e, st))"

definition open_dir :: "Store \<Rightarrow> addr \<Rightarrow> string \<Rightarrow> addr result" where
  "open_dir st d rel =
    and_then (child st d rel ''open_dir'') (\<lambda>a.
    case node_at st a of DirN _ \<Rightarrow> Ok a | _ \<Rightarrow> Err (err NotADirectory ''open_dir'' rel))"

definition insert_entry :: "Store \<Rightarrow> addr \<Rightarrow> string \<Rightarrow> Node \<Rightarrow> string \<Rightarrow> unit result \<times> Store" where
  "insert_entry st d rel node op =
    (case node_at st d of
       DirN entries \<Rightarrow>
         if bt_get entries rel \<noteq> None then (Err (err AlreadyExists op rel), st)
         else let (a, st1) = alloc_node st node in
           (Ok (), set_node st1 d (DirN (bt_insert entries rel a)))
     | _ \<Rightarrow> (Err (err NotADirectory op rel), st))"

definition create_dir :: "Store \<Rightarrow> addr \<Rightarrow> string \<Rightarrow> unit result \<times> Store" where
  "create_dir st d rel = insert_entry st d rel (DirN []) ''create_dir''"

definition dir_symlink :: "Store \<Rightarrow> addr \<Rightarrow> string \<Rightarrow> string \<Rightarrow> unit result \<times> Store" where
  "dir_symlink st d target link_name = insert_entry st d link_name (SymlinkN target) ''symlink''"

definition dir_metadata :: "Store \<Rightarrow> addr \<Rightarrow> string \<Rightarrow> Metadata run" where
  "dir_metadata st d rel =
    run_bind (run_of (child st d rel ''metadata'')) (\<lambda>a.
    case node_at st a of
      FileN data \<Rightarrow> Ret \<lparr>md_type = TFile, md_len = of_nat (length data), md_nlink = 1, md_modified = 0\<rparr>
    | DirN _ \<Rightarrow> Ret \<lparr>md_type = TDir, md_len = 0, md_nlink = 1, md_modified = 0\<rparr>
    | SymlinkN target \<Rightarrow>
        Ret \<lparr>md_type = TSymlink, md_len = of_nat (length target), md_nlink = 1, md_modified = 0\<rparr>
    | Unreachable \<Rightarrow> Panic)"

definition dir_access :: "Store \<Rightarrow> addr \<Rightarrow> string \<Rightarrow> AccessMode \<Rightarrow> unit result" where
  "dir_access st d rel mode =
    (if \<not> (am_read mode \<or> am_write mode \<or> am_execute mode) then Ok ()
     else and_then (child st d rel ''access'') (\<lambda>_. Ok ()))"

definition dir_unix_mode :: "Store \<Rightarrow> addr \<Rightarrow> string \<Rightarrow> UnixMode option result" where
  "dir_unix_mode st d rel =
    and_then (child st d rel ''unix_mode'') (\<lambda>_. Ok (Some default_unix_mode))"

definition set_unix_mode :: "Store \<Rightarrow> addr \<Rightarrow> string \<Rightarrow> unit result" where
  "set_unix_mode st d rel = and_then (child st d rel ''set_unix_mode'') (\<lambda>_. Ok ())"

definition file_id :: "Store \<Rightarrow> addr \<Rightarrow> string \<Rightarrow> (nat \<times> addr) result" where
  "file_id st d rel = and_then (child st d rel ''file_id'') (\<lambda>a. Ok (0, a))"

definition node_type :: "Node \<Rightarrow> FileType run" where
  "node_type n = (case n of FileN _ \<Rightarrow> Ret TFile | DirN _ \<Rightarrow> Ret TDir | SymlinkN _ \<Rightarrow> Ret TSymlink
     | Unreachable \<Rightarrow> Panic)"

fun list_entries :: "Store \<Rightarrow> (string \<times> addr) list \<Rightarrow> DirEntry list run" where
  "list_entries st [] = Ret []"
| "list_entries st ((name, a) # rest) =
    run_bind (node_type (node_at st a)) (\<lambda>t.
    run_bind (list_entries st rest) (\<lambda>es. Ret (\<lparr>de_name = name, de_type = t\<rparr> # es)))"

definition dir_read_dir :: "Store \<Rightarrow> addr \<Rightarrow> DirEntry list run" where
  "dir_read_dir st d =
    (case node_at st d of
       DirN entries \<Rightarrow> list_entries st entries
     | _ \<Rightarrow> Fail (new_error NotADirectory NoCode ''read_dir''))"

definition remove :: "Store \<Rightarrow> addr \<Rightarrow> string \<Rightarrow> bool \<Rightarrow> string \<Rightarrow> unit result \<times> Store" where
  "remove st d rel want_dir op =
    (case node_at st d of
       DirN entries \<Rightarrow>
         (case bt_get entries rel of
            None \<Rightarrow> (Err (err NotFound op rel), st)
          | Some a \<Rightarrow>
             let gone = (Ok (), set_node st d (DirN (bt_remove entries rel))) in
             (case (node_at st a, want_dir) of
                (FileN _, True) \<Rightarrow> (Err (err NotADirectory op rel), st)
              | (SymlinkN _, True) \<Rightarrow> (Err (err NotADirectory op rel), st)
              | (DirN _, False) \<Rightarrow> (Err (err IsADirectory op rel), st)
              | (DirN es, True) \<Rightarrow> (if es \<noteq> [] then (Err (err DirectoryNotEmpty op rel), st) else gone)
              | _ \<Rightarrow> gone))
     | _ \<Rightarrow> (Err (err NotADirectory op rel), st))"

definition remove_file :: "Store \<Rightarrow> addr \<Rightarrow> string \<Rightarrow> unit result \<times> Store" where
  "remove_file st d rel = remove st d rel False ''remove_file''"

definition remove_dir :: "Store \<Rightarrow> addr \<Rightarrow> string \<Rightarrow> unit result \<times> Store" where
  "remove_dir st d rel = remove st d rel True ''remove_dir''"

definition read_link :: "Store \<Rightarrow> addr \<Rightarrow> string \<Rightarrow> string result" where
  "read_link st d rel =
    and_then (child st d rel ''read_link'') (\<lambda>a.
    case node_at st a of SymlinkN target \<Rightarrow> Ok target | _ \<Rightarrow> Err (err InvalidInput ''read_link'' rel))"

definition rename_impl :: "Store \<Rightarrow> addr \<Rightarrow> string \<Rightarrow> string \<Rightarrow> bool \<Rightarrow> unit result \<times> Store" where
  "rename_impl st d from to replace =
    (case node_at st d of
       DirN entries \<Rightarrow>
         (case bt_get entries from of
            None \<Rightarrow> (Err (err NotFound ''rename'' from), st)
          | Some a \<Rightarrow>
             if \<not> replace \<and> bt_get entries to \<noteq> None then (Err (err AlreadyExists ''rename'' to), st)
             else (Ok (), set_node st d (DirN (bt_insert (bt_remove entries from) to a))))
     | _ \<Rightarrow> (Err (err NotADirectory ''rename'' from), st))"

definition dir_rename :: "Store \<Rightarrow> addr \<Rightarrow> string \<Rightarrow> string \<Rightarrow> unit result \<times> Store" where
  "dir_rename st d from to = rename_impl st d from to True"

definition rename_no_replace :: "Store \<Rightarrow> addr \<Rightarrow> string \<Rightarrow> string \<Rightarrow> unit result \<times> Store" where
  "rename_no_replace st d from to = rename_impl st d from to False"

definition create_memfd :: "Store \<Rightarrow> string \<Rightarrow> MockFile \<times> Store" where
  "create_memfd st name =
    (let (a, st1) = alloc_node st (FileN []) in new_file st1 a True True)"

text \<open>The directory at address \<open>d\<close> as the operations \<open>write_atomic\<close> calls.\<close>

definition mock_ops :: "addr \<Rightarrow> (Store, MockFile) DirOps" where
  "mock_ops d = \<lparr>do_open = (\<lambda>st. dir_open st d), do_write = file_write, do_sync_all = file_sync_all,
     do_remove_file = (\<lambda>st. remove_file st d), do_rename = (\<lambda>st. dir_rename st d),
     do_sync_dir = (\<lambda>st. (Ok (), st)), do_drop = (\<lambda>st _. st)\<rparr>"

section \<open>The store invariant\<close>

definition entries_of :: "Store \<Rightarrow> addr \<Rightarrow> (string, addr) btree" where
  "entries_of st a = (case node_at st a of DirN es \<Rightarrow> es | _ \<Rightarrow> [])"

text \<open>No node is the placeholder; entry tables are ordered; an entry points to a later,
  allocated node (so the tree has no cycle, and locking a directory before its child cannot
  deadlock); and no node has two entries (there are no hard links).\<close>

definition wf_store :: "Store \<Rightarrow> bool" where
  "wf_store st \<longleftrightarrow>
    (\<forall>a < length (nodes st). node_at st a \<noteq> Unreachable)
    \<and> (\<forall>d. bt_inv (entries_of st d))
    \<and> (\<forall>d n a. (n, a) \<in> set (entries_of st d) \<longrightarrow> d < a \<and> a < length (nodes st))
    \<and> (\<forall>d d' n n' a. (n, a) \<in> set (entries_of st d) \<longrightarrow> (n', a) \<in> set (entries_of st d')
        \<longrightarrow> d = d' \<and> n = n')"

lemma node_at_DirN_less: "node_at st d = DirN es \<Longrightarrow> d < length (nodes st)"
  by (auto simp: node_at_def split: if_splits)

lemma node_at_set_node [simp]:
  "d < length (nodes st) \<Longrightarrow> node_at (set_node st d n) a = (if a = d then n else node_at st a)"
  by (simp add: node_at_def set_node_def nth_list_update)

lemma length_set_node [simp]: "length (nodes (set_node st d n)) = length (nodes st)"
  by (simp add: set_node_def)

lemma positions_set_node [simp]: "positions (set_node st d n) = positions st"
  by (simp add: set_node_def)

lemma node_at_alloc [simp]:
  "node_at (st\<lparr>nodes := nodes st @ [n]\<rparr>) a = (if a = length (nodes st) then n else node_at st a)"
  by (auto simp: node_at_def nth_append)

lemma node_at_positions [simp]: "node_at (st\<lparr>positions := ps\<rparr>) a = node_at st a"
  by (simp add: node_at_def)

lemma entries_of_positions [simp]: "entries_of (st\<lparr>positions := ps\<rparr>) a = entries_of st a"
  by (simp add: entries_of_def)

lemma wf_store_positions [simp]: "wf_store (st\<lparr>positions := ps\<rparr>) = wf_store st"
  by (simp add: wf_store_def)

lemma wf_not_Unreachable: "wf_store st \<Longrightarrow> a < length (nodes st) \<Longrightarrow> node_at st a \<noteq> Unreachable"
  by (simp add: wf_store_def)

lemma wf_unique:
  "wf_store st \<Longrightarrow> (n, a) \<in> set (entries_of st d) \<Longrightarrow> (n', a) \<in> set (entries_of st d') \<Longrightarrow> d = d' \<and> n = n'"
  unfolding wf_store_def by blast

lemma wf_upward:
  "wf_store st \<Longrightarrow> (n, a) \<in> set (entries_of st d) \<Longrightarrow> d < a \<and> a < length (nodes st)"
  unfolding wf_store_def by blast

lemma wf_entries:
  assumes "wf_store st" "node_at st d = DirN es"
  shows "bt_inv es" "(n, a) \<in> set es \<Longrightarrow> d < a \<and> a < length (nodes st)"
    "(n, a) \<in> set es \<Longrightarrow> (n', a) \<in> set es \<Longrightarrow> n = n'"
proof -
  have e: "entries_of st d = es" using assms(2) by (simp add: entries_of_def)
  show "bt_inv es" "(n, a) \<in> set es \<Longrightarrow> d < a \<and> a < length (nodes st)"
    using assms(1) e unfolding wf_store_def by metis+
  show "(n, a) \<in> set es \<Longrightarrow> (n', a) \<in> set es \<Longrightarrow> n = n'"
    using assms(1) e unfolding wf_store_def by metis
qed

definition leaf :: "Node \<Rightarrow> bool" where
  "leaf n = (case n of Unreachable \<Rightarrow> False | DirN es \<Rightarrow> es = [] | _ \<Rightarrow> True)"

lemma leaf_simps [simp]: "leaf (FileN c)" "leaf (SymlinkN t)" "leaf (DirN es) \<longleftrightarrow> es = []" "\<not> leaf Unreachable"
  by (simp_all add: leaf_def)

lemma wf_alloc:
  assumes "wf_store st" "leaf n"
  shows "wf_store (st\<lparr>nodes := nodes st @ [n]\<rparr>)"
proof -
  have "entries_of st (length (nodes st)) = []" by (simp add: entries_of_def node_at_def)
  then have e: "entries_of (st\<lparr>nodes := nodes st @ [n]\<rparr>) a = entries_of st a" for a
    using assms(2) by (auto simp: entries_of_def split: Node.splits)
  have "n \<noteq> Unreachable" using assms(2) by auto
  then show ?thesis
    using assms(1) unfolding wf_store_def e by (auto simp: less_Suc_eq)
qed

lemma wf_update_file:
  assumes "wf_store st" "node_at st a = FileN c"
  shows "wf_store (set_node st a (FileN c'))"
proof -
  have a: "a < length (nodes st)" using assms(2) by (auto simp: node_at_def split: if_splits)
  have e: "entries_of (set_node st a (FileN c')) x = entries_of st x" for x
    using a assms(2) by (simp add: entries_of_def)
  show ?thesis using assms(1) a unfolding wf_store_def e by auto
qed

lemma wf_update_entries:
  assumes "wf_store st" "node_at st d = DirN es" "bt_inv es'"
    and "\<And>n a. (n, a) \<in> set es' \<Longrightarrow> (\<exists>n0. (n0, a) \<in> set es) \<or> d < a \<and> a < length (nodes st)
       \<and> (\<forall>x m. (m, a) \<notin> set (entries_of st x))"
    and "\<And>n n' a. (n, a) \<in> set es' \<Longrightarrow> (n', a) \<in> set es' \<Longrightarrow> n = n'"
  shows "wf_store (set_node st d (DirN es'))"
proof -
  let ?st = "set_node st d (DirN es')"
  have d: "d < length (nodes st)" using assms(2) by (rule node_at_DirN_less)
  have e: "entries_of ?st x = (if x = d then es' else entries_of st x)" for x
    using d by (simp add: entries_of_def)
  have ed: "entries_of st d = es" using assms(2) by (simp add: entries_of_def)
  have ord: "bt_inv (entries_of ?st x)" for x
    using assms(1,3) by (simp add: e wf_store_def)
  have up: "x < a \<and> a < length (nodes st)" if "(n, a) \<in> set (entries_of ?st x)" for x n a
  proof (cases "x = d")
    case True
    then have "(n, a) \<in> set es'" using that by (simp add: e)
    then show ?thesis using assms(4)[of n a] wf_upward[OF assms(1), of _ a d] ed True by auto
  next
    case False
    then show ?thesis using that wf_upward[OF assms(1)] by (simp add: e)
  qed
  have other: "x = d" if h: "(n, a) \<in> set es'" "(m, a) \<in> set (entries_of st x)" for x n m a
  proof -
    obtain n0 where "(n0, a) \<in> set (entries_of st d)" using assms(4)[OF h(1)] h(2) ed by blast
    then show ?thesis using wf_unique[OF assms(1)] h(2) by blast
  qed
  have uniq: "x = y \<and> n = m" if "(n, a) \<in> set (entries_of ?st x)" "(m, a) \<in> set (entries_of ?st y)"
    for x y n m a
  proof (cases "x = d"; cases "y = d")
    assume "x = d" "y = d"
    then show ?thesis using that assms(5) by (simp add: e)
  next
    assume "x = d" "y \<noteq> d"
    then show ?thesis using that other[of n a m y] by (simp add: e)
  next
    assume "x \<noteq> d" "y = d"
    then show ?thesis using that other[of m a n x] by (simp add: e)
  next
    assume "x \<noteq> d" "y \<noteq> d"
    then show ?thesis using that wf_unique[OF assms(1)] by (simp add: e)
  qed
  show ?thesis
    unfolding wf_store_def
  proof (intro conjI)
    show "\<forall>a < length (nodes ?st). node_at ?st a \<noteq> Unreachable"
      using d wf_not_Unreachable[OF assms(1)] by simp
    show "\<forall>x. bt_inv (entries_of ?st x)" using ord by blast
    show "\<forall>x n a. (n, a) \<in> set (entries_of ?st x) \<longrightarrow> x < a \<and> a < length (nodes ?st)"
      unfolding length_set_node using up by blast
    show "\<forall>x y n m a. (n, a) \<in> set (entries_of ?st x) \<longrightarrow> (m, a) \<in> set (entries_of ?st y) \<longrightarrow> x = y \<and> n = m"
      using uniq by blast
  qed
qed

lemma bt_insert_set: "set (bt_insert m k v) \<subseteq> insert (k, v) (set m)"
  by (induction m k v rule: bt_insert.induct) auto

lemma bt_remove_set: "set (bt_remove m k) = {p \<in> set m. fst p \<noteq> k}"
  by (auto simp: bt_remove_def)

text \<open>The two ways an entry table changes: a fresh leaf is added, or entries are taken out
  and at most one comes back under a new name.\<close>

lemma wf_add_entry:
  assumes "wf_store st" "node_at st d = DirN es" "leaf n"
  shows "wf_store (set_node (st\<lparr>nodes := nodes st @ [n]\<rparr>) d (DirN (bt_insert es rel (length (nodes st)))))"
proof (rule wf_update_entries)
  let ?st = "st\<lparr>nodes := nodes st @ [n]\<rparr>"
  have d: "d < length (nodes st)" using assms(2) by (rule node_at_DirN_less)
  show wf: "wf_store ?st" using assms wf_alloc by blast
  show "node_at ?st d = DirN es" using assms(2) d by simp
  show "bt_inv (bt_insert es rel (length (nodes st)))"
    using wf_entries(1)[OF assms(1,2)] by (rule bt_inv_insert)
  have old: "a < length (nodes st)" if "(m, a) \<in> set (entries_of ?st x)" for m a x
  proof -
    have "entries_of st (length (nodes st)) = []" by (simp add: entries_of_def node_at_def)
    then have "entries_of ?st x = entries_of st x"
      using assms(3) by (auto simp: entries_of_def split: Node.splits)
    then show ?thesis using that assms(1) unfolding wf_store_def by metis
  qed
  fix m a
  assume "(m, a) \<in> set (bt_insert es rel (length (nodes st)))"
  then consider "(m, a) \<in> set es" | "a = length (nodes st)" using bt_insert_set by fastforce
  then show "(\<exists>n0. (n0, a) \<in> set es) \<or> d < a \<and> a < length (nodes ?st)
     \<and> (\<forall>x m. (m, a) \<notin> set (entries_of ?st x))"
    using d old by cases auto
  fix m'
  assume "(m', a) \<in> set (bt_insert es rel (length (nodes st)))"
  with \<open>(m, a) \<in> set (bt_insert es rel (length (nodes st)))\<close>
  have "(m, a) \<in> insert (rel, length (nodes st)) (set es)" "(m', a) \<in> insert (rel, length (nodes st)) (set es)"
    using bt_insert_set by fastforce+
  then show "m = m'"
    using wf_entries(2,3)[OF assms(1,2)] by fastforce
qed

lemma wf_remove_entry:
  assumes "wf_store st" "node_at st d = DirN es"
  shows "wf_store (set_node st d (DirN (bt_remove es rel)))"
  using wf_entries[OF assms]
  by (intro wf_update_entries[OF assms]) (auto simp: bt_inv_remove bt_remove_set)

lemma wf_move_entry:
  assumes "wf_store st" "node_at st d = DirN es" "bt_get es from = Some a"
  shows "wf_store (set_node st d (DirN (bt_insert (bt_remove es from) to a)))"
proof (rule wf_update_entries[OF assms(1,2)])
  have a: "(from, a) \<in> set es" using assms(3) by (rule bt_get_Some_in)
  have sub: "set (bt_insert (bt_remove es from) to a) \<subseteq> insert (to, a) {p \<in> set es. fst p \<noteq> from}"
    using bt_insert_set[of "bt_remove es from" to a] by (simp add: bt_remove_set)
  show "bt_inv (bt_insert (bt_remove es from) to a)"
    using wf_entries(1)[OF assms(1,2)] by (simp add: bt_inv_insert bt_inv_remove)
  fix n b
  assume nb: "(n, b) \<in> set (bt_insert (bt_remove es from) to a)"
  then show "(\<exists>n0. (n0, b) \<in> set es) \<or> d < b \<and> b < length (nodes st)
     \<and> (\<forall>x m. (m, b) \<notin> set (entries_of st x))"
    using sub a by auto
  fix n'
  assume "(n', b) \<in> set (bt_insert (bt_remove es from) to a)"
  then have "(n = to \<and> b = a) \<or> ((n, b) \<in> set es \<and> n \<noteq> from)"
      "(n' = to \<and> b = a) \<or> ((n', b) \<in> set es \<and> n' \<noteq> from)"
    using nb sub by auto
  then show "n = n'" using a wf_entries(3)[OF assms(1,2)] by metis
qed

section \<open>Every operation keeps it\<close>

lemma wf_root: "wf_store st \<Longrightarrow> wf_store (snd (root st))"
  by (simp add: root_def alloc_node_def wf_alloc)

lemma wf_with_file: "wf_store st \<Longrightarrow> with_file st d name c = Ret st' \<Longrightarrow> wf_store st'"
  by (auto simp: with_file_def alloc_node_def wf_add_entry split: Node.splits)

lemma wf_file_read: "wf_store st \<Longrightarrow> wf_store (snd (file_read st f cap))"
  by (simp add: file_read_def Let_def split: Node.splits)

lemma wf_file_write: "wf_store st \<Longrightarrow> wf_store (snd (file_write st f buf))"
  by (auto simp: file_write_def wf_update_file split: Node.splits)

lemma wf_dir_open: "wf_store st \<Longrightarrow> wf_store (snd (dir_open st d rel opts))"
  by (auto simp: dir_open_def new_file_def alloc_pos_def alloc_node_def Let_def wf_add_entry wf_update_file
      split: sum.splits Node.splits)

lemma wf_insert_entry:
  assumes "wf_store st" "leaf node"
  shows "wf_store (snd (insert_entry st d rel node op))"
  using assms wf_add_entry[OF assms(1) _ assms(2)]
  by (auto simp: insert_entry_def alloc_node_def split: Node.splits)

lemma wf_create_dir: "wf_store st \<Longrightarrow> wf_store (snd (create_dir st d rel))"
  by (simp add: create_dir_def wf_insert_entry)

lemma wf_dir_symlink: "wf_store st \<Longrightarrow> wf_store (snd (dir_symlink st d target link))"
  by (simp add: dir_symlink_def wf_insert_entry)

lemma wf_remove: "wf_store st \<Longrightarrow> wf_store (snd (remove st d rel want op))"
  by (auto simp: remove_def Let_def wf_remove_entry split: Node.splits option.splits bool.splits)

lemma wf_rename_impl: "wf_store st \<Longrightarrow> wf_store (snd (rename_impl st d from to replace))"
  by (auto simp: rename_impl_def wf_move_entry split: Node.splits option.splits)

lemma wf_create_memfd: "wf_store st \<Longrightarrow> wf_store (snd (create_memfd st name))"
  by (simp add: create_memfd_def new_file_def alloc_pos_def alloc_node_def Let_def wf_alloc)

lemmas wf_ops [inv_intros] = wf_root wf_with_file wf_file_read wf_file_write wf_dir_open wf_create_dir
  wf_dir_symlink wf_remove wf_rename_impl wf_create_memfd

section \<open>Reachable stores\<close>

inductive reachable :: "Store \<Rightarrow> bool" where
  r_init: "reachable \<lparr>nodes = [], positions = []\<rparr>"
| r_root: "reachable st \<Longrightarrow> reachable (snd (root st))"
| r_with_file: "reachable st \<Longrightarrow> with_file st d name c = Ret st' \<Longrightarrow> reachable st'"
| r_read: "reachable st \<Longrightarrow> reachable (snd (file_read st f cap))"
| r_write: "reachable st \<Longrightarrow> reachable (snd (file_write st f buf))"
| r_open_file: "reachable st \<Longrightarrow> reachable (snd (dir_open st d rel opts))"
| r_create_dir: "reachable st \<Longrightarrow> reachable (snd (create_dir st d rel))"
| r_symlink: "reachable st \<Longrightarrow> reachable (snd (dir_symlink st d target link))"
| r_remove_file: "reachable st \<Longrightarrow> reachable (snd (remove_file st d rel))"
| r_remove_dir: "reachable st \<Longrightarrow> reachable (snd (remove_dir st d rel))"
| r_rename: "reachable st \<Longrightarrow> reachable (snd (dir_rename st d from to))"
| r_rename_no_replace: "reachable st \<Longrightarrow> reachable (snd (rename_no_replace st d from to))"
| r_memfd: "reachable st \<Longrightarrow> reachable (snd (create_memfd st name))"

lemma wf_empty: "wf_store \<lparr>nodes = [], positions = []\<rparr>"
  by (simp add: wf_store_def entries_of_def node_at_def bt_inv_Nil)

lemma reachable_wf: "reachable st \<Longrightarrow> wf_store st"
  by (induction rule: reachable.induct)
    (auto intro: wf_empty wf_ops simp: remove_file_def remove_dir_def dir_rename_def
      rename_no_replace_def)

lemma child_Ok_iff:
  "child st d rel op = Ok a \<longleftrightarrow> bt_get (entries_of st d) rel = Some a"
  by (auto simp: child_def entries_of_def bt_get_def split: Node.splits option.splits)

lemma child_Ok_node:
  assumes "wf_store st" "child st d rel op = Ok a"
  shows "a < length (nodes st)" "node_at st a \<noteq> Unreachable"
proof -
  have "(rel, a) \<in> set (entries_of st d)"
    using assms(2) by (simp add: child_Ok_iff bt_get_Some_in)
  then show "a < length (nodes st)" using wf_upward[OF assms(1)] by blast
  then show "node_at st a \<noteq> Unreachable" using wf_not_Unreachable[OF assms(1)] by blast
qed

lemma list_entries_Ret:
  assumes "\<And>n a. (n, a) \<in> set es \<Longrightarrow> node_at st a \<noteq> Unreachable"
  shows "\<exists>ds. list_entries st es = Ret ds \<and> map de_name ds = map fst es"
  using assms
proof (induction st es rule: list_entries.induct)
  case (2 st name a rest)
  have "node_at st a \<noteq> Unreachable" by (rule "2.prems"[of name]) simp
  then obtain t where "node_type (node_at st a) = Ret t" by (cases "node_at st a") (auto simp: node_type_def)
  moreover obtain ds where "list_entries st rest = Ret ds" "map de_name ds = map fst rest"
    using "2.IH" "2.prems" by (metis list.set_intros(2))
  ultimately show ?case by simp
qed simp

section \<open>A directory's view\<close>

definition dir_view :: "addr \<Rightarrow> Store \<Rightarrow> string \<Rightarrow> Node option" where
  "dir_view d st n = map_option (node_at st) (bt_get (entries_of st d) n)"

definition dir_inv :: "addr \<Rightarrow> Store \<Rightarrow> bool" where
  "dir_inv d st \<longleftrightarrow> wf_store st \<and> (\<exists>es. node_at st d = DirN es)"

definition dir_handle :: "addr \<Rightarrow> Store \<Rightarrow> MockFile \<Rightarrow> string \<Rightarrow> bytes \<Rightarrow> bool" where
  "dir_handle d st f n c \<longleftrightarrow> mf_writable f \<and> bt_get (entries_of st d) n = Some (mf_node f)
    \<and> node_at st (mf_node f) = FileN c"

lemma dir_view_positions [simp]: "dir_view d (st\<lparr>positions := ps\<rparr>) = dir_view d st"
proof -
  have "node_at (st\<lparr>positions := ps\<rparr>) = node_at st" by (rule ext) simp
  then show ?thesis unfolding dir_view_def[abs_def] by (simp only: entries_of_positions)
qed

lemma view_at:
  assumes "dir_inv d st" "node_at st d = DirN es" "bt_get es n = Some a"
  shows "d < a" "a < length (nodes st)"
  using wf_entries(2)[of st d es n a] bt_get_Some_in[OF assms(3)] assms by (auto simp: dir_inv_def)

lemma view_add_entry:
  assumes "dir_inv d st" "node_at st d = DirN es"
  shows "dir_view d (set_node (st\<lparr>nodes := nodes st @ [n]\<rparr>) d (DirN (bt_insert es rel (length (nodes st)))))
    = (dir_view d st)(rel \<mapsto> n)"
proof
  fix x
  have i: "bt_inv es" using wf_entries(1) assms by (auto simp: dir_inv_def)
  have d: "d < length (nodes st)" using assms(2) by (rule node_at_DirN_less)
  have "a < length (nodes st) \<and> a \<noteq> d" if "bt_get es x = Some a" for a
    using view_at[OF assms that] by simp
  then show "dir_view d (set_node (st\<lparr>nodes := nodes st @ [n]\<rparr>) d (DirN (bt_insert es rel (length (nodes st))))) x
    = ((dir_view d st)(rel \<mapsto> n)) x"
    using assms(2) d i by (cases "bt_get es x") (auto simp: dir_view_def entries_of_def bt_get_insert)
qed

lemma view_set_entries:
  assumes "dir_inv d st" "node_at st d = DirN es" "bt_get es' = g"
    and "\<And>x a. g x = Some a \<Longrightarrow> d \<noteq> a"
  shows "dir_view d (set_node st d (DirN es')) = map_option (node_at st) \<circ> g"
proof
  fix x
  have "d < length (nodes st)" using assms(2) by (rule node_at_DirN_less)
  then show "dir_view d (set_node st d (DirN es')) x = (map_option (node_at st) \<circ> g) x"
    using assms(3,4) by (cases "g x") (auto simp: dir_view_def entries_of_def)
qed

lemma view_None_child:
  assumes "dir_inv d st" "dir_view d st n = None"
  shows "child st d n op = Err (err NotFound op n)"
  using assms by (auto simp: dir_inv_def dir_view_def child_def entries_of_def)

lemma view_Some_child:
  assumes "dir_inv d st" "dir_view d st n = Some e"
  obtains a es where "node_at st d = DirN es" "bt_get es n = Some a" "node_at st a = e" "a \<noteq> d"
    "child st d n op = Ok a"
proof -
  obtain es where es: "node_at st d = DirN es" using assms(1) by (auto simp: dir_inv_def)
  then obtain a where a: "bt_get es n = Some a" "node_at st a = e"
    using assms(2) by (auto simp: dir_view_def entries_of_def)
  show ?thesis
    using that[OF es a] view_at[OF assms(1) es a(1)] es a by (simp add: child_Ok_iff entries_of_def)
qed

lemma mock_open_new:
  assumes "dir_inv d st" "dir_view d st n = None"
  shows "\<exists>f st'. dir_open st d n tmp_options = (Ok f, st') \<and> dir_inv d st'
    \<and> dir_view d st' = (dir_view d st)(n \<mapsto> FileN []) \<and> dir_handle d st' f n []"
proof -
  obtain es where es: "node_at st d = DirN es" "wf_store st" using assms(1) by (auto simp: dir_inv_def)
  define a where "a = length (nodes st)"
  define st1 where "st1 = set_node (st\<lparr>nodes := nodes st @ [FileN []]\<rparr>) d (DirN (bt_insert es n a))"
  define f where "f = \<lparr>mf_node = a, mf_pos = length (positions st1), mf_readable = False, mf_writable = True\<rparr>"
  have d: "d < length (nodes st)" using es(1) by (rule node_at_DirN_less)
  have o: "dir_open st d n tmp_options = (Ok f, st1\<lparr>positions := positions st1 @ [0]\<rparr>)"
    using es view_None_child[OF assms]
    by (simp add: dir_open_def tmp_options_def default_open_options_def new_file_def alloc_pos_def
        alloc_node_def Let_def st1_def f_def a_def)
  have v: "dir_view d st1 = (dir_view d st)(n \<mapsto> FileN [])"
    unfolding st1_def a_def by (rule view_add_entry[OF assms(1) es(1)])
  have wf: "wf_store st1" unfolding st1_def a_def using es wf_add_entry by simp
  have at: "node_at st1 d = DirN (bt_insert es n a)" "node_at st1 a = FileN []"
    using d by (simp_all add: st1_def a_def)
  have "bt_get (bt_insert es n a) n = Some a"
    using wf_entries(1)[OF es(2,1)] by (simp add: bt_get_insert)
  then have "dir_handle d (st1\<lparr>positions := positions st1 @ [0]\<rparr>) f n []"
    using at by (simp add: dir_handle_def f_def entries_of_def)
  then show ?thesis using o v wf at by (auto simp: dir_inv_def)
qed

lemma mock_write_appends:
  assumes "dir_inv d st" "dir_handle d st f n c"
  shows "\<exists>st'. file_write st f buf = (Ok (length buf), st') \<and> dir_inv d st'
    \<and> dir_view d st' = (dir_view d st)(n \<mapsto> FileN (c @ buf)) \<and> dir_handle d st' f n (c @ buf)"
proof -
  let ?a = "mf_node f" and ?st = "set_node st (mf_node f) (FileN (c @ buf))"
  obtain es where es: "node_at st d = DirN es" "wf_store st" using assms(1) by (auto simp: dir_inv_def)
  have h: "mf_writable f" "bt_get es n = Some ?a" "node_at st ?a = FileN c"
    using assms(2) es by (simp_all add: dir_handle_def entries_of_def)
  have a: "?a < length (nodes st)" "?a \<noteq> d" using view_at[OF assms(1) es(1) h(2)] by auto
  have v: "dir_view d ?st = (dir_view d st)(n \<mapsto> FileN (c @ buf))"
  proof
    fix x
    have "x = n" if "bt_get es x = Some ?a"
      using wf_entries(3)[OF es(2,1) bt_get_Some_in[OF that] bt_get_Some_in[OF h(2)]] .
    then show "dir_view d ?st x = ((dir_view d st)(n \<mapsto> FileN (c @ buf))) x"
      using a es h by (cases "bt_get es x") (auto simp: dir_view_def entries_of_def)
  qed
  have "dir_inv d ?st" using a es h wf_update_file by (simp add: dir_inv_def)
  moreover have "dir_handle d ?st f n (c @ buf)" using a es h by (simp add: dir_handle_def entries_of_def)
  ultimately show ?thesis using h v by (simp add: file_write_def)
qed

lemma mock_rename:
  assumes "dir_inv d st" "dir_view d st a = Some e"
  shows "\<exists>st'. dir_rename st d a b = (Ok (), st') \<and> dir_inv d st'
    \<and> dir_view d st' = (dir_view d st)(a := None, b \<mapsto> e)"
proof -
  obtain x es where x: "node_at st d = DirN es" "bt_get es a = Some x" "node_at st x = e" "x \<noteq> d"
    by (rule view_Some_child[OF assms, of "[]"])
  have wf: "wf_store st" using assms(1) by (simp add: dir_inv_def)
  let ?es = "bt_insert (bt_remove es a) b x"
  have g: "bt_get ?es = (bt_get es)(a := None, b \<mapsto> x)"
    using bt.get_move[OF wf_entries(1)[OF wf x(1)] x(2)] by simp
  have "d \<noteq> y" if "((bt_get es)(a := None, b \<mapsto> x)) z = Some y" for z y
    using that x(4) view_at(1)[OF assms(1) x(1)] by (auto split: if_splits)
  then have "dir_view d (set_node st d (DirN ?es)) = map_option (node_at st) \<circ> (bt_get es)(a := None, b \<mapsto> x)"
    by (rule view_set_entries[OF assms(1) x(1) g])
  then have "dir_view d (set_node st d (DirN ?es)) = (dir_view d st)(a := None, b \<mapsto> e)"
    using x by (auto simp: fun_eq_iff dir_view_def entries_of_def)
  moreover have "dir_inv d (set_node st d (DirN ?es))"
    using wf_move_entry[OF wf x(1,2)] node_at_DirN_less[OF x(1)] by (simp add: dir_inv_def)
  ultimately show ?thesis using x by (simp add: dir_rename_def rename_impl_def)
qed

lemma mock_remove_file:
  assumes "dir_inv d st" "dir_view d st n = Some (FileN c)"
  shows "\<exists>st'. remove_file st d n = (Ok (), st') \<and> dir_inv d st' \<and> dir_view d st' = (dir_view d st)(n := None)"
proof -
  obtain x es where x: "node_at st d = DirN es" "bt_get es n = Some x" "node_at st x = FileN c" "x \<noteq> d"
    by (rule view_Some_child[OF assms, of "[]"])
  have wf: "wf_store st" using assms(1) by (simp add: dir_inv_def)
  have "d \<noteq> y" if "((bt_get es)(n := None)) z = Some y" for z y
    using that view_at(1)[OF assms(1) x(1)] by (auto split: if_splits)
  then have "dir_view d (set_node st d (DirN (bt_remove es n))) = map_option (node_at st) \<circ> (bt_get es)(n := None)"
    by (rule view_set_entries[OF assms(1) x(1) bt_get_remove])
  then have "dir_view d (set_node st d (DirN (bt_remove es n))) = (dir_view d st)(n := None)"
    using x by (auto simp: fun_eq_iff dir_view_def entries_of_def)
  moreover have "dir_inv d (set_node st d (DirN (bt_remove es n)))"
    using wf_remove_entry[OF wf x(1)] node_at_DirN_less[OF x(1)] by (simp add: dir_inv_def)
  ultimately show ?thesis using x by (simp add: remove_file_def remove_def Let_def)
qed

section \<open>The in-memory directory provides the contract\<close>

interpretation mock: atomic_dir "mock_ops d" "dir_inv d" "dir_view d" FileN "dir_handle d" for d :: addr
proof
  fix st :: Store and n a b c f buf e
  show "\<exists>f st'. do_open (mock_ops d) st n tmp_options = (Ok f, st') \<and> dir_inv d st'
      \<and> dir_view d st' = (dir_view d st)(n \<mapsto> FileN []) \<and> dir_handle d st' f n []"
    if "dir_inv d st" "dir_view d st n = None"
    using mock_open_new[OF that] by (simp add: mock_ops_def)
  show "\<exists>er. do_open (mock_ops d) st n tmp_options = (Err er, st) \<and> err_kind er = AlreadyExists"
    if "dir_inv d st" "dir_view d st n = Some e"
    by (rule view_Some_child[OF that, of "''open''"])
      (simp add: mock_ops_def dir_open_def tmp_options_def default_open_options_def err_def)
  show "\<exists>k st'. do_write (mock_ops d) st f buf = (Ok k, st') \<and> 0 < k \<and> k \<le> length buf \<and> dir_inv d st'
      \<and> dir_view d st' = (dir_view d st)(n \<mapsto> FileN (c @ take k buf)) \<and> dir_handle d st' f n (c @ take k buf)"
    if "dir_inv d st" "dir_handle d st f n c" "buf \<noteq> []"
    using mock_write_appends[OF that(1,2), of buf] that(3) by (auto simp: mock_ops_def)
  show "\<exists>st'. do_rename (mock_ops d) st a b = (Ok (), st') \<and> dir_inv d st'
      \<and> dir_view d st' = (dir_view d st)(a := None, b \<mapsto> e)"
    if "dir_inv d st" "dir_view d st a = Some e"
    using mock_rename[OF that] by (simp add: mock_ops_def)
  show "\<exists>st'. do_remove_file (mock_ops d) st n = (Ok (), st') \<and> dir_inv d st'
      \<and> dir_view d st' = (dir_view d st)(n := None)"
    if "dir_inv d st" "dir_view d st n = Some (FileN c)"
    using mock_remove_file[OF that] by (simp add: mock_ops_def)
qed (simp_all add: mock_ops_def file_sync_all_def)

section \<open>Reading\<close>

lemma file_read_slice:
  assumes "mf_readable f" "node_at st (mf_node f) = FileN data"
  shows "file_read st f cap = (Ok (take cap (drop (positions st ! mf_pos f) data)),
    st\<lparr>positions := (positions st)[mf_pos f := positions st ! mf_pos f
      + length (take cap (drop (positions st ! mf_pos f) data))]\<rparr>)"
  using assms by (auto simp: file_read_def Let_def min_def)

section \<open>Properties\<close>

text \<open>C5.  Whatever sequence of operations built the store: no operation meets the
  placeholder node, so \<open>metadata\<close> and \<open>read_dir\<close> never panic; a listing is in strictly
  increasing name order; entries always point to later nodes, so the tree is acyclic and a
  directory is locked before, never after, its children; and no node has two entries.\<close>

theorem mock_fs_store_invariant:
  assumes "reachable st"
  shows "wf_store st \<and> dir_metadata st d rel \<noteq> Panic
    \<and> (\<forall>es. node_at st d = DirN es \<longrightarrow>
        (\<exists>ds. dir_read_dir st d = Ret ds \<and> sorted_wrt (<) (map de_name ds) \<and> set (map de_name ds) = dom (dir_view d st)))"
proof -
  have wf: "wf_store st" using assms by (rule reachable_wf)
  have "dir_metadata st d rel \<noteq> Panic"
    using child_Ok_node(2)[OF wf, of d rel "''metadata''"]
    by (cases "child st d rel ''metadata''") (auto simp: dir_metadata_def split: Node.splits)
  moreover have "\<exists>ds. dir_read_dir st d = Ret ds \<and> sorted_wrt (<) (map de_name ds)
      \<and> set (map de_name ds) = dom (dir_view d st)" if es: "node_at st d = DirN es" for es
  proof -
    note we = wf_entries[OF wf es]
    obtain ds where "list_entries st es = Ret ds" "map de_name ds = map fst es"
      using list_entries_Ret[of es st] we(2) wf_not_Unreachable[OF wf] by blast
    moreover have "dom (dir_view d st) = dom (bt_get es)"
      using es by (auto simp: dir_view_def entries_of_def)
    ultimately show ?thesis
      using es bt.keys_dom[OF we(1)] bt.keys_sorted[OF we(1)]
      by (simp add: dir_read_dir_def del: set_map)
  qed
  ultimately show ?thesis using wf by blast
qed

theorem mock_fs_store_invariant_witness:
  "wf_store (snd (create_dir (snd (root \<lparr>nodes = [], positions = []\<rparr>)) 0 ''a''))
   \<and> dir_metadata (snd (create_dir (snd (root \<lparr>nodes = [], positions = []\<rparr>)) 0 ''a'')) 0 ''b'' \<noteq> Panic"
proof -
  have "reachable (snd (create_dir (snd (root \<lparr>nodes = [], positions = []\<rparr>)) 0 ''a''))"
    by (intro r_create_dir r_root r_init)
  from mock_fs_store_invariant[OF this] show ?thesis by blast
qed

text \<open>C10.  Atomic replacement on the in-memory backend: if the temporary name is free,
  \<open>write_atomic\<close> succeeds, the target name then holds exactly the new contents, every other
  name of the directory is as before, and no temporary file is left.\<close>

theorem mock_write_atomic_publishes:
  assumes "reachable st" "node_at st d = DirN es" "dir_view d st (tmp_name rel pid counter) = None"
  shows "\<exists>st'. write_atomic (mock_ops d) pid counter st rel contents = (Ok (), counter + 1, st')
    \<and> dir_view d st' = (dir_view d st)(rel \<mapsto> FileN contents) \<and> wf_store st'"
  using mock.write_atomic_publishes[of d st rel pid counter contents] assms reachable_wf[OF assms(1)]
  by (auto simp: dir_inv_def)

theorem mock_write_atomic_publishes_witness:
  "\<exists>st'. write_atomic (mock_ops 0) 7 0 (snd (root \<lparr>nodes = [], positions = []\<rparr>)) ''f'' [1, 2]
      = (Ok (), 1, st')
    \<and> dir_view 0 st' = (dir_view 0 (snd (root \<lparr>nodes = [], positions = []\<rparr>)))(''f'' \<mapsto> FileN [1, 2])
    \<and> wf_store st'"
proof -
  let ?st = "snd (root \<lparr>nodes = [], positions = []\<rparr>)"
  have "reachable ?st" by (intro r_root r_init)
  moreover have "node_at ?st 0 = DirN []" by code_simp
  moreover have "dir_view 0 ?st (tmp_name ''f'' 7 0) = None" by code_simp
  ultimately show ?thesis using mock_write_atomic_publishes[of ?st 0 "[]" "''f''" 7 0 "[1, 2]"] by simp
qed

text \<open>A name collision costs the other file: if a file already has the temporary
  name, \<open>write_atomic\<close> fails with \<open>AlreadyExists\<close> and its clean-up removes that file,
  which it did not create.\<close>

theorem mock_write_atomic_collision_removes:
  assumes "reachable st" "node_at st d = DirN es" "dir_view d st (tmp_name rel pid counter) = Some (FileN c)"
  shows "\<exists>e st'. write_atomic (mock_ops d) pid counter st rel contents = (Err e, counter + 1, st')
    \<and> err_kind e = AlreadyExists \<and> dir_view d st' = (dir_view d st)(tmp_name rel pid counter := None)"
  using mock.write_atomic_collides[of d st rel pid counter c contents] assms reachable_wf[OF assms(1)]
  by (auto simp: dir_inv_def)

theorem mock_write_atomic_collision_removes_witness:
  "\<exists>e st'. write_atomic (mock_ops 0) 7 0
        \<lparr>nodes = [DirN [(''f.rustils-tmp-7-0'', 1)], FileN [9]], positions = []\<rparr> ''f'' [1, 2]
      = (Err e, 1, st') \<and> err_kind e = AlreadyExists \<and> dir_view 0 st' ''f.rustils-tmp-7-0'' = None"
proof -
  let ?st = "\<lparr>nodes = [DirN [(''f.rustils-tmp-7-0'', 1)], FileN [9]], positions = []\<rparr>"
  have "with_file (snd (root \<lparr>nodes = [], positions = []\<rparr>)) 0 ''f.rustils-tmp-7-0'' [9] = Ret ?st" by code_simp
  then have "reachable ?st" by (rule r_with_file[rotated]) (intro r_root r_init)
  moreover have "node_at ?st 0 = DirN [(''f.rustils-tmp-7-0'', 1)]" by code_simp
  moreover have "tmp_name ''f'' 7 0 = ''f.rustils-tmp-7-0''" by code_simp
  moreover have "dir_view 0 ?st ''f.rustils-tmp-7-0'' = Some (FileN [9])" by code_simp
  ultimately show ?thesis
    using mock_write_atomic_collision_removes[of ?st 0 _ "''f''" 7 0 "[9]" "[1, 2]"] by auto
qed

text \<open>Renaming moves exactly one entry, on every branch: a missing source is
  \<open>NotFound\<close>; \<open>rename_no_replace\<close> refuses an existing target and then changes nothing;
  otherwise the entry leaves its old name and takes the new one, replacing whatever was
  there, and no other name of the directory changes.\<close>

theorem mock_rename_moves_one_entry:
  assumes "dir_inv d st"
  shows "case dir_view d st a of
      None \<Rightarrow> fst (dir_rename st d a b) = Err (err NotFound ''rename'' a)
        \<and> snd (dir_rename st d a b) = st \<and> rename_no_replace st d a b = dir_rename st d a b
    | Some e \<Rightarrow> fst (dir_rename st d a b) = Ok ()
        \<and> dir_view d (snd (dir_rename st d a b)) = (dir_view d st)(a := None, b \<mapsto> e)
        \<and> rename_no_replace st d a b = (if dir_view d st b = None then dir_rename st d a b
             else (Err (err AlreadyExists ''rename'' b), st))"
proof (cases "dir_view d st a")
  case None
  then show ?thesis using assms
    by (auto simp: dir_rename_def rename_no_replace_def rename_impl_def dir_inv_def dir_view_def entries_of_def)
next
  case (Some e)
  obtain st' where r: "dir_rename st d a b = (Ok (), st')" "dir_view d st' = (dir_view d st)(a := None, b \<mapsto> e)"
    using mock_rename[OF assms Some, of b] by blast
  obtain x es where "node_at st d = DirN es" "bt_get es a = Some x"
    by (rule view_Some_child[OF assms Some, of "[]"])
  then have "rename_no_replace st d a b = (if dir_view d st b = None then dir_rename st d a b
             else (Err (err AlreadyExists ''rename'' b), st))"
    by (simp add: dir_rename_def rename_no_replace_def rename_impl_def dir_view_def entries_of_def)
  then show ?thesis using Some r by simp
qed

theorem mock_rename_moves_one_entry_witness:
  "dir_view 0 (snd (dir_rename \<lparr>nodes = [DirN [(''a'', 1)], FileN [9]], positions = []\<rparr> 0 ''a'' ''b'')) ''b''
    = Some (FileN [9])"
proof -
  let ?st = "\<lparr>nodes = [DirN [(''a'', 1)], FileN [9]], positions = []\<rparr>"
  have "with_file (snd (root \<lparr>nodes = [], positions = []\<rparr>)) 0 ''a'' [9] = Ret ?st" by code_simp
  then have "reachable ?st" by (rule r_with_file[rotated]) (intro r_root r_init)
  then have "dir_inv 0 ?st" using reachable_wf by (simp add: dir_inv_def node_at_def)
  moreover have "dir_view 0 ?st ''a'' = Some (FileN [9])" by code_simp
  ultimately show ?thesis using mock_rename_moves_one_entry[of 0 ?st "''a''" "''b''"] by simp
qed

text \<open>A cloned handle shares its position: reading through the original and then
  through the clone gives consecutive parts of the file, as one longer read would.\<close>

theorem mock_try_clone_shares_position:
  assumes "mf_readable f" "node_at st (mf_node f) = FileN data" "mf_pos f < length (positions st)"
    and "try_clone f = Ok g" "file_read st f n = (Ok bs1, st1)" "file_read st1 g m = (Ok bs2, st2)"
  shows "bs1 @ bs2 = take (n + m) (drop (positions st ! mf_pos f) data)"
proof -
  have g: "g = f" using assms(4) by (cases f) (simp add: try_clone_def)
  let ?p = "positions st ! mf_pos f"
  have 1: "bs1 = take n (drop ?p data)" "st1 = st\<lparr>positions := (positions st)[mf_pos f := ?p + length bs1]\<rparr>"
    using assms(5) file_read_slice[OF assms(1,2), of n] by auto
  then have "bs2 = take m (drop (?p + length bs1) data)"
    using assms(1,2,3,6) file_read_slice[of f st1 data m] by (simp add: g)
  moreover have "take m (drop (?p + length bs1) data) = take m (drop n (drop ?p data))"
    unfolding 1(1) by (cases "n \<le> length (drop ?p data)") (simp_all add: add.commute)
  ultimately show ?thesis using 1(1) by (simp add: take_add)
qed

theorem mock_try_clone_shares_position_witness:
  "fst (file_read (snd (file_read \<lparr>nodes = [FileN [1, 2, 3]], positions = [0]\<rparr>
      \<lparr>mf_node = 0, mf_pos = 0, mf_readable = True, mf_writable = False\<rparr> 2))
      \<lparr>mf_node = 0, mf_pos = 0, mf_readable = True, mf_writable = False\<rparr> 5) = Ok [3]"
proof -
  let ?st = "\<lparr>nodes = [FileN [1, 2, 3 :: u8]], positions = [0]\<rparr>"
  let ?f = "\<lparr>mf_node = 0, mf_pos = 0, mf_readable = True, mf_writable = False\<rparr>"
  have 1: "file_read ?st ?f 2 = (Ok [1, 2], ?st\<lparr>positions := [2]\<rparr>)" by code_simp
  obtain bs2 st2 where 2: "file_read (?st\<lparr>positions := [2]\<rparr>) ?f 5 = (Ok bs2, st2)"
    by (simp add: file_read_def node_at_def)
  have "[1, 2] @ bs2 = take (2 + 5) (drop (positions ?st ! 0) [1, 2, 3])"
    using mock_try_clone_shares_position[OF _ _ _ _ 1 2, of "[1, 2, 3]"] by (simp add: node_at_def try_clone_def)
  then show ?thesis using 1 2 by simp
qed

end
