(* ===== verification/Coreutils_Cat.thy ===== *)
theory Coreutils_Cat
  imports Mock_Fs
begin

text \<open>
  \<open>cat\<close> over the file-system traits, \<open>coreutils/src/cat.rs\<close>.  It is written against
  any backend (the operations are arguments) and any writer; a writer either takes
  the whole buffer or fails with an OS code.  The read loop takes fuel, since a
  backend may deliver for ever; on the in-memory backend a bound is proved.
\<close>

section \<open>The code\<close>

definition write_stdout :: "('o \<Rightarrow> bytes \<Rightarrow> i32 + 'o) \<Rightarrow> 'o \<Rightarrow> bytes \<Rightarrow> 'o result" where
  "write_stdout write_all out bs =
    (case write_all out bs of
       Inl code \<Rightarrow> Err (new_error BrokenPipe (Errno code) ''write stdout'')
     | Inr out1 \<Rightarrow> Ok out1)"

fun cat_loop ::
    "nat \<Rightarrow> ('st \<Rightarrow> 'f \<Rightarrow> nat \<Rightarrow> bytes result \<times> 'st) \<Rightarrow> ('o \<Rightarrow> bytes \<Rightarrow> i32 + 'o)
     \<Rightarrow> 'st \<Rightarrow> 'f \<Rightarrow> 'o \<Rightarrow> ('o result \<times> 'st) option" where
  "cat_loop 0 read write_all st f out = None"
| "cat_loop (Suc n) read write_all st f out =
    (case read st f 8192 of
       (Err e, st1) \<Rightarrow> Some (Err e, st1)
     | (Ok bs, st1) \<Rightarrow>
         if bs = [] then Some (Ok out, st1)
         else case write_stdout write_all out bs of
           Err e \<Rightarrow> Some (Err e, st1)
         | Ok out1 \<Rightarrow> cat_loop n read write_all st1 f out1)"

definition cat ::
    "nat \<Rightarrow> ('st \<Rightarrow> string \<Rightarrow> OpenOptions \<Rightarrow> 'f result \<times> 'st)
     \<Rightarrow> ('st \<Rightarrow> 'f \<Rightarrow> nat \<Rightarrow> bytes result \<times> 'st) \<Rightarrow> ('o \<Rightarrow> bytes \<Rightarrow> i32 + 'o)
     \<Rightarrow> 'st \<Rightarrow> string \<Rightarrow> 'o \<Rightarrow> ('o result \<times> 'st) option" where
  "cat n open_file read write_all st rel out =
    (case open_file st rel open_read of
       (Err e, st1) \<Rightarrow> Some (Err e, st1)
     | (Ok f, st1) \<Rightarrow> cat_loop n read write_all st1 f out)"

text \<open>A growable vector as the writer: it never fails.\<close>

definition vec_write_all :: "bytes \<Rightarrow> bytes \<Rightarrow> i32 + bytes" where
  "vec_write_all out bs = Inr (out @ bs)"

section \<open>Any sequential reader\<close>

text \<open>The contract of a file opened for reading: \<open>left st f\<close> is what remains, each read
  returns the front of it, nothing only at the end.\<close>

locale sequential_reader =
  fixes read :: "'st \<Rightarrow> 'f \<Rightarrow> nat \<Rightarrow> bytes result \<times> 'st" and ok :: "'st \<Rightarrow> 'f \<Rightarrow> bool"
    and left :: "'st \<Rightarrow> 'f \<Rightarrow> bytes"
  assumes read_step: "ok st f \<Longrightarrow> 0 < cap \<Longrightarrow>
    \<exists>bs st'. read st f cap = (Ok bs, st') \<and> ok st' f \<and> left st f = bs @ left st' f
      \<and> (bs = [] \<longrightarrow> left st f = [])"
begin

lemma cat_loop_copies:
  assumes "ok st f" "length (left st f) < n"
  shows "\<exists>st'. cat_loop n read vec_write_all st f out = Some (Ok (out @ left st f), st') \<and> ok st' f
    \<and> left st' f = []"
  using assms
proof (induction n arbitrary: st out)
  case (Suc n)
  obtain bs st1 where r: "read st f 8192 = (Ok bs, st1)" "ok st1 f" "left st f = bs @ left st1 f"
    "bs = [] \<longrightarrow> left st f = []"
    using read_step[OF Suc.prems(1), of 8192] by auto
  show ?case
  proof (cases "bs = []")
    case True
    then show ?thesis using r by simp
  next
    case False
    then have "length (left st1 f) < n" using Suc.prems(2) r(3) by (cases bs) simp_all
    then show ?thesis
      using Suc.IH[of st1 "out @ bs"] r False by (simp add: write_stdout_def vec_write_all_def)
  qed
qed simp

end

section \<open>The in-memory file is one\<close>

definition mock_ok :: "Store \<Rightarrow> MockFile \<Rightarrow> bool" where
  "mock_ok st f \<longleftrightarrow> mf_readable f \<and> mf_pos f < length (positions st) \<and> (\<exists>data. node_at st (mf_node f) = FileN data)"

definition mock_left :: "Store \<Rightarrow> MockFile \<Rightarrow> bytes" where
  "mock_left st f = (case node_at st (mf_node f) of
     FileN data \<Rightarrow> drop (positions st ! mf_pos f) data | _ \<Rightarrow> [])"

interpretation mock_file: sequential_reader file_read mock_ok mock_left
proof
  fix st f and cap :: nat
  assume "mock_ok st f" "0 < cap"
  then obtain data where f: "mf_readable f" "mf_pos f < length (positions st)" "node_at st (mf_node f) = FileN data"
    by (auto simp: mock_ok_def)
  let ?p = "positions st ! mf_pos f"
  let ?bs = "take cap (drop ?p data)"
  have "drop ?p data = ?bs @ drop (?p + length ?bs) data"
    by (cases "cap \<le> length (drop ?p data)") (simp_all add: add.commute, metis append_take_drop_id drop_drop add.commute)
  then show "\<exists>bs st'. file_read st f cap = (Ok bs, st') \<and> mock_ok st' f
      \<and> mock_left st f = bs @ mock_left st' f \<and> (bs = [] \<longrightarrow> mock_left st f = [])"
    using f file_read_slice[OF f(1,3), of cap] \<open>0 < cap\<close>
    by (auto simp: mock_ok_def mock_left_def)
qed

lemma mock_open_read:
  assumes "wf_store st" "dir_view d st rel = Some (FileN data)"
  shows "\<exists>f st'. dir_open st d rel open_read = (Ok f, st') \<and> mock_ok st' f \<and> mock_left st' f = data"
proof -
  obtain a where a: "bt_get (entries_of st d) rel = Some a" "node_at st a = FileN data"
    using assms(2) by (auto simp: dir_view_def)
  then have "child st d rel ''open'' = Ok a" by (simp add: child_Ok_iff)
  then show ?thesis using a
    by (simp add: dir_open_def open_read_def default_open_options_def new_file_def alloc_pos_def
        mock_ok_def mock_left_def)
qed

section \<open>Properties\<close>

text \<open> \<open>cat\<close> is byte-faithful: on the in-memory backend it appends exactly the file's
  bytes to the writer, whatever they are, and one read per byte is fuel enough.\<close>

theorem cat_byte_faithful:
  assumes "reachable st" "dir_view d st rel = Some (FileN data)" "length data < n"
  shows "\<exists>st'. cat n (\<lambda>s. dir_open s d) file_read vec_write_all st rel out = Some (Ok (out @ data), st')"
proof -
  obtain f st1 where o: "dir_open st d rel open_read = (Ok f, st1)" "mock_ok st1 f" "mock_left st1 f = data"
    using mock_open_read[OF reachable_wf[OF assms(1)] assms(2)] by blast
  then show ?thesis using mock_file.cat_loop_copies[OF o(2), of n out] assms(3) by (auto simp: cat_def)
qed

theorem cat_byte_faithful_witness:
  "\<exists>st'. cat 4 (\<lambda>s. dir_open s 0) file_read vec_write_all
      \<lparr>nodes = [DirN [(''a'', 1)], FileN [104, 255, 0]], positions = []\<rparr> ''a'' [1] = Some (Ok [1, 104, 255, 0], st')"
proof -
  let ?st = "\<lparr>nodes = [DirN [(''a'', 1)], FileN [104, 255, 0]], positions = []\<rparr>"
  have "with_file (snd (root \<lparr>nodes = [], positions = []\<rparr>)) 0 ''a'' [104, 255, 0] = Ret ?st" by code_simp
  then have "reachable ?st" by (rule r_with_file[rotated]) (intro r_root r_init)
  moreover have "dir_view 0 ?st ''a'' = Some (FileN [104, 255, 0])" by code_simp
  ultimately show ?thesis using cat_byte_faithful[of ?st 0 "''a''" "[104, 255, 0]" 4 "[1]"] by simp
qed

end
