(* ===== verification/Calendar.thy ===== *)
theory Calendar
  imports Main
begin

text \<open>
  The calendar of \<open>coreutils/src/ls.rs\<close>: days since the Unix epoch to a date of
  the proleptic Gregorian calendar.  The code computes with \<open>i64\<close> and \<open>u64\<close>; here
  they are \<open>int\<close>, and the ranges proved for the intermediate values are those that
  keep the conversions exact.  The reference is the calendar's own rule for the
  next day.
\<close>

section \<open>The code\<close>

text \<open>Division of signed integers in the source truncates.\<close>

definition trunc_div :: "int \<Rightarrow> int \<Rightarrow> int" where
  "trunc_div a b = (if 0 \<le> a then a div b else - ((- a) div b))"

definition yoe_of :: "int \<Rightarrow> int" where
  "yoe_of doe = (doe - doe div 1460 + doe div 36524 - doe div 146096) div 365"

definition year_start :: "int \<Rightarrow> int" where
  "year_start yoe = 365 * yoe + yoe div 4 - yoe div 100"

definition month_day :: "int \<Rightarrow> int \<times> int" where
  "month_day doy =
    (let mp = (5 * doy + 2) div 153;
         d = doy - (153 * mp + 2) div 5 + 1;
         m = (if mp < 10 then mp + 3 else mp - 9)
     in (m, d))"

definition civil_from_days :: "int \<Rightarrow> int \<times> int \<times> int" where
  "civil_from_days z0 =
    (let z = z0 + 719468;
         era = trunc_div (if 0 \<le> z then z else z - 146096) 146097;
         doe = z - era * 146097;
         yoe = yoe_of doe;
         y = yoe + era * 400;
         doy = doe - year_start yoe;
         (m, d) = month_day doy
     in (if m \<le> 2 then y + 1 else y, m, d))"

section \<open>The Gregorian calendar, for reference\<close>

definition leap :: "int \<Rightarrow> bool" where
  "leap y = (y mod 4 = 0 \<and> (y mod 100 \<noteq> 0 \<or> y mod 400 = 0))"

definition days_in_month :: "int \<Rightarrow> int \<Rightarrow> int" where
  "days_in_month y m =
    (if m = 2 then (if leap y then 29 else 28) else if m \<in> {4, 6, 9, 11} then 30 else 31)"

fun next_day :: "int \<times> int \<times> int \<Rightarrow> int \<times> int \<times> int" where
  "next_day (y, m, d) =
    (if d < days_in_month y m then (y, m, d + 1)
     else if m < 12 then (y, m + 1, 1) else (y + 1, 1, 1))"

section \<open>The year of the era\<close>

definition next_start :: "int \<Rightarrow> int" where
  "next_start yoe = (if yoe = 399 then 146097 else year_start (yoe + 1))"

lemma year_table:
  "list_all (\<lambda>y. yoe_of (year_start y) = y \<and> yoe_of (next_start y - 1) = y
     \<and> next_start y - year_start y = (if leap (y + 1) then 366 else 365)) [0..399]"
  by code_simp

lemma div_diff_le:
  fixes d d' n :: int
  assumes "d \<le> d'" "1 \<le> n"
  shows "d' div n - d div n \<le> d' - d"
proof -
  have "d' \<le> d + (d' - d) * n" using assms mult_left_mono[of 1 n "d' - d"] by simp
  then have "d' div n \<le> (d + (d' - d) * n) div n" using assms(2) by (intro zdiv_mono1) auto
  then show ?thesis using assms(2) by simp
qed

lemma yoe_mono:
  assumes "d \<le> d'"
  shows "yoe_of d \<le> yoe_of d'"
proof -
  let ?e = "d div 36524" and ?e' = "d' div 36524"
  have "?e \<le> ?e'" using assms by (intro zdiv_mono1) auto
  then have "?e' div 4 - ?e div 4 \<le> ?e' - ?e" by (rule div_diff_le) simp
  moreover have "d div 146096 = ?e div 4" "d' div 146096 = ?e' div 4"
    using zdiv_zmult2_eq[of 4 d 36524] zdiv_zmult2_eq[of 4 d' 36524] by simp_all
  moreover have "d' div 1460 - d div 1460 \<le> d' - d" using assms by (rule div_diff_le) simp
  ultimately show ?thesis unfolding yoe_of_def by (intro zdiv_mono1) auto
qed

lemma year_exists:
  assumes "0 \<le> doe" "doe < (if k = 400 then 146097 else year_start (int k))" "k \<le> 400"
  shows "\<exists>y. 0 \<le> y \<and> y < int k \<and> year_start y \<le> doe \<and> doe < next_start y"
  using assms
proof (induction k)
  case 0
  then show ?case by (simp add: year_start_def)
next
  case (Suc k)
  show ?case
  proof (cases "doe < year_start (int k)")
    case True
    then show ?thesis using Suc by force
  next
    case False
    then show ?thesis using Suc.prems by (intro exI[of _ "int k"]) (auto simp: next_start_def add.commute split: if_splits)
  qed
qed

lemma yoe_of_spec:
  assumes "0 \<le> doe" "doe < 146097"
  shows "0 \<le> yoe_of doe" "yoe_of doe \<le> 399" "year_start (yoe_of doe) \<le> doe" "doe < next_start (yoe_of doe)"
    "next_start (yoe_of doe) - year_start (yoe_of doe) = (if leap (yoe_of doe + 1) then 366 else 365)"
proof -
  obtain y where y: "0 \<le> y" "y < 400" "year_start y \<le> doe" "doe < next_start y"
    using year_exists[of doe 400] assms by auto
  have t: "yoe_of (year_start y) = y" "yoe_of (next_start y - 1) = y"
      "next_start y - year_start y = (if leap (y + 1) then 366 else 365)"
    using year_table y(1,2) by (auto simp: list_all_iff)
  have "yoe_of doe = y"
    using yoe_mono[OF y(3)] yoe_mono[of doe "next_start y - 1"] y(4) t by simp
  then show "0 \<le> yoe_of doe" "yoe_of doe \<le> 399" "year_start (yoe_of doe) \<le> doe" "doe < next_start (yoe_of doe)"
    "next_start (yoe_of doe) - year_start (yoe_of doe) = (if leap (yoe_of doe + 1) then 366 else 365)"
    using y t by auto
qed

lemma yoe_unique:
  assumes "0 \<le> y" "y \<le> 399" "year_start y \<le> doe" "doe < next_start y"
  shows "yoe_of doe = y"
proof -
  have "yoe_of (year_start y) = y" "yoe_of (next_start y - 1) = y"
    using year_table assms(1,2) by (auto simp: list_all_iff)
  then show ?thesis using yoe_mono[OF assms(3)] yoe_mono[of doe "next_start y - 1"] assms(4) by simp
qed

section \<open>The day of the year\<close>

definition mlen :: "int \<Rightarrow> int" where
  "mlen m = (if m = 2 then 29 else if m \<in> {4, 6, 9, 11} then 30 else 31)"

lemma month_table:
  "list_all (\<lambda>doy. case (month_day doy, month_day (doy + 1)) of ((m, d), (m', d')) \<Rightarrow>
     1 \<le> m \<and> m \<le> 12 \<and> 1 \<le> d \<and> d \<le> mlen m \<and> (m = 2 \<longrightarrow> d \<le> 28 \<and> (d = 28 \<longrightarrow> doy = 364)) \<and>
     (if m = 2 \<or> d < mlen m then m' = m \<and> d' = d + 1 else d' = 1 \<and> m' = (if m = 12 then 1 else m + 1)))
   [0..364]"
  by code_simp

lemma month_step:
  assumes "0 \<le> doy" "doy \<le> 364" "month_day doy = (m, d)"
  shows "1 \<le> m" "m \<le> 12" "1 \<le> d" "d \<le> mlen m" "m = 2 \<Longrightarrow> d \<le> 28" "m = 2 \<Longrightarrow> d = 28 \<Longrightarrow> doy = 364"
    "month_day (doy + 1) = (if m = 2 \<or> d < mlen m then (m, d + 1) else (if m = 12 then 1 else m + 1, 1))"
proof -
  have "doy \<in> set [0..364]" using assms by simp
  then have t: "case (month_day doy, month_day (doy + 1)) of ((m, d), (m', d')) \<Rightarrow>
     1 \<le> m \<and> m \<le> 12 \<and> 1 \<le> d \<and> d \<le> mlen m \<and> (m = 2 \<longrightarrow> d \<le> 28 \<and> (d = 28 \<longrightarrow> doy = 364)) \<and>
     (if m = 2 \<or> d < mlen m then m' = m \<and> d' = d + 1 else d' = 1 \<and> m' = (if m = 12 then 1 else m + 1))"
    using bspec[OF month_table[unfolded list_all_iff]] by simp
  then show "1 \<le> m" "m \<le> 12" "1 \<le> d" "d \<le> mlen m" "m = 2 \<Longrightarrow> d \<le> 28" "m = 2 \<Longrightarrow> d = 28 \<Longrightarrow> doy = 364"
    using assms(3) by (simp_all split: prod.splits)
  show "month_day (doy + 1) = (if m = 2 \<or> d < mlen m then (m, d + 1) else (if m = 12 then 1 else m + 1, 1))"
    using t assms(3) by (auto split: prod.splits if_splits)
qed

lemma month_ends: "month_day 0 = (3, 1)" "month_day 364 = (2, 28)" "month_day 365 = (2, 29)"
  by code_simp+

section \<open>One day on\<close>

text \<open>\<open>date_of era doe\<close> is the date of day \<open>doe\<close> of an era.\<close>

definition date_of :: "int \<Rightarrow> int \<Rightarrow> int \<times> int \<times> int" where
  "date_of era doe =
    (let yoe = yoe_of doe; (m, d) = month_day (doe - year_start yoe)
     in (if m \<le> 2 then yoe + era * 400 + 1 else yoe + era * 400, m, d))"

lemma trunc_div_floor:
  fixes z n :: int
  assumes "0 < n"
  shows "trunc_div (if 0 \<le> z then z else z - (n - 1)) n = z div n"
proof (cases "0 \<le> z")
  case False
  have "n - 1 - z = n * (- (z div n)) + (n - 1 - z mod n)" by (simp add: algebra_simps)
  then have "(n - 1 - z) div n = - (z div n)"
    by (rule int_div_pos_eq) (use assms pos_mod_sign[OF assms, of z] pos_mod_bound[OF assms, of z] in linarith)+
  then show ?thesis using False assms by (simp add: trunc_div_def algebra_simps)
qed (simp add: trunc_div_def)

lemma civil_from_days_eq:
  "civil_from_days z = date_of ((z + 719468) div 146097) ((z + 719468) mod 146097)"
proof -
  have era: "trunc_div (if 0 \<le> z + 719468 then z + 719468 else z + 719468 - 146096) 146097 = (z + 719468) div 146097"
  proof -
    have "(146097 :: int) - 1 = 146096" by simp
    from trunc_div_floor[of 146097 "z + 719468", unfolded this] show ?thesis by (simp only: zero_less_numeral)
  qed
  have doe: "z + 719468 - (z + 719468) div 146097 * 146097 = (z + 719468) mod 146097"
    by (rule minus_div_mult_eq_mod)
  show ?thesis unfolding civil_from_days_def Let_def era doe date_of_def by (rule refl)
qed

lemma leap_era: "leap (y + era * 400) = leap y"
proof -
  have "(y + era * 400) mod 4 = y mod 4" "(y + era * 400) mod 100 = y mod 100"
    using mod_mult_self1[of y "era * 100" 4] mod_mult_self1[of y "era * 4" 100] by (simp_all add: mult.assoc)
  then show ?thesis by (simp add: leap_def)
qed

lemma days_in_month_mlen: "m \<noteq> 2 \<Longrightarrow> days_in_month y m = mlen m"
  by (simp add: days_in_month_def mlen_def)

text \<open>Inside a year of the era, the next day of the era is the next day of the calendar.\<close>

lemma date_of_inside:
  assumes "0 \<le> doe" "doe + 1 < next_start (yoe_of doe)" "doe < 146097"
  shows "date_of era (doe + 1) = next_day (date_of era doe)"
proof -
  define y doy where "y = yoe_of doe" and "doy = doe - year_start y"
  note spec = yoe_of_spec[OF assms(1,3), folded y_def]
  have y1: "yoe_of (doe + 1) = y" using spec assms(2) by (intro yoe_unique) (auto simp: y_def)
  have doy: "0 \<le> doy" "doy \<le> 364" "doy = 364 \<Longrightarrow> leap (y + 1)"
    using spec assms(2) by (auto simp: doy_def y_def split: if_splits)
  obtain m d where md: "month_day doy = (m, d)" by fastforce
  note st = month_step[OF doy(1,2) md]
  have doy1: "doe + 1 - year_start y = doy + 1" by (simp add: doy_def)
  have next_date: "date_of era (doe + 1) =
      (case month_day (doy + 1) of (m', d') \<Rightarrow> (if m' \<le> 2 then y + era * 400 + 1 else y + era * 400, m', d'))"
    by (simp only: date_of_def y1 Let_def doy1)
  have this_date: "date_of era doe = (if m \<le> 2 then y + era * 400 + 1 else y + era * 400, m, d)"
    by (simp add: date_of_def Let_def y_def[symmetric] doy_def[symmetric] md)
  show ?thesis
  proof (cases "m = 2")
    case True
    have "d < 28 \<or> (d = 28 \<and> leap (y + 1))" using st(5,6) True doy(3) by fastforce
    then have "d < days_in_month (y + era * 400 + 1) 2"
      using leap_era[of "y + 1" era] by (auto simp: days_in_month_def algebra_simps)
    then show ?thesis using True st(7) by (simp add: next_date this_date)
  next
    case False
    then show ?thesis using st by (auto simp: next_date this_date days_in_month_mlen)
  qed
qed

text \<open>At the end of a year of the era, 28 or 29 February is followed by 1 March.\<close>

lemma year_end:
  assumes "0 \<le> doe" "doe < 146097" "doe + 1 = next_start (yoe_of doe)"
  shows "next_day (date_of era doe) = (yoe_of doe + era * 400 + 1, 3, 1)"
proof -
  define y where "y = yoe_of doe"
  note spec = yoe_of_spec[OF assms(1,2), folded y_def]
  have "doe - year_start y = (if leap (y + 1) then 365 else 364)"
    using spec(5) assms(3) by (simp add: y_def split: if_splits)
  then have "date_of era doe = (y + era * 400 + 1, 2, if leap (y + 1) then 29 else 28)"
    by (simp add: date_of_def Let_def y_def[symmetric] month_ends)
  then show ?thesis
    using leap_era[of "y + 1" era] by (simp add: days_in_month_def y_def algebra_simps)
qed

lemma date_of_year_start: "0 \<le> y \<Longrightarrow> y \<le> 399 \<Longrightarrow> date_of era (year_start y) = (y + era * 400, 3, 1)"
proof -
  assume y: "0 \<le> y" "y \<le> 399"
  have "yoe_of (year_start y) = y" using year_table y by (auto simp: list_all_iff)
  then show ?thesis by (simp add: date_of_def month_ends)
qed

lemma date_of_next:
  assumes "0 \<le> doe" "doe < 146096"
  shows "date_of era (doe + 1) = next_day (date_of era doe)"
proof (cases "doe + 1 < next_start (yoe_of doe)")
  case True
  then show ?thesis using date_of_inside assms by simp
next
  case False
  let ?y = "yoe_of doe"
  have spec: "0 \<le> ?y" "?y \<le> 399" "doe < next_start ?y" using yoe_of_spec[of doe] assms by auto
  then have e: "doe + 1 = next_start ?y" using False by simp
  then have "?y \<noteq> 399" using assms by (auto simp: next_start_def)
  then have "doe + 1 = year_start (?y + 1)" using e by (simp add: next_start_def)
  then show ?thesis
    using year_end[of doe era] date_of_year_start[of "?y + 1" era] e assms spec \<open>?y \<noteq> 399\<close> by simp
qed

lemma date_of_era_end: "next_day (date_of era 146096) = date_of (era + 1) 0"
proof -
  have y: "yoe_of 146096 = 399" by code_simp
  then have "next_day (date_of era 146096) = (399 + era * 400 + 1, 3, 1)"
    using year_end[of 146096 era] by (simp add: next_start_def)
  then show ?thesis using date_of_year_start[of 0 "era + 1"] by (simp add: year_start_def algebra_simps)
qed

lemma civil_step: "civil_from_days (z + 1) = next_day (civil_from_days z)"
proof -
  let ?n = "z + 719468"
  define era doe where "era = ?n div 146097" and "doe = ?n mod 146097"
  have n: "?n = 146097 * era + doe" "0 \<le> doe" "doe < 146097" by (simp_all add: era_def doe_def)
  show ?thesis
  proof (cases "doe = 146096")
    case True
    then have "?n + 1 = 146097 * (era + 1) + 0" using n(1) by simp
    then have "(?n + 1) div 146097 = era + 1" "(?n + 1) mod 146097 = 0"
      using int_div_pos_eq[of "?n + 1" 146097 "era + 1" 0] int_mod_pos_eq[of "?n + 1" 146097 "era + 1" 0]
      by (simp_all only: order_refl zero_less_numeral)
    then show ?thesis using True date_of_era_end[of era]
      by (simp add: civil_from_days_eq era_def[symmetric] doe_def[symmetric] algebra_simps)
  next
    case False
    then have "doe + 1 < 146097" using n(3) by simp
    moreover have "?n + 1 = 146097 * era + (doe + 1)" using n(1) by simp
    ultimately have "(?n + 1) div 146097 = era" "(?n + 1) mod 146097 = doe + 1"
      using n(2) int_div_pos_eq[of "?n + 1" 146097 era "doe + 1"] int_mod_pos_eq[of "?n + 1" 146097 era "doe + 1"]
      by auto
    then show ?thesis using False n date_of_next[of doe era]
      by (simp add: civil_from_days_eq era_def[symmetric] doe_def[symmetric] algebra_simps)
  qed
qed

lemma civil_from_days_range_lemma:
  fixes z :: int
  defines "doe \<equiv> (z + 719468) mod 146097"
  shows "case civil_from_days z of (y, m, d) \<Rightarrow>
    0 \<le> yoe_of doe \<and> yoe_of doe \<le> 399 \<and> 0 \<le> doe - year_start (yoe_of doe) \<and> doe - year_start (yoe_of doe) \<le> 365
    \<and> 1 \<le> m \<and> m \<le> 12 \<and> 1 \<le> d \<and> d \<le> days_in_month y m \<and> d \<le> 31"
proof -
  define era where "era = (z + 719468) div 146097"
  have doe: "0 \<le> doe" "doe < 146097" by (simp_all add: doe_def)
  define y doy where "y = yoe_of doe" and "doy = doe - year_start y"
  note spec = yoe_of_spec[OF doe, folded y_def]
  have doy: "0 \<le> doy" "doy \<le> 365" "doy = 365 \<Longrightarrow> leap (y + 1)"
    using spec by (auto simp: doy_def split: if_splits)
  obtain m d where md: "month_day doy = (m, d)" by fastforce
  have date: "civil_from_days z = (if m \<le> 2 then y + era * 400 + 1 else y + era * 400, m, d)"
    by (simp add: civil_from_days_eq date_of_def Let_def era_def[symmetric] doe_def[symmetric]
        y_def[symmetric] doy_def[symmetric] md)
  have "1 \<le> m \<and> m \<le> 12 \<and> 1 \<le> d \<and> (m \<noteq> 2 \<longrightarrow> d \<le> mlen m) \<and> (m = 2 \<longrightarrow> d \<le> (if leap (y + 1) then 29 else 28))"
  proof (cases "doy = 365")
    case True
    then show ?thesis using md month_ends(3) doy(3) by simp
  next
    case False
    then have "doy \<le> 364" using doy(2) by simp
    from month_step[OF doy(1) this md] show ?thesis by fastforce
  qed
  moreover from this have "d \<le> 31" by (cases "m = 2") (auto simp: mlen_def split: if_splits)
  ultimately show ?thesis
    using doy spec(1,2) leap_era[of "y + 1" era]
    by (simp add: date days_in_month_def mlen_def y_def[symmetric] doy_def[symmetric] algebra_simps)
qed

section \<open>Properties\<close>

text \<open>C26.  The calendar is the Gregorian one: day 0 is 1 January 1970, and the day after any
  day, before or after the epoch, is the next day by the calendar's own rule.  So the
  conversion is right for every day number.\<close>

theorem civil_from_days_is_gregorian:
  "civil_from_days 0 = (1970, 1, 1) \<and> civil_from_days (z + 1) = next_day (civil_from_days z)"
proof
  show "civil_from_days 0 = (1970, 1, 1)" by code_simp
qed (rule civil_step)

text \<open>The intermediate values stay in the ranges the source states, so its casts to
  unsigned types are exact: the day of the era, the year of the era, the day of the year,
  the month and the day of the month.\<close>

theorem civil_from_days_ranges:
  fixes z :: int
  defines "doe \<equiv> (z + 719468) mod 146097"
  shows "case civil_from_days z of (y, m, d) \<Rightarrow>
    0 \<le> yoe_of doe \<and> yoe_of doe \<le> 399 \<and> 0 \<le> doe - year_start (yoe_of doe) \<and> doe - year_start (yoe_of doe) \<le> 365
    \<and> 1 \<le> m \<and> m \<le> 12 \<and> 1 \<le> d \<and> d \<le> days_in_month y m"
  unfolding doe_def using civil_from_days_range_lemma[of z] by (auto split: prod.splits)

end
