(* ===== verification/Coreutils_Ls.thy ===== *)
theory Coreutils_Ls
  imports Mock_Fs Utf8 Calendar "HOL-Library.Multiset"
begin

text \<open>
  \<open>ls\<close> over the file-system traits, \<open>coreutils/src/ls.rs\<close>: the sorted listing, the
  long format and the calendar.  The directory operations are arguments; times are
  nanoseconds relative to the Unix epoch, and the calendar's machine integers are
  \<open>int\<close> because the intermediate values stay in the ranges proved below.
\<close>

section \<open>Listing\<close>

definition ls :: "DirEntry list run \<Rightarrow> DirEntry list run" where
  "ls read_dir = run_bind read_dir (\<lambda>entries. Ret (sort_key de_name entries))"

definition render :: "DirEntry \<Rightarrow> string" where
  "render entry =
    (case de_type entry of
       TDir \<Rightarrow> to_string_lossy (de_name entry) @ ''/''
     | _ \<Rightarrow> to_string_lossy (de_name entry))"

record LongEntry =
  le_name :: string
  le_type :: FileType
  le_metadata :: Metadata
  le_unix_mode :: "UnixMode option"
  le_symlink_target :: "string option"

definition long_entry ::
    "(string \<Rightarrow> Metadata run) \<Rightarrow> (string \<Rightarrow> UnixMode option run) \<Rightarrow> (string \<Rightarrow> string run)
     \<Rightarrow> DirEntry \<Rightarrow> LongEntry run" where
  "long_entry metadata unix_mode rd_link entry =
    run_bind (metadata (de_name entry)) (\<lambda>md.
    run_bind (unix_mode (de_name entry)) (\<lambda>um.
    run_bind (if de_type entry = TSymlink
              then run_bind (rd_link (de_name entry)) (\<lambda>t. Ret (Some t)) else Ret None) (\<lambda>target.
    Ret \<lparr>le_name = de_name entry, le_type = de_type entry, le_metadata = md, le_unix_mode = um,
      le_symlink_target = target\<rparr>)))"

fun collect :: "('a \<Rightarrow> 'b run) \<Rightarrow> 'a list \<Rightarrow> 'b list run" where
  "collect f [] = Ret []"
| "collect f (x # xs) = run_bind (f x) (\<lambda>y. run_bind (collect f xs) (\<lambda>ys. Ret (y # ys)))"

definition ls_long ::
    "DirEntry list run \<Rightarrow> (string \<Rightarrow> Metadata run) \<Rightarrow> (string \<Rightarrow> UnixMode option run)
     \<Rightarrow> (string \<Rightarrow> string run) \<Rightarrow> LongEntry list run" where
  "ls_long read_dir metadata unix_mode rd_link =
    run_bind read_dir (\<lambda>entries.
    collect (long_entry metadata unix_mode rd_link) (sort_key de_name entries))"

definition triplet :: "u16 \<Rightarrow> u16 \<Rightarrow> u16 \<Rightarrow> u16 \<Rightarrow> bool \<Rightarrow> char \<Rightarrow> char \<Rightarrow> string" where
  "triplet bits read_bit write_bit exec_bit special lower upper =
    [if bits AND read_bit \<noteq> 0 then CHR ''r'' else CHR ''-'',
     if bits AND write_bit \<noteq> 0 then CHR ''w'' else CHR ''-'',
     (let exec = bits AND exec_bit \<noteq> 0 in
      if special then (if exec then lower else upper) else (if exec then CHR ''x'' else CHR ''-''))]"

definition type_char :: "FileType \<Rightarrow> char" where
  "type_char t = (case t of TFile \<Rightarrow> CHR ''-'' | TDir \<Rightarrow> CHR ''d'' | TSymlink \<Rightarrow> CHR ''l'' | TOther \<Rightarrow> CHR ''?'')"

definition type_perm_string :: "FileType \<Rightarrow> UnixMode option \<Rightarrow> string" where
  "type_perm_string t unix_mode =
    type_char t #
    (case unix_mode of
       None \<Rightarrow> ''---------''
     | Some mode \<Rightarrow>
         let bits = um_permissions mode in
         triplet bits 0x100 0x80 0x40 (um_setuid mode) (CHR ''s'') (CHR ''S'')
         @ triplet bits 0x20 0x10 0x8 (um_setgid mode) (CHR ''s'') (CHR ''S'')
         @ triplet bits 0x4 0x2 0x1 (um_sticky mode) (CHR ''t'') (CHR ''T''))"

section \<open>The calendar\<close>

definition MONTH_NAMES :: "string list" where
  "MONTH_NAMES = [''Jan'', ''Feb'', ''Mar'', ''Apr'', ''May'', ''Jun'', ''Jul'', ''Aug'', ''Sep'', ''Oct'', ''Nov'', ''Dec'']"

definition unix_seconds :: "int \<Rightarrow> int" where
  "unix_seconds t = (if 0 \<le> t then t div 1000000000 else - ((- t) div 1000000000))"

definition ymdhm_from_unix_secs :: "int \<Rightarrow> int \<times> int \<times> int \<times> int \<times> int" where
  "ymdhm_from_unix_secs secs =
    (let (y, m, d) = civil_from_days (secs div 86400);
         secs_of_day = secs mod 86400
     in (y, m, d, secs_of_day div 3600, (secs_of_day mod 3600) div 60))"

definition pad_left :: "char \<Rightarrow> nat \<Rightarrow> string \<Rightarrow> string" where
  "pad_left c w s = replicate (w - char_count s) c @ s"

definition pad_right :: "nat \<Rightarrow> string \<Rightarrow> string" where
  "pad_right w s = s @ replicate (w - char_count s) (CHR '' '')"

definition show_int :: "int \<Rightarrow> string" where
  "show_int n = (if n < 0 then ''-'' @ dec_digits (nat (- n)) else dec_digits (nat n))"

definition format_date :: "int \<Rightarrow> int \<Rightarrow> string run" where
  "format_date modified now =
    (let modified_secs = unix_seconds modified; now_secs = unix_seconds now;
         recent = (now_secs \<ge> modified_secs \<and> now_secs - modified_secs < 6 * 30 * 24 * 60 * 60);
         (year, month, day, hour, minute) = ymdhm_from_unix_secs modified_secs
     in if 1 \<le> month \<and> month \<le> 12 then
          let mon = MONTH_NAMES ! nat (month - 1) in
          Ret (if recent
               then mon @ '' '' @ pad_left (CHR '' '') 2 (show_int day) @ '' ''
                 @ pad_left (CHR ''0'') 2 (show_int hour) @ '':'' @ pad_left (CHR ''0'') 2 (show_int minute)
               else mon @ '' '' @ pad_left (CHR '' '') 2 (show_int day) @ ''  '' @ show_int year)
        else Panic)"

record Rendered =
  rd_type_perm :: string
  rd_nlink :: string
  rd_owner :: string
  rd_group :: string
  rd_size :: string
  rd_date :: string
  rd_name :: string

definition render_long :: "int \<Rightarrow> (u32 \<Rightarrow> string) \<Rightarrow> (u32 \<Rightarrow> string) \<Rightarrow> LongEntry \<Rightarrow> Rendered run" where
  "render_long now resolve_user resolve_group e =
    run_bind (format_date (md_modified (le_metadata e)) now) (\<lambda>date.
    Ret \<lparr>rd_type_perm = type_perm_string (le_type e) (le_unix_mode e),
      rd_nlink = dec_digits (unat (md_nlink (le_metadata e))),
      rd_owner = (case le_unix_mode e of None \<Rightarrow> ''-'' | Some m \<Rightarrow> resolve_user (um_uid m)),
      rd_group = (case le_unix_mode e of None \<Rightarrow> ''-'' | Some m \<Rightarrow> resolve_group (um_gid m)),
      rd_size = dec_digits (unat (md_len (le_metadata e))),
      rd_date = date,
      rd_name = (case le_symlink_target e of
          Some target \<Rightarrow> to_string_lossy (le_name e) @ '' -> '' @ to_string_lossy target
        | None \<Rightarrow> to_string_lossy (le_name e))\<rparr>)"

definition max_width :: "(Rendered \<Rightarrow> string) \<Rightarrow> Rendered list \<Rightarrow> nat" where
  "max_width f rs = foldr max (map (\<lambda>r. length (f r)) rs) 0"

definition format_line :: "nat \<Rightarrow> nat \<Rightarrow> nat \<Rightarrow> nat \<Rightarrow> Rendered \<Rightarrow> string" where
  "format_line nlink_w owner_w group_w size_w r =
    rd_type_perm r @ '' '' @ pad_left (CHR '' '') nlink_w (rd_nlink r) @ '' ''
    @ pad_right owner_w (rd_owner r) @ '' '' @ pad_right group_w (rd_group r) @ '' ''
    @ pad_left (CHR '' '') size_w (rd_size r) @ '' '' @ rd_date r @ '' '' @ rd_name r"

definition format_long ::
    "LongEntry list \<Rightarrow> int \<Rightarrow> (u32 \<Rightarrow> string) \<Rightarrow> (u32 \<Rightarrow> string) \<Rightarrow> string list run" where
  "format_long entries now resolve_user resolve_group =
    run_bind (collect (render_long now resolve_user resolve_group) entries) (\<lambda>rendered.
    Ret (map (format_line (max_width rd_nlink rendered) (max_width rd_owner rendered)
      (max_width rd_group rendered) (max_width rd_size rendered)) rendered))"

section \<open>Widths\<close>

lemma digit_not_cont:
  fixes n :: nat
  assumes "n < 10"
  shows "\<not> cont_byte (byte_of (char_of (48 + n)))"
proof -
  have "(of_char (char_of (48 + n) :: char) :: nat) = 48 + n" using assms by simp
  then show ?thesis using assms by (simp add: cont_byte_def word_le_nat_alt unat_byte_of)
qed

lemma char_count_append: "char_count (s @ t) = char_count s + char_count t"
  by (simp add: char_count_def)

lemma char_count_dec_digits: "char_count (dec_digits n) = length (dec_digits n)"
proof (induction n rule: dec_digits.induct)
  case (1 n)
  have one: "char_count [char_of (48 + k)] = 1" if "k < 10" for k :: nat
    using digit_not_cont[OF that] by (simp add: char_count_def as_bytes_def)
  show ?case
  proof (cases "n < 10")
    case True
    then show ?thesis using one[OF True] by (simp add: dec_digits.simps)
  next
    case False
    then show ?thesis
      using 1 one[of "n mod 10"] by (subst (1 2) dec_digits.simps) (simp add: char_count_append)
  qed
qed

lemma length_dec_digits_small: "n < 100 \<Longrightarrow> length (dec_digits n) = (if n < 10 then 1 else 2)"
proof -
  assume "n < 100"
  then have "n div 10 < 10" by linarith
  then show ?thesis by (simp add: dec_digits.simps[of n] dec_digits.simps[of "n div 10"])
qed

lemma length_dec_digits_4:
  assumes "1000 \<le> n" "n \<le> 9999"
  shows "length (dec_digits n) = 4"
proof -
  have "n div 10 div 10 < 100" "\<not> n div 10 div 10 < 10" using assms by linarith+
  then have "length (dec_digits (n div 10 div 10)) = 2" by (simp add: length_dec_digits_small)
  then show ?thesis
    using assms by (subst dec_digits.simps, subst dec_digits.simps) simp
qed

lemma length_pad_left_2:
  assumes "0 \<le> n" "n < 100"
  shows "length (pad_left c 2 (show_int n)) = 2"
  using assms length_dec_digits_small[of "nat n"]
  by (auto simp: pad_left_def show_int_def char_count_dec_digits nat_less_iff)

section \<open>Properties\<close>

text \<open>\<open>ls\<close> lists every entry exactly once, in name order, and passes a failure of the
  directory on unchanged.\<close>

theorem ls_sorted_permutation:
  "case read_dir of
     Ret entries \<Rightarrow> (\<exists>out. ls read_dir = Ret out \<and> mset out = mset entries \<and> sorted (map de_name out))
   | Fail e \<Rightarrow> ls read_dir = Fail e
   | Panic \<Rightarrow> ls read_dir = Panic"
  by (cases read_dir) (simp_all add: ls_def)

text \<open>The date column never fails (the month index is always in range) and has width 12
  for a recent file and for every year of four digits; an older file of another year
  breaks the column.\<close>

theorem format_date_width:
  "\<exists>s. format_date modified now = Ret s
    \<and> (length s = 12
       \<or> (let (year, _, _, _, _) = ymdhm_from_unix_secs (unix_seconds modified) in \<not> (1000 \<le> year \<and> year \<le> 9999))
         \<and> length s = 8 + length (show_int (fst (ymdhm_from_unix_secs (unix_seconds modified)))))"
proof -
  define secs where "secs = unix_seconds modified"
  obtain y m d where c: "civil_from_days (secs div 86400) = (y, m, d)" by (metis prod_cases3)
  have r: "1 \<le> m" "m \<le> 12" "1 \<le> d" "d \<le> 31"
    using civil_from_days_range_lemma[of "secs div 86400"] by (auto simp: c)
  have sod: "0 \<le> secs mod 86400" "secs mod 86400 < 86400" by simp_all
  then have h1: "0 \<le> secs mod 86400 div 3600" "secs mod 86400 div 3600 < 100" by linarith+
  have "0 \<le> secs mod 86400 mod 3600" "secs mod 86400 mod 3600 < 3600" by simp_all
  then have h2: "0 \<le> secs mod 86400 mod 3600 div 60" "secs mod 86400 mod 3600 div 60 < 100" by linarith+
  have mon: "length (MONTH_NAMES ! nat (m - 1)) = 3"
  proof -
    have "list_all (\<lambda>s. length s = 3) MONTH_NAMES" "nat (m - 1) < length MONTH_NAMES"
      using r by (simp_all add: MONTH_NAMES_def)
    then show ?thesis by (simp add: list_all_length)
  qed
  have year: "length (show_int y) = 4" if "1000 \<le> y" "y \<le> 9999"
    using that length_dec_digits_4[of "nat y"] by (simp add: show_int_def)
  define recent where "recent = (unix_seconds now \<ge> secs \<and> unix_seconds now - secs < 6 * 30 * 24 * 60 * 60)"
  let ?mon = "MONTH_NAMES ! nat (m - 1)" and ?day = "pad_left (CHR '' '') 2 (show_int d)"
  have f: "format_date modified now = Ret (if recent
      then ?mon @ '' '' @ ?day @ '' '' @ pad_left (CHR ''0'') 2 (show_int (secs mod 86400 div 3600)) @ '':''
        @ pad_left (CHR ''0'') 2 (show_int (secs mod 86400 mod 3600 div 60))
      else ?mon @ '' '' @ ?day @ ''  '' @ show_int y)"
    using r(1,2) by (simp add: format_date_def Let_def ymdhm_from_unix_secs_def secs_def[symmetric] c recent_def)
  have y: "ymdhm_from_unix_secs secs = (y, m, d, secs mod 86400 div 3600, secs mod 86400 mod 3600 div 60)"
    by (simp add: ymdhm_from_unix_secs_def c Let_def)
  have "length ?day = 2" using r by (intro length_pad_left_2) auto
  then show ?thesis
    unfolding f secs_def[symmetric] y
    using mon length_pad_left_2[OF h1] length_pad_left_2[OF h2] year by (cases recent) auto
qed

end
