(* ===== verification/Mock_Security.thy ===== *)
theory Mock_Security
  imports Platform_Security
begin

text \<open>
  The security capabilities of the in-memory backend (\<open>platform-mock/src/security.rs\<close>): a
  deterministic \<open>xorshift64*\<close> generator, a credential store that keeps what it is given, a
  sandbox that refuses to claim confinement, and a trust store that holds the anchors of
  the test.  The credential store interprets the contract \<open>credential_store\<close>.
\<close>

section \<open>Random bytes\<close>

definition csprng_default :: u64 where
  "csprng_default = 0x9E3779B97F4A7C15"

definition next_u64 :: "u64 \<Rightarrow> u64 \<times> u64" where
  "next_u64 state =
    (let x = state XOR push_bit 13 state;
         x = x XOR drop_bit 7 x;
         x = x XOR push_bit 17 x
     in (x * 0x2545F4914F6CDD1D, x))"

text \<open>\<open>buf.chunks_mut(8)\<close>: full chunks of eight bytes and a shorter last one.  Only the
  length of the caller's buffer matters.\<close>

function mock_fill_random :: "u64 \<Rightarrow> nat \<Rightarrow> bytes \<times> u64" where
  "mock_fill_random state n =
    (if n = 0 then ([], state)
     else let (v, state1) = next_u64 state;
              (rest, state2) = mock_fill_random state1 (n - min 8 n)
          in (take (min 8 n) (to_le_bytes 8 v) @ rest, state2))"
  by pat_completeness auto
termination by (relation "measure snd") auto

declare mock_fill_random.simps [simp del]

section \<open>Credentials, sandbox and trust anchors\<close>

type_synonym MockCredentialStore = "string \<times> string \<Rightarrow> bytes option"

definition mock_available :: "MockCredentialStore \<Rightarrow> CredentialStoreStatus" where
  "mock_available store = Available"

definition mock_get :: "MockCredentialStore \<Rightarrow> string \<Rightarrow> string \<Rightarrow> bytes option result" where
  "mock_get store service account = Ok (store (service, account))"

definition mock_set ::
  "MockCredentialStore \<Rightarrow> string \<Rightarrow> string \<Rightarrow> bytes \<Rightarrow> unit result \<times> MockCredentialStore" where
  "mock_set store service account secret = (Ok (), store((service, account) \<mapsto> secret))"

definition mock_confine_filesystem :: "string list \<Rightarrow> string list \<Rightarrow> SandboxStatus result" where
  "mock_confine_filesystem readable_roots writable_roots = Ok SandboxUnsupported"

definition mock_block_inet_sockets :: "SandboxStatus result" where
  "mock_block_inet_sockets = Ok SandboxUnsupported"

definition anchors_default :: "bytes list" where
  "anchors_default = [[0x30, 0x82, 0x01, 0x0a]]"

definition with_anchors :: "bytes list \<Rightarrow> bytes list" where
  "with_anchors anchors = anchors"

definition anchors_empty :: "bytes list" where
  "anchors_empty = with_anchors []"

definition set_anchors :: "bytes list \<Rightarrow> bytes list \<Rightarrow> bytes list" where
  "set_anchors old anchors = anchors"

definition mock_load_anchors :: "bytes list \<Rightarrow> bytes list result" where
  "mock_load_anchors anchors =
    (if anchors = [] then Err (new_error NotFound NoCode ''mock trust store is empty'')
     else Ok anchors)"

interpretation mock_store: credential_store mock_get mock_set
  by unfold_locales (auto simp: mock_get_def mock_set_def)

section \<open>The generator never degenerates\<close>

text \<open>A shifted exclusive-or is injective at zero: no state but zero is mapped to zero.\<close>

lemma xor_eq_0_eq: "x = y" if "x XOR y = 0" for x y :: u64
proof (rule bit_eqI)
  fix n
  have "bit (x XOR y) n = bit (0 :: u64) n" using that by simp
  then show "bit x n = bit y n" by (simp add: bit_xor_iff)
qed

lemma xor_push_bit_eq_0:
  fixes x :: u64
  assumes "0 < k" "x XOR push_bit (k) x = 0"
  shows "x = 0"
proof (rule bit_eqI)
  fix n
  have eq: "x = push_bit (k) x"
    using assms(2) by (rule xor_eq_0_eq)
  show "bit x n = bit (0 :: u64) n"
  proof (induction n rule: less_induct)
    case (less n)
    have "bit x n = (k \<le> n \<and> n < 64 \<and> bit x (n - k))"
      by (subst eq) (auto simp: bit_push_bit_iff)
    then show ?case using less[of "n - k"] assms(1) by auto
  qed
qed

lemma xor_drop_bit_eq_0:
  fixes x :: u64
  assumes "0 < k" "x XOR drop_bit (k) x = 0"
  shows "x = 0"
proof (rule bit_eqI)
  fix n
  have eq: "x = drop_bit (k) x"
    using assms(2) by (rule xor_eq_0_eq)
  show "bit x n = bit (0 :: u64) n"
  proof (induction "64 - n" arbitrary: n rule: less_induct)
    case less
    have shift: "bit x n = bit x (k + n)" by (subst eq) (simp add: bit_drop_bit_eq)
    show ?case
    proof (cases "n < 64")
      case True
      then show ?thesis using shift less[of "k + n"] assms(1) by simp
    next
      case False
      then show ?thesis using bit_imp_le_length[of x n] by auto
    qed
  qed
qed

lemma next_u64_not_0:
  assumes "state \<noteq> 0"
  shows "fst (next_u64 state) \<noteq> 0" "snd (next_u64 state) \<noteq> 0"
proof -
  define x where "x = state XOR push_bit 13 state"
  define y where "y = x XOR drop_bit 7 x"
  define z where "z = y XOR push_bit 17 y"
  have z: "z \<noteq> 0"
    using assms xor_push_bit_eq_0[of 13 state] xor_drop_bit_eq_0[of 7 x] xor_push_bit_eq_0[of 17 y]
    unfolding x_def y_def z_def by fastforce
  have step: "next_u64 state = (z * 0x2545F4914F6CDD1D, z)"
    by (simp add: next_u64_def x_def y_def z_def Let_def)
  show "snd (next_u64 state) \<noteq> 0" using z step by simp
  have inv: "(0x2545F4914F6CDD1D :: u64) * 0x59071D96D81ECD35 = 1"
    by simp
  show "fst (next_u64 state) \<noteq> 0"
  proof
    assume "fst (next_u64 state) = 0"
    then have "z * 0x2545F4914F6CDD1D * 0x59071D96D81ECD35 = 0" using step by simp
    then have "z * ((0x2545F4914F6CDD1D :: u64) * 0x59071D96D81ECD35) = 0"
      by (simp only: mult.assoc)
    then show False using z by (simp only: inv) simp
  qed
qed


lemma mock_fill_random_step:
  "0 < n \<Longrightarrow> mock_fill_random state n =
    (take (min 8 n) (to_le_bytes 8 (fst (next_u64 state))) @
       fst (mock_fill_random (snd (next_u64 state)) (n - min 8 n)),
     snd (mock_fill_random (snd (next_u64 state)) (n - min 8 n)))"
  by (subst mock_fill_random.simps) (simp add: split_def Let_def)

lemma mock_fill_random_0 [simp]: "mock_fill_random state 0 = ([], state)"
  by (simp add: mock_fill_random.simps)

lemma length_mock_fill_random [simp]: "length (fst (mock_fill_random state n)) = n"
proof (induction n arbitrary: state rule: less_induct)
  case (less n)
  show ?case
  proof (cases "n = 0")
    case True
    then show ?thesis by simp
  next
    case False
    then show ?thesis
      using less[of "n - min 8 n" "snd (next_u64 state)"] by (simp add: mock_fill_random_step)
  qed
qed

lemma to_le_bytes_8_zero: "to_le_bytes 8 (v :: u64) = replicate 8 0 \<Longrightarrow> v = 0"
  using from_to_le_bytes_8[of v] by (simp add: from_le_bytes_def numeral_eq_Suc)

text \<open>A caller that never looks at its buffer cannot pass by accident: from a state that is
  not zero the buffer is filled to its length, no full chunk of eight bytes is all zero, and
  the state is never zero again.\<close>

lemma mock_fill_random_state_not_0:
  "state \<noteq> 0 \<Longrightarrow> snd (mock_fill_random state n) \<noteq> 0"
proof (induction n arbitrary: state rule: less_induct)
  case (less n)
  then show ?case
    using less.IH[OF _ next_u64_not_0(2)[OF less.prems], of "n - min 8 n"]
    by (cases "n = 0") (simp_all add: mock_fill_random_step)
qed

lemma mock_fill_random_chunk_not_0:
  assumes "state \<noteq> 0" "8 * i + 8 \<le> n"
  shows "take 8 (drop (8 * i) (fst (mock_fill_random state n))) \<noteq> replicate 8 0"
  using assms
proof (induction i arbitrary: state n)
  case 0
  then show ?case
    using to_le_bytes_8_zero next_u64_not_0(1)[OF 0(1)] by (auto simp: mock_fill_random_step)
next
  case (Suc i)
  then show ?case
    using Suc.IH[OF next_u64_not_0(2)[OF Suc.prems(1)], of "n - 8"]
    by (simp add: mock_fill_random_step)
qed

lemma csprng_default_not_0: "csprng_default \<noteq> 0"
  by (simp add: csprng_default_def)

end
