(* ===== verification/Linux_Security.thy ===== *)
theory Linux_Security
  imports Platform_Security "HOL-Library.Multiset"
begin

text \<open>
  The Linux security backend (\<open>platform-linux/src/sys/security.rs\<close>): random bytes from
  \<open>getrandom\<close>, file-system confinement with Landlock, and the seccomp program that denies
  internet sockets.  The kernel is a parameter \<open>kern\<close>: it answers each system call, given
  the calls made and answered before, with an error number on the left or a result on the
  right.  The state threaded through the operations is that history.  The constants are
  those of the Linux headers for x86-64.
\<close>

section \<open>System calls\<close>

abbreviation EINTR :: i32 where "EINTR \<equiv> 4"
abbreviation ENOSYS :: i32 where "ENOSYS \<equiv> 38"
abbreviation EOPNOTSUPP :: i32 where "EOPNOTSUPP \<equiv> 95"

record sock_filter =
  sf_code :: u16
  sf_jt :: u8
  sf_jf :: u8
  sf_k :: u32

datatype Syscall =
    LandlockCreateRuleset u64
  | OpenPath string
  | LandlockAddRule i32 i32 u64
  | CloseFd i32
  | SetNoNewPrivs
  | LandlockRestrictSelf i32
  | SetSeccomp "sock_filter list"

type_synonym answer = "i32 + i32"
type_synonym history = "(Syscall \<times> answer) list"
type_synonym kern = "history \<Rightarrow> Syscall \<Rightarrow> answer"

definition sys :: "kern \<Rightarrow> Syscall \<Rightarrow> history \<Rightarrow> answer \<times> history" where
  "sys kern c h = (let a = kern h c in (a, h @ [(c, a)]))"

definition errno_err :: "string \<Rightarrow> i32 \<Rightarrow> PlatformError" where
  "errno_err op code = new_error (if code = ENOSYS then Unsupported else Other) (Errno code) op"

section \<open>Random bytes\<close>

text \<open>\<open>answers\<close> is what the successive \<open>getrandom\<close> calls will return: an error number, or
  the bytes written at the front of the region that was still unfilled.  When it is used
  up the call has not come back yet: \<open>None\<close>.\<close>

fun fill_loop :: "(i32 + bytes) list \<Rightarrow> bytes \<Rightarrow> nat \<Rightarrow> (unit result \<times> bytes) option" where
  "fill_loop [] buf filled = (if filled < length buf then None else Some (Ok (), buf))"
| "fill_loop (a # answers) buf filled =
    (if filled < length buf
     then case a of
            Inl code \<Rightarrow>
              (if code = EINTR then fill_loop answers buf filled
               else Some (Err (errno_err ''getrandom'' code), buf))
          | Inr bs \<Rightarrow>
              fill_loop answers (take filled buf @ bs @ drop (filled + length bs) buf)
                (filled + length bs)
     else Some (Ok (), buf))"

definition fill_random :: "(i32 + bytes) list \<Rightarrow> bytes \<Rightarrow> (unit result \<times> bytes) option" where
  "fill_random answers buf = fill_loop answers buf 0"

section \<open>Landlock\<close>

definition ACCESS_FS_EXECUTE :: u64 where "ACCESS_FS_EXECUTE = push_bit 0 1"
definition ACCESS_FS_WRITE_FILE :: u64 where "ACCESS_FS_WRITE_FILE = push_bit 1 1"
definition ACCESS_FS_READ_FILE :: u64 where "ACCESS_FS_READ_FILE = push_bit 2 1"
definition ACCESS_FS_READ_DIR :: u64 where "ACCESS_FS_READ_DIR = push_bit 3 1"
definition ACCESS_FS_REMOVE_DIR :: u64 where "ACCESS_FS_REMOVE_DIR = push_bit 4 1"
definition ACCESS_FS_REMOVE_FILE :: u64 where "ACCESS_FS_REMOVE_FILE = push_bit 5 1"
definition ACCESS_FS_MAKE_CHAR :: u64 where "ACCESS_FS_MAKE_CHAR = push_bit 6 1"
definition ACCESS_FS_MAKE_DIR :: u64 where "ACCESS_FS_MAKE_DIR = push_bit 7 1"
definition ACCESS_FS_MAKE_REG :: u64 where "ACCESS_FS_MAKE_REG = push_bit 8 1"
definition ACCESS_FS_MAKE_SOCK :: u64 where "ACCESS_FS_MAKE_SOCK = push_bit 9 1"
definition ACCESS_FS_MAKE_FIFO :: u64 where "ACCESS_FS_MAKE_FIFO = push_bit 10 1"
definition ACCESS_FS_MAKE_BLOCK :: u64 where "ACCESS_FS_MAKE_BLOCK = push_bit 11 1"
definition ACCESS_FS_MAKE_SYM :: u64 where "ACCESS_FS_MAKE_SYM = push_bit 12 1"

definition ABI_V1_ALL_ACCESS :: u64 where
  "ABI_V1_ALL_ACCESS = ACCESS_FS_EXECUTE OR ACCESS_FS_WRITE_FILE OR ACCESS_FS_READ_FILE
     OR ACCESS_FS_READ_DIR OR ACCESS_FS_REMOVE_DIR OR ACCESS_FS_REMOVE_FILE
     OR ACCESS_FS_MAKE_CHAR OR ACCESS_FS_MAKE_DIR OR ACCESS_FS_MAKE_REG OR ACCESS_FS_MAKE_SOCK
     OR ACCESS_FS_MAKE_FIFO OR ACCESS_FS_MAKE_BLOCK OR ACCESS_FS_MAKE_SYM"

definition READ_ONLY_ACCESS :: u64 where
  "READ_ONLY_ACCESS = ACCESS_FS_EXECUTE OR ACCESS_FS_READ_FILE OR ACCESS_FS_READ_DIR"

definition open_path_fd :: "kern \<Rightarrow> string \<Rightarrow> history \<Rightarrow> i32 result \<times> history" where
  "open_path_fd kern path h =
    (if CHR 0x00 \<in> set path
     then (Err (with_path (new_error InvalidInput NoCode ''confine_filesystem'') path), h)
     else case sys kern (OpenPath path) h of
            (Inl code, h1) \<Rightarrow> (Err (with_path (errno_err ''open'' code) path), h1)
          | (Inr fd, h1) \<Rightarrow> (Ok fd, h1))"

definition set_no_new_privs :: "kern \<Rightarrow> history \<Rightarrow> unit result \<times> history" where
  "set_no_new_privs kern h =
    (case sys kern SetNoNewPrivs h of
       (Inl code, h1) \<Rightarrow> (Err (errno_err ''prctl(PR_SET_NO_NEW_PRIVS)'' code), h1)
     | (Inr _, h1) \<Rightarrow> (Ok (), h1))"

definition create_ruleset :: "kern \<Rightarrow> history \<Rightarrow> i32 option result \<times> history" where
  "create_ruleset kern h =
    (case sys kern (LandlockCreateRuleset ABI_V1_ALL_ACCESS) h of
       (Inl code, h1) \<Rightarrow>
         (if code = ENOSYS \<or> code = EOPNOTSUPP then (Ok None, h1)
          else (Err (errno_err ''landlock_create_ruleset'' code), h1))
     | (Inr fd, h1) \<Rightarrow> (Ok (Some fd), h1))"

definition add_rule ::
  "kern \<Rightarrow> i32 \<Rightarrow> string \<Rightarrow> u64 \<Rightarrow> history \<Rightarrow> unit result \<times> history" where
  "add_rule kern ruleset_fd path allowed_access h =
    (case open_path_fd kern path h of
       (Err e, h1) \<Rightarrow> (Err e, h1)
     | (Ok parent_fd, h1) \<Rightarrow>
         (case sys kern (LandlockAddRule ruleset_fd parent_fd allowed_access) h1 of
            (r, h2) \<Rightarrow>
              (let h3 = snd (sys kern (CloseFd parent_fd) h2)
               in case r of
                    Inl code \<Rightarrow> (Err (with_path (errno_err ''landlock_add_rule'' code) path), h3)
                  | Inr _ \<Rightarrow> (Ok (), h3))))"

text \<open>The two loops of the closure in \<open>confine_filesystem\<close>, over the roots with the access
  each is granted.\<close>

fun add_rules ::
  "kern \<Rightarrow> i32 \<Rightarrow> u64 \<Rightarrow> string list \<Rightarrow> history \<Rightarrow> unit result \<times> history" where
  "add_rules kern ruleset_fd access [] h = (Ok (), h)"
| "add_rules kern ruleset_fd access (root # roots) h =
    (case add_rule kern ruleset_fd root access h of
       (Err e, h1) \<Rightarrow> (Err e, h1)
     | (Ok _, h1) \<Rightarrow> add_rules kern ruleset_fd access roots h1)"

definition restrict_self :: "kern \<Rightarrow> i32 \<Rightarrow> history \<Rightarrow> unit result \<times> history" where
  "restrict_self kern ruleset_fd h =
    (case sys kern (LandlockRestrictSelf ruleset_fd) h of
       (Inl code, h1) \<Rightarrow> (Err (errno_err ''landlock_restrict_self'' code), h1)
     | (Inr _, h1) \<Rightarrow> (Ok (), h1))"

definition seq_h ::
  "(history \<Rightarrow> unit result \<times> history) \<Rightarrow> (history \<Rightarrow> unit result \<times> history) \<Rightarrow>
   history \<Rightarrow> unit result \<times> history" where
  "seq_h f g h = (case f h of (Err e, h1) \<Rightarrow> (Err e, h1) | (Ok _, h1) \<Rightarrow> g h1)"

definition confine_filesystem ::
  "kern \<Rightarrow> string list \<Rightarrow> string list \<Rightarrow> history \<Rightarrow> SandboxStatus result \<times> history" where
  "confine_filesystem kern readable_roots writable_roots h =
    (case create_ruleset kern h of
       (Err e, h1) \<Rightarrow> (Err e, h1)
     | (Ok None, h1) \<Rightarrow> (Ok NotEnforced, h1)
     | (Ok (Some ruleset_fd), h1) \<Rightarrow>
         (case seq_h (add_rules kern ruleset_fd READ_ONLY_ACCESS readable_roots)
                 (seq_h (add_rules kern ruleset_fd ABI_V1_ALL_ACCESS writable_roots)
                   (seq_h (set_no_new_privs kern) (restrict_self kern ruleset_fd))) h1 of
            (r, h2) \<Rightarrow>
              (let h3 = snd (sys kern (CloseFd ruleset_fd) h2)
               in case r of Err e \<Rightarrow> (Err e, h3) | Ok _ \<Rightarrow> (Ok Enforced, h3))))"

section \<open>The seccomp program\<close>

definition SECCOMP_DATA_NR_OFFSET :: u32 where "SECCOMP_DATA_NR_OFFSET = 0"
definition SECCOMP_DATA_ARCH_OFFSET :: u32 where "SECCOMP_DATA_ARCH_OFFSET = 4"
definition SECCOMP_DATA_ARG0_OFFSET :: u32 where "SECCOMP_DATA_ARG0_OFFSET = 16"
definition AUDIT_ARCH_X86_64 :: u32 where "AUDIT_ARCH_X86_64 = 0xC000003E"

abbreviation BPF_LD :: u32 where "BPF_LD \<equiv> 0x00"
abbreviation BPF_JMP :: u32 where "BPF_JMP \<equiv> 0x05"
abbreviation BPF_RET :: u32 where "BPF_RET \<equiv> 0x06"
abbreviation BPF_W :: u32 where "BPF_W \<equiv> 0x00"
abbreviation BPF_ABS :: u32 where "BPF_ABS \<equiv> 0x20"
abbreviation BPF_JEQ :: u32 where "BPF_JEQ \<equiv> 0x10"
abbreviation BPF_K :: u32 where "BPF_K \<equiv> 0x00"
abbreviation SECCOMP_RET_KILL_PROCESS :: u32 where "SECCOMP_RET_KILL_PROCESS \<equiv> 0x80000000"
abbreviation SECCOMP_RET_ERRNO :: u32 where "SECCOMP_RET_ERRNO \<equiv> 0x00050000"
abbreviation SECCOMP_RET_ALLOW :: u32 where "SECCOMP_RET_ALLOW \<equiv> 0x7fff0000"
abbreviation SECCOMP_RET_DATA :: u32 where "SECCOMP_RET_DATA \<equiv> 0x0000ffff"
abbreviation SYS_socket :: u32 where "SYS_socket \<equiv> 41"
abbreviation AF_INET :: u32 where "AF_INET \<equiv> 2"
abbreviation AF_INET6 :: u32 where "AF_INET6 \<equiv> 10"
abbreviation AF_PACKET :: u32 where "AF_PACKET \<equiv> 17"
abbreviation EPERM :: u32 where "EPERM \<equiv> 1"

definition bpf_stmt :: "u32 \<Rightarrow> u32 \<Rightarrow> sock_filter" where
  "bpf_stmt code k = \<lparr>sf_code = ucast code, sf_jt = 0, sf_jf = 0, sf_k = k\<rparr>"

definition bpf_jump :: "u32 \<Rightarrow> u32 \<Rightarrow> u8 \<Rightarrow> u8 \<Rightarrow> sock_filter" where
  "bpf_jump code k jt jf = \<lparr>sf_code = ucast code, sf_jt = jt, sf_jf = jf, sf_k = k\<rparr>"

definition build_seccomp_program :: "sock_filter list" where
  "build_seccomp_program =
    (let ld_w_abs = BPF_LD OR BPF_W OR BPF_ABS;
         jmp_jeq_k = BPF_JMP OR BPF_JEQ OR BPF_K;
         ret_k = BPF_RET OR BPF_K
     in [bpf_stmt ld_w_abs SECCOMP_DATA_ARCH_OFFSET,
         bpf_jump jmp_jeq_k AUDIT_ARCH_X86_64 0 8,
         bpf_stmt ld_w_abs SECCOMP_DATA_NR_OFFSET,
         bpf_jump jmp_jeq_k SYS_socket 0 4,
         bpf_stmt ld_w_abs SECCOMP_DATA_ARG0_OFFSET,
         bpf_jump jmp_jeq_k AF_INET 3 0,
         bpf_jump jmp_jeq_k AF_INET6 2 0,
         bpf_jump jmp_jeq_k AF_PACKET 1 0,
         bpf_stmt ret_k SECCOMP_RET_ALLOW,
         bpf_stmt ret_k (SECCOMP_RET_ERRNO OR (EPERM AND SECCOMP_RET_DATA)),
         bpf_stmt ret_k SECCOMP_RET_KILL_PROCESS])"

definition block_inet_sockets :: "kern \<Rightarrow> history \<Rightarrow> SandboxStatus result \<times> history" where
  "block_inet_sockets kern h =
    (case set_no_new_privs kern h of
       (Err e, h1) \<Rightarrow> (Err e, h1)
     | (Ok _, h1) \<Rightarrow>
         (case sys kern (SetSeccomp build_seccomp_program) h1 of
            (Inl code, h2) \<Rightarrow>
              (if code = ENOSYS then (Ok NotEnforced, h2)
               else (Err (errno_err ''prctl(PR_SET_SECCOMP)'' code), h2))
          | (Inr _, h2) \<Rightarrow> (Ok Enforced, h2)))"

definition block_inet_sockets_other_arch :: "SandboxStatus result" where
  "block_inet_sockets_other_arch = Ok SandboxUnsupported"


section \<open>Filling a buffer\<close>

text \<open>What a sequence of answers delivers, and that no answer exceeds what was asked for.\<close>

definition chunk :: "i32 + bytes \<Rightarrow> bytes" where
  "chunk a = (case a of Inl _ \<Rightarrow> [] | Inr bs \<Rightarrow> bs)"

fun within :: "nat \<Rightarrow> (i32 + bytes) list \<Rightarrow> bool" where
  "within n [] = True"
| "within n (a # as) = (length (chunk a) \<le> n \<and> within (n - length (chunk a)) as)"

lemma fill_loop_spec:
  assumes "filled \<le> length buf" "within (length buf - filled) answers"
    and "fill_loop answers buf filled = Some (r, buf')"
  shows "length buf' = length buf \<and>
    (r = Ok () \<longrightarrow>
       buf' = take (length buf) (take filled buf @ concat (map chunk answers)))"
  using assms
proof (induction answers buf filled rule: fill_loop.induct)
  case (2 a answers buf filled)
  show ?case
  proof (cases a)
    case (Inl code)
    then show ?thesis using 2 by (auto simp: chunk_def split: if_splits)
  next
    case (Inr bs)
    then show ?thesis using 2 by (auto simp: chunk_def split: if_splits)
  qed
qed (auto split: if_splits)

lemma fill_loop_returns:
  assumes "filled \<le> length buf" "within (length buf - filled) answers"
    and "\<forall>a\<in>set answers. a = Inl EINTR \<or> chunk a \<noteq> []"
    and "length buf \<le> filled + length (filter (\<lambda>a. chunk a \<noteq> []) answers)"
  shows "\<exists>buf'. fill_loop answers buf filled = Some (Ok (), buf')"
  using assms
proof (induction answers buf filled rule: fill_loop.induct)
  case (2 a answers buf filled)
  show ?case
  proof (cases a)
    case (Inl code)
    then show ?thesis using 2 by (auto simp: chunk_def split: if_splits)
  next
    case (Inr bs)
    then show ?thesis using 2 by (cases bs) (auto simp: chunk_def)
  qed
qed auto

section \<open>What a confinement leaves behind\<close>

definition opened :: "history \<Rightarrow> i32 multiset" where
  "opened h = mset (concat (map (\<lambda>(c, a). case c of
     LandlockCreateRuleset _ \<Rightarrow> (case a of Inr fd \<Rightarrow> [fd] | Inl _ \<Rightarrow> [])
   | OpenPath _ \<Rightarrow> (case a of Inr fd \<Rightarrow> [fd] | Inl _ \<Rightarrow> [])
   | _ \<Rightarrow> []) h))"

definition closed :: "history \<Rightarrow> i32 multiset" where
  "closed h = mset (concat (map (\<lambda>(c, a). case c of CloseFd fd \<Rightarrow> [fd] | _ \<Rightarrow> []) h))"

definition restricted :: "history \<Rightarrow> bool" where
  "restricted h = (\<exists>x \<in> set h. case x of (LandlockRestrictSelf _, Inr _) \<Rightarrow> True | _ \<Rightarrow> False)"

definition quiet :: "history \<Rightarrow> bool" where
  "quiet h = (opened h = closed h \<and> \<not> restricted h)"

definition rule_steps :: "i32 \<Rightarrow> (string \<times> u64) \<times> i32 \<times> i32 \<times> answer \<Rightarrow> history" where
  "rule_steps r x = (case x of ((root, access), fd, v, c) \<Rightarrow>
     [(OpenPath root, Inr fd), (LandlockAddRule r fd access, Inr v), (CloseFd fd, c)])"

lemma history_Nil [simp]: "opened [] = {#}" "closed [] = {#}" "\<not> restricted []" "quiet []"
  by (simp_all add: opened_def closed_def restricted_def quiet_def)

lemma history_append [simp]:
  "opened (h @ h') = opened h + opened h'" "closed (h @ h') = closed h + closed h'"
  "restricted (h @ h') \<longleftrightarrow> restricted h \<or> restricted h'"
  by (auto simp: opened_def closed_def restricted_def)

lemma history_Cons [simp]:
  "opened ((LandlockCreateRuleset m, a) # h) = (case a of Inr fd \<Rightarrow> {#fd#} | Inl _ \<Rightarrow> {#}) + opened h"
  "opened ((OpenPath p, a) # h) = (case a of Inr fd \<Rightarrow> {#fd#} | Inl _ \<Rightarrow> {#}) + opened h"
  "opened ((LandlockAddRule r fd m, a) # h) = opened h"
  "opened ((CloseFd fd, a) # h) = opened h"
  "opened ((SetNoNewPrivs, a) # h) = opened h"
  "opened ((LandlockRestrictSelf r, a) # h) = opened h"
  "closed ((LandlockCreateRuleset m, a) # h) = closed h"
  "closed ((OpenPath p, a) # h) = closed h"
  "closed ((LandlockAddRule r fd m, a) # h) = closed h"
  "closed ((CloseFd fd, a) # h) = {#fd#} + closed h"
  "closed ((SetNoNewPrivs, a) # h) = closed h"
  "closed ((LandlockRestrictSelf r, a) # h) = closed h"
  "restricted ((LandlockCreateRuleset m, a) # h) = restricted h"
  "restricted ((OpenPath p, a) # h) = restricted h"
  "restricted ((LandlockAddRule r fd m, a) # h) = restricted h"
  "restricted ((CloseFd fd, a) # h) = restricted h"
  "restricted ((SetNoNewPrivs, a) # h) = restricted h"
  "restricted ((LandlockRestrictSelf r, a) # h) = (case a of Inr _ \<Rightarrow> True | Inl _ \<Rightarrow> restricted h)"
  by (auto simp: opened_def closed_def restricted_def split: sum.splits)

lemma quiet_append [intro]: "quiet h \<Longrightarrow> quiet h' \<Longrightarrow> quiet (h @ h')"
  by (auto simp: quiet_def)

lemma add_rule_steps:
  "\<exists>new. snd (add_rule kern r path access h) = h @ new \<and> quiet new \<and>
     (fst (add_rule kern r path access h) = Ok () \<longrightarrow> (\<exists>x. new = rule_steps r ((path, access), x)))"
  by (auto simp: add_rule_def open_path_fd_def sys_def quiet_def rule_steps_def Let_def
      split: sum.splits)

lemma add_rules_steps:
  "\<exists>new. snd (add_rules kern r access roots h) = h @ new \<and> quiet new \<and>
     (fst (add_rules kern r access roots h) = Ok () \<longrightarrow>
       (\<exists>xs. length xs = length roots \<and>
          new = concat (map (rule_steps r) (zip (map (\<lambda>p. (p, access)) roots) xs))))"
proof (induction roots arbitrary: h)
  case (Cons root roots)
  obtain new1 where new1: "snd (add_rule kern r root access h) = h @ new1" "quiet new1"
    "fst (add_rule kern r root access h) = Ok () \<longrightarrow> (\<exists>x. new1 = rule_steps r ((root, access), x))"
    using add_rule_steps[of kern r root access h] by blast
  show ?case
  proof (cases "fst (add_rule kern r root access h)")
    case (Inl e)
    then have "add_rules kern r access (root # roots) h = (Err e, h @ new1)"
      using new1(1) by (simp add: prod_eq_iff split: prod.splits sum.splits)
    then show ?thesis using new1(2) by auto
  next
    case (Inr u)
    then have eq: "add_rules kern r access (root # roots) h = add_rules kern r access roots (h @ new1)"
      using new1(1) by (auto split: prod.splits)
    obtain x where x: "new1 = rule_steps r ((root, access), x)" using new1(3) Inr by auto
    obtain new2 where new2: "snd (add_rules kern r access roots (h @ new1)) = (h @ new1) @ new2"
      "quiet new2" "fst (add_rules kern r access roots (h @ new1)) = Ok () \<longrightarrow>
       (\<exists>xs. length xs = length roots \<and>
          new2 = concat (map (rule_steps r) (zip (map (\<lambda>p. (p, access)) roots) xs)))"
      using Cons.IH[of "h @ new1"] by blast
    have "fst (add_rules kern r access roots (h @ new1)) = Ok () \<Longrightarrow>
       \<exists>xs. length xs = length (root # roots) \<and> new1 @ new2 =
          concat (map (rule_steps r) (zip (map (\<lambda>p. (p, access)) (root # roots)) xs))"
    proof -
      assume "fst (add_rules kern r access roots (h @ new1)) = Ok ()"
      then obtain xs where "length xs = length roots"
        "new2 = concat (map (rule_steps r) (zip (map (\<lambda>p. (p, access)) roots) xs))"
        using new2(3) by blast
      then show ?thesis by (intro exI[of _ "x # xs"]) (simp add: x)
    qed
    then show ?thesis using eq new1(2) new2(1,2) by (intro exI[of _ "new1 @ new2"]) auto
  qed
qed simp

lemma seq_h_cases:
  "seq_h f g h = (case fst (f h) of Err e \<Rightarrow> (Err e, snd (f h)) | Ok _ \<Rightarrow> g (snd (f h)))"
  by (auto simp: seq_h_def split: prod.splits sum.splits)

text \<open>The access a confinement grants: read and execute below the readable roots, every
  right of the ABI below the writable ones.\<close>

definition grants :: "string list \<Rightarrow> string list \<Rightarrow> (string \<times> u64) list" where
  "grants rs ws = map (\<lambda>p. (p, READ_ONLY_ACCESS)) rs @ map (\<lambda>p. (p, ABI_V1_ALL_ACCESS)) ws"

lemma two_rule_loops:
  obtains (Fail) e new where "seq_h (add_rules kern r READ_ONLY_ACCESS rs)
      (seq_h (add_rules kern r ABI_V1_ALL_ACCESS ws) g) h = (Err e, h @ new)" "quiet new"
  | (Added) xs where "length xs = length rs + length ws"
      "quiet (concat (map (rule_steps r) (zip (grants rs ws) xs)))"
      "seq_h (add_rules kern r READ_ONLY_ACCESS rs)
      (seq_h (add_rules kern r ABI_V1_ALL_ACCESS ws) g) h =
        g (h @ concat (map (rule_steps r) (zip (grants rs ws) xs)))"
proof -
  let ?f = "\<lambda>acc ps. add_rules kern r acc ps" and ?z = "\<lambda>acc ps xs. concat (map (rule_steps r) (zip (map (\<lambda>p. (p, acc)) ps) xs))"
  obtain n1 where n1: "snd (?f READ_ONLY_ACCESS rs h) = h @ n1" "quiet n1"
    "fst (?f READ_ONLY_ACCESS rs h) = Ok () \<longrightarrow> (\<exists>xs. length xs = length rs \<and> n1 = ?z READ_ONLY_ACCESS rs xs)"
    using add_rules_steps[of kern r READ_ONLY_ACCESS rs h] by blast
  obtain n2 where n2: "snd (?f ABI_V1_ALL_ACCESS ws (h @ n1)) = (h @ n1) @ n2" "quiet n2"
    "fst (?f ABI_V1_ALL_ACCESS ws (h @ n1)) = Ok () \<longrightarrow> (\<exists>xs. length xs = length ws \<and> n2 = ?z ABI_V1_ALL_ACCESS ws xs)"
    using add_rules_steps[of kern r ABI_V1_ALL_ACCESS ws "h @ n1"] by blast
  show thesis
  proof (cases "fst (?f READ_ONLY_ACCESS rs h)")
    case (Inl e)
    then show thesis using Fail[of e n1] n1 by (simp add: seq_h_cases)
  next
    case (Inr u)
    then obtain xs where xs: "length xs = length rs" "n1 = ?z READ_ONLY_ACCESS rs xs"
      using n1(3) by auto
    show thesis
    proof (cases "fst (?f ABI_V1_ALL_ACCESS ws (h @ n1))")
      case (Inl e)
      then show thesis using Fail[of e "n1 @ n2"] n1 n2 Inr by (simp add: seq_h_cases quiet_append)
    next
      case Inr2: (Inr u2)
      then obtain ys where ys: "length ys = length ws" "n2 = ?z ABI_V1_ALL_ACCESS ws ys"
        using n2(3) by auto
      have all: "n1 @ n2 = concat (map (rule_steps r) (zip (grants rs ws) (xs @ ys)))"
        using xs ys by (simp add: grants_def)
      have "seq_h (?f READ_ONLY_ACCESS rs) (seq_h (?f ABI_V1_ALL_ACCESS ws) g) h = g (h @ n1 @ n2)"
        using n1(1) n2(1) Inr Inr2 by (simp add: seq_h_cases)
      then show thesis
        using Added[of "xs @ ys"] quiet_append[OF n1(2) n2(2)] xs(1) ys(1) unfolding all by simp
    qed
  qed
qed

lemma restrict_tail:
  obtains (Fail) e new where "seq_h (set_no_new_privs kern) (restrict_self kern r) h = (Err e, h @ new)"
      "quiet new"
  | (Done) a b where "seq_h (set_no_new_privs kern) (restrict_self kern r) h =
      (Ok (), h @ [(SetNoNewPrivs, Inr a), (LandlockRestrictSelf r, Inr b)])"
  by (cases "kern h SetNoNewPrivs";
      cases "kern (h @ [(SetNoNewPrivs, kern h SetNoNewPrivs)]) (LandlockRestrictSelf r)")
    (auto simp: seq_h_def set_no_new_privs_def restrict_self_def sys_def quiet_def Let_def)

text \<open>C7. The confinement of the file system, for every kernel and every outcome.  The calls
  made are appended to the history.  Every descriptor that was opened is closed, also when a
  root cannot be opened or a rule is refused.  The process is restricted exactly when the
  result is Enforced; then a ruleset handling every right was created, each readable root got
  read and execute, each writable root every right, in order and each by its own descriptor,
  and new privileges were given up before the restriction.  NotEnforced means that the kernel
  has no Landlock, and then nothing else was tried.\<close>

theorem confine_filesystem_exact:
  "\<exists>new. snd (confine_filesystem kern rs ws h) = h @ new \<and>
     opened new = closed new \<and>
     (fst (confine_filesystem kern rs ws h) = Ok Enforced \<longleftrightarrow> restricted new) \<and>
     (fst (confine_filesystem kern rs ws h) = Ok Enforced \<longrightarrow>
        (\<exists>r xs a b c. length xs = length rs + length ws \<and>
           new = (LandlockCreateRuleset ABI_V1_ALL_ACCESS, Inr r) #
             concat (map (rule_steps r) (zip (grants rs ws) xs)) @
             [(SetNoNewPrivs, Inr a), (LandlockRestrictSelf r, Inr b), (CloseFd r, c)])) \<and>
     (fst (confine_filesystem kern rs ws h) = Ok NotEnforced \<longleftrightarrow>
        (\<exists>code. code \<in> {ENOSYS, EOPNOTSUPP} \<and>
           new = [(LandlockCreateRuleset ABI_V1_ALL_ACCESS, Inl code)])) \<and>
     fst (confine_filesystem kern rs ws h) \<noteq> Ok SandboxUnsupported"
proof (cases "kern h (LandlockCreateRuleset ABI_V1_ALL_ACCESS)")
  case (Inl code)
  then show ?thesis
    by (intro exI[of _ "[(LandlockCreateRuleset ABI_V1_ALL_ACCESS, Inl code)]"])
      (auto simp: confine_filesystem_def create_ruleset_def sys_def Let_def)
next
  case (Inr r)
  let ?c = "(LandlockCreateRuleset ABI_V1_ALL_ACCESS, Inr r) :: Syscall \<times> answer"
  let ?g = "seq_h (set_no_new_privs kern) (restrict_self kern r)"
  let ?b = "seq_h (add_rules kern r READ_ONLY_ACCESS rs)
      (seq_h (add_rules kern r ABI_V1_ALL_ACCESS ws) ?g) (h @ [?c])"
  have conf: "confine_filesystem kern rs ws h =
      (let h3 = snd ?b @ [(CloseFd r, kern (snd ?b) (CloseFd r))]
       in case fst ?b of Err e \<Rightarrow> (Err e, h3) | Ok _ \<Rightarrow> (Ok Enforced, h3))"
    using Inr by (simp add: confine_filesystem_def create_ruleset_def sys_def Let_def split_def)
  show ?thesis
  proof (rule two_rule_loops[of kern r rs ws ?g "h @ [?c]"])
    fix e new
    assume "?b = (Err e, (h @ [?c]) @ new)" "quiet new"
    then show ?thesis
      by (intro exI[of _ "?c # new @ [(CloseFd r, kern (h @ ?c # new) (CloseFd r))]"])
        (simp add: conf quiet_def)
  next
    fix xs
    let ?n = "concat (map (rule_steps r) (zip (grants rs ws) xs))"
    assume len: "length xs = length rs + length ws" and q: "quiet ?n"
      and b: "?b = ?g ((h @ [?c]) @ ?n)"
    show ?thesis
    proof (rule restrict_tail[of kern r "(h @ [?c]) @ ?n"])
      fix e new
      assume "?g ((h @ [?c]) @ ?n) = (Err e, ((h @ [?c]) @ ?n) @ new)" "quiet new"
      then show ?thesis using q
        by (intro exI[of _ "?c # ?n @ new @ [(CloseFd r, kern (snd ?b) (CloseFd r))]"])
          (simp add: conf b quiet_def)
    next
      fix a v
      assume "?g ((h @ [?c]) @ ?n) =
        (Ok (), ((h @ [?c]) @ ?n) @ [(SetNoNewPrivs, Inr a), (LandlockRestrictSelf r, Inr v)])"
      then show ?thesis using q len
        by (intro exI[of _ "?c # ?n @ [(SetNoNewPrivs, Inr a), (LandlockRestrictSelf r, Inr v),
              (CloseFd r, kern (snd ?b) (CloseFd r))]"]) (auto simp: conf b quiet_def)
    qed
  qed
qed

theorem confine_filesystem_exact_witness:
  "fst (confine_filesystem (\<lambda>h c. Inr (of_nat (length h))) [''/usr''] [''/tmp''] []) = Ok Enforced \<and>
   restricted (snd (confine_filesystem (\<lambda>h c. Inr (of_nat (length h))) [''/usr''] [''/tmp''] []))"
proof -
  have "fst (confine_filesystem (\<lambda>h c. Inr (of_nat (length h))) [''/usr''] [''/tmp''] []) = Ok Enforced"
    by (simp add: confine_filesystem_def create_ruleset_def seq_h_def add_rule_def open_path_fd_def
        set_no_new_privs_def restrict_self_def sys_def Let_def)
  then show ?thesis
    using confine_filesystem_exact[of "\<lambda>h c. Inr (of_nat (length h))" "[''/usr'']" "[''/tmp'']" "[]"]
    by auto
qed

text \<open>A network confinement is reported as enforced exactly when the kernel took the filter,
  after new privileges were given up.\<close>

lemma block_inet_sockets_enforced:
  "fst (block_inet_sockets kern h) = Ok Enforced \<longleftrightarrow>
     (\<exists>a b. snd (block_inet_sockets kern h) =
        h @ [(SetNoNewPrivs, Inr a), (SetSeccomp build_seccomp_program, Inr b)])"
  by (auto simp: block_inet_sockets_def set_no_new_privs_def sys_def Let_def split: sum.splits)

section \<open>What the filter decides\<close>

text \<open>\<open>struct seccomp_data\<close> of the kernel interface, as it lies in memory on x86-64, and a
  32-bit load from it.\<close>

record seccomp_data =
  sd_nr :: u32
  sd_arch :: u32
  sd_instruction_pointer :: u64
  sd_args :: "u64 list"

definition sd_bytes :: "seccomp_data \<Rightarrow> bytes" where
  "sd_bytes d = to_le_bytes 4 (sd_nr d) @ to_le_bytes 4 (sd_arch d) @
     to_le_bytes 8 (sd_instruction_pointer d) @ concat (map (to_le_bytes 8) (sd_args d))"

definition sd_load :: "seccomp_data \<Rightarrow> u32 \<Rightarrow> u32" where
  "sd_load d k = from_le_bytes (take 4 (drop (unat k) (sd_bytes d)))"

text \<open>What the documentation of classic BPF says of the three instructions the program
  uses.  \<open>exec p d pc a\<close> is the verdict of the machine on program \<open>p\<close> and data \<open>d\<close> from the
  instruction at \<open>pc\<close> with accumulator \<open>a\<close>.\<close>

definition cbpf_machine ::
  "(sock_filter list \<Rightarrow> seccomp_data \<Rightarrow> nat \<Rightarrow> u32 \<Rightarrow> u32) \<Rightarrow> bool" where
  "cbpf_machine exec =
    (\<forall>p d pc a. pc < length p \<longrightarrow>
       (sf_code (p ! pc) = 0x20 \<longrightarrow> exec p d pc a = exec p d (pc + 1) (sd_load d (sf_k (p ! pc)))) \<and>
       (sf_code (p ! pc) = 0x15 \<longrightarrow> exec p d pc a =
          exec p d (pc + 1 + unat (if a = sf_k (p ! pc) then sf_jt (p ! pc) else sf_jf (p ! pc))) a) \<and>
       (sf_code (p ! pc) = 0x06 \<longrightarrow> exec p d pc a = sf_k (p ! pc)))"

text \<open>A machine that meets it: jumps only go forward, so the rest of the program shrinks.
  Falling off the end and unknown instructions kill the process.\<close>

function cbpf_run :: "sock_filter list \<Rightarrow> seccomp_data \<Rightarrow> u32 \<Rightarrow> u32" where
  "cbpf_run [] d a = SECCOMP_RET_KILL_PROCESS"
| "cbpf_run (i # is) d a =
    (if sf_code i = 0x20 then cbpf_run is d (sd_load d (sf_k i))
     else if sf_code i = 0x15 then
       cbpf_run (drop (unat (if a = sf_k i then sf_jt i else sf_jf i)) is) d a
     else if sf_code i = 0x06 then sf_k i
     else SECCOMP_RET_KILL_PROCESS)"
  by pat_completeness auto
termination by (relation "measure (\<lambda>(p, _, _). length p)") auto

definition cbpf_exec :: "sock_filter list \<Rightarrow> seccomp_data \<Rightarrow> nat \<Rightarrow> u32 \<Rightarrow> u32" where
  "cbpf_exec p d pc a = cbpf_run (drop pc p) d a"

lemma cbpf_machine_exec: "cbpf_machine cbpf_exec"
  unfolding cbpf_machine_def
proof (intro allI impI)
  fix p :: "sock_filter list" and d pc a
  assume "pc < length p"
  then have "drop pc p = p ! pc # drop (Suc pc) p" by (simp add: Cons_nth_drop_Suc)
  then have "cbpf_exec p d pc a = cbpf_run (p ! pc # drop (Suc pc) p) d a"
    by (simp add: cbpf_exec_def)
  then show "(sf_code (p ! pc) = 0x20 \<longrightarrow>
       cbpf_exec p d pc a = cbpf_exec p d (pc + 1) (sd_load d (sf_k (p ! pc)))) \<and>
     (sf_code (p ! pc) = 0x15 \<longrightarrow> cbpf_exec p d pc a = cbpf_exec p d
       (pc + 1 + unat (if a = sf_k (p ! pc) then sf_jt (p ! pc) else sf_jf (p ! pc))) a) \<and>
     (sf_code (p ! pc) = 0x06 \<longrightarrow> cbpf_exec p d pc a = sf_k (p ! pc))"
    by (simp add: cbpf_exec_def add.commute[of _ pc])
qed

lemma cbpf_ld:
  "cbpf_machine exec \<Longrightarrow> pc < length p \<Longrightarrow> sf_code (p ! pc) = 0x20 \<Longrightarrow>
     exec p d pc a = exec p d (Suc pc) (sd_load d (sf_k (p ! pc)))"
  by (simp add: cbpf_machine_def)

lemma cbpf_jeq:
  "cbpf_machine exec \<Longrightarrow> pc < length p \<Longrightarrow> sf_code (p ! pc) = 0x15 \<Longrightarrow>
     exec p d pc a =
       exec p d (Suc (pc + unat (if a = sf_k (p ! pc) then sf_jt (p ! pc) else sf_jf (p ! pc)))) a"
  by (simp add: cbpf_machine_def)

lemma cbpf_ret:
  "cbpf_machine exec \<Longrightarrow> pc < length p \<Longrightarrow> sf_code (p ! pc) = 0x06 \<Longrightarrow>
     exec p d pc a = sf_k (p ! pc)"
  by (simp add: cbpf_machine_def)

lemma sd_load_fields:
  "sd_load d SECCOMP_DATA_NR_OFFSET = sd_nr d"
  "sd_load d SECCOMP_DATA_ARCH_OFFSET = sd_arch d"
  by (simp_all add: sd_load_def sd_bytes_def SECCOMP_DATA_NR_OFFSET_def SECCOMP_DATA_ARCH_OFFSET_def)

lemma take_nat_le: "m \<le> n \<Longrightarrow> take m (nat_le n k) = nat_le m k"
proof (induction n arbitrary: m k)
  case (Suc n)
  then show ?case by (cases m) simp_all
qed simp

lemma sd_load_arg0:
  assumes "sd_args d = a # rest"
  shows "sd_load d SECCOMP_DATA_ARG0_OFFSET = ucast a"
proof -
  have "unat a mod 2 ^ 32 = unat (ucast a :: u32)"
    by (simp add: unsigned_ucast_eq take_bit_eq_mod)
  then have "of_nat (le_nat (nat_le 4 (unat a))) = (ucast a :: u32)"
    by (simp add: le_nat_nat_le)
  then show ?thesis
    by (simp add: sd_load_def sd_bytes_def SECCOMP_DATA_ARG0_OFFSET_def assms from_le_bytes_def
        to_le_bytes_def take_nat_le)
qed

lemma seccomp_nth:
  "length build_seccomp_program = 11"
  "build_seccomp_program ! 0 = bpf_stmt 0x20 SECCOMP_DATA_ARCH_OFFSET"
  "build_seccomp_program ! Suc 0 = bpf_jump 0x15 AUDIT_ARCH_X86_64 0 8"
  "build_seccomp_program ! 2 = bpf_stmt 0x20 SECCOMP_DATA_NR_OFFSET"
  "build_seccomp_program ! 3 = bpf_jump 0x15 SYS_socket 0 4"
  "build_seccomp_program ! 4 = bpf_stmt 0x20 SECCOMP_DATA_ARG0_OFFSET"
  "build_seccomp_program ! 5 = bpf_jump 0x15 AF_INET 3 0"
  "build_seccomp_program ! 6 = bpf_jump 0x15 AF_INET6 2 0"
  "build_seccomp_program ! 7 = bpf_jump 0x15 AF_PACKET 1 0"
  "build_seccomp_program ! 8 = bpf_stmt 0x06 SECCOMP_RET_ALLOW"
  "build_seccomp_program ! 9 = bpf_stmt 0x06 (SECCOMP_RET_ERRNO OR EPERM)"
  "build_seccomp_program ! 10 = bpf_stmt 0x06 SECCOMP_RET_KILL_PROCESS"
  by (simp_all add: build_seccomp_program_def Let_def)

text \<open>One instruction of the program at a time, for any machine.\<close>

lemma seccomp_steps:
  assumes "cbpf_machine exec"
  defines "p \<equiv> build_seccomp_program"
  shows "exec p d 0 a = exec p d (Suc 0) (sd_arch d)"
    and "exec p d (Suc 0) a = exec p d (if a = AUDIT_ARCH_X86_64 then 2 else 10) a"
    and "exec p d 2 a = exec p d 3 (sd_nr d)"
    and "exec p d 3 a = exec p d (if a = SYS_socket then 4 else 8) a"
    and "exec p d 4 a = exec p d 5 (sd_load d SECCOMP_DATA_ARG0_OFFSET)"
    and "exec p d 5 a = exec p d (if a = AF_INET then 9 else 6) a"
    and "exec p d 6 a = exec p d (if a = AF_INET6 then 9 else 7) a"
    and "exec p d 7 a = exec p d (if a = AF_PACKET then 9 else 8) a"
    and "exec p d 8 a = SECCOMP_RET_ALLOW"
    and "exec p d 9 a = SECCOMP_RET_ERRNO OR EPERM"
    and "exec p d 10 a = SECCOMP_RET_KILL_PROCESS"
  unfolding p_def One_nat_def
  by (simp_all (no_asm) add: cbpf_ld[OF assms(1)] cbpf_jeq[OF assms(1)] cbpf_ret[OF assms(1)]
      seccomp_nth bpf_stmt_def bpf_jump_def sd_load_fields flip: numeral_2_eq_2)

text \<open>C3. The seccomp filter decides exactly as documented, on every machine that runs
  classic BPF: a system call of another architecture kills the process; a \<open>socket\<close> call with
  the domain AF_INET, AF_INET6 or AF_PACKET fails with EPERM; everything else is allowed.
  The domain is the low half of the first argument, as the kernel itself reads it.\<close>

theorem seccomp_filter_exact:
  assumes "cbpf_machine exec" and "sd_args d = arg0 # rest"
  shows "exec build_seccomp_program d 0 a =
    (if sd_arch d \<noteq> AUDIT_ARCH_X86_64 then SECCOMP_RET_KILL_PROCESS
     else if sd_nr d = SYS_socket \<and> ucast arg0 \<in> {AF_INET, AF_INET6, AF_PACKET}
     then SECCOMP_RET_ERRNO OR EPERM
     else SECCOMP_RET_ALLOW)"
  by (simp add: seccomp_steps[OF assms(1)] sd_load_arg0[OF assms(2)])

theorem seccomp_filter_exact_witness:
  "cbpf_exec build_seccomp_program
     \<lparr>sd_nr = 41, sd_arch = 0xC000003E, sd_instruction_pointer = 0,
      sd_args = [0x100000002, 1, 0, 0, 0, 0]\<rparr> 0 0 = 0x00050001"
  using seccomp_filter_exact[OF cbpf_machine_exec, of
      "\<lparr>sd_nr = 41, sd_arch = 0xC000003E, sd_instruction_pointer = 0,
        sd_args = [0x100000002, 1, 0, 0, 0, 0]\<rparr>" "0x100000002" "[1, 0, 0, 0, 0]" 0]
  by (simp add: AUDIT_ARCH_X86_64_def)

text \<open>The x32 calls of an x86-64 kernel carry the same architecture value and bit 30 in the
  call number, so an x32 \<open>socket\<close> call for an internet domain is not recognised.\<close>

theorem seccomp_filter_allows_x32_socket:
  "cbpf_exec build_seccomp_program
     \<lparr>sd_nr = SYS_socket OR push_bit 30 1, sd_arch = AUDIT_ARCH_X86_64,
      sd_instruction_pointer = ip, sd_args = ucast AF_INET # rest\<rparr> 0 0 = SECCOMP_RET_ALLOW"
  by (simp add: seccomp_steps[OF cbpf_machine_exec])

end
