(* ===== verification/Coreutils_Text.thy ===== *)
theory Coreutils_Text
  imports Utf8 "HOL-Library.Char_ord" "HOL-Library.List_Lexorder" "HOL-Library.Multiset"
    "HOL-Library.Sublist"
begin

text \<open>
  The line-oriented tools of the coreutils crate: \<open>rhead\<close>, \<open>rtail\<close>, \<open>rsort\<close>, \<open>runiq\<close> and
  \<open>rcut\<close> (\<open>coreutils/src/bin\<close>).  A run is a function of the process's arguments, its
  standard input and what opening a path gives; its value is what was printed on the two
  output streams and how the process ended; a failing write to them is not modelled.  The path translation of the \<open>rpath\<close> crate and
  the comparison of two lines as floating-point numbers are parameters.
\<close>

section \<open>Reading lines\<close>

text \<open>A readable stream: its bytes, and the message of the error that ends it, if any.\<close>

type_synonym stream = "string \<times> string option"

abbreviation NL :: char where "NL \<equiv> CHR 0x0A"
abbreviation CR :: char where "CR \<equiv> CHR 0x0D"

text \<open>\<open>BufRead::lines\<close>: the pieces up to and including each newline, without their line
  ending; a piece that is not UTF-8 is an error, and so is the error of the stream, which
  loses an unfinished piece.\<close>

fun raw_lines :: "string \<Rightarrow> string list" where
  "raw_lines [] = []"
| "raw_lines (c # cs) =
    (if c = NL then [c] # raw_lines cs
     else case raw_lines cs of [] \<Rightarrow> [[c]] | l # ls \<Rightarrow> (c # l) # ls)"

definition chomp :: "string \<Rightarrow> string" where
  "chomp l =
    (if l \<noteq> [] \<and> last l = NL
     then let m = butlast l in if m \<noteq> [] \<and> last m = CR then butlast m else m
     else l)"

definition line_result :: "string \<Rightarrow> string + string" where
  "line_result l =
    (if is_str l then Inr (chomp l) else Inl ''stream did not contain valid UTF-8'')"

definition lines :: "stream \<Rightarrow> (string + string) list" where
  "lines s =
    (case snd s of
       None \<Rightarrow> map line_result (raw_lines (fst s))
     | Some e \<Rightarrow> map line_result (filter (\<lambda>l. last l = NL) (raw_lines (fst s))) @ [Inl e])"

fun collect_lines :: "(string + string) list \<Rightarrow> string + string list" where
  "collect_lines [] = Inr []"
| "collect_lines (Inl e # ls) = Inl e"
| "collect_lines (Inr l # ls) = (case collect_lines ls of Inl e \<Rightarrow> Inl e | Inr xs \<Rightarrow> Inr (l # xs))"

section \<open>A run of a tool\<close>

record Env =
  env_args :: "string list"
  env_stdin :: stream
  env_open :: "string \<Rightarrow> string + stream"
  env_posix_to_win32 :: "string \<Rightarrow> string"

datatype Exit = Success | Failed string | Panic | ExitCode i32

record Outcome =
  out :: string
  err :: string
  ending :: Exit

definition println :: "string \<Rightarrow> string" where
  "println s = s @ [NL]"

definition finish :: "string \<Rightarrow> Exit \<Rightarrow> Outcome" where
  "finish o1 e = \<lparr>out = o1, err = [], ending = e\<rparr>"

definition printed :: "string \<Rightarrow> string \<Rightarrow> Outcome \<Rightarrow> Outcome" where
  "printed o1 e1 r = r\<lparr>out := o1 @ out r, err := e1 @ err r\<rparr>"

definition starts_with :: "string \<Rightarrow> string \<Rightarrow> bool" where
  "starts_with p s = prefix p s"

text \<open>\<open>str::parse::<usize>\<close> on a 64-bit target: an optional plus sign and decimal digits
  whose value fits.\<close>

definition digit_val :: "char \<Rightarrow> nat option" where
  "digit_val c = (if CHR ''0'' \<le> c \<and> c \<le> CHR ''9'' then Some (of_char c - 48) else None)"

fun digits_val :: "string \<Rightarrow> nat \<Rightarrow> nat option" where
  "digits_val [] n = Some n"
| "digits_val (c # cs) n =
    (case digit_val c of None \<Rightarrow> None | Some d \<Rightarrow> digits_val cs (10 * n + d))"

definition parse_usize :: "string \<Rightarrow> nat option" where
  "parse_usize s =
    (let ds = (case s of c # cs \<Rightarrow> if c = CHR ''+'' then cs else s | [] \<Rightarrow> [])
     in if ds = [] then None
        else case digits_val ds 0 of
               Some n \<Rightarrow> (if n < 2 ^ 64 then Some n else None)
             | None \<Rightarrow> None)"

definition unwrap_or :: "'a option \<Rightarrow> 'a \<Rightarrow> 'a" where
  "unwrap_or x d = (case x of Some y \<Rightarrow> y | None \<Rightarrow> d)"

text \<open>The argument loop shared by \<open>rhead\<close> and \<open>rtail\<close>.\<close>

function parse_args :: "string list \<Rightarrow> nat \<Rightarrow> string list \<Rightarrow> nat \<times> string list" where
  "parse_args args num_lines files =
    (case args of
       [] \<Rightarrow> (num_lines, files)
     | a # rest \<Rightarrow>
         (if a = ''-n'' \<and> rest \<noteq> [] then
            parse_args (tl rest) (unwrap_or (parse_usize (hd rest)) 10) files
          else if starts_with ''-n'' a then
            parse_args rest (unwrap_or (parse_usize (drop 2 a)) 10) files
          else if \<not> starts_with ''-'' a then parse_args rest num_lines (files @ [a])
          else parse_args rest num_lines files))"
  by pat_completeness auto
termination by (relation "measure (\<lambda>(args, _, _). length args)") (auto simp: less_Suc_eq_le)

declare parse_args.simps [simp del]

section \<open>rhead\<close>

fun print_lines :: "(string + string) list \<Rightarrow> string \<times> string option" where
  "print_lines [] = ([], None)"
| "print_lines (Inl e # ls) = ([], Some e)"
| "print_lines (Inr l # ls) = (let (o1, e) = print_lines ls in (println l @ o1, e))"

definition head_lines :: "nat \<Rightarrow> stream \<Rightarrow> string \<times> string option" where
  "head_lines n s = print_lines (take n (lines s))"

definition exit_of :: "string option \<Rightarrow> Exit" where
  "exit_of e = (case e of None \<Rightarrow> Success | Some m \<Rightarrow> Failed m)"

text \<open>The banner of one of several files, and the loop over the files; \<open>show\<close> prints one
  stream and says how it ended.\<close>

definition banner :: "nat \<Rightarrow> nat \<Rightarrow> string \<Rightarrow> string" where
  "banner nfiles idx f =
    (if nfiles > 1
     then (if idx > 0 then println [] else []) @ println (''==> '' @ f @ '' <=='')
     else [])"

fun show_files ::
  "string \<Rightarrow> (stream \<Rightarrow> string \<times> Exit) \<Rightarrow> Env \<Rightarrow> nat \<Rightarrow> nat \<Rightarrow> string list \<Rightarrow> Outcome" where
  "show_files tool show env nfiles idx [] = finish [] Success"
| "show_files tool show env nfiles idx (f # fs) =
    (case env_open env (env_posix_to_win32 env f) of
       Inl e \<Rightarrow>
         printed [] (println (tool @ '': '' @ f @ '': '' @ e))
           (show_files tool show env nfiles (Suc idx) fs)
     | Inr s \<Rightarrow>
         (case show s of (o1, ex) \<Rightarrow>
            if ex = Success
            then printed (banner nfiles idx f @ o1) [] (show_files tool show env nfiles (Suc idx) fs)
            else finish (banner nfiles idx f @ o1) ex))"

definition rhead :: "Env \<Rightarrow> Outcome" where
  "rhead env =
    (case parse_args (drop 1 (env_args env)) 10 [] of (num_lines, files) \<Rightarrow>
       if files = []
       then case head_lines num_lines (env_stdin env) of (o1, e) \<Rightarrow> finish o1 (exit_of e)
       else show_files ''rhead''
              (\<lambda>s. case head_lines num_lines s of (o1, e) \<Rightarrow> (o1, exit_of e))
              env (length files) 0 files)"

section \<open>rtail\<close>

text \<open>\<open>VecDeque::with_capacity\<close> panics when the buffer of 24-byte strings would exceed
  \<open>isize::MAX\<close> bytes.\<close>

definition capacity_overflow :: "nat \<Rightarrow> bool" where
  "capacity_overflow n = (24 * n > 2 ^ 63 - 1)"

fun ring_stdin :: "nat \<Rightarrow> string list \<Rightarrow> (string + string) list \<Rightarrow> string + string list" where
  "ring_stdin n ring [] = Inr ring"
| "ring_stdin n ring (Inl e # ls) = Inl e"
| "ring_stdin n ring (Inr l # ls) =
    ring_stdin n ((if length ring = n then tl ring else ring) @ [l]) ls"

fun ring_file :: "nat \<Rightarrow> string list \<Rightarrow> (string + string) list \<Rightarrow> string + string list" where
  "ring_file n ring [] = Inr ring"
| "ring_file n ring (Inl e # ls) = Inl e"
| "ring_file n ring (Inr l # ls) =
    (let ring1 = (if length ring = n \<and> n > 0 then tl ring else ring)
     in ring_file n (if n > 0 then ring1 @ [l] else ring1) ls)"

definition tail_show ::
  "(nat \<Rightarrow> string list \<Rightarrow> (string + string) list \<Rightarrow> string + string list) \<Rightarrow> nat \<Rightarrow> stream \<Rightarrow>
   string \<times> Exit" where
  "tail_show ring n s =
    (if capacity_overflow n then ([], Panic)
     else case ring n [] (lines s) of
            Inl e \<Rightarrow> ([], Failed e)
          | Inr ls \<Rightarrow> (concat (map println ls), Success))"

definition rtail :: "Env \<Rightarrow> Outcome" where
  "rtail env =
    (case parse_args (drop 1 (env_args env)) 10 [] of (num_lines, files) \<Rightarrow>
       if files = []
       then case tail_show ring_stdin num_lines (env_stdin env) of (o1, ex) \<Rightarrow> finish o1 ex
       else show_files ''rtail'' (tail_show ring_file num_lines) env (length files) 0 files)"

section \<open>rsort\<close>

text \<open>\<open>slice::sort_by\<close> is a stable sort; \<open>gt a b\<close> says that the comparison of \<open>a\<close> with \<open>b\<close>
  gave \<open>Greater\<close>.  For a comparison that is no total order the library leaves the result
  open.\<close>

fun ins_by :: "('a \<Rightarrow> 'a \<Rightarrow> bool) \<Rightarrow> 'a \<Rightarrow> 'a list \<Rightarrow> 'a list" where
  "ins_by gt x [] = [x]"
| "ins_by gt x (y # ys) = (if gt x y then y # ins_by gt x ys else x # y # ys)"

definition sort_by :: "('a \<Rightarrow> 'a \<Rightarrow> bool) \<Rightarrow> 'a list \<Rightarrow> 'a list" where
  "sort_by gt xs = foldr (ins_by gt) xs []"

fun read_files :: "Env \<Rightarrow> string list \<Rightarrow> string + string list" where
  "read_files env [] = Inr []"
| "read_files env (f # fs) =
    (case env_open env (env_posix_to_win32 env f) of
       Inl e \<Rightarrow> Inl e
     | Inr s \<Rightarrow>
         (case collect_lines (lines s) of
            Inl e \<Rightarrow> Inl e
          | Inr ls \<Rightarrow>
              (case read_files env fs of Inl e \<Rightarrow> Inl e | Inr rest \<Rightarrow> Inr (ls @ rest))))"

definition operands :: "Env \<Rightarrow> string list" where
  "operands env = filter (\<lambda>a. \<not> starts_with ''-'' a) (drop 1 (env_args env))"

definition rsort :: "(string \<Rightarrow> string \<Rightarrow> bool) \<Rightarrow> Env \<Rightarrow> Outcome" where
  "rsort num_greater env =
    (let reverse = ''-r'' \<in> set (env_args env);
         numeric = ''-n'' \<in> set (env_args env);
         files = operands env
     in case (if files = [] then collect_lines (lines (env_stdin env)) else read_files env files) of
          Inl e \<Rightarrow> finish [] (Failed e)
        | Inr ls \<Rightarrow>
            (let sorted1 = (if numeric then sort_by num_greater ls else sort_by (\<lambda>a b. b < a) ls);
                 result = (if reverse then rev sorted1 else sorted1)
             in finish (concat (map println result)) Success))"

section \<open>runiq\<close>

text \<open>The format \<open>{:7}\<close> of a number.\<close>

definition pad7 :: "nat \<Rightarrow> string" where
  "pad7 n = replicate (7 - length (dec_digits n)) (CHR '' '') @ dec_digits n"

definition print_uniq :: "string \<Rightarrow> nat \<Rightarrow> bool \<Rightarrow> bool \<Rightarrow> bool \<Rightarrow> string" where
  "print_uniq line cur_count counted duplicates_only unique_only =
    (if duplicates_only \<and> cur_count = 1 then []
     else if unique_only \<and> cur_count > 1 then []
     else if counted then println (pad7 cur_count @ '' '' @ line)
     else println line)"

fun uniq_loop :: "(string \<Rightarrow> nat \<Rightarrow> string) \<Rightarrow> string \<Rightarrow> nat \<Rightarrow> string list \<Rightarrow> string" where
  "uniq_loop pr prev cur_count [] = pr prev cur_count"
| "uniq_loop pr prev cur_count (line # ls) =
    (if line = prev then uniq_loop pr prev (cur_count + 1) ls
     else pr prev cur_count @ uniq_loop pr line 1 ls)"

definition runiq :: "Env \<Rightarrow> Outcome" where
  "runiq env =
    (let counted = ''-c'' \<in> set (env_args env);
         duplicates_only = ''-d'' \<in> set (env_args env);
         unique_only = ''-u'' \<in> set (env_args env);
         files = operands env
     in case (if files = [] then collect_lines (lines (env_stdin env))
              else case env_open env (env_posix_to_win32 env (hd files)) of
                     Inl e \<Rightarrow> Inl e | Inr s \<Rightarrow> collect_lines (lines s)) of
          Inl e \<Rightarrow> finish [] (Failed e)
        | Inr [] \<Rightarrow> finish [] Success
        | Inr (l # ls) \<Rightarrow>
            finish (uniq_loop (\<lambda>line n. print_uniq line n counted duplicates_only unique_only) l 1 ls)
              Success)"

section \<open>rcut\<close>

record CutArgs =
  delimiter :: string
  fields_str :: string
  cut_files :: "string list"

function cut_args :: "string list \<Rightarrow> CutArgs \<Rightarrow> CutArgs" where
  "cut_args args st =
    (case args of
       [] \<Rightarrow> st
     | a # rest \<Rightarrow>
         (if a = ''-d'' \<and> rest \<noteq> [] then cut_args (tl rest) (st\<lparr>delimiter := hd rest\<rparr>)
          else if starts_with ''-d'' a then cut_args rest (st\<lparr>delimiter := drop 2 a\<rparr>)
          else if a = ''-f'' \<and> rest \<noteq> [] then cut_args (tl rest) (st\<lparr>fields_str := hd rest\<rparr>)
          else if starts_with ''-f'' a then cut_args rest (st\<lparr>fields_str := drop 2 a\<rparr>)
          else if \<not> starts_with ''-'' a then cut_args rest (st\<lparr>cut_files := cut_files st @ [a]\<rparr>)
          else cut_args rest st))"
  by pat_completeness auto
termination by (relation "measure (\<lambda>(args, _). length args)") (auto simp: less_Suc_eq_le)

declare cut_args.simps [simp del]

definition selected_indices :: "string \<Rightarrow> nat list" where
  "selected_indices fs =
    map (\<lambda>idx. if idx > 0 then idx - 1 else 0) (List.map_filter parse_usize (split_on (CHR '','') fs))"

text \<open>\<open>str::split\<close> on a string: the pieces between its leftmost disjoint occurrences; the
  empty string occurs before and after every character.\<close>

function split_acc :: "string \<Rightarrow> string \<Rightarrow> string \<Rightarrow> string list" where
  "split_acc d acc s =
    (if d \<noteq> [] \<and> prefix d s then rev acc # split_acc d [] (drop (length d) s)
     else case s of [] \<Rightarrow> [rev acc] | c # cs \<Rightarrow> split_acc d (c # acc) cs)"
  by pat_completeness auto
termination
  by (relation "measure (\<lambda>(_, _, s). length s)") (auto simp: prefix_def)

declare split_acc.simps [simp del]

function str_chars :: "bytes \<Rightarrow> bytes list" where
  "str_chars bs =
    (if bs = [] then []
     else let w = max 1 (utf8_width bs) in take w bs # str_chars (drop w bs))"
  by pat_completeness auto
termination by (relation "measure length") (auto simp: Let_def)

declare str_chars.simps [simp del]

definition split_str :: "string \<Rightarrow> string \<Rightarrow> string list" where
  "split_str d s =
    (if d = [] then [[]] @ map from_bytes (str_chars (as_bytes s)) @ [[]] else split_acc d [] s)"

fun join :: "string \<Rightarrow> string list \<Rightarrow> string" where
  "join d [] = []"
| "join d [p] = p"
| "join d (p # q # ps) = p @ d @ join d (q # ps)"

definition process_line :: "string \<Rightarrow> nat list \<Rightarrow> string \<Rightarrow> string" where
  "process_line d selected line =
    (if selected = [] then println line
     else let parts = split_str d line;
              picked = List.map_filter (\<lambda>i. if i < length parts then Some (parts ! i) else None) selected
          in println (join d picked))"

fun cut_lines :: "(string \<Rightarrow> string) \<Rightarrow> (string + string) list \<Rightarrow> string \<times> string option" where
  "cut_lines f [] = ([], None)"
| "cut_lines f (Inl e # ls) = ([], Some e)"
| "cut_lines f (Inr l # ls) = (let (o1, e) = cut_lines f ls in (f l @ o1, e))"

fun cut_loop :: "(string \<Rightarrow> string) \<Rightarrow> Env \<Rightarrow> string list \<Rightarrow> Outcome" where
  "cut_loop f env [] = finish [] Success"
| "cut_loop f env (p # ps) =
    (case env_open env (env_posix_to_win32 env p) of
       Inl e \<Rightarrow> finish [] (Failed e)
     | Inr s \<Rightarrow>
         (case cut_lines f (lines s) of
            (o1, Some e) \<Rightarrow> finish o1 (Failed e)
          | (o1, None) \<Rightarrow> printed o1 [] (cut_loop f env ps)))"

definition rcut :: "Env \<Rightarrow> Outcome" where
  "rcut env =
    (let a = cut_args (drop 1 (env_args env))
               \<lparr>delimiter = [CHR 0x09], fields_str = [], cut_files = []\<rparr>;
         f = process_line (delimiter a) (selected_indices (fields_str a))
     in if cut_files a = []
        then case cut_lines f (lines (env_stdin env)) of (o1, e) \<Rightarrow> finish o1 (exit_of e)
        else cut_loop f env (cut_files a))"


section \<open>What was read, and reading it back\<close>

lemma finish_sel [simp]: "out (finish o1 e) = o1" "err (finish o1 e) = []" "ending (finish o1 e) = e"
  by (simp_all add: finish_def)

lemma collect_lines_map [simp]: "collect_lines (map Inr xs) = Inr xs"
  by (induction xs) simp_all

lemma collect_lines_Inr: "collect_lines ls = Inr xs \<longleftrightarrow> ls = map Inr xs"
proof
  show "collect_lines ls = Inr xs \<Longrightarrow> ls = map Inr xs"
    by (induction ls arbitrary: xs rule: collect_lines.induct) (auto split: sum.splits)
qed simp

lemma raw_lines_append: "NL \<notin> set l \<Longrightarrow> raw_lines (l @ NL # cs) = (l @ [NL]) # raw_lines cs"
  by (induction l) auto

lemma raw_lines_pieces: "l \<in> set (raw_lines cs) \<Longrightarrow> l \<noteq> [] \<and> NL \<notin> set (butlast l)"
proof (induction cs arbitrary: l)
  case (Cons c cs)
  show ?case
  proof (cases "c = NL")
    case True
    then show ?thesis using Cons by auto
  next
    case False
    then show ?thesis using Cons
      by (cases "raw_lines cs") (auto split: if_splits)
  qed
qed simp

lemma chomp_no_newline: "l \<noteq> [] \<and> NL \<notin> set (butlast l) \<Longrightarrow> NL \<notin> set (chomp l)"
  by (cases l rule: rev_cases) (auto simp: chomp_def Let_def dest: in_set_butlastD)

lemma ascii_byte: "c \<in> {NL, CR} \<Longrightarrow> byte_of c < 0x80 \<and> \<not> cont_byte (byte_of c)"
  by (auto simp: byte_of_def cont_byte_def)

text \<open>A trailing ASCII byte does not matter to UTF-8 validity.\<close>

lemma utf8_width_snoc:
  assumes "b < 0x80" "xs \<noteq> []"
  shows "utf8_width (xs @ [b]) = utf8_width xs"
proof (cases "0 < utf8_width xs")
  case False
  obtain a as where xs: "xs = a # as" using assms(2) by (cases xs) auto
  have nc: "\<not> cont_byte b" using assms(1) by (auto simp: cont_byte_def)
  show ?thesis
    using False nc xs
    by (cases as; cases "tl as"; cases "tl (tl as)")
      (auto simp: utf8_width_def utf8_need_def second_ok_def Let_def list_all_def split: if_splits)
qed (rule utf8_width_append)

lemma utf8_valid_snoc: "b < 0x80 \<Longrightarrow> utf8_valid (xs @ [b]) = utf8_valid xs"
proof (induction xs rule: utf8_valid.induct)
  case (1 xs)
  show ?case
  proof (cases "xs = []")
    case True
    then show ?thesis using 1 by (simp add: utf8_valid_ascii)
  next
    case False
    then show ?thesis
      using 1 utf8_width_snoc[OF 1(2) False] utf8_width_le[of xs]
      by (simp add: utf8_valid.simps[of "xs @ [b]"] utf8_valid.simps[of xs])
  qed
qed

lemma is_str_snoc: "c \<in> {NL, CR} \<Longrightarrow> is_str (s @ [c]) = is_str s"
  using ascii_byte[of c] by (auto simp: is_str_def as_bytes_def utf8_valid_snoc)

lemma is_str_chomp: "is_str l \<Longrightarrow> is_str (chomp l)"
proof (cases "l \<noteq> [] \<and> last l = NL")
  case True
  assume str: "is_str l"
  have l: "l = butlast l @ [NL]" using True append_butlast_last_id[of l] by simp
  then have m: "is_str (butlast l)" using str is_str_snoc[of NL "butlast l"] by simp
  show ?thesis
  proof (cases "butlast l \<noteq> [] \<and> last (butlast l) = CR")
    case True2: True
    then have "butlast l = butlast (butlast l) @ [CR]"
      using append_butlast_last_id[of "butlast l"] by simp
    then show ?thesis
      using m True True2 is_str_snoc[of CR "butlast (butlast l)"] by (simp add: chomp_def Let_def)
  qed (use True m in \<open>auto simp: chomp_def Let_def\<close>)
qed (auto simp: chomp_def)

text \<open>The lines that were read, printed and read again are the same lines, provided none
  of them ends in a carriage return.\<close>

lemma lines_of_stream:
  assumes "collect_lines (lines s) = Inr xs" "x \<in> set xs"
  shows "is_str x \<and> NL \<notin> set x"
proof -
  have "map Inr xs = lines s" using assms(1) by (simp add: collect_lines_Inr)
  then have "(Inr x :: string + string) \<in> set (lines s)" using assms(2) by (metis image_eqI set_map)
  then obtain l where "l \<in> set (raw_lines (fst s))" "is_str l" "x = chomp l"
    by (auto simp: lines_def line_result_def split: option.splits if_splits)
  then show ?thesis using raw_lines_pieces chomp_no_newline is_str_chomp by metis
qed

lemma lines_println:
  assumes "\<forall>x\<in>set xs. is_str x \<and> NL \<notin> set x \<and> (x \<noteq> [] \<longrightarrow> last x \<noteq> CR)"
  shows "collect_lines (lines (concat (map println xs), None)) = Inr xs"
proof -
  have raw: "raw_lines (concat (map println xs)) = map println xs"
    using assms by (induction xs) (simp_all add: println_def raw_lines_append)
  have "line_result (println x) = Inr x" if "x \<in> set xs" for x
    using assms that by (auto simp: line_result_def println_def is_str_snoc chomp_def Let_def)
  then show ?thesis by (simp add: collect_lines_Inr lines_def raw cong: map_cong)
qed

section \<open>The tools\<close>

subsection \<open>rtail\<close>

lemma drop_last_snoc:
  "0 < n \<Longrightarrow> (if length (drop (length ys - n) ys) = n then tl (drop (length ys - n) ys)
      else drop (length ys - n) ys) @ [x] = drop (length (ys @ [x]) - n) (ys @ [x])"
  by (auto simp: Suc_diff_le drop_Suc tl_drop)

lemma ring_stdin_last:
  "0 < n \<Longrightarrow> ring_stdin n (drop (length ys - n) ys) (map Inr xs) =
     Inr (drop (length (ys @ xs) - n) (ys @ xs))"
proof (induction xs arbitrary: ys)
  case (Cons x xs)
  then show ?case using Cons.IH[of "ys @ [x]"] drop_last_snoc[OF Cons.prems, of ys x] by simp
qed simp

lemma ring_stdin_zero: "ring_stdin 0 ys (map Inr xs) = Inr (ys @ xs)"
  by (induction xs arbitrary: ys) auto

lemma ring_file_eq: "0 < n \<Longrightarrow> ring_file n ring ls = ring_stdin n ring ls"
  by (induction n ring ls rule: ring_stdin.induct) auto

lemma ring_file_zero: "ring_file 0 [] (map Inr xs) = Inr []"
  by (induction xs) auto

text \<open>The last lines of a stream.  Of a file, \<open>rtail -n N\<close> prints exactly the last \<open>N\<close>
  lines, all of them when there are fewer, and none for \<open>N = 0\<close>; of the standard input the
  same, except that \<open>N = 0\<close> prints every line.  A count whose ring buffer cannot be allocated
  panics before anything is read.\<close>

theorem rtail_prints_last_lines:
  assumes "parse_args (drop 1 (env_args env)) 10 [] = (n, files)"
  shows "(files = [] \<and> collect_lines (lines (env_stdin env)) = Inr xs \<longrightarrow> rtail env =
       (if capacity_overflow n then finish [] Panic
        else finish (concat (map println (if n = 0 then xs else drop (length xs - n) xs))) Success)) \<and>
    (files = [f] \<and> env_open env (env_posix_to_win32 env f) = Inr s \<and>
       collect_lines (lines s) = Inr ys \<longrightarrow> rtail env =
       (if capacity_overflow n then finish [] Panic
        else finish (concat (map println (drop (length ys - n) ys))) Success))"
proof -
  have last: "ring_stdin n [] (map Inr zs) = Inr (drop (length zs - n) zs)" if "0 < n" for zs
    using ring_stdin_last[OF that, of "[]" zs] by simp
  show ?thesis
    using assms last
    by (cases "n = 0") (auto simp: rtail_def tail_show_def collect_lines_Inr ring_stdin_zero
        ring_file_zero ring_file_eq banner_def printed_def finish_def)
qed

subsection \<open>rsort and runiq\<close>

text \<open>The stable insertion is the library's sort by any linearly ordered key.\<close>

lemma ins_by_insort: "(\<And>a b. gt a b \<longleftrightarrow> key b < key a) \<Longrightarrow> ins_by gt x ys = insort_key key x ys"
  by (induction ys) auto

lemma sort_by_sort_key: "(\<And>a b. gt a b \<longleftrightarrow> key b < key a) \<Longrightarrow> sort_by gt xs = sort_key key xs"
  by (induction xs) (simp_all add: sort_by_def ins_by_insort[of gt key])

text \<open>The runs of equal adjacent lines, with their lengths.\<close>

fun runs_from :: "'a \<Rightarrow> nat \<Rightarrow> 'a list \<Rightarrow> ('a \<times> nat) list" where
  "runs_from p k [] = [(p, k)]"
| "runs_from p k (x # xs) = (if x = p then runs_from p (Suc k) xs else (p, k) # runs_from x 1 xs)"

definition runs :: "'a list \<Rightarrow> ('a \<times> nat) list" where
  "runs xs = (case xs of [] \<Rightarrow> [] | x # ys \<Rightarrow> runs_from x 1 ys)"

lemma runs_from_concat:
  "concat (map (\<lambda>(l, k). replicate k l) (runs_from p k xs)) = replicate k p @ xs"
  by (induction p k xs rule: runs_from.induct) (auto simp: replicate_app_Cons_same)

lemma fst_hd_runs_from: "runs_from p k xs \<noteq> [] \<and> fst (hd (runs_from p k xs)) = p"
  by (induction p k xs rule: runs_from.induct) auto

lemma runs_from_adjacent: "distinct_adj (map fst (runs_from p k xs))"
proof (induction p k xs rule: runs_from.induct)
  case (2 p k x xs)
  then show ?case
    using fst_hd_runs_from[of x 1 xs] by (cases "runs_from x 1 xs") auto
qed simp

lemma runs_from_pos: "0 < k \<Longrightarrow> (l, j) \<in> set (runs_from p k xs) \<Longrightarrow> 0 < j"
  by (induction p k xs rule: runs_from.induct) (auto split: if_splits)

lemma uniq_loop_runs:
  "uniq_loop pr p k xs = concat (map (\<lambda>(l, j). pr l j) (runs_from p k xs))"
  by (induction p k xs rule: runs_from.induct) auto

text \<open>Which runs are printed, and how.\<close>

lemma runiq_stdin:
  assumes "operands env = []" "collect_lines (lines (env_stdin env)) = Inr xs"
  shows "runiq env = finish (concat (map (\<lambda>(l, k).
      print_uniq l k (''-c'' \<in> set (env_args env)) (''-d'' \<in> set (env_args env))
        (''-u'' \<in> set (env_args env))) (runs xs))) Success"
  using assms by (cases xs) (simp_all add: runiq_def runs_def uniq_loop_runs)

lemma sorted_runs_from:
  "sorted (p # xs) \<Longrightarrow> map fst (runs_from p k xs) = sorted_list_of_set (set (p # xs))"
proof (induction p k xs rule: runs_from.induct)
  case (2 p k x xs)
  show ?case
  proof (cases "x = p")
    case True
    then show ?thesis using 2 by simp
  next
    case False
    then have "\<forall>y\<in>set (x # xs). p < y" using 2(3) by fastforce
    then have "Min (insert p (set (x # xs))) = p" "insert p (set (x # xs)) - {p} = set (x # xs)"
      by (auto intro!: Min_eqI)
    then have "sorted_list_of_set (insert p (set (x # xs))) = p # sorted_list_of_set (set (x # xs))"
      using sorted_list_of_set_nonempty[of "insert p (set (x # xs))"] by simp
    then show ?thesis using 2(2)[OF False] 2(3) False by simp
  qed
qed simp

text \<open>Sorting and dropping repeated lines, composed as a pipeline: with the output of
  \<open>rsort\<close> as its standard input, \<open>runiq\<close> prints every line that was read exactly once, in the
  order of the bytes.  Lines ending in a carriage return are excluded, because the second
  reader would take it for a part of the line ending.\<close>

theorem sort_uniq_pipeline:
  assumes "operands env = []" "''-n'' \<notin> set (env_args env)" "''-r'' \<notin> set (env_args env)"
    and "collect_lines (lines (env_stdin env)) = Inr xs"
    and "\<forall>x\<in>set xs. x \<noteq> [] \<longrightarrow> last x \<noteq> CR"
    and "env_args env' = [''runiq'']" "env_stdin env' = (out (rsort num_greater env), None)"
  shows "runiq env' = finish (concat (map println (sorted_list_of_set (set xs)))) Success"
proof -
  have out: "out (rsort num_greater env) = concat (map println (sort xs))"
    using assms(1-4) by (simp add: rsort_def sort_by_sort_key[where key = "\<lambda>x. x"])
  have "collect_lines (lines (env_stdin env')) = Inr (sort xs)"
    unfolding assms(7) out using assms(5) lines_of_stream[OF assms(4)]
    by (intro lines_println) auto
  moreover have "operands env' = []" using assms(6) by (simp add: operands_def)
  ultimately have uniq: "runiq env' = finish (concat (map println (map fst (runs (sort xs))))) Success"
    using assms(6) by (simp add: runiq_stdin print_uniq_def comp_def split_def)
  have "map fst (runs (sort xs)) = sorted_list_of_set (set xs)"
  proof (cases "sort xs")
    case (Cons y ys)
    then have "set (y # ys) = set xs" "sorted (y # ys)"
      by (metis set_sort, metis sorted_sort)
    then show ?thesis using sorted_runs_from[of y ys 1] Cons by (simp add: runs_def)
  next
    case Nil
    then have "xs = []" by (metis length_0_conv length_sort)
    then show ?thesis by (simp add: runs_def)
  qed
  then show ?thesis using uniq by simp
qed

definition sort_env :: Env where
  "sort_env = \<lparr>env_args = [''rsort''], env_stdin = (''b'' @ [NL] @ ''a'' @ [NL] @ ''b'', None),
     env_open = (\<lambda>_. Inl ''not found''), env_posix_to_win32 = (\<lambda>p. p)\<rparr>"

definition uniq_env :: Env where
  "uniq_env = sort_env\<lparr>env_args := [''runiq''], env_stdin := (out (rsort (\<lambda>_ _. False) sort_env), None)\<rparr>"

theorem sort_uniq_pipeline_witness:
  "runiq uniq_env = finish (''a'' @ [NL] @ ''b'' @ [NL]) Success"
proof -
  have str: "is_str [CHR ''b'', NL]" "is_str [CHR ''a'', NL]" "is_str ''b''"
    by (simp_all add: is_str_def as_bytes_def byte_of_def utf8_valid_ascii)
  have "collect_lines (lines (env_stdin sort_env)) = Inr [''b'', ''a'', ''b'']"
    using str by (simp add: sort_env_def lines_def line_result_def chomp_def)
  then have "runiq uniq_env = finish (concat (map println (sorted_list_of_set (set [''b'', ''a'', ''b''])))) Success"
    by (intro sort_uniq_pipeline[where env = sort_env and num_greater = "\<lambda>_ _. False"])
      (simp_all add: sort_env_def uniq_env_def operands_def)
  moreover have "sorted_list_of_set (set [''b'', ''a'', ''b'']) = [''a'', ''b'']"
    by (subst sorted_list_of_set_sort_remdups) (simp add: less_eq_char_def less_char_def)
  ultimately show ?thesis by (simp add: println_def)
qed

theorem rtail_prints_last_lines_witness:
  "rtail (sort_env\<lparr>env_args := [''rtail'', ''-n'', ''0'']\<rparr>) =
     finish (''b'' @ [NL] @ ''a'' @ [NL] @ ''b'' @ [NL]) Success"
proof -
  let ?e = "sort_env\<lparr>env_args := [''rtail'', ''-n'', ''0'']\<rparr>"
  have str: "is_str [CHR ''b'', NL]" "is_str [CHR ''a'', NL]" "is_str ''b''"
    by (simp_all add: is_str_def as_bytes_def byte_of_def utf8_valid_ascii)
  have "collect_lines (lines (env_stdin ?e)) = Inr [''b'', ''a'', ''b'']"
    using str by (simp add: sort_env_def lines_def line_result_def chomp_def)
  moreover have "parse_args (drop 1 (env_args ?e)) 10 [] = (0, [])"
    by (simp add: parse_args.simps starts_with_def parse_usize_def digit_val_def unwrap_or_def
        less_eq_char_def)
  ultimately show ?thesis
    using rtail_prints_last_lines[of ?e 0 "[]" "[''b'', ''a'', ''b'']"]
    by (simp add: capacity_overflow_def println_def)
qed

subsection \<open>rcut\<close>

lemma join_Cons: "ps \<noteq> [] \<Longrightarrow> join d (p # ps) = p @ d @ join d ps"
  by (cases ps) simp_all

lemma split_acc_not_Nil: "split_acc d acc s \<noteq> []"
  by (induction d acc s rule: split_acc.induct) (subst split_acc.simps, auto split: list.splits)

lemma join_split_acc: "join d (split_acc d acc s) = rev acc @ s"
proof (induction d acc s rule: split_acc.induct)
  case (1 d acc s)
  show ?case
  proof (cases "d \<noteq> [] \<and> prefix d s")
    case True
    then have "s = d @ drop (length d) s" by (auto simp: prefix_def)
    then show ?thesis
      using 1(1)[OF True] True by (subst split_acc.simps) (simp add: join_Cons split_acc_not_Nil)
  next
    case False
    then show ?thesis using 1(2)[OF False] by (subst split_acc.simps) (cases s; auto)
  qed
qed

lemma map_filter_nth_upt:
  "List.map_filter (\<lambda>i. if i < length ps then Some (ps ! i) else None) [0..<length ps + k] = ps"
proof -
  have "List.map_filter (\<lambda>i. if i < length ps then Some (ps ! i) else None) [0..<length ps] = ps"
    by (auto simp: List.map_filter_def intro: nth_equalityI)
  then show ?thesis
    by (simp add: upt_add_eq_append[of 0] List.map_filter_def filter_empty_conv)
qed

text \<open>Selecting all fields, and more than there are, prints the line as it is.\<close>

lemma process_line_all_fields:
  assumes "d \<noteq> []"
  shows "process_line d [0..<length (split_str d l) + k] l = println l"
proof -
  have "0 < length (split_str d l)" using assms by (simp add: split_str_def split_acc_not_Nil)
  then show ?thesis
    using assms join_split_acc[of d "[]" l]
    by (simp add: process_line_def Let_def map_filter_nth_upt split_str_def)
qed

end
