(* ===== verification/Signals.thy ===== *)
theory Signals
  imports Platform_Error
begin

text \<open>
  Deferred signals: the portable identities of \<open>platform/src/events.rs\<close>, the scripted
  source of \<open>platform-mock/src/signals.rs\<close> and the Linux source
  (\<open>platform-linux/src/signals.rs\<close> and \<open>platform-linux/src/sys/signals.rs\<close>).  Both keep one
  atomic slot: the handler stores into it and \<open>take\<close> swaps it with zero, so each operation
  is one step on the slot.  \<open>signal_slot\<close> is the contract of the trait \<open>SignalSource\<close>.
\<close>

section \<open>The sources\<close>

datatype SignalEvent = Interrupt | Terminate | Hangup

definition code_of :: "SignalEvent \<Rightarrow> u32" where
  "code_of event = (case event of Interrupt \<Rightarrow> 1 | Terminate \<Rightarrow> 2 | Hangup \<Rightarrow> 3)"

definition event_of :: "u32 \<Rightarrow> SignalEvent option" where
  "event_of code =
    (if code = 1 then Some Interrupt else if code = 2 then Some Terminate
     else if code = 3 then Some Hangup else None)"

definition mock_raise :: "u32 \<Rightarrow> SignalEvent \<Rightarrow> u32" where
  "mock_raise slot event = code_of event"

definition mock_install :: "u32 \<Rightarrow> SignalEvent list \<Rightarrow> unit result \<times> u32" where
  "mock_install slot events = (Ok (), slot)"

definition mock_take :: "u32 \<Rightarrow> SignalEvent option \<times> u32" where
  "mock_take slot = (event_of slot, 0)"

text \<open>The Linux source.  \<open>sigaction\<close> answers an installation with an error number, if it
  fails; the state is the slot \<open>PENDING\<close> and the signal numbers with our handler.\<close>

abbreviation SIGHUP :: i32 where "SIGHUP \<equiv> 1"
abbreviation SIGINT :: i32 where "SIGINT \<equiv> 2"
abbreviation SIGTERM :: i32 where "SIGTERM \<equiv> 15"

record LinuxSignals =
  pending :: i32
  handled :: "i32 list"

definition signum_of :: "SignalEvent \<Rightarrow> i32" where
  "signum_of event = (case event of Interrupt \<Rightarrow> SIGINT | Terminate \<Rightarrow> SIGTERM | Hangup \<Rightarrow> SIGHUP)"

definition linux_event_of :: "i32 \<Rightarrow> SignalEvent option" where
  "linux_event_of signum =
    (if signum = SIGINT then Some Interrupt else if signum = SIGTERM then Some Terminate
     else if signum = SIGHUP then Some Hangup else None)"

definition handler_record :: "LinuxSignals \<Rightarrow> i32 \<Rightarrow> LinuxSignals" where
  "handler_record st signum = st\<lparr>pending := signum\<rparr>"

definition sys_install ::
  "(i32 \<Rightarrow> i32 option) \<Rightarrow> LinuxSignals \<Rightarrow> i32 \<Rightarrow> unit result \<times> LinuxSignals" where
  "sys_install sigaction st signum =
    (case sigaction signum of
       Some code \<Rightarrow> (Err (with_path (new_error InvalidInput (Errno code) ''signal'') []), st)
     | None \<Rightarrow> (Ok (), st\<lparr>handled := signum # handled st\<rparr>))"

fun linux_install ::
  "(i32 \<Rightarrow> i32 option) \<Rightarrow> LinuxSignals \<Rightarrow> SignalEvent list \<Rightarrow> unit result \<times> LinuxSignals" where
  "linux_install sigaction st [] = (Ok (), st)"
| "linux_install sigaction st (event # events) =
    (case sys_install sigaction st (signum_of event) of
       (Err e, st1) \<Rightarrow> (Err e, st1)
     | (Ok _, st1) \<Rightarrow> linux_install sigaction st1 events)"

definition sys_take :: "LinuxSignals \<Rightarrow> i32 option \<times> LinuxSignals" where
  "sys_take st = (if pending st = 0 then None else Some (pending st), st\<lparr>pending := 0\<rparr>)"

definition linux_take :: "LinuxSignals \<Rightarrow> SignalEvent option \<times> LinuxSignals" where
  "linux_take st = (case sys_take st of (s, st1) \<Rightarrow> (Option.bind s linux_event_of, st1))"

text \<open>The kernel delivers a signal by running the handler that is installed for it.\<close>

definition linux_raise :: "LinuxSignals \<Rightarrow> SignalEvent \<Rightarrow> LinuxSignals" where
  "linux_raise st event =
    (if signum_of event \<in> set (handled st) then handler_record st (signum_of event) else st)"

section \<open>The contract\<close>

text \<open>\<open>slot st\<close> is the event that waits in state \<open>st\<close>, and \<open>ready\<close> says that the source is
  installed for an event.\<close>

locale signal_slot =
  fixes slot :: "'s \<Rightarrow> SignalEvent option"
    and ready :: "'s \<Rightarrow> SignalEvent \<Rightarrow> bool"
    and raise :: "'s \<Rightarrow> SignalEvent \<Rightarrow> 's"
    and take_event :: "'s \<Rightarrow> SignalEvent option \<times> 's"
  assumes slot_raise: "slot (raise s e) = (if ready s e then Some e else slot s)"
    and take_value: "fst (take_event s) = slot s"
    and take_clears: "slot (snd (take_event s)) = None"
    and ready_raise: "ready (raise s e) = ready s"
    and ready_take: "ready (snd (take_event s)) = ready s"
begin

text \<open>A burst of events: only the last one for which the source is installed survives.\<close>

lemma slot_burst:
  "slot (foldl raise s es) =
    (case filter (ready s) (rev es) of [] \<Rightarrow> slot s | e # _ \<Rightarrow> Some e)"
proof (induction es rule: rev_induct)
  case (snoc e es)
  have "ready (foldl raise s es) = ready s"
    by (induction es rule: rev_induct) (simp_all add: ready_raise)
  then show ?case using snoc by (simp add: slot_raise)
qed simp

lemma take_burst:
  assumes "ready s e"
  shows "fst (take_event (foldl raise s (es @ [e]))) = Some e"
    and "fst (take_event (snd (take_event s'))) = None"
  using assms slot_burst[of s "es @ [e]"] by (simp_all add: take_value take_clears)

lemma raise_after_take:
  "ready s e \<Longrightarrow> fst (take_event (raise (snd (take_event s)) e)) = Some e"
  by (simp add: take_value slot_raise ready_take)

end

lemma event_of_code_of [simp]: "event_of (code_of e) = Some e"
  by (cases e) (simp_all add: event_of_def code_of_def)

lemma linux_event_of_signum_of [simp]: "linux_event_of (signum_of e) = Some e"
  by (cases e) (simp_all add: linux_event_of_def signum_of_def)

lemma event_of_0 [simp]: "event_of 0 = None" "linux_event_of 0 = None"
  by (simp_all add: event_of_def linux_event_of_def)

lemma signum_of_not_0 [simp]: "signum_of e \<noteq> 0"
  by (cases e) (simp_all add: signum_of_def)

interpretation mock_signals: signal_slot event_of "\<lambda>_ _. True" mock_raise mock_take
  by unfold_locales (simp_all add: mock_raise_def mock_take_def)

definition linux_slot :: "LinuxSignals \<Rightarrow> SignalEvent option" where
  "linux_slot st = linux_event_of (pending st)"

definition linux_ready :: "LinuxSignals \<Rightarrow> SignalEvent \<Rightarrow> bool" where
  "linux_ready st e \<longleftrightarrow> signum_of e \<in> set (handled st)"

interpretation linux_signals: signal_slot linux_slot linux_ready linux_raise linux_take
  by unfold_locales
    (auto simp: linux_slot_def linux_ready_def linux_raise_def handler_record_def linux_take_def
      sys_take_def fun_eq_iff)

section \<open>Bursts\<close>

lemma linux_install_ready:
  "linux_install sigaction st es = (Ok (), st') \<Longrightarrow>
     handled st' = rev (map signum_of es) @ handled st \<and> pending st' = pending st"
proof (induction es arbitrary: st)
  case (Cons e es)
  then show ?case
    by (cases "sigaction (signum_of e)") (auto simp: sys_install_def split: prod.splits)
qed simp

text \<open>Deferred delivery on both sources: after a burst of signals of which the last is one
  that was installed, \<open>take\<close> gives exactly that last one and the next \<open>take\<close> gives nothing, so a
  burst coalesces to its most recent event and no event is reported twice.\<close>

theorem signal_burst_coalesces:
  assumes "linux_install sigaction st events = (Ok (), st1)" "e \<in> set events"
  shows "fst (linux_take (foldl linux_raise st1 (es @ [e]))) = Some e \<and>
    fst (linux_take (snd (linux_take (foldl linux_raise st1 (es @ [e]))))) = None \<and>
    fst (mock_take (foldl mock_raise slot (es @ [e]))) = Some e \<and>
    fst (mock_take (snd (mock_take (foldl mock_raise slot (es @ [e]))))) = None"
proof -
  have "linux_ready st1 e"
    using linux_install_ready[OF assms(1)] assms(2) by (simp add: linux_ready_def)
  then show ?thesis
    by (intro conjI linux_signals.take_burst(1) linux_signals.take_burst(2)
        mock_signals.take_burst(1) mock_signals.take_burst(2)) simp_all
qed

theorem signal_burst_coalesces_witness:
  "fst (linux_take (foldl linux_raise \<lparr>pending = 0, handled = [SIGTERM, SIGINT]\<rparr>
      [Interrupt, Hangup, Terminate])) = Some Terminate"
  using signal_burst_coalesces[of "\<lambda>_. None" "\<lparr>pending = 0, handled = []\<rparr>" "[Interrupt, Terminate]"
      "\<lparr>pending = 0, handled = [SIGTERM, SIGINT]\<rparr>" Terminate "[Interrupt, Hangup]"]
  by (simp add: sys_install_def signum_of_def)

end
