(* ===== verification/Terminal.thy ===== *)
theory Terminal
  imports Platform_Error
begin

text \<open>
  The terminal surface (\<open>platform/src/term.rs\<close>), the scripted terminal of
  \<open>platform-mock/src/term.rs\<close>, and the consumer of \<open>coreutils/src/term_report.rs\<close> with the
  raw-mode probe of \<open>rterm\<close>.  \<open>raw_terminal\<close> is the part of the trait's contract the consumer
  relies on: entering raw mode succeeds exactly on a terminal, leaving restores.
\<close>

section \<open>The scripted terminal\<close>

datatype TermStream = Stdin | Stdout | Stderr

record WinSize =
  rows :: u16
  cols :: u16

record MockTerminal =
  stdin_tty :: bool
  stdout_tty :: bool
  stderr_tty :: bool
  term_size :: "WinSize option"
  raw :: bool
  raw_transitions :: u32
  echo :: bool
  pending_input :: bytes

definition terminal_default :: MockTerminal where
  "terminal_default = \<lparr>stdin_tty = False, stdout_tty = False, stderr_tty = False, term_size = None,
     raw = False, raw_transitions = 0, echo = False, pending_input = []\<rparr>"

definition terminal_new :: MockTerminal where
  "terminal_new = terminal_default\<lparr>echo := True\<rparr>"

definition interactive :: "u16 \<Rightarrow> u16 \<Rightarrow> MockTerminal" where
  "interactive r c = terminal_default\<lparr>stdin_tty := True, stdout_tty := True, stderr_tty := True,
     term_size := Some \<lparr>rows = r, cols = c\<rparr>, echo := True\<rparr>"

definition set_tty :: "MockTerminal \<Rightarrow> TermStream \<Rightarrow> bool \<Rightarrow> MockTerminal" where
  "set_tty t stream tty =
    (case stream of Stdin \<Rightarrow> t\<lparr>stdin_tty := tty\<rparr> | Stdout \<Rightarrow> t\<lparr>stdout_tty := tty\<rparr>
     | Stderr \<Rightarrow> t\<lparr>stderr_tty := tty\<rparr>)"

definition push_input :: "MockTerminal \<Rightarrow> bytes \<Rightarrow> MockTerminal" where
  "push_input t bs = t\<lparr>pending_input := pending_input t @ bs\<rparr>"

definition force_raw :: "MockTerminal \<Rightarrow> bool \<Rightarrow> MockTerminal" where
  "force_raw t r = t\<lparr>raw := r\<rparr>"

definition not_a_tty :: "string \<Rightarrow> PlatformError" where
  "not_a_tty op = new_error Other NoCode op"

definition is_tty :: "MockTerminal \<Rightarrow> TermStream \<Rightarrow> bool" where
  "is_tty t stream =
    (case stream of Stdin \<Rightarrow> stdin_tty t | Stdout \<Rightarrow> stdout_tty t | Stderr \<Rightarrow> stderr_tty t)"

definition window_size :: "MockTerminal \<Rightarrow> WinSize result" where
  "window_size t = (case term_size t of Some s \<Rightarrow> Ok s | None \<Rightarrow> Err (not_a_tty ''window_size''))"

definition enter_raw :: "MockTerminal \<Rightarrow> unit result \<times> MockTerminal" where
  "enter_raw t =
    (if \<not> stdin_tty t then (Err (not_a_tty ''enter_raw''), t)
     else if \<not> raw t then (Ok (), t\<lparr>raw := True, raw_transitions := raw_transitions t + 1\<rparr>)
     else (Ok (), t))"

definition leave_raw :: "MockTerminal \<Rightarrow> unit result \<times> MockTerminal" where
  "leave_raw t = (Ok (), t\<lparr>raw := False\<rparr>)"

definition is_raw :: "MockTerminal \<Rightarrow> bool" where
  "is_raw t = raw t"

definition poll_readable :: "MockTerminal \<Rightarrow> nat option \<Rightarrow> bool result" where
  "poll_readable t timeout = Ok (pending_input t \<noteq> [])"

definition read_chunk :: "MockTerminal \<Rightarrow> nat \<Rightarrow> bytes result \<times> MockTerminal" where
  "read_chunk t len =
    (let n = min (length (pending_input t)) len
     in (Ok (take n (pending_input t)), t\<lparr>pending_input := drop n (pending_input t)\<rparr>))"

definition set_echo :: "MockTerminal \<Rightarrow> bool \<Rightarrow> bool result \<times> MockTerminal" where
  "set_echo t on =
    (if \<not> stdin_tty t then (Err (not_a_tty ''set_echo''), t) else (Ok (echo t), t\<lparr>echo := on\<rparr>))"

section \<open>The consumer\<close>

definition report :: "(TermStream \<Rightarrow> bool) \<Rightarrow> WinSize result \<Rightarrow> string" where
  "report tty sz =
    concat (map (\<lambda>(name, stream).
      name @ '': '' @ (if tty stream then ''tty'' else ''not a tty'') @ [CHR 0x0A])
      [(''stdin'', Stdin), (''stdout'', Stdout), (''stderr'', Stderr)]) @
    (case sz of
       Ok s \<Rightarrow> ''size: '' @ dec_digits (unat (rows s)) @ '' rows x '' @ dec_digits (unat (cols s)) @
         '' cols'' @ [CHR 0x0A]
     | Err _ \<Rightarrow> ''size: unavailable (no terminal attached)'' @ [CHR 0x0A])"

definition with_raw ::
  "('t \<Rightarrow> unit result \<times> 't) \<Rightarrow> ('t \<Rightarrow> unit result \<times> 't) \<Rightarrow> ('t \<Rightarrow> 'a result \<times> 't) \<Rightarrow> 't \<Rightarrow>
   'a result \<times> 't" where
  "with_raw enter leave body term =
    (case enter term of
       (Err e, t1) \<Rightarrow> (Err e, t1)
     | (Ok _, t1) \<Rightarrow>
         (case body t1 of (res, t2) \<Rightarrow>
          case leave t2 of (restored, t3) \<Rightarrow>
            (case res of
               Err e \<Rightarrow> (Err e, t3)
             | Ok val \<Rightarrow> (case restored of Err e \<Rightarrow> (Err e, t3) | Ok _ \<Rightarrow> (Ok val, t3)))))"

text \<open>The body that \<open>rterm --raw-probe\<close> runs in raw mode.\<close>

definition raw_probe :: "MockTerminal \<Rightarrow> bytes result \<times> MockTerminal" where
  "raw_probe t =
    (case poll_readable t None of
       Err e \<Rightarrow> (Err e, t)
     | Ok ready \<Rightarrow>
         (if \<not> ready then (Err (new_error Other NoCode ''poll_readable''), t) else read_chunk t 64))"

section \<open>The contract\<close>

locale raw_terminal =
  fixes tty :: "'t \<Rightarrow> bool"
    and raw_now :: "'t \<Rightarrow> bool"
    and enter :: "'t \<Rightarrow> unit result \<times> 't"
    and leave :: "'t \<Rightarrow> unit result \<times> 't"
  assumes enter_tty: "tty t \<Longrightarrow> fst (enter t) = Ok () \<and> raw_now (snd (enter t))"
    and enter_refused: "\<not> tty t \<Longrightarrow> is_ok (fst (enter t)) = False \<and> snd (enter t) = t"
    and leave_ok: "fst (leave t) = Ok () \<and> \<not> raw_now (snd (leave t))"
begin

text \<open>On a terminal the body runs exactly once, in raw mode; its result is passed on and raw
  mode is left, whether it succeeds or fails.\<close>

lemma with_raw_runs:
  assumes "tty t"
  shows "raw_now (snd (enter t))"
    and "with_raw enter leave body t =
      (fst (body (snd (enter t))), snd (leave (snd (body (snd (enter t))))))"
    and "\<not> raw_now (snd (with_raw enter leave body t))"
proof -
  show "raw_now (snd (enter t))" using enter_tty[OF assms] ..
  show eq: "with_raw enter leave body t =
      (fst (body (snd (enter t))), snd (leave (snd (body (snd (enter t))))))"
    using enter_tty[OF assms] leave_ok
    by (auto simp: with_raw_def split_def split: sum.split)
  show "\<not> raw_now (snd (with_raw enter leave body t))" unfolding eq using leave_ok by simp
qed

lemma with_raw_refused:
  "\<not> tty t \<Longrightarrow> \<not> is_ok (fst (with_raw enter leave body t)) \<and> snd (with_raw enter leave body t) = t"
  using enter_refused[of t] by (auto simp: with_raw_def split: prod.splits sum.splits)

end

interpretation mock_terminal: raw_terminal stdin_tty is_raw enter_raw leave_raw
  by unfold_locales (auto simp: enter_raw_def leave_raw_def is_raw_def)

text \<open>Raw mode is always given back.  On a terminal \<open>with_raw\<close> runs its body in raw mode,
  returns exactly the result of the body, success or error, and leaves the terminal out of raw
  mode; without a terminal it fails, the body does not run and nothing changes.\<close>

theorem with_raw_restores:
  "(stdin_tty t \<longrightarrow> is_raw (snd (enter_raw t)) \<and>
      fst (with_raw enter_raw leave_raw body t) = fst (body (snd (enter_raw t))) \<and>
      \<not> is_raw (snd (with_raw enter_raw leave_raw body t))) \<and>
   (\<not> stdin_tty t \<longrightarrow> \<not> is_ok (fst (with_raw enter_raw leave_raw body t)) \<and>
      snd (with_raw enter_raw leave_raw body t) = t)"
  using mock_terminal.with_raw_runs(1)[of t] mock_terminal.with_raw_runs(2,3)[of t body]
    mock_terminal.with_raw_refused[of t body] by auto

theorem with_raw_restores_witness:
  "fst (with_raw enter_raw leave_raw raw_probe (push_input (interactive 24 80) [0x58])) = Ok [0x58] \<and>
   \<not> is_raw (snd (with_raw enter_raw leave_raw raw_probe (push_input (interactive 24 80) [0x58])))"
  using with_raw_restores[of "push_input (interactive 24 80) [0x58]" raw_probe]
  by (simp add: push_input_def interactive_def terminal_default_def enter_raw_def raw_probe_def
      poll_readable_def read_chunk_def)

text \<open>Input is handed out in order and nothing is lost; the size of the buffer only bounds
  each piece.  Restoring the echo state that \<open>set_echo\<close> returned gives back the terminal.\<close>

lemma read_chunk_pending:
  "read_chunk t n = (Ok bs, t') \<Longrightarrow> pending_input t = bs @ pending_input t' \<and> length bs \<le> n"
  by (auto simp: read_chunk_def Let_def)

lemma set_echo_restores:
  "set_echo t on = (Ok was, t') \<Longrightarrow> set_echo t' was = (Ok on, t)"
  by (auto simp: set_echo_def split: if_splits)

end
