(* ===== verification/Mock_Devices.thy ===== *)
theory Mock_Devices
  imports Platform_Process Terminal
begin

text \<open>
  The scriptable devices of the in-memory backend: the tunnel of \<open>platform-mock/src/tun.rs\<close>
  and the pseudo-terminal of \<open>platform-mock/src/pty.rs\<close>.  Both hand back queued packets in
  order and record what is written; neither blocks.  What a test sees of the two is stated
  once, for the record they share.
\<close>

section \<open>Queues of packets\<close>

record Device =
  inbound :: "bytes list"
  written_to :: "bytes list"

definition device_read :: "Device \<Rightarrow> nat \<Rightarrow> bytes result \<times> Device" where
  "device_read d len =
    (case inbound d of
       packet # rest \<Rightarrow> (Ok (take (min (length packet) len) packet), d\<lparr>inbound := rest\<rparr>)
     | [] \<Rightarrow> (Ok [], d))"

definition device_write :: "Device \<Rightarrow> bytes \<Rightarrow> nat result \<times> Device" where
  "device_write d buf = (Ok (length buf), d\<lparr>written_to := written_to d @ [buf]\<rparr>)"

definition queue_inbound :: "Device \<Rightarrow> bytes \<Rightarrow> Device" where
  "queue_inbound d packet = d\<lparr>inbound := inbound d @ [packet]\<rparr>"

section \<open>The tunnel\<close>

record MockTunDevice =
  tun_name :: string
  tun_ipv4 :: u32
  tun_prefix_len :: u8
  tun_mtu :: u32
  tun_io :: Device

definition tun_new :: "string \<Rightarrow> u32 \<Rightarrow> u8 \<Rightarrow> u32 \<Rightarrow> MockTunDevice" where
  "tun_new name ipv4 prefix_len mtu = \<lparr>tun_name = name, tun_ipv4 = ipv4, tun_prefix_len = prefix_len,
     tun_mtu = mtu, tun_io = \<lparr>inbound = [], written_to = []\<rparr>\<rparr>"

definition tun_create :: "string \<Rightarrow> u32 \<Rightarrow> u8 \<Rightarrow> u32 \<Rightarrow> MockTunDevice result" where
  "tun_create name ipv4 prefix_len mtu = Ok (tun_new name ipv4 prefix_len mtu)"

definition tun_read :: "MockTunDevice \<Rightarrow> nat \<Rightarrow> bytes result \<times> MockTunDevice" where
  "tun_read d len = (case device_read (tun_io d) len of (r, io) \<Rightarrow> (r, d\<lparr>tun_io := io\<rparr>))"

definition tun_write :: "MockTunDevice \<Rightarrow> bytes \<Rightarrow> nat result \<times> MockTunDevice" where
  "tun_write d buf = (case device_write (tun_io d) buf of (r, io) \<Rightarrow> (r, d\<lparr>tun_io := io\<rparr>))"

section \<open>The pseudo-terminal\<close>

record MockPtyMaster =
  pty_size :: WinSize
  pty_io :: Device

definition pty_new :: "WinSize \<Rightarrow> MockPtyMaster" where
  "pty_new sz = \<lparr>pty_size = sz, pty_io = \<lparr>inbound = [], written_to = []\<rparr>\<rparr>"

definition pty_spawn :: "'f Command \<Rightarrow> WinSize \<Rightarrow> (MockPtyMaster \<times> unit) result" where
  "pty_spawn cmd sz =
    (case cmd_group cmd of
       JoinGroup _ \<Rightarrow> Err (new_error InvalidInput NoCode
         ''Pty::spawn: GroupSpec::JoinGroup is incompatible with a fresh pty session'')
     | _ \<Rightarrow> Ok (pty_new sz, ()))"

definition pty_read :: "MockPtyMaster \<Rightarrow> nat \<Rightarrow> bytes result \<times> MockPtyMaster" where
  "pty_read m len = (case device_read (pty_io m) len of (r, io) \<Rightarrow> (r, m\<lparr>pty_io := io\<rparr>))"

definition pty_write :: "MockPtyMaster \<Rightarrow> bytes \<Rightarrow> nat result \<times> MockPtyMaster" where
  "pty_write m buf = (case device_write (pty_io m) buf of (r, io) \<Rightarrow> (r, m\<lparr>pty_io := io\<rparr>))"

definition pty_resize :: "MockPtyMaster \<Rightarrow> WinSize \<Rightarrow> unit result \<times> MockPtyMaster" where
  "pty_resize m sz = (Ok (), m\<lparr>pty_size := sz\<rparr>)"

definition pty_child_wait :: "ExitStatus result" where
  "pty_child_wait = Ok (Code 0)"

definition pty_child_try_wait :: "ExitStatus option result" where
  "pty_child_try_wait = Ok (Some (Code 0))"

section \<open>The contract of a scripted device\<close>

text \<open>\<open>inq\<close> and \<open>outq\<close> are what waits to be read and what was written.\<close>

locale packet_device =
  fixes inq :: "'d \<Rightarrow> bytes list"
    and outq :: "'d \<Rightarrow> bytes list"
    and rd :: "'d \<Rightarrow> nat \<Rightarrow> bytes result \<times> 'd"
    and wr :: "'d \<Rightarrow> bytes \<Rightarrow> nat result \<times> 'd"
  assumes rd_Cons: "inq d = p # ps \<Longrightarrow> fst (rd d n) = Ok (take n p) \<and> inq (snd (rd d n)) = ps"
    and rd_Nil: "inq d = [] \<Longrightarrow> fst (rd d n) = Ok [] \<and> inq (snd (rd d n)) = []"
    and outq_rd: "outq (snd (rd d n)) = outq d"
    and wr_all: "fst (wr d b) = Ok (length b)"
    and outq_wr: "outq (snd (wr d b)) = outq d @ [b]"
    and inq_wr: "inq (snd (wr d b)) = inq d"
begin

fun reads :: "'d \<Rightarrow> nat list \<Rightarrow> bytes list \<times> 'd" where
  "reads d [] = ([], d)"
| "reads d (n # ns) =
    (case rd d n of (r, d1) \<Rightarrow> case reads d1 ns of (bs, d2) \<Rightarrow>
      ((case r of Ok b \<Rightarrow> b | Err _ \<Rightarrow> []) # bs, d2))"

text \<open>Each read takes one whole packet: it gives its front, as much as fits, and the rest of
  that packet is lost; an empty queue reads as the empty packet.\<close>

lemma reads_queue:
  "length (inq d) = length ns \<Longrightarrow>
     fst (reads d ns) = map2 (\<lambda>n p. take n p) ns (inq d) \<and> inq (snd (reads d ns)) = []"
proof (induction ns arbitrary: d)
  case (Cons n ns)
  then obtain p ps where q: "inq d = p # ps" by (cases "inq d") auto
  show ?case
    using Cons.IH[of "snd (rd d n)"] Cons.prems rd_Cons[OF q, of n] q by (simp add: split_def)
qed simp

lemma outq_writes: "outq (foldl (\<lambda>d b. snd (wr d b)) d bs) = outq d @ bs"
  by (induction bs arbitrary: d) (simp_all add: outq_wr)

end

lemmas device_defs = device_read_def device_write_def tun_read_def tun_write_def pty_read_def
  pty_write_def

interpretation tun_device: packet_device "\<lambda>d. inbound (tun_io d)" "\<lambda>d. written_to (tun_io d)" tun_read tun_write
  by unfold_locales (auto simp: device_defs min_def split: list.splits prod.splits)

interpretation pty_device: packet_device "\<lambda>d. inbound (pty_io d)" "\<lambda>d. written_to (pty_io d)" pty_read pty_write
  by unfold_locales (auto simp: device_defs min_def split: list.splits prod.splits)

end
