(* ===== verification/Os_Calls.thy ===== *)
theory Os_Calls
  imports Platform_Error "HOL-Library.Multiset"
begin

text \<open>
  Code over system calls.  The operating system is a parameter: a function from the calls
  made and answered so far and the next call to its answer, an error number on the left or a
  reply on the right.  The state threaded through the code is that history, so the order of
  the calls, their arguments and the thread's last error number are all visible in it.
  \<open>attempt\<close> is the \<open>?\<close> operator and \<open>or_close\<close> the drop of an owned handle on an early
  return; \<open>justified\<close> states that every call was warranted by the calls before it.  The locale \<open>handle_ledger\<close> is the bookkeeping of handles: which calls acquire a
  handle and which release one, with rules for every combinator, so that a backend shows that
  it leaks nothing and closes nothing twice by one rule per line of its code.
\<close>

type_synonym ('c, 'r) calls = "('c \<times> (i32 + 'r)) list"
type_synonym ('c, 'r) os = "('c, 'r) calls \<Rightarrow> 'c \<Rightarrow> i32 + 'r"
type_synonym ('c, 'r, 'a) effect = "('c, 'r) calls \<Rightarrow> 'a \<times> ('c, 'r) calls"

definition invoke :: "('c, 'r) os \<Rightarrow> 'c \<Rightarrow> ('c, 'r, i32 + 'r) effect" where
  "invoke os c h = (let a = os h c in (a, h @ [(c, a)]))"

text \<open>\<open>errno()\<close>, \<open>GetLastError\<close>, \<open>WSAGetLastError\<close>: a call that fails sets it, a call that succeeds leaves it.\<close>

definition last_error :: "('c, 'r) calls \<Rightarrow> i32" where
  "last_error h = fold (\<lambda>(c, a) e. case a of Inl e' \<Rightarrow> e' | Inr _ \<Rightarrow> e) h 0"

definition ret :: "'a \<Rightarrow> ('c, 'r, 'a) effect" where
  "ret x h = (x, h)"

definition attempt ::
  "('c, 'r, 'a result) effect \<Rightarrow> ('a \<Rightarrow> ('c, 'r, 'b result) effect) \<Rightarrow> ('c, 'r, 'b result) effect" where
  "attempt m f h = (case m h of (Err e, h1) \<Rightarrow> (Err e, h1) | (Ok x, h1) \<Rightarrow> f x h1)"

definition or_close ::
  "('c, 'r) os \<Rightarrow> 'c \<Rightarrow> ('c, 'r, 'a result) effect \<Rightarrow> ('c, 'r, 'a result) effect" where
  "or_close os close m h =
    (case m h of (Err e, h1) \<Rightarrow> (Err e, snd (invoke os close h1)) | (Ok x, h1) \<Rightarrow> (Ok x, h1))"

text \<open>A handle owned by the body of a function: it is dropped when the body ends, either way.\<close>

definition finally_close ::
  "('c, 'r) os \<Rightarrow> 'c \<Rightarrow> ('c, 'r, 'a) effect \<Rightarrow> ('c, 'r, 'a) effect" where
  "finally_close os close m h = (case m h of (r, h1) \<Rightarrow> (r, snd (invoke os close h1)))"

text \<open>One checked call: on failure the error is built from the last error number.\<close>

definition call ::
  "('c, 'r) os \<Rightarrow> (i32 \<Rightarrow> PlatformError) \<Rightarrow> 'c \<Rightarrow> ('c, 'r, 'r result) effect" where
  "call os mk c h =
    (case invoke os c h of
       (Inl _, h1) \<Rightarrow> (Err (mk (last_error h1)), h1)
     | (Inr r, h1) \<Rightarrow> (Ok r, h1))"

lemma last_error_failed [simp]: "last_error (h @ [(c, Inl e)]) = e"
  by (simp add: last_error_def)

lemma last_error_succeeded [simp]: "last_error (h @ [(c, Inr r)]) = last_error h"
  by (simp add: last_error_def)

lemma invoke_eq: "invoke os c h = (os h c, h @ [(c, os h c)])"
  by (simp add: invoke_def Let_def)

lemma call_cases:
  obtains (failed) e where "os h c = Inl e" "call os mk c h = (Err (mk e), h @ [(c, Inl e)])"
  | (succeeded) r where "os h c = Inr r" "call os mk c h = (Ok r, h @ [(c, Inr r)])"
proof (cases "os h c")
  case (Inl e)
  then show ?thesis by (intro failed) (simp_all add: call_def invoke_eq)
next
  case (Inr r)
  then show ?thesis by (intro succeeded) (simp_all add: call_def invoke_eq)
qed

lemma call_eq:
  "call os mk c h =
    (case os h c of Inl e \<Rightarrow> (Err (mk e), h @ [(c, Inl e)]) | Inr r \<Rightarrow> (Ok r, h @ [(c, Inr r)]))"
  by (cases "os h c") (simp_all add: call_def invoke_eq)

lemma ret_eq [simp]: "ret x h = (x, h)"
  by (simp add: ret_def)

lemma attempt_ret [simp]: "attempt (ret (Ok x)) f = f x" "attempt (ret (Err e)) f = ret (Err e)"
  by (simp_all add: attempt_def ret_def fun_eq_iff)

lemma fst_or_close [simp]: "fst (or_close os c m h) = fst (m h)"
  by (simp add: or_close_def split: prod.split sum.split)

lemma fst_attempt_Ok_iff:
  "fst (attempt m f h) = Ok y \<longleftrightarrow> (\<exists>x. fst (m h) = Ok x \<and> fst (f x (snd (m h))) = Ok y)"
  by (auto simp: attempt_def split: prod.splits sum.splits)

section \<open>Only appending\<close>

text \<open>Every effect built from the combinators extends the history and rewrites none of it.\<close>

definition extends :: "('c, 'r, 'a) effect \<Rightarrow> bool" where
  "extends m \<longleftrightarrow> (\<forall>h. \<exists>t. snd (m h) = h @ t)"

lemma extends_ret [intro]: "extends (ret x)"
  by (simp add: extends_def)

lemma extends_invoke [intro]: "extends (invoke os c)"
  by (simp add: extends_def invoke_eq)

lemma extends_call [intro]: "extends (call os mk c)"
  by (simp add: extends_def call_eq split: sum.split)

lemma extends_attempt [intro]:
  assumes "extends m" "\<And>x. extends (f x)"
  shows "extends (attempt m f)"
  unfolding extends_def
proof
  fix h
  obtain t where t: "snd (m h) = h @ t" using assms(1) by (auto simp: extends_def)
  show "\<exists>t. snd (attempt m f h) = h @ t"
  proof (cases "fst (m h)")
    case (Inl e)
    then show ?thesis using t by (cases "m h") (simp add: attempt_def)
  next
    case (Inr x)
    obtain u where "snd (f x (h @ t)) = (h @ t) @ u" using assms(2) by (metis extends_def)
    then show ?thesis using t Inr by (cases "m h") (simp add: attempt_def)
  qed
qed

section \<open>Calls justified by the calls before them\<close>

text \<open>\<open>J p c\<close> says that the answered calls \<open>p\<close> justify the next call \<open>c\<close>.\<close>

definition justified :: "(('c, 'r) calls \<Rightarrow> 'c \<Rightarrow> bool) \<Rightarrow> ('c, 'r) calls \<Rightarrow> bool" where
  "justified J t \<longleftrightarrow> (\<forall>i < length t. J (take i t) (fst (t ! i)))"

definition prefix_mono :: "(('c, 'r) calls \<Rightarrow> 'c \<Rightarrow> bool) \<Rightarrow> bool" where
  "prefix_mono J \<longleftrightarrow> (\<forall>p p' c. set p \<subseteq> set p' \<longrightarrow> J p c \<longrightarrow> J p' c)"

lemma justified_Nil [simp]: "justified J []"
  by (simp add: justified_def)

lemma justified_snoc: "justified J (t @ [(c, a)]) \<longleftrightarrow> justified J t \<and> J t c"
  by (auto simp: justified_def less_Suc_eq nth_append)

lemma justified_append:
  assumes "prefix_mono J" "justified J t" "justified J u"
  shows "justified J (t @ u)"
  using assms(3)
proof (induction u rule: rev_induct)
  case (snoc x u)
  obtain c a where x: "x = (c, a)" by force
  have "J (t @ u) c"
    using snoc.prems assms(1) unfolding x justified_snoc prefix_mono_def
    by (metis set_append sup_ge2)
  then show ?case
    using snoc x justified_snoc[of J "t @ u" c a] justified_snoc[of J u c a] by simp
qed (simp add: assms)

lemma justified_free:
  assumes "\<And>p c a. (c, a) \<in> set t \<Longrightarrow> J p c"
  shows "justified J t"
  using assms unfolding justified_def by (metis nth_mem prod.collapse)

text \<open>\<open>made c p\<close>: the call was made and succeeded.\<close>

definition made :: "'c \<Rightarrow> ('c, 'r) calls \<Rightarrow> bool" where
  "made c p \<longleftrightarrow> (\<exists>x. (c, Inr x) \<in> set p)"

lemma made_snoc [simp]: "made c (p @ [(c', a)]) \<longleftrightarrow> made c p \<or> (c = c' \<and> \<not> isl a)"
  by (cases a) (auto simp: made_def)

text \<open>The same, step by step: started after calls with property \<open>A\<close>, the effect makes only justified
  calls and, when it succeeds with \<open>x\<close>, ends after calls with property \<open>B x\<close>.\<close>

definition obeys ::
  "(('c, 'r) calls \<Rightarrow> 'c \<Rightarrow> bool) \<Rightarrow> (('c, 'r) calls \<Rightarrow> bool) \<Rightarrow> ('a \<Rightarrow> ('c, 'r) calls \<Rightarrow> bool) \<Rightarrow>
   ('c, 'r, 'a result) effect \<Rightarrow> bool" where
  "obeys J A B m \<longleftrightarrow>
    (\<forall>h p. A p \<longrightarrow> (\<exists>t. snd (m h) = h @ t \<and> (\<forall>i < length t. J (p @ take i t) (fst (t ! i))) \<and>
       (\<forall>x. fst (m h) = Ok x \<longrightarrow> B x (p @ t))))"

lemma obeysD:
  assumes "obeys J A B m" "A p" "m h = (r, h')"
  obtains t where "h' = h @ t" "\<forall>i < length t. J (p @ take i t) (fst (t ! i))"
    "\<forall>x. r = Ok x \<longrightarrow> B x (p @ t)"
  using assms unfolding obeys_def by (metis fst_conv snd_conv)

lemma obeys_justified:
  assumes "obeys J (\<lambda>p. p = []) B m"
  shows "\<exists>t. snd (m h) = h @ t \<and> justified J t \<and> (\<forall>x. fst (m h) = Ok x \<longrightarrow> B x t)"
  using assms unfolding obeys_def justified_def by (metis append_Nil)

lemma obeys_ret:
  assumes "\<And>p x. A p \<Longrightarrow> r = Ok x \<Longrightarrow> B x p"
  shows "obeys J A B (ret r)"
  using assms by (simp add: obeys_def)

lemma obeys_call:
  assumes "\<And>p. A p \<Longrightarrow> J p c" "\<And>p r. A p \<Longrightarrow> B r (p @ [(c, Inr r)])"
  shows "obeys J A B (call os mk c)"
  unfolding obeys_def using assms by (auto simp: call_eq split: sum.split)

lemma steps_append:
  assumes "\<forall>i < length t. J (p @ take i t) (fst (t ! i))"
    "\<forall>i < length u. J ((p @ t) @ take i u) (fst (u ! i))"
    "i < length (t @ u)"
  shows "J (p @ take i (t @ u)) (fst ((t @ u) ! i))"
proof (cases "i < length t")
  case True
  then show ?thesis using assms(1) by (simp add: nth_append)
next
  case False
  then show ?thesis using assms(2)[rule_format, of "i - length t"] assms(3) by (simp add: nth_append)
qed

lemma obeys_attempt:
  assumes m: "obeys J A B m" and f: "\<And>x. obeys J (B x) C (f x)"
  shows "obeys J A C (attempt m f)"
  unfolding obeys_def
proof (intro allI impI)
  fix h p assume "A p"
  obtain r h1 where e: "m h = (r, h1)" by force
  obtain t where t: "h1 = h @ t" "\<forall>i < length t. J (p @ take i t) (fst (t ! i))"
    "\<forall>x. r = Ok x \<longrightarrow> B x (p @ t)" using obeysD[OF m \<open>A p\<close> e] .
  show "\<exists>t. snd (attempt m f h) = h @ t \<and> (\<forall>i < length t. J (p @ take i t) (fst (t ! i))) \<and>
      (\<forall>x. fst (attempt m f h) = Ok x \<longrightarrow> C x (p @ t))"
  proof (cases r)
    case (Inl x)
    then show ?thesis using e t by (auto simp: attempt_def)
  next
    case (Inr x)
    obtain r' h2 where e': "f x h1 = (r', h2)" by force
    obtain u where u: "h2 = h1 @ u" "\<forall>i < length u. J ((p @ t) @ take i u) (fst (u ! i))"
      "\<forall>y. r' = Ok y \<longrightarrow> C y ((p @ t) @ u)" using obeysD[OF f t(3)[rule_format, OF Inr] e'] .
    have "J (p @ take i (t @ u)) (fst ((t @ u) ! i))" if "i < length (t @ u)" for i
      using t(2) u(2) that by (rule steps_append)
    then show ?thesis using e e' t(1) u Inr by (intro exI[of _ "t @ u"]) (simp add: attempt_def)
  qed
qed

lemma obeys_then:
  assumes "\<And>p. A p \<Longrightarrow> J p c" "\<And>p r. A p \<Longrightarrow> B r (p @ [(c, Inr r)])" "\<And>r. obeys J (B r) C (f r)"
  shows "obeys J A C (attempt (call os mk c) f)"
  using assms by (intro obeys_attempt[OF obeys_call])

lemma obeys_ret_then:
  assumes "\<And>x. r = Ok x \<Longrightarrow> obeys J A C (f x)"
  shows "obeys J A C (attempt (ret r) f)"
  using assms by (cases r) (simp_all add: obeys_def)

lemma obeys_or_close:
  assumes "obeys J A B m" "\<And>p. J p close"
  shows "obeys J A B (or_close os close m)"
  unfolding obeys_def
proof (intro allI impI)
  fix h p assume "A p"
  obtain r h1 where e: "m h = (r, h1)" by force
  obtain t where t: "h1 = h @ t" "\<forall>i < length t. J (p @ take i t) (fst (t ! i))"
    "\<forall>x. r = Ok x \<longrightarrow> B x (p @ t)" using obeysD[OF assms(1) \<open>A p\<close> e] .
  show "\<exists>t. snd (or_close os close m h) = h @ t \<and> (\<forall>i < length t. J (p @ take i t) (fst (t ! i))) \<and>
      (\<forall>x. fst (or_close os close m h) = Ok x \<longrightarrow> B x (p @ t))"
    using e t assms(2)
    by (cases r) (auto simp: or_close_def invoke_eq less_Suc_eq nth_append)
qed

lemma obeys_finally:
  assumes "obeys J A B m" "\<And>p. J p close" "\<And>x p e. B x p \<Longrightarrow> B x (p @ [e])"
  shows "obeys J A B (finally_close os close m)"
  unfolding obeys_def
proof (intro allI impI)
  fix h p assume "A p"
  obtain r h1 where e: "m h = (r, h1)" by force
  obtain t where t: "h1 = h @ t" "\<forall>i < length t. J (p @ take i t) (fst (t ! i))"
    "\<forall>x. r = Ok x \<longrightarrow> B x (p @ t)" using obeysD[OF assms(1) \<open>A p\<close> e] .
  let ?u = "t @ [(close, os h1 close)]"
  have "B x (p @ ?u)" if "r = Ok x" for x using assms(3)[OF t(3)[rule_format, OF that]] by simp
  then show "\<exists>t. snd (finally_close os close m h) = h @ t \<and> (\<forall>i < length t. J (p @ take i t) (fst (t ! i))) \<and>
      (\<forall>x. fst (finally_close os close m h) = Ok x \<longrightarrow> B x (p @ t))"
    using e t assms(2)
    by (intro exI[of _ ?u]) (auto simp: finally_close_def invoke_eq less_Suc_eq nth_append)
qed

section \<open>The ledger of handles\<close>

definition acquired :: "('c \<Rightarrow> 'r \<Rightarrow> 'd multiset) \<Rightarrow> ('c, 'r) calls \<Rightarrow> 'd multiset" where
  "acquired opens h = (\<Sum>(c, a) \<leftarrow> h. case a of Inl _ \<Rightarrow> {#} | Inr r \<Rightarrow> opens c r)"

definition released :: "('c \<Rightarrow> 'd multiset) \<Rightarrow> ('c, 'r) calls \<Rightarrow> 'd multiset" where
  "released closes h = (\<Sum>(c, a) \<leftarrow> h. closes c)"

text \<open>\<open>accounts opens closes H own rest m\<close>: started with the handles \<open>H\<close> in hand, \<open>m\<close> ends with
  exactly \<open>own x\<close> in hand when it returns \<open>Ok x\<close> and exactly \<open>rest\<close> when it fails.\<close>

definition accounts ::
  "('c \<Rightarrow> 'r \<Rightarrow> 'd multiset) \<Rightarrow> ('c \<Rightarrow> 'd multiset) \<Rightarrow> 'd multiset \<Rightarrow> ('a \<Rightarrow> 'd multiset) \<Rightarrow>
   'd multiset \<Rightarrow> ('c, 'r, 'a result) effect \<Rightarrow> bool" where
  "accounts opens closes H own rest m \<longleftrightarrow>
    (\<forall>h. \<exists>t. snd (m h) = h @ t \<and>
       H + acquired opens t =
         released closes t + (case fst (m h) of Err _ \<Rightarrow> rest | Ok x \<Rightarrow> own x))"

lemma acquired_simps [simp]:
  "acquired opens [] = {#}"
  "acquired opens (h @ h') = acquired opens h + acquired opens h'"
  "acquired opens [(c, Inl e)] = {#}"
  "acquired opens [(c, Inr r)] = opens c r"
  by (simp_all add: acquired_def)

lemma released_simps [simp]:
  "released closes [] = {#}"
  "released closes (h @ h') = released closes h + released closes h'"
  "released closes [(c, a)] = closes c"
  by (simp_all add: released_def)

lemma ledger_Cons:
  "acquired opens ((c, Inl e) # t) = acquired opens t"
  "acquired opens ((c, Inr r) # t) = opens c r + acquired opens t"
  "released closes ((c, a) # t) = closes c + released closes t"
  by (simp_all add: acquired_def released_def)

lemma acquired_plain:
  assumes "\<And>r. opens c r = {#}"
  shows "acquired opens ((c, a) # t) = acquired opens t"
  by (cases a) (simp_all add: ledger_Cons assms)

lemma accounts_result:
  assumes "accounts opens closes H own rest m" "m h = (r, h')"
  obtains t where "h' = h @ t"
    "H + acquired opens t = released closes t + (case r of Err _ \<Rightarrow> rest | Ok x \<Rightarrow> own x)"
  using assms unfolding accounts_def by (metis fst_conv snd_conv)

named_theorems ledger \<open>rules for the handles an effect ends with\<close>

lemma accounts_ret [ledger]:
  "accounts opens closes H (\<lambda>_. H) H (ret r)"
  by (simp add: accounts_def split: sum.split)

lemma accounts_fail: "accounts opens closes H own H (ret (Err e))"
  by (simp add: accounts_def)

lemma keeps_ret_then [ledger]:
  assumes "\<And>x. r = Ok x \<Longrightarrow> accounts opens closes H own H (f x)"
  shows "accounts opens closes H own H (attempt (ret r) f)"
  using assms by (cases r) (simp_all add: accounts_def)

lemma accounts_attempt [ledger]:
  assumes m: "accounts opens closes H own rest m"
    and f: "\<And>x. accounts opens closes (own x) own' rest (f x)"
  shows "accounts opens closes H own' rest (attempt m f)"
  unfolding accounts_def
proof
  fix h
  let ?A = "acquired opens" and ?R = "released closes"
  obtain r h1 where e: "m h = (r, h1)" by force
  then obtain t where t: "h1 = h @ t" "H + ?A t = ?R t + (case r of Err _ \<Rightarrow> rest | Ok x \<Rightarrow> own x)"
    using m by (rule_tac accounts_result)
  show "\<exists>t. snd (attempt m f h) = h @ t \<and>
      H + ?A t = ?R t + (case fst (attempt m f h) of Err _ \<Rightarrow> rest | Ok x \<Rightarrow> own' x)"
  proof (cases r)
    case (Inl x)
    then show ?thesis using e t by (intro exI[of _ t]) (simp add: attempt_def)
  next
    case (Inr x)
    obtain r' h2 where e': "f x h1 = (r', h2)" by force
    then obtain u where u: "h2 = h1 @ u"
      "own x + ?A u = ?R u + (case r' of Err _ \<Rightarrow> rest | Ok y \<Rightarrow> own' y)"
      using f by (rule_tac accounts_result)
    have "H + ?A (t @ u) = ?R (t @ u) + (case r' of Err _ \<Rightarrow> rest | Ok y \<Rightarrow> own' y)"
      using t(2) u(2) Inr by (simp add: union_assoc[symmetric])
    then show ?thesis using e e' t u Inr by (intro exI[of _ "t @ u"]) (simp add: attempt_def)
  qed
qed

text \<open>The interface to a backend: what its calls open and close.  A plain call does neither.\<close>

locale handle_ledger =
  fixes opens :: "'c \<Rightarrow> 'r \<Rightarrow> 'd multiset"
    and closes :: "'c \<Rightarrow> 'd multiset"
    and close_call :: "'d \<Rightarrow> 'c"
  assumes close_opens: "opens (close_call d) r = {#}"
    and close_closes: "closes (close_call d) = {#d#}"
begin

abbreviation keeps ::
  "'d multiset \<Rightarrow> ('a \<Rightarrow> 'd multiset) \<Rightarrow> 'd multiset \<Rightarrow> ('c, 'r, 'a result) effect \<Rightarrow> bool" where
  "keeps \<equiv> accounts opens closes"

lemma keeps_open:
  assumes "closes c = {#}"
  shows "keeps H (\<lambda>r. opens c r + H) H (call os mk c)"
  unfolding accounts_def
proof
  fix h
  show "\<exists>t. snd (call os mk c h) = h @ t \<and>
      H + acquired opens t =
        released closes t + (case fst (call os mk c h) of Err _ \<Rightarrow> H | Ok r \<Rightarrow> opens c r + H)"
    using assms by (cases "os h c") (simp_all add: call_eq add.commute)
qed

lemma keeps_plain:
  assumes "closes c = {#}" "\<And>r. opens c r = {#}"
  shows "keeps H (\<lambda>_. H) H (call os mk c)"
  using keeps_open[OF assms(1), of H os mk] by (simp add: assms(2))

lemma keeps_or_close:
  assumes m: "keeps H own (add_mset d rest) m"
  shows "keeps H own rest (or_close os (close_call d) m)"
  unfolding accounts_def
proof
  fix h
  obtain r h1 where e: "m h = (r, h1)" by force
  then obtain t where t: "h1 = h @ t"
    "H + acquired opens t = released closes t + (case r of Err _ \<Rightarrow> add_mset d rest | Ok x \<Rightarrow> own x)"
    using m by (rule_tac accounts_result)
  let ?m = "or_close os (close_call d) m"
  show "\<exists>t. snd (?m h) = h @ t \<and>
      H + acquired opens t = released closes t + (case fst (?m h) of Err _ \<Rightarrow> rest | Ok x \<Rightarrow> own x)"
  proof (cases r)
    case (Inl x)
    let ?u = "t @ [(close_call d, os h1 (close_call d))]"
    have "acquired opens ?u = acquired opens t"
      by (cases "os h1 (close_call d)") (simp_all add: close_opens)
    then show ?thesis using e t Inl
      by (intro exI[of _ ?u]) (simp add: or_close_def invoke_eq close_closes)
  next
    case (Inr x)
    then show ?thesis using e t by (intro exI[of _ t]) (simp add: or_close_def)
  qed
qed

lemma keeps_finally:
  assumes m: "keeps H (\<lambda>x. add_mset d (own x)) (add_mset d rest) m"
  shows "keeps H own rest (finally_close os (close_call d) m)"
  unfolding accounts_def
proof
  fix h
  obtain r h1 where e: "m h = (r, h1)" by force
  then obtain t where t: "h1 = h @ t"
    "H + acquired opens t = released closes t
      + (case r of Err _ \<Rightarrow> add_mset d rest | Ok x \<Rightarrow> add_mset d (own x))"
    using m by (rule_tac accounts_result)
  let ?m = "finally_close os (close_call d) m"
  let ?u = "t @ [(close_call d, os h1 (close_call d))]"
  have "acquired opens ?u = acquired opens t"
    by (cases "os h1 (close_call d)") (simp_all add: close_opens)
  then show "\<exists>t. snd (?m h) = h @ t \<and>
      H + acquired opens t = released closes t + (case fst (?m h) of Err _ \<Rightarrow> rest | Ok x \<Rightarrow> own x)"
    using e t by (intro exI[of _ ?u])
      (simp add: finally_close_def invoke_eq close_closes split: sum.split)
qed

lemma keeps_close:
  "keeps (add_mset d H) (\<lambda>_. H) H (\<lambda>h. (r, snd (invoke os (close_call d) h)))"
proof -
  have "acquired opens [(close_call d, a)] = {#}" for a
    by (cases a) (simp_all add: close_opens)
  then show ?thesis
    by (auto simp: accounts_def invoke_eq close_closes split: sum.split)
qed

end

end
