(* ===== verification/Unix_Calls.thy ===== *)
theory Unix_Calls
  imports Os_Calls
begin

text \<open>
  The system calls of the Unix backends, with their arguments and replies.  A descriptor is an
  \<open>int\<close>, so that \<open>AT_FDCWD\<close> is one; an address or buffer argument is the bytes that its length
  covers.  A reply holds the return value and what the kernel stored through the pointers it
  was given: an address and its length, data, a \<open>stat\<close> structure.
\<close>

type_synonym fd = int

abbreviation AT_FDCWD :: fd where "AT_FDCWD \<equiv> - 100"

datatype (plugins only: code) UnixCall =
    Socket i32 i32 i32
  | Connect fd bytes
  | Bind fd bytes
  | Listen fd i32
  | Accept fd i32
  | SetSockOpt fd i32 i32 bytes
  | GetFl fd
  | SetFl fd i32
  | SetFd fd i32
  | GetPeerName fd
  | GetSockName fd
  | SendTo fd bytes bytes
  | RecvFrom fd nat
  | Chmod string u32
  | ReadFd fd nat
  | WriteFd fd bytes
  | Fsync fd
  | DupFd fd
  | CloseFd fd
  | OpenAt fd string i32 u32
  | OpenAt2 fd string u64 u64 u64
  | MemfdCreate string u32
  | MkdirAt fd string u32
  | UnlinkAt fd string i32
  | SymlinkAt string fd string
  | ReadLinkAt fd string nat
  | FstatAt fd string i32
  | FchmodAt fd string u32
  | FaccessAt fd string i32
  | RenameAt2 fd string fd string u32
  | FdOpenDir fd
  | ReadDir fd
  | CloseDir fd
  | Ioctl fd u64 bytes
  | OpenFile string i32

record Stat =
  st_dev :: u64
  st_ino :: u64
  st_mode :: u32
  st_nlink :: u64
  st_uid :: u32
  st_gid :: u32
  st_size :: u64
  st_mtime :: "64 word"
  st_mtime_nsec :: u64

record UnixReply =
  ur_ret :: int
  ur_addr :: bytes
  ur_len :: nat
  ur_data :: bytes
  ur_stat :: Stat

definition zero_stat :: Stat where
  "zero_stat = \<lparr>st_dev = 0, st_ino = 0, st_mode = 0, st_nlink = 0, st_uid = 0, st_gid = 0,
     st_size = 0, st_mtime = 0, st_mtime_nsec = 0\<rparr>"

definition reply :: "int \<Rightarrow> UnixReply" where
  "reply n = \<lparr>ur_ret = n, ur_addr = [], ur_len = 0, ur_data = [], ur_stat = zero_stat\<rparr>"

type_synonym unix = "(UnixCall, UnixReply) os"
type_synonym unix_calls = "(UnixCall, UnixReply) calls"
type_synonym 'a io = "(UnixCall, UnixReply, 'a result) effect"

text \<open>\<open>opendir\<close> takes over the descriptor it is given and \<open>closedir\<close> closes it.\<close>

definition opens_fd :: "UnixCall \<Rightarrow> UnixReply \<Rightarrow> fd multiset" where
  "opens_fd c r =
    (case c of
       Socket _ _ _ \<Rightarrow> {#ur_ret r#}
     | Accept _ _ \<Rightarrow> {#ur_ret r#}
     | DupFd _ \<Rightarrow> {#ur_ret r#}
     | OpenAt _ _ _ _ \<Rightarrow> {#ur_ret r#}
     | OpenAt2 _ _ _ _ _ \<Rightarrow> {#ur_ret r#}
     | MemfdCreate _ _ \<Rightarrow> {#ur_ret r#}
     | OpenFile _ _ \<Rightarrow> {#ur_ret r#}
     | _ \<Rightarrow> {#})"

definition closes_fd :: "UnixCall \<Rightarrow> fd multiset" where
  "closes_fd c = (case c of CloseFd d \<Rightarrow> {#d#} | CloseDir d \<Rightarrow> {#d#} | _ \<Rightarrow> {#})"

lemmas call_defs = opens_fd_def closes_fd_def

interpretation fds: handle_ledger opens_fd closes_fd CloseFd
  by unfold_locales (simp_all add: call_defs)

interpretation dirs: handle_ledger opens_fd closes_fd CloseDir
  by unfold_locales (simp_all add: call_defs)

declare fds.keeps_or_close [ledger]

lemma keeps_acquire:
  assumes "closes_fd c = {#}" "\<And>r. opens_fd c r = {#ur_ret r#}"
  shows "fds.keeps H (\<lambda>r. add_mset (ur_ret r) H) H (call os mk c)"
  using fds.keeps_open[OF assms(1), of H os mk] by (simp add: assms(2))

lemma keeps_opening [ledger]:
  "fds.keeps H (\<lambda>r. add_mset (ur_ret r) H) H (call os mk (Socket f t p))"
  "fds.keeps H (\<lambda>r. add_mset (ur_ret r) H) H (call os mk (Accept d fl))"
  "fds.keeps H (\<lambda>r. add_mset (ur_ret r) H) H (call os mk (DupFd d))"
  "fds.keeps H (\<lambda>r. add_mset (ur_ret r) H) H (call os mk (OpenAt d path i m))"
  "fds.keeps H (\<lambda>r. add_mset (ur_ret r) H) H (call os mk (OpenAt2 d path i64 m64 res))"
  "fds.keeps H (\<lambda>r. add_mset (ur_ret r) H) H (call os mk (MemfdCreate name mf))"
  "fds.keeps H (\<lambda>r. add_mset (ur_ret r) H) H (call os mk (OpenFile path i))"
  by (rule keeps_acquire; simp add: call_defs)+

lemma keeps_plain_call [ledger]:
  assumes "closes_fd c = {#}" "\<And>r. opens_fd c r = {#}"
  shows "fds.keeps H (\<lambda>_. H) H (call os mk c)"
  using assms by (rule fds.keeps_plain)

lemma acquired_none [simp]:
  "acquired opens_fd ((CloseFd d, a) # t) = acquired opens_fd t"
  "acquired opens_fd ((Fsync d, a) # t) = acquired opens_fd t"
  "acquired opens_fd ((UnlinkAt d p fl, a) # t) = acquired opens_fd t"
  "acquired opens_fd ((RenameAt2 d p d' p' fl', a) # t) = acquired opens_fd t"
  by (rule acquired_plain; simp add: call_defs)+

section \<open>Two common shapes\<close>

text \<open>A call whose reply carries nothing the caller uses, and one that returns a descriptor.\<close>

definition call_unit :: "unix \<Rightarrow> (i32 \<Rightarrow> PlatformError) \<Rightarrow> UnixCall \<Rightarrow> unit io" where
  "call_unit os mk c = attempt (call os mk c) (\<lambda>_. ret (Ok ()))"

definition call_fd :: "unix \<Rightarrow> (i32 \<Rightarrow> PlatformError) \<Rightarrow> UnixCall \<Rightarrow> fd io" where
  "call_fd os mk c = attempt (call os mk c) (\<lambda>r. ret (Ok (ur_ret r)))"

lemma keeps_call_fd:
  assumes "closes_fd c = {#}" "\<And>r. opens_fd c r = {#ur_ret r#}"
  shows "fds.keeps H (\<lambda>d. add_mset d H) H (call_fd os mk c)"
  unfolding call_fd_def
proof (rule accounts_attempt)
  show "fds.keeps H (\<lambda>r. add_mset (ur_ret r) H) H (call os mk c)" using assms by (rule keeps_acquire)
  show "fds.keeps (add_mset (ur_ret r) H) (\<lambda>d. add_mset d H) H (ret (Ok (ur_ret r)))" for r
    by (simp add: accounts_def)
qed

lemma keeps_call_unit:
  assumes "closes_fd c = {#}" "\<And>r. opens_fd c r = {#}"
  shows "fds.keeps H (\<lambda>_. H) H (call_unit os mk c)"
  unfolding call_unit_def by (intro accounts_attempt[OF keeps_plain_call] accounts_ret assms)

text \<open>One more call on a descriptor in hand, and the code after it.\<close>

lemma keeps_then:
  assumes "closes_fd c = {#}" "\<And>r. opens_fd c r = {#}" "\<And>r. fds.keeps H own H (f r)"
  shows "fds.keeps H own H (attempt (call os mk c) f)"
  using assms by (intro accounts_attempt[OF keeps_plain_call])

lemma keeps_hand_over:
  "fds.keeps (add_mset d H) (\<lambda>d. add_mset d H) (add_mset d H) (ret (Ok d))"
  "fds.keeps (add_mset d H) (\<lambda>(d, _). add_mset d H) (add_mset d H) (ret (Ok (d, x)))"
  by (simp_all add: accounts_def)

lemma keeps_owned:
  assumes "fds.keeps (add_mset d H) own (add_mset d H) m"
  shows "fds.keeps (add_mset d H) own H (or_close os (CloseFd d) m)"
  using assms by (rule fds.keeps_or_close)

end
