(* ===== verification/Linux_Fdio.thy ===== *)
theory Linux_Fdio
  imports Platform_Fs Unix_Calls
begin

text \<open>
  The descriptor primitives of the Linux backend, \<open>platform-linux/src/sys/fdio.rs\<close>, over the
  libc floor: the \<open>openat\<close> family, reads and writes, the directory listing, the metadata
  calls.  Each is the sequence of system calls the function makes, with the error it
  builds when one fails.  The constants are those of the Linux headers for x86-64.
\<close>

abbreviation EPERM :: i32 where "EPERM \<equiv> 1"
abbreviation ENOENT :: i32 where "ENOENT \<equiv> 2"
abbreviation EINTR :: i32 where "EINTR \<equiv> 4"
abbreviation EIO :: i32 where "EIO \<equiv> 5"
abbreviation EAGAIN :: i32 where "EAGAIN \<equiv> 11"
abbreviation EACCES :: i32 where "EACCES \<equiv> 13"
abbreviation EEXIST :: i32 where "EEXIST \<equiv> 17"
abbreviation EXDEV :: i32 where "EXDEV \<equiv> 18"
abbreviation ENODEV :: i32 where "ENODEV \<equiv> 19"
abbreviation ENOTDIR :: i32 where "ENOTDIR \<equiv> 20"
abbreviation EISDIR :: i32 where "EISDIR \<equiv> 21"
abbreviation EINVAL :: i32 where "EINVAL \<equiv> 22"
abbreviation EPIPE :: i32 where "EPIPE \<equiv> 32"
abbreviation ENOSYS :: i32 where "ENOSYS \<equiv> 38"
abbreviation ENOTEMPTY :: i32 where "ENOTEMPTY \<equiv> 39"
abbreviation ELOOP :: i32 where "ELOOP \<equiv> 40"

abbreviation O_RDONLY :: i32 where "O_RDONLY \<equiv> 0"
abbreviation O_WRONLY :: i32 where "O_WRONLY \<equiv> 1"
abbreviation O_RDWR :: i32 where "O_RDWR \<equiv> 2"
abbreviation O_CREAT :: i32 where "O_CREAT \<equiv> 0x40"
abbreviation O_EXCL :: i32 where "O_EXCL \<equiv> 0x80"
abbreviation O_NOCTTY :: i32 where "O_NOCTTY \<equiv> 0x100"
abbreviation O_TRUNC :: i32 where "O_TRUNC \<equiv> 0x200"
abbreviation O_APPEND :: i32 where "O_APPEND \<equiv> 0x400"
abbreviation O_DIRECTORY :: i32 where "O_DIRECTORY \<equiv> 0x10000"
abbreviation O_CLOEXEC :: i32 where "O_CLOEXEC \<equiv> 0x80000"

abbreviation RESOLVE_NO_XDEV :: u64 where "RESOLVE_NO_XDEV \<equiv> 1"
abbreviation RESOLVE_NO_SYMLINKS :: u64 where "RESOLVE_NO_SYMLINKS \<equiv> 4"
abbreviation MFD_CLOEXEC :: u32 where "MFD_CLOEXEC \<equiv> 1"
abbreviation AT_SYMLINK_NOFOLLOW :: i32 where "AT_SYMLINK_NOFOLLOW \<equiv> 0x100"
abbreviation AT_REMOVEDIR :: i32 where "AT_REMOVEDIR \<equiv> 0x200"
abbreviation RENAME_NOREPLACE :: u32 where "RENAME_NOREPLACE \<equiv> 1"
abbreviation S_IFMT :: u32 where "S_IFMT \<equiv> 0xF000"
abbreviation S_IFREG :: u32 where "S_IFREG \<equiv> 0x8000"
abbreviation S_IFDIR :: u32 where "S_IFDIR \<equiv> 0x4000"
abbreviation S_IFLNK :: u32 where "S_IFLNK \<equiv> 0xA000"
abbreviation S_ISUID :: u32 where "S_ISUID \<equiv> 0x800"
abbreviation S_ISGID :: u32 where "S_ISGID \<equiv> 0x400"
abbreviation S_ISVTX :: u32 where "S_ISVTX \<equiv> 0x200"
abbreviation DT_DIR :: nat where "DT_DIR \<equiv> 4"
abbreviation DT_REG :: nat where "DT_REG \<equiv> 8"
abbreviation DT_LNK :: nat where "DT_LNK \<equiv> 10"

section \<open>Errors and names\<close>

definition kind_of :: "i32 \<Rightarrow> ErrorKind" where
  "kind_of errno =
    (if errno = ENOENT then NotFound
     else if errno = EACCES \<or> errno = EPERM then PermissionDenied
     else if errno = EEXIST then AlreadyExists
     else if errno = ENOTDIR then NotADirectory
     else if errno = EISDIR then IsADirectory
     else if errno = ENOTEMPTY then DirectoryNotEmpty
     else if errno = EINVAL then InvalidInput
     else if errno = EAGAIN then WouldBlock
     else if errno = EINTR then Interrupted
     else if errno = EPIPE then BrokenPipe
     else if errno = ELOOP then FilesystemLoop
     else if errno = EXDEV then CrossesDevices
     else Other)"

definition os_err :: "string \<Rightarrow> string \<Rightarrow> i32 \<Rightarrow> PlatformError" where
  "os_err op path e = with_path (new_error (kind_of e) (Errno e) op) path"

definition to_cstring :: "string \<Rightarrow> string \<Rightarrow> string result" where
  "to_cstring path op =
    (if CHR 0x00 \<in> set path then Err (with_path (new_error InvalidInput NoCode op) path)
     else Ok path)"

section \<open>Opening\<close>

definition openat :: "unix \<Rightarrow> fd \<Rightarrow> string \<Rightarrow> i32 \<Rightarrow> u32 \<Rightarrow> fd io" where
  "openat os dirfd rel flags mode =
    attempt (ret (to_cstring rel ''openat'')) (\<lambda>c_rel.
    call_fd os (os_err ''openat'' rel) (OpenAt dirfd c_rel (flags OR O_CLOEXEC) mode))"

record OpenHow =
  how_flags :: u64
  how_mode :: u64
  how_resolve :: u64

definition R2_RESOLVE :: u64 where
  "R2_RESOLVE = RESOLVE_NO_SYMLINKS OR RESOLVE_NO_XDEV"

definition openat2_err :: "string \<Rightarrow> i32 \<Rightarrow> PlatformError" where
  "openat2_err rel code =
    (if code = ENOSYS then new_error Unsupported (Errno code) ''openat2''
     else with_path (new_error (kind_of code) (Errno code) ''openat2'') rel)"

definition openat2_raw :: "unix \<Rightarrow> fd \<Rightarrow> string \<Rightarrow> i32 \<Rightarrow> u32 \<Rightarrow> u64 \<Rightarrow> fd io" where
  "openat2_raw os dirfd rel flags mode resolve =
    attempt (ret (to_cstring rel ''openat2'')) (\<lambda>c_rel.
    (let how = \<lparr>how_flags = scast (flags OR O_CLOEXEC), how_mode = ucast mode, how_resolve = resolve\<rparr>
     in call_fd os (openat2_err rel)
          (OpenAt2 dirfd c_rel (how_flags how) (how_mode how) (how_resolve how))))"

definition openat_r2 :: "unix \<Rightarrow> fd \<Rightarrow> string \<Rightarrow> i32 \<Rightarrow> u32 \<Rightarrow> fd io" where
  "openat_r2 os dirfd rel flags mode h =
    (case openat2_raw os dirfd rel flags mode R2_RESOLVE h of
       (Ok fd, h1) \<Rightarrow> (Ok fd, h1)
     | (Err e, h1) \<Rightarrow>
         (if err_kind e = Unsupported then openat os dirfd rel flags mode h1 else (Err e, h1)))"

text \<open>The \<open>OnceLock\<close> is the first argument and is returned filled; the probe's descriptor is
  dropped with the temporary.\<close>

definition openat2_supported ::
  "bool option \<Rightarrow> unix \<Rightarrow> unix_calls \<Rightarrow> bool \<times> bool option \<times> unix_calls" where
  "openat2_supported cache os h =
    (case cache of
       Some b \<Rightarrow> (b, cache, h)
     | None \<Rightarrow>
         (case openat2_raw os AT_FDCWD ''.'' (O_RDONLY OR O_DIRECTORY) 0 0 h of
            (Ok fd, h1) \<Rightarrow> (True, Some True, snd (invoke os (CloseFd fd) h1))
          | (Err e, h1) \<Rightarrow>
              (let b = (err_kind e \<noteq> Unsupported) in (b, Some b, h1))))"

definition memfd_create :: "unix \<Rightarrow> string \<Rightarrow> fd io" where
  "memfd_create os name =
    attempt (ret (to_cstring name ''memfd_create'')) (\<lambda>c_name.
    call_fd os (os_err ''memfd_create'' name) (MemfdCreate c_name MFD_CLOEXEC))"

section \<open>Reading, writing, duplicating\<close>

definition read_fd :: "unix \<Rightarrow> fd \<Rightarrow> bytes \<Rightarrow> (nat \<times> bytes) io" where
  "read_fd os fd buf =
    attempt (call os (os_err ''read'' '''') (ReadFd fd (length buf))) (\<lambda>r.
    ret (Ok (nat (ur_ret r), read_into buf (ur_data r))))"

definition write_fd :: "unix \<Rightarrow> fd \<Rightarrow> bytes \<Rightarrow> nat io" where
  "write_fd os fd buf =
    attempt (call os (os_err ''write'' '''') (WriteFd fd buf)) (\<lambda>r. ret (Ok (nat (ur_ret r))))"

definition dup_cloexec :: "unix \<Rightarrow> fd \<Rightarrow> fd io" where
  "dup_cloexec os fd = call_fd os (os_err ''fcntl(F_DUPFD_CLOEXEC)'' '''') (DupFd fd)"

definition fsync :: "unix \<Rightarrow> fd \<Rightarrow> unit io" where
  "fsync os fd = call_unit os (os_err ''fsync'' '''') (Fsync fd)"

section \<open>Names in a directory\<close>

definition mkdirat :: "unix \<Rightarrow> fd \<Rightarrow> string \<Rightarrow> unit io" where
  "mkdirat os dirfd rel =
    attempt (ret (to_cstring rel ''mkdirat'')) (\<lambda>c_rel.
    call_unit os (os_err ''mkdirat'' rel) (MkdirAt dirfd c_rel 0x1FF))"

definition unlinkat :: "unix \<Rightarrow> fd \<Rightarrow> string \<Rightarrow> bool \<Rightarrow> unit io" where
  "unlinkat os dirfd rel remove_dir =
    attempt (ret (to_cstring rel ''unlinkat'')) (\<lambda>c_rel.
    call_unit os (os_err ''unlinkat'' rel)
      (UnlinkAt dirfd c_rel (if remove_dir then AT_REMOVEDIR else 0)))"

definition symlink :: "unix \<Rightarrow> fd \<Rightarrow> string \<Rightarrow> string \<Rightarrow> unit io" where
  "symlink os dirfd target link_name =
    attempt (ret (to_cstring target ''symlinkat'')) (\<lambda>c_target.
    attempt (ret (to_cstring link_name ''symlinkat'')) (\<lambda>c_link.
    call_unit os (os_err ''symlinkat'' link_name) (SymlinkAt c_target dirfd c_link)))"

text \<open>The loop of \<open>read_link\<close>; \<open>None\<close> stands for not returning.\<close>

partial_function (option) read_link_loop ::
  "unix \<Rightarrow> fd \<Rightarrow> string \<Rightarrow> string \<Rightarrow> nat \<Rightarrow> unix_calls \<Rightarrow> (string result \<times> unix_calls) option" where
  [code]: "read_link_loop os dirfd c_rel rel cap h =
    (case call os (os_err ''readlinkat'' rel) (ReadLinkAt dirfd c_rel cap) h of
       (Err e, h1) \<Rightarrow> Some (Err e, h1)
     | (Ok r, h1) \<Rightarrow>
         (let n = nat (ur_ret r) in
          if n < cap then Some (Ok (from_bytes (take n (read_into (replicate cap 0) (ur_data r)))), h1)
          else if cap * 4 > 1048576
          then Some (Err (with_path (new_error InvalidInput NoCode ''readlinkat'') rel), h1)
          else read_link_loop os dirfd c_rel rel (cap * 4) h1))"

definition read_link ::
  "unix \<Rightarrow> fd \<Rightarrow> string \<Rightarrow> unix_calls \<Rightarrow> (string result \<times> unix_calls) option" where
  "read_link os dirfd rel h =
    (case to_cstring rel ''readlinkat'' of
       Err e \<Rightarrow> Some (Err e, h)
     | Ok c_rel \<Rightarrow> read_link_loop os dirfd c_rel rel 256 h)"

definition renameat2_raw :: "unix \<Rightarrow> fd \<Rightarrow> string \<Rightarrow> string \<Rightarrow> u32 \<Rightarrow> unit io" where
  "renameat2_raw os dirfd old new flags =
    attempt (ret (to_cstring old ''renameat2'')) (\<lambda>c_old.
    attempt (ret (to_cstring new ''renameat2'')) (\<lambda>c_new.
    call_unit os (os_err ''renameat2'' old) (RenameAt2 dirfd c_old dirfd c_new flags)))"

definition rename :: "unix \<Rightarrow> fd \<Rightarrow> string \<Rightarrow> string \<Rightarrow> unit io" where
  "rename os dirfd from to = renameat2_raw os dirfd from to 0"

definition rename_no_replace :: "unix \<Rightarrow> fd \<Rightarrow> string \<Rightarrow> string \<Rightarrow> unit io" where
  "rename_no_replace os dirfd from to = renameat2_raw os dirfd from to RENAME_NOREPLACE"

section \<open>Metadata\<close>

text \<open>A \<open>SystemTime\<close> is the nanoseconds since the Unix epoch.\<close>

definition system_time_from_secs_nsec :: "64 word \<Rightarrow> u32 \<Rightarrow> int" where
  "system_time_from_secs_nsec secs nsec =
    (if 0 \<le> sint secs then int (unat secs) * 1000000000 + int (unat nsec)
     else - (int (unat (- secs)) * 1000000000) + int (unat nsec))"

definition fstatat :: "unix \<Rightarrow> fd \<Rightarrow> string \<Rightarrow> Stat io" where
  "fstatat os dirfd rel =
    attempt (ret (to_cstring rel ''fstatat'')) (\<lambda>c_rel.
    attempt (call os (os_err ''fstatat'' rel) (FstatAt dirfd c_rel AT_SYMLINK_NOFOLLOW)) (\<lambda>r.
    ret (Ok (ur_stat r))))"

definition file_type_of :: "u32 \<Rightarrow> FileType" where
  "file_type_of mode =
    (let m = mode AND S_IFMT in
     if m = S_IFREG then TFile else if m = S_IFDIR then TDir
     else if m = S_IFLNK then TSymlink else TOther)"

definition statat :: "unix \<Rightarrow> fd \<Rightarrow> string \<Rightarrow> (FileType \<times> u64 \<times> u64 \<times> int) io" where
  "statat os dirfd rel =
    attempt (fstatat os dirfd rel) (\<lambda>st.
    ret (Ok (file_type_of (st_mode st), st_size st, st_nlink st,
      system_time_from_secs_nsec (st_mtime st) (ucast (st_mtime_nsec st)))))"

definition unix_mode :: "unix \<Rightarrow> fd \<Rightarrow> string \<Rightarrow> UnixMode io" where
  "unix_mode os dirfd rel =
    attempt (fstatat os dirfd rel) (\<lambda>st.
    ret (Ok \<lparr>um_setuid = st_mode st AND S_ISUID \<noteq> 0, um_setgid = st_mode st AND S_ISGID \<noteq> 0,
      um_sticky = st_mode st AND S_ISVTX \<noteq> 0, um_uid = st_uid st, um_gid = st_gid st,
      um_permissions = ucast (st_mode st AND 0x1FF)\<rparr>))"

definition raw_mode :: "Mode \<Rightarrow> u32" where
  "raw_mode mode =
    ((if mo_setuid mode then S_ISUID else 0) OR (if mo_setgid mode then S_ISGID else 0)
      OR (if mo_sticky mode then S_ISVTX else 0)) OR (ucast (mo_permissions mode) AND 0x1FF)"

definition set_unix_mode :: "unix \<Rightarrow> fd \<Rightarrow> string \<Rightarrow> Mode \<Rightarrow> unit io" where
  "set_unix_mode os dirfd rel mode =
    attempt (ret (to_cstring rel ''fchmodat'')) (\<lambda>c_rel.
    call_unit os (os_err ''fchmodat'' rel) (FchmodAt dirfd c_rel (raw_mode mode)))"

definition file_id :: "unix \<Rightarrow> fd \<Rightarrow> string \<Rightarrow> (u64 \<times> u64) io" where
  "file_id os dirfd rel =
    attempt (fstatat os dirfd rel) (\<lambda>st. ret (Ok (st_dev st, st_ino st)))"

definition access :: "unix \<Rightarrow> fd \<Rightarrow> string \<Rightarrow> i32 \<Rightarrow> unit io" where
  "access os dirfd rel mode =
    attempt (ret (to_cstring rel ''faccessat'')) (\<lambda>c_rel.
    call_unit os (os_err ''faccessat'' rel) (FaccessAt dirfd c_rel mode))"

section \<open>Listing\<close>

text \<open>\<open>readdir\<close> returns an entry (1, its type and its name), or a null pointer: at the end with
  the error number untouched, on failure with it set.  The loop stops at either.\<close>

definition entry_type :: "nat \<Rightarrow> FileType" where
  "entry_type t = (if t = DT_REG then TFile else if t = DT_DIR then TDir
     else if t = DT_LNK then TSymlink else TOther)"

partial_function (option) read_dir_loop ::
  "unix \<Rightarrow> fd \<Rightarrow> (string \<times> FileType) list \<Rightarrow> unix_calls \<Rightarrow>
   ((string \<times> FileType) list \<times> unix_calls) option" where
  [code]: "read_dir_loop os dir out h =
    (case invoke os (ReadDir dir) h of
       (Inl _, h1) \<Rightarrow> Some (out, h1)
     | (Inr r, h1) \<Rightarrow>
         (if ur_ret r = 0 then Some (out, h1)
          else
            (let name = from_bytes (ur_data r) in
             if name = ''.'' \<or> name = ''..'' then read_dir_loop os dir out h1
             else read_dir_loop os dir (out @ [(name, entry_type (ur_len r))]) h1)))"

definition read_dir ::
  "unix \<Rightarrow> fd \<Rightarrow> unix_calls \<Rightarrow> ((string \<times> FileType) list result \<times> unix_calls) option" where
  "read_dir os dirfd h =
    (case call os (os_err ''fdopendir'' '''') (FdOpenDir dirfd) h of
       (Err e, h1) \<Rightarrow> Some (Err e, snd (invoke os (CloseFd dirfd) h1))
     | (Ok _, h1) \<Rightarrow>
         (case read_dir_loop os dirfd [] h1 of
            None \<Rightarrow> None
          | Some (out, h2) \<Rightarrow> Some (Ok out, snd (invoke os (CloseDir dirfd) h2))))"

section \<open>Handles\<close>

lemma keeps_openat [ledger]: "fds.keeps H (\<lambda>d. add_mset d H) H (openat os dirfd rel flags mode)"
  unfolding openat_def by (intro keeps_ret_then keeps_call_fd) (simp_all add: call_defs)

lemma keeps_openat2_raw [ledger]:
  "fds.keeps H (\<lambda>d. add_mset d H) H (openat2_raw os dirfd rel flags mode resolve)"
  unfolding openat2_raw_def Let_def by (intro keeps_ret_then keeps_call_fd) (simp_all add: call_defs)

lemma keeps_dup_cloexec [ledger]: "fds.keeps H (\<lambda>d. add_mset d H) H (dup_cloexec os d)"
  unfolding dup_cloexec_def by (intro keeps_call_fd) (simp_all add: call_defs)

lemma keeps_memfd_create [ledger]: "fds.keeps H (\<lambda>d. add_mset d H) H (memfd_create os name)"
  unfolding memfd_create_def by (intro keeps_ret_then keeps_call_fd) (simp_all add: call_defs)

lemma keeps_mkdirat [ledger]: "fds.keeps H (\<lambda>_. H) H (mkdirat os dirfd rel)"
  unfolding mkdirat_def by (intro keeps_ret_then keeps_call_unit) (simp_all add: call_defs)

text \<open>The three ways \<open>openat_r2\<close> can go: a name with a NUL makes no call, a kernel with
  \<open>openat2\<close> gets that call alone, and only \<open>ENOSYS\<close> leads to the plain \<open>openat\<close>.\<close>

abbreviation r2_call :: "fd \<Rightarrow> string \<Rightarrow> i32 \<Rightarrow> u32 \<Rightarrow> UnixCall" where
  "r2_call dirfd rel flags mode \<equiv>
    OpenAt2 dirfd rel (scast (flags OR O_CLOEXEC)) (ucast mode) R2_RESOLVE"

abbreviation r1_call :: "fd \<Rightarrow> string \<Rightarrow> i32 \<Rightarrow> u32 \<Rightarrow> UnixCall" where
  "r1_call dirfd rel flags mode \<equiv> OpenAt dirfd rel (flags OR O_CLOEXEC) mode"

lemma kind_of_not_Unsupported [simp]: "kind_of e \<noteq> Unsupported"
  by (simp add: kind_of_def)

lemma openat_r2_cases:
  obtains (nul) e where "CHR 0x00 \<in> set rel" "openat_r2 os dirfd rel flags mode h = (Err e, h)"
    "err_kind e = InvalidInput"
  | (r2) r a where "openat_r2 os dirfd rel flags mode h = (r, h @ [(r2_call dirfd rel flags mode, a)])"
      "a \<noteq> Inl ENOSYS" "r = (case a of Inl e \<Rightarrow> Err (openat2_err rel e) | Inr x \<Rightarrow> Ok (ur_ret x))"
  | (r1) r a where "openat_r2 os dirfd rel flags mode h =
        (r, h @ [(r2_call dirfd rel flags mode, Inl ENOSYS), (r1_call dirfd rel flags mode, a)])"
      "r = (case a of Inl e \<Rightarrow> Err (os_err ''openat'' rel e) | Inr x \<Rightarrow> Ok (ur_ret x))"
proof (cases "CHR 0x00 \<in> set rel")
  case True
  then show ?thesis
    by (intro nul) (auto simp: openat_r2_def openat2_raw_def to_cstring_def)
next
  case False
  let ?c = "r2_call dirfd rel flags mode"
  let ?h1 = "h @ [(?c, os h ?c)]"
  have raw: "openat2_raw os dirfd rel flags mode R2_RESOLVE h =
      (case os h ?c of Inl e \<Rightarrow> Err (openat2_err rel e) | Inr x \<Rightarrow> Ok (ur_ret x), ?h1)"
    using False by (simp add: openat2_raw_def to_cstring_def call_fd_def attempt_def call_eq
        split: sum.split)
  show ?thesis
  proof (cases "os h ?c = Inl ENOSYS")
    case True
    then have "openat_r2 os dirfd rel flags mode h = openat os dirfd rel flags mode ?h1"
      by (simp add: openat_r2_def raw openat2_err_def)
    then show ?thesis using False True
      by (intro r1[of _ "os ?h1 (r1_call dirfd rel flags mode)"])
        (auto simp: openat_def to_cstring_def call_fd_def attempt_def call_eq split: sum.split)
  next
    case False
    then show ?thesis
      by (intro r2[of _ "os h ?c"])
        (auto simp: openat_r2_def raw openat2_err_def split: sum.split)
  qed
qed

lemma keeps_openat_r2 [ledger]:
  "fds.keeps H (\<lambda>d. add_mset d H) H (openat_r2 os dirfd rel flags mode)"
  unfolding accounts_def
proof
  fix h
  show "\<exists>t. snd (openat_r2 os dirfd rel flags mode h) = h @ t \<and>
      H + acquired opens_fd t = released closes_fd t +
        (case fst (openat_r2 os dirfd rel flags mode h) of Err _ \<Rightarrow> H | Ok d \<Rightarrow> add_mset d H)"
    by (cases rule: openat_r2_cases[of rel os dirfd flags mode h])
      (auto simp: acquired_def released_def call_defs split: sum.split)
qed

section \<open>Reading a link\<close>

text \<open>The buffer is quadrupled until it exceeds a mebibyte: \<open>cap * 4 ^ j\<close> bounds the rounds left.\<close>

lemma read_link_loop_returns:
  assumes "0 < cap" "cap \<le> 1048576" "1048576 < cap * 4 ^ k"
  shows "\<exists>r t. read_link_loop os dirfd c_rel rel cap h = Some (r, h @ t) \<and> length t \<le> k \<and>
    (\<forall>(c, a) \<in> set t. \<exists>n \<le> 1048576. c = ReadLinkAt dirfd c_rel n)"
  using assms
proof (induction k arbitrary: cap h)
  case (Suc k)
  let ?c = "ReadLinkAt dirfd c_rel cap"
  have more: "\<exists>r t. read_link_loop os dirfd c_rel rel (cap * 4) (h @ [(?c, a)]) = Some (r, h @ t) \<and>
      length t \<le> Suc k \<and> (\<forall>(c, a) \<in> set t. \<exists>n \<le> 1048576. c = ReadLinkAt dirfd c_rel n)"
    if le: "cap * 4 \<le> 1048576" for a
  proof -
    obtain r t where "read_link_loop os dirfd c_rel rel (cap * 4) (h @ [(?c, a)]) = Some (r, (h @ [(?c, a)]) @ t)"
      "length t \<le> k" "\<forall>(c, a) \<in> set t. \<exists>n \<le> 1048576. c = ReadLinkAt dirfd c_rel n"
      using Suc.IH[of "cap * 4" "h @ [(?c, a)]"] Suc.prems le by (auto simp: ac_simps)
    then show ?thesis using Suc.prems by (intro exI[of _ r] exI[of _ "(?c, a) # t"]) auto
  qed
  show ?case
  proof (cases "os h ?c")
    case (Inl e)
    then show ?thesis using Suc.prems
      by (subst read_link_loop.simps) (simp add: call_eq)
  next
    case (Inr x)
    then show ?thesis using Suc.prems more[of "Inr x"]
      by (subst read_link_loop.simps) (auto simp: call_eq Let_def not_less)
  qed
qed simp

definition serves_link :: "unix \<Rightarrow> fd \<Rightarrow> string \<Rightarrow> string \<Rightarrow> bool" where
  "serves_link os dirfd rel target \<longleftrightarrow>
    (\<forall>h n. os h (ReadLinkAt dirfd rel n) =
      Inr ((reply (int (min n (length target))))\<lparr>ur_data := take n (as_bytes target)\<rparr>))"

lemma read_link_loop_target:
  assumes "serves_link os dirfd rel target" "cap * 4 ^ j = 1048576"
  shows "\<exists>t. read_link_loop os dirfd rel rel cap h =
    Some (if length target < 1048576 then Ok target
          else Err (with_path (new_error InvalidInput NoCode ''readlinkat'') rel), h @ t)"
  using assms(2)
proof (induction j arbitrary: cap h)
  case 0
  then show ?case using assms(1)
    by (subst read_link_loop.simps)
      (auto simp: call_eq serves_link_def Let_def reply_def read_into_def min_def)
next
  case (Suc j)
  let ?a = "os h (ReadLinkAt dirfd rel cap)"
  have cap: "0 < cap" "cap * 4 \<le> 1048576"
  proof -
    show "0 < cap" using Suc.prems by (cases cap) auto
    have "cap * 4 \<le> cap * 4 * 4 ^ j" by simp
    also have "\<dots> = 1048576" using Suc.prems by (simp add: ac_simps)
    finally show "cap * 4 \<le> 1048576" .
  qed
  obtain t where "read_link_loop os dirfd rel rel (cap * 4) (h @ [(ReadLinkAt dirfd rel cap, ?a)]) =
      Some (if length target < 1048576 then Ok target
        else Err (with_path (new_error InvalidInput NoCode ''readlinkat'') rel), h @ t)"
    using Suc.IH[of "cap * 4" "h @ [(ReadLinkAt dirfd rel cap, ?a)]"] Suc.prems by auto
  then show ?case using assms(1) cap
    by (subst read_link_loop.simps)
      (auto simp: call_eq serves_link_def Let_def reply_def read_into_def min_def)
qed

lemma read_link_rounds:
  "\<exists>r t. read_link os dirfd rel h = Some (r, h @ t) \<and> length t \<le> 7 \<and>
    (\<forall>(c, a) \<in> set t. \<exists>n \<le> 1048576. c = ReadLinkAt dirfd rel n)"
proof (cases "to_cstring rel ''readlinkat''")
  case (Inr c_rel)
  then have "c_rel = rel" by (simp add: to_cstring_def split: if_splits)
  then show ?thesis
    using Inr read_link_loop_returns[of 256 7 os dirfd rel rel h] by (simp add: read_link_def)
qed (simp add: read_link_def)

lemma read_link_target:
  assumes "serves_link os dirfd rel target" "CHR 0x00 \<notin> set rel"
  shows "\<exists>t. read_link os dirfd rel h =
    Some (if length target < 1048576 then Ok target
          else Err (with_path (new_error InvalidInput NoCode ''readlinkat'') rel), h @ t)"
  using read_link_loop_target[OF assms(1), of 256 6 h] assms(2)
  by (simp add: read_link_def to_cstring_def)

text \<open>C21. Reading a link terminates whatever the kernel answers: at most seven calls are made, each
  with a buffer of at most a mebibyte.  A kernel that stores the truncated target, as
  \<open>readlinkat\<close> does, gives the whole target back when it is shorter than a mebibyte and
  \<open>InvalidInput\<close> otherwise, never a truncated one.\<close>

theorem read_link_bounded:
  "\<exists>r t. read_link os dirfd rel h = Some (r, h @ t) \<and> length t \<le> 7 \<and>
    (\<forall>(c, a) \<in> set t. \<exists>n \<le> 1048576. c = ReadLinkAt dirfd rel n) \<and>
    (\<forall>target. serves_link os dirfd rel target \<and> CHR 0x00 \<notin> set rel \<longrightarrow>
      (if length target < 1048576 then r = Ok target else fails_with InvalidInput r))"
proof -
  obtain r t where rt: "read_link os dirfd rel h = Some (r, h @ t)" "length t \<le> 7"
    "\<forall>(c, a) \<in> set t. \<exists>n \<le> 1048576. c = ReadLinkAt dirfd rel n"
    using read_link_rounds by blast
  moreover have "if length target < 1048576 then r = Ok target else fails_with InvalidInput r"
    if "serves_link os dirfd rel target" "CHR 0x00 \<notin> set rel" for target
    using read_link_target[OF that, of h] rt(1) by auto
  ultimately show ?thesis by blast
qed

theorem read_link_bounded_witness:
  "\<exists>r t. read_link (\<lambda>h c. case c of
       ReadLinkAt _ _ n \<Rightarrow> Inr ((reply (int (min n (length ''abc''))))\<lparr>ur_data := take n (as_bytes ''abc'')\<rparr>)
     | _ \<Rightarrow> Inl ENOENT) 4 ''link'' [] = Some (r, t) \<and> length t \<le> 7 \<and> r = Ok ''abc''"
proof -
  let ?os = "\<lambda>h c. case c of
       ReadLinkAt _ _ n \<Rightarrow> Inr ((reply (int (min n (length ''abc''))))\<lparr>ur_data := take n (as_bytes ''abc'')\<rparr>)
     | _ \<Rightarrow> Inl ENOENT"
  have "serves_link ?os 4 ''link'' ''abc''" by (simp add: serves_link_def)
  then show ?thesis
    using read_link_bounded[of ?os 4 "''link''" "[]"] by fastforce
qed

section \<open>Times and modes\<close>

lemma int_unat_signed:
  fixes w :: "64 word"
  shows "0 \<le> sint w \<Longrightarrow> int (unat w) = sint w"
    and "sint w < 0 \<Longrightarrow> int (unat (- w)) = - sint w"
proof -
  have r: "- (2 ^ 63) \<le> sint w" "sint w < 2 ^ 63"
    using sint_greater_eq[of w] sint_less[of w] by simp_all
  have "uint w = sint w mod 2 ^ 64" by (simp add: uint_sint take_bit_eq_mod)
  then show "0 \<le> sint w \<Longrightarrow> int (unat w) = sint w" using r by simp
  have "- w = word_of_int (- sint w)" by simp
  then have "uint (- w) = (- sint w) mod 2 ^ 64" by (simp only: uint_word_of_int) simp
  then show "sint w < 0 \<Longrightarrow> int (unat (- w)) = - sint w" using r by simp
qed

lemma system_time_eq:
  "system_time_from_secs_nsec secs nsec = sint secs * 1000000000 + int (unat nsec)"
  using int_unat_signed[of secs] by (auto simp: system_time_from_secs_nsec_def)

lemma raw_mode_bits:
  assumes "m AND 0xFFF = raw_mode mode"
  shows "(m AND S_ISUID \<noteq> 0) = mo_setuid mode"
    and "(m AND S_ISGID \<noteq> 0) = mo_setgid mode"
    and "(m AND S_ISVTX \<noteq> 0) = mo_sticky mode"
    and "(ucast (m AND 0x1FF) :: u16) = mo_permissions mode AND 0x1FF"
proof -
  have k: "m AND k = raw_mode mode AND k" if "0xFFF AND k = k" for k
    by (metis assms that and.assoc)
  show "(m AND S_ISUID \<noteq> 0) = mo_setuid mode"
    by (simp add: k raw_mode_def bit.conj_disj_distrib2 and.assoc)
  show "(m AND S_ISGID \<noteq> 0) = mo_setgid mode"
    by (simp add: k raw_mode_def bit.conj_disj_distrib2 and.assoc)
  show "(m AND S_ISVTX \<noteq> 0) = mo_sticky mode"
    by (simp add: k raw_mode_def bit.conj_disj_distrib2 and.assoc)
  have "m AND 0x1FF = ucast (mo_permissions mode) AND 0x1FF"
    by (simp add: k raw_mode_def bit.conj_disj_distrib2 and.assoc)
  then show "(ucast (m AND 0x1FF) :: u16) = mo_permissions mode AND 0x1FF"
    by (simp only:) (rule bit_eqI, auto simp: bit_simps)
qed

section \<open>Listing a directory\<close>

text \<open>A kernel that serves the entries \<open>es\<close> of the stream on \<open>d\<close>, one per \<open>readdir\<close> since the
  stream was opened, and then answers \<open>final\<close>.\<close>

definition dir_pos :: "fd \<Rightarrow> unix_calls \<Rightarrow> nat" where
  "dir_pos d h = fold (\<lambda>(c, a) k.
    if c = FdOpenDir d then 0 else if c = ReadDir d then Suc k else k) h 0"

definition dirent :: "string \<times> nat \<Rightarrow> UnixReply" where
  "dirent e = (reply 1)\<lparr>ur_data := as_bytes (fst e), ur_len := snd e\<rparr>"

definition serves_dir ::
  "unix \<Rightarrow> fd \<Rightarrow> (string \<times> nat) list \<Rightarrow> i32 + UnixReply \<Rightarrow> bool" where
  "serves_dir os d es final \<longleftrightarrow>
    (\<forall>h. os h (ReadDir d) =
      (if dir_pos d h < length es then Inr (dirent (es ! dir_pos d h)) else final))"

definition listed :: "(string \<times> nat) list \<Rightarrow> (string \<times> FileType) list" where
  "listed es = map (\<lambda>(n, t). (n, entry_type t)) (filter (\<lambda>(n, t). n \<noteq> ''.'' \<and> n \<noteq> ''..'') es)"

definition ends_stream :: "i32 + UnixReply \<Rightarrow> bool" where
  "ends_stream a \<longleftrightarrow> (case a of Inl _ \<Rightarrow> True | Inr r \<Rightarrow> ur_ret r = 0)"

lemma dir_pos_step: "dir_pos d (h @ [(ReadDir d, a)]) = Suc (dir_pos d h)"
  by (simp add: dir_pos_def)

lemma read_dir_loop_lists:
  assumes "serves_dir os d es final" "ends_stream final" "drop (dir_pos d h) es = rest"
  shows "\<exists>t. read_dir_loop os d out h = Some (out @ listed rest, h @ t) \<and>
    (\<forall>(c, a) \<in> set t. c = ReadDir d)"
  using assms(3)
proof (induction rest arbitrary: out h)
  case Nil
  then show ?case using assms(1,2)
    by (subst read_dir_loop.simps)
      (cases final; auto simp: invoke_eq serves_dir_def ends_stream_def listed_def)
next
  case (Cons e rest)
  let ?h1 = "h @ [(ReadDir d, os h (ReadDir d))]"
  have i: "dir_pos d h < length es" "es ! dir_pos d h = e"
    using Cons.prems by (metis drop_eq_Nil leI list.distinct(1), metis nth_via_drop)
  have ans: "os h (ReadDir d) = Inr (dirent e)" using assms(1) i by (simp add: serves_dir_def)
  have "drop (dir_pos d ?h1) es = rest"
    using Cons.prems i by (simp add: dir_pos_step drop_Suc drop_tl)
  then have IH: "\<exists>t. read_dir_loop os d out' ?h1 = Some (out' @ listed rest, ?h1 @ t) \<and>
      (\<forall>(c, a) \<in> set t. c = ReadDir d)" for out'
    by (rule Cons.IH)
  obtain n ty where e: "e = (n, ty)" by force
  have step: "read_dir_loop os d out h =
      read_dir_loop os d (out @ listed [e]) ?h1"
    by (subst read_dir_loop.simps)
      (simp add: invoke_eq ans dirent_def reply_def listed_def e)
  have "listed (e # rest) = listed [e] @ listed rest" by (simp add: listed_def)
  with step IH[of "out @ listed [e]"] show ?case by (auto simp: ans)
qed

text \<open>Listing a directory: over a stream that serves the entries \<open>es\<close> and then ends, the
  result is those entries without \<open>.\<close> and \<open>..\<close>, in order, with their types, and the stream
  is closed.  A stream that ends in an error is listed the same way: the error is not
  reported and the listing that was cut short is returned as complete.\<close>

theorem read_dir_lists:
  assumes "serves_dir os d es final" "ends_stream final"
    and opens: "\<And>h. isl (os h (FdOpenDir d)) = False"
  shows "\<exists>t. read_dir os d h = Some (Ok (listed es), h @ t) \<and> released closes_fd t = {#d#}
    \<and> acquired opens_fd t = {#}"
proof -
  obtain x where x: "os h (FdOpenDir d) = Inr x" using opens[of h] by (cases "os h (FdOpenDir d)") auto
  let ?h1 = "h @ [(FdOpenDir d, Inr x)]"
  have "drop (dir_pos d ?h1) es = es" by (simp add: dir_pos_def)
  then obtain t where t: "read_dir_loop os d [] ?h1 = Some (listed es, ?h1 @ t)"
    "\<forall>(c, a) \<in> set t. c = ReadDir d"
    using read_dir_loop_lists[OF assms(1,2), of ?h1 es "[]"] by auto
  have "released closes_fd t = {#}" "acquired opens_fd t = {#}"
    using t(2) by (induction t) (auto simp: released_def acquired_def call_defs split: sum.split)
  then show ?thesis
    using x t(1)
    by (cases "os (?h1 @ t) (CloseDir d)")
      (auto simp: read_dir_def call_eq invoke_eq released_def acquired_def call_defs)
qed

theorem read_dir_lists_witness:
  "\<exists>t. read_dir (\<lambda>h c. case c of
       ReadDir _ \<Rightarrow> if dir_pos 5 h < 2 then Inr (dirent ([(''.'', 4), (''f'', 8)] ! dir_pos 5 h)) else Inl EIO
     | _ \<Rightarrow> Inr (reply 0)) 5 [] = Some (Ok [(''f'', TFile)], t)"
proof -
  let ?os = "\<lambda>h c. case c of
       ReadDir _ \<Rightarrow> if dir_pos 5 h < 2 then Inr (dirent ([(''.'', 4), (''f'', 8)] ! dir_pos 5 h)) else Inl EIO
     | _ \<Rightarrow> Inr (reply 0)"
  have "serves_dir ?os 5 [(''.'', 4), (''f'', 8)] (Inl EIO)" "ends_stream (Inl EIO)"
    by (simp_all add: serves_dir_def ends_stream_def)
  from read_dir_lists[OF this, of "[]"] show ?thesis
    by (auto simp: listed_def entry_type_def)
qed

text \<open>Setting and reading a mode: the word \<open>set_unix_mode\<close> hands to \<open>fchmodat\<close>, read back by
  \<open>unix_mode\<close> from a file that has it (beside its type bits), gives the same special bits and
  the same nine permission bits, with the owner the file has.\<close>

theorem unix_mode_roundtrip:
  assumes "CHR 0x00 \<notin> set rel" "os h (FstatAt d rel AT_SYMLINK_NOFOLLOW) = Inr x"
    and "st_mode (ur_stat x) AND 0xFFF = raw_mode mode"
  shows "fst (unix_mode os d rel h) = Ok \<lparr>um_setuid = mo_setuid mode, um_setgid = mo_setgid mode,
    um_sticky = mo_sticky mode, um_uid = st_uid (ur_stat x), um_gid = st_gid (ur_stat x),
    um_permissions = mo_permissions mode AND 0x1FF\<rparr>
    \<and> snd (set_unix_mode os d rel mode h) = h @ [(FchmodAt d rel (raw_mode mode),
        os h (FchmodAt d rel (raw_mode mode)))]"
  using assms(1,2) raw_mode_bits[OF assms(3)]
  by (cases "os h (FchmodAt d rel (raw_mode mode))")
    (simp_all add: unix_mode_def fstatat_def set_unix_mode_def to_cstring_def attempt_def call_eq
      call_unit_def)

theorem unix_mode_roundtrip_witness:
  "fst (unix_mode (\<lambda>h c. Inr ((reply 0)\<lparr>ur_stat := zero_stat\<lparr>st_mode := 0x89ED\<rparr>\<rparr>)) 4 ''f'' []) =
    Ok \<lparr>um_setuid = True, um_setgid = False, um_sticky = False, um_uid = 0, um_gid = 0,
      um_permissions = 0x1ED\<rparr>"
  using unix_mode_roundtrip[of "''f''" "\<lambda>h c. Inr ((reply 0)\<lparr>ur_stat := zero_stat\<lparr>st_mode := 0x89ED\<rparr>\<rparr>)"
      "[]" 4 "(reply 0)\<lparr>ur_stat := zero_stat\<lparr>st_mode := 0x89ED\<rparr>\<rparr>"
      "\<lparr>mo_setuid = True, mo_setgid = False, mo_sticky = False, mo_permissions = 0x1ED\<rparr>"]
  by (simp add: raw_mode_def reply_def zero_stat_def)

end
