(* ===== verification/Linux_Fs.thy ===== *)
theory Linux_Fs
  imports Linux_Fdio
begin

text \<open>
  The directory and file capabilities of the Linux backend, \<open>platform-linux/src/fs.rs\<close>, over
  the primitives of \<open>Linux_Fdio\<close>: \<open>LinuxDir\<close> and \<open>LinuxFile\<close> own one descriptor each, closed
  when they are dropped.  \<open>linux_dir_ops\<close> hands the operations to the trait's own
  \<open>write_atomic\<close>.
\<close>

record LinuxDir =
  ld_fd :: fd

record LinuxFile =
  lf_fd :: fd

definition dir_of :: "fd \<Rightarrow> LinuxDir" where "dir_of d = \<lparr>ld_fd = d\<rparr>"
definition file_of :: "fd \<Rightarrow> LinuxFile" where "file_of d = \<lparr>lf_fd = d\<rparr>"

definition drop_dir :: "unix \<Rightarrow> LinuxDir \<Rightarrow> unix_calls \<Rightarrow> unix_calls" where
  "drop_dir os d h = snd (invoke os (CloseFd (ld_fd d)) h)"

definition drop_file :: "unix \<Rightarrow> LinuxFile \<Rightarrow> unix_calls \<Rightarrow> unix_calls" where
  "drop_file os f h = snd (invoke os (CloseFd (lf_fd f)) h)"

definition open_ambient :: "unix \<Rightarrow> string \<Rightarrow> LinuxDir io" where
  "open_ambient os path =
    attempt (openat os AT_FDCWD path (O_RDONLY OR O_DIRECTORY) 0) (\<lambda>d. ret (Ok (dir_of d)))"

section \<open>Files\<close>

definition file_read :: "unix \<Rightarrow> LinuxFile \<Rightarrow> bytes \<Rightarrow> (nat \<times> bytes) io" where
  "file_read os f buf = read_fd os (lf_fd f) buf"

definition file_write :: "unix \<Rightarrow> LinuxFile \<Rightarrow> bytes \<Rightarrow> nat io" where
  "file_write os f buf = write_fd os (lf_fd f) buf"

definition file_flush :: "LinuxFile \<Rightarrow> unit io" where
  "file_flush f = ret (Ok ())"

definition file_sync_all :: "unix \<Rightarrow> LinuxFile \<Rightarrow> unit io" where
  "file_sync_all os f = fsync os (lf_fd f)"

definition file_try_clone :: "unix \<Rightarrow> LinuxFile \<Rightarrow> LinuxFile io" where
  "file_try_clone os f = attempt (dup_cloexec os (lf_fd f)) (\<lambda>d. ret (Ok (file_of d)))"

definition create_memfd :: "unix \<Rightarrow> string \<Rightarrow> LinuxFile io" where
  "create_memfd os name = attempt (memfd_create os name) (\<lambda>d. ret (Ok (file_of d)))"

section \<open>Paths and flags\<close>

definition rposition :: "('a \<Rightarrow> bool) \<Rightarrow> 'a list \<Rightarrow> nat option" where
  "rposition P xs = (if \<exists>x\<in>set xs. P x then Some (length (dropWhile (\<lambda>x. \<not> P x) (rev xs)) - 1) else None)"

definition split_last_component :: "string \<Rightarrow> (string \<times> string) option" where
  "split_last_component rel =
    (case map_option Suc (rposition (\<lambda>b. b \<noteq> CHR ''/'') rel) of
       None \<Rightarrow> None
     | Some end' \<Rightarrow>
         (let trimmed = take end' rel in
          case rposition (\<lambda>b. b = CHR ''/'') trimmed of
            None \<Rightarrow> None
          | Some pos \<Rightarrow> Some (take pos trimmed, drop (pos + 1) trimmed)))"

definition open_flags :: "OpenOptions \<Rightarrow> i32 result" where
  "open_flags opts =
    and_then
      (case (oo_read opts, oo_write opts \<or> oo_append opts) of
         (True, True) \<Rightarrow> Ok O_RDWR
       | (True, False) \<Rightarrow> Ok O_RDONLY
       | (False, True) \<Rightarrow> Ok O_WRONLY
       | (False, False) \<Rightarrow> Err (new_error InvalidInput NoCode ''open''))
      (\<lambda>flags0.
        let flags1 = (if oo_append opts then flags0 OR O_APPEND else flags0);
            flags2 = (if oo_create_new opts then flags1 OR (O_CREAT OR O_EXCL)
                      else if oo_create opts then flags1 OR O_CREAT else flags1);
            flags3 = (if oo_truncate opts then flags2 OR O_TRUNC else flags2)
        in Ok flags3)"

section \<open>Directories\<close>

definition dir_open :: "unix \<Rightarrow> LinuxDir \<Rightarrow> string \<Rightarrow> OpenOptions \<Rightarrow> LinuxFile io" where
  "dir_open os d rel opts =
    attempt (ret (open_flags opts)) (\<lambda>flags.
    attempt (openat os (ld_fd d) rel flags 0x1B6) (\<lambda>f. ret (Ok (file_of f))))"

definition open_dir :: "unix \<Rightarrow> LinuxDir \<Rightarrow> string \<Rightarrow> LinuxDir io" where
  "open_dir os d rel =
    attempt (openat_r2 os (ld_fd d) rel (O_RDONLY OR O_DIRECTORY) 0) (\<lambda>f. ret (Ok (dir_of f)))"

text \<open>In the branch with a parent its descriptor is dropped after \<open>mkdirat\<close>, whatever that returned.\<close>

definition create_dir :: "unix \<Rightarrow> LinuxDir \<Rightarrow> string \<Rightarrow> unit io" where
  "create_dir os d rel =
    (case split_last_component rel of
       None \<Rightarrow> mkdirat os (ld_fd d) rel
     | Some (parent, leaf) \<Rightarrow>
         attempt (openat_r2 os (ld_fd d) parent (O_RDONLY OR O_DIRECTORY) 0) (\<lambda>parent_fd h.
           (case mkdirat os parent_fd leaf h of
              (r, h1) \<Rightarrow> (r, snd (invoke os (CloseFd parent_fd) h1)))))"

definition dir_metadata :: "unix \<Rightarrow> LinuxDir \<Rightarrow> string \<Rightarrow> Metadata io" where
  "dir_metadata os d rel =
    attempt (statat os (ld_fd d) rel) (\<lambda>(ft, len, nlink, modified).
    ret (Ok \<lparr>md_type = ft, md_len = len, md_nlink = nlink, md_modified = modified\<rparr>))"

abbreviation R_OK :: i32 where "R_OK \<equiv> 4"
abbreviation W_OK :: i32 where "W_OK \<equiv> 2"
abbreviation X_OK :: i32 where "X_OK \<equiv> 1"

definition dir_access :: "unix \<Rightarrow> LinuxDir \<Rightarrow> string \<Rightarrow> AccessMode \<Rightarrow> unit io" where
  "dir_access os d rel mode =
    (if \<not> (am_read mode \<or> am_write mode \<or> am_execute mode) then ret (Ok ())
     else
       (let bits0 = 0;
            bits1 = (if am_read mode then bits0 OR R_OK else bits0);
            bits2 = (if am_write mode then bits1 OR W_OK else bits1);
            bits3 = (if am_execute mode then bits2 OR X_OK else bits2)
        in access os (ld_fd d) rel bits3))"

definition dir_unix_mode :: "unix \<Rightarrow> LinuxDir \<Rightarrow> string \<Rightarrow> UnixMode option io" where
  "dir_unix_mode os d rel = attempt (unix_mode os (ld_fd d) rel) (\<lambda>m. ret (Ok (Some m)))"

definition dir_set_unix_mode :: "unix \<Rightarrow> LinuxDir \<Rightarrow> string \<Rightarrow> Mode \<Rightarrow> unit io" where
  "dir_set_unix_mode os d rel mode = set_unix_mode os (ld_fd d) rel mode"

definition dir_file_id :: "unix \<Rightarrow> LinuxDir \<Rightarrow> string \<Rightarrow> FileId io" where
  "dir_file_id os d rel =
    attempt (file_id os (ld_fd d) rel) (\<lambda>(dev, ino). ret (Ok (FileId dev ino)))"

definition dir_read_dir ::
  "unix \<Rightarrow> LinuxDir \<Rightarrow> unix_calls \<Rightarrow> (DirEntry list result \<times> unix_calls) option" where
  "dir_read_dir os d h =
    (case openat os (ld_fd d) ''.'' (O_RDONLY OR O_DIRECTORY) 0 h of
       (Err e, h1) \<Rightarrow> Some (Err e, h1)
     | (Ok f, h1) \<Rightarrow>
         map_option (\<lambda>(r, h2).
           (case r of Err e \<Rightarrow> Err e
            | Ok xs \<Rightarrow> Ok (map (\<lambda>(name, ft). \<lparr>de_name = name, de_type = ft\<rparr>) xs), h2))
           (read_dir os f h1))"

definition dir_remove_file :: "unix \<Rightarrow> LinuxDir \<Rightarrow> string \<Rightarrow> unit io" where
  "dir_remove_file os d rel = unlinkat os (ld_fd d) rel False"

definition dir_remove_dir :: "unix \<Rightarrow> LinuxDir \<Rightarrow> string \<Rightarrow> unit io" where
  "dir_remove_dir os d rel = unlinkat os (ld_fd d) rel True"

definition dir_symlink :: "unix \<Rightarrow> LinuxDir \<Rightarrow> string \<Rightarrow> string \<Rightarrow> unit io" where
  "dir_symlink os d target link_name = symlink os (ld_fd d) target link_name"

definition dir_read_link ::
  "unix \<Rightarrow> LinuxDir \<Rightarrow> string \<Rightarrow> unix_calls \<Rightarrow> (string result \<times> unix_calls) option" where
  "dir_read_link os d rel = read_link os (ld_fd d) rel"

definition dir_rename :: "unix \<Rightarrow> LinuxDir \<Rightarrow> string \<Rightarrow> string \<Rightarrow> unit io" where
  "dir_rename os d from to = rename os (ld_fd d) from to"

definition dir_rename_no_replace :: "unix \<Rightarrow> LinuxDir \<Rightarrow> string \<Rightarrow> string \<Rightarrow> unit io" where
  "dir_rename_no_replace os d from to = rename_no_replace os (ld_fd d) from to"

definition dir_sync_dir :: "unix \<Rightarrow> LinuxDir \<Rightarrow> unit io" where
  "dir_sync_dir os d = fsync os (ld_fd d)"

definition linux_dir_ops :: "unix \<Rightarrow> LinuxDir \<Rightarrow> (unix_calls, LinuxFile) DirOps" where
  "linux_dir_ops os d =
    \<lparr>do_open = (\<lambda>h rel opts. dir_open os d rel opts h),
     do_write = (\<lambda>h f buf. file_write os f buf h),
     do_sync_all = (\<lambda>h f. file_sync_all os f h),
     do_remove_file = (\<lambda>h rel. dir_remove_file os d rel h),
     do_rename = (\<lambda>h from to. dir_rename os d from to h),
     do_sync_dir = (\<lambda>h. dir_sync_dir os d h),
     do_drop = (\<lambda>h f. drop_file os f h)\<rparr>"

section \<open>The last component\<close>

lemma rposition_None: "rposition P xs = None \<longleftrightarrow> (\<forall>x\<in>set xs. \<not> P x)"
  by (simp add: rposition_def)

lemma rposition_snoc:
  "rposition P (xs @ [x]) = (if P x then Some (length xs) else rposition P xs)"
  by (auto simp: rposition_def)

lemma rposition_Some_iff:
  "rposition P xs = Some i \<longleftrightarrow> i < length xs \<and> P (xs ! i) \<and> (\<forall>x\<in>set (drop (Suc i) xs). \<not> P x)"
proof (induction xs rule: rev_induct)
  case Nil
  then show ?case by (simp add: rposition_def)
next
  case (snoc x xs)
  show ?case
  proof (cases "i = length xs")
    case True
    then show ?thesis using snoc by (auto simp: rposition_snoc)
  next
    case False
    then show ?thesis using snoc by (auto simp: rposition_snoc nth_append less_Suc_eq)
  qed
qed

lemma rposition_appended:
  assumes "P x" "\<forall>y\<in>set ys. \<not> P y"
  shows "rposition P (xs @ x # ys) = Some (length xs)"
  using assms by (simp add: rposition_Some_iff)

lemma split_last_component_joined:
  assumes "leaf \<noteq> []" "CHR ''/'' \<notin> set leaf"
  shows "split_last_component (parent @ ''/'' @ leaf @ replicate n (CHR ''/'')) = Some (parent, leaf)"
proof -
  obtain us u where leaf: "leaf = us @ [u]" using assms(1) by (metis append_butlast_last_id)
  have "rposition (\<lambda>b. b \<noteq> CHR ''/'') (parent @ ''/'' @ leaf @ replicate n (CHR ''/'')) =
      Some (length (parent @ ''/'' @ us))"
    using rposition_appended[of "\<lambda>b. b \<noteq> CHR ''/''" u "replicate n (CHR ''/'')" "parent @ ''/'' @ us"]
      assms(2) by (auto simp: leaf)
  moreover have "rposition (\<lambda>b. b = CHR ''/'') (parent @ ''/'' @ leaf) = Some (length parent)"
    using rposition_appended[of "\<lambda>b. b = CHR ''/''" "CHR ''/''" leaf parent] assms(2) by auto
  ultimately show ?thesis by (simp add: split_last_component_def leaf)
qed

lemma split_last_component_Some:
  assumes "split_last_component rel = Some (parent, leaf)"
  shows "leaf \<noteq> [] \<and> CHR ''/'' \<notin> set leaf \<and>
    (\<exists>n. rel = parent @ ''/'' @ leaf @ replicate n (CHR ''/''))"
proof -
  obtain i where i: "rposition (\<lambda>b. b \<noteq> CHR ''/'') rel = Some i"
    using assms by (auto simp: split_last_component_def split: option.splits)
  let ?tr = "take (Suc i) rel"
  obtain pos where p: "rposition (\<lambda>b. b = CHR ''/'') ?tr = Some pos"
    "parent = take pos ?tr" "leaf = drop (Suc pos) ?tr"
    using assms i by (auto simp: split_last_component_def Let_def split: option.splits)
  from i have i': "i < length rel" "rel ! i \<noteq> CHR ''/''" "\<forall>x\<in>set (drop (Suc i) rel). x = CHR ''/''"
    by (auto simp: rposition_Some_iff)
  from p(1) have p': "pos < length ?tr" "?tr ! pos = CHR ''/''" "CHR ''/'' \<notin> set leaf"
    by (auto simp: rposition_Some_iff p(3))
  have "pos \<noteq> i" using p'(1,2) i' by auto
  then have "leaf \<noteq> []" using p' i' by (auto simp: p(3))
  have tail: "drop (Suc i) rel = replicate (length rel - Suc i) (CHR ''/'')"
    using i'(3) by (intro replicate_eqI) auto
  have tr: "?tr = parent @ ''/'' @ leaf"
    using id_take_nth_drop[OF p'(1)] p'(2) by (simp only: p(2,3)) simp
  have "rel = ?tr @ drop (Suc i) rel" by simp
  also have "\<dots> = parent @ ''/'' @ leaf @ replicate (length rel - Suc i) (CHR ''/'')"
    by (simp only: tr tail append_assoc)
  finally show ?thesis using p'(3) \<open>leaf \<noteq> []\<close> by blast
qed

text \<open>The split at the last component: exactly when the path is a parent, a slash, a
  non-empty leaf without slashes and any number of trailing slashes, and then into that
  parent and that leaf.\<close>

theorem split_last_component_spec:
  "split_last_component rel = Some (parent, leaf) \<longleftrightarrow>
    leaf \<noteq> [] \<and> CHR ''/'' \<notin> set leaf \<and>
    (\<exists>n. rel = parent @ ''/'' @ leaf @ replicate n (CHR ''/''))"
  using split_last_component_Some split_last_component_joined by blast

section \<open>Containment\<close>

text \<open>A directory is resolved with \<open>openat2\<close> and the two containment flags; the plain \<open>openat\<close> is
  used only right after the kernel answered \<open>ENOSYS\<close> to the same request.\<close>

definition contained :: "unix_calls \<Rightarrow> bool" where
  "contained t \<longleftrightarrow>
    (\<forall>i < length t. case fst (t ! i) of
       OpenAt2 _ _ _ _ resolve \<Rightarrow> resolve = R2_RESOLVE
     | OpenAt d p fl m \<Rightarrow> 0 < i \<and> t ! (i - 1) = (OpenAt2 d p (scast fl) (ucast m) R2_RESOLVE, Inl ENOSYS)
     | _ \<Rightarrow> True)"

lemma contained_simps:
  "contained []"
  "contained [(r2_call d p fl m, a)]"
  "contained [(r2_call d p fl m, Inl ENOSYS), (r1_call d p fl m, a)]"
  by (simp_all add: contained_def less_Suc_eq)

lemma contained_mkdir:
  "contained t \<Longrightarrow> contained (t @ [(MkdirAt d p m, a), (CloseFd d', b)])"
  "contained t \<Longrightarrow> contained (t @ [(CloseFd d', b)])"
  "contained [(MkdirAt d p m, a)]"
  by (auto simp: contained_def nth_append less_Suc_eq split: UnixCall.splits)

lemma mkdirat_trace:
  "\<exists>r t. mkdirat os d p h = (r, h @ t) \<and> (t = [] \<or> (\<exists>a. t = [(MkdirAt d p 0x1FF, a)]))"
  by (cases "os h (MkdirAt d p 0x1FF)")
    (auto simp: mkdirat_def to_cstring_def call_unit_def attempt_def call_eq)

lemma openat_r2_contained:
  obtains r t where "openat_r2 os dirfd rel flags mode h = (r, h @ t)" "contained t"
  by (cases rule: openat_r2_cases[of rel os dirfd flags mode h]) (auto simp: contained_simps)

lemma keeps_open_dir [ledger]:
  "fds.keeps H (\<lambda>d'. add_mset (ld_fd d') H) H (open_dir os d rel)"
  unfolding open_dir_def
  by (rule accounts_attempt[OF keeps_openat_r2]) (simp add: accounts_def dir_of_def)

lemma keeps_create_dir [ledger]: "fds.keeps H (\<lambda>_. H) H (create_dir os d rel)"
proof (cases "split_last_component rel")
  case None
  then show ?thesis unfolding create_dir_def using keeps_mkdirat by simp
next
  case (Some pl)
  obtain p l where pl: "pl = (p, l)" by force
  have "fds.keeps (add_mset f H) (\<lambda>_. H) H
      (\<lambda>h. case mkdirat os f l h of (r, h1) \<Rightarrow> (r, snd (invoke os (CloseFd f) h1)))" for f
    unfolding accounts_def
  proof
    fix h
    obtain r t where m: "mkdirat os f l h = (r, h @ t)"
      "t = [] \<or> (\<exists>a. t = [(MkdirAt f l 0x1FF, a)])" using mkdirat_trace by blast
    then have "acquired opens_fd t = {#}" "released closes_fd t = {#}"
      by (auto simp: acquired_def released_def call_defs split: sum.split)
    then show "\<exists>t. snd (case mkdirat os f l h of (r, h1) \<Rightarrow> (r, snd (invoke os (CloseFd f) h1))) = h @ t \<and>
        add_mset f H + acquired opens_fd t = released closes_fd t +
          (case fst (case mkdirat os f l h of (r, h1) \<Rightarrow> (r, snd (invoke os (CloseFd f) h1))) of
             Err _ \<Rightarrow> H | Ok _ \<Rightarrow> H)"
      using m(1)
      by (intro exI[of _ "t @ [(CloseFd f, os (h @ t) (CloseFd f))]"])
        (cases "os (h @ t) (CloseFd f)"; simp add: invoke_eq call_defs split: sum.split)
  qed
  then show ?thesis
    unfolding create_dir_def Some pl by (simp) (rule accounts_attempt[OF keeps_openat_r2])
qed

lemma create_dir_trace_contained: "\<exists>t. snd (create_dir os d rel h) = h @ t \<and> contained t"
proof (cases "split_last_component rel")
  case None
  obtain r t where "mkdirat os (ld_fd d) rel h = (r, h @ t)"
    "t = [] \<or> (\<exists>a. t = [(MkdirAt (ld_fd d) rel 0x1FF, a)])" using mkdirat_trace by blast
  then show ?thesis using None by (auto simp: create_dir_def contained_simps contained_mkdir)
next
  case (Some pl)
  obtain p l where pl: "pl = (p, l)" by force
  obtain r t where o: "openat_r2 os (ld_fd d) p (O_RDONLY OR O_DIRECTORY) 0 h = (r, h @ t)" "contained t"
    by (rule openat_r2_contained)
  show ?thesis
  proof (cases r)
    case (Inl e)
    then show ?thesis using o Some pl by (simp add: create_dir_def attempt_def)
  next
    case (Inr f)
    obtain r' u where "mkdirat os f l (h @ t) = (r', (h @ t) @ u)"
      "u = [] \<or> (\<exists>a. u = [(MkdirAt f l 0x1FF, a)])" using mkdirat_trace by blast
    then show ?thesis using o Some pl Inr
      by (auto simp: create_dir_def attempt_def invoke_eq contained_mkdir)
  qed
qed


section \<open>Publishing\<close>

definition written :: "fd \<Rightarrow> unix_calls \<Rightarrow> bytes" where
  "written d t = concat (map (\<lambda>(c, a). case c of
     WriteFd d' buf \<Rightarrow> (case a of Inr r \<Rightarrow> if d' = d then take (nat (ur_ret r)) buf else [] | Inl _ \<Rightarrow> [])
   | _ \<Rightarrow> []) t)"

definition writes_to :: "fd \<Rightarrow> unix_calls \<Rightarrow> bool" where
  "writes_to d t \<longleftrightarrow> (\<forall>(c, a) \<in> set t. \<exists>buf. c = WriteFd d buf)"

lemma written_simps [simp]:
  "written d [] = []"
  "written d (t @ u) = written d t @ written d u"
  "written d [(WriteFd d buf, Inr r)] = take (nat (ur_ret r)) buf"
  "written d ((WriteFd d buf, Inr r) # t) = take (nat (ur_ret r)) buf @ written d t"
  by (simp_all add: written_def)

lemma writes_to_simps [simp]:
  "writes_to d []" "writes_to d ((WriteFd d buf, a) # t) = writes_to d t"
  by (simp_all add: writes_to_def)

lemmas linux_ops = linux_dir_ops_def file_write_def write_fd_def file_sync_all_def fsync_def
  dir_rename_def rename_def renameat2_raw_def dir_sync_dir_def dir_remove_file_def unlinkat_def
  dir_open_def openat_def drop_file_def call_unit_def call_fd_def attempt_def call_eq invoke_eq

lemma write_loop_linux:
  "\<exists>r ws. write_loop (linux_dir_ops os d) tmp h f rest = (r, h @ ws) \<and> writes_to (lf_fd f) ws \<and>
    (r = Ok () \<longrightarrow> written (lf_fd f) ws = rest)"
proof (induction "length rest" arbitrary: h rest rule: less_induct)
  case less
  show ?case
  proof (cases "rest = []")
    case True
    then show ?thesis by (subst write_loop.simps) simp
  next
    case False
    let ?c = "WriteFd (lf_fd f) rest"
    show ?thesis
    proof (cases "os h ?c")
      case (Inl e)
      then show ?thesis using False by (subst write_loop.simps) (simp add: linux_ops)
    next
      case (Inr x)
      let ?n = "nat (ur_ret x)" and ?h1 = "h @ [(?c, Inr x)]"
      have w: "do_write (linux_dir_ops os d) h f rest = (Ok ?n, ?h1)" using Inr by (simp add: linux_ops)
      show ?thesis
      proof (cases "?n = 0")
        case True
        then show ?thesis using False w by (subst write_loop.simps) simp
      next
        case n: False
        have "length (drop ?n rest) < length rest" using n False by simp
        then obtain r ws where r: "write_loop (linux_dir_ops os d) tmp ?h1 f (drop ?n rest) = (r, ?h1 @ ws)"
          "writes_to (lf_fd f) ws" "r = Ok () \<longrightarrow> written (lf_fd f) ws = drop ?n rest"
          using less[of "drop ?n rest" ?h1] by blast
        then show ?thesis using False w n
          by (subst write_loop.simps) (intro exI[of _ r] exI[of _ "(?c, Inr x) # ws"], simp)
      qed
    qed
  qed
qed

text \<open>Creating the temporary file: exclusively, for writing, and closed on \<open>exec\<close>.\<close>

abbreviation create_call :: "LinuxDir \<Rightarrow> string \<Rightarrow> UnixCall" where
  "create_call d tmp \<equiv> OpenAt (ld_fd d) tmp (O_WRONLY OR O_CREAT OR O_EXCL OR O_CLOEXEC) 0x1B6"

lemma open_flags_tmp: "open_flags tmp_options = Ok (O_WRONLY OR O_CREAT OR O_EXCL)"
  by (simp add: open_flags_def tmp_options_def default_open_options_def)

text \<open>What \<open>write_and_sync\<close> may do: nothing, or open, write, perhaps sync, and close.\<close>

definition prepared :: "LinuxDir \<Rightarrow> string \<Rightarrow> bytes \<Rightarrow> unix_calls \<Rightarrow> bool" where
  "prepared d tmp contents t \<longleftrightarrow>
    (\<exists>x ws y z. t = (create_call d tmp, Inr x) # ws @ [(Fsync (ur_ret x), Inr y), (CloseFd (ur_ret x), z)]
       \<and> writes_to (ur_ret x) ws \<and> written (ur_ret x) ws = contents)"

definition quiet :: "unix_calls \<Rightarrow> bool" where
  "quiet t \<longleftrightarrow> (\<forall>(c, a) \<in> set t. case c of RenameAt2 _ _ _ _ _ \<Rightarrow> False | _ \<Rightarrow> True)"

lemma quiet_simps [simp]:
  "quiet []" "quiet ((OpenAt d p fl m, a) # t) = quiet t" "quiet ((Fsync d, a) # t) = quiet t"
  "quiet ((CloseFd d, a) # t) = quiet t" "quiet ((UnlinkAt d p fl, a) # t) = quiet t"
  "quiet (t @ u) = (quiet t \<and> quiet u)"
  by (auto simp: quiet_def)

lemma quiet_writes [simp]: "writes_to d t \<Longrightarrow> quiet t"
  by (fastforce simp: quiet_def writes_to_def)

lemma ledger_writes:
  "writes_to d t \<Longrightarrow> acquired opens_fd t = {#} \<and> released closes_fd t = {#}"
  by (induction t) (auto simp: writes_to_def acquired_def released_def call_defs split: sum.splits)

lemma sync_and_drop:
  "\<exists>r y z. (case do_sync_all (linux_dir_ops os d) h f of (r, h1) \<Rightarrow> (r, do_drop (linux_dir_ops os d) h1 f)) =
      (r, h @ [(Fsync (lf_fd f), y), (CloseFd (lf_fd f), z)]) \<and> (r = Ok () \<longrightarrow> (\<exists>v. y = Inr v))"
  by (cases "os h (Fsync (lf_fd f))") (simp_all add: linux_ops)

lemma drop_linux:
  "do_drop (linux_dir_ops os d) h f = h @ [(CloseFd (lf_fd f), os h (CloseFd (lf_fd f)))]"
  by (simp add: linux_ops)

lemma create_tmp_linux:
  "(\<exists>e t. do_open (linux_dir_ops os d) h tmp tmp_options = (Err e, h @ t) \<and> quiet t \<and>
      acquired opens_fd t = {#} \<and> released closes_fd t = {#}) \<or>
   (\<exists>x. do_open (linux_dir_ops os d) h tmp tmp_options =
      (Ok (file_of (ur_ret x)), h @ [(create_call d tmp, Inr x)]))"
  by (cases "os h (create_call d tmp)")
    (auto simp: linux_ops open_flags_tmp to_cstring_def or.assoc ledger_Cons call_defs)

lemma write_and_sync_linux:
  "\<exists>r t. write_and_sync (linux_dir_ops os d) tmp h contents = (r, h @ t) \<and> quiet t \<and>
    acquired opens_fd t = released closes_fd t \<and> (r = Ok () \<longrightarrow> prepared d tmp contents t)"
proof -
  let ?ops = "linux_dir_ops os d" and ?c = "create_call d tmp"
  consider (fails) e t where "do_open ?ops h tmp tmp_options = (Err e, h @ t)" "quiet t"
      "acquired opens_fd t = {#}" "released closes_fd t = {#}"
    | (opened) x where "do_open ?ops h tmp tmp_options = (Ok (file_of (ur_ret x)), h @ [(?c, Inr x)])"
    using create_tmp_linux[of os d h tmp] by blast
  then show ?thesis
  proof cases
    case fails
    then show ?thesis by (simp add: write_and_sync_def)
  next
    case opened
    let ?f = "file_of (ur_ret x)" and ?h1 = "h @ [(?c, Inr x)]"
    obtain r ws where w: "write_loop ?ops tmp ?h1 ?f contents = (r, ?h1 @ ws)" "writes_to (ur_ret x) ws"
      "r = Ok () \<longrightarrow> written (ur_ret x) ws = contents"
      using write_loop_linux[of os d tmp ?h1 ?f contents] by (auto simp: file_of_def)
    note l = ledger_writes[OF w(2)]
    show ?thesis
    proof (cases r)
      case (Inl e)
      then show ?thesis using opened w l
        by (simp add: write_and_sync_def drop_linux file_of_def ledger_Cons call_defs)
    next
      case (Inr u)
      obtain r' y z where "(case do_sync_all ?ops (?h1 @ ws) ?f of (r, h1) \<Rightarrow> (r, do_drop ?ops h1 ?f)) =
          (r', (?h1 @ ws) @ [(Fsync (ur_ret x), y), (CloseFd (ur_ret x), z)])" "r' = Ok () \<longrightarrow> (\<exists>v. y = Inr v)"
        using sync_and_drop[where os = os and d = d and h = "?h1 @ ws" and f = ?f] by (auto simp: file_of_def)
      then show ?thesis using Inr opened w l
        by (intro exI[of _ r'] exI[of _ "(?c, Inr x) # ws @ [(Fsync (ur_ret x), y), (CloseFd (ur_ret x), z)]"])
          (auto simp: write_and_sync_def ledger_Cons call_defs prepared_def)
    qed
  qed
qed

text \<open>The publishing step: the rename comes when the temporary file is ready, and success means
  that the rename and the synchronisation of the directory after it succeeded.\<close>

definition published :: "LinuxDir \<Rightarrow> string \<Rightarrow> string \<Rightarrow> bytes \<Rightarrow> bool \<Rightarrow> unix_calls \<Rightarrow> bool" where
  "published d tmp rel contents success t \<longleftrightarrow>
    (\<exists>p a post. t = p @ (RenameAt2 (ld_fd d) tmp (ld_fd d) rel 0, a) # post \<and> prepared d tmp contents p
       \<and> (post = [] \<or> (\<exists>b. post = [(Fsync (ld_fd d), b)]))
       \<and> (success \<longrightarrow> \<not> isl a \<and> (\<exists>b. post = [(Fsync (ld_fd d), Inr b)])))"

lemma published_renamed:
  assumes "prepared d tmp contents p"
  shows "published d tmp rel contents False (p @ [(RenameAt2 (ld_fd d) tmp (ld_fd d) rel 0, a)])"
  using assms unfolding published_def by blast

lemma published_synced:
  assumes "prepared d tmp contents p" "success \<longrightarrow> \<not> isl a \<and> \<not> isl b"
  shows "published d tmp rel contents success
    (p @ [(RenameAt2 (ld_fd d) tmp (ld_fd d) rel 0, a), (Fsync (ld_fd d), b)])"
  unfolding published_def
proof (intro exI conjI)
  show "success \<longrightarrow> \<not> isl a \<and> (\<exists>b'. [(Fsync (ld_fd d), b)] = [(Fsync (ld_fd d), Inr b')])"
    using assms(2) by (cases b) auto
qed (use assms(1) in auto)

lemma rename_linux:
  "\<exists>r t. do_rename (linux_dir_ops os d) h tmp rel = (r, h @ t) \<and>
    ((t = [] \<and> r \<noteq> Ok ()) \<or> (\<exists>a. t = [(RenameAt2 (ld_fd d) tmp (ld_fd d) rel 0, a)] \<and> (r = Ok () \<longleftrightarrow> \<not> isl a)))"
  by (cases "os h (RenameAt2 (ld_fd d) tmp (ld_fd d) rel 0)") (auto simp: linux_ops to_cstring_def)

lemma remove_linux:
  "\<exists>t. snd (do_remove_file (linux_dir_ops os d) h tmp) = h @ t \<and> quiet t \<and>
    acquired opens_fd t = {#} \<and> released closes_fd t = {#}"
  by (cases "os h (UnlinkAt (ld_fd d) tmp 0)")
    (auto simp: linux_ops to_cstring_def ledger_Cons call_defs)

lemma sync_dir_linux:
  "\<exists>r a. do_sync_dir (linux_dir_ops os d) h = (r, h @ [(Fsync (ld_fd d), a)]) \<and> (r = Ok () \<longleftrightarrow> \<not> isl a)"
  by (cases "os h (Fsync (ld_fd d))") (auto simp: linux_ops)

lemma write_atomic_linux:
  assumes "write_atomic (linux_dir_ops os d) pid counter h rel contents = (r, counter', h')"
  defines "tmp \<equiv> tmp_name rel pid counter"
  shows "\<exists>t. h' = h @ t \<and> acquired opens_fd t = released closes_fd t \<and>
    (quiet t \<and> r \<noteq> Ok () \<or> published d tmp rel contents (r = Ok ()) t)"
proof -
  let ?ops = "linux_dir_ops os d"
  obtain r1 t1 where w: "write_and_sync ?ops tmp h contents = (r1, h @ t1)" "quiet t1"
    "acquired opens_fd t1 = released closes_fd t1" "r1 = Ok () \<longrightarrow> prepared d tmp contents t1"
    using write_and_sync_linux by blast
  show ?thesis
  proof (cases r1)
    case (Inl e)
    obtain t2 where "snd (do_remove_file ?ops (h @ t1) tmp) = (h @ t1) @ t2" "quiet t2"
      "acquired opens_fd t2 = {#}" "released closes_fd t2 = {#}"
      using remove_linux by blast
    then show ?thesis using assms(1) w Inl
      by (intro exI[of _ "t1 @ t2"]) (auto simp: write_atomic_def Let_def simp flip: tmp_def)
  next
    case (Inr u)
    obtain r2 t2 where m: "do_rename ?ops (h @ t1) tmp rel = (r2, (h @ t1) @ t2)"
      "(t2 = [] \<and> r2 \<noteq> Ok ()) \<or>
       (\<exists>a. t2 = [(RenameAt2 (ld_fd d) tmp (ld_fd d) rel 0, a)] \<and> (r2 = Ok () \<longleftrightarrow> \<not> isl a))"
      using rename_linux by blast
    obtain r3 b where s: "do_sync_dir ?ops ((h @ t1) @ t2) = (r3, ((h @ t1) @ t2) @ [(Fsync (ld_fd d), b)])"
      "r3 = Ok () \<longleftrightarrow> \<not> isl b"
      using sync_dir_linux by blast
    have p: "prepared d tmp contents t1" using w(4) Inr by simp
    show ?thesis
    proof (cases r2)
      case r2: (Inl e)
      have "h' = h @ t1 @ t2" "r = Err e"
        using assms(1) w(1) Inr m(1) r2 by (simp_all add: write_atomic_def Let_def flip: tmp_def)
      then show ?thesis using w m(2) published_renamed[OF p, of rel]
        by (intro exI[of _ "t1 @ t2"]) (auto simp: ledger_Cons call_defs)
    next
      case r2: (Inr v)
      have "h' = h @ t1 @ t2 @ [(Fsync (ld_fd d), b)]" "r = r3"
        using assms(1) w(1) Inr m(1) r2 s(1) by (simp_all add: write_atomic_def Let_def flip: tmp_def)
      then show ?thesis using w m(2) r2 s(2) published_synced[OF p, of "r = Ok ()" _ b rel]
        by (intro exI[of _ "t1 @ t2 @ [(Fsync (ld_fd d), b)]"]) (auto simp: ledger_Cons call_defs)
    qed
  qed
qed

text \<open>C11. Atomic replacement on Linux, for every behaviour of the kernel: the target is renamed
  over only after the temporary file was created exclusively, accepted every byte of the
  contents, and was synchronised and closed; success is reported only when the rename and
  the synchronisation of the directory succeeded; no descriptor stays open.\<close>

theorem linux_write_atomic_order:
  "\<exists>t. snd (snd (write_atomic (linux_dir_ops os d) pid counter h rel contents)) = h @ t
    \<and> acquired opens_fd t = released closes_fd t
    \<and> (if quiet t then fst (write_atomic (linux_dir_ops os d) pid counter h rel contents) \<noteq> Ok ()
       else published d (tmp_name rel pid counter) rel contents
         (fst (write_atomic (linux_dir_ops os d) pid counter h rel contents) = Ok ()) t)"
proof -
  obtain r c' h' where e: "write_atomic (linux_dir_ops os d) pid counter h rel contents = (r, c', h')"
    by (metis prod_cases3)
  have "\<not> quiet t" if "published d tmp rel contents b t" for tmp b t
    using that by (auto simp: published_def) (auto simp: quiet_def)
  then show ?thesis using write_atomic_linux[OF e] e by fastforce
qed

end
