(* ===== verification/Sockets.thy ===== *)
theory Sockets
  imports Platform_Net Unix_Calls
begin

text \<open>
  What the socket backends share: the memory layout of the address structures, and the
  constants of the C library, which differ between the systems and are a parameter
  (\<open>net_libc\<close>).  The two Unix backends are \<open>Linux_Net\<close> and
  \<open>Bsd_Net\<close>, the Winsock one is \<open>Windows_Net\<close>.  Multi-byte fields that the code stores in host
  order are little-endian, as on every target the crates name.
\<close>

section \<open>Big-endian fields\<close>

definition to_be_bytes :: "nat \<Rightarrow> 'a::len word \<Rightarrow> bytes" where
  "to_be_bytes n w = rev (to_le_bytes n w)"

definition from_be_bytes :: "bytes \<Rightarrow> 'a::len word" where
  "from_be_bytes bs = from_le_bytes (rev bs)"

lemma length_to_be_bytes [simp]: "length (to_be_bytes n w) = n"
  by (simp add: to_be_bytes_def)

lemma from_to_le_bytes:
  assumes "LENGTH('a) = 8 * n"
  shows "from_le_bytes (to_le_bytes n w) = (w :: 'a::len word)"
proof -
  have "(256 :: nat) ^ n = 2 ^ LENGTH('a)" by (simp add: assms power_mult)
  then have "unat w < 256 ^ n" by (metis unsigned_less)
  then show ?thesis by (simp add: to_le_bytes_def from_le_bytes_def)
qed

lemma from_to_be_bytes:
  assumes "LENGTH('a) = 8 * n"
  shows "from_be_bytes (to_be_bytes n w) = (w :: 'a::len word)"
  by (simp add: from_be_bytes_def to_be_bytes_def from_to_le_bytes assms)

section \<open>Address structures\<close>

text \<open>\<open>sockaddr_in\<close> and \<open>sockaddr_in6\<close> after their two-byte header, which holds the family (and
  on the BSDs the length).  The port is in network order; the octets are in memory order;
  the flow label and the scope are in host order.\<close>

definition sin_body :: "u32 \<Rightarrow> u16 \<Rightarrow> bytes" where
  "sin_body ip port = to_be_bytes 2 port @ to_be_bytes 4 ip @ replicate 8 0"

definition sin6_body :: "128 word \<Rightarrow> u16 \<Rightarrow> u32 \<Rightarrow> u32 \<Rightarrow> bytes" where
  "sin6_body ip port flowinfo scope =
    to_be_bytes 2 port @ to_le_bytes 4 flowinfo @ to_be_bytes 16 ip @ to_le_bytes 4 scope"

definition read_sin :: "bytes \<Rightarrow> SocketAddr" where
  "read_sin s = SocketAddrV4 (from_be_bytes (field_at 4 4 s)) (from_be_bytes (field_at 2 2 s))"

definition read_sin6 :: "bytes \<Rightarrow> SocketAddr" where
  "read_sin6 s =
    SocketAddrV6 (from_be_bytes (field_at 8 16 s)) (from_be_bytes (field_at 2 2 s))
      (from_le_bytes (field_at 4 4 s)) (from_le_bytes (field_at 24 4 s))"

lemma length_sin_body [simp]: "length (sin_body ip port) = 14" "length (sin6_body ip' port f sc) = 26"
  by (simp_all add: sin_body_def sin6_body_def)

lemma read_sin_body [codec_simps]:
  assumes "length hdr = 2"
  shows "read_sin (hdr @ sin_body ip port @ rest) = SocketAddrV4 ip port"
    and "read_sin6 (hdr @ sin6_body ip' port f sc @ rest) = SocketAddrV6 ip' port f sc"
  using assms
  by (simp_all add: read_sin_def read_sin6_def sin_body_def sin6_body_def field_at_skip
      from_to_be_bytes from_to_le_bytes)

text \<open>What \<open>bind\<close> and \<open>getsockname\<close> exchange: the header, the path, one NUL.\<close>

lemma take_sun:
  assumes "length bs < n" "length hdr = 2"
  shows "take (length bs + 3) (hdr @ zero_fill n bs) = hdr @ bs @ [0]"
proof -
  obtain k where "n - length bs = Suc k" using assms(1) by (metis Suc_diff_Suc)
  then show ?thesis using assms by (simp add: zero_fill_fits)
qed

definition unknown_family :: PlatformError where
  "unknown_family = new_error Other NoCode ''unrecognized address family''"

section \<open>The constants of the C library\<close>

record net_libc =
  lc_ECONNREFUSED :: i32
  lc_ECONNRESET :: i32
  lc_ECONNABORTED :: i32
  lc_ENOTCONN :: i32
  lc_EADDRINUSE :: i32
  lc_EADDRNOTAVAIL :: i32
  lc_ETIMEDOUT :: i32
  lc_EACCES :: i32
  lc_EPERM :: i32
  lc_EINVAL :: i32
  lc_EAGAIN :: i32
  lc_EINTR :: i32
  lc_ENOENT :: i32
  lc_EPIPE :: i32
  lc_AF_UNIX :: u8
  lc_AF_INET :: u8
  lc_AF_INET6 :: u8
  lc_SOCK_STREAM :: i32
  lc_SOCK_DGRAM :: i32
  lc_SOCK_CLOEXEC :: i32
  lc_SOL_SOCKET :: i32
  lc_SO_REUSEADDR :: i32
  lc_SO_RCVTIMEO :: i32
  lc_IPPROTO_TCP :: i32
  lc_TCP_NODELAY :: i32
  lc_O_NONBLOCK :: i32
  lc_FD_CLOEXEC :: i32
  lc_SOMAXCONN :: i32
  lc_SUN_PATH_LEN :: nat

text \<open>What the code relies on: the families it tells apart differ.\<close>

definition families_differ :: "net_libc \<Rightarrow> bool" where
  "families_differ lc \<longleftrightarrow> lc_AF_INET lc \<noteq> lc_AF_INET6 lc"

text \<open>The error classification of the two Unix socket modules.\<close>

definition net_kind :: "net_libc \<Rightarrow> i32 \<Rightarrow> ErrorKind" where
  "net_kind lc errno =
    (if errno = lc_ECONNREFUSED lc then ConnectionRefused
     else if errno = lc_ECONNRESET lc then ConnectionReset
     else if errno = lc_ECONNABORTED lc then ConnectionAborted
     else if errno = lc_ENOTCONN lc then NotConnected
     else if errno = lc_EADDRINUSE lc then AddrInUse
     else if errno = lc_EADDRNOTAVAIL lc then AddrNotAvailable
     else if errno = lc_ETIMEDOUT lc then TimedOut
     else if errno = lc_EACCES lc \<or> errno = lc_EPERM lc then PermissionDenied
     else if errno = lc_EINVAL lc then InvalidInput
     else if errno = lc_EAGAIN lc then WouldBlock
     else if errno = lc_EINTR lc then Interrupted
     else if errno = lc_ENOENT lc then NotFound
     else Other)"

definition net_error :: "net_libc \<Rightarrow> string \<Rightarrow> i32 \<Rightarrow> PlatformError" where
  "net_error lc op e = new_error (net_kind lc e) (Errno e) op"

definition nul_in_path :: PlatformError where
  "nul_in_path = new_error InvalidInput NoCode ''AF_UNIX path must not contain a NUL byte''"

definition path_too_long :: PlatformError where
  "path_too_long =
    new_error InvalidInput NoCode ''AF_UNIX path too long (must fit in sockaddr_un::sun_path)''"

definition path_to_cstring :: "string \<Rightarrow> string result" where
  "path_to_cstring path = (if CHR 0x00 \<in> set path then Err nul_in_path else Ok path)"

section \<open>Socket options\<close>

text \<open>\<open>timeval\<close>: two 64-bit fields.  \<open>as_secs() as time_t\<close> keeps the bits.\<close>

definition timeval :: "Duration option \<Rightarrow> bytes" where
  "timeval timeout =
    (case timeout of
       Some d \<Rightarrow> to_le_bytes 8 (dur_secs d) @ to_le_bytes 8 (ucast (subsec_micros d) :: u64)
     | None \<Rightarrow> to_le_bytes 8 (0 :: u64) @ to_le_bytes 8 (0 :: u64))"

text \<open>What the kernel makes of a \<open>timeval\<close>: microseconds, all zero standing for no timeout.\<close>

definition timeval_micros :: "bytes \<Rightarrow> int" where
  "timeval_micros tv =
    sint (from_le_bytes (field_at 0 8 tv) :: 64 word) * 1000000
      + sint (from_le_bytes (field_at 8 8 tv) :: 64 word)"

lemma timeval_micros_eq:
  assumes "duration_ok d" "unat (dur_secs d) < 2 ^ 63"
  shows "timeval_micros (timeval (Some d)) = int (as_nanos d div 1000)"
proof -
  let ?us = "ucast (subsec_micros d) :: u64"
  have u: "unat ?us = unat (dur_nanos d) div 1000"
    using unsigned_less[of "dur_nanos d", where ?'a = nat]
    by (simp add: unsigned_ucast_eq unat_subsec_micros take_bit_nat_eq_self)
  have m: "sint ?us = int (unat (dur_nanos d) div 1000)"
    using sint_64_small[of ?us] assms(1) u by (simp add: duration_ok_def)
  have "timeval_micros (timeval (Some d)) = int (unat (dur_secs d)) * 1000000 + int (unat (dur_nanos d) div 1000)"
    using sint_64_small[OF assms(2)] m
    by (simp add: timeval_micros_def timeval_def field_at_def)
  moreover have "as_nanos d div 1000 = unat (dur_secs d) * 1000000 + unat (dur_nanos d) div 1000"
    using div_mult_self1[of 1000 "unat (dur_nanos d)" "unat (dur_secs d) * 1000000"]
    by (simp add: as_nanos_def mult.commute add.commute)
  ultimately show ?thesis by simp
qed

section \<open>Listening on a path\<close>

text \<open>The listening code of the two Unix backends, over the backend's way to make a socket
  (\<open>mk_socket\<close>) and to pack a path (\<open>pack\<close>).  The probe's descriptor is dropped after the error
  number was read.\<close>

definition is_stale_socket_with ::
  "net_libc \<Rightarrow> fd io \<Rightarrow> (string \<Rightarrow> (bytes \<times> nat) result) \<Rightarrow> unix \<Rightarrow> string \<Rightarrow>
   unix_calls \<Rightarrow> bool \<times> unix_calls" where
  "is_stale_socket_with lc mk_socket pack os path h =
    (case mk_socket h of
       (Err _, h1) \<Rightarrow> (False, h1)
     | (Ok probe, h1) \<Rightarrow>
         (case pack path of
            Err _ \<Rightarrow> (False, snd (invoke os (CloseFd probe) h1))
          | Ok (addr, len) \<Rightarrow>
              (case invoke os (Connect probe (take len addr)) h1 of
                 (a, h2) \<Rightarrow>
                   (let stale = (case a of Inr r \<Rightarrow> ur_ret r \<noteq> 0 | Inl _ \<Rightarrow> True)
                                \<and> last_error h2 = lc_ECONNREFUSED lc
                    in (stale, snd (invoke os (CloseFd probe) h2))))))"

definition bind_reclaiming ::
  "net_libc \<Rightarrow> fd io \<Rightarrow> (string \<Rightarrow> (bytes \<times> nat) result) \<Rightarrow> unix \<Rightarrow> fd \<Rightarrow> string \<Rightarrow> bytes \<Rightarrow>
   (i32 + UnixReply) io" where
  "bind_reclaiming lc mk_socket pack os d path addr h =
    (case invoke os (Bind d addr) h of
       (a, h1) \<Rightarrow>
         (if isl a \<and> last_error h1 = lc_EADDRINUSE lc
          then case is_stale_socket_with lc mk_socket pack os path h1 of
                 (False, h2) \<Rightarrow> (Ok a, h2)
               | (True, h2) \<Rightarrow>
                   attempt (ret (path_to_cstring path)) (\<lambda>c_path h3.
                     (case invoke os (Bind d addr) (snd (invoke os (UnlinkAt AT_FDCWD c_path 0) h3)) of
                        (a', h4) \<Rightarrow> (Ok a', h4))) h2
          else (Ok a, h1)))"

text \<open>From \<open>if r < 0\<close> on: report the failed bind, narrow the mode, listen.\<close>

definition finish_listen :: "net_libc \<Rightarrow> unix \<Rightarrow> fd \<Rightarrow> string \<Rightarrow> i32 + UnixReply \<Rightarrow> fd io" where
  "finish_listen lc os d path r =
    attempt (\<lambda>h. (if isl r then Err (net_error lc ''bind'' (last_error h)) else Ok (), h)) (\<lambda>_.
    attempt (ret (path_to_cstring path)) (\<lambda>c_path.
    attempt (call os (net_error lc ''chmod'') (Chmod c_path 0x180)) (\<lambda>_.
    attempt (call os (net_error lc ''listen'') (Listen d (lc_SOMAXCONN lc))) (\<lambda>_.
    ret (Ok d)))))"

definition unix_listen_with ::
  "net_libc \<Rightarrow> fd io \<Rightarrow> (string \<Rightarrow> (bytes \<times> nat) result) \<Rightarrow> unix \<Rightarrow> string \<Rightarrow> fd io" where
  "unix_listen_with lc mk_socket pack os path =
    attempt mk_socket (\<lambda>d. or_close os (CloseFd d)
      (attempt (ret (pack path)) (\<lambda>(addr, len).
       attempt (bind_reclaiming lc mk_socket pack os d path (take len addr))
         (finish_listen lc os d path))))"

section \<open>What the listening code may do\<close>

text \<open>What justifies a call while listening on \<open>path\<close>, whose packed form is \<open>sa\<close>: removing the
  path needs a bind that found the address in use and a connection to it that was refused;
  listening needs a successful bind and the mode narrowed to the owner.\<close>

definition listen_rule :: "net_libc \<Rightarrow> string \<Rightarrow> bytes \<Rightarrow> unix_calls \<Rightarrow> UnixCall \<Rightarrow> bool" where
  "listen_rule lc path sa p c \<longleftrightarrow>
    (case c of
       UnlinkAt dirfd q fl \<Rightarrow> dirfd = AT_FDCWD \<and> q = path \<and> fl = 0
         \<and> (\<exists>d. (Bind d sa, Inl (lc_EADDRINUSE lc)) \<in> set p)
         \<and> (\<exists>d. (Connect d sa, Inl (lc_ECONNREFUSED lc)) \<in> set p)
     | Listen d _ \<Rightarrow>
         (\<exists>x. (Bind d sa, Inr x) \<in> set p) \<and> (\<exists>x. (Chmod path 0x180, Inr x) \<in> set p)
     | _ \<Rightarrow> True)"

definition unlinks :: "unix_calls \<Rightarrow> nat" where
  "unlinks t = length (filter (\<lambda>(c, a). case c of UnlinkAt _ _ _ \<Rightarrow> True | _ \<Rightarrow> False) t)"

definition setup_call :: "UnixCall \<Rightarrow> bool" where
  "setup_call c \<longleftrightarrow>
    (case c of Socket _ _ _ \<Rightarrow> True | SetFd _ _ \<Rightarrow> True | Connect _ _ \<Rightarrow> True | CloseFd _ \<Rightarrow> True
     | _ \<Rightarrow> False)"

lemma listen_rule_mono: "prefix_mono (listen_rule lc path sa)"
  by (auto simp: prefix_mono_def listen_rule_def split: UnixCall.split)

lemma unlinks_simps [simp]:
  "unlinks [] = 0" "unlinks (t @ u) = unlinks t + unlinks u"
  "unlinks ((UnlinkAt d p fl, a) # t) = Suc (unlinks t)"
  "unlinks ((Bind d sa, a) # t) = unlinks t"
  "unlinks ((Chmod p m, a) # t) = unlinks t"
  "unlinks ((Listen d n, a) # t) = unlinks t"
  "unlinks ((CloseFd d, a) # t) = unlinks t"
  by (simp_all add: unlinks_def)

lemma setup_calls:
  assumes "\<forall>(c, a) \<in> set t. setup_call c"
  shows "justified (listen_rule lc path sa) t" "unlinks t = 0"
proof -
  show "justified (listen_rule lc path sa) t"
    using assms by (intro justified_free) (force simp: setup_call_def listen_rule_def split: UnixCall.splits)
  show "unlinks t = 0"
    using assms by (force simp: unlinks_def filter_empty_conv setup_call_def split: UnixCall.splits)
qed

text \<open>The interface between the listening code and a backend: how it makes a socket.  It hands
  out one descriptor or none, makes only the calls that set a socket up, and leaves the last
  error number alone when it succeeds.\<close>

locale unix_endpoint =
  fixes lc :: net_libc and mk_socket :: "fd io"
    and pack :: "string \<Rightarrow> (bytes \<times> nat) result" and os :: unix
  assumes codes_differ: "lc_EADDRINUSE lc \<noteq> lc_ECONNREFUSED lc"
    and mk_keeps: "fds.keeps H (\<lambda>d. add_mset d H) H mk_socket"
    and mk_calls: "mk_socket h = (r, h @ t) \<Longrightarrow> (c, a) \<in> set t \<Longrightarrow> setup_call c"
    and mk_errno: "mk_socket h = (Ok d, h') \<Longrightarrow> last_error h' = last_error h"
begin

lemma mk_cases:
  obtains (failed) e t where "mk_socket h = (Err e, h @ t)" "\<forall>(c, a) \<in> set t. setup_call c"
      "acquired opens_fd t = released closes_fd t"
  | (made) d t where "mk_socket h = (Ok d, h @ t)" "\<forall>(c, a) \<in> set t. setup_call c"
      "acquired opens_fd t = add_mset d (released closes_fd t)" "last_error (h @ t) = last_error h"
proof -
  obtain r t where t: "mk_socket h = (r, h @ t)" and
    l: "acquired opens_fd t = released closes_fd t + (case r of Err _ \<Rightarrow> {#} | Ok d \<Rightarrow> {#d#})"
    using mk_keeps[of "{#}"] unfolding accounts_def by (metis add_0 prod.collapse)
  have "\<forall>(c, a) \<in> set t. setup_call c" using mk_calls[OF t] by auto
  then show ?thesis using t l failed made mk_errno by (cases r) auto
qed

lemma stale_trace:
  assumes "last_error h \<noteq> lc_ECONNREFUSED lc"
  shows "\<exists>b t. is_stale_socket_with lc mk_socket pack os path h = (b, h @ t) \<and>
    (\<forall>(c, a) \<in> set t. setup_call c) \<and> acquired opens_fd t = released closes_fd t \<and>
    (b \<longrightarrow> (\<exists>addr len d. pack path = Ok (addr, len) \<and>
      (Connect d (take len addr), Inl (lc_ECONNREFUSED lc)) \<in> set t))"
proof (cases rule: mk_cases[of h])
  case failed
  then show ?thesis by (auto simp: is_stale_socket_with_def)
next
  case (made d t)
  show ?thesis
  proof (cases "pack path")
    case (Inl e)
    let ?u = "t @ [(CloseFd d, os (h @ t) (CloseFd d))]"
    show ?thesis using made Inl
      by (intro exI[of _ False] exI[of _ ?u])
        (auto simp: is_stale_socket_with_def invoke_eq setup_call_def ledger_Cons call_defs)
  next
    case (Inr al)
    obtain addr len where al: "al = (addr, len)" by force
    let ?c = "Connect d (take len addr)"
    let ?h2 = "(h @ t) @ [(?c, os (h @ t) ?c)]"
    let ?u = "t @ [(?c, os (h @ t) ?c), (CloseFd d, os ?h2 (CloseFd d))]"
    let ?b = "(case os (h @ t) ?c of Inr r \<Rightarrow> ur_ret r \<noteq> 0 | Inl _ \<Rightarrow> True)
      \<and> last_error ?h2 = lc_ECONNREFUSED lc"
    have b: "os (h @ t) ?c = Inl (lc_ECONNREFUSED lc)" if ?b
      using that assms made(4) by (cases "os (h @ t) ?c")
        (auto simp: last_error_succeeded[of "h @ t", simplified] last_error_failed[of "h @ t", simplified])
    have "acquired opens_fd ?u = released closes_fd ?u"
      using made(3) by (simp add: ledger_Cons call_defs acquired_plain)
    then show ?thesis using made Inr al b
      by (intro exI[of _ ?b] exI[of _ ?u])
        (auto simp: is_stale_socket_with_def invoke_eq setup_call_def Let_def)
  qed
qed

lemma bind_trace:
  assumes "pack path = Ok (addr, len)"
  defines "sa \<equiv> take len addr"
  shows "\<exists>r t. bind_reclaiming lc mk_socket pack os d path sa h = (r, h @ t) \<and>
    acquired opens_fd t = released closes_fd t \<and> justified (listen_rule lc path sa) t \<and> unlinks t \<le> 1 \<and>
    (\<forall>a. r = Ok a \<longrightarrow> \<not> isl a \<longrightarrow> (Bind d sa, a) \<in> set t)"
proof -
  let ?B = "Bind d sa" and ?J = "listen_rule lc path sa"
  let ?h1 = "h @ [(?B, os h ?B)]"
  have B: "justified ?J [(?B, x)]" for x by (intro justified_free) (simp add: listen_rule_def)
  have aB: "acquired opens_fd ((?B, x) # t) = acquired opens_fd t" for x t
    by (rule acquired_plain) (simp add: call_defs)
  show ?thesis
  proof (cases "os h ?B = Inl (lc_EADDRINUSE lc)")
    case False
    then show ?thesis using B[of "os h ?B"]
      by (cases "os h ?B")
        (simp_all add: bind_reclaiming_def invoke_eq ledger_Cons call_defs)
  next
    case True
    then have "last_error ?h1 = lc_EADDRINUSE lc" by simp
    then obtain b t where s: "is_stale_socket_with lc mk_socket pack os path ?h1 = (b, ?h1 @ t)"
      "\<forall>(c, a) \<in> set t. setup_call c" "acquired opens_fd t = released closes_fd t"
      "b \<longrightarrow> (\<exists>d'. (Connect d' sa, Inl (lc_ECONNREFUSED lc)) \<in> set t)"
      using stale_trace[of ?h1 path] codes_differ assms by force
    have j: "justified ?J ((?B, os h ?B) # t)"
      using justified_append[OF listen_rule_mono B setup_calls(1)[OF s(2)]] by simp
    show ?thesis
    proof (cases "b \<and> CHR 0x00 \<notin> set path")
      case False
      then show ?thesis using True s j setup_calls(2)[OF s(2)]
        by (auto simp: bind_reclaiming_def invoke_eq path_to_cstring_def aB ledger_Cons call_defs
            split: bool.split)
    next
      case stale: True
      let ?U = "UnlinkAt AT_FDCWD path 0"
      let ?h2 = "?h1 @ t"
      let ?h3 = "?h2 @ [(?U, os ?h2 ?U)]"
      let ?t = "((?B, os h ?B) # t) @ [(?U, os ?h2 ?U), (?B, os ?h3 ?B)]"
      have e: "bind_reclaiming lc mk_socket pack os d path sa h = (Ok (os ?h3 ?B), h @ ?t)"
        using True s(1) stale by (simp add: bind_reclaiming_def invoke_eq path_to_cstring_def)
      have "justified ?J (((?B, os h ?B) # t) @ [(?U, os ?h2 ?U)])"
        using j s(4) stale True unfolding justified_snoc by (auto simp: listen_rule_def)
      then have "justified ?J ?t"
        using justified_append[OF listen_rule_mono _ B] by (metis append.assoc append_Cons append_Nil)
      then show ?thesis using e s(3) setup_calls(2)[OF s(2)]
        by (intro exI[of _ "Ok (os ?h3 ?B)"] exI[of _ ?t]) (simp add: aB ledger_Cons call_defs)
    qed
  qed
qed

end

lemma finish_trace:
  assumes "isl r \<or> (\<exists>x. (Bind d sa, Inr x) \<in> set p)"
  shows "\<exists>r' t. finish_listen lc os d path r h = (r', h @ t) \<and> (\<forall>x. r' = Ok x \<longrightarrow> x = d) \<and>
    acquired opens_fd t = {#} \<and> released closes_fd t = {#} \<and> unlinks t = 0 \<and>
    (justified (listen_rule lc path sa) p \<longrightarrow> justified (listen_rule lc path sa) (p @ t))"
proof (cases "isl r \<or> CHR 0x00 \<in> set path")
  case True
  then show ?thesis by (auto simp: finish_listen_def attempt_def path_to_cstring_def)
next
  case False
  let ?C = "Chmod path 0x180" and ?L = "Listen d (lc_SOMAXCONN lc)"
  let ?h1 = "h @ [(?C, os h ?C)]"
  have C: "justified (listen_rule lc path sa) (p @ [(?C, a)])"
    if "justified (listen_rule lc path sa) p" for a
    using that unfolding justified_snoc by (simp add: listen_rule_def)
  have a: "acquired opens_fd ((?C, x) # t) = acquired opens_fd t"
    "acquired opens_fd ((?L, x) # t) = acquired opens_fd t" for x t
    by (rule acquired_plain; simp add: call_defs)+
  show ?thesis
  proof (cases "os h ?C")
    case (Inl e)
    then show ?thesis using False C
      by (auto simp: finish_listen_def attempt_def path_to_cstring_def call_eq a ledger_Cons call_defs)
  next
    case (Inr x)
    let ?t = "[(?C, Inr x), (?L, os ?h1 ?L)]"
    have "justified (listen_rule lc path sa) (p @ ?t)" if "justified (listen_rule lc path sa) p"
      using justified_snoc[of "listen_rule lc path sa" "p @ [(?C, Inr x)]" ?L "os ?h1 ?L"] C[OF that] assms False
      by (auto simp: listen_rule_def)
    then show ?thesis using False Inr
      by (intro exI[of _ "fst (finish_listen lc os d path r h)"] exI[of _ ?t])
        (cases "os ?h1 ?L"; simp add: finish_listen_def attempt_def path_to_cstring_def call_eq a ledger_Cons call_defs)
  qed
qed

context unix_endpoint
begin

lemma body_trace:
  assumes "pack path = Ok (addr, len)"
  defines "sa \<equiv> take len addr"
  shows "\<exists>r t. attempt (bind_reclaiming lc mk_socket pack os d path sa) (finish_listen lc os d path) h =
      (r, h @ t) \<and> (\<forall>x. r = Ok x \<longrightarrow> x = d) \<and>
    acquired opens_fd t = released closes_fd t \<and> unlinks t \<le> 1 \<and> justified (listen_rule lc path sa) t"
proof -
  obtain r t where b: "bind_reclaiming lc mk_socket pack os d path sa h = (r, h @ t)"
    "acquired opens_fd t = released closes_fd t" "justified (listen_rule lc path sa) t" "unlinks t \<le> 1"
    "\<forall>a. r = Ok a \<longrightarrow> \<not> isl a \<longrightarrow> (Bind d sa, a) \<in> set t"
    using bind_trace[OF assms(1), folded sa_def] by blast
  show ?thesis
  proof (cases r)
    case (Inl e)
    then show ?thesis using b by (auto simp: attempt_def)
  next
    case (Inr a)
    have "isl a \<or> (\<exists>x. (Bind d sa, Inr x) \<in> set t)" using b(5) Inr by (cases a) auto
    then obtain r' u where "finish_listen lc os d path a (h @ t) = (r', (h @ t) @ u)" "\<forall>x. r' = Ok x \<longrightarrow> x = d"
      "acquired opens_fd u = {#}" "released closes_fd u = {#}" "unlinks u = 0"
      "justified (listen_rule lc path sa) (t @ u)"
      using finish_trace[of a d sa t lc os path "h @ t"] b(3) by blast
    then show ?thesis using b Inr
      by (intro exI[of _ r'] exI[of _ "t @ u"]) (simp add: attempt_def)
  qed
qed

lemma listen_trace:
  "\<exists>t. snd (unix_listen_with lc mk_socket pack os path h) = h @ t \<and> unlinks t \<le> 1 \<and>
    acquired opens_fd t = released closes_fd t +
      (case fst (unix_listen_with lc mk_socket pack os path h) of Err _ \<Rightarrow> {#} | Ok d \<Rightarrow> {#d#}) \<and>
    (case pack path of Ok (addr, len) \<Rightarrow> justified (listen_rule lc path (take len addr)) t
     | Err _ \<Rightarrow> (\<forall>(c, a) \<in> set t. setup_call c))"
proof (cases rule: mk_cases[of h])
  case (failed e t)
  then show ?thesis using setup_calls[OF failed(2)]
    by (auto simp: unix_listen_with_def attempt_def split: sum.split)
next
  case (made d t)
  note m = setup_calls[OF made(2)]
  show ?thesis
  proof (cases "pack path")
    case (Inl e)
    let ?u = "t @ [(CloseFd d, os (h @ t) (CloseFd d))]"
    show ?thesis using made m Inl
      by (intro exI[of _ ?u])
        (auto simp: unix_listen_with_def attempt_def or_close_def invoke_eq ledger_Cons call_defs setup_call_def)
  next
    case (Inr al)
    obtain addr len where al: "al = (addr, len)" by force
    let ?J = "listen_rule lc path (take len addr)"
    obtain r u where u: "attempt (bind_reclaiming lc mk_socket pack os d path (take len addr))
        (finish_listen lc os d path) (h @ t) = (r, (h @ t) @ u)" "\<forall>x. r = Ok x \<longrightarrow> x = d"
      "acquired opens_fd u = released closes_fd u" "unlinks u \<le> 1" "justified ?J u"
      using body_trace[of path addr len d "h @ t"] Inr al by auto
    have j: "justified ?J (t @ u)" using justified_append[OF listen_rule_mono m(1) u(5)] .
    have e: "unix_listen_with lc mk_socket pack os path h = or_close os (CloseFd d) (\<lambda>_. (r, h @ t @ u)) (h @ t)"
      using made(1) Inr al u(1) by (simp add: unix_listen_with_def attempt_def or_close_def)
    show ?thesis
    proof (cases r)
      case r: (Inl e')
      let ?c = "(CloseFd d, os (h @ t @ u) (CloseFd d))"
      have "justified ?J ((t @ u) @ [?c])" using j unfolding justified_snoc by (simp add: listen_rule_def)
      then show ?thesis using made u m Inr al r e
        by (intro exI[of _ "(t @ u) @ [?c]"])
          (simp add: or_close_def invoke_eq ledger_Cons call_defs)
    next
      case r: (Inr x)
      then show ?thesis using made u m j Inr al e
        by (intro exI[of _ "t @ u"]) (simp add: or_close_def)
    qed
  qed
qed

end

end
