(* ===== verification/Linux_Net.thy ===== *)
theory Linux_Net
  imports Sockets Linux_Fdio
begin

text \<open>
  The socket primitives of the Linux backend, \<open>platform-linux/src/sys/net.rs\<close>, and the socket
  types of \<open>platform-linux/src/net.rs\<close> over them: TCP, Unix domain and UDP.  Every operation is
  the sequence of system calls it makes; an owned descriptor is closed on every early
  return.
\<close>

section \<open>Constants and errors\<close>

definition linux_libc :: net_libc where
  "linux_libc = \<lparr>lc_ECONNREFUSED = 111, lc_ECONNRESET = 104, lc_ECONNABORTED = 103,
     lc_ENOTCONN = 107, lc_EADDRINUSE = 98, lc_EADDRNOTAVAIL = 99, lc_ETIMEDOUT = 110,
     lc_EACCES = 13, lc_EPERM = 1, lc_EINVAL = 22, lc_EAGAIN = 11, lc_EINTR = 4, lc_ENOENT = 2,
     lc_EPIPE = 32, lc_AF_UNIX = 1, lc_AF_INET = 2, lc_AF_INET6 = 10, lc_SOCK_STREAM = 1,
     lc_SOCK_DGRAM = 2, lc_SOCK_CLOEXEC = 0x80000, lc_SOL_SOCKET = 1, lc_SO_REUSEADDR = 2,
     lc_SO_RCVTIMEO = 20, lc_IPPROTO_TCP = 6, lc_TCP_NODELAY = 1, lc_O_NONBLOCK = 0x800,
     lc_FD_CLOEXEC = 1, lc_SOMAXCONN = 128, lc_SUN_PATH_LEN = 108\<rparr>"

definition kind_of :: "i32 \<Rightarrow> ErrorKind" where
  "kind_of errno = net_kind linux_libc errno"

definition net_err :: "string \<Rightarrow> i32 \<Rightarrow> PlatformError" where
  "net_err op e = new_error (kind_of e) (Errno e) op"

section \<open>Addresses\<close>

text \<open>The header of an address is its family, 16 bits in host order.\<close>

definition family_header :: "u8 \<Rightarrow> bytes" where
  "family_header af = to_le_bytes 2 (ucast af :: u16)"

definition ss_family :: "bytes \<Rightarrow> u16" where
  "ss_family storage = from_le_bytes (field_at 0 2 storage)"

definition to_sockaddr :: "SocketAddr \<Rightarrow> bytes \<times> nat" where
  "to_sockaddr addr =
    (case addr of
       SocketAddrV4 ip port \<Rightarrow> (zero_fill 128 (family_header (lc_AF_INET linux_libc) @ sin_body ip port), 16)
     | SocketAddrV6 ip port flowinfo scope_id \<Rightarrow>
         (zero_fill 128 (family_header (lc_AF_INET6 linux_libc) @ sin6_body ip port flowinfo scope_id), 28))"

definition from_sockaddr :: "bytes \<Rightarrow> SocketAddr result" where
  "from_sockaddr storage =
    (let family = ss_family storage
     in if family = ucast (lc_AF_INET linux_libc) then Ok (read_sin storage)
        else if family = ucast (lc_AF_INET6 linux_libc) then Ok (read_sin6 storage)
        else Err unknown_family)"

section \<open>TCP\<close>

definition family_of :: "SocketAddr \<Rightarrow> i32" where
  "family_of addr =
    (case addr of SocketAddrV4 _ _ \<Rightarrow> ucast (lc_AF_INET linux_libc)
     | SocketAddrV6 _ _ _ _ \<Rightarrow> ucast (lc_AF_INET6 linux_libc))"

definition new_tcp_socket :: "unix \<Rightarrow> SocketAddr \<Rightarrow> fd io" where
  "new_tcp_socket os addr =
    call_fd os (net_err ''socket'')
      (Socket (family_of addr) (lc_SOCK_STREAM linux_libc OR lc_SOCK_CLOEXEC linux_libc) 0)"

definition tcp_connect :: "unix \<Rightarrow> SocketAddr \<Rightarrow> fd io" where
  "tcp_connect os addr =
    attempt (new_tcp_socket os addr) (\<lambda>d. or_close os (CloseFd d)
      (case to_sockaddr addr of (storage, len) \<Rightarrow>
       attempt (call os (net_err ''connect'') (Connect d (take len storage))) (\<lambda>_.
       ret (Ok d))))"

definition tcp_listen :: "unix \<Rightarrow> SocketAddr \<Rightarrow> fd io" where
  "tcp_listen os addr =
    attempt (new_tcp_socket os addr) (\<lambda>d. or_close os (CloseFd d)
      (attempt (call os (net_err ''setsockopt(SO_REUSEADDR)'')
         (SetSockOpt d (lc_SOL_SOCKET linux_libc) (lc_SO_REUSEADDR linux_libc)
           (to_le_bytes 4 (1 :: i32)))) (\<lambda>_.
       (case to_sockaddr addr of (storage, len) \<Rightarrow>
        attempt (call os (net_err ''bind'') (Bind d (take len storage))) (\<lambda>_.
        attempt (call os (net_err ''listen'') (Listen d (lc_SOMAXCONN linux_libc))) (\<lambda>_.
        ret (Ok d)))))))"

definition tcp_accept :: "unix \<Rightarrow> fd \<Rightarrow> (fd \<times> SocketAddr) io" where
  "tcp_accept os listen_fd =
    attempt (call os (net_err ''accept4'') (Accept listen_fd (lc_SOCK_CLOEXEC linux_libc))) (\<lambda>r.
    or_close os (CloseFd (ur_ret r))
      (attempt (ret (from_sockaddr (zero_fill 128 (ur_addr r)))) (\<lambda>peer.
       ret (Ok (ur_ret r, peer)))))"

definition set_nodelay :: "unix \<Rightarrow> fd \<Rightarrow> bool \<Rightarrow> unit io" where
  "set_nodelay os d nodelay =
    attempt (call os (net_err ''setsockopt(TCP_NODELAY)'')
      (SetSockOpt d (lc_IPPROTO_TCP linux_libc) (lc_TCP_NODELAY linux_libc)
        (to_le_bytes 4 (of_bool nodelay :: i32)))) (\<lambda>_. ret (Ok ()))"

definition set_read_timeout :: "unix \<Rightarrow> fd \<Rightarrow> Duration option \<Rightarrow> unit io" where
  "set_read_timeout os d timeout =
    attempt (call os (net_err ''setsockopt(SO_RCVTIMEO)'')
      (SetSockOpt d (lc_SOL_SOCKET linux_libc) (lc_SO_RCVTIMEO linux_libc) (timeval timeout)))
      (\<lambda>_. ret (Ok ()))"

definition set_nonblocking :: "unix \<Rightarrow> fd \<Rightarrow> bool \<Rightarrow> unit io" where
  "set_nonblocking os d nonblocking =
    attempt (call os (net_err ''fcntl(F_GETFL)'') (GetFl d)) (\<lambda>r.
    (let flags = (of_int (ur_ret r) :: i32);
         new_flags = (if nonblocking then flags OR lc_O_NONBLOCK linux_libc
                      else flags AND NOT (lc_O_NONBLOCK linux_libc))
     in attempt (call os (net_err ''fcntl(F_SETFL)'') (SetFl d new_flags)) (\<lambda>_. ret (Ok ()))))"

definition peer_addr :: "unix \<Rightarrow> fd \<Rightarrow> SocketAddr io" where
  "peer_addr os d =
    attempt (call os (net_err ''getpeername'') (GetPeerName d)) (\<lambda>r.
    ret (from_sockaddr (zero_fill 128 (ur_addr r))))"

definition local_addr :: "unix \<Rightarrow> fd \<Rightarrow> SocketAddr io" where
  "local_addr os d =
    attempt (call os (net_err ''getsockname'') (GetSockName d)) (\<lambda>r.
    ret (from_sockaddr (zero_fill 128 (ur_addr r))))"

section \<open>Unix domain sockets\<close>

abbreviation sun_path_offset :: nat where "sun_path_offset \<equiv> 2"

text \<open>\<open>sockaddr_un\<close> is the two-byte header and the path array.\<close>

definition to_sockaddr_un :: "string \<Rightarrow> (bytes \<times> nat) result" where
  "to_sockaddr_un path =
    (let bytes = as_bytes path in
     if 0 \<in> set bytes then Err nul_in_path
     else if lc_SUN_PATH_LEN linux_libc \<le> length bytes then Err path_too_long
     else
       (let len = sun_path_offset + length bytes + 1
        in Ok (family_header (lc_AF_UNIX linux_libc) @ zero_fill (lc_SUN_PATH_LEN linux_libc) bytes, len)))"

definition from_sockaddr_un :: "bytes \<Rightarrow> nat \<Rightarrow> string option result" where
  "from_sockaddr_un addr len =
    (if len \<le> sun_path_offset then Ok None
     else if ss_family addr \<noteq> ucast (lc_AF_UNIX linux_libc) then Err unknown_family
     else
       (let path_len = min (len - sun_path_offset) (lc_SUN_PATH_LEN linux_libc);
            bytes = field_at sun_path_offset path_len addr;
            bytes = (if bytes \<noteq> [] \<and> last bytes = 0 then butlast bytes else bytes)
        in if bytes = [] then Ok None else Ok (Some (from_bytes bytes))))"

definition new_unix_socket :: "unix \<Rightarrow> fd io" where
  "new_unix_socket os =
    call_fd os (net_err ''socket'')
      (Socket (ucast (lc_AF_UNIX linux_libc)) (lc_SOCK_STREAM linux_libc OR lc_SOCK_CLOEXEC linux_libc) 0)"

definition unix_connect :: "unix \<Rightarrow> string \<Rightarrow> fd io" where
  "unix_connect os path =
    attempt (new_unix_socket os) (\<lambda>d. or_close os (CloseFd d)
      (attempt (ret (to_sockaddr_un path)) (\<lambda>(addr, len).
       attempt (call os (net_err ''connect'') (Connect d (take len addr))) (\<lambda>_.
       ret (Ok d)))))"

definition is_stale_socket :: "unix \<Rightarrow> string \<Rightarrow> unix_calls \<Rightarrow> bool \<times> unix_calls" where
  "is_stale_socket os path =
    is_stale_socket_with linux_libc (new_unix_socket os) (to_sockaddr_un) os path"

definition unix_listen :: "unix \<Rightarrow> string \<Rightarrow> fd io" where
  "unix_listen os path =
    unix_listen_with linux_libc (new_unix_socket os) (to_sockaddr_un) os path"

text \<open>The out-parameter is a zeroed \<open>sockaddr_un\<close>.\<close>

abbreviation sun_storage :: "bytes \<Rightarrow> bytes" where
  "sun_storage \<equiv> zero_fill (sun_path_offset + lc_SUN_PATH_LEN linux_libc)"

definition unix_accept :: "unix \<Rightarrow> fd \<Rightarrow> (fd \<times> string option) io" where
  "unix_accept os listen_fd =
    attempt (call os (net_err ''accept4'') (Accept listen_fd (lc_SOCK_CLOEXEC linux_libc))) (\<lambda>r.
    or_close os (CloseFd (ur_ret r))
      (attempt (ret (from_sockaddr_un (sun_storage (ur_addr r)) (ur_len r))) (\<lambda>peer.
       ret (Ok (ur_ret r, peer)))))"

definition unix_peer_addr :: "unix \<Rightarrow> fd \<Rightarrow> string option io" where
  "unix_peer_addr os d =
    attempt (call os (net_err ''getpeername'') (GetPeerName d)) (\<lambda>r.
    ret (from_sockaddr_un (sun_storage (ur_addr r)) (ur_len r)))"

definition unix_local_addr :: "unix \<Rightarrow> fd \<Rightarrow> string option io" where
  "unix_local_addr os d =
    attempt (call os (net_err ''getsockname'') (GetSockName d)) (\<lambda>r.
    ret (from_sockaddr_un (sun_storage (ur_addr r)) (ur_len r)))"

section \<open>UDP\<close>

definition new_udp_socket :: "unix \<Rightarrow> SocketAddr \<Rightarrow> fd io" where
  "new_udp_socket os addr =
    call_fd os (net_err ''socket'')
      (Socket (family_of addr) (lc_SOCK_DGRAM linux_libc OR lc_SOCK_CLOEXEC linux_libc) 0)"

definition udp_bind :: "unix \<Rightarrow> SocketAddr \<Rightarrow> fd io" where
  "udp_bind os addr =
    attempt (new_udp_socket os addr) (\<lambda>d. or_close os (CloseFd d)
      (case to_sockaddr addr of (storage, len) \<Rightarrow>
       attempt (call os (net_err ''bind'') (Bind d (take len storage))) (\<lambda>_.
       ret (Ok d))))"

definition udp_send_to :: "unix \<Rightarrow> fd \<Rightarrow> bytes \<Rightarrow> SocketAddr \<Rightarrow> nat io" where
  "udp_send_to os d buf addr =
    (case to_sockaddr addr of (storage, len) \<Rightarrow>
     attempt (call os (net_err ''sendto'') (SendTo d buf (take len storage))) (\<lambda>r.
     ret (Ok (nat (ur_ret r)))))"

definition udp_recv_from :: "unix \<Rightarrow> fd \<Rightarrow> bytes \<Rightarrow> (nat \<times> bytes \<times> SocketAddr) io" where
  "udp_recv_from os d buf =
    attempt (call os (net_err ''recvfrom'') (RecvFrom d (length buf))) (\<lambda>r.
    attempt (ret (from_sockaddr (zero_fill 128 (ur_addr r)))) (\<lambda>peer.
    ret (Ok (nat (ur_ret r), read_into buf (ur_data r), peer))))"

section \<open>The socket types\<close>

text \<open>Each type owns one descriptor; dropping it closes that.  The methods of the network capability
  (\<open>LinuxNet\<close>) return the same values behind the trait objects.\<close>

record LinuxTcpStream = tcp_fd :: fd
record LinuxTcpListener = tcpl_fd :: fd
record LinuxUnixStream = unix_fd :: fd
record LinuxUnixListener = unixl_fd :: fd
record LinuxUdpSocket = udp_fd :: fd

definition tcp_stream_connect :: "unix \<Rightarrow> SocketAddr \<Rightarrow> LinuxTcpStream io" where
  "tcp_stream_connect os addr = attempt (tcp_connect os addr) (\<lambda>d. ret (Ok \<lparr>tcp_fd = d\<rparr>))"

definition tcp_stream_set_nonblocking :: "unix \<Rightarrow> LinuxTcpStream \<Rightarrow> bool \<Rightarrow> unit io" where
  "tcp_stream_set_nonblocking os s = set_nonblocking os (tcp_fd s)"

definition tcp_stream_read :: "unix \<Rightarrow> LinuxTcpStream \<Rightarrow> bytes \<Rightarrow> (nat \<times> bytes) io" where
  "tcp_stream_read os s buf = read_fd os (tcp_fd s) buf"

definition tcp_stream_write :: "unix \<Rightarrow> LinuxTcpStream \<Rightarrow> bytes \<Rightarrow> nat io" where
  "tcp_stream_write os s buf = write_fd os (tcp_fd s) buf"

definition tcp_stream_set_nodelay :: "unix \<Rightarrow> LinuxTcpStream \<Rightarrow> bool \<Rightarrow> unit io" where
  "tcp_stream_set_nodelay os s = set_nodelay os (tcp_fd s)"

definition tcp_stream_peer_addr :: "unix \<Rightarrow> LinuxTcpStream \<Rightarrow> SocketAddr io" where
  "tcp_stream_peer_addr os s = peer_addr os (tcp_fd s)"

definition tcp_stream_local_addr :: "unix \<Rightarrow> LinuxTcpStream \<Rightarrow> SocketAddr io" where
  "tcp_stream_local_addr os s = local_addr os (tcp_fd s)"

definition tcp_stream_set_read_timeout ::
  "unix \<Rightarrow> LinuxTcpStream \<Rightarrow> Duration option \<Rightarrow> unit io" where
  "tcp_stream_set_read_timeout os s = set_read_timeout os (tcp_fd s)"

definition tcp_listener_bind :: "unix \<Rightarrow> SocketAddr \<Rightarrow> LinuxTcpListener io" where
  "tcp_listener_bind os addr = attempt (tcp_listen os addr) (\<lambda>d. ret (Ok \<lparr>tcpl_fd = d\<rparr>))"

definition tcp_listener_accept ::
  "unix \<Rightarrow> LinuxTcpListener \<Rightarrow> (LinuxTcpStream \<times> SocketAddr) io" where
  "tcp_listener_accept os l =
    attempt (tcp_accept os (tcpl_fd l)) (\<lambda>(d, peer). ret (Ok (\<lparr>tcp_fd = d\<rparr>, peer)))"

definition tcp_listener_set_nonblocking :: "unix \<Rightarrow> LinuxTcpListener \<Rightarrow> bool \<Rightarrow> unit io" where
  "tcp_listener_set_nonblocking os l = set_nonblocking os (tcpl_fd l)"

definition tcp_listener_local_addr :: "unix \<Rightarrow> LinuxTcpListener \<Rightarrow> SocketAddr io" where
  "tcp_listener_local_addr os l = local_addr os (tcpl_fd l)"

definition unix_stream_connect :: "unix \<Rightarrow> string \<Rightarrow> LinuxUnixStream io" where
  "unix_stream_connect os path = attempt (unix_connect os path) (\<lambda>d. ret (Ok \<lparr>unix_fd = d\<rparr>))"

definition unix_stream_set_nonblocking :: "unix \<Rightarrow> LinuxUnixStream \<Rightarrow> bool \<Rightarrow> unit io" where
  "unix_stream_set_nonblocking os s = set_nonblocking os (unix_fd s)"

definition unix_stream_read :: "unix \<Rightarrow> LinuxUnixStream \<Rightarrow> bytes \<Rightarrow> (nat \<times> bytes) io" where
  "unix_stream_read os s buf = read_fd os (unix_fd s) buf"

definition unix_stream_write :: "unix \<Rightarrow> LinuxUnixStream \<Rightarrow> bytes \<Rightarrow> nat io" where
  "unix_stream_write os s buf = write_fd os (unix_fd s) buf"

definition unix_stream_peer_addr :: "unix \<Rightarrow> LinuxUnixStream \<Rightarrow> string option io" where
  "unix_stream_peer_addr os s = unix_peer_addr os (unix_fd s)"

definition unix_stream_local_addr :: "unix \<Rightarrow> LinuxUnixStream \<Rightarrow> string option io" where
  "unix_stream_local_addr os s = unix_local_addr os (unix_fd s)"

definition unix_listener_bind :: "unix \<Rightarrow> string \<Rightarrow> LinuxUnixListener io" where
  "unix_listener_bind os path = attempt (unix_listen os path) (\<lambda>d. ret (Ok \<lparr>unixl_fd = d\<rparr>))"

definition unix_listener_accept ::
  "unix \<Rightarrow> LinuxUnixListener \<Rightarrow> (LinuxUnixStream \<times> string option) io" where
  "unix_listener_accept os l =
    attempt (unix_accept os (unixl_fd l)) (\<lambda>(d, peer). ret (Ok (\<lparr>unix_fd = d\<rparr>, peer)))"

definition unix_listener_set_nonblocking :: "unix \<Rightarrow> LinuxUnixListener \<Rightarrow> bool \<Rightarrow> unit io" where
  "unix_listener_set_nonblocking os l = set_nonblocking os (unixl_fd l)"

definition unix_listener_local_addr :: "unix \<Rightarrow> LinuxUnixListener \<Rightarrow> string option io" where
  "unix_listener_local_addr os l = unix_local_addr os (unixl_fd l)"

definition udp_socket_bind :: "unix \<Rightarrow> SocketAddr \<Rightarrow> LinuxUdpSocket io" where
  "udp_socket_bind os addr = attempt (udp_bind os addr) (\<lambda>d. ret (Ok \<lparr>udp_fd = d\<rparr>))"

definition udp_socket_set_nonblocking :: "unix \<Rightarrow> LinuxUdpSocket \<Rightarrow> bool \<Rightarrow> unit io" where
  "udp_socket_set_nonblocking os s = set_nonblocking os (udp_fd s)"

definition udp_socket_send_to ::
  "unix \<Rightarrow> LinuxUdpSocket \<Rightarrow> bytes \<Rightarrow> SocketAddr \<Rightarrow> nat io" where
  "udp_socket_send_to os s buf addr = udp_send_to os (udp_fd s) buf addr"

definition udp_socket_recv_from ::
  "unix \<Rightarrow> LinuxUdpSocket \<Rightarrow> bytes \<Rightarrow> (nat \<times> bytes \<times> SocketAddr) io" where
  "udp_socket_recv_from os s buf = udp_recv_from os (udp_fd s) buf"

definition udp_socket_local_addr :: "unix \<Rightarrow> LinuxUdpSocket \<Rightarrow> SocketAddr io" where
  "udp_socket_local_addr os s = local_addr os (udp_fd s)"

section \<open>Addresses round trip\<close>

lemma linux_ss_family_header [simp]: "ss_family (family_header af @ rest) = ucast af"
  by (simp add: ss_family_def family_header_def)

lemma linux_length_family_header [simp]: "length (family_header af) = 2"
  by (simp add: family_header_def)

lemma linux_sockaddr_roundtrip:
  "(case to_sockaddr addr of (storage, len) \<Rightarrow>
     length storage = 128 \<and> len \<le> 128 \<and> from_sockaddr (zero_fill 128 (take len storage)) = Ok addr)"
proof (cases addr)
  case (SocketAddrV4 ip port)
  then show ?thesis
    by (simp add: to_sockaddr_def from_sockaddr_def zero_fill_fits read_sin_body(1) linux_libc_def)
next
  case (SocketAddrV6 ip port f sc)
  then show ?thesis
    by (simp add: to_sockaddr_def from_sockaddr_def zero_fill_fits read_sin_body(2) linux_libc_def)
qed


lemma to_sockaddr_un_cases:
  "to_sockaddr_un path =
    (if CHR 0x00 \<in> set path then Err nul_in_path
     else if 108 \<le> length path then Err path_too_long
     else Ok (family_header 1 @ zero_fill 108 (as_bytes path), length path + 3))"
  by (simp add: to_sockaddr_un_def NUL_in_as_bytes linux_libc_def)

lemma linux_sockaddr_un_roundtrip:
  assumes "to_sockaddr_un path = Ok (addr, len)"
  shows "from_sockaddr_un (sun_storage (take len addr)) len = Ok (if path = [] then None else Some path)"
proof -
  have p: "CHR 0x00 \<notin> set path" "length path < 108"
    "addr = family_header 1 @ zero_fill 108 (as_bytes path)" "len = length path + 3"
    using assms by (auto simp: to_sockaddr_un_cases split: if_splits)
  have st: "sun_storage (take len addr) =
      family_header 1 @ (as_bytes path @ [0]) @ replicate (107 - length path) 0"
    using p take_sun[of "as_bytes path" 108 "family_header 1"]
    by (simp add: zero_fill_fits linux_libc_def)
  have f: "field_at 2 (length path + 1) (sun_storage (take len addr)) = as_bytes path @ [0]"
    unfolding st by (simp add: field_at_def)
  have m: "min (len - 2) 108 = length path + 1" using p by simp
  have fam: "ss_family (sun_storage (take len addr)) = 1" unfolding st by simp
  show ?thesis using p(4) f m fam
    by (simp add: from_sockaddr_un_def linux_libc_def Let_def)
qed

section \<open>Handles\<close>

lemma linux_keeps_new_sockets [ledger]:
  "fds.keeps H (\<lambda>d. add_mset d H) H (new_tcp_socket os addr)"
  "fds.keeps H (\<lambda>d. add_mset d H) H (new_udp_socket os addr)"
  "fds.keeps H (\<lambda>d. add_mset d H) H (new_unix_socket os)"
  unfolding new_tcp_socket_def new_udp_socket_def new_unix_socket_def
  by (rule keeps_call_fd; simp add: call_defs)+

lemma linux_keeps_tcp_connect: "fds.keeps H (\<lambda>d. add_mset d H) H (tcp_connect os addr)"
  unfolding tcp_connect_def
  by (intro accounts_attempt[OF linux_keeps_new_sockets(1)] keeps_owned)
    (auto split: prod.split intro!: keeps_then keeps_hand_over simp: call_defs)

lemma linux_keeps_tcp_listen: "fds.keeps H (\<lambda>d. add_mset d H) H (tcp_listen os addr)"
  unfolding tcp_listen_def
  by (intro accounts_attempt[OF linux_keeps_new_sockets(1)] keeps_owned)
    (auto split: prod.split intro!: keeps_then keeps_hand_over simp: call_defs)

lemma linux_keeps_udp_bind: "fds.keeps H (\<lambda>d. add_mset d H) H (udp_bind os addr)"
  unfolding udp_bind_def
  by (intro accounts_attempt[OF linux_keeps_new_sockets(2)] keeps_owned)
    (auto split: prod.split intro!: keeps_then keeps_hand_over simp: call_defs)

lemma linux_keeps_unix_connect: "fds.keeps H (\<lambda>d. add_mset d H) H (unix_connect os path)"
  unfolding unix_connect_def
  by (intro accounts_attempt[OF linux_keeps_new_sockets(3)] keeps_owned keeps_ret_then)
    (auto split: prod.split intro!: keeps_then keeps_hand_over simp: call_defs)

lemma linux_keeps_tcp_accept: "fds.keeps H (\<lambda>(d, _). add_mset d H) H (tcp_accept os l)"
  unfolding tcp_accept_def
  by (intro accounts_attempt[OF keeps_opening(2)] keeps_owned keeps_ret_then keeps_hand_over)

lemma linux_keeps_unix_accept: "fds.keeps H (\<lambda>(d, _). add_mset d H) H (unix_accept os l)"
  unfolding unix_accept_def
  by (intro accounts_attempt[OF keeps_opening(2)] keeps_owned keeps_ret_then keeps_hand_over)

interpretation linux_unix: unix_endpoint linux_libc "new_unix_socket os" to_sockaddr_un os for os
proof
  show "lc_EADDRINUSE linux_libc \<noteq> lc_ECONNREFUSED linux_libc" by (simp add: linux_libc_def)
  show "fds.keeps H (\<lambda>d. add_mset d H) H (new_unix_socket os)" for H by (rule linux_keeps_new_sockets)
  show "setup_call c" if "new_unix_socket os h = (r, h @ t)" "(c, a) \<in> set t" for h r t c a
    using that by (auto simp: new_unix_socket_def call_fd_def attempt_def call_eq setup_call_def
        split: sum.splits)
  show "last_error h' = last_error h" if "new_unix_socket os h = (Ok d, h')" for h h' d
    using that by (auto simp: new_unix_socket_def call_fd_def attempt_def call_eq split: sum.splits)
qed

end
