(* ===== verification/Bsd_Net.thy ===== *)
theory Bsd_Net
  imports Sockets
begin

text \<open>
  The socket primitives of the BSD backend, \<open>platform-bsd/src/sys/net.rs\<close>, with its reads and
  writes (\<open>platform-bsd/src/sys/fdio.rs\<close>) and its socket types (\<open>platform-bsd/src/net.rs\<close>).  The
  constants differ between the five systems the crate targets, so they are a parameter.
  Three things differ from Linux: close-on-exec is a second call, every address starts with
  a length byte, and a path read back is cut at its first NUL.
\<close>

section \<open>Errors\<close>

definition kind_of :: "net_libc \<Rightarrow> i32 \<Rightarrow> ErrorKind" where
  "kind_of lc errno = net_kind lc errno"

definition net_err :: "net_libc \<Rightarrow> string \<Rightarrow> i32 \<Rightarrow> PlatformError" where
  "net_err lc op e = new_error (kind_of lc e) (Errno e) op"

definition set_cloexec :: "net_libc \<Rightarrow> unix \<Rightarrow> fd \<Rightarrow> unit io" where
  "set_cloexec lc os d =
    attempt (call os (net_err lc ''fcntl(F_SETFD)'') (SetFd d (lc_FD_CLOEXEC lc))) (\<lambda>_. ret (Ok ()))"

section \<open>Addresses\<close>

text \<open>The header of an address is its length and its family, one byte each.\<close>

definition family_header :: "nat \<Rightarrow> u8 \<Rightarrow> bytes" where
  "family_header len af = [of_nat len, af]"

definition ss_family :: "bytes \<Rightarrow> u8" where
  "ss_family storage = from_le_bytes (field_at 1 1 storage)"

definition to_sockaddr :: "net_libc \<Rightarrow> SocketAddr \<Rightarrow> bytes \<times> nat" where
  "to_sockaddr lc addr =
    (case addr of
       SocketAddrV4 ip port \<Rightarrow> (zero_fill 128 (family_header 16 (lc_AF_INET lc) @ sin_body ip port), 16)
     | SocketAddrV6 ip port flowinfo scope_id \<Rightarrow>
         (zero_fill 128 (family_header 28 (lc_AF_INET6 lc) @ sin6_body ip port flowinfo scope_id), 28))"

definition from_sockaddr :: "net_libc \<Rightarrow> bytes \<Rightarrow> SocketAddr result" where
  "from_sockaddr lc storage =
    (let family = ss_family storage
     in if family = lc_AF_INET lc then Ok (read_sin storage)
        else if family = lc_AF_INET6 lc then Ok (read_sin6 storage)
        else Err unknown_family)"

section \<open>TCP\<close>

definition family_of :: "net_libc \<Rightarrow> SocketAddr \<Rightarrow> i32" where
  "family_of lc addr =
    (case addr of SocketAddrV4 _ _ \<Rightarrow> ucast (lc_AF_INET lc)
     | SocketAddrV6 _ _ _ _ \<Rightarrow> ucast (lc_AF_INET6 lc))"

definition new_tcp_socket :: "net_libc \<Rightarrow> unix \<Rightarrow> SocketAddr \<Rightarrow> fd io" where
  "new_tcp_socket lc os addr =
    attempt (call_fd os (net_err lc ''socket'') (Socket (family_of lc addr) (lc_SOCK_STREAM lc) 0)) (\<lambda>d.
    or_close os (CloseFd d) (attempt (set_cloexec lc os d) (\<lambda>_. ret (Ok d))))"

definition tcp_connect :: "net_libc \<Rightarrow> unix \<Rightarrow> SocketAddr \<Rightarrow> fd io" where
  "tcp_connect lc os addr =
    attempt (new_tcp_socket lc os addr) (\<lambda>d. or_close os (CloseFd d)
      (case to_sockaddr lc addr of (storage, len) \<Rightarrow>
       attempt (call os (net_err lc ''connect'') (Connect d (take len storage))) (\<lambda>_.
       ret (Ok d))))"

definition tcp_listen :: "net_libc \<Rightarrow> unix \<Rightarrow> SocketAddr \<Rightarrow> fd io" where
  "tcp_listen lc os addr =
    attempt (new_tcp_socket lc os addr) (\<lambda>d. or_close os (CloseFd d)
      (attempt (call os (net_err lc ''setsockopt(SO_REUSEADDR)'')
         (SetSockOpt d (lc_SOL_SOCKET lc) (lc_SO_REUSEADDR lc)
           (to_le_bytes 4 (1 :: i32)))) (\<lambda>_.
       (case to_sockaddr lc addr of (storage, len) \<Rightarrow>
        attempt (call os (net_err lc ''bind'') (Bind d (take len storage))) (\<lambda>_.
        attempt (call os (net_err lc ''listen'') (Listen d (lc_SOMAXCONN lc))) (\<lambda>_.
        ret (Ok d)))))))"

definition tcp_accept :: "net_libc \<Rightarrow> unix \<Rightarrow> fd \<Rightarrow> (fd \<times> SocketAddr) io" where
  "tcp_accept lc os listen_fd =
    attempt (call os (net_err lc ''accept'') (Accept listen_fd 0)) (\<lambda>r.
    or_close os (CloseFd (ur_ret r))
      (attempt (set_cloexec lc os (ur_ret r)) (\<lambda>_.
       attempt (ret (from_sockaddr lc (zero_fill 128 (ur_addr r)))) (\<lambda>peer.
       ret (Ok (ur_ret r, peer))))))"

definition set_nodelay :: "net_libc \<Rightarrow> unix \<Rightarrow> fd \<Rightarrow> bool \<Rightarrow> unit io" where
  "set_nodelay lc os d nodelay =
    attempt (call os (net_err lc ''setsockopt(TCP_NODELAY)'')
      (SetSockOpt d (lc_IPPROTO_TCP lc) (lc_TCP_NODELAY lc)
        (to_le_bytes 4 (of_bool nodelay :: i32)))) (\<lambda>_. ret (Ok ()))"

definition set_read_timeout :: "net_libc \<Rightarrow> unix \<Rightarrow> fd \<Rightarrow> Duration option \<Rightarrow> unit io" where
  "set_read_timeout lc os d timeout =
    attempt (call os (net_err lc ''setsockopt(SO_RCVTIMEO)'')
      (SetSockOpt d (lc_SOL_SOCKET lc) (lc_SO_RCVTIMEO lc) (timeval timeout)))
      (\<lambda>_. ret (Ok ()))"

definition set_nonblocking :: "net_libc \<Rightarrow> unix \<Rightarrow> fd \<Rightarrow> bool \<Rightarrow> unit io" where
  "set_nonblocking lc os d nonblocking =
    attempt (call os (net_err lc ''fcntl(F_GETFL)'') (GetFl d)) (\<lambda>r.
    (let flags = (of_int (ur_ret r) :: i32);
         new_flags = (if nonblocking then flags OR lc_O_NONBLOCK lc
                      else flags AND NOT (lc_O_NONBLOCK lc))
     in attempt (call os (net_err lc ''fcntl(F_SETFL)'') (SetFl d new_flags)) (\<lambda>_. ret (Ok ()))))"

definition peer_addr :: "net_libc \<Rightarrow> unix \<Rightarrow> fd \<Rightarrow> SocketAddr io" where
  "peer_addr lc os d =
    attempt (call os (net_err lc ''getpeername'') (GetPeerName d)) (\<lambda>r.
    ret (from_sockaddr lc (zero_fill 128 (ur_addr r))))"

definition local_addr :: "net_libc \<Rightarrow> unix \<Rightarrow> fd \<Rightarrow> SocketAddr io" where
  "local_addr lc os d =
    attempt (call os (net_err lc ''getsockname'') (GetSockName d)) (\<lambda>r.
    ret (from_sockaddr lc (zero_fill 128 (ur_addr r))))"

section \<open>Unix domain sockets\<close>

abbreviation sun_path_offset :: nat where "sun_path_offset \<equiv> 2"

text \<open>\<open>sockaddr_un\<close> is the two-byte header and the path array.\<close>

definition to_sockaddr_un :: "net_libc \<Rightarrow> string \<Rightarrow> (bytes \<times> nat) result" where
  "to_sockaddr_un lc path =
    (let bytes = as_bytes path in
     if 0 \<in> set bytes then Err nul_in_path
     else if lc_SUN_PATH_LEN lc \<le> length bytes then Err path_too_long
     else
       (let len = sun_path_offset + length bytes + 1
        in Ok (family_header len (lc_AF_UNIX lc) @ zero_fill (lc_SUN_PATH_LEN lc) bytes, len)))"

definition from_sockaddr_un :: "net_libc \<Rightarrow> bytes \<Rightarrow> nat \<Rightarrow> string option result" where
  "from_sockaddr_un lc addr len =
    (if len \<le> sun_path_offset then Ok None
     else if ss_family addr \<noteq> lc_AF_UNIX lc then Err unknown_family
     else
       (let path_len = min (len - sun_path_offset) (lc_SUN_PATH_LEN lc);
            bytes = field_at sun_path_offset path_len addr;
            bytes = takeWhile (\<lambda>b. b \<noteq> 0) bytes
        in if bytes = [] then Ok None else Ok (Some (from_bytes bytes))))"

definition new_unix_socket :: "net_libc \<Rightarrow> unix \<Rightarrow> fd io" where
  "new_unix_socket lc os =
    attempt (call_fd os (net_err lc ''socket'') (Socket (ucast (lc_AF_UNIX lc)) (lc_SOCK_STREAM lc) 0)) (\<lambda>d.
    or_close os (CloseFd d) (attempt (set_cloexec lc os d) (\<lambda>_. ret (Ok d))))"

definition unix_connect :: "net_libc \<Rightarrow> unix \<Rightarrow> string \<Rightarrow> fd io" where
  "unix_connect lc os path =
    attempt (new_unix_socket lc os) (\<lambda>d. or_close os (CloseFd d)
      (attempt (ret (to_sockaddr_un lc path)) (\<lambda>(addr, len).
       attempt (call os (net_err lc ''connect'') (Connect d (take len addr))) (\<lambda>_.
       ret (Ok d)))))"

definition is_stale_socket :: "net_libc \<Rightarrow> unix \<Rightarrow> string \<Rightarrow> unix_calls \<Rightarrow> bool \<times> unix_calls" where
  "is_stale_socket lc os path =
    is_stale_socket_with lc (new_unix_socket lc os) (to_sockaddr_un lc) os path"

definition unix_listen :: "net_libc \<Rightarrow> unix \<Rightarrow> string \<Rightarrow> fd io" where
  "unix_listen lc os path =
    unix_listen_with lc (new_unix_socket lc os) (to_sockaddr_un lc) os path"

text \<open>The out-parameter is a zeroed \<open>sockaddr_un\<close>.\<close>

abbreviation sun_storage :: "net_libc \<Rightarrow> bytes \<Rightarrow> bytes" where
  "sun_storage lc \<equiv> zero_fill (sun_path_offset + lc_SUN_PATH_LEN lc)"

definition unix_accept :: "net_libc \<Rightarrow> unix \<Rightarrow> fd \<Rightarrow> (fd \<times> string option) io" where
  "unix_accept lc os listen_fd =
    attempt (call os (net_err lc ''accept'') (Accept listen_fd 0)) (\<lambda>r.
    or_close os (CloseFd (ur_ret r))
      (attempt (set_cloexec lc os (ur_ret r)) (\<lambda>_.
       attempt (ret (from_sockaddr_un lc (sun_storage lc (ur_addr r)) (ur_len r))) (\<lambda>peer.
       ret (Ok (ur_ret r, peer))))))"

definition unix_peer_addr :: "net_libc \<Rightarrow> unix \<Rightarrow> fd \<Rightarrow> string option io" where
  "unix_peer_addr lc os d =
    attempt (call os (net_err lc ''getpeername'') (GetPeerName d)) (\<lambda>r.
    ret (from_sockaddr_un lc (sun_storage lc (ur_addr r)) (ur_len r)))"

definition unix_local_addr :: "net_libc \<Rightarrow> unix \<Rightarrow> fd \<Rightarrow> string option io" where
  "unix_local_addr lc os d =
    attempt (call os (net_err lc ''getsockname'') (GetSockName d)) (\<lambda>r.
    ret (from_sockaddr_un lc (sun_storage lc (ur_addr r)) (ur_len r)))"

section \<open>UDP\<close>

definition new_udp_socket :: "net_libc \<Rightarrow> unix \<Rightarrow> SocketAddr \<Rightarrow> fd io" where
  "new_udp_socket lc os addr =
    attempt (call_fd os (net_err lc ''socket'') (Socket (family_of lc addr) (lc_SOCK_DGRAM lc) 0)) (\<lambda>d.
    or_close os (CloseFd d) (attempt (set_cloexec lc os d) (\<lambda>_. ret (Ok d))))"

definition udp_bind :: "net_libc \<Rightarrow> unix \<Rightarrow> SocketAddr \<Rightarrow> fd io" where
  "udp_bind lc os addr =
    attempt (new_udp_socket lc os addr) (\<lambda>d. or_close os (CloseFd d)
      (case to_sockaddr lc addr of (storage, len) \<Rightarrow>
       attempt (call os (net_err lc ''bind'') (Bind d (take len storage))) (\<lambda>_.
       ret (Ok d))))"

definition udp_send_to :: "net_libc \<Rightarrow> unix \<Rightarrow> fd \<Rightarrow> bytes \<Rightarrow> SocketAddr \<Rightarrow> nat io" where
  "udp_send_to lc os d buf addr =
    (case to_sockaddr lc addr of (storage, len) \<Rightarrow>
     attempt (call os (net_err lc ''sendto'') (SendTo d buf (take len storage))) (\<lambda>r.
     ret (Ok (nat (ur_ret r)))))"

definition udp_recv_from :: "net_libc \<Rightarrow> unix \<Rightarrow> fd \<Rightarrow> bytes \<Rightarrow> (nat \<times> bytes \<times> SocketAddr) io" where
  "udp_recv_from lc os d buf =
    attempt (call os (net_err lc ''recvfrom'') (RecvFrom d (length buf))) (\<lambda>r.
    attempt (ret (from_sockaddr lc (zero_fill 128 (ur_addr r)))) (\<lambda>peer.
    ret (Ok (nat (ur_ret r), read_into buf (ur_data r), peer))))"

section \<open>Reading and writing\<close>

definition os_err :: "net_libc \<Rightarrow> string \<Rightarrow> i32 \<Rightarrow> PlatformError" where
  "os_err lc op code =
    (let kind = (if code = lc_EAGAIN lc then WouldBlock
                 else if code = lc_EINTR lc then Interrupted
                 else if code = lc_EPIPE lc then BrokenPipe
                 else Other)
     in new_error kind (Errno code) op)"

definition read_fd :: "net_libc \<Rightarrow> unix \<Rightarrow> fd \<Rightarrow> bytes \<Rightarrow> (nat \<times> bytes) io" where
  "read_fd lc os d buf =
    attempt (call os (os_err lc ''read'') (ReadFd d (length buf))) (\<lambda>r.
    ret (Ok (nat (ur_ret r), read_into buf (ur_data r))))"

definition write_fd :: "net_libc \<Rightarrow> unix \<Rightarrow> fd \<Rightarrow> bytes \<Rightarrow> nat io" where
  "write_fd lc os d buf =
    attempt (call os (os_err lc ''write'') (WriteFd d buf)) (\<lambda>r. ret (Ok (nat (ur_ret r))))"

section \<open>The socket types\<close>

text \<open>Each type owns one descriptor; dropping it closes that.  The methods of the network capability
  (\<open>BsdNet\<close>) return the same values behind the trait objects.\<close>

record BsdTcpStream = tcp_fd :: fd
record BsdTcpListener = tcpl_fd :: fd
record BsdUnixStream = unix_fd :: fd
record BsdUnixListener = unixl_fd :: fd
record BsdUdpSocket = udp_fd :: fd

definition tcp_stream_connect :: "net_libc \<Rightarrow> unix \<Rightarrow> SocketAddr \<Rightarrow> BsdTcpStream io" where
  "tcp_stream_connect lc os addr = attempt (tcp_connect lc os addr) (\<lambda>d. ret (Ok \<lparr>tcp_fd = d\<rparr>))"

definition tcp_stream_set_nonblocking :: "net_libc \<Rightarrow> unix \<Rightarrow> BsdTcpStream \<Rightarrow> bool \<Rightarrow> unit io" where
  "tcp_stream_set_nonblocking lc os s = set_nonblocking lc os (tcp_fd s)"

definition tcp_stream_read :: "net_libc \<Rightarrow> unix \<Rightarrow> BsdTcpStream \<Rightarrow> bytes \<Rightarrow> (nat \<times> bytes) io" where
  "tcp_stream_read lc os s buf = read_fd lc os (tcp_fd s) buf"

definition tcp_stream_write :: "net_libc \<Rightarrow> unix \<Rightarrow> BsdTcpStream \<Rightarrow> bytes \<Rightarrow> nat io" where
  "tcp_stream_write lc os s buf = write_fd lc os (tcp_fd s) buf"

definition tcp_stream_set_nodelay :: "net_libc \<Rightarrow> unix \<Rightarrow> BsdTcpStream \<Rightarrow> bool \<Rightarrow> unit io" where
  "tcp_stream_set_nodelay lc os s = set_nodelay lc os (tcp_fd s)"

definition tcp_stream_peer_addr :: "net_libc \<Rightarrow> unix \<Rightarrow> BsdTcpStream \<Rightarrow> SocketAddr io" where
  "tcp_stream_peer_addr lc os s = peer_addr lc os (tcp_fd s)"

definition tcp_stream_local_addr :: "net_libc \<Rightarrow> unix \<Rightarrow> BsdTcpStream \<Rightarrow> SocketAddr io" where
  "tcp_stream_local_addr lc os s = local_addr lc os (tcp_fd s)"

definition tcp_stream_set_read_timeout ::
  "net_libc \<Rightarrow> unix \<Rightarrow> BsdTcpStream \<Rightarrow> Duration option \<Rightarrow> unit io" where
  "tcp_stream_set_read_timeout lc os s = set_read_timeout lc os (tcp_fd s)"

definition tcp_listener_bind :: "net_libc \<Rightarrow> unix \<Rightarrow> SocketAddr \<Rightarrow> BsdTcpListener io" where
  "tcp_listener_bind lc os addr = attempt (tcp_listen lc os addr) (\<lambda>d. ret (Ok \<lparr>tcpl_fd = d\<rparr>))"

definition tcp_listener_accept ::
  "net_libc \<Rightarrow> unix \<Rightarrow> BsdTcpListener \<Rightarrow> (BsdTcpStream \<times> SocketAddr) io" where
  "tcp_listener_accept lc os l =
    attempt (tcp_accept lc os (tcpl_fd l)) (\<lambda>(d, peer). ret (Ok (\<lparr>tcp_fd = d\<rparr>, peer)))"

definition tcp_listener_set_nonblocking :: "net_libc \<Rightarrow> unix \<Rightarrow> BsdTcpListener \<Rightarrow> bool \<Rightarrow> unit io" where
  "tcp_listener_set_nonblocking lc os l = set_nonblocking lc os (tcpl_fd l)"

definition tcp_listener_local_addr :: "net_libc \<Rightarrow> unix \<Rightarrow> BsdTcpListener \<Rightarrow> SocketAddr io" where
  "tcp_listener_local_addr lc os l = local_addr lc os (tcpl_fd l)"

definition unix_stream_connect :: "net_libc \<Rightarrow> unix \<Rightarrow> string \<Rightarrow> BsdUnixStream io" where
  "unix_stream_connect lc os path = attempt (unix_connect lc os path) (\<lambda>d. ret (Ok \<lparr>unix_fd = d\<rparr>))"

definition unix_stream_set_nonblocking :: "net_libc \<Rightarrow> unix \<Rightarrow> BsdUnixStream \<Rightarrow> bool \<Rightarrow> unit io" where
  "unix_stream_set_nonblocking lc os s = set_nonblocking lc os (unix_fd s)"

definition unix_stream_read :: "net_libc \<Rightarrow> unix \<Rightarrow> BsdUnixStream \<Rightarrow> bytes \<Rightarrow> (nat \<times> bytes) io" where
  "unix_stream_read lc os s buf = read_fd lc os (unix_fd s) buf"

definition unix_stream_write :: "net_libc \<Rightarrow> unix \<Rightarrow> BsdUnixStream \<Rightarrow> bytes \<Rightarrow> nat io" where
  "unix_stream_write lc os s buf = write_fd lc os (unix_fd s) buf"

definition unix_stream_peer_addr :: "net_libc \<Rightarrow> unix \<Rightarrow> BsdUnixStream \<Rightarrow> string option io" where
  "unix_stream_peer_addr lc os s = unix_peer_addr lc os (unix_fd s)"

definition unix_stream_local_addr :: "net_libc \<Rightarrow> unix \<Rightarrow> BsdUnixStream \<Rightarrow> string option io" where
  "unix_stream_local_addr lc os s = unix_local_addr lc os (unix_fd s)"

definition unix_listener_bind :: "net_libc \<Rightarrow> unix \<Rightarrow> string \<Rightarrow> BsdUnixListener io" where
  "unix_listener_bind lc os path = attempt (unix_listen lc os path) (\<lambda>d. ret (Ok \<lparr>unixl_fd = d\<rparr>))"

definition unix_listener_accept ::
  "net_libc \<Rightarrow> unix \<Rightarrow> BsdUnixListener \<Rightarrow> (BsdUnixStream \<times> string option) io" where
  "unix_listener_accept lc os l =
    attempt (unix_accept lc os (unixl_fd l)) (\<lambda>(d, peer). ret (Ok (\<lparr>unix_fd = d\<rparr>, peer)))"

definition unix_listener_set_nonblocking :: "net_libc \<Rightarrow> unix \<Rightarrow> BsdUnixListener \<Rightarrow> bool \<Rightarrow> unit io" where
  "unix_listener_set_nonblocking lc os l = set_nonblocking lc os (unixl_fd l)"

definition unix_listener_local_addr :: "net_libc \<Rightarrow> unix \<Rightarrow> BsdUnixListener \<Rightarrow> string option io" where
  "unix_listener_local_addr lc os l = unix_local_addr lc os (unixl_fd l)"

definition udp_socket_bind :: "net_libc \<Rightarrow> unix \<Rightarrow> SocketAddr \<Rightarrow> BsdUdpSocket io" where
  "udp_socket_bind lc os addr = attempt (udp_bind lc os addr) (\<lambda>d. ret (Ok \<lparr>udp_fd = d\<rparr>))"

definition udp_socket_set_nonblocking :: "net_libc \<Rightarrow> unix \<Rightarrow> BsdUdpSocket \<Rightarrow> bool \<Rightarrow> unit io" where
  "udp_socket_set_nonblocking lc os s = set_nonblocking lc os (udp_fd s)"

definition udp_socket_send_to ::
  "net_libc \<Rightarrow> unix \<Rightarrow> BsdUdpSocket \<Rightarrow> bytes \<Rightarrow> SocketAddr \<Rightarrow> nat io" where
  "udp_socket_send_to lc os s buf addr = udp_send_to lc os (udp_fd s) buf addr"

definition udp_socket_recv_from ::
  "net_libc \<Rightarrow> unix \<Rightarrow> BsdUdpSocket \<Rightarrow> bytes \<Rightarrow> (nat \<times> bytes \<times> SocketAddr) io" where
  "udp_socket_recv_from lc os s buf = udp_recv_from lc os (udp_fd s) buf"

definition udp_socket_local_addr :: "net_libc \<Rightarrow> unix \<Rightarrow> BsdUdpSocket \<Rightarrow> SocketAddr io" where
  "udp_socket_local_addr lc os s = local_addr lc os (udp_fd s)"

section \<open>Addresses round trip\<close>

lemma bsd_ss_family_header [simp]: "ss_family (family_header n af @ rest) = af"
  by (simp add: ss_family_def family_header_def field_at_def from_le_bytes_def)

lemma bsd_length_family_header [simp]: "length (family_header n af) = 2"
  by (simp add: family_header_def)

lemma bsd_sockaddr_roundtrip:
  assumes "families_differ lc"
  shows "(case to_sockaddr lc addr of (storage, len) \<Rightarrow>
     length storage = 128 \<and> len \<le> 128 \<and> from_sockaddr lc (zero_fill 128 (take len storage)) = Ok addr)"
proof (cases addr)
  case (SocketAddrV4 ip port)
  then show ?thesis
    by (simp add: to_sockaddr_def from_sockaddr_def zero_fill_fits read_sin_body(1))
next
  case (SocketAddrV6 ip port f sc)
  then show ?thesis using assms
    by (auto simp: to_sockaddr_def from_sockaddr_def zero_fill_fits read_sin_body(2) families_differ_def)
qed

text \<open>The kernel may report any length from the packed one up to the whole structure, the rest
  being zero: the path comes back the same.\<close>

lemma bsd_sockaddr_un_roundtrip:
  assumes "to_sockaddr_un lc path = Ok (addr, len)" "len \<le> n"
  shows "from_sockaddr_un lc (sun_storage lc (take len addr)) n = Ok (if path = [] then None else Some path)"
proof -
  let ?N = "lc_SUN_PATH_LEN lc" and ?bs = "as_bytes path"
  let ?H = "family_header (length path + 3) (lc_AF_UNIX lc)"
  have p: "0 \<notin> set ?bs" "length path < ?N" "addr = ?H @ zero_fill ?N ?bs" "len = length path + 3"
    using assms(1) by (auto simp: to_sockaddr_un_def Let_def eval_nat_numeral split: if_splits)
  have st: "sun_storage lc (take len addr) = ?H @ ?bs @ replicate (?N - length path) 0"
  proof -
    have "take len addr = ?H @ ?bs @ [0]" using p take_sun[of ?bs ?N ?H] by simp
    moreover have "[0] @ replicate (?N - Suc (length path)) 0 = replicate (?N - length path) (0 :: u8)"
      using p(2) by (simp flip: replicate_Suc)
    ultimately show ?thesis using p(2) by (simp add: zero_fill_fits)
  qed
  let ?k = "min (n - 2) ?N"
  have "field_at 2 ?k (sun_storage lc (take len addr)) = ?bs @ replicate (?k - length path) 0"
    using assms(2) p(2,4) unfolding st by (simp add: field_at_def)
  moreover have "takeWhile (\<lambda>b. b \<noteq> 0) (?bs @ replicate m 0) = ?bs" for m
    using p(1) by (induction ?bs) (cases m; auto simp: takeWhile_append)+
  moreover have "ss_family (sun_storage lc (take len addr)) = lc_AF_UNIX lc" unfolding st by simp
  ultimately show ?thesis using assms(2) p(4) by (simp add: from_sockaddr_un_def Let_def)
qed

section \<open>Handles\<close>

lemma keeps_made:
  "fds.keeps H (\<lambda>d. add_mset d H) H
     (attempt (call_fd os (net_err lc op) (Socket f t p)) (\<lambda>d.
      or_close os (CloseFd d) (attempt (set_cloexec lc os d) (\<lambda>_. ret (Ok d)))))"
proof (rule accounts_attempt)
  show "fds.keeps H (\<lambda>d. add_mset d H) H (call_fd os (net_err lc op) (Socket f t p))"
    by (rule keeps_call_fd) (simp_all add: call_defs)
  have "fds.keeps H' (\<lambda>_. H') H' (set_cloexec lc os d)" for d H'
    unfolding set_cloexec_def by (rule keeps_then) (simp_all add: call_defs accounts_ret)
  then show "fds.keeps (add_mset d H) (\<lambda>d. add_mset d H) H
      (or_close os (CloseFd d) (attempt (set_cloexec lc os d) (\<lambda>_. ret (Ok d))))" for d
    by (intro keeps_owned) (rule accounts_attempt, auto intro: keeps_hand_over)
qed

lemma keeps_set_cloexec: "fds.keeps H (\<lambda>_. H) H (set_cloexec lc os d)"
  unfolding set_cloexec_def by (rule keeps_then) (simp_all add: call_defs accounts_ret)

lemma bsd_keeps_new_sockets:
  "fds.keeps H (\<lambda>d. add_mset d H) H (new_tcp_socket lc os addr)"
  "fds.keeps H (\<lambda>d. add_mset d H) H (new_udp_socket lc os addr)"
  "fds.keeps H (\<lambda>d. add_mset d H) H (new_unix_socket lc os)"
  unfolding new_tcp_socket_def new_udp_socket_def new_unix_socket_def by (rule keeps_made)+

lemma bsd_keeps_tcp_connect: "fds.keeps H (\<lambda>d. add_mset d H) H (tcp_connect lc os addr)"
  unfolding tcp_connect_def
  by (intro accounts_attempt[OF bsd_keeps_new_sockets(1)] keeps_owned)
    (auto split: prod.split intro!: keeps_then keeps_hand_over simp: call_defs)

lemma bsd_keeps_tcp_listen: "fds.keeps H (\<lambda>d. add_mset d H) H (tcp_listen lc os addr)"
  unfolding tcp_listen_def
  by (intro accounts_attempt[OF bsd_keeps_new_sockets(1)] keeps_owned)
    (auto split: prod.split intro!: keeps_then keeps_hand_over simp: call_defs)

lemma bsd_keeps_udp_bind: "fds.keeps H (\<lambda>d. add_mset d H) H (udp_bind lc os addr)"
  unfolding udp_bind_def
  by (intro accounts_attempt[OF bsd_keeps_new_sockets(2)] keeps_owned)
    (auto split: prod.split intro!: keeps_then keeps_hand_over simp: call_defs)

lemma bsd_keeps_unix_connect: "fds.keeps H (\<lambda>d. add_mset d H) H (unix_connect lc os path)"
  unfolding unix_connect_def
  by (intro accounts_attempt[OF bsd_keeps_new_sockets(3)] keeps_owned keeps_ret_then)
    (auto split: prod.split intro!: keeps_then keeps_hand_over simp: call_defs)

lemma bsd_keeps_tcp_accept: "fds.keeps H (\<lambda>(d, _). add_mset d H) H (tcp_accept lc os l)"
  unfolding tcp_accept_def
  by (intro accounts_attempt[OF keeps_opening(2)] keeps_owned accounts_attempt[OF keeps_set_cloexec]
      keeps_ret_then keeps_hand_over)

lemma bsd_keeps_unix_accept: "fds.keeps H (\<lambda>(d, _). add_mset d H) H (unix_accept lc os l)"
  unfolding unix_accept_def
  by (intro accounts_attempt[OF keeps_opening(2)] keeps_owned accounts_attempt[OF keeps_set_cloexec]
      keeps_ret_then keeps_hand_over)

section \<open>Listening\<close>

lemma bsd_new_unix_socket_trace:
  "\<exists>r t. new_unix_socket lc os h = (r, h @ t) \<and> (\<forall>(c, a) \<in> set t. setup_call c) \<and>
    (\<forall>d. r = Ok d \<longrightarrow> last_error (h @ t) = last_error h)"
proof -
  let ?S = "Socket (ucast (lc_AF_UNIX lc)) (lc_SOCK_STREAM lc) 0"
  show ?thesis
  proof (cases "os h ?S")
    case (Inl e)
    then show ?thesis by (simp add: new_unix_socket_def call_fd_def attempt_def call_eq setup_call_def)
  next
    case (Inr x)
    let ?h1 = "h @ [(?S, Inr x)]" and ?F = "SetFd (ur_ret x) (lc_FD_CLOEXEC lc)"
    have "last_error (h @ [(?S, Inr x), (?F, Inr y)]) = last_error h" for y
      using last_error_succeeded[of ?h1 ?F y] by simp
    then show ?thesis using Inr
      by (cases "os ?h1 ?F") (simp_all add: new_unix_socket_def set_cloexec_def call_fd_def attempt_def
          call_eq or_close_def invoke_eq setup_call_def)
  qed
qed

lemma bsd_endpoint:
  assumes "lc_EADDRINUSE lc \<noteq> lc_ECONNREFUSED lc"
  shows "unix_endpoint lc (new_unix_socket lc os)"
proof
  show "lc_EADDRINUSE lc \<noteq> lc_ECONNREFUSED lc" by (rule assms)
  show "fds.keeps H (\<lambda>d. add_mset d H) H (new_unix_socket lc os)" for H by (rule bsd_keeps_new_sockets)
  show "setup_call c" if "new_unix_socket lc os h = (r, h @ t)" "(c, a) \<in> set t" for h r t c a
    using bsd_new_unix_socket_trace[of lc os h] that by auto
  show "last_error h' = last_error h" if "new_unix_socket lc os h = (Ok d, h')" for h h' d
    using bsd_new_unix_socket_trace[of lc os h] that by auto
qed

text \<open>Darwin and the other BSDs agree on the error numbers that matter here.\<close>

definition darwin_libc :: net_libc where
  "darwin_libc = \<lparr>lc_ECONNREFUSED = 61, lc_ECONNRESET = 54, lc_ECONNABORTED = 53,
     lc_ENOTCONN = 57, lc_EADDRINUSE = 48, lc_EADDRNOTAVAIL = 49, lc_ETIMEDOUT = 60,
     lc_EACCES = 13, lc_EPERM = 1, lc_EINVAL = 22, lc_EAGAIN = 35, lc_EINTR = 4, lc_ENOENT = 2,
     lc_EPIPE = 32, lc_AF_UNIX = 1, lc_AF_INET = 2, lc_AF_INET6 = 30, lc_SOCK_STREAM = 1,
     lc_SOCK_DGRAM = 2, lc_SOCK_CLOEXEC = 0, lc_SOL_SOCKET = 0xFFFF, lc_SO_REUSEADDR = 4,
     lc_SO_RCVTIMEO = 0x1006, lc_IPPROTO_TCP = 6, lc_TCP_NODELAY = 1, lc_O_NONBLOCK = 4,
     lc_FD_CLOEXEC = 1, lc_SOMAXCONN = 128, lc_SUN_PATH_LEN = 104\<rparr>"

interpretation darwin: unix_endpoint darwin_libc "new_unix_socket darwin_libc os"
    "to_sockaddr_un darwin_libc" os for os
  by (rule bsd_endpoint) (simp add: darwin_libc_def)

end
