(* ===== verification/Windows_Net.thy ===== *)
theory Windows_Net
  imports Sockets Utf8
begin

text \<open>
  The socket primitives of the Windows backend, \<open>platform-windows/src/sys/net.rs\<close>, in its default
  configuration (the \<open>windows-sys\<close> arms), and the socket types of \<open>platform-windows/src/net.rs\<close>.
  A Winsock call either succeeds with a reply or fails and leaves a code for
  \<open>WSAGetLastError\<close>, which may be 0.  A path is the sequence of its WTF-8 bytes; it converts to
  a \<open>str\<close> when that is valid UTF-8.
\<close>

section \<open>Calls\<close>

type_synonym sock = int

datatype WsaCall =
    WSAStartup
  | WsaSocket i32 i32 i32
  | WsaConnect sock bytes
  | WsaBind sock bytes
  | WsaListen sock i32
  | WsaAccept sock
  | WsaGetName bool sock
  | WsaRecv sock nat
  | WsaSend sock bytes
  | WsaSendTo sock bytes bytes
  | WsaRecvFrom sock nat
  | IoctlNonblock sock u32
  | WsaSetSockOpt sock i32 i32 u32
  | CloseSocket sock
  | DeleteFileW string
  | Sleep nat

record WsaReply =
  wr_ret :: int
  wr_addr :: bytes
  wr_len :: int
  wr_data :: bytes

definition wsa_reply :: "int \<Rightarrow> WsaReply" where
  "wsa_reply n = \<lparr>wr_ret = n, wr_addr = [], wr_len = 0, wr_data = []\<rparr>"

type_synonym winsock = "(WsaCall, WsaReply) os"
type_synonym wsa_calls = "(WsaCall, WsaReply) calls"
type_synonym 'a wio = "(WsaCall, WsaReply, 'a result) effect"

definition opens_sock :: "WsaCall \<Rightarrow> WsaReply \<Rightarrow> sock multiset" where
  "opens_sock c r = (case c of WsaSocket _ _ _ \<Rightarrow> {#wr_ret r#} | WsaAccept _ \<Rightarrow> {#wr_ret r#} | _ \<Rightarrow> {#})"

definition closes_sock :: "WsaCall \<Rightarrow> sock multiset" where
  "closes_sock c = (case c of CloseSocket d \<Rightarrow> {#d#} | _ \<Rightarrow> {#})"

lemmas wsa_defs = opens_sock_def closes_sock_def

interpretation socks: handle_ledger opens_sock closes_sock CloseSocket
  by unfold_locales (simp_all add: wsa_defs)

abbreviation WSAEINTR :: i32 where "WSAEINTR \<equiv> 10004"
abbreviation WSAEACCES :: i32 where "WSAEACCES \<equiv> 10013"
abbreviation WSAEINVAL :: i32 where "WSAEINVAL \<equiv> 10022"
abbreviation WSAEWOULDBLOCK :: i32 where "WSAEWOULDBLOCK \<equiv> 10035"
abbreviation WSAEADDRINUSE :: i32 where "WSAEADDRINUSE \<equiv> 10048"
abbreviation WSAEADDRNOTAVAIL :: i32 where "WSAEADDRNOTAVAIL \<equiv> 10049"
abbreviation WSAECONNABORTED :: i32 where "WSAECONNABORTED \<equiv> 10053"
abbreviation WSAECONNRESET :: i32 where "WSAECONNRESET \<equiv> 10054"
abbreviation WSAENOBUFS :: i32 where "WSAENOBUFS \<equiv> 10055"
abbreviation WSAENOTCONN :: i32 where "WSAENOTCONN \<equiv> 10057"
abbreviation WSAETIMEDOUT :: i32 where "WSAETIMEDOUT \<equiv> 10060"
abbreviation WSAECONNREFUSED :: i32 where "WSAECONNREFUSED \<equiv> 10061"
abbreviation W_AF_UNIX :: u16 where "W_AF_UNIX \<equiv> 1"
abbreviation W_AF_INET :: u16 where "W_AF_INET \<equiv> 2"
abbreviation W_AF_INET6 :: u16 where "W_AF_INET6 \<equiv> 23"
abbreviation W_SOCK_STREAM :: i32 where "W_SOCK_STREAM \<equiv> 1"
abbreviation W_SOCK_DGRAM :: i32 where "W_SOCK_DGRAM \<equiv> 2"
abbreviation W_IPPROTO_TCP :: i32 where "W_IPPROTO_TCP \<equiv> 6"
abbreviation W_SOL_SOCKET :: i32 where "W_SOL_SOCKET \<equiv> 0xFFFF"
abbreviation W_SO_REUSEADDR :: i32 where "W_SO_REUSEADDR \<equiv> 4"
abbreviation W_SO_RCVTIMEO :: i32 where "W_SO_RCVTIMEO \<equiv> 0x1006"
abbreviation W_TCP_NODELAY :: i32 where "W_TCP_NODELAY \<equiv> 1"
abbreviation W_SOMAXCONN :: i32 where "W_SOMAXCONN \<equiv> 0x7FFFFFFF"

section \<open>Start-up and errors\<close>

text \<open>The \<open>Once\<close> has run when the history holds the start-up call.  Its failed assertion panics;
  unwinding drops what is owned like an early return does, so the panic is the error value
  \<open>startup_panic\<close>.\<close>

definition startup_panic :: PlatformError where
  "startup_panic = new_error Other NoCode ''panic: WSAStartup failed''"

definition ensure_wsa_started :: "winsock \<Rightarrow> unit wio" where
  "ensure_wsa_started os h =
    (if WSAStartup \<in> fst ` set h then (Ok (), h)
     else case invoke os WSAStartup h of
            (Inl _, h1) \<Rightarrow> (Err startup_panic, h1)
          | (Inr _, h1) \<Rightarrow> (Ok (), h1))"

definition wsa_kind :: "i32 \<Rightarrow> ErrorKind" where
  "wsa_kind code =
    (if code = WSAECONNREFUSED then ConnectionRefused
     else if code = WSAECONNRESET then ConnectionReset
     else if code = WSAECONNABORTED then ConnectionAborted
     else if code = WSAENOTCONN then NotConnected
     else if code = WSAEADDRINUSE then AddrInUse
     else if code = WSAEADDRNOTAVAIL then AddrNotAvailable
     else if code = WSAETIMEDOUT then TimedOut
     else if code = WSAEACCES then PermissionDenied
     else if code = WSAEINVAL then InvalidInput
     else if code = WSAEWOULDBLOCK then WouldBlock
     else if code = WSAEINTR then Interrupted
     else Other)"

definition wsa_err :: "string \<Rightarrow> i32 \<Rightarrow> PlatformError" where
  "wsa_err op code = new_error (wsa_kind code) (Win32 code) op"

definition drop_socket :: "winsock \<Rightarrow> sock \<Rightarrow> wsa_calls \<Rightarrow> wsa_calls" where
  "drop_socket os d h = snd (invoke os (CloseSocket d) h)"

section \<open>Addresses\<close>

definition win_family :: "u16 \<Rightarrow> bytes" where
  "win_family af = to_le_bytes 2 af"

definition sa_family :: "bytes \<Rightarrow> u16" where
  "sa_family buf = from_le_bytes (field_at 0 2 buf)"

definition to_sockaddr :: "SocketAddr \<Rightarrow> bytes \<times> nat" where
  "to_sockaddr addr =
    (case addr of
       SocketAddrV4 ip port \<Rightarrow> (zero_fill 28 (win_family W_AF_INET @ sin_body ip port), 16)
     | SocketAddrV6 ip port flowinfo scope_id \<Rightarrow>
         (zero_fill 28 (win_family W_AF_INET6 @ sin6_body ip port flowinfo scope_id), 28))"

definition from_sockaddr :: "bytes \<Rightarrow> SocketAddr result" where
  "from_sockaddr buf =
    (let family = sa_family buf
     in if family = W_AF_INET then Ok (read_sin buf)
        else if family = W_AF_INET6 then Ok (read_sin6 buf)
        else Err unknown_family)"

section \<open>One call each\<close>

definition raw_socket :: "winsock \<Rightarrow> bool \<Rightarrow> bool \<Rightarrow> sock wio" where
  "raw_socket os v6 stream =
    (let family = (if v6 then W_AF_INET6 else W_AF_INET);
         (kind, proto) = (if stream then (W_SOCK_STREAM, W_IPPROTO_TCP) else (W_SOCK_DGRAM, 0))
     in attempt (call os (wsa_err ''socket'') (WsaSocket (ucast family) kind proto)) (\<lambda>r.
        ret (Ok (wr_ret r))))"

definition raw_connect :: "winsock \<Rightarrow> sock \<Rightarrow> SocketAddr \<Rightarrow> unit wio" where
  "raw_connect os d addr =
    (case to_sockaddr addr of (buf, len) \<Rightarrow>
     attempt (call os (wsa_err ''connect'') (WsaConnect d (take len buf))) (\<lambda>_. ret (Ok ())))"

definition raw_bind :: "winsock \<Rightarrow> sock \<Rightarrow> SocketAddr \<Rightarrow> unit wio" where
  "raw_bind os d addr =
    (case to_sockaddr addr of (buf, len) \<Rightarrow>
     attempt (call os (wsa_err ''bind'') (WsaBind d (take len buf))) (\<lambda>_. ret (Ok ())))"

definition raw_listen :: "winsock \<Rightarrow> sock \<Rightarrow> unit wio" where
  "raw_listen os d =
    attempt (call os (wsa_err ''listen'') (WsaListen d W_SOMAXCONN)) (\<lambda>_. ret (Ok ()))"

text \<open>The accepted socket is a raw value here: nothing closes it when the address is unreadable.\<close>

definition raw_accept :: "winsock \<Rightarrow> sock \<Rightarrow> (sock \<times> SocketAddr) wio" where
  "raw_accept os d =
    attempt (call os (wsa_err ''accept'') (WsaAccept d)) (\<lambda>r.
    attempt (ret (from_sockaddr (zero_fill 28 (wr_addr r)))) (\<lambda>peer.
    ret (Ok (wr_ret r, peer))))"

definition raw_sock_addr :: "winsock \<Rightarrow> sock \<Rightarrow> bool \<Rightarrow> SocketAddr wio" where
  "raw_sock_addr os d peer =
    (let op = (if peer then ''getpeername'' else ''getsockname'')
     in attempt (call os (wsa_err op) (WsaGetName peer d)) (\<lambda>r.
        ret (from_sockaddr (zero_fill 28 (wr_addr r)))))"

text \<open>\<open>i32::try_from(buf.len()).unwrap_or(i32::MAX)\<close>.\<close>

definition clamp_i32 :: "nat \<Rightarrow> nat" where
  "clamp_i32 n = (if n \<le> 0x7FFFFFFF then n else 0x7FFFFFFF)"

definition raw_recv :: "winsock \<Rightarrow> sock \<Rightarrow> bytes \<Rightarrow> (nat \<times> bytes) wio" where
  "raw_recv os d buf =
    attempt (call os (wsa_err ''recv'') (WsaRecv d (clamp_i32 (length buf)))) (\<lambda>r.
    ret (Ok (nat (wr_ret r), read_into buf (wr_data r))))"

definition raw_send :: "winsock \<Rightarrow> sock \<Rightarrow> bytes \<Rightarrow> nat wio" where
  "raw_send os d buf =
    attempt (call os (wsa_err ''send'') (WsaSend d (take (clamp_i32 (length buf)) buf))) (\<lambda>r.
    ret (Ok (nat (wr_ret r))))"

section \<open>TCP\<close>

definition is_v6 :: "SocketAddr \<Rightarrow> bool" where
  "is_v6 addr = (case addr of SocketAddrV6 _ _ _ _ \<Rightarrow> True | SocketAddrV4 _ _ \<Rightarrow> False)"

definition new_tcp_socket :: "winsock \<Rightarrow> SocketAddr \<Rightarrow> sock wio" where
  "new_tcp_socket os addr =
    attempt (ensure_wsa_started os) (\<lambda>_. raw_socket os (is_v6 addr) True)"

datatype SockOpt = ReuseAddr | NoDelay bool | RecvTimeoutMillis u32

definition set_sockopt :: "winsock \<Rightarrow> sock \<Rightarrow> SockOpt \<Rightarrow> unit wio" where
  "set_sockopt os d opt =
    (let (level, name, value, op) =
       (case opt of
          ReuseAddr \<Rightarrow> (W_SOL_SOCKET, W_SO_REUSEADDR, 1, ''setsockopt(SO_REUSEADDR)'')
        | NoDelay on \<Rightarrow> (W_IPPROTO_TCP, W_TCP_NODELAY, of_bool on, ''setsockopt(TCP_NODELAY)'')
        | RecvTimeoutMillis ms \<Rightarrow> (W_SOL_SOCKET, W_SO_RCVTIMEO, ms, ''setsockopt(SO_RCVTIMEO)''))
     in attempt (call os (wsa_err op) (WsaSetSockOpt d level name value)) (\<lambda>_. ret (Ok ())))"

definition tcp_connect :: "winsock \<Rightarrow> SocketAddr \<Rightarrow> sock wio" where
  "tcp_connect os addr =
    attempt (new_tcp_socket os addr) (\<lambda>d. or_close os (CloseSocket d)
      (attempt (raw_connect os d addr) (\<lambda>_. ret (Ok d))))"

definition tcp_listen :: "winsock \<Rightarrow> SocketAddr \<Rightarrow> sock wio" where
  "tcp_listen os addr =
    attempt (new_tcp_socket os addr) (\<lambda>d. or_close os (CloseSocket d)
      (attempt (set_sockopt os d ReuseAddr) (\<lambda>_.
       attempt (raw_bind os d addr) (\<lambda>_.
       attempt (raw_listen os d) (\<lambda>_. ret (Ok d))))))"

definition tcp_accept :: "winsock \<Rightarrow> sock \<Rightarrow> (sock \<times> SocketAddr) wio" where
  "tcp_accept os d = raw_accept os d"

definition set_nonblocking :: "winsock \<Rightarrow> sock \<Rightarrow> bool \<Rightarrow> unit wio" where
  "set_nonblocking os d nonblocking =
    attempt (call os (wsa_err ''ioctlsocket(FIONBIO)'') (IoctlNonblock d (of_bool nonblocking)))
      (\<lambda>_. ret (Ok ()))"

definition set_nodelay :: "winsock \<Rightarrow> sock \<Rightarrow> bool \<Rightarrow> unit wio" where
  "set_nodelay os d nodelay = set_sockopt os d (NoDelay nodelay)"

definition read_timeout_millis :: "Duration option \<Rightarrow> u32" where
  "read_timeout_millis timeout =
    (case timeout of
       Some d \<Rightarrow> (if as_millis d < 2 ^ 32 then of_nat (as_millis d) else 0xFFFFFFFF)
     | None \<Rightarrow> 0)"

definition set_read_timeout :: "winsock \<Rightarrow> sock \<Rightarrow> Duration option \<Rightarrow> unit wio" where
  "set_read_timeout os d timeout = set_sockopt os d (RecvTimeoutMillis (read_timeout_millis timeout))"

definition peer_addr :: "winsock \<Rightarrow> sock \<Rightarrow> SocketAddr wio" where
  "peer_addr os d = raw_sock_addr os d True"

definition local_addr :: "winsock \<Rightarrow> sock \<Rightarrow> SocketAddr wio" where
  "local_addr os d = raw_sock_addr os d False"

definition read_sock :: "winsock \<Rightarrow> sock \<Rightarrow> bytes \<Rightarrow> (nat \<times> bytes) wio" where
  "read_sock os d buf = raw_recv os d buf"

definition write_sock :: "winsock \<Rightarrow> sock \<Rightarrow> bytes \<Rightarrow> nat wio" where
  "write_sock os d buf = raw_send os d buf"

section \<open>Unix domain sockets\<close>

abbreviation UNIX_PATH_CAP :: nat where "UNIX_PATH_CAP \<equiv> 108"

definition to_sockaddr_un :: "string \<Rightarrow> bytes result" where
  "to_sockaddr_un path =
    (if \<not> is_str path then Err (new_error InvalidInput NoCode ''AF_UNIX path is not valid UTF-8'')
     else
       (let bytes = as_bytes path in
        if length bytes > UNIX_PATH_CAP - 1
        then Err (new_error InvalidInput NoCode
                    ''AF_UNIX path exceeds sun_path's 107-byte usable capacity'')
        else Ok (win_family W_AF_UNIX @ zero_fill UNIX_PATH_CAP bytes)))"

definition from_sockaddr_un :: "bytes \<Rightarrow> int \<Rightarrow> string option result" where
  "from_sockaddr_un buf len =
    (let len = nat len in
     if len \<le> 2 then Ok None
     else if sa_family buf \<noteq> W_AF_UNIX then Err unknown_family
     else
       (let path_end = min len (length buf);
            path_bytes = takeWhile (\<lambda>b. b \<noteq> 0) (drop 2 (take path_end buf))
        in if path_bytes = [] then Ok None
           else if \<not> utf8_valid path_bytes
           then Err (new_error Other NoCode ''AF_UNIX peer path is not valid UTF-8'')
           else Ok (Some (from_bytes path_bytes))))"

definition raw_unix_socket :: "winsock \<Rightarrow> sock wio" where
  "raw_unix_socket os =
    attempt (call os (wsa_err ''socket'') (WsaSocket (ucast W_AF_UNIX) W_SOCK_STREAM 0)) (\<lambda>r.
    ret (Ok (wr_ret r)))"

definition raw_connect_unix :: "winsock \<Rightarrow> sock \<Rightarrow> string \<Rightarrow> unit wio" where
  "raw_connect_unix os d path =
    attempt (ret (to_sockaddr_un path)) (\<lambda>buf.
    attempt (call os (wsa_err ''connect'') (WsaConnect d buf)) (\<lambda>_. ret (Ok ())))"

definition raw_bind_unix :: "winsock \<Rightarrow> sock \<Rightarrow> string \<Rightarrow> unit wio" where
  "raw_bind_unix os d path =
    attempt (ret (to_sockaddr_un path)) (\<lambda>buf.
    attempt (call os (wsa_err ''bind'') (WsaBind d buf)) (\<lambda>_. ret (Ok ())))"

definition raw_accept_unix :: "winsock \<Rightarrow> sock \<Rightarrow> (sock \<times> string option) wio" where
  "raw_accept_unix os d =
    attempt (call os (wsa_err ''accept'') (WsaAccept d)) (\<lambda>r.
    attempt (ret (from_sockaddr_un (zero_fill 110 (wr_addr r)) (wr_len r))) (\<lambda>peer.
    ret (Ok (wr_ret r, peer))))"

definition raw_local_addr_unix :: "winsock \<Rightarrow> sock \<Rightarrow> string option wio" where
  "raw_local_addr_unix os d =
    attempt (call os (wsa_err ''getsockname'') (WsaGetName False d)) (\<lambda>r.
    ret (from_sockaddr_un (zero_fill 110 (wr_addr r)) (wr_len r)))"

definition new_unix_socket :: "winsock \<Rightarrow> sock wio" where
  "new_unix_socket os = attempt (ensure_wsa_started os) (\<lambda>_. raw_unix_socket os)"

definition unix_connect :: "winsock \<Rightarrow> string \<Rightarrow> sock wio" where
  "unix_connect os path =
    attempt (new_unix_socket os) (\<lambda>d. or_close os (CloseSocket d)
      (attempt (raw_connect_unix os d path) (\<lambda>_. ret (Ok d))))"

abbreviation STALE_PROBE_ENOBUFS_RETRIES :: nat where "STALE_PROBE_ENOBUFS_RETRIES \<equiv> 20"
abbreviation STALE_PROBE_ENOBUFS_RETRY_DELAY :: nat where "STALE_PROBE_ENOBUFS_RETRY_DELAY \<equiv> 25"

text \<open>The probing loop with \<open>n\<close> retries left; the probe is dropped at the end of each round.\<close>

fun probe_loop :: "nat \<Rightarrow> winsock \<Rightarrow> string \<Rightarrow> wsa_calls \<Rightarrow> bool \<times> wsa_calls" where
  "probe_loop n os path h =
    (case new_unix_socket os h of
       (Err _, h1) \<Rightarrow> (False, h1)
     | (Ok probe, h1) \<Rightarrow>
         (case raw_connect_unix os probe path h1 of
            (Ok _, h2) \<Rightarrow> (False, drop_socket os probe h2)
          | (Err e, h2) \<Rightarrow>
              (if err_kind e = ConnectionRefused then (True, drop_socket os probe h2)
               else if err_os e = Win32 WSAENOBUFS
               then (case n of
                       0 \<Rightarrow> (False, drop_socket os probe h2)
                     | Suc m \<Rightarrow> probe_loop m os path (drop_socket os probe
                         (snd (invoke os (Sleep STALE_PROBE_ENOBUFS_RETRY_DELAY) h2))))
               else (False, drop_socket os probe h2))))"

declare probe_loop.simps [simp del]

definition is_stale_socket :: "winsock \<Rightarrow> string \<Rightarrow> wsa_calls \<Rightarrow> bool \<times> wsa_calls" where
  "is_stale_socket os path = probe_loop STALE_PROBE_ENOBUFS_RETRIES os path"

definition is_stale_bind_candidate :: "PlatformError \<Rightarrow> bool" where
  "is_stale_bind_candidate e \<longleftrightarrow> err_kind e = AddrInUse \<or> err_os e = Win32 0"

definition bind_reclaiming :: "winsock \<Rightarrow> sock \<Rightarrow> string \<Rightarrow> unit wio" where
  "bind_reclaiming os d path h =
    (case raw_bind_unix os d path h of
       (Ok _, h1) \<Rightarrow> (Ok (), h1)
     | (Err e, h1) \<Rightarrow>
         (if is_stale_bind_candidate e
          then case is_stale_socket os path h1 of
                 (False, h2) \<Rightarrow> (Err e, h2)
               | (True, h2) \<Rightarrow> raw_bind_unix os d path (snd (invoke os (DeleteFileW path) h2))
          else (Err e, h1)))"

definition unix_listen :: "winsock \<Rightarrow> string \<Rightarrow> sock wio" where
  "unix_listen os path =
    attempt (new_unix_socket os) (\<lambda>d. or_close os (CloseSocket d)
      (attempt (bind_reclaiming os d path) (\<lambda>_.
       attempt (raw_listen os d) (\<lambda>_. ret (Ok d)))))"

definition unix_accept :: "winsock \<Rightarrow> sock \<Rightarrow> (sock \<times> string option) wio" where
  "unix_accept os d = raw_accept_unix os d"

definition unix_peer_addr :: "winsock \<Rightarrow> sock \<Rightarrow> string option wio" where
  "unix_peer_addr os d =
    attempt (call os (wsa_err ''getpeername'') (WsaGetName True d)) (\<lambda>r.
    ret (from_sockaddr_un (zero_fill 110 (wr_addr r)) (wr_len r)))"

definition unix_local_addr :: "winsock \<Rightarrow> sock \<Rightarrow> string option wio" where
  "unix_local_addr os d = raw_local_addr_unix os d"

section \<open>UDP\<close>

definition raw_sendto :: "winsock \<Rightarrow> sock \<Rightarrow> bytes \<Rightarrow> SocketAddr \<Rightarrow> nat wio" where
  "raw_sendto os d buf addr =
    (case to_sockaddr addr of (addr_buf, addr_len) \<Rightarrow>
     attempt (call os (wsa_err ''sendto'')
       (WsaSendTo d (take (clamp_i32 (length buf)) buf) (take addr_len addr_buf))) (\<lambda>r.
     ret (Ok (nat (wr_ret r)))))"

definition raw_recvfrom :: "winsock \<Rightarrow> sock \<Rightarrow> bytes \<Rightarrow> (nat \<times> bytes \<times> SocketAddr) wio" where
  "raw_recvfrom os d buf =
    attempt (call os (wsa_err ''recvfrom'') (WsaRecvFrom d (clamp_i32 (length buf)))) (\<lambda>r.
    attempt (ret (from_sockaddr (zero_fill 28 (wr_addr r)))) (\<lambda>peer.
    ret (Ok (nat (wr_ret r), read_into buf (wr_data r), peer))))"

definition new_udp_socket :: "winsock \<Rightarrow> SocketAddr \<Rightarrow> sock wio" where
  "new_udp_socket os addr =
    attempt (ensure_wsa_started os) (\<lambda>_. raw_socket os (is_v6 addr) False)"

definition udp_bind :: "winsock \<Rightarrow> SocketAddr \<Rightarrow> sock wio" where
  "udp_bind os addr =
    attempt (new_udp_socket os addr) (\<lambda>d. or_close os (CloseSocket d)
      (attempt (raw_bind os d addr) (\<lambda>_. ret (Ok d))))"

definition udp_send_to :: "winsock \<Rightarrow> sock \<Rightarrow> bytes \<Rightarrow> SocketAddr \<Rightarrow> nat wio" where
  "udp_send_to os d buf addr = raw_sendto os d buf addr"

definition udp_recv_from :: "winsock \<Rightarrow> sock \<Rightarrow> bytes \<Rightarrow> (nat \<times> bytes \<times> SocketAddr) wio" where
  "udp_recv_from os d buf = raw_recvfrom os d buf"

section \<open>The socket types\<close>

text \<open>Each type owns one socket; dropping it closes that.  The methods of the network capability
  (\<open>WindowsNet\<close>) return the same values behind the trait objects.\<close>

record WindowsTcpStream = tcp_sock :: sock
record WindowsTcpListener = tcpl_sock :: sock
record WindowsUnixStream = unix_sock :: sock
record WindowsUnixListener = unixl_sock :: sock
record WindowsUdpSocket = udp_sock :: sock

definition tcp_stream_connect :: "winsock \<Rightarrow> SocketAddr \<Rightarrow> WindowsTcpStream wio" where
  "tcp_stream_connect os addr = attempt (tcp_connect os addr) (\<lambda>d. ret (Ok \<lparr>tcp_sock = d\<rparr>))"

definition tcp_stream_set_nonblocking :: "winsock \<Rightarrow> WindowsTcpStream \<Rightarrow> bool \<Rightarrow> unit wio" where
  "tcp_stream_set_nonblocking os s = set_nonblocking os (tcp_sock s)"

definition tcp_stream_read :: "winsock \<Rightarrow> WindowsTcpStream \<Rightarrow> bytes \<Rightarrow> (nat \<times> bytes) wio" where
  "tcp_stream_read os s buf = read_sock os (tcp_sock s) buf"

definition tcp_stream_write :: "winsock \<Rightarrow> WindowsTcpStream \<Rightarrow> bytes \<Rightarrow> nat wio" where
  "tcp_stream_write os s buf = write_sock os (tcp_sock s) buf"

definition tcp_stream_set_nodelay :: "winsock \<Rightarrow> WindowsTcpStream \<Rightarrow> bool \<Rightarrow> unit wio" where
  "tcp_stream_set_nodelay os s = set_nodelay os (tcp_sock s)"

definition tcp_stream_peer_addr :: "winsock \<Rightarrow> WindowsTcpStream \<Rightarrow> SocketAddr wio" where
  "tcp_stream_peer_addr os s = peer_addr os (tcp_sock s)"

definition tcp_stream_local_addr :: "winsock \<Rightarrow> WindowsTcpStream \<Rightarrow> SocketAddr wio" where
  "tcp_stream_local_addr os s = local_addr os (tcp_sock s)"

definition tcp_stream_set_read_timeout ::
  "winsock \<Rightarrow> WindowsTcpStream \<Rightarrow> Duration option \<Rightarrow> unit wio" where
  "tcp_stream_set_read_timeout os s = set_read_timeout os (tcp_sock s)"

definition tcp_listener_bind :: "winsock \<Rightarrow> SocketAddr \<Rightarrow> WindowsTcpListener wio" where
  "tcp_listener_bind os addr = attempt (tcp_listen os addr) (\<lambda>d. ret (Ok \<lparr>tcpl_sock = d\<rparr>))"

definition tcp_listener_accept ::
  "winsock \<Rightarrow> WindowsTcpListener \<Rightarrow> (WindowsTcpStream \<times> SocketAddr) wio" where
  "tcp_listener_accept os l =
    attempt (tcp_accept os (tcpl_sock l)) (\<lambda>(d, peer). ret (Ok (\<lparr>tcp_sock = d\<rparr>, peer)))"

definition tcp_listener_set_nonblocking :: "winsock \<Rightarrow> WindowsTcpListener \<Rightarrow> bool \<Rightarrow> unit wio" where
  "tcp_listener_set_nonblocking os l = set_nonblocking os (tcpl_sock l)"

definition tcp_listener_local_addr :: "winsock \<Rightarrow> WindowsTcpListener \<Rightarrow> SocketAddr wio" where
  "tcp_listener_local_addr os l = local_addr os (tcpl_sock l)"

definition unix_stream_connect :: "winsock \<Rightarrow> string \<Rightarrow> WindowsUnixStream wio" where
  "unix_stream_connect os path = attempt (unix_connect os path) (\<lambda>d. ret (Ok \<lparr>unix_sock = d\<rparr>))"

definition unix_stream_set_nonblocking :: "winsock \<Rightarrow> WindowsUnixStream \<Rightarrow> bool \<Rightarrow> unit wio" where
  "unix_stream_set_nonblocking os s = set_nonblocking os (unix_sock s)"

definition unix_stream_read :: "winsock \<Rightarrow> WindowsUnixStream \<Rightarrow> bytes \<Rightarrow> (nat \<times> bytes) wio" where
  "unix_stream_read os s buf = read_sock os (unix_sock s) buf"

definition unix_stream_write :: "winsock \<Rightarrow> WindowsUnixStream \<Rightarrow> bytes \<Rightarrow> nat wio" where
  "unix_stream_write os s buf = write_sock os (unix_sock s) buf"

definition unix_stream_peer_addr :: "winsock \<Rightarrow> WindowsUnixStream \<Rightarrow> string option wio" where
  "unix_stream_peer_addr os s = unix_peer_addr os (unix_sock s)"

definition unix_stream_local_addr :: "winsock \<Rightarrow> WindowsUnixStream \<Rightarrow> string option wio" where
  "unix_stream_local_addr os s = unix_local_addr os (unix_sock s)"

definition unix_listener_bind :: "winsock \<Rightarrow> string \<Rightarrow> WindowsUnixListener wio" where
  "unix_listener_bind os path = attempt (unix_listen os path) (\<lambda>d. ret (Ok \<lparr>unixl_sock = d\<rparr>))"

definition unix_listener_accept ::
  "winsock \<Rightarrow> WindowsUnixListener \<Rightarrow> (WindowsUnixStream \<times> string option) wio" where
  "unix_listener_accept os l =
    attempt (unix_accept os (unixl_sock l)) (\<lambda>(d, peer). ret (Ok (\<lparr>unix_sock = d\<rparr>, peer)))"

definition unix_listener_set_nonblocking :: "winsock \<Rightarrow> WindowsUnixListener \<Rightarrow> bool \<Rightarrow> unit wio" where
  "unix_listener_set_nonblocking os l = set_nonblocking os (unixl_sock l)"

definition unix_listener_local_addr :: "winsock \<Rightarrow> WindowsUnixListener \<Rightarrow> string option wio" where
  "unix_listener_local_addr os l = unix_local_addr os (unixl_sock l)"

definition udp_socket_bind :: "winsock \<Rightarrow> SocketAddr \<Rightarrow> WindowsUdpSocket wio" where
  "udp_socket_bind os addr = attempt (udp_bind os addr) (\<lambda>d. ret (Ok \<lparr>udp_sock = d\<rparr>))"

definition udp_socket_set_nonblocking :: "winsock \<Rightarrow> WindowsUdpSocket \<Rightarrow> bool \<Rightarrow> unit wio" where
  "udp_socket_set_nonblocking os s = set_nonblocking os (udp_sock s)"

definition udp_socket_send_to ::
  "winsock \<Rightarrow> WindowsUdpSocket \<Rightarrow> bytes \<Rightarrow> SocketAddr \<Rightarrow> nat wio" where
  "udp_socket_send_to os s buf addr = udp_send_to os (udp_sock s) buf addr"

definition udp_socket_recv_from ::
  "winsock \<Rightarrow> WindowsUdpSocket \<Rightarrow> bytes \<Rightarrow> (nat \<times> bytes \<times> SocketAddr) wio" where
  "udp_socket_recv_from os s buf = udp_recv_from os (udp_sock s) buf"

definition udp_socket_local_addr :: "winsock \<Rightarrow> WindowsUdpSocket \<Rightarrow> SocketAddr wio" where
  "udp_socket_local_addr os s = local_addr os (udp_sock s)"

section \<open>Addresses round trip\<close>

lemma sa_family_header [simp]: "sa_family (win_family af @ rest) = af"
  by (simp add: sa_family_def win_family_def)

lemma length_win_family [simp]: "length (win_family af) = 2"
  by (simp add: win_family_def)

lemma windows_sockaddr_roundtrip:
  "(case to_sockaddr addr of (buf, len) \<Rightarrow>
     length buf = 28 \<and> len \<le> 28 \<and> from_sockaddr (zero_fill 28 (take len buf)) = Ok addr)"
proof (cases addr)
  case (SocketAddrV4 ip port)
  then show ?thesis
    by (simp add: to_sockaddr_def from_sockaddr_def zero_fill_fits read_sin_body(1))
next
  case (SocketAddrV6 ip port f sc)
  then show ?thesis
    using read_sin_body(2)[of "win_family 23" ip port f sc "[]"]
    by (simp add: to_sockaddr_def from_sockaddr_def zero_fill_fits)
qed

lemma takeWhile_nonzero:
  assumes "0 \<notin> set bs"
  shows "takeWhile (\<lambda>b. b \<noteq> 0) (bs @ replicate m 0) = (bs :: bytes)"
  using assms by (cases m) (auto simp: takeWhile_append2 takeWhile_tail)

lemma windows_sockaddr_un_roundtrip:
  assumes "to_sockaddr_un path = Ok buf" "CHR 0x00 \<notin> set path" "length path + 2 < n"
  shows "length buf = 110 \<and>
    from_sockaddr_un (zero_fill 110 buf) (int n) = Ok (if path = [] then None else Some path)"
proof -
  let ?bs = "as_bytes path"
  have p: "utf8_valid ?bs" "length path < 108" "buf = win_family 1 @ zero_fill 108 ?bs"
    using assms(1) by (auto simp: to_sockaddr_un_def is_str_def Let_def split: if_splits)
  then have b: "buf = win_family 1 @ ?bs @ replicate (108 - length path) 0"
    by (simp add: zero_fill_fits)
  then have l: "length buf = 110" "zero_fill 110 buf = buf" using p(2) by (simp_all add: zero_fill_fits)
  have "drop 2 (take (min n 110) buf) = ?bs @ replicate (min n 110 - 2 - length path) 0"
    using assms(3) p(2) unfolding b by simp
  then have "takeWhile (\<lambda>b. b \<noteq> 0) (drop 2 (take (min n 110) buf)) = ?bs"
    using assms(2) by (simp add: takeWhile_nonzero NUL_in_as_bytes)
  moreover have "sa_family buf = 1" unfolding b by simp
  ultimately show ?thesis using l assms(3) p(1) by (simp add: from_sockaddr_un_def Let_def)
qed

section \<open>Handles\<close>

lemma keeps_plain_wsa:
  assumes "closes_sock c = {#}" "\<And>r. opens_sock c r = {#}" "\<And>r. socks.keeps H own H (f r)"
  shows "socks.keeps H own H (attempt (call os mk c) f)"
  using assms by (intro accounts_attempt[OF socks.keeps_plain])

lemma keeps_socket_wsa:
  "socks.keeps H (\<lambda>r. add_mset (wr_ret r) H) H (call os mk (WsaSocket f t p))"
  "socks.keeps H (\<lambda>r. add_mset (wr_ret r) H) H (call os mk (WsaAccept d))"
  using socks.keeps_open[of "WsaSocket f t p" H os mk] socks.keeps_open[of "WsaAccept d" H os mk]
  by (simp_all add: wsa_defs)

lemma keeps_started: "socks.keeps H (\<lambda>_. H) H (ensure_wsa_started os)"
  unfolding accounts_def
proof
  fix h
  show "\<exists>t. snd (ensure_wsa_started os h) = h @ t \<and> H + acquired opens_sock t = released closes_sock t
      + (case fst (ensure_wsa_started os h) of Err _ \<Rightarrow> H | Ok _ \<Rightarrow> H)"
    by (cases "os h WSAStartup")
      (auto simp: ensure_wsa_started_def invoke_eq ledger_Cons wsa_defs)
qed

lemma keeps_ret_sock:
  "socks.keeps (add_mset d H) (\<lambda>d. add_mset d H) H' (ret (Ok d))"
  by (simp add: accounts_def)

lemma keeps_raw_sockets:
  "socks.keeps H (\<lambda>d. add_mset d H) H (raw_socket os v6 stream)"
  "socks.keeps H (\<lambda>d. add_mset d H) H (raw_unix_socket os)"
  unfolding raw_socket_def raw_unix_socket_def Let_def
  by (auto intro!: accounts_attempt[OF keeps_socket_wsa(1)] keeps_ret_sock split: prod.split)

lemma windows_keeps_new_sockets:
  "socks.keeps H (\<lambda>d. add_mset d H) H (new_tcp_socket os addr)"
  "socks.keeps H (\<lambda>d. add_mset d H) H (new_udp_socket os addr)"
  "socks.keeps H (\<lambda>d. add_mset d H) H (new_unix_socket os)"
  unfolding new_tcp_socket_def new_udp_socket_def new_unix_socket_def
  by (intro accounts_attempt[OF keeps_started] keeps_raw_sockets)+

lemma keeps_raw:
  "socks.keeps H (\<lambda>_. H) H (raw_connect os d addr)"
  "socks.keeps H (\<lambda>_. H) H (raw_bind os d addr)"
  "socks.keeps H (\<lambda>_. H) H (raw_listen os d)"
  "socks.keeps H (\<lambda>_. H) H (set_sockopt os d opt)"
  "socks.keeps H (\<lambda>_. H) H (raw_connect_unix os d path)"
  "socks.keeps H (\<lambda>_. H) H (raw_bind_unix os d path)"
  unfolding raw_connect_def raw_bind_def raw_listen_def set_sockopt_def raw_connect_unix_def
    raw_bind_unix_def Let_def
  by (auto intro!: keeps_ret_then keeps_plain_wsa accounts_ret simp: wsa_defs split: prod.split)

lemma windows_keeps_tcp_connect: "socks.keeps H (\<lambda>d. add_mset d H) H (tcp_connect os addr)"
  unfolding tcp_connect_def
  by (intro accounts_attempt[OF windows_keeps_new_sockets(1)] socks.keeps_or_close
      accounts_attempt[OF keeps_raw(1)] keeps_ret_sock)

lemma windows_keeps_tcp_listen: "socks.keeps H (\<lambda>d. add_mset d H) H (tcp_listen os addr)"
  unfolding tcp_listen_def
  by (intro accounts_attempt[OF windows_keeps_new_sockets(1)] socks.keeps_or_close
      accounts_attempt[OF keeps_raw(2)] accounts_attempt[OF keeps_raw(3)]
      accounts_attempt[OF keeps_raw(4)] keeps_ret_sock)

lemma windows_keeps_udp_bind: "socks.keeps H (\<lambda>d. add_mset d H) H (udp_bind os addr)"
  unfolding udp_bind_def
  by (intro accounts_attempt[OF windows_keeps_new_sockets(2)] socks.keeps_or_close
      accounts_attempt[OF keeps_raw(2)] keeps_ret_sock)

lemma windows_keeps_unix_connect: "socks.keeps H (\<lambda>d. add_mset d H) H (unix_connect os path)"
  unfolding unix_connect_def
  by (intro accounts_attempt[OF windows_keeps_new_sockets(3)] socks.keeps_or_close
      accounts_attempt[OF keeps_raw(5)] keeps_ret_sock)

section \<open>What the listening code may do\<close>

definition win_rule :: "string \<Rightarrow> bytes \<Rightarrow> wsa_calls \<Rightarrow> WsaCall \<Rightarrow> bool" where
  "win_rule path sa p c \<longleftrightarrow>
    (case c of
       DeleteFileW q \<Rightarrow> q = path
         \<and> (\<exists>d e. (WsaBind d sa, Inl e) \<in> set p \<and> (e = WSAEADDRINUSE \<or> e = 0))
         \<and> (\<exists>d. (WsaConnect d sa, Inl WSAECONNREFUSED) \<in> set p)
     | WsaListen d _ \<Rightarrow> (\<exists>x. (WsaBind d sa, Inr x) \<in> set p)
     | _ \<Rightarrow> True)"

definition calls_of :: "(WsaCall \<Rightarrow> bool) \<Rightarrow> wsa_calls \<Rightarrow> nat" where
  "calls_of P t = length (filter (\<lambda>(c, a). P c) t)"

definition is_delete :: "WsaCall \<Rightarrow> bool" where
  "is_delete c = (case c of DeleteFileW _ \<Rightarrow> True | _ \<Rightarrow> False)"

definition is_connect :: "WsaCall \<Rightarrow> bool" where
  "is_connect c = (case c of WsaConnect _ _ \<Rightarrow> True | _ \<Rightarrow> False)"

definition probe_call :: "WsaCall \<Rightarrow> bool" where
  "probe_call c \<longleftrightarrow>
    (case c of WSAStartup \<Rightarrow> True | WsaSocket _ _ _ \<Rightarrow> True | WsaConnect _ _ \<Rightarrow> True
     | CloseSocket _ \<Rightarrow> True | Sleep _ \<Rightarrow> True | _ \<Rightarrow> False)"

lemma win_rule_mono: "prefix_mono (win_rule path sa)"
  by (auto simp: prefix_mono_def win_rule_def split: WsaCall.split)

lemma calls_of_simps [simp]:
  "calls_of P [] = 0" "calls_of P (t @ u) = calls_of P t + calls_of P u"
  "calls_of P ((c, a) # t) = (if P c then Suc (calls_of P t) else calls_of P t)"
  by (simp_all add: calls_of_def)

lemma probe_calls:
  assumes "\<forall>(c, a) \<in> set t. probe_call c"
  shows "justified (win_rule path sa) t" "calls_of is_delete t = 0"
proof -
  show "justified (win_rule path sa) t"
    using assms by (intro justified_free) (force simp: probe_call_def win_rule_def split: WsaCall.splits)
  show "calls_of is_delete t = 0"
    using assms
    by (force simp: calls_of_def filter_empty_conv probe_call_def is_delete_def split: WsaCall.splits)
qed

lemma windows_new_unix_socket_trace:
  "\<exists>r t. new_unix_socket os h = (r, h @ t) \<and> (\<forall>(c, a) \<in> set t. probe_call c) \<and> calls_of is_connect t = 0 \<and>
    acquired opens_sock t = released closes_sock t + (case r of Err _ \<Rightarrow> {#} | Ok d \<Rightarrow> {#d#})"
proof -
  obtain r h' where e: "new_unix_socket os h = (r, h')" by force
  then obtain t where t: "h' = h @ t"
    "acquired opens_sock t = released closes_sock t + (case r of Err _ \<Rightarrow> {#} | Ok d \<Rightarrow> {#d#})"
    using accounts_result[OF windows_keeps_new_sockets(3)[of "{#}" os], of h r h'] by auto
  have "(\<forall>(c, a) \<in> set t. probe_call c) \<and> calls_of is_connect t = 0"
    using e t(1)
    by (auto simp: new_unix_socket_def raw_unix_socket_def ensure_wsa_started_def attempt_def invoke_eq
        call_eq probe_call_def is_connect_def split: if_splits sum.splits)
  then show ?thesis using e t by blast
qed

lemma connect_unix_trace:
  assumes "to_sockaddr_un path = Ok sa"
  shows "raw_connect_unix os d path h =
    (case os h (WsaConnect d sa) of Inl e \<Rightarrow> Err (wsa_err ''connect'' e) | Inr _ \<Rightarrow> Ok (),
     h @ [(WsaConnect d sa, os h (WsaConnect d sa))])"
  using assms by (simp add: raw_connect_unix_def attempt_def call_eq split: sum.split)

lemma bind_unix_trace:
  assumes "to_sockaddr_un path = Ok sa"
  shows "raw_bind_unix os d path h =
    (case os h (WsaBind d sa) of Inl e \<Rightarrow> Err (wsa_err ''bind'' e) | Inr _ \<Rightarrow> Ok (),
     h @ [(WsaBind d sa, os h (WsaBind d sa))])"
  using assms by (simp add: raw_bind_unix_def attempt_def call_eq split: sum.split)

lemma acquired_none_wsa [simp]:
  "acquired opens_sock ((WsaConnect d sa, a) # t) = acquired opens_sock t"
  "acquired opens_sock ((WsaBind d sa, a) # t) = acquired opens_sock t"
  "acquired opens_sock ((WsaListen d n, a) # t) = acquired opens_sock t"
  "acquired opens_sock ((CloseSocket d, a) # t) = acquired opens_sock t"
  "acquired opens_sock ((Sleep ms, a) # t) = acquired opens_sock t"
  "acquired opens_sock ((DeleteFileW path, a) # t) = acquired opens_sock t"
  by (rule acquired_plain; simp add: wsa_defs)+

lemma closes_sock_simps [simp]:
  "closes_sock (WsaConnect d sa) = {#}" "closes_sock (WsaBind d sa) = {#}" "closes_sock (WsaListen d n) = {#}"
  "closes_sock (CloseSocket d) = {#d#}" "closes_sock (Sleep ms) = {#}" "closes_sock (DeleteFileW path) = {#}"
  by (simp_all add: closes_sock_def)

lemma opens_sock_simps [simp]:
  "opens_sock (WsaBind d sa) r = {#}" "opens_sock (WsaListen d n) r = {#}"
  by (simp_all add: opens_sock_def)

lemma is_call_simps [simp]:
  "\<not> is_delete (WsaConnect d sa)" "\<not> is_delete (WsaBind d sa)" "\<not> is_delete (WsaListen d n)"
  "\<not> is_delete (CloseSocket d)" "\<not> is_delete (Sleep ms)" "is_delete (DeleteFileW path)"
  "is_connect (WsaConnect d sa)" "\<not> is_connect (WsaBind d sa)" "\<not> is_connect (WsaListen d n)"
  "\<not> is_connect (CloseSocket d)" "\<not> is_connect (Sleep ms)" "\<not> is_connect (DeleteFileW path)"
  by (simp_all add: is_delete_def is_connect_def)

lemma probe_call_simps [simp]:
  "probe_call (WsaConnect d sa)" "probe_call (CloseSocket d)" "probe_call (Sleep ms)"
  by (simp_all add: probe_call_def)

lemma wsa_kind_refused: "wsa_kind e = ConnectionRefused \<longleftrightarrow> e = WSAECONNREFUSED"
  by (simp add: wsa_kind_def)

lemma wsa_kind_in_use: "wsa_kind e = AddrInUse \<longleftrightarrow> e = WSAEADDRINUSE"
  by (simp add: wsa_kind_def)

lemma probe_loop_trace:
  assumes "to_sockaddr_un path = Ok sa"
  shows "\<exists>b t. probe_loop n os path h = (b, h @ t) \<and> (\<forall>(c, a) \<in> set t. probe_call c) \<and>
    acquired opens_sock t = released closes_sock t \<and> calls_of is_connect t \<le> Suc n \<and>
    (b \<longrightarrow> (\<exists>d. (WsaConnect d sa, Inl WSAECONNREFUSED) \<in> set t))"
proof (induction n arbitrary: h rule: less_induct)
  case (less n)
  obtain r t where m: "new_unix_socket os h = (r, h @ t)" "\<forall>(c, a) \<in> set t. probe_call c"
    "calls_of is_connect t = 0"
    "acquired opens_sock t = released closes_sock t + (case r of Err _ \<Rightarrow> {#} | Ok d \<Rightarrow> {#d#})"
    using windows_new_unix_socket_trace by blast
  show ?case
  proof (cases r)
    case (Inl e)
    then show ?thesis using m by (subst probe_loop.simps) (auto intro: exI[of _ False])
  next
    case (Inr d)
    let ?C = "WsaConnect d sa"
    let ?a = "os (h @ t) ?C"
    let ?h2 = "(h @ t) @ [(?C, ?a)]"
    note conn = connect_unix_trace[OF assms, of os d "h @ t"]
    show ?thesis
    proof (cases "?a = Inl WSAENOBUFS \<and> 0 < n")
      case False
      let ?u = "t @ [(?C, ?a), (CloseSocket d, os ?h2 (CloseSocket d))]"
      have "probe_loop n os path h = (?a = Inl WSAECONNREFUSED, h @ ?u)"
        using m(1) Inr False
        by (subst probe_loop.simps) (auto simp: conn drop_socket_def invoke_eq wsa_err_def
            wsa_kind_refused split: sum.split nat.split)
      then show ?thesis using m Inr
        by (intro exI[of _ "?a = Inl WSAECONNREFUSED"] exI[of _ ?u])
          (auto simp: ledger_Cons)
    next
      case True
      then obtain k where n: "n = Suc k" by (metis gr0_implies_Suc)
      let ?h3 = "?h2 @ [(Sleep 25, os ?h2 (Sleep 25))]"
      let ?h4 = "?h3 @ [(CloseSocket d, os ?h3 (CloseSocket d))]"
      have step: "probe_loop n os path h = probe_loop k os path ?h4"
        using m(1) Inr True n
        by (subst probe_loop.simps) (simp add: conn drop_socket_def invoke_eq wsa_err_def wsa_kind_def)
      obtain b u where u: "probe_loop k os path ?h4 = (b, ?h4 @ u)" "\<forall>(c, a) \<in> set u. probe_call c"
        "acquired opens_sock u = released closes_sock u" "calls_of is_connect u \<le> Suc k"
        "b \<longrightarrow> (\<exists>d. (WsaConnect d sa, Inl WSAECONNREFUSED) \<in> set u)"
        using less[of k ?h4] n by auto
      let ?u = "t @ [(?C, ?a), (Sleep 25, os ?h2 (Sleep 25)), (CloseSocket d, os ?h3 (CloseSocket d))] @ u"
      show ?thesis using step u m Inr n
        by (intro exI[of _ b] exI[of _ ?u])
          (auto simp: ledger_Cons)
    qed
  qed
qed

lemma bind_reclaiming_trace:
  assumes sa: "to_sockaddr_un path = Ok sa"
  shows "\<exists>r t. bind_reclaiming os d path h = (r, h @ t) \<and> acquired opens_sock t = released closes_sock t \<and>
    justified (win_rule path sa) t \<and> calls_of is_delete t \<le> 1 \<and> calls_of is_connect t \<le> 21 \<and>
    (r = Ok () \<longrightarrow> (\<exists>x. (WsaBind d sa, Inr x) \<in> set t))"
proof -
  let ?B = "WsaBind d sa" and ?J = "win_rule path sa"
  let ?h1 = "h @ [(?B, os h ?B)]"
  note bind = bind_unix_trace[OF sa]
  have B: "justified ?J [(?B, x)]" for x by (intro justified_free) (simp add: win_rule_def)
  show ?thesis
  proof (cases "os h ?B = Inl WSAEADDRINUSE \<or> os h ?B = Inl 0")
    case False
    then show ?thesis using B[of "os h ?B"]
      by (cases "os h ?B") (auto simp: bind_reclaiming_def bind is_stale_bind_candidate_def wsa_err_def
          wsa_kind_in_use ledger_Cons)
  next
    case True
    then obtain e where e: "os h ?B = Inl e" "e = WSAEADDRINUSE \<or> e = 0" by auto
    obtain b t where s: "is_stale_socket os path ?h1 = (b, ?h1 @ t)" "\<forall>(c, a) \<in> set t. probe_call c"
      "acquired opens_sock t = released closes_sock t" "calls_of is_connect t \<le> 21"
      "b \<longrightarrow> (\<exists>d. (WsaConnect d sa, Inl WSAECONNREFUSED) \<in> set t)"
      using probe_loop_trace[OF sa, of 20 os ?h1] by (auto simp: is_stale_socket_def)
    have j: "justified ?J ((?B, Inl e) # t)"
      using justified_append[OF win_rule_mono B probe_calls(1)[OF s(2)]] by simp
    have cand: "is_stale_bind_candidate (wsa_err ''bind'' e)"
      using e(2) by (auto simp: is_stale_bind_candidate_def wsa_err_def wsa_kind_def)
    show ?thesis
    proof (cases b)
      case False
      then show ?thesis using e s j cand probe_calls(2)[OF s(2)]
        by (simp add: bind_reclaiming_def bind ledger_Cons)
    next
      case b: True
      let ?D = "DeleteFileW path"
      let ?h2 = "?h1 @ t"
      let ?h3 = "?h2 @ [(?D, os ?h2 ?D)]"
      let ?t = "((?B, Inl e) # t) @ [(?D, os ?h2 ?D), (?B, os ?h3 ?B)]"
      let ?r = "(case os ?h3 ?B of Inl e \<Rightarrow> Err (wsa_err ''bind'' e) | Inr _ \<Rightarrow> Ok ())"
      have r: "bind_reclaiming os d path h = (?r, h @ ?t)"
        using e s(1) b cand by (simp add: bind_reclaiming_def bind invoke_eq)
      have "justified ?J (((?B, Inl e) # t) @ [(?D, os ?h2 ?D)])"
        using j s(5) b e(2) unfolding justified_snoc by (auto simp: win_rule_def)
      then have "justified ?J ?t"
        using justified_append[OF win_rule_mono _ B] by (metis append.assoc append_Cons append_Nil)
      then show ?thesis using r s(3,4) probe_calls(2)[OF s(2)]
        by (intro exI[of _ ?r] exI[of _ ?t])
          (cases "os ?h3 ?B"; auto simp: ledger_Cons)
    qed
  qed
qed

lemma unix_listen_trace:
  assumes sa: "to_sockaddr_un path = Ok sa"
  shows "\<exists>t. snd (unix_listen os path h) = h @ t \<and> justified (win_rule path sa) t \<and>
    calls_of is_delete t \<le> 1 \<and> calls_of is_connect t \<le> 21 \<and>
    acquired opens_sock t = released closes_sock t +
      (case fst (unix_listen os path h) of Err _ \<Rightarrow> {#} | Ok d \<Rightarrow> {#d#})"
proof -
  let ?J = "win_rule path sa"
  obtain r t where m: "new_unix_socket os h = (r, h @ t)" "\<forall>(c, a) \<in> set t. probe_call c"
    "calls_of is_connect t = 0"
    "acquired opens_sock t = released closes_sock t + (case r of Err _ \<Rightarrow> {#} | Ok d \<Rightarrow> {#d#})"
    using windows_new_unix_socket_trace by blast
  note p = probe_calls[OF m(2)]
  show ?thesis
  proof (cases r)
    case (Inl e)
    then show ?thesis using m p by (auto simp: unix_listen_def attempt_def)
  next
    case (Inr d)
    obtain r2 u where b: "bind_reclaiming os d path (h @ t) = (r2, (h @ t) @ u)"
      "acquired opens_sock u = released closes_sock u" "justified ?J u"
      "calls_of is_delete u \<le> 1" "calls_of is_connect u \<le> 21"
      "r2 = Ok () \<longrightarrow> (\<exists>x. (WsaBind d sa, Inr x) \<in> set u)"
      using bind_reclaiming_trace[OF sa, of os d "h @ t"] by blast
    let ?h2 = "(h @ t) @ u" and ?L = "WsaListen d W_SOMAXCONN"
    have j: "justified ?J (t @ u)" using justified_append[OF win_rule_mono p(1) b(3)] .
    have close: "justified ?J (v @ [(CloseSocket d, x)])" if "justified ?J v" for v x
      using that unfolding justified_snoc by (simp add: win_rule_def)
    show ?thesis
    proof (cases "r2 = Ok ()")
      case False
      let ?v = "(t @ u) @ [(CloseSocket d, os ?h2 (CloseSocket d))]"
      have "unix_listen os path h = (r2', h @ ?v)" if "r2' = (case r2 of Err e \<Rightarrow> Err e | Ok _ \<Rightarrow> Ok d)" for r2'
        using m(1) Inr b(1) False that
        by (cases r2) (simp_all add: unix_listen_def attempt_def or_close_def invoke_eq)
      then show ?thesis using m p b close[OF j] Inr False
        by (intro exI[of _ ?v]) (cases r2; simp add: ledger_Cons)
    next
      case True
      let ?h3 = "?h2 @ [(?L, os ?h2 ?L)]"
      have jl: "justified ?J ((t @ u) @ [(?L, os ?h2 ?L)])"
        using j b(6) True unfolding justified_snoc by (auto simp: win_rule_def)
      show ?thesis
      proof (cases "os ?h2 ?L")
        case l: (Inl e)
        let ?v = "((t @ u) @ [(?L, os ?h2 ?L)]) @ [(CloseSocket d, os ?h3 (CloseSocket d))]"
        have "unix_listen os path h = (Err (wsa_err ''listen'' e), h @ ?v)"
          using m(1) Inr b(1) True l
          by (simp add: unix_listen_def raw_listen_def attempt_def or_close_def invoke_eq call_eq)
        then show ?thesis using m p b close[OF jl] Inr
          by (intro exI[of _ ?v]) (simp add: ledger_Cons)
      next
        case l: (Inr y)
        have "unix_listen os path h = (Ok d, h @ (t @ u) @ [(?L, os ?h2 ?L)])"
          using m(1) Inr b(1) True l
          by (simp add: unix_listen_def raw_listen_def attempt_def or_close_def call_eq)
        then show ?thesis using m p b jl Inr
          by (intro exI[of _ "(t @ u) @ [(?L, os ?h2 ?L)]"]) (simp add: ledger_Cons)
      qed
    qed
  qed
qed

end
