(* ===== verification/Socket_Backends.thy ===== *)
theory Socket_Backends
  imports Linux_Net Bsd_Net Windows_Net
begin

text \<open>
  What the three socket backends promise together: addresses survive the trip through the
  kernel's structures, listening on a path never removes a live socket, a read timeout is
  rounded in a known way, and no operation loses a descriptor.
\<close>

section \<open>Addresses\<close>

text \<open>C19. On every backend an address written into the kernel's structure and read back, as far
  as its reported length goes, is the same address, flow label and scope included, and the
  structure has its fixed size.\<close>

theorem socket_addresses_roundtrip:
  assumes "families_differ lc"
  shows "(case Linux_Net.to_sockaddr addr of (buf, len) \<Rightarrow> length buf = 128 \<and> len \<le> 128
            \<and> Linux_Net.from_sockaddr (zero_fill 128 (take len buf)) = Ok addr)
    \<and> (case Bsd_Net.to_sockaddr lc addr of (buf, len) \<Rightarrow> length buf = 128 \<and> len \<le> 128
            \<and> Bsd_Net.from_sockaddr lc (zero_fill 128 (take len buf)) = Ok addr)
    \<and> (case Windows_Net.to_sockaddr addr of (buf, len) \<Rightarrow> length buf = 28 \<and> len \<le> 28
            \<and> Windows_Net.from_sockaddr (zero_fill 28 (take len buf)) = Ok addr)"
  using linux_sockaddr_roundtrip[of addr] bsd_sockaddr_roundtrip[OF assms, of addr]
    windows_sockaddr_roundtrip[of addr]
  by blast

theorem socket_addresses_roundtrip_witness:
  "Bsd_Net.from_sockaddr darwin_libc
     (zero_fill 128 (take 28 (fst (Bsd_Net.to_sockaddr darwin_libc (SocketAddrV6 1 8080 7 3)))))
   = Ok (SocketAddrV6 1 8080 7 3)"
proof -
  have "families_differ darwin_libc" by (simp add: families_differ_def darwin_libc_def)
  from socket_addresses_roundtrip[OF this, of "SocketAddrV6 1 8080 7 3"]
  show ?thesis by (simp add: Bsd_Net.to_sockaddr_def)
qed

text \<open>The path of a Unix socket, read back from the structure the kernel returns, is the path
  it was bound to; an empty path is read as an unnamed socket.  A path that would not fit its
  array, or on the Unix backends one with a NUL in it, is refused.\<close>

theorem unix_paths_roundtrip:
  "(case Linux_Net.to_sockaddr_un path of
      Ok (buf, len) \<Rightarrow> CHR 0x00 \<notin> set path \<and> length path < 108
        \<and> Linux_Net.from_sockaddr_un (zero_fill 110 (take len buf)) len = Ok (if path = [] then None else Some path)
    | Err e \<Rightarrow> err_kind e = InvalidInput \<and> (CHR 0x00 \<in> set path \<or> 108 \<le> length path))
   \<and> (case Bsd_Net.to_sockaddr_un lc path of
      Ok (buf, len) \<Rightarrow> CHR 0x00 \<notin> set path \<and> length path < lc_SUN_PATH_LEN lc
        \<and> (\<forall>n. len \<le> n \<longrightarrow> Bsd_Net.from_sockaddr_un lc (zero_fill (2 + lc_SUN_PATH_LEN lc) (take len buf)) n
             = Ok (if path = [] then None else Some path))
    | Err e \<Rightarrow> err_kind e = InvalidInput \<and> (CHR 0x00 \<in> set path \<or> lc_SUN_PATH_LEN lc \<le> length path))"
proof -
  have l: "case Linux_Net.to_sockaddr_un path of
      Ok (buf, len) \<Rightarrow> CHR 0x00 \<notin> set path \<and> length path < 108
        \<and> Linux_Net.from_sockaddr_un (zero_fill 110 (take len buf)) len = Ok (if path = [] then None else Some path)
    | Err e \<Rightarrow> err_kind e = InvalidInput \<and> (CHR 0x00 \<in> set path \<or> 108 \<le> length path)"
    using linux_sockaddr_un_roundtrip[of path]
    by (auto simp: Linux_Net.to_sockaddr_un_cases linux_libc_def nul_in_path_def path_too_long_def
        new_error_def split: sum.split)
  have b: "case Bsd_Net.to_sockaddr_un lc path of
      Ok (buf, len) \<Rightarrow> CHR 0x00 \<notin> set path \<and> length path < lc_SUN_PATH_LEN lc
        \<and> (\<forall>n. len \<le> n \<longrightarrow> Bsd_Net.from_sockaddr_un lc (zero_fill (2 + lc_SUN_PATH_LEN lc) (take len buf)) n
             = Ok (if path = [] then None else Some path))
    | Err e \<Rightarrow> err_kind e = InvalidInput \<and> (CHR 0x00 \<in> set path \<or> lc_SUN_PATH_LEN lc \<le> length path)"
  proof (cases "Bsd_Net.to_sockaddr_un lc path")
    case (Inl e)
    then show ?thesis
      by (auto simp: Bsd_Net.to_sockaddr_un_def Let_def NUL_in_as_bytes nul_in_path_def path_too_long_def
          new_error_def split: if_splits)
  next
    case (Inr x)
    then have "CHR 0x00 \<notin> set path" "length path < lc_SUN_PATH_LEN lc"
      by (auto simp: Bsd_Net.to_sockaddr_un_def Let_def NUL_in_as_bytes split: if_splits)
    then show ?thesis
      using Inr bsd_sockaddr_un_roundtrip[of lc path "fst x" "snd x"] by (cases x) simp
  qed
  from l b show ?thesis by blast
qed

theorem unix_paths_roundtrip_witness:
  "\<exists>buf. Bsd_Net.to_sockaddr_un darwin_libc ''/s'' = Ok (buf, 5)
    \<and> Bsd_Net.from_sockaddr_un darwin_libc (zero_fill 106 (take 5 buf)) 106 = Ok (Some ''/s'')"
proof -
  obtain buf where b: "Bsd_Net.to_sockaddr_un darwin_libc ''/s'' = Ok (buf, 5)"
    by (simp add: Bsd_Net.to_sockaddr_un_def darwin_libc_def Let_def as_bytes_def byte_of_def)
  show ?thesis
    using unix_paths_roundtrip[of "''/s''" darwin_libc] unfolding b by (simp add: darwin_libc_def)
qed

section \<open>Listening on a path\<close>

text \<open>C12. Listening on a path, on Linux and on the BSDs, for every answer of the kernel.  The path is
  removed at most once, and only after a bind that found the address in use and a connection to
  it that was refused; the socket listens only after it was bound and the mode of the path was
  narrowed to its owner; a path that cannot be packed leads to no call that names it; and
  exactly the returned descriptor stays open.\<close>

theorem unix_listen_reclaims_safely:
  assumes "lc_EADDRINUSE lc \<noteq> lc_ECONNREFUSED lc"
  shows "(\<exists>t. snd (Linux_Net.unix_listen os path h) = h @ t \<and> unlinks t \<le> 1
      \<and> acquired opens_fd t = released closes_fd t
          + (case fst (Linux_Net.unix_listen os path h) of Err _ \<Rightarrow> {#} | Ok d \<Rightarrow> {#d#})
      \<and> (case Linux_Net.to_sockaddr_un path of
           Ok (addr, len) \<Rightarrow> justified (listen_rule linux_libc path (take len addr)) t
         | Err _ \<Rightarrow> (\<forall>(c, a) \<in> set t. setup_call c)))
    \<and> (\<exists>t. snd (Bsd_Net.unix_listen lc os path h) = h @ t \<and> unlinks t \<le> 1
      \<and> acquired opens_fd t = released closes_fd t
          + (case fst (Bsd_Net.unix_listen lc os path h) of Err _ \<Rightarrow> {#} | Ok d \<Rightarrow> {#d#})
      \<and> (case Bsd_Net.to_sockaddr_un lc path of
           Ok (addr, len) \<Rightarrow> justified (listen_rule lc path (take len addr)) t
         | Err _ \<Rightarrow> (\<forall>(c, a) \<in> set t. setup_call c)))"
  using linux_unix.listen_trace[of os path h]
    unix_endpoint.listen_trace[OF bsd_endpoint[OF assms], where pack = "Bsd_Net.to_sockaddr_un lc"
      and os = os and path = path and h = h]
  unfolding Linux_Net.unix_listen_def Bsd_Net.unix_listen_def by blast

text \<open>A kernel on which every path is bound by a socket nobody listens on until it is removed.\<close>

definition stale_kernel :: unix where
  "stale_kernel h c =
    (case c of
       Socket _ _ _ \<Rightarrow> Inr (reply (3 + int (length h)))
     | Bind _ _ \<Rightarrow> if unlinks h = 0 then Inl 48 else Inr (reply 0)
     | Connect _ _ \<Rightarrow> Inl 61
     | _ \<Rightarrow> Inr (reply 0))"

theorem unix_listen_reclaims_safely_witness:
  "\<exists>t. snd (Bsd_Net.unix_listen darwin_libc stale_kernel ''/s'' []) = t \<and> unlinks t = 1 \<and>
    (case Bsd_Net.to_sockaddr_un darwin_libc ''/s'' of
       Ok (addr, len) \<Rightarrow> justified (listen_rule darwin_libc ''/s'' (take len addr)) t
     | Err _ \<Rightarrow> False)"
proof -
  have d: "lc_EADDRINUSE darwin_libc \<noteq> lc_ECONNREFUSED darwin_libc" by (simp add: darwin_libc_def)
  have "unlinks (snd (Bsd_Net.unix_listen darwin_libc stale_kernel ''/s'' [])) = 1"
    by code_simp
  moreover have "\<not> isl (Bsd_Net.to_sockaddr_un darwin_libc ''/s'')" by code_simp
  ultimately show ?thesis
    using unix_listen_reclaims_safely[OF d, of stale_kernel "''/s''" "[]"]
    by (auto split: sum.splits)
qed

text \<open>The same on Windows, where the path is removed with \<open>DeleteFileW\<close>: at most once, and only
  after a bind that failed because the address is in use (or with the code 0 some versions
  report) and a refused connection; at most 21 connections are tried.\<close>

theorem windows_unix_listen_reclaims_safely:
  assumes "Windows_Net.to_sockaddr_un path = Ok sa"
  shows "\<exists>t. snd (Windows_Net.unix_listen os path h) = h @ t \<and> justified (win_rule path sa) t
    \<and> calls_of is_delete t \<le> 1 \<and> calls_of is_connect t \<le> 21
    \<and> acquired opens_sock t = released closes_sock t
        + (case fst (Windows_Net.unix_listen os path h) of Err _ \<Rightarrow> {#} | Ok d \<Rightarrow> {#d#})"
  using assms by (rule Windows_Net.unix_listen_trace)

definition busy_winsock :: winsock where
  "busy_winsock h c =
    (case c of
       WsaSocket _ _ _ \<Rightarrow> Inr (wsa_reply 4)
     | WsaBind _ _ \<Rightarrow> if calls_of is_delete h = 0 then Inl WSAEADDRINUSE else Inr (wsa_reply 0)
     | WsaConnect _ _ \<Rightarrow> if calls_of is_connect h < 2 then Inl WSAENOBUFS else Inl WSAECONNREFUSED
     | _ \<Rightarrow> Inr (wsa_reply 0))"

theorem windows_unix_listen_reclaims_safely_witness:
  "\<exists>t sa. snd (Windows_Net.unix_listen busy_winsock ''s'' []) = t
    \<and> Windows_Net.to_sockaddr_un ''s'' = Ok sa \<and> justified (win_rule ''s'' sa) t
    \<and> calls_of is_delete t = 1 \<and> calls_of is_connect t = 3"
proof -
  have "\<not> isl (Windows_Net.to_sockaddr_un ''s'')" by code_simp
  then obtain sa where sa: "Windows_Net.to_sockaddr_un ''s'' = Ok sa"
    by (cases "Windows_Net.to_sockaddr_un ''s''") auto
  have "calls_of is_delete (snd (Windows_Net.unix_listen busy_winsock ''s'' [])) = 1
      \<and> calls_of is_connect (snd (Windows_Net.unix_listen busy_winsock ''s'' [])) = 3"
    by code_simp
  then show ?thesis
    using windows_unix_listen_reclaims_safely[OF sa, of busy_winsock "[]"] sa by auto
qed

section \<open>Read timeouts\<close>

lemma timeval_inject:
  assumes "duration_ok d" "unat (dur_secs d) < 2 ^ 63"
  shows "timeval (Some d) = timeval None \<longleftrightarrow> as_nanos d < 1000"
proof
  assume "timeval (Some d) = timeval None"
  then have "timeval_micros (timeval (Some d)) = 0"
    by (simp add: timeval_micros_def timeval_def field_at_def)
  then have "as_nanos d div 1000 = 0" using timeval_micros_eq[OF assms] by linarith
  then show "as_nanos d < 1000" by simp
next
  assume a: "as_nanos d < 1000"
  then have "unat (dur_secs d) = 0" "unat (dur_nanos d) < 1000" by (auto simp: as_nanos_def)
  then have "dur_secs d = 0" "subsec_micros d = 0"
    using unat_subsec_micros[of d] by (simp_all add: unat_eq_0)
  then show "timeval (Some d) = timeval None" by (simp add: timeval_def)
qed

lemma read_timeout_millis_eq:
  "unat (read_timeout_millis (Some d)) = min (as_millis d) (2 ^ 32 - 1)"
  by (auto simp: read_timeout_millis_def unsigned_of_nat take_bit_nat_eq_self)

text \<open>What a read timeout asks of the kernel.  On Linux the option is set to the whole
  microseconds of the duration, rounded down; below one microsecond that is the value that
  switches the timeout off.  On Windows it is the whole milliseconds, at most the largest
  32-bit number; below one millisecond the timeout is switched off.\<close>

theorem read_timeout_rounds_down:
  assumes "duration_ok d" "unat (dur_secs d) < 2 ^ 63"
  shows "\<exists>tv ms. snd (Linux_Net.set_read_timeout os s (Some d) h)
        = h @ [(SetSockOpt s 1 20 tv, os h (SetSockOpt s 1 20 tv))]
    \<and> timeval_micros tv = int (as_nanos d div 1000)
    \<and> (tv = timeval None \<longleftrightarrow> as_nanos d < 1000)
    \<and> Windows_Net.set_read_timeout wos w (Some d) = set_sockopt wos w (RecvTimeoutMillis ms)
    \<and> unat ms = min (as_nanos d div 1000000) (2 ^ 32 - 1)
    \<and> (RecvTimeoutMillis ms = RecvTimeoutMillis (read_timeout_millis None) \<longleftrightarrow> as_nanos d < 1000000)"
proof (intro exI conjI)
  let ?tv = "timeval (Some d)" and ?ms = "read_timeout_millis (Some d)"
  show "snd (Linux_Net.set_read_timeout os s (Some d) h)
        = h @ [(SetSockOpt s 1 20 ?tv, os h (SetSockOpt s 1 20 ?tv))]"
    by (simp add: Linux_Net.set_read_timeout_def linux_libc_def attempt_def call_eq split: sum.split)
  show "timeval_micros ?tv = int (as_nanos d div 1000)" by (rule timeval_micros_eq[OF assms])
  show "?tv = timeval None \<longleftrightarrow> as_nanos d < 1000" by (rule timeval_inject[OF assms])
  show "Windows_Net.set_read_timeout wos w (Some d) = set_sockopt wos w (RecvTimeoutMillis ?ms)"
    by (simp add: Windows_Net.set_read_timeout_def)
  show m: "unat ?ms = min (as_nanos d div 1000000) (2 ^ 32 - 1)"
    using read_timeout_millis_eq[of d] as_millis_div[OF assms(1)] by simp
  have "?ms = 0 \<longleftrightarrow> unat ?ms = 0" by (simp add: unat_eq_0)
  also have "\<dots> \<longleftrightarrow> as_nanos d < 1000000" unfolding m by auto
  finally show "RecvTimeoutMillis ?ms = RecvTimeoutMillis (read_timeout_millis None)
      \<longleftrightarrow> as_nanos d < 1000000"
    by (simp add: read_timeout_millis_def)
qed

theorem read_timeout_rounds_down_witness:
  "\<exists>tv. snd (Linux_Net.set_read_timeout stale_kernel 5 (Some \<lparr>dur_secs = 0, dur_nanos = 999\<rparr>) [])
      = [(SetSockOpt 5 1 20 tv, Inr (reply 0))] \<and> tv = timeval None"
proof -
  let ?d = "\<lparr>dur_secs = 0, dur_nanos = 999\<rparr>"
  have "duration_ok ?d" "unat (dur_secs ?d) < 2 ^ 63" "as_nanos ?d < 1000"
    by (simp_all add: duration_ok_def as_nanos_def)
  then show ?thesis
    using read_timeout_rounds_down[of ?d stale_kernel 5 "[]" busy_winsock 0]
    by (auto simp: stale_kernel_def)
qed

section \<open>Descriptors\<close>


text \<open>The Windows accept loses the accepted socket when the peer address is of an unknown
  family: the operation fails and nothing closes the socket.\<close>

theorem windows_accept_leaks:
  assumes "wos h (WsaAccept l) = Inr r" "sa_family (zero_fill 28 (wr_addr r)) \<notin> {2, 23}"
  shows "Windows_Net.tcp_accept wos l h = (Err unknown_family, h @ [(WsaAccept l, Inr r)])
    \<and> acquired opens_sock [(WsaAccept l, Inr r)] = {#wr_ret r#}
    \<and> released closes_sock [(WsaAccept l, Inr r)] = {#}"
  using assms
  by (simp add: Windows_Net.tcp_accept_def raw_accept_def attempt_def call_eq
      Windows_Net.from_sockaddr_def wsa_defs)

theorem windows_accept_leaks_witness:
  "Windows_Net.tcp_accept (\<lambda>_ _. Inr (wsa_reply 7)) 4 []
    = (Err unknown_family, [(WsaAccept 4, Inr (wsa_reply 7))])
   \<and> acquired opens_sock [(WsaAccept 4, Inr (wsa_reply 7))] = {#7#}"
proof -
  have "sa_family (zero_fill 28 (wr_addr (wsa_reply 7))) \<notin> {2, 23}" by code_simp
  then show ?thesis
    using windows_accept_leaks[of "\<lambda>_ _. Inr (wsa_reply 7)" "[]" 4 "wsa_reply 7"]
    by (simp add: wsa_reply_def)
qed

end
