(* ===== verification/Linux_Term.thy ===== *)
theory Linux_Term
  imports Os_Calls Platform_Net Terminal
begin

text \<open>
  The Linux terminal: \<open>platform-linux/src/sys/termios.rs\<close> over the terminal calls of the C
  library, and \<open>LinuxTerminal\<close> of \<open>platform-linux/src/term.rs\<close>, which keeps the attributes to
  restore.  \<open>cfmakeraw\<close> belongs to the C library and is a parameter; that it clears the
  canonical and echo flags is the hypothesis \<open>makes_raw\<close>.
\<close>

section \<open>Calls and attributes\<close>

record Termios =
  c_iflag :: u32
  c_oflag :: u32
  c_cflag :: u32
  c_lflag :: u32
  c_cc :: bytes

datatype TermCall =
    IsATty int
  | GetWinSize int
  | TcGetAttr int
  | TcSetAttr int Termios
  | PollIn int i32
  | TermRead int nat
  | SignalIgnore i32
  | TcSetPgrp int i32

record TermReply =
  tr_ret :: int
  tr_attrs :: Termios
  tr_rows :: u16
  tr_cols :: u16
  tr_data :: bytes

type_synonym tty_os = "(TermCall, TermReply) os"
type_synonym term_calls = "(TermCall, TermReply) calls"
type_synonym 'a tio = "(TermCall, TermReply, 'a result) effect"

abbreviation ENOTTY :: i32 where "ENOTTY \<equiv> 25"
abbreviation EBADF :: i32 where "EBADF \<equiv> 9"
abbreviation ICANON :: u32 where "ICANON \<equiv> 2"
abbreviation ECHO :: u32 where "ECHO \<equiv> 8"
abbreviation SIGTTOU :: i32 where "SIGTTOU \<equiv> 22"

definition term_err :: "string \<Rightarrow> i32 \<Rightarrow> PlatformError" where
  "term_err op code =
    (let kind = (if code = ENOTTY then Other else if code = EBADF then InvalidInput else Other)
     in new_error kind (Errno code) op)"

definition stream_fd :: "TermStream \<Rightarrow> int" where
  "stream_fd stream = (case stream of Stdin \<Rightarrow> 0 | Stdout \<Rightarrow> 1 | Stderr \<Rightarrow> 2)"

section \<open>The terminal primitives\<close>

definition is_tty_fd :: "tty_os \<Rightarrow> int \<Rightarrow> term_calls \<Rightarrow> bool \<times> term_calls" where
  "is_tty_fd os d h =
    (case invoke os (IsATty d) h of (a, h1) \<Rightarrow>
       ((case a of Inr r \<Rightarrow> tr_ret r = 1 | Inl _ \<Rightarrow> False), h1))"

definition window_size_fd :: "tty_os \<Rightarrow> int \<Rightarrow> (u16 \<times> u16) tio" where
  "window_size_fd os d =
    attempt (call os (term_err ''TIOCGWINSZ'') (GetWinSize d)) (\<lambda>r. ret (Ok (tr_rows r, tr_cols r)))"

definition sys_enter_raw :: "(Termios \<Rightarrow> Termios) \<Rightarrow> tty_os \<Rightarrow> int \<Rightarrow> Termios tio" where
  "sys_enter_raw cfmakeraw os d =
    attempt (call os (term_err ''tcgetattr'') (TcGetAttr d)) (\<lambda>r.
    (let cur = tr_attrs r; raw = cfmakeraw cur
     in attempt (call os (term_err ''tcsetattr'') (TcSetAttr d raw)) (\<lambda>_. ret (Ok cur))))"

definition restore :: "tty_os \<Rightarrow> int \<Rightarrow> Termios \<Rightarrow> unit tio" where
  "restore os d saved =
    attempt (call os (term_err ''tcsetattr'') (TcSetAttr d saved)) (\<lambda>_. ret (Ok ()))"

definition is_raw_fd :: "tty_os \<Rightarrow> int \<Rightarrow> term_calls \<Rightarrow> bool \<times> term_calls" where
  "is_raw_fd os d h =
    (case invoke os (TcGetAttr d) h of
       (Inl _, h1) \<Rightarrow> (False, h1)
     | (Inr r, h1) \<Rightarrow> (c_lflag (tr_attrs r) AND (ICANON OR ECHO) = 0, h1))"

definition with_echo :: "bool \<Rightarrow> Termios \<Rightarrow> Termios" where
  "with_echo on cur =
    cur\<lparr>c_lflag := (if on then c_lflag cur OR ECHO else c_lflag cur AND NOT ECHO)\<rparr>"

definition set_echo_fd :: "tty_os \<Rightarrow> int \<Rightarrow> bool \<Rightarrow> bool tio" where
  "set_echo_fd os d on =
    attempt (call os (term_err ''tcgetattr'') (TcGetAttr d)) (\<lambda>r.
    (let cur = tr_attrs r; was_on = (c_lflag cur AND ECHO \<noteq> 0)
     in attempt (call os (term_err ''tcsetattr'') (TcSetAttr d (with_echo on cur))) (\<lambda>_.
        ret (Ok was_on))))"

definition poll_timeout_ms :: "Duration option \<Rightarrow> i32" where
  "poll_timeout_ms timeout =
    (case timeout of None \<Rightarrow> - 1 | Some d \<Rightarrow> of_nat (min (as_millis d) 0x7FFFFFFF))"

definition poll_readable_fd :: "tty_os \<Rightarrow> int \<Rightarrow> Duration option \<Rightarrow> bool tio" where
  "poll_readable_fd os d timeout =
    attempt (call os (term_err ''poll'') (PollIn d (poll_timeout_ms timeout))) (\<lambda>r.
    ret (Ok (0 < tr_ret r)))"

definition read_chunk_fd :: "tty_os \<Rightarrow> int \<Rightarrow> bytes \<Rightarrow> (nat \<times> bytes) tio" where
  "read_chunk_fd os d buf =
    attempt (call os (term_err ''read'') (TermRead d (length buf))) (\<lambda>r.
    ret (Ok (nat (tr_ret r), take (length buf) (tr_data r) @ drop (length (tr_data r)) buf)))"

definition ignore_sigttou :: "tty_os \<Rightarrow> unit tio" where
  "ignore_sigttou os =
    attempt (call os (term_err ''signal(SIGTTOU, SIG_IGN)'') (SignalIgnore SIGTTOU)) (\<lambda>_. ret (Ok ()))"

definition give_terminal_fd :: "tty_os \<Rightarrow> int \<Rightarrow> i32 \<Rightarrow> unit tio" where
  "give_terminal_fd os d pgid =
    attempt (ignore_sigttou os) (\<lambda>_.
    attempt (call os (term_err ''tcsetpgrp'') (TcSetPgrp d pgid)) (\<lambda>_. ret (Ok ())))"

section \<open>The terminal\<close>

record LinuxTerminal =
  saved :: "Termios option"

definition linux_terminal_new :: LinuxTerminal where
  "linux_terminal_new = \<lparr>saved = None\<rparr>"

fun first_tty :: "tty_os \<Rightarrow> int list \<Rightarrow> term_calls \<Rightarrow> int option \<times> term_calls" where
  "first_tty os [] h = (None, h)"
| "first_tty os (d # ds) h =
    (case is_tty_fd os d h of (True, h1) \<Rightarrow> (Some d, h1) | (False, h1) \<Rightarrow> first_tty os ds h1)"

definition tty_fd :: "tty_os \<Rightarrow> term_calls \<Rightarrow> int option \<times> term_calls" where
  "tty_fd os = first_tty os (map stream_fd [Stdin, Stdout, Stderr])"

definition linux_is_tty :: "tty_os \<Rightarrow> TermStream \<Rightarrow> term_calls \<Rightarrow> bool \<times> term_calls" where
  "linux_is_tty os stream = is_tty_fd os (stream_fd stream)"

definition linux_window_size :: "tty_os \<Rightarrow> WinSize tio" where
  "linux_window_size os h =
    (case tty_fd os h of (found, h1) \<Rightarrow>
       (let d = (case found of Some d \<Rightarrow> d | None \<Rightarrow> stream_fd Stdout)
        in attempt (window_size_fd os d) (\<lambda>(r, c). ret (Ok \<lparr>rows = r, cols = c\<rparr>)) h1))"

text \<open>The operations that change the handle run on the handle and the calls made so far.\<close>

type_synonym term_state = "LinuxTerminal \<times> term_calls"

definition linux_enter_raw ::
  "(Termios \<Rightarrow> Termios) \<Rightarrow> tty_os \<Rightarrow> term_state \<Rightarrow> unit result \<times> term_state" where
  "linux_enter_raw cfmakeraw os s =
    (case s of (t, h) \<Rightarrow>
       (if saved t \<noteq> None then (Ok (), (t, h))
        else case sys_enter_raw cfmakeraw os (stream_fd Stdin) h of
               (Err e, h1) \<Rightarrow> (Err e, (t, h1))
             | (Ok cur, h1) \<Rightarrow> (Ok (), (t\<lparr>saved := Some cur\<rparr>, h1))))"

definition linux_leave_raw :: "tty_os \<Rightarrow> term_state \<Rightarrow> unit result \<times> term_state" where
  "linux_leave_raw os s =
    (case s of (t, h) \<Rightarrow>
       (case saved t of
          None \<Rightarrow> (Ok (), (t, h))
        | Some cur \<Rightarrow>
            (case restore os (stream_fd Stdin) cur h of (r, h1) \<Rightarrow> (r, (t\<lparr>saved := None\<rparr>, h1)))))"

definition linux_is_raw :: "tty_os \<Rightarrow> term_calls \<Rightarrow> bool \<times> term_calls" where
  "linux_is_raw os = is_raw_fd os (stream_fd Stdin)"

definition linux_poll_readable :: "tty_os \<Rightarrow> Duration option \<Rightarrow> bool tio" where
  "linux_poll_readable os = poll_readable_fd os (stream_fd Stdin)"

definition linux_read_chunk :: "tty_os \<Rightarrow> bytes \<Rightarrow> (nat \<times> bytes) tio" where
  "linux_read_chunk os = read_chunk_fd os (stream_fd Stdin)"

definition linux_set_echo :: "tty_os \<Rightarrow> bool \<Rightarrow> bool tio" where
  "linux_set_echo os = set_echo_fd os (stream_fd Stdin)"

definition linux_give_terminal :: "tty_os \<Rightarrow> u32 \<Rightarrow> unit tio" where
  "linux_give_terminal os pgid = give_terminal_fd os (stream_fd Stdin) (ucast pgid)"

section \<open>A terminal device\<close>

text \<open>The attributes of standard input after some calls, and a system whose standard input is a
  terminal: it reports the attributes last set, and accepts every setting.\<close>

fun attrs_now :: "Termios \<Rightarrow> term_calls \<Rightarrow> Termios" where
  "attrs_now t [] = t"
| "attrs_now t ((c, a) # h) =
    attrs_now (case (c, a) of (TcSetAttr d t', Inr _) \<Rightarrow> if d = 0 then t' else t | _ \<Rightarrow> t) h"

definition serves_tty :: "tty_os \<Rightarrow> Termios \<Rightarrow> bool" where
  "serves_tty os t0 \<longleftrightarrow>
    (\<forall>h. \<exists>r. os h (TcGetAttr 0) = Inr r \<and> tr_attrs r = attrs_now t0 h) \<and>
    (\<forall>h t. \<exists>r. os h (TcSetAttr 0 t) = Inr r)"

definition makes_raw :: "(Termios \<Rightarrow> Termios) \<Rightarrow> bool" where
  "makes_raw cfmakeraw \<longleftrightarrow> (\<forall>t. c_lflag (cfmakeraw t) AND (ICANON OR ECHO) = 0)"

lemma attrs_now_append [simp]: "attrs_now t (h @ h') = attrs_now (attrs_now t h) h'"
  by (induction t h rule: attrs_now.induct) (simp_all)

lemma served_get:
  assumes "serves_tty os t0"
  obtains r where "os h (TcGetAttr 0) = Inr r" "tr_attrs r = attrs_now t0 h"
  using assms by (meson serves_tty_def)

lemma served_set:
  assumes "serves_tty os t0"
  obtains r where "os h (TcSetAttr 0 t) = Inr r"
  using assms by (meson serves_tty_def)

lemma sys_enter_raw_served:
  assumes "serves_tty os t0"
  shows "\<exists>t. sys_enter_raw mk os 0 h = (Ok (attrs_now t0 h), h @ t) \<and>
    attrs_now t0 (h @ t) = mk (attrs_now t0 h)"
proof -
  obtain r where r: "os h (TcGetAttr 0) = Inr r" "tr_attrs r = attrs_now t0 h"
    using served_get[OF assms] .
  obtain r' where r': "os (h @ [(TcGetAttr 0, Inr r)]) (TcSetAttr 0 (mk (attrs_now t0 h))) = Inr r'"
    using served_set[OF assms] .
  show ?thesis using r r' by (auto simp: sys_enter_raw_def attempt_def call_eq Let_def)
qed

lemma restore_served:
  assumes "serves_tty os t0"
  shows "\<exists>t. restore os 0 cur h = (Ok (), h @ t) \<and> attrs_now t0 (h @ t) = cur"
proof -
  obtain r where "os h (TcSetAttr 0 cur) = Inr r" using served_set[OF assms] .
  then show ?thesis by (simp add: restore_def attempt_def call_eq)
qed

section \<open>Raw mode and echo\<close>

text \<open>C32. On a terminal, \<open>with_raw\<close> over the Linux handle runs its body once, with line editing and
  echo off, passes its result on, and afterwards the terminal has exactly the attributes it had
  before, whatever the body did to them.\<close>

theorem linux_with_raw_restores:
  assumes tty: "serves_tty os t0" and raw: "makes_raw cfmakeraw"
    and body: "\<forall>s. saved (fst (snd (body s))) = saved (fst s)"
  shows "\<exists>s1 h2. linux_enter_raw cfmakeraw os (\<lparr>saved = None\<rparr>, h) = (Ok (), s1)
    \<and> fst (linux_is_raw os (snd s1))
    \<and> with_raw (linux_enter_raw cfmakeraw os) (linux_leave_raw os) body (\<lparr>saved = None\<rparr>, h)
        = (fst (body s1), (\<lparr>saved = None\<rparr>, h2))
    \<and> attrs_now t0 h2 = attrs_now t0 h"
proof -
  let ?cur = "attrs_now t0 h"
  obtain u where u: "sys_enter_raw cfmakeraw os 0 h = (Ok ?cur, h @ u)"
    "attrs_now t0 (h @ u) = cfmakeraw ?cur"
    using sys_enter_raw_served[OF tty] by blast
  let ?s1 = "(\<lparr>saved = Some ?cur\<rparr>, h @ u)"
  have enter: "linux_enter_raw cfmakeraw os (\<lparr>saved = None\<rparr>, h) = (Ok (), ?s1)"
    using u(1) by (simp add: linux_enter_raw_def stream_fd_def)
  obtain r where r: "os (h @ u) (TcGetAttr 0) = Inr r" "tr_attrs r = attrs_now t0 (h @ u)"
    using served_get[OF tty] .
  have is_raw: "fst (linux_is_raw os (h @ u))"
    using r u(2) raw by (simp add: linux_is_raw_def is_raw_fd_def stream_fd_def invoke_eq makes_raw_def)
  obtain res t2 hb where b: "body ?s1 = (res, (t2, hb))" by (metis prod.exhaust)
  have t2: "t2 = \<lparr>saved = Some ?cur\<rparr>"
    using body[rule_format, of ?s1] b by (cases t2) simp
  obtain v where v: "restore os 0 ?cur hb = (Ok (), hb @ v)" "attrs_now t0 (hb @ v) = ?cur"
    using restore_served[OF tty] by blast
  have "linux_leave_raw os (t2, hb) = (Ok (), (\<lparr>saved = None\<rparr>, hb @ v))"
    using v(1) t2 by (simp add: linux_leave_raw_def stream_fd_def)
  then have "with_raw (linux_enter_raw cfmakeraw os) (linux_leave_raw os) body (\<lparr>saved = None\<rparr>, h)
      = (res, (\<lparr>saved = None\<rparr>, hb @ v))"
    using enter b by (cases res) (simp_all add: with_raw_def)
  then show ?thesis using enter is_raw b v(2) by auto
qed

definition tty_device :: "Termios \<Rightarrow> tty_os" where
  "tty_device t0 h c = Inr \<lparr>tr_ret = 1, tr_attrs = attrs_now t0 h, tr_rows = 24, tr_cols = 80, tr_data = []\<rparr>"

definition cooked :: Termios where
  "cooked = \<lparr>c_iflag = 0, c_oflag = 0, c_cflag = 0, c_lflag = 0xA, c_cc = [1, 0]\<rparr>"

lemma tty_device_serves: "serves_tty (tty_device t0) t0"
  by (simp add: serves_tty_def tty_device_def)

theorem linux_with_raw_restores_witness:
  "\<exists>h2. with_raw (linux_enter_raw (\<lambda>t. t\<lparr>c_lflag := 0\<rparr>) (tty_device cooked)) (linux_leave_raw (tty_device cooked))
      (\<lambda>s. (Ok (1 :: nat), s)) (\<lparr>saved = None\<rparr>, []) = (Ok 1, (\<lparr>saved = None\<rparr>, h2))
    \<and> attrs_now cooked h2 = cooked"
proof -
  have "makes_raw (\<lambda>t. t\<lparr>c_lflag := 0\<rparr>)" by (simp add: makes_raw_def)
  from linux_with_raw_restores[OF tty_device_serves this, of "\<lambda>s. (Ok (1 :: nat), s)" cooked "[]"]
  show ?thesis by auto
qed

lemma bit_8: "bit (8 :: u32) n \<longleftrightarrow> n = 3" "bit (8 :: int) n \<longleftrightarrow> n = 3"
  using bit_exp_iff[where 'a = u32, of 3 n] bit_exp_iff[where 'a = int, of 3 n] by auto

lemma echo_bit: "c_lflag t AND ECHO \<noteq> 0 \<longleftrightarrow> bit (c_lflag t) 3"
proof -
  have "c_lflag t AND 2 ^ 3 = of_bool (bit (c_lflag t) 3) * 2 ^ 3"
    by (rule bit_word_eqI) (auto simp: bit_simps bit_8)
  then show ?thesis by (auto split: if_splits)
qed

lemma with_echo_restores:
  assumes "was \<longleftrightarrow> c_lflag t AND ECHO \<noteq> 0"
  shows "with_echo was (with_echo on t) = t"
proof -
  have "c_lflag (with_echo was (with_echo on t)) = c_lflag t"
    using assms unfolding echo_bit
    by (intro bit_word_eqI) (auto simp: with_echo_def bit_simps bit_8)
  then show ?thesis by (cases t) (simp add: with_echo_def split: if_splits)
qed

text \<open>Turning echo on or off reports whether it was on, and setting it to what was reported
  restores every attribute of the terminal.\<close>

theorem linux_set_echo_restores:
  assumes "serves_tty os t0"
  shows "\<exists>was h1 h2. linux_set_echo os on h = (Ok was, h1)
    \<and> (was \<longleftrightarrow> c_lflag (attrs_now t0 h) AND ECHO \<noteq> 0)
    \<and> attrs_now t0 h1 = with_echo on (attrs_now t0 h)
    \<and> linux_set_echo os was h1 = (Ok on, h2) \<and> attrs_now t0 h2 = attrs_now t0 h"
proof -
  have step: "\<exists>u. linux_set_echo os x g = (Ok (c_lflag (attrs_now t0 g) AND ECHO \<noteq> 0), g @ u)
      \<and> attrs_now t0 (g @ u) = with_echo x (attrs_now t0 g)" for x g
  proof -
    obtain r where r: "os g (TcGetAttr 0) = Inr r" "tr_attrs r = attrs_now t0 g"
      using served_get[OF assms] .
    obtain r' where "os (g @ [(TcGetAttr 0, Inr r)]) (TcSetAttr 0 (with_echo x (attrs_now t0 g))) = Inr r'"
      using served_set[OF assms] .
    then show ?thesis using r
      by (auto simp: linux_set_echo_def set_echo_fd_def stream_fd_def attempt_def call_eq Let_def)
  qed
  let ?was = "c_lflag (attrs_now t0 h) AND ECHO \<noteq> 0"
  obtain u where u: "linux_set_echo os on h = (Ok ?was, h @ u)"
    "attrs_now t0 (h @ u) = with_echo on (attrs_now t0 h)" using step by blast
  obtain v where v: "linux_set_echo os ?was (h @ u) = (Ok (c_lflag (attrs_now t0 (h @ u)) AND ECHO \<noteq> 0), (h @ u) @ v)"
    "attrs_now t0 ((h @ u) @ v) = with_echo ?was (attrs_now t0 (h @ u))" using step by blast
  have "(c_lflag (attrs_now t0 (h @ u)) AND ECHO \<noteq> 0) = on"
    unfolding u(2) echo_bit by (simp add: with_echo_def bit_simps bit_8)
  then show ?thesis using u v with_echo_restores[of ?was "attrs_now t0 h" on] by auto
qed

text \<open>A restore that fails is not tried again: the handle has already let go of the attributes.\<close>

lemma leave_raw_failed_forgets:
  assumes "os h (TcSetAttr 0 cur) = Inl e"
  shows "\<exists>h1. linux_leave_raw os (\<lparr>saved = Some cur\<rparr>, h) = (Err (term_err ''tcsetattr'' e), (\<lparr>saved = None\<rparr>, h1))
    \<and> linux_leave_raw os (\<lparr>saved = None\<rparr>, h1) = (Ok (), (\<lparr>saved = None\<rparr>, h1))"
  using assms by (simp add: linux_leave_raw_def restore_def stream_fd_def attempt_def call_eq)

text \<open>The terminal is handed over only with the stop signal ignored.\<close>

lemma give_terminal_ignores_first:
  "\<exists>a t. snd (linux_give_terminal os pgid h) = h @ (SignalIgnore SIGTTOU, a) # t
    \<and> (t \<noteq> [] \<longrightarrow> \<not> isl a) \<and> length t \<le> 1"
  by (cases "os h (SignalIgnore SIGTTOU)")
    (auto simp: linux_give_terminal_def give_terminal_fd_def ignore_sigttou_def attempt_def call_eq
      stream_fd_def split: sum.splits)

end
