(* ===== verification/Linux_Pty.thy ===== *)
theory Linux_Pty
  imports Os_Calls Linux_Process Terminal
begin

text \<open>
  Hosting a child on a pseudo-terminal: \<open>platform-linux/src/sys/pty.rs\<close> over the calls of the C
  library, and \<open>LinuxPty\<close> with its master side from \<open>platform-linux/src/pty.rs\<close>.  The two
  objects \<open>posix_spawn\<close> reads, the file actions and the attributes, are owned by the function
  that spawns and destroyed when it returns.
\<close>

section \<open>Calls\<close>

datatype (plugins only: code) PtyCall =
    OpenPt i32
  | GrantPt int
  | UnlockPt int
  | PtsName int nat
  | SetWinSize int WinSize
  | PtyRead int nat
  | PtyWrite int bytes
  | ClosePty int
  | ActionsInit
  | ActionsDestroy
  | ActionsChdir string
  | ActionsOpen nat string i32
  | ActionsDup2 nat nat
  | AttrInit
  | AttrDestroy
  | AttrSetFlags i32
  | PosixSpawn string "string list" "string list"

record PtyReply =
  py_ret :: int
  py_data :: bytes

type_synonym pty_os = "(PtyCall, PtyReply) os"
type_synonym pty_calls = "(PtyCall, PtyReply) calls"
type_synonym 'a pio = "(PtyCall, PtyReply, 'a result) effect"

abbreviation PTY_RDWR :: i32 where "PTY_RDWR \<equiv> 2"
abbreviation PTY_NOCTTY :: i32 where "PTY_NOCTTY \<equiv> 0x100"
abbreviation PTY_CLOEXEC :: i32 where "PTY_CLOEXEC \<equiv> 0x80000"
abbreviation SPAWN_SETSID :: i32 where "SPAWN_SETSID \<equiv> 0x80"
abbreviation PTY_EIO :: i32 where "PTY_EIO \<equiv> 5"
abbreviation PTY_EAGAIN :: i32 where "PTY_EAGAIN \<equiv> 11"

datatype PtyHandle = MasterFd int | ActionsObj | AttrObj

definition opens_pty :: "PtyCall \<Rightarrow> PtyReply \<Rightarrow> PtyHandle multiset" where
  "opens_pty c r =
    (case c of OpenPt _ \<Rightarrow> {#MasterFd (py_ret r)#} | ActionsInit \<Rightarrow> {#ActionsObj#} | AttrInit \<Rightarrow> {#AttrObj#}
     | _ \<Rightarrow> {#})"

definition closes_pty :: "PtyCall \<Rightarrow> PtyHandle multiset" where
  "closes_pty c =
    (case c of ClosePty d \<Rightarrow> {#MasterFd d#} | ActionsDestroy \<Rightarrow> {#ActionsObj#} | AttrDestroy \<Rightarrow> {#AttrObj#}
     | _ \<Rightarrow> {#})"

definition drop_call :: "PtyHandle \<Rightarrow> PtyCall" where
  "drop_call x = (case x of MasterFd d \<Rightarrow> ClosePty d | ActionsObj \<Rightarrow> ActionsDestroy | AttrObj \<Rightarrow> AttrDestroy)"

lemmas pty_defs = opens_pty_def closes_pty_def

interpretation ptys: handle_ledger opens_pty closes_pty drop_call
  by unfold_locales (auto simp: pty_defs drop_call_def split: PtyHandle.split)

section \<open>The primitives\<close>

definition pty_err :: "string \<Rightarrow> i32 \<Rightarrow> PlatformError" where
  "pty_err op code =
    (let kind = (if code = ENOENT then NotFound
                 else if code = EACCES \<or> code = EPERM then PermissionDenied
                 else if code = PTY_EAGAIN then WouldBlock
                 else if code = EINTR then Interrupted
                 else Other)
     in new_error kind (Errno code) op)"

text \<open>\<open>CStr::from_ptr\<close> on a buffer: the bytes before the first NUL.\<close>

definition c_str :: "bytes \<Rightarrow> string" where
  "c_str buf = from_bytes (takeWhile (\<lambda>b. b \<noteq> 0) buf)"

definition slave_name :: "PtyReply \<Rightarrow> string" where
  "slave_name r = c_str (take 64 (py_data r @ replicate 64 0))"

definition open_pty_pair :: "pty_os \<Rightarrow> (int \<times> string) pio" where
  "open_pty_pair os =
    attempt (call os (pty_err ''posix_openpt'') (OpenPt (PTY_RDWR OR PTY_NOCTTY OR PTY_CLOEXEC))) (\<lambda>r.
    (let master = py_ret r in
     or_close os (ClosePty master)
       (attempt (call os (pty_err ''grantpt'') (GrantPt master)) (\<lambda>_.
        attempt (call os (pty_err ''unlockpt'') (UnlockPt master)) (\<lambda>_.
        attempt (call os (pty_err ''ptsname_r'') (PtsName master 64)) (\<lambda>r2.
        ret (Ok (master, slave_name r2))))))))"

text \<open>The part of \<open>spawn_attached\<close> that runs with both objects in hand.\<close>

definition fill_actions :: "pty_os \<Rightarrow> string \<Rightarrow> string \<Rightarrow> unit pio" where
  "fill_actions os c_cwd slave_path =
    attempt (call os (\<lambda>r. errno_err ''posix_spawn chdir'' r c_cwd) (ActionsChdir c_cwd)) (\<lambda>_.
    attempt (call os (\<lambda>r. errno_err ''posix_spawn addopen'' r []) (ActionsOpen 0 slave_path PTY_RDWR)) (\<lambda>_.
    attempt (call os (\<lambda>r. errno_err ''posix_spawn adddup2'' r []) (ActionsDup2 0 1)) (\<lambda>_.
    attempt (call os (\<lambda>r. errno_err ''posix_spawn adddup2'' r []) (ActionsDup2 0 2)) (\<lambda>_.
    ret (Ok ())))))"

definition spawn_session :: "pty_os \<Rightarrow> string \<Rightarrow> string list \<Rightarrow> string list \<Rightarrow> i32 pio" where
  "spawn_session os c_path c_argv c_env =
    attempt (call os (\<lambda>r. errno_err ''posix_spawnattr_init'' r []) AttrInit) (\<lambda>_.
    finally_close os AttrDestroy
      (attempt (call os (\<lambda>r. errno_err ''posix_spawnattr_setflags'' r []) (AttrSetFlags SPAWN_SETSID)) (\<lambda>_.
       attempt (call os (\<lambda>r. errno_err ''posix_spawn'' r c_path) (PosixSpawn c_path c_argv c_env)) (\<lambda>r.
       ret (Ok (of_int (py_ret r)))))))"

definition spawn_attached ::
  "(string \<times> string) list \<Rightarrow> pty_os \<Rightarrow> string \<Rightarrow> string \<Rightarrow> string list \<Rightarrow> string \<Rightarrow> EnvSpec \<Rightarrow> string \<Rightarrow> i32 pio" where
  "spawn_attached environ os path argv0 args cwd env slave_path =
    attempt (ret (to_cstring path ''posix_spawn'')) (\<lambda>c_path.
    attempt (ret (to_cstring cwd ''posix_spawn chdir'')) (\<lambda>c_cwd.
    attempt (ret (to_cstrings ''posix_spawn argv'' (argv0 # args))) (\<lambda>c_argv.
    attempt (ret (build_env environ env)) (\<lambda>c_env.
    attempt (call os (\<lambda>r. errno_err ''posix_spawn_file_actions_init'' r []) ActionsInit) (\<lambda>_.
    finally_close os ActionsDestroy
      (attempt (fill_actions os c_cwd slave_path) (\<lambda>_. spawn_session os c_path c_argv c_env)))))))"

definition pty_resize :: "pty_os \<Rightarrow> int \<Rightarrow> WinSize \<Rightarrow> unit pio" where
  "pty_resize os master sz =
    attempt (call os (pty_err ''TIOCSWINSZ'') (SetWinSize master sz)) (\<lambda>_. ret (Ok ()))"

definition pty_read_fd :: "pty_os \<Rightarrow> int \<Rightarrow> bytes \<Rightarrow> (nat \<times> bytes) pio" where
  "pty_read_fd os master buf h =
    (case invoke os (PtyRead master (length buf)) h of
       (Inl _, h1) \<Rightarrow>
         (let code = last_error h1
          in if code = PTY_EIO then (Ok (0, buf), h1) else (Err (pty_err ''read'' code), h1))
     | (Inr r, h1) \<Rightarrow>
         (Ok (nat (py_ret r), take (length buf) (py_data r) @ drop (length (py_data r)) buf), h1))"

definition pty_write_fd :: "pty_os \<Rightarrow> int \<Rightarrow> bytes \<Rightarrow> nat pio" where
  "pty_write_fd os master buf =
    attempt (call os (pty_err ''write'') (PtyWrite master buf)) (\<lambda>r. ret (Ok (nat (py_ret r))))"

section \<open>The capability\<close>

record LinuxPtyMaster = pty_master :: int

definition join_refused :: PlatformError where
  "join_refused = new_error InvalidInput NoCode
     ''Pty::spawn: GroupSpec::JoinGroup is incompatible with a fresh pty session''"

definition linux_pty_spawn ::
  "(string \<Rightarrow> (bool \<times> u32) option) \<Rightarrow> string option \<Rightarrow> (string \<times> string) list \<Rightarrow> pty_os \<Rightarrow>
   'f Command \<Rightarrow> WinSize \<Rightarrow> (LinuxPtyMaster \<times> LinuxChild) pio" where
  "linux_pty_spawn metadata path_var environ os cmd sz =
    (case cmd_group cmd of
       JoinGroup _ \<Rightarrow> ret (Err join_refused)
     | _ \<Rightarrow>
        attempt (ret (resolve metadata path_var (cmd_program cmd))) (\<lambda>resolved.
        attempt (open_pty_pair os) (\<lambda>(master, slave_path).
        or_close os (ClosePty master)
          (attempt (spawn_attached environ os resolved (cmd_program cmd) (cmd_argv cmd) (cmd_cwd cmd)
              (cmd_env cmd) slave_path) (\<lambda>pid.
           attempt (pty_resize os master sz) (\<lambda>_.
           ret (Ok (\<lparr>pty_master = master\<rparr>, from_pid pid (Some pid)))))))))"

definition master_read :: "pty_os \<Rightarrow> LinuxPtyMaster \<Rightarrow> bytes \<Rightarrow> (nat \<times> bytes) pio" where
  "master_read os m = pty_read_fd os (pty_master m)"

definition master_write :: "pty_os \<Rightarrow> LinuxPtyMaster \<Rightarrow> bytes \<Rightarrow> nat pio" where
  "master_write os m = pty_write_fd os (pty_master m)"

definition master_resize :: "pty_os \<Rightarrow> LinuxPtyMaster \<Rightarrow> WinSize \<Rightarrow> unit pio" where
  "master_resize os m = pty_resize os (pty_master m)"

section \<open>What hosting may do\<close>

text \<open>\<open>slave\<close> is the unlocked other side of a master opened by these calls.\<close>

definition unlocked :: "string \<Rightarrow> pty_calls \<Rightarrow> bool" where
  "unlocked slave p \<longleftrightarrow> (\<exists>d r. made (UnlockPt d) p \<and> (PtsName d 64, Inr r) \<in> set p \<and> slave = slave_name r)"

definition opened :: "string \<Rightarrow> pty_calls \<Rightarrow> bool" where
  "opened slave p \<longleftrightarrow> unlocked slave p \<and> made (ActionsOpen 0 slave PTY_RDWR) p"

definition wired :: "string \<Rightarrow> pty_calls \<Rightarrow> bool" where
  "wired slave p \<longleftrightarrow> opened slave p \<and> made (ActionsDup2 0 1) p \<and> made (ActionsDup2 0 2) p"

text \<open>A standard stream is copied from descriptor 0 only after the other side was opened there;
  the child is started only with all three wired and in a session of its own.\<close>

definition pty_rule :: "pty_calls \<Rightarrow> PtyCall \<Rightarrow> bool" where
  "pty_rule p c \<longleftrightarrow>
    (case c of
       ActionsDup2 s t \<Rightarrow> s = 0 \<and> (\<exists>slave. opened slave p)
     | PosixSpawn _ _ _ \<Rightarrow> (\<exists>slave. wired slave p) \<and> made (AttrSetFlags SPAWN_SETSID) p
     | _ \<Rightarrow> True)"

lemma pty_state_mono:
  "unlocked slave p \<Longrightarrow> unlocked slave (p @ [e])" "opened slave p \<Longrightarrow> opened slave (p @ [e])"
  "wired slave p \<Longrightarrow> wired slave (p @ [e])" "made c p \<Longrightarrow> made c (p @ [e])"
  by (auto simp: unlocked_def opened_def wired_def made_def)

lemma unlocked_snoc:
  "made (UnlockPt d) p \<Longrightarrow> unlocked (slave_name r) (p @ [(PtsName d 64, Inr r)])"
  by (auto simp: unlocked_def made_def)

lemma opened_snoc:
  "unlocked slave p \<Longrightarrow> opened slave (p @ [(ActionsOpen 0 slave PTY_RDWR, Inr r)])"
  by (simp add: opened_def pty_state_mono)

lemma open_pty_pair_obeys:
  "obeys pty_rule (\<lambda>p. p = []) (\<lambda>(d, slave). unlocked slave) (open_pty_pair os)"
proof -
  have body: "obeys pty_rule (\<lambda>p. True) (\<lambda>(d, slave). unlocked slave)
    (attempt (call os (pty_err ''grantpt'') (GrantPt d)) (\<lambda>_.
     attempt (call os (pty_err ''unlockpt'') (UnlockPt d)) (\<lambda>_.
     attempt (call os (pty_err ''ptsname_r'') (PtsName d 64)) (\<lambda>r. ret (Ok (d, slave_name r))))))" for d
    by (rule obeys_then[where B = "\<lambda>_ _. True"], simp_all add: pty_rule_def,
        rule obeys_then[where B = "\<lambda>_. made (UnlockPt d)"], simp_all add: pty_rule_def,
        rule obeys_then[where B = "\<lambda>r. unlocked (slave_name r)"],
        auto simp: pty_rule_def unlocked_snoc intro!: obeys_ret)
  show ?thesis
    unfolding open_pty_pair_def Let_def
    by (rule obeys_then[where B = "\<lambda>_ _. True"]; (rule obeys_or_close[OF body])?)
      (simp_all add: pty_rule_def)
qed

lemma fill_actions_obeys:
  "obeys pty_rule (unlocked slave) (\<lambda>_. wired slave) (fill_actions os cwd slave)"
  unfolding fill_actions_def
  by (rule obeys_then[where B = "\<lambda>_. unlocked slave"], simp_all add: pty_rule_def pty_state_mono,
      rule obeys_then[where B = "\<lambda>_. opened slave"], simp_all add: pty_rule_def opened_snoc,
      rule obeys_then[where B = "\<lambda>_ p. opened slave p \<and> made (ActionsDup2 0 1) p"],
      auto simp: pty_rule_def pty_state_mono,
      rule obeys_then[where B = "\<lambda>_. wired slave"],
      auto simp: pty_rule_def wired_def pty_state_mono intro!: obeys_ret)

lemma spawn_session_obeys:
  "obeys pty_rule (wired slave) (\<lambda>_. wired slave) (spawn_session os path argv env)"
proof -
  have body: "obeys pty_rule (wired slave) (\<lambda>_. wired slave)
    (attempt (call os mk (AttrSetFlags SPAWN_SETSID)) (\<lambda>_.
     attempt (call os mk' (PosixSpawn path argv env)) (\<lambda>r. ret (Ok (of_int (py_ret r) :: i32)))))" for mk mk'
    by (rule obeys_then[where B = "\<lambda>_ p. wired slave p \<and> made (AttrSetFlags SPAWN_SETSID) p"],
        simp_all add: pty_rule_def pty_state_mono,
        rule obeys_then[where B = "\<lambda>_. wired slave"],
        auto simp: pty_rule_def pty_state_mono intro!: obeys_ret)
  show ?thesis
    unfolding spawn_session_def
    by (rule obeys_then[where B = "\<lambda>_. wired slave"]; (rule obeys_finally[OF body])?)
      (simp_all add: pty_rule_def pty_state_mono)
qed

lemma spawn_attached_obeys:
  "obeys pty_rule (unlocked slave) (\<lambda>_. wired slave)
     (spawn_attached environ os path argv0 args cwd env slave)"
  unfolding spawn_attached_def
  by (intro obeys_ret_then, rule obeys_then[where B = "\<lambda>_. unlocked slave"];
      (rule obeys_finally[OF obeys_attempt[OF fill_actions_obeys spawn_session_obeys]])?)
    (simp_all add: pty_rule_def pty_state_mono)

section \<open>Handles\<close>

lemma keeps_pty_drop:
  "ptys.keeps H own (add_mset (MasterFd d) rest) m \<Longrightarrow> ptys.keeps H own rest (or_close os (ClosePty d) m)"
  "ptys.keeps H (\<lambda>x. add_mset ActionsObj (own x)) (add_mset ActionsObj rest) m \<Longrightarrow>
     ptys.keeps H own rest (finally_close os ActionsDestroy m)"
  "ptys.keeps H (\<lambda>x. add_mset AttrObj (own x)) (add_mset AttrObj rest) m \<Longrightarrow>
     ptys.keeps H own rest (finally_close os AttrDestroy m)"
  using ptys.keeps_or_close[of H own "MasterFd d" rest m os] ptys.keeps_finally[of H ActionsObj own rest m os]
    ptys.keeps_finally[of H AttrObj own rest m os]
  by (simp_all add: drop_call_def)

lemma keeps_pty_then:
  assumes "closes_pty c = {#}" "\<And>r. opens_pty c r = {#}" "\<And>r. ptys.keeps H own rest (f r)" "H = rest"
  shows "ptys.keeps H own rest (attempt (call os mk c) f)"
  using assms accounts_attempt[OF ptys.keeps_plain] by blast

lemma keeps_pty_open:
  assumes "closes_pty c = {#}" "\<And>r. opens_pty c r = {#x r#}" "\<And>r. ptys.keeps (add_mset (x r) H) own H (f r)"
  shows "ptys.keeps H own H (attempt (call os mk c) f)"
proof (rule accounts_attempt)
  show "ptys.keeps H (\<lambda>r. add_mset (x r) H) H (call os mk c)"
    using ptys.keeps_open[OF assms(1), of H os mk] by (simp add: assms(2))
qed (rule assms(3))

lemma keeps_open_pty_pair:
  "ptys.keeps {#} (\<lambda>(d, _). {#MasterFd d#}) {#} (open_pty_pair os)"
  unfolding open_pty_pair_def Let_def
  by (rule keeps_pty_open[where x = "\<lambda>r. MasterFd (py_ret r)"];
      (rule keeps_pty_drop(1), intro keeps_pty_then)?)
    (simp_all add: pty_defs accounts_def)

lemma keeps_spawn_session: "ptys.keeps H (\<lambda>_. H) H (spawn_session os path argv env)"
  unfolding spawn_session_def
  by (rule keeps_pty_open[where x = "\<lambda>_. AttrObj"]; (rule keeps_pty_drop(3), intro keeps_pty_then)?)
    (simp_all add: pty_defs accounts_def)

lemma keeps_fill_actions: "ptys.keeps H (\<lambda>_. H) H (fill_actions os cwd slave)"
  unfolding fill_actions_def
  by (intro keeps_pty_then) (simp_all add: pty_defs accounts_def)

lemma keeps_spawn_attached:
  "ptys.keeps H (\<lambda>_. H) H (spawn_attached environ os path argv0 args cwd env slave)"
  unfolding spawn_attached_def
  by (intro keeps_ret_then, rule keeps_pty_open[where x = "\<lambda>_. ActionsObj"];
      (rule keeps_pty_drop(2), rule accounts_attempt[OF keeps_fill_actions keeps_spawn_session])?)
    (simp_all add: pty_defs)

lemma linux_pty_spawn_keeps:
  "ptys.keeps {#} (\<lambda>(m, _). {#MasterFd (pty_master m)#}) {#}
     (linux_pty_spawn metadata path_var environ os cmd sz)"
proof -
  have "ptys.keeps {#MasterFd d#} (\<lambda>(m, _). {#MasterFd (pty_master m)#}) {#}
     (or_close os (ClosePty d)
       (attempt (spawn_attached environ os resolved p a c e slave) (\<lambda>pid.
        attempt (pty_resize os d sz) (\<lambda>_. ret (Ok (\<lparr>pty_master = d\<rparr>, from_pid pid (Some pid)))))))"
    for d resolved p a c e slave
  proof (rule keeps_pty_drop(1), rule accounts_attempt[OF keeps_spawn_attached])
    have "ptys.keeps H (\<lambda>_. H) H (pty_resize os d sz)" for H
      unfolding pty_resize_def by (rule keeps_pty_then) (simp_all add: pty_defs accounts_def)
    then show "ptys.keeps {#MasterFd d#} (\<lambda>(m, _). {#MasterFd (pty_master m)#}) {#MasterFd d#}
      (attempt (pty_resize os d sz) (\<lambda>_. ret (Ok (\<lparr>pty_master = d\<rparr>, from_pid pid (Some pid)))))" for pid
      by (rule accounts_attempt) (simp add: accounts_def)
  qed
  then have "ptys.keeps {#} (\<lambda>(m, _). {#MasterFd (pty_master m)#}) {#}
     (attempt (open_pty_pair os) (\<lambda>(master, slave).
        or_close os (ClosePty master)
          (attempt (spawn_attached environ os resolved p a c e slave) (\<lambda>pid.
           attempt (pty_resize os master sz) (\<lambda>_.
           ret (Ok (\<lparr>pty_master = master\<rparr>, from_pid pid (Some pid))))))))" for resolved p a c e
    by (intro accounts_attempt[OF keeps_open_pty_pair]) (simp split: prod.split)
  then show ?thesis
    unfolding linux_pty_spawn_def
    by (simp add: keeps_ret_then accounts_fail split: GroupSpec.split)
qed

section \<open>Hosting a child\<close>

lemma linux_pty_spawn_obeys:
  "obeys pty_rule (\<lambda>p. p = []) (\<lambda>(m, c) p. made (SetWinSize (pty_master m) sz) p \<and> lc_group c = Some (lc_pid c))
     (linux_pty_spawn metadata path_var environ os cmd sz)"
proof -
  have resize: "obeys pty_rule (wired slave) (\<lambda>_. made (SetWinSize d sz)) (pty_resize os d sz)" for d slave
    unfolding pty_resize_def
    by (rule obeys_then[where B = "\<lambda>_. made (SetWinSize d sz)"]) (auto simp: pty_rule_def intro!: obeys_ret)
  have tail: "obeys pty_rule (made (SetWinSize d sz))
      (\<lambda>(m, c) p. made (SetWinSize (pty_master m) sz) p \<and> lc_group c = Some (lc_pid c))
      (ret (Ok (\<lparr>pty_master = d\<rparr>, from_pid pid (Some pid))))" for d pid
    by (rule obeys_ret) (auto simp: from_pid_def)
  show ?thesis
    unfolding linux_pty_spawn_def
    by (auto split: GroupSpec.split simp: pty_rule_def
        intro!: obeys_ret obeys_ret_then obeys_attempt[OF open_pty_pair_obeys] obeys_or_close
          obeys_attempt[OF spawn_attached_obeys] obeys_attempt[OF resize] tail)
qed

text \<open>C33. Hosting a child on a pseudo-terminal, for every answer of the system.  A request to join
  an existing group is refused before any call.  The child is started only after the other
  side was unlocked and opened as descriptor 0, copied to 1 and 2, and the session flag set;
  on success the window has the requested size and the child leads its own group; the objects
  of the spawn are destroyed and exactly the returned master stays open, none on an error.\<close>

theorem linux_pty_spawn_protocol:
  "\<exists>t. snd (linux_pty_spawn metadata path_var environ os cmd sz h) = h @ t
    \<and> justified pty_rule t
    \<and> acquired opens_pty t = released closes_pty t
        + (case fst (linux_pty_spawn metadata path_var environ os cmd sz h) of
             Err _ \<Rightarrow> {#} | Ok (m, _) \<Rightarrow> {#MasterFd (pty_master m)#})
    \<and> (case fst (linux_pty_spawn metadata path_var environ os cmd sz h) of
          Err _ \<Rightarrow> True
        | Ok (m, c) \<Rightarrow> made (SetWinSize (pty_master m) sz) t \<and> lc_group c = Some (lc_pid c))
    \<and> (case cmd_group cmd of
          JoinGroup _ \<Rightarrow> t = [] \<and> fst (linux_pty_spawn metadata path_var environ os cmd sz h) = Err join_refused
        | _ \<Rightarrow> True)"
proof -
  let ?m = "linux_pty_spawn metadata path_var environ os cmd sz"
  obtain t where t: "snd (?m h) = h @ t" "justified pty_rule t"
    "\<And>m c. fst (?m h) = Ok (m, c) \<Longrightarrow> made (SetWinSize (pty_master m) sz) t \<and> lc_group c = Some (lc_pid c)"
    using obeys_justified[OF linux_pty_spawn_obeys, of metadata path_var environ os cmd sz h] by force
  obtain u where "snd (?m h) = h @ u" "acquired opens_pty u = released closes_pty u
      + (case fst (?m h) of Err _ \<Rightarrow> {#} | Ok (m, _) \<Rightarrow> {#MasterFd (pty_master m)#})"
    using linux_pty_spawn_keeps[of metadata path_var environ os cmd sz] by (auto simp: accounts_def)
  moreover have "t = [] \<and> fst (?m h) = Err join_refused" if "cmd_group cmd = JoinGroup g" for g
    using that t(1) by (simp add: linux_pty_spawn_def)
  ultimately show ?thesis using t by (intro exI[of _ t]) (auto split: sum.split GroupSpec.split)
qed

text \<open>When the size cannot be set the child has been started, but the error leaves no handle to it.\<close>

definition no_resize :: pty_os where
  "no_resize h c =
    (case c of SetWinSize _ _ \<Rightarrow> Inl 25 | OpenPt _ \<Rightarrow> Inr \<lparr>py_ret = 7, py_data = []\<rparr>
     | PosixSpawn _ _ _ \<Rightarrow> Inr \<lparr>py_ret = 100, py_data = []\<rparr> | _ \<Rightarrow> Inr \<lparr>py_ret = 0, py_data = []\<rparr>)"

definition started :: "PtyCall \<times> (i32 + PtyReply) \<Rightarrow> bool" where
  "started e = (case e of (c, a) \<Rightarrow> (case c of PosixSpawn _ _ _ \<Rightarrow> \<not> isl a | _ \<Rightarrow> False))"

lemma pty_resize_failure_abandons_child:
  "case linux_pty_spawn (\<lambda>_. Some (True, 0x1FF)) None [] no_resize
      (command_new ''/bin/sh'' ''/'' :: unit Command) \<lparr>rows = 24, cols = 80\<rparr> []
   of (r, t) \<Rightarrow> isl r \<and> list_ex started t"
  by code_simp

end
