(* ===== verification/Linux_Tun.thy ===== *)
theory Linux_Tun
  imports Sockets Linux_Net
begin

text \<open>
  The tunnel device of the Linux backend: \<open>platform-linux/src/sys/tun.rs\<close>, which opens the device
  and configures the interface through \<open>ioctl\<close> requests on a throwaway socket, and
  \<open>LinuxTunDevice\<close> of \<open>platform-linux/src/tun.rs\<close>.  An \<open>ioctl\<close> passes the 40 bytes of an \<open>ifreq\<close> and
  may write them back.
\<close>

section \<open>Requests\<close>

abbreviation TUNSETIFF :: u64 where "TUNSETIFF \<equiv> 0x400454CA"
abbreviation SIOCSIFADDR :: u64 where "SIOCSIFADDR \<equiv> 0x8916"
abbreviation SIOCSIFNETMASK :: u64 where "SIOCSIFNETMASK \<equiv> 0x891C"
abbreviation SIOCSIFMTU :: u64 where "SIOCSIFMTU \<equiv> 0x8922"
abbreviation SIOCGIFFLAGS :: u64 where "SIOCGIFFLAGS \<equiv> 0x8913"
abbreviation SIOCSIFFLAGS :: u64 where "SIOCSIFFLAGS \<equiv> 0x8914"
abbreviation IFF_TUN :: u16 where "IFF_TUN \<equiv> 1"
abbreviation IFF_NO_PI :: u16 where "IFF_NO_PI \<equiv> 0x1000"
abbreviation IFF_UP :: u16 where "IFF_UP \<equiv> 1"
abbreviation IFF_RUNNING :: u16 where "IFF_RUNNING \<equiv> 0x40"
abbreviation IFNAMSIZ :: nat where "IFNAMSIZ \<equiv> 16"

definition tun_kind_of :: "i32 \<Rightarrow> ErrorKind" where
  "tun_kind_of errno =
    (if errno = ENOENT then NotFound
     else if errno = EACCES \<or> errno = EPERM then PermissionDenied
     else if errno = EINVAL then InvalidInput
     else if errno = ENODEV then NotFound
     else Other)"

definition tun_err :: "string \<Rightarrow> i32 \<Rightarrow> PlatformError" where
  "tun_err op e = new_error (tun_kind_of e) (Errno e) op"

record Ifreq =
  ifr_name :: bytes
  ifr_data :: bytes

definition name_too_long :: PlatformError where
  "name_too_long = new_error InvalidInput NoCode ''interface name too long''"

definition ifreq_new :: "string \<Rightarrow> Ifreq result" where
  "ifreq_new name =
    (let bytes = as_bytes name
     in if IFNAMSIZ \<le> length bytes then Err name_too_long
        else Ok \<lparr>ifr_name = zero_fill IFNAMSIZ bytes, ifr_data = replicate 24 0\<rparr>)"

definition set_sockaddr_in :: "u32 \<Rightarrow> Ifreq \<Rightarrow> Ifreq" where
  "set_sockaddr_in addr r =
    r\<lparr>ifr_data := to_le_bytes 2 (2 :: u16) @ [0, 0] @ to_be_bytes 4 addr @ replicate 16 0\<rparr>"

text \<open>\<open>data[0..n].copy_from_slice\<close>.\<close>

definition put_data :: "bytes \<Rightarrow> Ifreq \<Rightarrow> Ifreq" where
  "put_data bs r = r\<lparr>ifr_data := bs @ drop (length bs) (ifr_data r)\<rparr>"

definition ifreq_bytes :: "Ifreq \<Rightarrow> bytes" where
  "ifreq_bytes r = ifr_name r @ ifr_data r"

definition ifreq_back :: "bytes \<Rightarrow> Ifreq" where
  "ifreq_back bs = (let b = zero_fill 40 bs in \<lparr>ifr_name = take 16 b, ifr_data = drop 16 b\<rparr>)"

definition DEV_NET_TUN :: string where
  "DEV_NET_TUN = ''/dev/net/tun''"

section \<open>The primitives\<close>

definition ioctl_ifreq :: "unix \<Rightarrow> fd \<Rightarrow> u64 \<Rightarrow> Ifreq \<Rightarrow> string \<Rightarrow> Ifreq io" where
  "ioctl_ifreq os s req_num req op =
    attempt (call os (tun_err op) (Ioctl s req_num (ifreq_bytes req))) (\<lambda>r.
    ret (Ok (ifreq_back (ur_data r))))"

definition create_tun :: "unix \<Rightarrow> string \<Rightarrow> fd io" where
  "create_tun os name =
    attempt (call os (tun_err ''open /dev/net/tun'') (OpenFile DEV_NET_TUN O_RDWR)) (\<lambda>r.
    or_close os (CloseFd (ur_ret r))
      (attempt (ret (ifreq_new name)) (\<lambda>req.
       attempt (call os (tun_err ''ioctl(TUNSETIFF)'')
         (Ioctl (ur_ret r) TUNSETIFF (ifreq_bytes (put_data (to_le_bytes 2 (IFF_TUN OR IFF_NO_PI)) req)))) (\<lambda>_.
       ret (Ok (ur_ret r))))))"

definition ioctl_socket :: "unix \<Rightarrow> fd io" where
  "ioctl_socket os = call_fd os (tun_err ''socket'') (Socket 2 2 0)"

definition netmask :: "u8 \<Rightarrow> u32" where
  "netmask prefix_len =
    (let bits = min (unat prefix_len) 32 in if bits = 0 then 0 else push_bit (32 - bits) (- 1))"

definition flags_up :: "Ifreq \<Rightarrow> Ifreq" where
  "flags_up fl =
    put_data (to_le_bytes 2 ((from_le_bytes (take 2 (ifr_data fl)) :: u16) OR IFF_UP OR IFF_RUNNING)) fl"

definition configure :: "unix \<Rightarrow> string \<Rightarrow> u32 \<Rightarrow> u8 \<Rightarrow> u32 \<Rightarrow> unit io" where
  "configure os name addr prefix_len mtu =
    attempt (ioctl_socket os) (\<lambda>s. finally_close os (CloseFd s)
      (attempt (ret (ifreq_new name)) (\<lambda>a.
       attempt (ioctl_ifreq os s SIOCSIFADDR (set_sockaddr_in addr a) ''SIOCSIFADDR'') (\<lambda>_.
       attempt (ret (ifreq_new name)) (\<lambda>m.
       attempt (ioctl_ifreq os s SIOCSIFNETMASK (set_sockaddr_in (netmask prefix_len) m) ''SIOCSIFNETMASK'') (\<lambda>_.
       attempt (ret (ifreq_new name)) (\<lambda>mt.
       attempt (ioctl_ifreq os s SIOCSIFMTU (put_data (to_le_bytes 4 mtu) mt) ''SIOCSIFMTU'') (\<lambda>_.
       attempt (ret (ifreq_new name)) (\<lambda>fl.
       attempt (ioctl_ifreq os s SIOCGIFFLAGS fl ''SIOCGIFFLAGS'') (\<lambda>cur.
       attempt (ioctl_ifreq os s SIOCSIFFLAGS (flags_up cur) ''SIOCSIFFLAGS'') (\<lambda>_.
       ret (Ok ()))))))))))))"

section \<open>The device\<close>

record LinuxTunDevice =
  tun_fd :: fd
  tun_name :: string

definition tun_device_create :: "unix \<Rightarrow> string \<Rightarrow> u32 \<Rightarrow> u8 \<Rightarrow> u32 \<Rightarrow> LinuxTunDevice io" where
  "tun_device_create os name ipv4 prefix_len mtu =
    attempt (create_tun os name) (\<lambda>d. or_close os (CloseFd d)
      (attempt (configure os name ipv4 prefix_len mtu) (\<lambda>_.
       ret (Ok \<lparr>tun_fd = d, tun_name = name\<rparr>))))"

definition tun_device_set_nonblocking :: "unix \<Rightarrow> LinuxTunDevice \<Rightarrow> bool \<Rightarrow> unit io" where
  "tun_device_set_nonblocking os dev = set_nonblocking os (tun_fd dev)"

definition tun_device_read :: "unix \<Rightarrow> LinuxTunDevice \<Rightarrow> bytes \<Rightarrow> (nat \<times> bytes) io" where
  "tun_device_read os dev buf = read_fd os (tun_fd dev) buf"

definition tun_device_write :: "unix \<Rightarrow> LinuxTunDevice \<Rightarrow> bytes \<Rightarrow> nat io" where
  "tun_device_write os dev buf = write_fd os (tun_fd dev) buf"

definition tun_device_of :: "fd \<Rightarrow> LinuxTunDevice" where
  "tun_device_of d = \<lparr>tun_fd = d, tun_name = []\<rparr>"

section \<open>Bits\<close>

lemma netmask_bits:
  "bit (netmask p) i \<longleftrightarrow> 32 - min (unat p) 32 \<le> i \<and> i < 32"
  by (auto simp: netmask_def Let_def bit_simps)

lemma flags_up_bits:
  assumes "length (ifr_data fl) = 24"
  shows "ifr_name (flags_up fl) = ifr_name fl \<and> drop 2 (ifr_data (flags_up fl)) = drop 2 (ifr_data fl)
    \<and> from_le_bytes (take 2 (ifr_data (flags_up fl))) = (from_le_bytes (take 2 (ifr_data fl)) OR 0x41 :: u16)"
  using assms by (simp add: flags_up_def put_data_def or.assoc)

section \<open>What configuring may do\<close>

definition inet_request :: "string \<Rightarrow> u32 \<Rightarrow> bytes" where
  "inet_request name addr =
    zero_fill 16 (as_bytes name) @ [2, 0, 0, 0] @ to_be_bytes 4 addr @ replicate 16 0"

definition mtu_request :: "string \<Rightarrow> u32 \<Rightarrow> bytes" where
  "mtu_request name mtu = zero_fill 16 (as_bytes name) @ to_le_bytes 4 mtu @ replicate 20 0"

definition flags_request :: "string \<Rightarrow> bytes" where
  "flags_request name = zero_fill 16 (as_bytes name) @ replicate 24 0"

text \<open>The interface \<open>name\<close> has its address, mask and size.\<close>

definition addressed :: "fd \<Rightarrow> string \<Rightarrow> u32 \<Rightarrow> u8 \<Rightarrow> u32 \<Rightarrow> unix_calls \<Rightarrow> bool" where
  "addressed s name addr pl mtu p \<longleftrightarrow>
    made (Ioctl s SIOCSIFADDR (inet_request name addr)) p
    \<and> made (Ioctl s SIOCSIFNETMASK (inet_request name (netmask pl))) p
    \<and> made (Ioctl s SIOCSIFMTU (mtu_request name mtu)) p"

definition up_request :: "fd \<Rightarrow> string \<Rightarrow> unix_calls \<Rightarrow> bytes \<Rightarrow> bool" where
  "up_request s name p bs \<longleftrightarrow>
    (\<exists>g. (Ioctl s SIOCGIFFLAGS (flags_request name), Inr g) \<in> set p \<and>
      bs = ifreq_bytes (flags_up (ifreq_back (ur_data g))))"

text \<open>The interface is brought up only when it is addressed, with the flags the kernel reported
  and the two that start it.\<close>

definition tun_rule :: "string \<Rightarrow> u32 \<Rightarrow> u8 \<Rightarrow> u32 \<Rightarrow> unix_calls \<Rightarrow> UnixCall \<Rightarrow> bool" where
  "tun_rule name addr pl mtu p c \<longleftrightarrow>
    (case c of
       Ioctl s req bs \<Rightarrow>
         req = SIOCSIFFLAGS \<longrightarrow> addressed s name addr pl mtu p \<and> up_request s name p bs
     | _ \<Rightarrow> True)"

definition tun_up :: "string \<Rightarrow> unix_calls \<Rightarrow> bool" where
  "tun_up name p \<longleftrightarrow> (\<exists>s bs. made (Ioctl s SIOCSIFFLAGS bs) p)"

lemma af_inet_bytes: "to_le_bytes 2 (2 :: u16) = [2, 0]"
  by code_simp

lemma ifreq_new_bytes:
  assumes "ifreq_new name = Ok r"
  shows "ifreq_bytes r = flags_request name"
    "ifreq_bytes (set_sockaddr_in addr r) = inet_request name addr"
    "ifreq_bytes (put_data (to_le_bytes 4 mtu) r) = mtu_request name mtu"
  using assms
  by (auto simp: ifreq_new_def Let_def ifreq_bytes_def flags_request_def inet_request_def
      mtu_request_def set_sockaddr_in_def put_data_def af_inet_bytes split: if_splits)

lemma obeys_ioctl:
  assumes "\<And>p. A p \<Longrightarrow> J p (Ioctl s n (ifreq_bytes q))"
    "\<And>p r. A p \<Longrightarrow> B (ifreq_back (ur_data r)) (p @ [(Ioctl s n (ifreq_bytes q), Inr r)])"
    "\<And>x. obeys J (B x) C (f x)"
  shows "obeys J A C (attempt (ioctl_ifreq os s n q op) f)"
  unfolding ioctl_ifreq_def using assms
  by (intro obeys_attempt[where B = B] obeys_then[where B = "\<lambda>r. B (ifreq_back (ur_data r))"] obeys_ret)
    auto

lemma configure_body_obeys:
  assumes "ifreq_new name = Ok q"
  shows "obeys (tun_rule name addr pl mtu) (\<lambda>_. True) (\<lambda>_. tun_up name)
    (attempt (ioctl_ifreq os s SIOCSIFADDR (set_sockaddr_in addr q) op1) (\<lambda>_.
     attempt (ioctl_ifreq os s SIOCSIFNETMASK (set_sockaddr_in (netmask pl) q) op2) (\<lambda>_.
     attempt (ioctl_ifreq os s SIOCSIFMTU (put_data (to_le_bytes 4 mtu) q) op3) (\<lambda>_.
     attempt (ioctl_ifreq os s SIOCGIFFLAGS q op4) (\<lambda>cur.
     attempt (ioctl_ifreq os s SIOCSIFFLAGS (flags_up cur) op5) (\<lambda>_.
     ret (Ok ())))))))"
    (is "obeys ?J _ _ _")
proof -
  note b = ifreq_new_bytes[OF assms]
  let ?A = "addressed s name addr pl mtu"
  have five: "obeys ?J (\<lambda>p. ?A p \<and> up_request s name p (ifreq_bytes (flags_up cur))) (\<lambda>_. tun_up name)
      (attempt (ioctl_ifreq os s SIOCSIFFLAGS (flags_up cur) op5) (\<lambda>_. ret (Ok ())))" for cur
    by (rule obeys_ioctl[where B = "\<lambda>_. tun_up name"])
      (auto simp: tun_rule_def tun_up_def intro!: obeys_ret)
  have four: "obeys ?J ?A (\<lambda>_. tun_up name)
      (attempt (ioctl_ifreq os s SIOCGIFFLAGS q op4) (\<lambda>cur.
       attempt (ioctl_ifreq os s SIOCSIFFLAGS (flags_up cur) op5) (\<lambda>_. ret (Ok ()))))"
    by (rule obeys_ioctl[OF _ _ five]) (auto simp: tun_rule_def addressed_def up_request_def b)
  show ?thesis
    by (rule obeys_ioctl[where B = "\<lambda>_. made (Ioctl s SIOCSIFADDR (inet_request name addr))"],
        simp_all add: tun_rule_def b,
        rule obeys_ioctl[where B = "\<lambda>_ p. made (Ioctl s SIOCSIFADDR (inet_request name addr)) p
          \<and> made (Ioctl s SIOCSIFNETMASK (inet_request name (netmask pl))) p"],
        simp_all add: tun_rule_def b,
        rule obeys_ioctl[OF _ _ four])
      (simp_all add: tun_rule_def addressed_def b)
qed

lemma configure_obeys:
  "obeys (tun_rule name addr pl mtu) (\<lambda>_. True) (\<lambda>_. tun_up name) (configure os name addr pl mtu)"
proof -
  have sock: "obeys (tun_rule name addr pl mtu) (\<lambda>_. True) (\<lambda>_ _. True) (ioctl_socket os)"
    unfolding ioctl_socket_def call_fd_def
    by (rule obeys_then[where B = "\<lambda>_ _. True"]) (auto simp: tun_rule_def intro!: obeys_ret)
  have up: "tun_up name (p @ [e])" if "tun_up name p" for p e
    using that by (auto simp: tun_up_def made_def)
  show ?thesis
    unfolding configure_def
    apply (rule obeys_attempt[OF sock])
    apply (rule obeys_finally)
      apply (rule obeys_ret_then)
      subgoal for s q
        using configure_body_obeys[of name q addr pl mtu os s] by simp
     apply (simp_all add: tun_rule_def up)
    done
qed

lemma create_tun_obeys:
  "obeys (tun_rule name addr pl mtu) (\<lambda>_. True) (\<lambda>_ _. True) (create_tun os name)"
  unfolding create_tun_def
  by (rule obeys_then[where B = "\<lambda>_ _. True"];
      (rule obeys_or_close, rule obeys_ret_then, rule obeys_then[where B = "\<lambda>_ _. True"])?)
    (auto simp: tun_rule_def intro!: obeys_ret)

section \<open>Handles\<close>

lemma keeps_ioctl: "fds.keeps H (\<lambda>_. H) H (ioctl_ifreq os s n q op)"
  unfolding ioctl_ifreq_def by (rule keeps_then) (simp_all add: call_defs accounts_def)

lemma keeps_configure: "fds.keeps H (\<lambda>_. H) H (configure os name addr pl mtu)"
proof -
  have "fds.keeps H (\<lambda>d. add_mset d H) H (ioctl_socket os)"
    unfolding ioctl_socket_def by (rule keeps_call_fd) (simp_all add: call_defs)
  moreover have "fds.keeps (add_mset s H) (\<lambda>_. add_mset s H) (add_mset s H) (ret (Ok ()))" for s
    by (simp add: accounts_def)
  ultimately show ?thesis
    unfolding configure_def
    by (intro accounts_attempt[of _ _ H "\<lambda>d. add_mset d H"] fds.keeps_finally keeps_ret_then
        accounts_attempt[OF keeps_ioctl])
qed

lemma keeps_create_tun: "fds.keeps H (\<lambda>d. add_mset d H) H (create_tun os name)"
  unfolding create_tun_def
  by (intro accounts_attempt[OF keeps_opening(7)] keeps_owned keeps_ret_then)
    (auto intro!: keeps_then keeps_hand_over simp: call_defs)

section \<open>Creating a device\<close>

lemma tun_device_obeys:
  "obeys (tun_rule name addr pl mtu) (\<lambda>p. p = []) (\<lambda>dev p. tun_up name p \<and> tun_name dev = name)
     (tun_device_create os name addr pl mtu)"
proof -
  have "obeys (tun_rule name addr pl mtu) (\<lambda>p. p = []) (\<lambda>_ _. True) (create_tun os name)"
    using create_tun_obeys unfolding obeys_def by blast
  then show ?thesis
    unfolding tun_device_create_def
    by (rule obeys_attempt, intro obeys_or_close obeys_attempt[OF configure_obeys] obeys_ret)
      (auto simp: tun_rule_def)
qed

lemma tun_device_keeps:
  "fds.keeps {#} (\<lambda>dev. {#tun_fd dev#}) {#} (tun_device_create os name addr pl mtu)"
  unfolding tun_device_create_def
  by (intro accounts_attempt[OF keeps_create_tun] keeps_owned accounts_attempt[OF keeps_configure])
    (simp add: accounts_def)

text \<open>Creating a tunnel device, for every answer of the kernel.  The interface is brought up only
  after its address, the mask of the prefix length and its size were set on it, and with the
  flags the kernel reported kept; on success it is up.  The mask has the leading bits of the
  prefix length, at most 32.  Exactly the descriptor of the device stays open, none on an
  error.\<close>

theorem linux_tun_create_configures:
  "\<exists>t. snd (tun_device_create os name addr pl mtu h) = h @ t
    \<and> justified (tun_rule name addr pl mtu) t
    \<and> acquired opens_fd t = released closes_fd t
        + (case fst (tun_device_create os name addr pl mtu h) of Err _ \<Rightarrow> {#} | Ok dev \<Rightarrow> {#tun_fd dev#})
    \<and> (case fst (tun_device_create os name addr pl mtu h) of
          Err _ \<Rightarrow> True | Ok dev \<Rightarrow> tun_up name t \<and> tun_name dev = name)
    \<and> (\<forall>i. bit (netmask pl) i \<longleftrightarrow> (32 - min (unat pl) 32 \<le> i \<and> i < 32))"
proof -
  let ?m = "tun_device_create os name addr pl mtu"
  obtain t where t: "snd (?m h) = h @ t" "justified (tun_rule name addr pl mtu) t"
    "\<And>dev. fst (?m h) = Ok dev \<Longrightarrow> tun_up name t \<and> tun_name dev = name"
    using obeys_justified[OF tun_device_obeys, of os name addr pl mtu h] by force
  obtain u where "snd (?m h) = h @ u" "acquired opens_fd u = released closes_fd u
      + (case fst (?m h) of Err _ \<Rightarrow> {#} | Ok dev \<Rightarrow> {#tun_fd dev#})"
    using tun_device_keeps[of os name addr pl mtu] by (auto simp: accounts_def)
  then show ?thesis using t netmask_bits by (intro exI[of _ t]) (auto split: sum.split)
qed

end
