(* ===== verification/Linux_Identity.thy ===== *)
theory Linux_Identity
  imports Utf8
begin

text \<open>
  Names of users and groups, \<open>platform-linux/src/sys/identity.rs\<close>.  The account database of the C
  library is a parameter: \<open>getpwuid_r\<close> and \<open>getgrgid_r\<close> are functions of the number and the size of
  the buffer, with a return code and the name found, if any.
\<close>

type_synonym nss = "u32 \<Rightarrow> nat \<Rightarrow> i32 \<times> string option"

abbreviation ERANGE :: i32 where "ERANGE \<equiv> 34"

text \<open>The loop; the outer option is that it returns.\<close>

partial_function (option) growing_loop :: "(nat \<Rightarrow> i32 \<times> 'a option) \<Rightarrow> nat \<Rightarrow> 'a option option" where
  [code]: "growing_loop call cap =
    (case call cap of
       (rc, found) \<Rightarrow>
         if rc = 0 then Some found
         else if rc = ERANGE then
           (let cap = cap * 2 in if 2 ^ 20 < cap then Some None else growing_loop call cap)
         else Some None)"

definition with_growing_buffer :: "(nat \<Rightarrow> i32 \<times> 'a option) \<Rightarrow> 'a option option" where
  "with_growing_buffer call = growing_loop call 1024"

definition lookup_name :: "nss \<Rightarrow> u32 \<Rightarrow> nat \<Rightarrow> i32 \<times> string option" where
  "lookup_name get_r n cap =
    (case get_r n cap of
       (rc, result) \<Rightarrow>
         if rc \<noteq> 0 then (rc, None)
         else case result of None \<Rightarrow> (0, None) | Some name \<Rightarrow> (0, Some (to_string_lossy name)))"

definition user_name :: "nss \<Rightarrow> u32 \<Rightarrow> string option option" where
  "user_name getpwuid_r uid = with_growing_buffer (lookup_name getpwuid_r uid)"

definition group_name :: "nss \<Rightarrow> u32 \<Rightarrow> string option option" where
  "group_name getgrgid_r gid = with_growing_buffer (lookup_name getgrgid_r gid)"

section \<open>The loop returns\<close>

text \<open>From a buffer of \<open>2 ^ k\<close> bytes: the answer to the first size that is large enough for the
  database, among the sizes up to one mebibyte.\<close>

lemma growing_loop_eq:
  assumes "k \<le> 20"
  shows "growing_loop call (2 ^ k) =
    Some (case filter (\<lambda>j. fst (call (2 ^ j)) \<noteq> ERANGE) [k..<21] of
        [] \<Rightarrow> None
      | j # _ \<Rightarrow> (case call (2 ^ j) of (rc, found) \<Rightarrow> if rc = 0 then found else None))"
  using assms
proof (induction "20 - k" arbitrary: k)
  case 0
  then have "k = 20" by simp
  then show ?case
    by (subst growing_loop.simps) (auto simp: Let_def upt_rec split: prod.split)
next
  case (Suc n)
  have k: "[k..<21] = k # [Suc k..<21]" "\<not> (2 :: nat) ^ 20 < 2 ^ k * 2"
  proof -
    show "[k..<21] = k # [Suc k..<21]" using Suc.hyps(2) by (simp add: upt_conv_Cons)
    have "(2 :: nat) ^ k * 2 = 2 ^ Suc k" by simp
    also have "\<dots> \<le> 2 ^ 20" using Suc.hyps(2) by (intro power_increasing) simp_all
    finally show "\<not> (2 :: nat) ^ 20 < 2 ^ k * 2" by simp
  qed
  have "2 ^ k * 2 = (2 :: nat) ^ Suc k" by simp
  then show ?case
    using Suc.hyps(1)[of "Suc k"] Suc.hyps(2) k
    by (subst growing_loop.simps) (auto simp: Let_def split: prod.split simp del: power_Suc)
qed

text \<open>The lookup of a user name always returns: its answer is that of the
  first of the eleven buffer sizes, doubling from one kibibyte to one mebibyte, that the database does
  not find too small, and no name when every size is; a failing database gives no name.\<close>

theorem user_name_bounded:
  "user_name getpwuid_r uid =
    Some (case filter (\<lambda>j. fst (getpwuid_r uid (2 ^ j)) \<noteq> ERANGE) [10..<21] of
        [] \<Rightarrow> None
      | j # _ \<Rightarrow>
          (case getpwuid_r uid (2 ^ j) of
             (rc, found) \<Rightarrow> if rc = 0 then map_option to_string_lossy found else None))"
proof -
  have e: "fst (lookup_name getpwuid_r uid n) = fst (getpwuid_r uid n)" for n
    by (auto simp: lookup_name_def split: prod.split option.split)
  have v: "(case lookup_name getpwuid_r uid n of (rc, found) \<Rightarrow> if rc = 0 then found else None) =
      (case getpwuid_r uid n of (rc, found) \<Rightarrow> if rc = 0 then map_option to_string_lossy found else None)" for n
    by (auto simp: lookup_name_def split: prod.split option.split)
  show ?thesis
    using growing_loop_eq[of 10 "lookup_name getpwuid_r uid"]
    by (simp add: user_name_def with_growing_buffer_def e v cong: list.case_cong)
qed

end
