(* ===== verification/Wide.thy ===== *)
theory Wide
  imports Prelude
begin

text \<open>
  The UTF-16 boundary of the Windows backend, \<open>platform-windows/src/util/wide.rs\<close>.  An
  \<open>OsStr\<close> of Windows is text in WTF-8: UTF-8 in which a surrogate without its partner is coded
  like any other number below \<open>0x10000\<close>.  \<open>encode_wide\<close> and \<open>from_wide\<close> are the two conversions
  of the standard library.
\<close>

section \<open>WTF-8\<close>

definition nat_byte :: "nat \<Rightarrow> u8" where
  "nat_byte n = of_nat n"

definition wtf8_char :: "nat \<Rightarrow> bytes" where
  "wtf8_char c =
    (if c < 0x80 then [nat_byte c]
     else if c < 0x800 then [nat_byte (0xC0 + c div 64), nat_byte (0x80 + c mod 64)]
     else if c < 0x10000 then [nat_byte (0xE0 + c div 4096), nat_byte (0x80 + c div 64 mod 64), nat_byte (0x80 + c mod 64)]
     else [nat_byte (0xF0 + c div 262144), nat_byte (0x80 + c div 4096 mod 64), nat_byte (0x80 + c div 64 mod 64),
           nat_byte (0x80 + c mod 64)])"

fun wtf8_points :: "bytes \<Rightarrow> nat list" where
  "wtf8_points [] = []"
| "wtf8_points (a # as) =
    (if unat a < 0x80 then unat a # wtf8_points as
     else if unat a < 0xE0
     then (case as of b # bs \<Rightarrow> ((unat a - 0xC0) * 64 + (unat b - 0x80)) # wtf8_points bs | _ \<Rightarrow> [])
     else if unat a < 0xF0
     then (case as of b # c # cs \<Rightarrow>
             ((unat a - 0xE0) * 4096 + (unat b - 0x80) * 64 + (unat c - 0x80)) # wtf8_points cs | _ \<Rightarrow> [])
     else (case as of b # c # d # ds \<Rightarrow>
             ((unat a - 0xF0) * 262144 + (unat b - 0x80) * 4096 + (unat c - 0x80) * 64 + (unat d - 0x80))
             # wtf8_points ds | _ \<Rightarrow> []))"

text \<open>The code points with the property \<open>White_Space\<close>.\<close>

definition white_space :: "nat \<Rightarrow> bool" where
  "white_space c \<longleftrightarrow> 9 \<le> c \<and> c \<le> 13 \<or> 0x2000 \<le> c \<and> c \<le> 0x200A \<or>
     c \<in> {0x20, 0x85, 0xA0, 0x1680, 0x2028, 0x2029, 0x202F, 0x205F, 0x3000}"

section \<open>UTF-16\<close>

definition high_surrogate :: "u16 \<Rightarrow> bool" where
  "high_surrogate u \<longleftrightarrow> 0xD800 \<le> unat u \<and> unat u < 0xDC00"

definition low_surrogate :: "u16 \<Rightarrow> bool" where
  "low_surrogate u \<longleftrightarrow> 0xDC00 \<le> unat u \<and> unat u < 0xE000"

fun wide_points :: "u16 list \<Rightarrow> nat list" where
  "wide_points (u # v # us) =
    (if high_surrogate u \<and> low_surrogate v
     then (0x10000 + (unat u - 0xD800) * 1024 + (unat v - 0xDC00)) # wide_points us
     else unat u # wide_points (v # us))"
| "wide_points us = map unat us"

definition nat_unit :: "nat \<Rightarrow> u16" where
  "nat_unit n = of_nat n"

definition utf16_units :: "nat \<Rightarrow> u16 list" where
  "utf16_units c =
    (if c < 0x10000 then [nat_unit c]
     else [nat_unit (0xD800 + (c - 0x10000) div 1024), nat_unit (0xDC00 + (c - 0x10000) mod 1024)])"

section \<open>Conversions\<close>

definition encode_wide :: "string \<Rightarrow> u16 list" where
  "encode_wide s = concat (map utf16_units (wtf8_points (as_bytes s)))"

definition from_wide :: "u16 list \<Rightarrow> string" where
  "from_wide units = from_bytes (concat (map wtf8_char (wide_points units)))"

definition to_wide_nul :: "string \<Rightarrow> u16 list" where
  "to_wide_nul s = encode_wide s @ [0]"

definition to_wide_nt_component :: "string \<Rightarrow> u16 list" where
  "to_wide_nt_component s = map (\<lambda>u. if u = 47 then 92 else u) (encode_wide s)"

definition to_wide_raw :: "string \<Rightarrow> u16 list" where
  "to_wide_raw s = encode_wide s"

text \<open>The strings that are an \<open>OsStr\<close> of Windows.\<close>

definition is_wtf8 :: "string \<Rightarrow> bool" where
  "is_wtf8 s \<longleftrightarrow> from_wide (encode_wide s) = s"

section \<open>The conversions lose nothing\<close>

lemma unat_nat_byte [simp]: "n < 256 \<Longrightarrow> unat (nat_byte n) = n"
  by (simp add: nat_byte_def unat_of_nat_u8)

lemma nat_unit_unat [simp]: "nat_unit (unat u) = u"
  by (simp add: nat_unit_def)

lemma base64_digits:
  fixes c :: nat
  shows "c div 4096 * 4096 + c div 64 mod 64 * 64 + c mod 64 = c"
    "c div 262144 * 262144 + c div 4096 mod 64 * 4096 + c div 64 mod 64 * 64 + c mod 64 = c"
proof -
  have 1: "c div 64 * 64 + c mod 64 = c" by simp
  have 2: "c div 4096 * 64 + c div 64 mod 64 = c div 64"
    using div_mult_mod_eq[of "c div 64" 64] by (simp flip: div_mult2_eq)
  have 3: "c div 262144 * 64 + c div 4096 mod 64 = c div 4096"
    using div_mult_mod_eq[of "c div 4096" 64] by (simp flip: div_mult2_eq)
  show "c div 4096 * 4096 + c div 64 mod 64 * 64 + c mod 64 = c" using 1 2 by linarith
  show "c div 262144 * 262144 + c div 4096 mod 64 * 4096 + c div 64 mod 64 * 64 + c mod 64 = c"
    using 1 2 3 by linarith
qed

lemma wtf8_points_char:
  assumes "c < 0x110000"
  shows "wtf8_points (wtf8_char c @ bs) = c # wtf8_points bs"
proof -
  have small: "c div 64 mod 64 < 64" "c mod 64 < 64" "c div 4096 mod 64 < 64" by simp_all
  consider "c < 0x80" | "0x80 \<le> c" "c < 0x800" | "0x800 \<le> c" "c < 0x10000" | "0x10000 \<le> c" by linarith
  then show ?thesis
  proof cases
    case 1
    then show ?thesis by (simp add: wtf8_char_def)
  next
    case 2
    then have "c div 64 < 32" by linarith
    then show ?thesis using 2 by (simp add: wtf8_char_def)
  next
    case 3
    then have "c div 4096 < 16" by linarith
    then show ?thesis using 3 small base64_digits(1)[of c] by (simp add: wtf8_char_def)
  next
    case 4
    then have "c div 262144 < 5" using assms by linarith
    then show ?thesis using 4 small base64_digits(2)[of c] by (simp add: wtf8_char_def)
  qed
qed

lemma wtf8_points_concat:
  "\<forall>c \<in> set cs. c < 0x110000 \<Longrightarrow> wtf8_points (concat (map wtf8_char cs)) = cs"
  by (induction cs) (simp_all add: wtf8_points_char)

lemma unat_u16_less: "unat (u :: u16) < 65536"
  using unsigned_less[of u] by simp

lemma wide_points_bound: "c \<in> set (wide_points us) \<Longrightarrow> c < 0x110000"
proof (induction us rule: wide_points.induct)
  case (1 u v us)
  then show ?case
    using unat_u16_less[of u] unat_u16_less[of v]
    by (auto simp: high_surrogate_def low_surrogate_def split: if_splits)
qed (auto intro: less_trans[OF unat_u16_less])

lemma utf16_units_unat: "utf16_units (unat u) = [u]"
  using unat_u16_less[of u] by (simp add: utf16_units_def)

lemma utf16_units_pair:
  assumes "high_surrogate u" "low_surrogate v"
  shows "utf16_units (0x10000 + (unat u - 0xD800) * 1024 + (unat v - 0xDC00)) = [u, v]"
proof -
  obtain a b where ab: "unat u = 0xD800 + a" "unat v = 0xDC00 + b" "b < 1024"
    using assms le_Suc_ex[of "0xD800" "unat u"] le_Suc_ex[of "0xDC00" "unat v"]
    by (auto simp: high_surrogate_def low_surrogate_def)
  then have "u = nat_unit (0xD800 + a)" "v = nat_unit (0xDC00 + b)" by (metis nat_unit_unat)+
  then show ?thesis using ab by (simp add: utf16_units_def)
qed

lemma units_of_points: "concat (map utf16_units (wide_points us)) = us"
  by (induction us rule: wide_points.induct) (simp_all add: utf16_units_unat utf16_units_pair)

text \<open>Every sequence of units survives, surrogates without a partner included.\<close>

lemma encode_from_wide [simp]: "encode_wide (from_wide us) = us"
proof -
  have "\<forall>c \<in> set (wide_points us). c < 0x110000" by (simp add: wide_points_bound)
  then show ?thesis by (simp add: encode_wide_def from_wide_def wtf8_points_concat units_of_points)
qed

lemma is_wtf8_from_wide [simp]: "is_wtf8 (from_wide us)"
  by (simp add: is_wtf8_def)

lemma from_encode_wide: "is_wtf8 s \<Longrightarrow> from_wide (encode_wide s) = s"
  by (simp add: is_wtf8_def)

lemma encode_wide_inject: "is_wtf8 s \<Longrightarrow> is_wtf8 t \<Longrightarrow> encode_wide s = encode_wide t \<longleftrightarrow> s = t"
  by (metis from_encode_wide)

end
