(* ===== verification/Coreutils_Filter.thy ===== *)
theory Coreutils_Filter
  imports Coreutils_Text Wide
begin

text \<open>
  The filters of the coreutils crate: \<open>rwc\<close>, \<open>rtr\<close>, \<open>rgrep\<close> and \<open>rxargs\<close> (\<open>coreutils/src/bin\<close>), as runs
  in the sense of \<open>Coreutils_Text\<close>.  A character of a text is the bytes that code it.  The regular
  expressions of the \<open>rusty_regx\<close> crate, lower-casing, the two path translations of the \<open>rpath\<close> crate
  and the program that \<open>rxargs\<close> runs are parameters.
\<close>

section \<open>Characters\<close>

definition chars :: "string \<Rightarrow> bytes list" where
  "chars s = str_chars (as_bytes s)"

definition of_chars :: "bytes list \<Rightarrow> string" where
  "of_chars cs = from_bytes (concat cs)"

definition is_white :: "bytes \<Rightarrow> bool" where
  "is_white c = list_all white_space (wtf8_points c)"

fun split_white :: "bytes list \<Rightarrow> bytes list list" where
  "split_white [] = [[]]"
| "split_white (c # cs) =
    (if is_white c then [] # split_white cs
     else case split_white cs of w # ws \<Rightarrow> (c # w) # ws | [] \<Rightarrow> [[c]])"

definition split_whitespace :: "string \<Rightarrow> string list" where
  "split_whitespace s = map of_chars (filter (\<lambda>w. w \<noteq> []) (split_white (chars s)))"

definition trim_end :: "string \<Rightarrow> string" where
  "trim_end s = of_chars (rev (dropWhile is_white (rev (chars s))))"

definition flag :: "Env \<Rightarrow> string \<Rightarrow> bool" where
  "flag env a \<longleftrightarrow> a \<in> set (env_args env)"

definition usage :: "string \<Rightarrow> Outcome" where
  "usage s = \<lparr>out = [], err = println s, ending = ExitCode 1\<rparr>"

section \<open>rwc\<close>

record Counts =
  ct_lines :: nat
  ct_words :: nat
  ct_bytes :: nat

definition count_reader :: "stream \<Rightarrow> string + Counts" where
  "count_reader s =
    (case snd s of
       Some e \<Rightarrow> Inl e
     | None \<Rightarrow>
        (let buf = fst s; text = to_string_lossy buf
         in Inr \<lparr>ct_lines = length (raw_lines text), ct_words = length (split_whitespace text), ct_bytes = length buf\<rparr>))"

definition pad8 :: "nat \<Rightarrow> string" where
  "pad8 n = replicate (8 - length (dec_digits n)) (CHR '' '') @ dec_digits n"

definition print_counts :: "Counts \<Rightarrow> bool \<Rightarrow> bool \<Rightarrow> bool \<Rightarrow> string \<Rightarrow> string" where
  "print_counts c l w b name =
    println (trim_end ((if l then pad8 (ct_lines c) @ '' '' else []) @ (if w then pad8 (ct_words c) @ '' '' else [])
      @ (if b then pad8 (ct_bytes c) @ '' '' else []) @ name))"

definition add_counts :: "Counts \<Rightarrow> Counts \<Rightarrow> Counts" where
  "add_counts a b =
    \<lparr>ct_lines = ct_lines a + ct_lines b, ct_words = ct_words a + ct_words b, ct_bytes = ct_bytes a + ct_bytes b\<rparr>"

definition wc_flags :: "Env \<Rightarrow> bool \<times> bool \<times> bool" where
  "wc_flags env =
    (let l = flag env ''-l''; w = flag env ''-w''; c = flag env ''-c'' \<or> flag env ''-m''
     in if \<not> l \<and> \<not> w \<and> \<not> c then (True, True, True) else (l, w, c))"

text \<open>The loop over the files; \<open>fin\<close> prints the total at the end.\<close>

fun wc_files :: "Env \<Rightarrow> (Counts \<Rightarrow> string \<Rightarrow> string) \<Rightarrow> (Counts \<Rightarrow> string) \<Rightarrow> string list \<Rightarrow> Counts \<Rightarrow> Outcome" where
  "wc_files env pr fin [] total_c = finish (fin total_c) Success"
| "wc_files env pr fin (f # fs) total_c =
    (case env_open env (env_posix_to_win32 env f) of
       Inl e \<Rightarrow> printed [] (println (''rwc: '' @ f @ '': '' @ e)) (wc_files env pr fin fs total_c)
     | Inr s \<Rightarrow>
         (case count_reader s of
            Inl e \<Rightarrow> finish [] (Failed e)
          | Inr c \<Rightarrow> printed (pr c f) [] (wc_files env pr fin fs (add_counts total_c c))))"

definition no_counts :: Counts where
  "no_counts = \<lparr>ct_lines = 0, ct_words = 0, ct_bytes = 0\<rparr>"

definition rwc :: "Env \<Rightarrow> Outcome" where
  "rwc env =
    (case wc_flags env of (l, w, c) \<Rightarrow>
       (let files = operands env; pr = (\<lambda>n. print_counts n l w c)
        in if files = []
           then (case count_reader (env_stdin env) of
                   Inl e \<Rightarrow> finish [] (Failed e) | Inr n \<Rightarrow> finish (pr n '''') Success)
           else wc_files env pr (\<lambda>t. if 1 < length files then pr t ''total'' else '''') files no_counts))"

section \<open>rtr\<close>

text \<open>A later pair for the same character replaces an earlier one.\<close>

fun tr_map :: "bytes list \<Rightarrow> bytes list \<Rightarrow> nat \<Rightarrow> (bytes \<rightharpoonup> bytes) \<Rightarrow> bytes \<rightharpoonup> bytes" where
  "tr_map set2 [] idx m = m"
| "tr_map set2 (c # cs) idx m =
    tr_map set2 cs (Suc idx) (m(c \<mapsto> (if idx < length set2 then set2 ! idx else last set2)))"

fun tr_chars :: "bool \<Rightarrow> bytes list \<Rightarrow> (bytes \<rightharpoonup> bytes) \<Rightarrow> bytes list \<Rightarrow> bytes list" where
  "tr_chars del set1 m [] = []"
| "tr_chars del set1 m (c # cs) =
    (if del then (if c \<in> set set1 then tr_chars del set1 m cs else c # tr_chars del set1 m cs)
     else case m c of Some r \<Rightarrow> r # tr_chars del set1 m cs | None \<Rightarrow> c # tr_chars del set1 m cs)"

definition rtr :: "Env \<Rightarrow> Outcome" where
  "rtr env =
    (let del = flag env ''-d''; non_opts = operands env
     in if non_opts = [] then usage ''Usage: rtr [-d] SET1 [SET2]''
        else
          (let set1 = chars (non_opts ! 0); set2 = chars (if 1 < length non_opts then non_opts ! 1 else '''');
               m = (if \<not> del \<and> set2 \<noteq> [] then tr_map set2 set1 0 Map.empty else Map.empty)
           in case snd (env_stdin env) of
                Some e \<Rightarrow> finish [] (Failed e)
              | None \<Rightarrow> finish (of_chars (tr_chars del set1 m (chars (to_string_lossy (fst (env_stdin env)))))) Success))"

section \<open>rgrep\<close>

record GrepEnv = Env +
  env_is_dir :: "string \<Rightarrow> bool"
  env_read_dir :: "string \<Rightarrow> string + (string + string) list"
  env_win32_to_posix :: "string \<Rightarrow> string"
  env_regex :: "string \<Rightarrow> string + (string \<Rightarrow> bool)"
  env_lower :: "string \<Rightarrow> string"

fun search_reader ::
  "(string \<Rightarrow> bool) \<Rightarrow> bool \<Rightarrow> bool \<Rightarrow> string \<Rightarrow> bool \<Rightarrow> nat \<Rightarrow> (string + string) list \<Rightarrow> string \<times> string option" where
  "search_reader re invert line_nums filename print_name idx [] = ([], None)"
| "search_reader re invert line_nums filename print_name idx (Inl e # ls) = ([], Some e)"
| "search_reader re invert line_nums filename print_name idx (Inr l # ls) =
    (let (o1, e) = search_reader re invert line_nums filename print_name (Suc idx) ls;
         prefix = (if print_name then filename @ '':'' else []) @ (if line_nums then dec_digits (idx + 1) @ '':'' else [])
     in ((if (if invert then \<not> re l else re l) then println (prefix @ l) else []) @ o1, e))"

text \<open>What is left to visit: an entry or the error of reading it.  A directory is replaced by its entries.\<close>

partial_function (option) search_items ::
  "GrepEnv \<Rightarrow> (string \<Rightarrow> bool) \<Rightarrow> bool \<Rightarrow> bool \<Rightarrow> (string + string) list \<Rightarrow> string \<Rightarrow> (string \<times> string option) option" where
  [code]: "search_items env re invert line_nums todo acc =
    (if todo = [] then Some (acc, None)
     else case hd todo of
            Inl e \<Rightarrow> Some (acc, Some e)
          | Inr path \<Rightarrow>
              (if env_is_dir env path
               then (case env_read_dir env path of
                       Inl e \<Rightarrow> Some (acc, Some e)
                     | Inr entries \<Rightarrow> search_items env re invert line_nums (entries @ tl todo) acc)
               else (case env_open (Env.truncate env) path of
                       Inl e \<Rightarrow> search_items env re invert line_nums (tl todo) acc
                     | Inr s \<Rightarrow>
                         search_items env re invert line_nums (tl todo)
                           (acc @ fst (search_reader re invert line_nums
                              (env_win32_to_posix env (to_string_lossy path)) True 0 (lines s))))))"

definition search_dir :: "GrepEnv \<Rightarrow> (string \<Rightarrow> bool) \<Rightarrow> bool \<Rightarrow> bool \<Rightarrow> string \<Rightarrow> (string \<times> string option) option" where
  "search_dir env re invert line_nums dir =
    (if env_is_dir env dir
     then (case env_read_dir env dir of
             Inl e \<Rightarrow> Some ([], Some e)
           | Inr entries \<Rightarrow> search_items env re invert line_nums entries [])
     else Some ([], None))"

text \<open>What one file adds, before the rest of the run: the rest is not reached after an error.\<close>

definition and_then :: "string \<times> string option \<Rightarrow> Outcome option \<Rightarrow> Outcome option" where
  "and_then r rest =
    (case r of (o1, Some e) \<Rightarrow> Some (finish o1 (Failed e)) | (o1, None) \<Rightarrow> map_option (printed o1 []) rest)"

fun grep_files ::
  "GrepEnv \<Rightarrow> (string \<Rightarrow> bool) \<Rightarrow> bool \<Rightarrow> bool \<Rightarrow> bool \<Rightarrow> bool \<Rightarrow> string list \<Rightarrow> Outcome option" where
  "grep_files env re invert line_nums recursive print_name [] = Some (finish [] Success)"
| "grep_files env re invert line_nums recursive print_name (f # fs) =
    (let path = env_posix_to_win32 env f; rest = grep_files env re invert line_nums recursive print_name fs
     in if env_is_dir env path
        then (if recursive
              then Option.bind (search_dir env re invert line_nums path) (\<lambda>r. and_then r rest)
              else map_option (printed [] (println (''rgrep: '' @ f @ '': Is a directory''))) rest)
        else (case env_open env path of
                Inl e \<Rightarrow> map_option (printed [] (println (''rgrep: '' @ f @ '': '' @ e))) rest
              | Inr s \<Rightarrow> and_then (search_reader re invert line_nums f print_name 0 (lines s)) rest))"

text \<open>The message of a bad pattern is the text that the code builds from the crate's error.\<close>

definition rgrep :: "GrepEnv \<Rightarrow> Outcome option" where
  "rgrep env =
    (let e0 = Env.truncate env;
         ignore_case = flag e0 ''-i''; invert = flag e0 ''-v''; line_nums = flag e0 ''-n'';
         recursive = flag e0 ''-r'' \<or> flag e0 ''-R''; non_opts = operands e0
     in if non_opts = [] then Some (usage ''Usage: rgrep [-i] [-v] [-n] [-r] PATTERN [FILE...]'')
        else case env_regex env (if ignore_case then env_lower env (hd non_opts) else hd non_opts) of
               Inl e \<Rightarrow> Some (finish [] (Failed (''Invalid regex '' @ [CHR 0x27] @ hd non_opts @ [CHR 0x27] @ '': '' @ e)))
             | Inr re \<Rightarrow>
                 (let files = tl non_opts
                  in if recursive \<and> files = []
                     then Option.bind (search_dir env re invert line_nums ''.'') (\<lambda>r. and_then r (Some (finish [] Success)))
                     else if files = []
                     then and_then (search_reader re invert line_nums '''' False 0 (lines (env_stdin env))) (Some (finish [] Success))
                     else grep_files env re invert line_nums recursive (1 < length files \<or> recursive) files))"

section \<open>rxargs\<close>

text \<open>\<open>run\<close> is the program that is started: the error of starting it, or the code it ends with, if any.\<close>

definition rxargs :: "(string \<Rightarrow> string list \<Rightarrow> string + i32 option) \<Rightarrow> Env \<Rightarrow> (string \<times> string list) list \<times> Exit" where
  "rxargs run env =
    (let non_opts = operands env;
         cmd_name = (if non_opts = [] then ''echo'' else hd non_opts);
         base_args = (if non_opts = [] then [] else tl non_opts)
     in case collect_lines (lines (env_stdin env)) of
          Inl e \<Rightarrow> ([], Failed e)
        | Inr ls \<Rightarrow>
            (let items = concat (map split_whitespace ls)
             in if items = [] then ([], Success)
                else ([(cmd_name, base_args @ items)],
                  case run cmd_name (base_args @ items) of
                    Inl e \<Rightarrow> Failed e
                  | Inr code \<Rightarrow> (if code = Some 0 then Success else ExitCode (case code of None \<Rightarrow> 1 | Some c \<Rightarrow> c)))))"

section \<open>What the filters print\<close>

text \<open>The line count of \<open>rwc\<close> is the number of newlines, plus one for an unfinished last line.\<close>

lemma raw_lines_Nil_iff: "raw_lines s = [] \<longleftrightarrow> s = []"
  by (cases s) (auto split: list.split)

lemma length_raw_lines:
  "length (raw_lines s) = count_list s NL + (if s \<noteq> [] \<and> last s \<noteq> NL then 1 else 0)"
proof (induction s)
  case (Cons c cs)
  show ?case
  proof (cases "raw_lines cs")
    case Nil
    then have "cs = []" by (simp add: raw_lines_Nil_iff)
    then show ?thesis by simp
  next
    case (Cons l ls)
    then have "cs \<noteq> []" by (auto simp: raw_lines_Nil_iff)
    then show ?thesis using Cons Cons.IH by simp
  qed
qed simp

lemma rwc_counts:
  assumes "is_str text"
  shows "count_reader (text, None) = Inr \<lparr>ct_lines = count_list text NL + (if text \<noteq> [] \<and> last text \<noteq> NL then 1 else 0),
    ct_words = length (split_whitespace text), ct_bytes = length text\<rparr>"
  using assms by (simp add: count_reader_def to_string_lossy_str length_raw_lines)

text \<open>\<open>rtr\<close> deletes the characters of its set and keeps the rest in order, or maps each character on its own;
  the character is looked up at its last place in the set, and the second set is extended by its last
  character.\<close>

lemma tr_chars_delete: "tr_chars True set1 m cs = filter (\<lambda>c. c \<notin> set set1) cs"
  by (induction cs) auto

lemma tr_chars_map: "tr_chars False set1 m cs = map (\<lambda>c. case m c of Some r \<Rightarrow> r | None \<Rightarrow> c) cs"
  by (induction cs) (auto split: option.split)

definition tr_pick :: "bytes list \<Rightarrow> nat \<Rightarrow> bytes" where
  "tr_pick set2 i = (if i < length set2 then set2 ! i else last set2)"

lemma tr_map_spec:
  "c \<notin> set ds \<Longrightarrow> tr_map set2 (cs @ c # ds) idx m c = Some (tr_pick set2 (idx + length cs))"
  "c \<notin> set cs' \<Longrightarrow> tr_map set2 cs' idx m c = m c"
proof -
  show other: "c \<notin> set cs' \<Longrightarrow> tr_map set2 cs' idx m c = m c" for cs' idx m
    by (induction cs' arbitrary: idx m) auto
  show "c \<notin> set ds \<Longrightarrow> tr_map set2 (cs @ c # ds) idx m c = Some (tr_pick set2 (idx + length cs))"
    by (induction cs arbitrary: idx m) (simp_all add: other tr_pick_def)
qed

lemma rtr_translates:
  assumes "operands env = [a, b]" "\<not> flag env ''-d''" "chars b \<noteq> []" "env_stdin env = (text, None)"
  shows "out (rtr env) = of_chars (map (\<lambda>c. case tr_map (chars b) (chars a) 0 Map.empty c of Some r \<Rightarrow> r | None \<Rightarrow> c)
    (chars (to_string_lossy text)))"
  using assms by (simp add: rtr_def tr_chars_map finish_def)

text \<open>On readable lines \<open>rgrep\<close> prints exactly those that match, or with \<open>-v\<close> those that do not, in order.\<close>

lemma search_reader_lines:
  "search_reader re invert False name False idx (map Inr ls) = (concat (map println (filter (\<lambda>l. re l \<noteq> invert) ls)), None)"
  by (induction ls arbitrary: idx) auto

lemma rgrep_prints_matching:
  assumes "operands (Env.truncate env) = [p]" "env_args env = args" "''-i'' \<notin> set args" "''-n'' \<notin> set args"
    "''-r'' \<notin> set args" "''-R'' \<notin> set args" "env_regex env p = Inr re" "lines (env_stdin env) = map Inr ls"
  shows "rgrep env = Some (finish (concat (map println (filter (\<lambda>l. re l \<noteq> (''-v'' \<in> set args)) ls))) Success)"
proof -
  have "flag (Env.truncate env) a \<longleftrightarrow> a \<in> set args" for a
    using assms(2) by (simp add: flag_def Env.truncate_def)
  then show ?thesis
    using assms by (simp add: rgrep_def search_reader_lines and_then_def printed_def finish_def)
qed

text \<open>The walk of \<open>rgrep\<close> ends on every finite tree: every path has a weight that is at least that of what its
  directory lists.\<close>

definition walk_weight :: "(string \<Rightarrow> nat) \<Rightarrow> (string + string) list \<Rightarrow> nat" where
  "walk_weight w todo = sum_list (map (\<lambda>x. Suc (case x of Inl e \<Rightarrow> 0 | Inr p \<Rightarrow> w p)) todo)"

definition finite_tree :: "GrepEnv \<Rightarrow> (string \<Rightarrow> nat) \<Rightarrow> bool" where
  "finite_tree env w \<longleftrightarrow> (\<forall>p es. env_is_dir env p \<and> env_read_dir env p = Inr es \<longrightarrow> walk_weight w es \<le> w p)"

lemma search_items_returns:
  assumes "finite_tree env w"
  shows "\<exists>r. search_items env re invert line_nums todo acc = Some r"
proof (induction "walk_weight w todo" arbitrary: todo acc rule: less_induct)
  case less
  show ?case
  proof (cases todo)
    case Nil
    then show ?thesis by (subst search_items.simps) simp
  next
    case (Cons x xs)
    have rest: "\<exists>r. search_items env re invert line_nums xs a = Some r" for a
      using Cons by (intro less) (simp add: walk_weight_def)
    have listed: "\<exists>r. search_items env re invert line_nums (es @ xs) a = Some r"
      if "x = Inr p" "env_is_dir env p" "env_read_dir env p = Inr es" for p es a
    proof (intro less)
      have "walk_weight w es \<le> w p"
        using assms that by (simp add: finite_tree_def)
      then show "walk_weight w (es @ xs) < walk_weight w todo"
        using Cons that by (simp add: walk_weight_def)
    qed
    show ?thesis
      using Cons rest listed by (subst search_items.simps) (auto split: sum.split)
  qed
qed

lemma search_dir_returns: "finite_tree env w \<Longrightarrow> \<exists>r. search_dir env re invert line_nums dir = Some r"
  using search_items_returns by (auto simp: search_dir_def split: sum.split)

lemma and_then_returns: "\<exists>o2. and_then r (Some o1) = Some o2"
  by (auto simp: and_then_def split: prod.split option.split)

lemma grep_files_returns:
  assumes "finite_tree env w"
  shows "\<exists>o1. grep_files env re invert line_nums recursive print_name fs = Some o1"
proof (induction fs)
  case (Cons f fs)
  obtain r where "search_dir env re invert line_nums (env_posix_to_win32 env f) = Some r"
    using search_dir_returns [OF assms] by blast
  then show ?case
    using Cons by (auto simp: Let_def and_then_returns split: sum.split)
qed simp

lemma rgrep_returns:
  assumes "finite_tree env w"
  shows "\<exists>o1. rgrep env = Some o1"
proof -
  obtain f where dir: "\<And>re v n d. search_dir env re v n d = Some (f re v n d)"
    using search_dir_returns [OF assms] by metis
  show ?thesis
    using grep_files_returns [OF assms] by (simp add: rgrep_def Let_def dir and_then_returns split: sum.split)
qed

text \<open>With \<open>-i\<close> only the pattern is put into lower case, not the text: a line equal to the pattern is not
  found when it has a capital letter.\<close>

definition lower_ascii :: "string \<Rightarrow> string" where
  "lower_ascii = map (\<lambda>c. if CHR ''A'' \<le> c \<and> c \<le> CHR ''Z'' then char_of (of_char c + 32 :: nat) else c)"

definition shout_env :: GrepEnv where
  "shout_env =
    \<lparr>env_args = [''rgrep'', ''-i'', ''A''], env_stdin = (''A'', None), env_open = (\<lambda>_. Inl []), env_posix_to_win32 = id,
     env_is_dir = (\<lambda>_. False), env_read_dir = (\<lambda>_. Inl []), env_win32_to_posix = id,
     env_regex = (\<lambda>p. Inr (\<lambda>l. sublist p l)), env_lower = lower_ascii\<rparr>"

lemma rgrep_ignore_case_misses: "map_option out (rgrep shout_env) = Some []"
proof -
  have lower: "lower_ascii ''A'' = ''a''" by (simp add: lower_ascii_def) code_simp
  have ls: "lines (''A'', None) = [Inr ''A'']" by code_simp
  have miss: "\<not> sublist ''a'' ''A''" by code_simp
  show ?thesis
    by (simp add: rgrep_def shout_env_def Env.truncate_def flag_def operands_def starts_with_def lower ls miss
        and_then_def printed_def finish_def)
qed

text \<open>\<open>rxargs\<close> runs its command at most once, with all the words of its input in order.\<close>

lemma rxargs_runs_once:
  "fst (rxargs run env) = [] \<or>
   (\<exists>ls. collect_lines (lines (env_stdin env)) = Inr ls \<and>
     map snd (fst (rxargs run env)) = [drop 1 (operands env) @ concat (map split_whitespace ls)])"
  by (auto simp: rxargs_def Let_def drop_Suc split: sum.split)

end
