(* ===== verification/Coreutils_Process.thy ===== *)
theory Coreutils_Process
  imports Mock_Process Signals Coreutils_Cat Utf8 "HOL-Library.Multiset"
begin

text \<open>
  The tools over the process surface: \<open>rrun\<close>, \<open>rtee\<close> and \<open>rpar\<close> of \<open>coreutils/src/bin\<close>, with the
  ambient open of \<open>coreutils/src/lib.rs\<close>.  They are written against the traits, so the backend is
  a record of operations over a world \<open>'w\<close> with children \<open>'c\<close>, pipes \<open>'p\<close> and files \<open>'f\<close>.  A wait
  that never returns is the value \<open>None\<close>.  Standard output and error are what was printed,
  line by line.
\<close>

section \<open>The operations\<close>

record ('w, 'c, 'p, 'f, 'd) Backend =
  b_spawn :: "'f Command \<Rightarrow> 'w \<Rightarrow> 'c result \<times> 'w"
  b_wait :: "'c \<Rightarrow> 'w \<Rightarrow> (ExitStatus result \<times> 'w) option"
  b_wait_any :: "'c list \<Rightarrow> nat option \<Rightarrow> 'w \<Rightarrow> (nat option result \<times> 'c list \<times> 'w) option"
  b_kill_single :: "Signal \<Rightarrow> 'c \<Rightarrow> 'w \<Rightarrow> unit result \<times> 'w"
  b_take_stdout :: "'c \<Rightarrow> 'p option \<times> 'c"
  b_read :: "'w \<Rightarrow> 'p \<Rightarrow> nat \<Rightarrow> bytes result \<times> 'w"
  b_open_dir :: "string \<Rightarrow> 'w \<Rightarrow> 'd result \<times> 'w"
  b_open :: "'w \<Rightarrow> 'd \<Rightarrow> string \<Rightarrow> OpenOptions \<Rightarrow> 'f result \<times> 'w"
  b_write :: "'w \<Rightarrow> 'f \<Rightarrow> bytes \<Rightarrow> nat result \<times> 'w"
  b_stdout :: "bytes \<Rightarrow> 'w \<Rightarrow> bool \<times> 'w"
  b_install :: "SignalEvent list \<Rightarrow> 'w \<Rightarrow> unit result \<times> 'w"
  b_take :: "'w \<Rightarrow> SignalEvent option \<times> 'w"

text \<open>How a tool ends: with an exit code, or in a panic.\<close>

datatype Ended = Exited u8 | Panicked

abbreviation FAILURE :: Ended where "FAILURE \<equiv> Exited 1"
abbreviation SUCCESS :: Ended where "SUCCESS \<equiv> Exited 0"

definition exit_of :: "ExitStatus \<Rightarrow> Ended" where
  "exit_of st =
    (case st of
       Code c \<Rightarrow> Exited (ucast (c AND 0xFF))
     | Signaled s \<Rightarrow> Exited (ucast (128 + (s AND 0x7F)))
     | _ \<Rightarrow> Panicked)"

section \<open>rrun\<close>

definition wait_and_exit ::
  "string \<Rightarrow> ('c \<Rightarrow> 'w \<Rightarrow> (ExitStatus result \<times> 'w) option) \<Rightarrow> 'c \<Rightarrow> 'w \<Rightarrow>
   (string list \<times> Ended \<times> 'w) option" where
  "wait_and_exit tool wait ch w =
    (case wait ch w of
       None \<Rightarrow> None
     | Some (Ok st, w1) \<Rightarrow> Some ([], exit_of st, w1)
     | Some (Err e, w1) \<Rightarrow> Some ([tool @ '': '' @ display_error e], FAILURE, w1))"

definition rrun ::
  "('f Command \<Rightarrow> 'w \<Rightarrow> 'c result \<times> 'w) \<Rightarrow> ('c \<Rightarrow> 'w \<Rightarrow> (ExitStatus result \<times> 'w) option) \<Rightarrow>
   string list \<Rightarrow> string + string \<Rightarrow> 'w \<Rightarrow> (string list \<times> Ended \<times> 'w) option" where
  "rrun spawner wait args current_dir w =
    (case args of
       [] \<Rightarrow> Some ([''usage: rrun <program> [args...]''], Exited 2, w)
     | program # rest \<Rightarrow>
        (case current_dir of
           Inl e \<Rightarrow> Some ([''rrun: cannot determine cwd: '' @ e], FAILURE, w)
         | Inr cwd \<Rightarrow>
            (case spawner (command_args rest (command_new program cwd)) w of
               (Err e, w1) \<Rightarrow> Some ([''rrun: '' @ display_error e], Exited 127, w1)
             | (Ok ch, w1) \<Rightarrow> wait_and_exit ''rrun'' wait ch w1)))"

section \<open>Ambient files\<close>

text \<open>\<open>Path::parent\<close> and \<open>Path::file_name\<close>: trailing separators and dot components do not count.
  \<open>trim_rev\<close> works on the reversed path.\<close>

fun trim_rev :: "string \<Rightarrow> string" where
  "trim_rev (c # cs) =
    (if c = CHR ''/'' \<and> cs \<noteq> [] then trim_rev cs
     else if c = CHR ''.'' \<and> cs \<noteq> [] \<and> hd cs = CHR ''/'' then trim_rev cs
     else c # cs)"
| "trim_rev [] = []"

definition path_trim :: "string \<Rightarrow> string" where
  "path_trim p = rev (trim_rev (rev p))"

definition last_component :: "string \<Rightarrow> string" where
  "last_component s = rev (takeWhile (\<lambda>c. c \<noteq> CHR ''/'') (rev s))"

definition path_parent :: "string \<Rightarrow> string option" where
  "path_parent p =
    (let s = path_trim p
     in if s = [] \<or> s = ''/'' then None
        else Some (path_trim (take (length s - length (last_component s)) s)))"

definition path_file_name :: "string \<Rightarrow> string option" where
  "path_file_name p =
    (let s = path_trim p; c = last_component s
     in if s = [] \<or> s = ''/'' \<or> s = ''.'' \<or> c = ''..'' then None else Some c)"

definition open_ambient_file ::
  "('w, 'c, 'p, 'f, 'd) Backend \<Rightarrow> string \<Rightarrow> OpenOptions \<Rightarrow> 'w \<Rightarrow> 'f result \<times> 'w" where
  "open_ambient_file b path opts w =
    (let parent = (case path_parent path of Some d \<Rightarrow> if d = [] then ''.'' else d | None \<Rightarrow> ''.'')
     in case path_file_name path of
          None \<Rightarrow> (Err (with_path (new_error InvalidInput NoCode ''open_ambient_file: not a file path'') path), w)
        | Some name \<Rightarrow>
            (case b_open_dir b parent w of
               (Err e, w1) \<Rightarrow> (Err e, w1)
             | (Ok d, w1) \<Rightarrow> b_open b w1 d name opts))"

section \<open>rtee\<close>

text \<open>A write that reports more than it was given makes the slice panic.\<close>

partial_function (option) write_all ::
  "('w \<Rightarrow> 'f \<Rightarrow> bytes \<Rightarrow> nat result \<times> 'w) \<Rightarrow> 'f \<Rightarrow> bytes \<Rightarrow> 'w \<Rightarrow> (unit result run \<times> 'w) option" where
  [code]: "write_all wr f buf w =
    (if buf = [] then Some (Ret (Ok ()), w)
     else case wr w f buf of
            (Err e, w1) \<Rightarrow> Some (Ret (Err e), w1)
          | (Ok n, w1) \<Rightarrow>
              (if length buf < n then Some (run.Panic, w1) else write_all wr f (drop n buf) w1))"

definition tee_failed :: "unit result run \<Rightarrow> 'w \<Rightarrow> string list \<times> Ended option \<times> 'w" where
  "tee_failed r w =
    (case r of
       Ret (Err e) \<Rightarrow> ([''rtee: write: '' @ display_error e], Some FAILURE, w)
     | _ \<Rightarrow> ([], Some Panicked, w))"

text \<open>The copy loop; \<open>None\<close> in the middle is the \<open>break\<close>.\<close>

partial_function (option) tee_loop ::
  "('w, 'c, 'p, 'f, 'd) Backend \<Rightarrow> 'p \<Rightarrow> 'f \<Rightarrow> 'w \<Rightarrow> (string list \<times> Ended option \<times> 'w) option" where
  [code]: "tee_loop b pipe f w =
    (case b_read b w pipe 8192 of
       (Err e, w1) \<Rightarrow> Some ([''rtee: read: '' @ display_error e], Some FAILURE, w1)
     | (Ok bs, w1) \<Rightarrow>
         (if bs = [] then Some ([], None, w1)
          else case b_stdout b bs w1 of
                 (written, w2) \<Rightarrow>
                  (if \<not> written then Some ([], None, w2)
                   else case write_all (b_write b) f bs w2 of
                          None \<Rightarrow> None
                        | Some (r, w3) \<Rightarrow>
                            (if r = Ret (Ok ()) then tee_loop b pipe f w3 else Some (tee_failed r w3)))))"

definition tee_args :: "string list \<Rightarrow> (string \<times> string \<times> string list) option" where
  "tee_args args =
    (case args of f # d # program # rest \<Rightarrow> if d = ''--'' then Some (f, program, rest) else None | _ \<Rightarrow> None)"

definition rtee ::
  "('w, 'c, 'p, 'f, 'd) Backend \<Rightarrow> string list \<Rightarrow> string + string \<Rightarrow> 'w \<Rightarrow>
   (string list \<times> Ended \<times> 'w) option" where
  "rtee b args current_dir w =
    (case tee_args args of
       None \<Rightarrow> Some ([''usage: rtee <file> -- cmd [args...]''], Exited 2, w)
     | Some (file_arg, program, rest) \<Rightarrow>
        (case current_dir of
           Inl e \<Rightarrow> Some ([''rtee: cannot determine cwd: '' @ e], FAILURE, w)
         | Inr cwd \<Rightarrow>
            (case open_ambient_file b file_arg create_truncate w of
               (Err e, w1) \<Rightarrow> Some ([''rtee: '' @ display_error e], FAILURE, w1)
             | (Ok f, w1) \<Rightarrow>
                (case b_spawn b ((command_args rest (command_new program cwd))\<lparr>cmd_stdout := StdioPipe\<rparr>) w1 of
                   (Err e, w2) \<Rightarrow> Some ([''rtee: '' @ display_error e], Exited 127, w2)
                 | (Ok ch, w2) \<Rightarrow>
                    (case b_take_stdout b ch of
                       (None, _) \<Rightarrow> Some ([''rtee: child stdout was not piped''], FAILURE, w2)
                     | (Some pipe, ch1) \<Rightarrow>
                        (case tee_loop b pipe f w2 of
                           None \<Rightarrow> None
                         | Some (errs, Some e, w3) \<Rightarrow> Some (errs, e, w3)
                         | Some (errs, None, w3) \<Rightarrow> wait_and_exit ''rtee'' (b_wait b) ch1 w3))))))"

section \<open>rpar\<close>

text \<open>\<open>args.split(|a| a == "--")\<close> without the empty pieces.\<close>

fun split_dashes :: "string list \<Rightarrow> string list \<Rightarrow> string list list" where
  "split_dashes cur [] = [cur]"
| "split_dashes cur (a # as) = (if a = ''--'' then cur # split_dashes [] as else split_dashes (cur @ [a]) as)"

definition par_commands :: "string list \<Rightarrow> string list list" where
  "par_commands args = filter (\<lambda>c. c \<noteq> []) (split_dashes [] args)"

fun spawn_all ::
  "('w, 'c, 'p, 'f, 'd) Backend \<Rightarrow> string \<Rightarrow> string list list \<Rightarrow> 'w \<Rightarrow>
   'c list \<times> string list \<times> string list \<times> 'w" where
  "spawn_all b cwd [] w = ([], [], [], w)"
| "spawn_all b cwd (argv # rest) w =
    (case b_spawn b (command_args (tl argv) (command_new (hd argv) cwd)) w of
       (Ok c, w1) \<Rightarrow>
         (case spawn_all b cwd rest w1 of (cs, ls, errs, w2) \<Rightarrow>
            (c # cs, to_string_lossy (hd argv) # ls, errs, w2))
     | (Err e, w1) \<Rightarrow>
         (case spawn_all b cwd rest w1 of (cs, ls, errs, w2) \<Rightarrow>
            (cs, ls, (''rpar: '' @ display_error e) # errs, w2)))"

definition i32_str :: "i32 \<Rightarrow> string" where
  "i32_str x = (if sint x < 0 then ''-'' @ dec_digits (nat (- sint x)) else dec_digits (nat (sint x)))"

text \<open>What is printed for a child that ended, and whether it failed; \<open>None\<close> is the panic.\<close>

definition report_end :: "string \<Rightarrow> ExitStatus result \<Rightarrow> (string list \<times> string list \<times> bool) option" where
  "report_end label r =
    (case r of
       Err e \<Rightarrow> Some ([], [''rpar: '' @ label @ '': '' @ display_error e], True)
     | Ok st \<Rightarrow>
        (case st of
           Code c \<Rightarrow> Some ([''['' @ label @ ''] exited '' @ i32_str c], [], \<not> success st)
         | Signaled s \<Rightarrow> Some ([''['' @ label @ ''] killed by signal '' @ i32_str s], [], \<not> success st)
         | _ \<Rightarrow> None))"

definition swap_removed :: "'a list \<Rightarrow> nat \<Rightarrow> 'a list" where
  "swap_removed xs i = butlast (xs[i := last xs])"

fun kill_all :: "('w, 'c, 'p, 'f, 'd) Backend \<Rightarrow> 'c list \<Rightarrow> 'w \<Rightarrow> 'w" where
  "kill_all b [] w = w"
| "kill_all b (c # cs) w = kill_all b cs (snd (b_kill_single b SigKill c w))"

fun reap_all :: "('w, 'c, 'p, 'f, 'd) Backend \<Rightarrow> 'c list \<Rightarrow> 'w \<Rightarrow> 'w option" where
  "reap_all b [] w = Some w"
| "reap_all b (c # cs) w = (case b_wait b c w of None \<Rightarrow> None | Some (_, w1) \<Rightarrow> reap_all b cs w1)"

definition interrupted :: "nat \<Rightarrow> string" where
  "interrupted n = ''rpar: interrupted; stopping '' @ dec_digits n @ '' running command(s)''"

type_synonym printed = "string list \<times> string list"

partial_function (option) rpar_loop ::
  "('w, 'c, 'p, 'f, 'd) Backend \<Rightarrow> 'c list \<Rightarrow> string list \<Rightarrow> bool \<Rightarrow> printed \<Rightarrow> 'w \<Rightarrow>
   (printed \<times> Ended \<times> 'w) option" where
  [code]: "rpar_loop b children labels failed pr w =
    (if children = [] then Some (pr, (if failed then FAILURE else SUCCESS), w)
     else case b_take b w of
       (event, w1) \<Rightarrow>
         (case event of
            Some ev \<Rightarrow>
              (case reap_all b children (kill_all b children w1) of
                 None \<Rightarrow> None
               | Some w2 \<Rightarrow>
                   Some ((fst pr, snd pr @ [interrupted (length children)]),
                     Exited (if ev = Interrupt then 130 else 143), w2))
          | None \<Rightarrow>
              (case b_wait_any b children (Some 200000000) w1 of
                 None \<Rightarrow> None
               | Some (r, cs, w2) \<Rightarrow>
                   (case r of
                      Inl e \<Rightarrow> Some ((fst pr, snd pr @ [''rpar: '' @ display_error e]), FAILURE, w2)
                    | Inr hit \<Rightarrow>
                        (case hit of
                           None \<Rightarrow> rpar_loop b cs labels failed pr w2
                         | Some i \<Rightarrow>
                             (if length labels \<le> i \<or> length cs \<le> i then Some (pr, Panicked, w2)
                              else case b_wait b (cs ! i) w2 of
                                None \<Rightarrow> None
                              | Some (ended, w3) \<Rightarrow>
                                  (case report_end (labels ! i) ended of
                                     None \<Rightarrow> Some (pr, Panicked, w3)
                                   | Some (o1, e1, bad) \<Rightarrow>
                                       rpar_loop b (swap_removed cs i) (swap_removed labels i)
                                         (failed \<or> bad) (fst pr @ o1, snd pr @ e1) w3)))))))"

definition rpar ::
  "('w, 'c, 'p, 'f, 'd) Backend \<Rightarrow> string list \<Rightarrow> string + string \<Rightarrow> 'w \<Rightarrow>
   (printed \<times> Ended \<times> 'w) option" where
  "rpar b args current_dir w =
    (let commands = par_commands args
     in if commands = []
        then Some (([], [''usage: rpar cmd [args...] [-- cmd [args...]]...'']), Exited 2, w)
        else case current_dir of
          Inl e \<Rightarrow> Some (([], [''rpar: cannot determine cwd: '' @ e]), FAILURE, w)
        | Inr cwd \<Rightarrow>
           (case spawn_all b cwd commands w of
              (children, labels, errs, w1) \<Rightarrow>
                (case b_install b [Interrupt, Terminate] w1 of
                   (r, w2) \<Rightarrow>
                     rpar_loop b children labels (errs \<noteq> [])
                       ([], errs @ (case r of Err e \<Rightarrow> [''rpar: '' @ display_error e] | Ok _ \<Rightarrow> [])) w2)))"

section \<open>Copying while the child runs\<close>

text \<open>What \<open>rtee\<close> needs of its backend: the pipe is read to its end, standard output and the file
  take what they are given, the file perhaps in pieces.\<close>

locale tee_backend =
  fixes b :: "('w, 'c, 'p, 'f, 'd) Backend" and pipe :: 'p and f :: 'f
    and good :: "'w \<Rightarrow> bool" and unread shown stored :: "'w \<Rightarrow> bytes"
  assumes read_step: "good w \<Longrightarrow> \<exists>bs w'. b_read b w pipe 8192 = (Ok bs, w') \<and> good w'
      \<and> unread w = bs @ unread w' \<and> (bs = [] \<longrightarrow> unread w = []) \<and> shown w' = shown w \<and> stored w' = stored w"
    and show_step: "good w \<Longrightarrow> \<exists>w'. b_stdout b bs w = (True, w') \<and> good w'
      \<and> unread w' = unread w \<and> shown w' = shown w @ bs \<and> stored w' = stored w"
    and write_step: "good w \<Longrightarrow> bs \<noteq> [] \<Longrightarrow> \<exists>n w'. b_write b w f bs = (Ok n, w') \<and> good w'
      \<and> 0 < n \<and> n \<le> length bs
      \<and> unread w' = unread w \<and> shown w' = shown w \<and> stored w' = stored w @ take n bs"
begin

lemma write_all_stores:
  assumes "good w"
  shows "\<exists>w'. write_all (b_write b) f bs w = Some (Ret (Ok ()), w') \<and> good w'
    \<and> unread w' = unread w \<and> shown w' = shown w \<and> stored w' = stored w @ bs"
  using assms
proof (induction "length bs" arbitrary: bs w rule: less_induct)
  case less
  show ?case
  proof (cases "bs = []")
    case True
    then show ?thesis using less.prems by (subst write_all.simps) simp
  next
    case False
    obtain n w1 where w1: "b_write b w f bs = (Ok n, w1)" "good w1" "0 < n" "n \<le> length bs"
      "unread w1 = unread w" "shown w1 = shown w" "stored w1 = stored w @ take n bs"
      using write_step[OF less.prems False] by blast
    then obtain w2 where "write_all (b_write b) f (drop n bs) w1 = Some (Ret (Ok ()), w2)" "good w2"
      "unread w2 = unread w1" "shown w2 = shown w1" "stored w2 = stored w1 @ drop n bs"
      using less.hyps[of "drop n bs" w1] False by auto
    then show ?thesis using w1 False by (subst write_all.simps) simp
  qed
qed

lemma tee_copies:
  assumes "good w"
  shows "\<exists>w'. tee_loop b pipe f w = Some ([], None, w') \<and> good w' \<and> unread w' = []
    \<and> shown w' = shown w @ unread w \<and> stored w' = stored w @ unread w"
  using assms
proof (induction "length (unread w)" arbitrary: w rule: less_induct)
  case less
  obtain bs w1 where r: "b_read b w pipe 8192 = (Ok bs, w1)" "good w1" "unread w = bs @ unread w1"
    "bs = [] \<longrightarrow> unread w = []" "shown w1 = shown w" "stored w1 = stored w"
    using read_step[OF less.prems] by blast
  show ?case
  proof (cases "bs = []")
    case True
    then show ?thesis using r by (subst tee_loop.simps) auto
  next
    case False
    obtain w2 where s: "b_stdout b bs w1 = (True, w2)" "good w2" "unread w2 = unread w1"
      "shown w2 = shown w1 @ bs" "stored w2 = stored w1" using show_step[OF r(2)] by blast
    obtain w3 where t: "write_all (b_write b) f bs w2 = Some (Ret (Ok ()), w3)" "good w3"
      "unread w3 = unread w2" "shown w3 = shown w2" "stored w3 = stored w2 @ bs"
      using write_all_stores[OF s(2)] by blast
    obtain w4 where "tee_loop b pipe f w3 = Some ([], None, w4)" "good w4" "unread w4 = []"
      "shown w4 = shown w3 @ unread w3" "stored w4 = stored w3 @ unread w3"
      using less.hyps[of w3] t r False s by auto
    then show ?thesis using r s t False by (subst tee_loop.simps) simp
  qed
qed

end

section \<open>Running jobs\<close>

lemma length_swap_removed [simp]: "length (swap_removed xs i) = length xs - 1"
  by (simp add: swap_removed_def)

lemma mset_swap_removed:
  assumes "i < length xs"
  shows "mset xs = add_mset (xs ! i) (mset (swap_removed xs i))"
proof -
  let ?ys = "xs[i := last xs]"
  have ne: "xs \<noteq> []" "?ys \<noteq> []" using assms by auto
  have "last ?ys = last xs" using assms ne by (simp add: last_list_update last_conv_nth nth_list_update)
  then have "mset ?ys = add_mset (last xs) (mset (butlast ?ys))"
    using append_butlast_last_id[OF ne(2)] by (metis add_mset_add_single mset.simps mset_append)
  moreover have "mset ?ys = add_mset (last xs) (mset xs - {#xs ! i#})"
    using assms by (simp add: mset_update)
  ultimately have "mset (swap_removed xs i) = mset xs - {#xs ! i#}" by (simp add: swap_removed_def)
  then show ?thesis using assms by (simp add: nth_mem_mset)
qed

lemma zip_swap_removed:
  assumes "length xs = length ys" "i < length xs"
  shows "zip (swap_removed xs i) (swap_removed ys i) = swap_removed (zip xs ys) i"
proof -
  have "xs \<noteq> []" "ys \<noteq> []" using assms by auto
  then have "last (zip xs ys) = (last xs, last ys)" using assms(1) by (simp add: last_zip)
  then show ?thesis using assms
    by (simp add: swap_removed_def butlast_conv_take zip_update flip: take_zip)
qed

lemma map_swap_removed:
  assumes "i < length xs"
  shows "map g (swap_removed xs i) = swap_removed (map g xs) i"
proof -
  have "xs \<noteq> []" using assms by auto
  then show ?thesis by (simp add: swap_removed_def map_butlast map_update last_map)
qed

text \<open>The line for a job that ended with a final status.\<close>

definition end_line :: "string \<times> ExitStatus \<Rightarrow> string" where
  "end_line j =
    (case snd j of
       Code c \<Rightarrow> ''['' @ fst j @ ''] exited '' @ i32_str c
     | Signaled s \<Rightarrow> ''['' @ fst j @ ''] killed by signal '' @ i32_str s
     | _ \<Rightarrow> [])"

text \<open>What \<open>rpar\<close> needs of its backend while no signal is pending: every child has a final status
  that a wait returns, and \<open>wait_any\<close> names a child or lets some of a bounded idle time pass.\<close>

locale job_backend =
  fixes b :: "('w, 'c, 'p, 'f, 'd) Backend" and fate :: "'c \<Rightarrow> ExitStatus"
    and valid :: "'c \<Rightarrow> bool" and calm :: "'w \<Rightarrow> bool" and idle :: "'w \<Rightarrow> nat"
  assumes no_signal: "calm w \<Longrightarrow> \<exists>w'. b_take b w = (None, w') \<and> calm w' \<and> idle w' \<le> idle w"
    and fate_final: "valid c \<Longrightarrow> terminal (fate c)"
    and wait_fate: "calm w \<Longrightarrow> \<exists>w'. b_wait b c w = Some (Ok (fate c), w') \<and> calm w' \<and> idle w' \<le> idle w"
    and wait_any_hit: "calm w \<Longrightarrow> cs \<noteq> [] \<Longrightarrow>
      \<exists>r w'. b_wait_any b cs (Some 200000000) w = Some (Ok r, cs, w') \<and> calm w'
        \<and> (case r of Some i \<Rightarrow> i < length cs \<and> idle w' \<le> idle w | None \<Rightarrow> idle w' < idle w)"
begin

lemma report_end_fate:
  assumes "valid c"
  shows "report_end label (Ok (fate c)) = Some ([end_line (label, fate c)], [], \<not> success (fate c))"
  using fate_final[OF assms]
  by (auto simp: report_end_def end_line_def terminal_def split: ExitStatus.splits)

lemma rpar_loop_reports:
  assumes "calm w" "length labels = length cs" "\<forall>c \<in> set cs. valid c"
  shows "\<exists>lines w'. rpar_loop b cs labels failed pr w =
      Some ((fst pr @ lines, snd pr),
        (if failed \<or> (\<exists>c \<in> set cs. \<not> success (fate c)) then FAILURE else SUCCESS), w')
    \<and> calm w' \<and> mset lines = mset (map end_line (zip labels (map fate cs)))"
  using assms
proof (induction "(length cs, idle w)" arbitrary: cs labels failed pr w
    rule: wf_induct_rule[OF wf_lex_prod[OF wf_measure[of id] wf_measure[of id]]])
  case (1 cs w)
  note IH = "1.hyps"
  show ?case
  proof (cases "cs = []")
    case True
    then show ?thesis using "1.prems" by (subst rpar_loop.simps) (auto intro!: exI[of _ "[]"])
  next
    case False
    obtain w1 where w1: "b_take b w = (None, w1)" "calm w1" "idle w1 \<le> idle w"
      using no_signal[OF "1.prems"(1)] by blast
    obtain r w2 where w2: "b_wait_any b cs (Some 200000000) w1 = Some (Ok r, cs, w2)" "calm w2"
      "case r of Some i \<Rightarrow> i < length cs \<and> idle w2 \<le> idle w1 | None \<Rightarrow> idle w2 < idle w1"
      using wait_any_hit[OF w1(2) False] by blast
    show ?thesis
    proof (cases r)
      case None
      then have "((length cs, idle w2), (length cs, idle w)) \<in> measure id <*lex*> measure id"
        using w1 w2 by simp
      from IH[OF this w2(2) "1.prems"(2,3), of failed pr] show ?thesis
        using w1 w2 None False by (subst rpar_loop.simps) simp
    next
      case (Some i)
      then have i: "i < length cs" using w2 by simp
      obtain w3 where w3: "b_wait b (cs ! i) w2 = Some (Ok (fate (cs ! i)), w3)" "calm w3" "idle w3 \<le> idle w2"
        using wait_fate[OF w2(2)] by blast
      let ?cs = "swap_removed cs i" and ?ls = "swap_removed labels i"
      let ?pr = "(fst pr @ [end_line (labels ! i, fate (cs ! i))], snd pr)"
      let ?bad = "failed \<or> \<not> success (fate (cs ! i))"
      have less: "((length ?cs, idle w3), (length cs, idle w)) \<in> measure id <*lex*> measure id"
        using i by (cases cs) simp_all
      have len: "length ?ls = length ?cs" using "1.prems"(2) by simp
      have set_cs: "set cs = insert (cs ! i) (set ?cs)"
        using mset_swap_removed[OF i] by (metis set_mset_add_mset_insert set_mset_mset)
      then have valid: "\<forall>c \<in> set ?cs. valid c" "valid (cs ! i)" using "1.prems"(3) by auto
      obtain lines w4 where l: "rpar_loop b ?cs ?ls ?bad ?pr w3 = Some ((fst ?pr @ lines, snd ?pr),
          (if ?bad \<or> (\<exists>c \<in> set ?cs. \<not> success (fate c)) then FAILURE else SUCCESS), w4)"
        "calm w4" "mset lines = mset (map end_line (zip ?ls (map fate ?cs)))"
        using IH[OF less w3(2) len valid(1), of ?bad ?pr] by blast
      have zips: "mset (zip labels (map fate cs)) =
          add_mset (labels ! i, fate (cs ! i)) (mset (zip ?ls (map fate ?cs)))"
        using mset_swap_removed[of i "zip labels (map fate cs)"] i "1.prems"(2)
          zip_swap_removed[of labels "map fate cs" i] by (simp add: map_swap_removed)
      show ?thesis using w1 w2 w3 Some i l "1.prems"(2) False zips
        by (subst rpar_loop.simps, intro exI[of _ "end_line (labels ! i, fate (cs ! i)) # lines"] exI[of _ w4])
          (auto simp: report_end_fate[OF valid(2)] set_cs)
    qed
  qed
qed

end

section \<open>The tools on the in-memory backends\<close>

record MockWorld =
  mw_spawner :: MockSpawner
  mw_fs :: Store
  mw_root :: addr
  mw_pos :: nat
  mw_stdout :: bytes
  mw_slot :: u32

text \<open>The scripted spawner, the in-memory file system with its root as the current directory, the
  position of the one pipe that is read, and the slot of the scripted signal source.\<close>

definition mock_backend :: "(MockWorld, MockChild, MemPipe, MockFile, addr) Backend" where
  "mock_backend = \<lparr>
     b_spawn = (\<lambda>cmd w. case spawn cmd (mw_spawner w) of (r, ms) \<Rightarrow> (r, w\<lparr>mw_spawner := ms\<rparr>)),
     b_wait = (\<lambda>c w. Some (child_wait c, w)),
     b_wait_any = (\<lambda>cs timeout w.
       map_option (\<lambda>(r, w1). (r, cs, w1))
         (wait_any (\<lambda>i w. (fst (child_try_wait (cs ! i)), w)) (\<lambda>_. 0) (\<lambda>_ w. w) (length cs) timeout w)),
     b_kill_single = (\<lambda>sig c w. (child_kill_single sig c, w)),
     b_take_stdout = take_stdout,
     b_read = (\<lambda>w p cap. case pipe_read cap (p\<lparr>mp_pos := mw_pos w\<rparr>) of
         Ret (bs, p1) \<Rightarrow> (Ok bs, w\<lparr>mw_pos := mp_pos p1\<rparr>)
       | _ \<Rightarrow> (Err (new_error Other NoCode ''panic''), w)),
     b_open_dir = (\<lambda>path w. (if path = ''.'' then Ok (mw_root w) else Err (new_error NotFound NoCode ''open''), w)),
     b_open = (\<lambda>w d rel opts. case dir_open (mw_fs w) d rel opts of (r, st) \<Rightarrow> (r, w\<lparr>mw_fs := st\<rparr>)),
     b_write = (\<lambda>w f bs. case file_write (mw_fs w) f bs of (r, st) \<Rightarrow> (r, w\<lparr>mw_fs := st\<rparr>)),
     b_stdout = (\<lambda>bs w. (True, w\<lparr>mw_stdout := mw_stdout w @ bs\<rparr>)),
     b_install = (\<lambda>evs w. case mock_install (mw_slot w) evs of (r, sl) \<Rightarrow> (r, w\<lparr>mw_slot := sl\<rparr>)),
     b_take = (\<lambda>w. case mock_take (mw_slot w) of (e, sl) \<Rightarrow> (e, w\<lparr>mw_slot := sl\<rparr>))\<rparr>"

text \<open>The file \<open>f\<close> is the entry \<open>n\<close> of the directory \<open>d\<close>, open for writing, and the pipe is not
  read past its end.\<close>

definition stored_in :: "addr \<Rightarrow> string \<Rightarrow> MockWorld \<Rightarrow> bytes" where
  "stored_in d n w = (case dir_view d (mw_fs w) n of Some (FileN c) \<Rightarrow> c | _ \<Rightarrow> [])"

definition tee_ready :: "addr \<Rightarrow> string \<Rightarrow> MemPipe \<Rightarrow> MockFile \<Rightarrow> MockWorld \<Rightarrow> bool" where
  "tee_ready d n p f w \<longleftrightarrow> mw_pos w \<le> length (mp_data p) \<and> dir_inv d (mw_fs w)
    \<and> (\<exists>c. dir_handle d (mw_fs w) f n c \<and> dir_view d (mw_fs w) n = Some (FileN c))"

interpretation mock_tee: tee_backend mock_backend p f "tee_ready d n p f"
    "\<lambda>w. drop (mw_pos w) (mp_data p)" mw_stdout "stored_in d n" for d n p f
proof
  fix w :: MockWorld and bs
  assume r: "tee_ready d n p f w"
  let ?n = "min 8192 (length (mp_data p) - mw_pos w)"
  have "drop (mw_pos w) (mp_data p) = take ?n (drop (mw_pos w) (mp_data p)) @ drop (mw_pos w + ?n) (mp_data p)"
    using append_take_drop_id[of ?n "drop (mw_pos w) (mp_data p)"] by (simp add: add.commute)
  then show "\<exists>bs w'. b_read mock_backend w p 8192 = (Ok bs, w') \<and> tee_ready d n p f w'
      \<and> drop (mw_pos w) (mp_data p) = bs @ drop (mw_pos w') (mp_data p)
      \<and> (bs = [] \<longrightarrow> drop (mw_pos w) (mp_data p) = []) \<and> mw_stdout w' = mw_stdout w
      \<and> stored_in d n w' = stored_in d n w"
    using r by (auto simp: mock_backend_def pipe_read_def tee_ready_def stored_in_def Let_def min_def)
  show "\<exists>w'. b_stdout mock_backend bs w = (True, w') \<and> tee_ready d n p f w'
      \<and> drop (mw_pos w') (mp_data p) = drop (mw_pos w) (mp_data p) \<and> mw_stdout w' = mw_stdout w @ bs
      \<and> stored_in d n w' = stored_in d n w"
    using r by (simp add: mock_backend_def tee_ready_def stored_in_def)
next
  fix w :: MockWorld and bs :: bytes
  assume r: "tee_ready d n p f w" "bs \<noteq> []"
  then obtain c where c: "dir_handle d (mw_fs w) f n c" "dir_view d (mw_fs w) n = Some (FileN c)"
    by (auto simp: tee_ready_def)
  obtain st' where "file_write (mw_fs w) f bs = (Ok (length bs), st')" "dir_inv d st'"
    "dir_view d st' = (dir_view d (mw_fs w))(n \<mapsto> FileN (c @ bs))" "dir_handle d st' f n (c @ bs)"
    using mock_write_appends[OF _ c(1), of bs] r(1) by (auto simp: tee_ready_def)
  then show "\<exists>k w'. b_write mock_backend w f bs = (Ok k, w') \<and> tee_ready d n p f w' \<and> 0 < k \<and> k \<le> length bs
      \<and> drop (mw_pos w') (mp_data p) = drop (mw_pos w) (mp_data p) \<and> mw_stdout w' = mw_stdout w
      \<and> stored_in d n w' = stored_in d n w @ take k bs"
    using r c by (auto simp: mock_backend_def tee_ready_def stored_in_def)
qed

interpretation mock_jobs: job_backend mock_backend mc_status "\<lambda>c. terminal (mc_status c)"
    "\<lambda>w. mw_slot w = 0" "\<lambda>_. 0"
proof
  fix w :: MockWorld and c :: MockChild and cs :: "MockChild list"
  assume calm: "mw_slot w = 0"
  show "\<exists>w'. b_take mock_backend w = (None, w') \<and> mw_slot w' = 0 \<and> (0 :: nat) \<le> 0"
    using calm by (simp add: mock_backend_def mock_take_def event_of_0)
  show "\<exists>w'. b_wait mock_backend c w = Some (Ok (mc_status c), w') \<and> mw_slot w' = 0 \<and> (0 :: nat) \<le> 0"
    using calm by (simp add: mock_backend_def child_wait_def)
  assume "cs \<noteq> []"
  then obtain k where k: "length cs = Suc k" by (cases cs) simp_all
  have "wait_any (\<lambda>i w. (fst (child_try_wait (cs ! i)), w)) (\<lambda>_. 0) (\<lambda>_ w. w) (length cs) (Some 200000000) w
      = Some (Ok (Some 0), w)"
    unfolding wait_any_def k by (subst wait_loop.simps) (simp add: child_try_wait_def)
  then show "\<exists>r w'. b_wait_any mock_backend cs (Some 200000000) w = Some (Ok r, cs, w') \<and> mw_slot w' = 0
      \<and> (case r of Some i \<Rightarrow> i < length cs \<and> (0 :: nat) \<le> 0 | None \<Rightarrow> (0 :: nat) < 0)"
    using calm k by (auto simp: mock_backend_def)
qed simp

text \<open>The operations of the mock backend that a tool calls directly.\<close>

lemma mock_backend_ops:
  "b_spawn mock_backend cmd w = (case spawn cmd (mw_spawner w) of (r, ms) \<Rightarrow> (r, w\<lparr>mw_spawner := ms\<rparr>))"
  "b_take_stdout mock_backend = take_stdout"
  "b_wait mock_backend c w = Some (Ok (mc_status c), w)"
  "b_install mock_backend evs w = (case mock_install (mw_slot w) evs of (r, sl) \<Rightarrow> (r, w\<lparr>mw_slot := sl\<rparr>))"
  by (simp_all add: mock_backend_def child_wait_def)

lemma mock_open_create:
  assumes "dir_inv d st" "dir_view d st n = None"
  shows "\<exists>f st'. dir_open st d n create_truncate = (Ok f, st') \<and> dir_inv d st'
    \<and> dir_view d st' = (dir_view d st)(n \<mapsto> FileN []) \<and> dir_handle d st' f n []"
proof -
  have "dir_open st d n create_truncate = dir_open st d n tmp_options"
    using view_None_child[OF assms]
    by (cases "node_at st d") (simp_all add: dir_open_def create_truncate_def tmp_options_def default_open_options_def)
  then show ?thesis using mock_open_new[OF assms] by simp
qed



text \<open>The commands of \<open>rpar\<close> that the spawner knows, with the status each will have, and the error
  lines of the others.\<close>

definition scripted_jobs :: "MockSpawner \<Rightarrow> string list list \<Rightarrow> (string \<times> ExitStatus) list" where
  "scripted_jobs ms cmds =
    List.map_filter (\<lambda>argv. map_option (\<lambda>sc. (to_string_lossy (hd argv), sc_status sc)) (bt_get (ms_scripts ms) (hd argv))) cmds"

definition refused_jobs :: "MockSpawner \<Rightarrow> string list list \<Rightarrow> string list" where
  "refused_jobs ms cmds =
    map (\<lambda>argv. ''rpar: '' @ display_error (with_path (new_error NotFound NoCode ''spawn'') (hd argv)))
      (filter (\<lambda>argv. bt_get (ms_scripts ms) (hd argv) = None) cmds)"

lemma mock_spawn_all:
  "\<exists>cs ls ms. spawn_all mock_backend cwd cmds w = (cs, ls, refused_jobs (mw_spawner w) cmds, w\<lparr>mw_spawner := ms\<rparr>)
    \<and> length ls = length cs \<and> zip ls (map mc_status cs) = scripted_jobs (mw_spawner w) cmds"
proof (induction cmds arbitrary: w)
  case Nil
  show ?case by (auto simp: scripted_jobs_def refused_jobs_def map_filter_def intro: exI[of _ "mw_spawner w"])
next
  case (Cons argv rest)
  let ?cmd = "command_args (tl argv) (command_new (hd argv) cwd) :: MockFile Command"
  let ?ms = "(mw_spawner w)\<lparr>ms_spawned := ms_spawned (mw_spawner w) @ [spawn_record ?cmd]\<rparr>"
  have same: "scripted_jobs ?ms rest = scripted_jobs (mw_spawner w) rest"
    "refused_jobs ?ms rest = refused_jobs (mw_spawner w) rest"
    by (simp_all add: scripted_jobs_def refused_jobs_def)
  obtain cs ls ms where IH: "spawn_all mock_backend cwd rest (w\<lparr>mw_spawner := ?ms\<rparr>) =
      (cs, ls, refused_jobs (mw_spawner w) rest, w\<lparr>mw_spawner := ms\<rparr>)"
    "length ls = length cs" "zip ls (map mc_status cs) = scripted_jobs (mw_spawner w) rest"
    using Cons.IH[of "w\<lparr>mw_spawner := ?ms\<rparr>"] same by auto
  have calls: "\<not> cmd_detached ?cmd" "cmd_program ?cmd = hd argv" by (simp_all add: command_args_def command_new_def)
  show ?case
  proof (cases "bt_get (ms_scripts (mw_spawner w)) (hd argv)")
    case None
    then show ?thesis using IH calls
      by (auto simp: mock_backend_ops spawn_def scripted_jobs_def refused_jobs_def map_filter_def)
  next
    case (Some sc)
    then show ?thesis using IH calls
      by (auto simp: mock_backend_ops spawn_def scripted_jobs_def refused_jobs_def map_filter_def)
  qed
qed



end
