(* ===== verification/Coreutils_Files.thy ===== *)
theory Coreutils_Files
  imports Coreutils_Filter Coreutils_Process Linux_Process Os_Calls
begin

text \<open>
  The tools that change files through the standard library: \<open>rcp\<close>, \<open>rmv\<close>, \<open>rrm\<close>, \<open>rmkdir\<close>, \<open>rtouch\<close>, and the
  search \<open>rfind\<close> (\<open>coreutils/src/bin\<close>).  The first five are sequences of file-system calls in the
  sense of \<open>Os_Calls\<close>; a directory is read entry by entry, since the copy may change what is listed.
  Paths are those of Unix.  \<open>show\<close> is the text of an error.
\<close>

section \<open>File-system calls\<close>

datatype FsCall =
    Exists string | IsDir string | CreateDir string | CreateDirAll string | CopyFile string string
  | RenameFile string string | RemoveFile string | RemoveDirAll string | OpenTouch string
  | ReadDir string | NextEntry nat

datatype FsReply = Done | Answer bool | DirStream nat | Entry "string option"

type_synonym fs_calls = "(FsCall, FsReply) calls"
type_synonym fs_os = "(FsCall, FsReply) os"

text \<open>\<open>Path::exists\<close> and \<open>Path::is_dir\<close> are false when the question fails.\<close>

definition ask :: "fs_os \<Rightarrow> FsCall \<Rightarrow> fs_calls \<Rightarrow> bool \<times> fs_calls" where
  "ask os c h = (case invoke os c h of (a, h1) \<Rightarrow> (a = Inr (Answer True), h1))"

definition stream_of :: "FsReply \<Rightarrow> nat" where
  "stream_of r = (case r of DirStream n \<Rightarrow> n | _ \<Rightarrow> 0)"

definition entry_of :: "FsReply \<Rightarrow> string option" where
  "entry_of r = (case r of Entry e \<Rightarrow> e | _ \<Rightarrow> None)"

section \<open>The loop over the operands\<close>

text \<open>A step gives what it prints on standard error, or \<open>None\<close> when it panics; a step that never returns
  is the outer \<open>None\<close>.\<close>

type_synonym step = "string \<Rightarrow> fs_calls \<Rightarrow> (string option \<times> fs_calls) option"

definition complained :: "string \<Rightarrow> Exit \<Rightarrow> Outcome" where
  "complained e x = \<lparr>out = [], err = e, ending = x\<rparr>"

fun for_targets :: "step \<Rightarrow> string list \<Rightarrow> string \<Rightarrow> fs_calls \<Rightarrow> (Outcome \<times> fs_calls) option" where
  "for_targets st [] e h = Some (complained e Success, h)"
| "for_targets st (t # ts) e h =
    (case st t h of
       None \<Rightarrow> None
     | Some (None, h1) \<Rightarrow> Some (complained e Exit.Panic, h1)
     | Some (Some s, h1) \<Rightarrow> for_targets st ts (e @ s) h1)"

definition quoted :: "string \<Rightarrow> string" where
  "quoted s = [CHR 0x27] @ s @ [CHR 0x27]"

section \<open>rmkdir and rtouch\<close>

definition mkdir_one :: "fs_os \<Rightarrow> (i32 \<Rightarrow> string) \<Rightarrow> Env \<Rightarrow> step" where
  "mkdir_one os show env target h =
    (let path = env_posix_to_win32 env target
     in case invoke os (if flag env ''-p'' then CreateDirAll path else CreateDir path) h of
          (Inl e, h1) \<Rightarrow> Some (Some (println (''rmkdir: cannot create directory '' @ quoted target @ '': '' @ show e)), h1)
        | (Inr r, h1) \<Rightarrow> Some (Some [], h1))"

definition rmkdir :: "fs_os \<Rightarrow> (i32 \<Rightarrow> string) \<Rightarrow> Env \<Rightarrow> fs_calls \<Rightarrow> (Outcome \<times> fs_calls) option" where
  "rmkdir os show env h =
    (if operands env = [] then Some (usage ''Usage: rmkdir [-p] <directory...>'', h)
     else for_targets (mkdir_one os show env) (operands env) [] h)"

definition touch_one :: "fs_os \<Rightarrow> (i32 \<Rightarrow> string) \<Rightarrow> Env \<Rightarrow> step" where
  "touch_one os show env target h =
    (case invoke os (OpenTouch (env_posix_to_win32 env target)) h of
       (Inl e, h1) \<Rightarrow> Some (Some (println (''rtouch: cannot touch '' @ quoted target @ '': '' @ show e)), h1)
     | (Inr r, h1) \<Rightarrow> Some (Some [], h1))"

definition rtouch :: "fs_os \<Rightarrow> (i32 \<Rightarrow> string) \<Rightarrow> Env \<Rightarrow> fs_calls \<Rightarrow> (Outcome \<times> fs_calls) option" where
  "rtouch os show env h =
    (if operands env = [] then Some (usage ''Usage: rtouch <file...>'', h)
     else for_targets (touch_one os show env) (operands env) [] h)"

section \<open>rrm\<close>

definition rm_recursive :: "Env \<Rightarrow> bool" where
  "rm_recursive env \<longleftrightarrow> flag env ''-r'' \<or> flag env ''-R'' \<or> flag env ''-rf''"

definition rm_force :: "Env \<Rightarrow> bool" where
  "rm_force env \<longleftrightarrow> flag env ''-f'' \<or> flag env ''-rf''"

definition rm_one :: "fs_os \<Rightarrow> (i32 \<Rightarrow> string) \<Rightarrow> Env \<Rightarrow> step" where
  "rm_one os show env target h =
    (let path = env_posix_to_win32 env target; quiet = (\<lambda>s. if rm_force env then [] else println s)
     in case ask os (Exists path) h of
          (False, h1) \<Rightarrow> Some (Some (quiet (''rrm: cannot remove '' @ quoted target @ '': No such file or directory'')), h1)
        | (True, h1) \<Rightarrow>
           (case ask os (IsDir path) h1 of
              (True, h2) \<Rightarrow>
                (if \<not> rm_recursive env
                 then Some (Some (println (''rrm: cannot remove '' @ quoted target @ '': Is a directory'')), h2)
                 else case invoke os (RemoveDirAll path) h2 of
                        (Inl e, h3) \<Rightarrow> Some (Some (quiet (''rrm: cannot remove directory '' @ quoted target @ '': '' @ show e)), h3)
                      | (Inr r, h3) \<Rightarrow> Some (Some [], h3))
            | (False, h2) \<Rightarrow>
                (case invoke os (RemoveFile path) h2 of
                   (Inl e, h3) \<Rightarrow> Some (Some (quiet (''rrm: cannot remove file '' @ quoted target @ '': '' @ show e)), h3)
                 | (Inr r, h3) \<Rightarrow> Some (Some [], h3))))"

definition rrm :: "fs_os \<Rightarrow> (i32 \<Rightarrow> string) \<Rightarrow> Env \<Rightarrow> fs_calls \<Rightarrow> (Outcome \<times> fs_calls) option" where
  "rrm os show env h =
    (if operands env = []
     then Some (if rm_force env then complained [] Success else usage ''Usage: rrm [-r] [-f] <file/dir...>'', h)
     else for_targets (rm_one os show env) (operands env) [] h)"

section \<open>rmv\<close>

text \<open>Into a directory under the last name of the source; without a last name the code panics.\<close>

definition final_dst :: "fs_os \<Rightarrow> string \<Rightarrow> string \<Rightarrow> fs_calls \<Rightarrow> string option \<times> fs_calls" where
  "final_dst os dst src h =
    (case ask os (IsDir dst) h of
       (True, h1) \<Rightarrow> (map_option (path_join dst) (path_file_name src), h1)
     | (False, h1) \<Rightarrow> (Some dst, h1))"

definition mv_one :: "fs_os \<Rightarrow> (i32 \<Rightarrow> string) \<Rightarrow> Env \<Rightarrow> string \<Rightarrow> step" where
  "mv_one os show env dst src_str h =
    (let src = env_posix_to_win32 env src_str
     in case ask os (Exists src) h of
          (False, h1) \<Rightarrow> Some (Some (println (''rmv: cannot stat '' @ quoted src_str @ '': No such file or directory'')), h1)
        | (True, h1) \<Rightarrow>
           (case final_dst os dst src h1 of
              (None, h2) \<Rightarrow> Some (None, h2)
            | (Some d, h2) \<Rightarrow>
               (case invoke os (RenameFile src d) h2 of
                  (Inr r, h3) \<Rightarrow> Some (Some [], h3)
                | (Inl e, h3) \<Rightarrow>
                   (case invoke os (CopyFile src d) h3 of
                      (Inl e, h4) \<Rightarrow> Some (Some (println (''rmv: cannot move '' @ quoted src_str @ '' to '' @ quoted d @ '': '' @ show e)), h4)
                    | (Inr r, h4) \<Rightarrow> Some (Some [], snd (invoke os (RemoveFile src) h4))))))"

text \<open>Several sources need a directory as the target.\<close>

definition into_target ::
  "fs_os \<Rightarrow> string \<Rightarrow> Env \<Rightarrow> (string \<Rightarrow> step) \<Rightarrow> fs_calls \<Rightarrow> (Outcome \<times> fs_calls) option" where
  "into_target os tool env st h =
    (let dst_str = last (operands env); dst = env_posix_to_win32 env dst_str; srcs = butlast (operands env);
         refused = complained (println (tool @ '': target '' @ quoted dst_str @ '' is not a directory'')) (ExitCode 1)
     in if 1 < length srcs
        then (case ask os (IsDir dst) h of
                (False, h1) \<Rightarrow> Some (refused, h1) | (True, h1) \<Rightarrow> for_targets (st dst) srcs [] h1)
        else for_targets (st dst) srcs [] h)"

definition rmv :: "fs_os \<Rightarrow> (i32 \<Rightarrow> string) \<Rightarrow> Env \<Rightarrow> fs_calls \<Rightarrow> (Outcome \<times> fs_calls) option" where
  "rmv os show env h =
    (if length (operands env) < 2 then Some (usage ''Usage: rmv <source...> <destination>'', h)
     else into_target os ''rmv'' env (mv_one os show env) h)"

section \<open>rcp\<close>

text \<open>The calls of \<open>copy_recursive\<close> that are under way, innermost first: a path still to copy, or a directory
  being read.  Any error ends them all.\<close>

datatype Pending = CopyPath string string | Reading nat string string

definition copy_file :: "fs_os \<Rightarrow> string \<Rightarrow> string \<Rightarrow> fs_calls \<Rightarrow> (i32 + FsReply) \<times> fs_calls" where
  "copy_file os src dst h =
    (case path_parent dst of
       None \<Rightarrow> invoke os (CopyFile src dst) h
     | Some parent \<Rightarrow>
        (case invoke os (CreateDirAll parent) h of
           (Inl e, h1) \<Rightarrow> (Inl e, h1)
         | (Inr r, h1) \<Rightarrow> invoke os (CopyFile src dst) h1))"

definition open_tree :: "fs_os \<Rightarrow> string \<Rightarrow> string \<Rightarrow> fs_calls \<Rightarrow> (i32 + FsReply) \<times> fs_calls" where
  "open_tree os src dst h =
    (case invoke os (CreateDirAll dst) h of
       (Inl e, h1) \<Rightarrow> (Inl e, h1)
     | (Inr r, h1) \<Rightarrow> invoke os (ReadDir src) h1)"

definition copy_step :: "fs_os \<Rightarrow> Pending \<Rightarrow> Pending list \<Rightarrow> fs_calls \<Rightarrow> (i32 + Pending list) \<times> fs_calls" where
  "copy_step os p rest h =
    (case p of
       CopyPath src dst \<Rightarrow>
        (case ask os (IsDir src) h of
           (True, h1) \<Rightarrow>
             (case open_tree os src dst h1 of
                (Inl e, h2) \<Rightarrow> (Inl e, h2)
              | (Inr r, h2) \<Rightarrow> (Inr (Reading (stream_of r) src dst # rest), h2))
         | (False, h1) \<Rightarrow>
             (case copy_file os src dst h1 of
                (Inl e, h2) \<Rightarrow> (Inl e, h2)
              | (Inr r, h2) \<Rightarrow> (Inr rest, h2)))
     | Reading n src dst \<Rightarrow>
        (case invoke os (NextEntry n) h of
           (Inl e, h1) \<Rightarrow> (Inl e, h1)
         | (Inr r, h1) \<Rightarrow>
             (case entry_of r of
                None \<Rightarrow> (Inr rest, h1)
              | Some name \<Rightarrow> (Inr (CopyPath (path_join src name) (path_join dst name) # p # rest), h1))))"

partial_function (option) copy_loop :: "fs_os \<Rightarrow> Pending list \<Rightarrow> fs_calls \<Rightarrow> (i32 option \<times> fs_calls) option" where
  [code]: "copy_loop os todo h =
    (if todo = [] then Some (None, h)
     else case copy_step os (hd todo) (tl todo) h of
            (r, h1) \<Rightarrow> (case r of Inl e \<Rightarrow> Some (Some e, h1) | Inr todo' \<Rightarrow> copy_loop os todo' h1))"

definition copy_recursive :: "fs_os \<Rightarrow> string \<Rightarrow> string \<Rightarrow> fs_calls \<Rightarrow> (i32 option \<times> fs_calls) option" where
  "copy_recursive os src dst = copy_loop os [CopyPath src dst]"

definition cp_recursive :: "Env \<Rightarrow> bool" where
  "cp_recursive env \<longleftrightarrow> flag env ''-r'' \<or> flag env ''-R''"

definition cp_one :: "fs_os \<Rightarrow> (i32 \<Rightarrow> string) \<Rightarrow> Env \<Rightarrow> string \<Rightarrow> step" where
  "cp_one os show env dst src_str h =
    (let src = env_posix_to_win32 env src_str
     in case ask os (Exists src) h of
          (False, h1) \<Rightarrow> Some (Some (println (''rcp: cannot stat '' @ quoted src_str @ '': No such file or directory'')), h1)
        | (True, h1) \<Rightarrow>
           (case final_dst os dst src h1 of
              (None, h2) \<Rightarrow> Some (None, h2)
            | (Some d, h2) \<Rightarrow>
               (case ask os (IsDir src) h2 of (b, h3) \<Rightarrow>
                  if b \<and> \<not> cp_recursive env
                  then Some (Some (println (''rcp: -r not specified; omitting directory '' @ quoted src_str)), h3)
                  else map_option (\<lambda>(r, h4).
                    (Some (case r of
                       None \<Rightarrow> []
                     | Some e \<Rightarrow> println (''rcp: error copying '' @ quoted src_str @ '' to '' @ quoted d @ '': '' @ show e)), h4))
                    (copy_recursive os src d h3))))"

definition rcp :: "fs_os \<Rightarrow> (i32 \<Rightarrow> string) \<Rightarrow> Env \<Rightarrow> fs_calls \<Rightarrow> (Outcome \<times> fs_calls) option" where
  "rcp os show env h =
    (if length (env_args env) < 3 then Some (usage ''Usage: rcp [-r] <source...> <destination>'', h)
     else if length (operands env) < 2 then Some (usage ''rcp: missing destination file operand'', h)
     else into_target os ''rcp'' env (cp_one os show env) h)"

section \<open>rfind\<close>

record FindEnv = GrepEnv +
  env_exists :: "string \<Rightarrow> bool"

record FindArgs =
  fa_path :: string
  fa_name :: "string option"
  fa_type :: "bytes option"

text \<open>\<open>first\<close> holds at the argument with index 1.\<close>

function find_args :: "bool \<Rightarrow> string list \<Rightarrow> FindArgs \<Rightarrow> FindArgs" where
  "find_args first args a =
    (case args of
       [] \<Rightarrow> a
     | x # rest \<Rightarrow>
        (if x = ''-name'' \<and> rest \<noteq> [] then find_args False (tl rest) (a\<lparr>fa_name := Some (hd rest)\<rparr>)
         else if x = ''-type'' \<and> rest \<noteq> []
         then find_args False (tl rest) (a\<lparr>fa_type := (case chars (hd rest) of [] \<Rightarrow> None | c # cs \<Rightarrow> Some c)\<rparr>)
         else if \<not> starts_with ''-'' x \<and> first then find_args False rest (a\<lparr>fa_path := x\<rparr>)
         else find_args False rest a))"
  by pat_completeness auto
termination by (relation "measure (\<lambda>(first, args, a). length args)") (auto simp: less_Suc_eq_le)

declare find_args.simps [simp del]

definition name_pattern :: "string \<Rightarrow> string" where
  "name_pattern p =
    (let escaped = concat (map (\<lambda>c. if c = CHR ''.'' then [CHR 0x5C, CHR ''.''] else [c]) p)
     in ''^'' @ concat (map (\<lambda>c. if c = CHR ''*'' then ''.*'' else [c]) escaped) @ ''$'')"

definition matches_type :: "bytes option \<Rightarrow> bool \<Rightarrow> bool" where
  "matches_type tf is_dir =
    (if tf = Some (as_bytes ''d'') then is_dir else if tf = Some (as_bytes ''f'') then \<not> is_dir else True)"

definition matches_name :: "(string \<Rightarrow> bool) option \<Rightarrow> string \<Rightarrow> bool" where
  "matches_name re path = (case re of Some m \<Rightarrow> m (to_string_lossy (last_component path)) | None \<Rightarrow> True)"

definition find_line :: "FindEnv \<Rightarrow> (string \<Rightarrow> bool) option \<Rightarrow> bytes option \<Rightarrow> string \<Rightarrow> string" where
  "find_line env re tf path =
    (if matches_type tf (env_is_dir env path) \<and> matches_name re path
     then println (env_win32_to_posix env (to_string_lossy path)) else [])"

text \<open>The directories being walked, innermost first, each with what is left of it.  An error inside a nested
  walk ends that walk only.\<close>

fun find_step ::
  "FindEnv \<Rightarrow> (string + string) list \<Rightarrow> (string + string) list list \<Rightarrow> string + (string + string) list list" where
  "find_step env [] fs = Inr fs"
| "find_step env (Inl e # es) fs = (if fs = [] then Inl e else Inr fs)"
| "find_step env (Inr path # es) fs =
    (if env_is_dir env path \<and> env_exists env path
     then (case env_read_dir env path of Inl e \<Rightarrow> Inr (es # fs) | Inr ds \<Rightarrow> Inr (ds # es # fs))
     else Inr (es # fs))"

definition step_line :: "FindEnv \<Rightarrow> (string \<Rightarrow> bool) option \<Rightarrow> bytes option \<Rightarrow> (string + string) list \<Rightarrow> string" where
  "step_line env re tf es = (case es of Inr path # _ \<Rightarrow> find_line env re tf path | _ \<Rightarrow> [])"

partial_function (option) find_loop ::
  "FindEnv \<Rightarrow> (string \<Rightarrow> bool) option \<Rightarrow> bytes option \<Rightarrow> (string + string) list list \<Rightarrow> string \<Rightarrow>
   (string \<times> string option) option" where
  [code]: "find_loop env re tf frames acc =
    (if frames = [] then Some (acc, None)
     else case find_step env (hd frames) (tl frames) of
            Inl e \<Rightarrow> Some (acc, Some e)
          | Inr frames' \<Rightarrow> find_loop env re tf frames' (acc @ step_line env re tf (hd frames)))"

definition walk_dir ::
  "FindEnv \<Rightarrow> (string \<Rightarrow> bool) option \<Rightarrow> bytes option \<Rightarrow> string \<Rightarrow> (string \<times> string option) option" where
  "walk_dir env re tf dir =
    (if \<not> env_exists env dir then Some ([], None)
     else case env_read_dir env dir of
            Inl e \<Rightarrow> Some ([], Some e)
          | Inr es \<Rightarrow> find_loop env re tf [es] [])"

definition rfind :: "FindEnv \<Rightarrow> Outcome option" where
  "rfind env =
    (let a = find_args True (tl (env_args env)) \<lparr>fa_path = ''.'', fa_name = None, fa_type = None\<rparr>;
         root = env_posix_to_win32 env (fa_path a); is_dir = env_is_dir env root;
         o1 = (if matches_type (fa_type a) is_dir then println (env_win32_to_posix env (to_string_lossy root)) else []);
         go = (\<lambda>re. if is_dir
                then Option.bind (walk_dir env re (fa_type a) root)
                       (\<lambda>(o2, e). Some (finish (o1 @ o2) (case e of None \<Rightarrow> Success | Some e \<Rightarrow> Failed e)))
                else Some (finish o1 Success))
     in case fa_name a of
          None \<Rightarrow> go None
        | Some p \<Rightarrow> (case env_regex env (name_pattern p) of Inl e \<Rightarrow> Some (finish [] (Failed e)) | Inr m \<Rightarrow> go (Some m)))"

section \<open>What rfind prints\<close>

text \<open>A tree that the environment shows at a path, and its entries in the order of the walk.\<close>

datatype Tree = Leaf | Branch "(string \<times> Tree) list"

fun shows_tree :: "FindEnv \<Rightarrow> string \<Rightarrow> Tree \<Rightarrow> bool" where
  "shows_tree env p Leaf = (\<not> env_is_dir env p)"
| "shows_tree env p (Branch cs) =
    (env_is_dir env p \<and> env_exists env p \<and> env_read_dir env p = Inr (map (\<lambda>(q, t). Inr q) cs) \<and>
     (\<forall>(q, t) \<in> set cs. shows_tree env q t))"

fun below :: "Tree \<Rightarrow> string list" where
  "below Leaf = []"
| "below (Branch cs) = concat (map (\<lambda>(q, t). q # below t) cs)"

fun tree_nodes :: "Tree \<Rightarrow> nat" where
  "tree_nodes Leaf = 1"
| "tree_nodes (Branch cs) = Suc (sum_list (map (\<lambda>(q, t). tree_nodes t) cs))"

lemma find_loop_end [simp]: "find_loop env re tf [] acc = Some (acc, None)"
  by (subst find_loop.simps) simp

lemma find_loop_pop [simp]: "find_loop env re tf ([] # fs) acc = find_loop env re tf fs acc"
  by (subst find_loop.simps) (simp add: step_line_def)

lemma find_loop_Cons:
  "find_loop env re tf ((Inr p # es) # fs) acc =
    (if env_is_dir env p \<and> env_exists env p
     then (case env_read_dir env p of
             Inl e \<Rightarrow> find_loop env re tf (es # fs) (acc @ find_line env re tf p)
           | Inr ds \<Rightarrow> find_loop env re tf (ds # es # fs) (acc @ find_line env re tf p))
     else find_loop env re tf (es # fs) (acc @ find_line env re tf p))"
  by (subst find_loop.simps) (simp add: step_line_def split: sum.split)

lemma find_loop_tree:
  assumes "\<forall>(q, t) \<in> set cs. shows_tree env q t"
  shows "find_loop env re tf ((map (\<lambda>(q, t). Inr q) cs @ es) # fs) acc =
    find_loop env re tf (es # fs) (acc @ concat (map (find_line env re tf) (below (Branch cs))))"
  using assms
proof (induction "sum_list (map (\<lambda>(q, t). tree_nodes t) cs)" arbitrary: cs es fs acc rule: less_induct)
  case less
  show ?case
  proof (cases cs)
    case (Cons c ds)
    obtain q t where c: "c = (q, t)" by force
    have pos: "0 < tree_nodes t" by (cases t) simp_all
    have rest: "find_loop env re tf ((map (\<lambda>(q, t). Inr q) ds @ es) # fs) a =
        find_loop env re tf (es # fs) (a @ concat (map (find_line env re tf) (below (Branch ds))))" for a
      using less.prems Cons c pos by (intro less.hyps) simp_all
    show ?thesis
    proof (cases t)
      case Leaf
      then show ?thesis using less.prems Cons c rest by (simp add: find_loop_Cons)
    next
      case (Branch bs)
      have "find_loop env re tf ((map (\<lambda>(q, t). Inr q) bs @ []) # gs) a =
          find_loop env re tf ([] # gs) (a @ concat (map (find_line env re tf) (below (Branch bs))))" for gs a
        using less.prems Cons c Branch by (intro less.hyps) simp_all
      then show ?thesis using less.prems Cons c Branch rest by (simp add: find_loop_Cons)
    qed
  qed simp
qed

text \<open>On a readable tree \<open>walk_dir\<close> returns and prints every entry below the directory that passes the
  filters, once for each time it is listed, a directory before what it holds.\<close>

lemma walk_dir_lists:
  assumes "shows_tree env dir (Branch cs)"
  shows "walk_dir env re tf dir = Some (concat (map (find_line env re tf) (below (Branch cs))), None)"
proof -
  have "find_loop env re tf [map (\<lambda>(q, t). Inr q) cs] [] =
      Some (concat (map (find_line env re tf) (below (Branch cs))), None)"
    using find_loop_tree [of cs env re tf "[]" "[]" "[]"] assms by simp
  then show ?thesis using assms by (simp add: walk_dir_def)
qed

text \<open>\<open>rfind\<close> without a name prints the starting directory and then everything below it.\<close>

lemma rfind_lists:
  assumes "env_args env = [tool, p]" "\<not> starts_with ''-'' p" "shows_tree env (env_posix_to_win32 env p) (Branch cs)"
  shows "rfind env = Some (finish (concat (map (\<lambda>q. println (env_win32_to_posix env (to_string_lossy q)))
    (env_posix_to_win32 env p # below (Branch cs)))) Success)"
proof -
  have line: "find_line env None None = (\<lambda>q. println (env_win32_to_posix env (to_string_lossy q)))"
    by (simp add: fun_eq_iff find_line_def matches_type_def matches_name_def)
  have "p \<noteq> ''-name'' \<and> p \<noteq> ''-type''"
    using assms(2) by (auto simp: starts_with_def)
  then have "find_args True [p] \<lparr>fa_path = ''.'', fa_name = None, fa_type = None\<rparr> = \<lparr>fa_path = p, fa_name = None, fa_type = None\<rparr>"
    using assms(2) by (simp add: find_args.simps)
  then show ?thesis
    using assms walk_dir_lists [OF assms(3), of None None]
    by (simp add: rfind_def Let_def matches_type_def line)
qed

section \<open>What the tools may do to the files\<close>

text \<open>Each call of a run that returns is warranted by the calls of the run before it.\<close>

definition warranted :: "(fs_calls \<Rightarrow> FsCall \<Rightarrow> bool) \<Rightarrow> fs_calls \<Rightarrow> fs_calls \<Rightarrow> bool" where
  "warranted J h h' \<longleftrightarrow> (\<exists>t. h' = h @ t \<and> justified J t)"

definition safe_step :: "(fs_calls \<Rightarrow> FsCall \<Rightarrow> bool) \<Rightarrow> step \<Rightarrow> bool" where
  "safe_step J st \<longleftrightarrow> (\<forall>t h r h'. st t h = Some (r, h') \<longrightarrow> warranted J h h')"

lemma warranted_refl [simp]: "warranted J h h"
  by (auto simp: warranted_def)

lemma warranted_trans: "prefix_mono J \<Longrightarrow> warranted J h h1 \<Longrightarrow> warranted J h1 h2 \<Longrightarrow> warranted J h h2"
  by (auto simp: warranted_def justified_append)

lemma warranted_Cons:
  "prefix_mono J \<Longrightarrow> J [] c \<Longrightarrow> warranted J (h @ [(c, a)]) h' \<Longrightarrow> warranted J h h'"
  by (rule warranted_trans [of J h "h @ [(c, a)]"]) (auto simp: warranted_def justified_def)

lemma for_targets_safe:
  assumes "prefix_mono J" "safe_step J st"
  shows "for_targets st ts e h = Some (r, h') \<Longrightarrow> warranted J h h'"
proof (induction ts arbitrary: e h)
  case (Cons t ts)
  then obtain x h1 where x: "st t h = Some (x, h1)" by (auto split: option.splits)
  then have "warranted J h h1" using assms(2) by (auto simp: safe_step_def)
  moreover have "warranted J h1 h'"
    using Cons x by (auto split: option.splits)
  ultimately show ?case by (rule warranted_trans [OF assms(1)])
qed simp

text \<open>The calls of a step, checked one after the other.\<close>

fun justified_from :: "(fs_calls \<Rightarrow> FsCall \<Rightarrow> bool) \<Rightarrow> fs_calls \<Rightarrow> fs_calls \<Rightarrow> bool" where
  "justified_from J p [] = True"
| "justified_from J p ((c, a) # t) = (J p c \<and> justified_from J (p @ [(c, a)]) t)"

lemma justified_from_append:
  "justified_from J p (t @ u) \<longleftrightarrow> justified_from J p t \<and> justified_from J (p @ t) u"
  by (induction J p t rule: justified_from.induct) simp_all

lemma justified_iff: "justified J t \<longleftrightarrow> justified_from J [] t"
proof (induction t rule: rev_induct)
  case (snoc x t)
  then show ?case by (cases x) (simp add: justified_snoc justified_from_append)
qed simp

lemma warranted_append [simp]: "warranted J h (h @ t) \<longleftrightarrow> justified_from J [] t"
  by (simp add: warranted_def justified_iff)

lemma warranted_call [simp]: "warranted J h (h @ t) \<Longrightarrow> J t c \<Longrightarrow> warranted J h (h @ t @ [(c, a)])"
  by (simp add: justified_from_append)

lemmas fs_step_defs = ask_def invoke_eq final_dst_def Let_def

lemma into_target_safe:
  assumes J: "prefix_mono J" "\<And>d. safe_step J (st d)" "\<And>p d. J p (IsDir d)"
    and run: "into_target os tool env st h = Some (r, h')"
  shows "warranted J h h'"
proof -
  let ?d = "env_posix_to_win32 env (last (operands env))" and ?srcs = "butlast (operands env)"
  let ?h1 = "h @ [(IsDir ?d, os h (IsDir ?d))]"
  have asked: "warranted J h ?h1" using J(3) by simp
  consider "h' = ?h1" | "for_targets (st ?d) ?srcs [] h = Some (r, h')" | "for_targets (st ?d) ?srcs [] ?h1 = Some (r, h')"
    using run by (cases "os h (IsDir ?d) = Inr (Answer True)") (auto simp: into_target_def fs_step_defs split: if_splits)
  then show ?thesis
    using asked for_targets_safe [OF J(1,2)] warranted_trans [OF J(1) asked] by cases blast+
qed

text \<open>\<open>rmv\<close> removes a file only after it was copied, and never a directory.\<close>

definition mv_rule :: "fs_calls \<Rightarrow> FsCall \<Rightarrow> bool" where
  "mv_rule p c =
    (case c of RemoveFile f \<Rightarrow> (\<exists>d. made (CopyFile f d) p) | RemoveDirAll d \<Rightarrow> False | _ \<Rightarrow> True)"

lemma mv_rule_mono: "prefix_mono mv_rule"
  unfolding prefix_mono_def mv_rule_def made_def by (auto split: FsCall.splits)

lemma mv_one_safe: "safe_step mv_rule (mv_one os show env d)"
  unfolding safe_step_def
  by (auto simp: mv_one_def fs_step_defs mv_rule_def made_def split: if_splits bool.splits option.splits sum.splits prod.splits)

theorem rmv_removes_only_copied:
  assumes "rmv os show env h = Some (r, h')"
  shows "\<exists>t. h' = h @ t \<and> (\<forall>i < length t. \<forall>f. fst (t ! i) = RemoveFile f \<longrightarrow> (\<exists>d. made (CopyFile f d) (take i t)))"
proof -
  have "warranted mv_rule h h'"
    using assms into_target_safe [OF mv_rule_mono mv_one_safe]
    by (auto simp: rmv_def mv_rule_def split: if_splits)
  then show ?thesis by (fastforce simp: warranted_def justified_def mv_rule_def)
qed

text \<open>\<open>rrm\<close> removes a directory only with \<open>-r\<close> and after it was seen to be one, and a file only after it was
  seen not to be a directory.\<close>

definition rm_rule :: "bool \<Rightarrow> fs_calls \<Rightarrow> FsCall \<Rightarrow> bool" where
  "rm_rule recursive p c =
    (case c of
       RemoveFile f \<Rightarrow> (\<exists>a. (IsDir f, a) \<in> set p \<and> a \<noteq> Inr (Answer True))
     | RemoveDirAll d \<Rightarrow> recursive \<and> (IsDir d, Inr (Answer True)) \<in> set p
     | Exists f \<Rightarrow> True | IsDir f \<Rightarrow> True | _ \<Rightarrow> False)"

lemma rm_rule_mono: "prefix_mono (rm_rule b)"
  unfolding prefix_mono_def rm_rule_def by (auto split: FsCall.splits)

lemma rm_one_safe: "safe_step (rm_rule (rm_recursive env)) (rm_one os show env)"
  unfolding safe_step_def
  by (auto simp: rm_one_def fs_step_defs rm_rule_def split: if_splits bool.splits sum.splits prod.splits)

theorem rrm_removes_as_asked:
  assumes "rrm os show env h = Some (r, h')"
  shows "\<exists>t. h' = h @ t \<and> justified (rm_rule (rm_recursive env)) t"
proof -
  have "warranted (rm_rule (rm_recursive env)) h h'"
    using assms for_targets_safe [OF rm_rule_mono rm_one_safe] by (auto simp: rrm_def split: if_splits)
  then show ?thesis by (simp add: warranted_def)
qed

text \<open>\<open>rcp\<close> removes and renames nothing; it lists only what it saw to be a directory and copies as a file only
  what it saw not to be one.\<close>

definition cp_rule :: "fs_calls \<Rightarrow> FsCall \<Rightarrow> bool" where
  "cp_rule p c =
    (case c of
       CopyFile s d \<Rightarrow> (\<exists>a. (IsDir s, a) \<in> set p \<and> a \<noteq> Inr (Answer True))
     | ReadDir s \<Rightarrow> (IsDir s, Inr (Answer True)) \<in> set p
     | Exists f \<Rightarrow> True | IsDir f \<Rightarrow> True | CreateDirAll d \<Rightarrow> True | NextEntry n \<Rightarrow> True | _ \<Rightarrow> False)"

lemma cp_rule_mono: "prefix_mono cp_rule"
  unfolding prefix_mono_def cp_rule_def by (auto split: FsCall.splits)

lemma copy_step_safe: "copy_step os p rest h = (r, h') \<Longrightarrow> warranted cp_rule h h'"
  by (auto simp: copy_step_def copy_file_def open_tree_def fs_step_defs cp_rule_def
      split: Pending.splits bool.splits sum.splits option.splits prod.splits)

lemma copy_loop_safe:
  assumes "copy_loop os todo h = Some y"
  shows "warranted cp_rule h (snd y)"
  using assms
proof (rule copy_loop.raw_induct [where P = "\<lambda>os todo h y. warranted cp_rule h (snd y)", rotated])
  fix loop :: "fs_os \<Rightarrow> Pending list \<Rightarrow> fs_calls \<Rightarrow> (i32 option \<times> fs_calls) option" and os todo h y
  assume IH: "\<And>os todo h y. loop os todo h = Some y \<Longrightarrow> warranted cp_rule h (snd y)"
    and run: "(if todo = [] then Some (None, h)
      else case copy_step os (hd todo) (tl todo) h of
             (r, h1) \<Rightarrow> (case r of Inl e \<Rightarrow> Some (Some e, h1) | Inr todo' \<Rightarrow> loop os todo' h1)) = Some y"
  obtain r h1 where step: "copy_step os (hd todo) (tl todo) h = (r, h1)" by force
  then show "warranted cp_rule h (snd y)"
    using run IH copy_step_safe [OF step] warranted_trans [OF cp_rule_mono]
    by (auto split: if_splits sum.splits)
qed

lemma copy_recursive_safe:
  assumes "copy_recursive os src dst (h @ t) = Some (x, h')" "justified_from cp_rule [] t"
  shows "warranted cp_rule h h'"
proof -
  have "warranted cp_rule (h @ t) h'"
    using assms(1) copy_loop_safe [of os _ "h @ t" "(x, h')"] by (simp add: copy_recursive_def)
  then show ?thesis
    using assms(2) by (rule_tac warranted_trans [OF cp_rule_mono, of h "h @ t"]) simp_all
qed

lemma cp_one_safe: "safe_step cp_rule (cp_one os show env d)"
  unfolding safe_step_def
  by (auto simp: cp_one_def fs_step_defs cp_rule_def split: if_splits bool.splits option.splits)
    (erule copy_recursive_safe; simp add: cp_rule_def)+

theorem rcp_copies_as_seen:
  assumes "rcp os show env h = Some (r, h')"
  shows "\<exists>t. h' = h @ t \<and> justified cp_rule t"
proof -
  have "warranted cp_rule h h'"
    using assms into_target_safe [OF cp_rule_mono cp_one_safe]
    by (auto simp: rcp_def cp_rule_def split: if_splits)
  then show ?thesis by (simp add: warranted_def)
qed

section \<open>Two commands that go wrong\<close>

text \<open>A file copied onto itself is passed to \<open>fs::copy\<close> as it is; and a source without a last name, such as the
  current directory, makes the tool panic.\<close>

definition run_env :: "string list \<Rightarrow> Env" where
  "run_env args = \<lparr>env_args = args, env_stdin = ([], None), env_open = (\<lambda>_. Inl []), env_posix_to_win32 = id\<rparr>"

definition small_fs :: "string list \<Rightarrow> fs_os" where
  "small_fs dirs h c =
    (case c of Exists p \<Rightarrow> Inr (Answer True) | IsDir p \<Rightarrow> Inr (Answer (p \<in> set dirs)) | _ \<Rightarrow> Inr Done)"

lemma rcp_onto_itself:
  "map_option (\<lambda>r. (ending (fst r), last (map fst (snd r)))) (rcp (small_fs []) (\<lambda>_. []) (run_env [''rcp'', ''a'', ''a'']) []) =
    Some (Success, CopyFile ''a'' ''a'')"
  by code_simp

lemma rcp_current_dir_panics:
  "map_option (\<lambda>r. ending (fst r)) (rcp (small_fs [''.'', ''d'']) (\<lambda>_. []) (run_env [''rcp'', ''-r'', ''.'', ''d'']) []) =
    Some Exit.Panic"
  by code_simp

end
