(* ===== verification/Coreutils_Mains.thy ===== *)
theory Coreutils_Mains
  imports Coreutils_Process Coreutils_Ls
begin

text \<open>
  The programs \<open>rcat\<close> and \<open>rls\<close> of \<open>coreutils/src/bin\<close> around the libraries of \<open>Coreutils_Cat\<close> and
  \<open>Coreutils_Ls\<close>.  The backend, the clock and the names of users and groups are arguments; standard error is
  the list of the lines printed.
\<close>

section \<open>rcat\<close>

text \<open>\<open>n\<close> bounds the reads of \<open>cat\<close>.  What was written before an error is not kept.\<close>

definition rcat ::
  "nat \<Rightarrow> ('st \<Rightarrow> string \<Rightarrow> 'd result \<times> 'st) \<Rightarrow> ('d \<Rightarrow> 'st \<Rightarrow> string \<Rightarrow> OpenOptions \<Rightarrow> 'f result \<times> 'st)
   \<Rightarrow> ('st \<Rightarrow> 'f \<Rightarrow> nat \<Rightarrow> bytes result \<times> 'st) \<Rightarrow> ('o \<Rightarrow> bytes \<Rightarrow> i32 + 'o)
   \<Rightarrow> 'st \<Rightarrow> string list \<Rightarrow> 'o \<Rightarrow> (string list \<times> Ended \<times> 'o option \<times> 'st) option" where
  "rcat n opener open_file read put st args out =
    (case args of
       [] \<Rightarrow> Some ([''usage: rcat <file>''], Exited 2, Some out, st)
     | path # _ \<Rightarrow>
        (let parent = (case path_parent path of Some d \<Rightarrow> if d = [] then ''.'' else d | None \<Rightarrow> ''.'')
         in case path_file_name path of
              None \<Rightarrow> Some ([''rcat: not a file path: '' @ to_string_lossy path], Exited 2, Some out, st)
            | Some name \<Rightarrow>
               (case opener st parent of
                  (Err e, st1) \<Rightarrow> Some ([''rcat: '' @ display_error e], FAILURE, Some out, st1)
                | (Ok d, st1) \<Rightarrow>
                   (case cat n (open_file d) read put st1 name out of
                      None \<Rightarrow> None
                    | Some (Err e, st2) \<Rightarrow> Some ([''rcat: '' @ display_error e], FAILURE, None, st2)
                    | Some (Ok o1, st2) \<Rightarrow> Some ([], SUCCESS, Some o1, st2)))))"

section \<open>rls\<close>

record 'd LsBackend =
  ls_open_dir :: "string \<Rightarrow> 'd result"
  ls_read_dir :: "'d \<Rightarrow> DirEntry list run"
  ls_metadata :: "'d \<Rightarrow> string \<Rightarrow> Metadata run"
  ls_unix_mode :: "'d \<Rightarrow> string \<Rightarrow> UnixMode option run"
  ls_read_link :: "'d \<Rightarrow> string \<Rightarrow> string run"

text \<open>What is printed on the two outputs, and the end.\<close>

definition ls_printed :: "string list run \<Rightarrow> string list \<times> string list \<times> Ended" where
  "ls_printed r =
    (case r of
       Ret xs \<Rightarrow> (xs, [], SUCCESS)
     | Fail e \<Rightarrow> ([], [''rls: '' @ display_error e], FAILURE)
     | run.Panic \<Rightarrow> ([], [], Panicked))"

definition ls_arg :: "string list \<Rightarrow> string" where
  "ls_arg args = (case filter (\<lambda>a. a \<noteq> ''-l'') args of [] \<Rightarrow> ''.'' | a # _ \<Rightarrow> a)"

definition rls ::
  "'d LsBackend \<Rightarrow> int \<Rightarrow> (u32 \<Rightarrow> string) \<Rightarrow> (u32 \<Rightarrow> string) \<Rightarrow> string list \<Rightarrow> string list \<times> string list \<times> Ended" where
  "rls b now user_name group_name args =
    (case ls_open_dir b (ls_arg args) of
       Err e \<Rightarrow> ([], [''rls: '' @ display_error e], FAILURE)
     | Ok d \<Rightarrow>
         ls_printed
          (if ''-l'' \<in> set args
           then run_bind (ls_long (ls_read_dir b d) (ls_metadata b d) (ls_unix_mode b d) (ls_read_link b d))
                  (\<lambda>entries. format_long entries now user_name group_name)
           else run_bind (ls (ls_read_dir b d)) (\<lambda>entries. Ret (map render entries))))"

section \<open>What they print\<close>

text \<open>On the in-memory file system \<open>rcat\<close> of a name writes exactly the bytes of the file and succeeds.\<close>

theorem rcat_copies_file:
  assumes "reachable st" "path_file_name path = Some name" "opener st (case path_parent path of Some d \<Rightarrow> if d = [] then ''.'' else d | None \<Rightarrow> ''.'') = (Ok d, st)"
    "dir_view d st name = Some (FileN data)" "length data < n"
  shows "\<exists>st'. rcat n opener (\<lambda>d s. dir_open s d) file_read vec_write_all st (path # rest) out =
    Some ([], SUCCESS, Some (out @ data), st')"
  using cat_byte_faithful [OF assms(1,4,5), of out] assms(2,3) by (auto simp: rcat_def Let_def)

text \<open>Without \<open>-l\<close>, \<open>rls\<close> prints one line for every entry, in the order of the names.\<close>

theorem rls_short_listing:
  assumes "ls_open_dir b (ls_arg args) = Ok d" "ls_read_dir b d = Ret entries" "''-l'' \<notin> set args"
  shows "\<exists>es. mset es = mset entries \<and> sorted (map de_name es) \<and>
    rls b now user_name group_name args = (map render es, [], SUCCESS)"
  using assms
  by (intro exI [of _ "sort_key de_name entries"]) (simp add: rls_def ls_def run_bind_def ls_printed_def)

end
