(* ===== verification/Bsd_Trust.thy ===== *)
theory Bsd_Trust
  imports Trust_Anchors Os_Calls
begin

text \<open>
  The trust anchors of the BSD backend, \<open>platform-bsd/src/sys/trust_anchors.rs\<close>: the PEM files of
  FreeBSD, OpenBSD, NetBSD and DragonFly, with the probing policy and the reader of \<open>Trust_Anchors\<close>
  over other paths, and the keychain of macOS over the calls of its security framework, whose
  references the code has to release.
\<close>

section \<open>PEM files\<close>

definition BUNDLE_PATHS :: "string list" where
  "BUNDLE_PATHS = [''/etc/ssl/cert.pem'', ''/usr/local/etc/ssl/cert.pem'', ''/usr/local/share/certs/ca-root-nss.crt'',
     ''/etc/openssl/certs/ca-certificates.crt'', ''/etc/ssl/certs/ca-certificates.crt'']"

definition DIR_PATHS :: "string list" where
  "DIR_PATHS = [''/etc/ssl/certs'', ''/usr/local/share/certs'', ''/etc/openssl/certs'']"

definition load_anchors :: "Host \<Rightarrow> bytes list result" where
  "load_anchors h =
    (case env_var h ''SSL_CERT_FILE'' of
       Some f \<Rightarrow> non_empty (read_bundle h f) ''SSL_CERT_FILE names no usable certificates''
     | None \<Rightarrow>
    case env_var h ''SSL_CERT_DIR'' of
       Some dir \<Rightarrow> non_empty (read_dir_anchors h dir) ''SSL_CERT_DIR names no usable certificates''
     | None \<Rightarrow>
    case find (path_exists h) BUNDLE_PATHS of
       Some path \<Rightarrow> non_empty (read_bundle h path) ''CA bundle held no usable certificates''
     | None \<Rightarrow>
    case find (path_is_dir h) DIR_PATHS of
       Some path \<Rightarrow> non_empty (read_dir_anchors h path) ''CA directory held no usable certificates''
     | None \<Rightarrow> Err (no_anchors
         ''no OS trust store found (no SSL_CERT_FILE/SSL_CERT_DIR, no known bundle or directory)''))"

text \<open>The policy is that of Linux: the operator's choice is final, and nothing is returned empty.\<close>

lemma bsd_load_anchors_fails_closed:
  "case load_anchors h of Ok anchors \<Rightarrow> anchors \<noteq> [] | Err e \<Rightarrow> err_kind e = NotFound"
  by (simp add: load_anchors_def non_empty_def no_anchors_def new_error_def split: option.split)

lemma bsd_load_anchors_as_linux:
  assumes "env_var h ''SSL_CERT_FILE'' \<noteq> None \<or> env_var h ''SSL_CERT_DIR'' \<noteq> None"
  shows "load_anchors h = Trust_Anchors.load_anchors h"
  using assms by (auto simp: load_anchors_def Trust_Anchors.load_anchors_def split: option.split)

section \<open>The keychain\<close>

datatype SecCall =
    CopyAnchorCertificates
  | ArrayGetCount int
  | ArrayGetValueAtIndex int nat
  | CertificateCopyData int
  | DataGetLength int
  | DataGetBytePtr int
  | CFRelease int

text \<open>A reference is a number, 0 when null.  The bytes behind a pointer come with it.\<close>

record SecReply =
  sr_ref :: int
  sr_count :: int
  sr_bytes :: bytes

type_synonym sec_os = "(SecCall, SecReply) os"
type_synonym sec_calls = "(SecCall, SecReply) calls"

definition ref_of :: "i32 + SecReply \<Rightarrow> int" where
  "ref_of a = (case a of Inl _ \<Rightarrow> 0 | Inr r \<Rightarrow> sr_ref r)"

definition count_of :: "i32 + SecReply \<Rightarrow> int" where
  "count_of a = (case a of Inl _ \<Rightarrow> 0 | Inr r \<Rightarrow> sr_count r)"

definition der_of :: "sec_os \<Rightarrow> int \<Rightarrow> sec_calls \<Rightarrow> bytes \<times> sec_calls" where
  "der_of os d h =
    (case invoke os (DataGetLength d) h of
       (l, h1) \<Rightarrow>
         (case invoke os (DataGetBytePtr d) h1 of
            (p, h2) \<Rightarrow>
              (if ref_of p = 0 \<or> count_of l \<le> 0 then []
               else take (nat (count_of l)) (case p of Inl _ \<Rightarrow> [] | Inr r \<Rightarrow> sr_bytes r), h2)))"

fun copy_anchors :: "sec_os \<Rightarrow> int \<Rightarrow> nat list \<Rightarrow> bytes list \<Rightarrow> sec_calls \<Rightarrow> bytes list \<times> sec_calls" where
  "copy_anchors os arr [] anchors h = (anchors, h)"
| "copy_anchors os arr (i # is) anchors h =
    (case invoke os (ArrayGetValueAtIndex arr i) h of
       (cert, h1) \<Rightarrow>
         (if ref_of cert = 0 then copy_anchors os arr is anchors h1
          else case invoke os (CertificateCopyData (ref_of cert)) h1 of
            (d, h2) \<Rightarrow>
              (if ref_of d = 0 then copy_anchors os arr is anchors h2
               else case der_of os (ref_of d) h2 of
                 (der, h3) \<Rightarrow>
                   copy_anchors os arr is (if der = [] then anchors else anchors @ [der])
                     (snd (invoke os (CFRelease (ref_of d)) h3)))))"

definition darwin_load_anchors :: "sec_os \<Rightarrow> sec_calls \<Rightarrow> bytes list result \<times> sec_calls" where
  "darwin_load_anchors os h =
    (case invoke os CopyAnchorCertificates h of
       (a, h1) \<Rightarrow>
         (if isl a \<or> ref_of a = 0
          then (Err (new_error Other (Errno (case a of Inl status \<Rightarrow> status | Inr _ \<Rightarrow> 0)) ''SecTrustCopyAnchorCertificates''), h1)
          else case invoke os (ArrayGetCount (ref_of a)) h1 of
            (n, h2) \<Rightarrow>
              (case copy_anchors os (ref_of a) [0..<nat (count_of n)] [] h2 of
                 (anchors, h3) \<Rightarrow>
                   (if anchors = [] then Err (no_anchors ''system anchor certificates held no usable entries'') else Ok anchors,
                    snd (invoke os (CFRelease (ref_of a)) h3)))))"

section \<open>References\<close>

text \<open>A call whose name says copy hands out a reference to own; a null one is none.\<close>

definition opens_ref :: "SecCall \<Rightarrow> SecReply \<Rightarrow> int multiset" where
  "opens_ref c r =
    (case c of
       CopyAnchorCertificates \<Rightarrow> (if sr_ref r = 0 then {#} else {#sr_ref r#})
     | CertificateCopyData _ \<Rightarrow> (if sr_ref r = 0 then {#} else {#sr_ref r#})
     | _ \<Rightarrow> {#})"

definition closes_ref :: "SecCall \<Rightarrow> int multiset" where
  "closes_ref c = (case c of CFRelease d \<Rightarrow> {#d#} | _ \<Rightarrow> {#})"

lemmas ref_defs = opens_ref_def closes_ref_def ref_of_def

interpretation refs: handle_ledger opens_ref closes_ref CFRelease
  by unfold_locales (simp_all add: ref_defs)

text \<open>The calls \<open>t\<close> release exactly what they acquire.\<close>

definition balanced :: "sec_calls \<Rightarrow> bool" where
  "balanced t \<longleftrightarrow> acquired opens_ref t = released closes_ref t"

lemma refs_balanced_append: "balanced t \<Longrightarrow> balanced u \<Longrightarrow> balanced (t @ u)"
  by (simp add: balanced_def)

lemma balanced_get:
  "balanced [(ArrayGetValueAtIndex a i, x)]" "balanced [(ArrayGetCount a, x)]"
  "ref_of x = 0 \<Longrightarrow> balanced [(CertificateCopyData a, x)]"
  "balanced [(DataGetLength a, x), (DataGetBytePtr a, y)]"
  by (cases x; cases y; simp add: balanced_def ledger_Cons ref_defs)+

lemma balanced_owned:
  assumes "c = CopyAnchorCertificates \<or> c = CertificateCopyData a" "ref_of x \<noteq> 0" "balanced t"
  shows "balanced ((c, x) # t @ [(CFRelease (ref_of x), y)])"
  using assms by (cases x; cases y) (auto simp: balanced_def ledger_Cons ref_defs)

lemma copy_anchors_balanced:
  "\<exists>t. snd (copy_anchors os arr is anchors h) = h @ t \<and> balanced t"
proof (induction "is" arbitrary: anchors h)
  case Nil
  then show ?case by (simp add: balanced_def)
next
  case (Cons i "is")
  let ?cert = "os h (ArrayGetValueAtIndex arr i)"
  let ?h1 = "h @ [(ArrayGetValueAtIndex arr i, ?cert)]"
  let ?c2 = "CertificateCopyData (ref_of ?cert)"
  let ?d = "os ?h1 ?c2"
  have step: "\<exists>t. snd (copy_anchors os arr is x (h @ u)) = h @ t \<and> balanced t" if "balanced u" for x u
    using Cons.IH[of x "h @ u"] refs_balanced_append[OF that] by auto
  consider (none) "ref_of ?cert = 0" | (empty) "ref_of ?cert \<noteq> 0" "ref_of ?d = 0" | (der) "ref_of ?cert \<noteq> 0" "ref_of ?d \<noteq> 0"
    by blast
  then show ?case
  proof cases
    case none
    then show ?thesis using step[OF balanced_get(1)] by (simp add: invoke_eq)
  next
    case empty
    then show ?thesis using step[OF refs_balanced_append[OF balanced_get(1) balanced_get(3)]] by (simp add: invoke_eq)
  next
    case der
    let ?d3 = "ref_of ?d"
    let ?h2 = "?h1 @ [(?c2, ?d)]"
    let ?l = "(DataGetLength ?d3, os ?h2 (DataGetLength ?d3))"
    let ?p = "(DataGetBytePtr ?d3, os (?h2 @ [?l]) (DataGetBytePtr ?d3))"
    let ?h3 = "?h2 @ [?l, ?p]"
    have d: "snd (der_of os ?d3 ?h2) = ?h3" by (simp add: der_of_def invoke_eq)
    have "balanced ([(ArrayGetValueAtIndex arr i, ?cert)] @ (?c2, ?d) # [?l, ?p] @ [(CFRelease ?d3, os ?h3 (CFRelease ?d3))])"
      using der by (intro refs_balanced_append balanced_get(1) balanced_owned balanced_get(4)) simp_all
    from step[OF this] show ?thesis
      using der d by (cases "der_of os ?d3 ?h2") (simp add: invoke_eq)
  qed
qed

text \<open>Loading from the keychain releases every reference it was given exactly once, and never returns
  an empty set.\<close>

theorem darwin_load_anchors_balanced:
  "\<exists>t. snd (darwin_load_anchors os h) = h @ t \<and> balanced t \<and> fst (darwin_load_anchors os h) \<noteq> Ok []"
proof -
  let ?a = "os h CopyAnchorCertificates"
  show ?thesis
  proof (cases "isl ?a \<or> ref_of ?a = 0")
    case True
    then show ?thesis
      by (cases ?a) (auto simp: darwin_load_anchors_def invoke_eq balanced_def ref_defs)
  next
    case False
    let ?n = "(ArrayGetCount (ref_of ?a), os (h @ [(CopyAnchorCertificates, ?a)]) (ArrayGetCount (ref_of ?a)))"
    let ?h2 = "h @ [(CopyAnchorCertificates, ?a), ?n]"
    obtain anchors h3 where c: "copy_anchors os (ref_of ?a) [0..<nat (count_of (snd ?n))] [] ?h2 = (anchors, h3)" by force
    obtain t where t: "h3 = ?h2 @ t" "balanced t"
      using copy_anchors_balanced[of os "ref_of ?a" "[0..<nat (count_of (snd ?n))]" "[]" ?h2] c by auto
    let ?r = "(CFRelease (ref_of ?a), os h3 (CFRelease (ref_of ?a)))"
    have "balanced ((CopyAnchorCertificates, ?a) # (?n # t) @ [?r])"
      using False refs_balanced_append[OF balanced_get(2) t(2)] by (intro balanced_owned) simp_all
    then show ?thesis using False c t(1)
      by (intro exI[of _ "(CopyAnchorCertificates, ?a) # (?n # t) @ [?r]"]) (simp add: darwin_load_anchors_def invoke_eq)
  qed
qed

end
