(* ===== verification/Windows_Calls.thy ===== *)
theory Windows_Calls
  imports Os_Calls Wide
begin

text \<open>
  What the file and process modules of the Windows backend share: the calls they make on handles,
  the error classification of \<open>platform-windows/src/sys/errmap.rs\<close>, and the owned handle of
  \<open>sys/handle.rs\<close>.  A call that fails leaves a code for \<open>GetLastError\<close>; the two \<open>Nt\<close> calls
  return their status instead.  The files are those of the default configuration (the
  \<open>windows-sys\<close> arms).
\<close>

section \<open>Calls\<close>

type_synonym handle = int

datatype (plugins only: code) WinCall =
    CreateFileW "u16 list" u32 u32 bool u32 u32
  | NtCreateFile handle "u16 list" u32 u32 u32 u32
  | NtSetInformationFile handle bytes
  | ReadFile handle nat
  | WriteFile handle bytes
  | FlushFileBuffers handle
  | FileInformation handle u32 nat
  | ByHandleInformation handle
  | SetDisposition handle
  | DeviceIoControl handle u32 bytes nat
  | CloseHandle handle
  | DuplicateHandle handle bool
  | GetStdHandle u32
  | CreatePipe bool
  | SetHandleInformation handle u32 u32
  | CreateProcessW "u16 list" bool u32 "u16 list option" "u16 list" "(handle \<times> handle \<times> handle) option"
  | CreateJobObjectW
  | SetInformationJobObject handle u32
  | AssignProcessToJobObject handle handle
  | ResumeThread handle
  | TerminateJobObject handle u32
  | TerminateProcess handle u32
  | OpenProcess u32 u32
  | GetExitCodeProcess handle
  | WaitForSingleObject handle u32
  | WaitForMultipleObjects "handle list" u32
  | InstantNow
  | ThreadSleep nat
  | GetConsoleMode handle
  | SetConsoleMode handle u32
  | ConsoleScreenBufferInfo handle
  | AllocConsole
  | FreeConsole
  | AttachConsole u32
  | SetStdHandle u32 handle
  | SetConsoleCtrlHandler
  | BCryptGenRandom nat
  | CredWriteW "u16 list" "u16 list" bytes
  | CredReadW "u16 list"
  | CredFree
  | CertOpenSystemStoreW "u16 list"
  | CertEnumCertificatesInStore handle handle
  | CertCloseStore handle
  | CreatePseudoConsole u16 u16 handle handle
  | ResizePseudoConsole handle u16 u16
  | ClosePseudoConsole handle
  | AttributeListSize
  | InitAttributeList nat
  | UpdateAttribute handle
  | DeleteAttributeList
  | PeekNamedPipe handle

text \<open>\<open>CreateFileW\<close> takes the name, the access and share masks, whether the handle is inheritable, the
  disposition and the flags; \<open>CreatePipe\<close> whether its ends are inheritable; \<open>NtCreateFile\<close> the root, the name, the access mask, the object
  attributes, the disposition and the options.\<close>

record WinReply =
  wp_handle :: handle
  wp_handle2 :: handle
  wp_num :: u32
  wp_num2 :: u32
  wp_num3 :: u32
  wp_long :: u64
  wp_clock :: nat
  wp_data :: bytes

definition win_reply :: WinReply where
  "win_reply = \<lparr>wp_handle = 0, wp_handle2 = 0, wp_num = 0, wp_num2 = 0, wp_num3 = 0, wp_long = 0, wp_clock = 0, wp_data = []\<rparr>"

type_synonym win = "(WinCall, WinReply) os"
type_synonym win_calls = "(WinCall, WinReply) calls"
type_synonym 'a weff = "(WinCall, WinReply, 'a result) effect"

abbreviation ERROR_FILE_NOT_FOUND :: u32 where "ERROR_FILE_NOT_FOUND \<equiv> 2"
abbreviation ERROR_PATH_NOT_FOUND :: u32 where "ERROR_PATH_NOT_FOUND \<equiv> 3"
abbreviation ERROR_ACCESS_DENIED :: u32 where "ERROR_ACCESS_DENIED \<equiv> 5"
abbreviation ERROR_NO_MORE_FILES :: u32 where "ERROR_NO_MORE_FILES \<equiv> 18"
abbreviation ERROR_SHARING_VIOLATION :: u32 where "ERROR_SHARING_VIOLATION \<equiv> 32"
abbreviation ERROR_FILE_EXISTS :: u32 where "ERROR_FILE_EXISTS \<equiv> 80"
abbreviation ERROR_INVALID_PARAMETER :: u32 where "ERROR_INVALID_PARAMETER \<equiv> 87"
abbreviation ERROR_BROKEN_PIPE :: u32 where "ERROR_BROKEN_PIPE \<equiv> 109"
abbreviation ERROR_DIR_NOT_EMPTY :: u32 where "ERROR_DIR_NOT_EMPTY \<equiv> 145"
abbreviation ERROR_ALREADY_EXISTS :: u32 where "ERROR_ALREADY_EXISTS \<equiv> 183"
abbreviation ERROR_DIRECTORY :: u32 where "ERROR_DIRECTORY \<equiv> 267"
abbreviation ERROR_NOT_FOUND :: u32 where "ERROR_NOT_FOUND \<equiv> 1168"
abbreviation ERROR_NOT_A_REPARSE_POINT :: u32 where "ERROR_NOT_A_REPARSE_POINT \<equiv> 4390"
abbreviation STATUS_OBJECT_NAME_INVALID :: u32 where "STATUS_OBJECT_NAME_INVALID \<equiv> 0xC0000033"
abbreviation STATUS_OBJECT_NAME_NOT_FOUND :: u32 where "STATUS_OBJECT_NAME_NOT_FOUND \<equiv> 0xC0000034"
abbreviation STATUS_OBJECT_NAME_COLLISION :: u32 where "STATUS_OBJECT_NAME_COLLISION \<equiv> 0xC0000035"
abbreviation STATUS_OBJECT_PATH_NOT_FOUND :: u32 where "STATUS_OBJECT_PATH_NOT_FOUND \<equiv> 0xC000003A"
abbreviation STATUS_ACCESS_DENIED :: u32 where "STATUS_ACCESS_DENIED \<equiv> 0xC0000022"
abbreviation STATUS_SHARING_VIOLATION :: u32 where "STATUS_SHARING_VIOLATION \<equiv> 0xC0000043"
abbreviation STATUS_DELETE_PENDING :: u32 where "STATUS_DELETE_PENDING \<equiv> 0xC0000056"
abbreviation STATUS_FILE_IS_A_DIRECTORY :: u32 where "STATUS_FILE_IS_A_DIRECTORY \<equiv> 0xC00000BA"
abbreviation STATUS_DIRECTORY_NOT_EMPTY :: u32 where "STATUS_DIRECTORY_NOT_EMPTY \<equiv> 0xC0000101"
abbreviation STATUS_NOT_A_DIRECTORY :: u32 where "STATUS_NOT_A_DIRECTORY \<equiv> 0xC0000103"
abbreviation STATUS_REPARSE_POINT_ENCOUNTERED :: u32 where "STATUS_REPARSE_POINT_ENCOUNTERED \<equiv> 0xC000050B"

section \<open>Errors\<close>

definition kind_of_win32 :: "u32 \<Rightarrow> ErrorKind" where
  "kind_of_win32 code =
    (if code \<in> {ERROR_FILE_NOT_FOUND, ERROR_PATH_NOT_FOUND, ERROR_NOT_FOUND} then NotFound
     else if code \<in> {ERROR_ACCESS_DENIED, ERROR_SHARING_VIOLATION} then PermissionDenied
     else if code \<in> {ERROR_FILE_EXISTS, ERROR_ALREADY_EXISTS} then AlreadyExists
     else if code = ERROR_DIR_NOT_EMPTY then DirectoryNotEmpty
     else if code = ERROR_DIRECTORY then NotADirectory
     else if code \<in> {ERROR_INVALID_PARAMETER, ERROR_NOT_A_REPARSE_POINT} then InvalidInput
     else Other)"

definition kind_of_ntstatus :: "u32 \<Rightarrow> ErrorKind" where
  "kind_of_ntstatus status =
    (if status \<in> {STATUS_OBJECT_NAME_NOT_FOUND, STATUS_OBJECT_PATH_NOT_FOUND} then NotFound
     else if status \<in> {STATUS_ACCESS_DENIED, STATUS_SHARING_VIOLATION, STATUS_DELETE_PENDING} then PermissionDenied
     else if status = STATUS_OBJECT_NAME_COLLISION then AlreadyExists
     else if status = STATUS_FILE_IS_A_DIRECTORY then IsADirectory
     else if status = STATUS_NOT_A_DIRECTORY then NotADirectory
     else if status = STATUS_DIRECTORY_NOT_EMPTY then DirectoryNotEmpty
     else if status = STATUS_OBJECT_NAME_INVALID then InvalidInput
     else if status = STATUS_REPARSE_POINT_ENCOUNTERED then FilesystemLoop
     else Other)"

definition at_path :: "string \<Rightarrow> PlatformError \<Rightarrow> PlatformError" where
  "at_path path e = (if path = [] then e else with_path e path)"

definition last_win32_err :: "string \<Rightarrow> string \<Rightarrow> u32 \<Rightarrow> PlatformError" where
  "last_win32_err op path code = at_path path (new_error (kind_of_win32 code) (Win32 code) op)"

text \<open>\<open>dos\<close> is \<open>RtlNtStatusToDosError\<close>.\<close>

definition nt_err :: "(u32 \<Rightarrow> u32) \<Rightarrow> string \<Rightarrow> string \<Rightarrow> u32 \<Rightarrow> PlatformError" where
  "nt_err dos op path status = at_path path (new_error (kind_of_ntstatus status) (Win32 (dos status)) op)"

definition hresult_err :: "i32 \<Rightarrow> string \<Rightarrow> PlatformError" where
  "hresult_err hr op =
    (let facility = signed_drop_bit 16 hr AND 0x1FFF
     in if sint hr < 0 \<and> facility = 7
        then (let code = hr AND 0xFFFF in new_error (kind_of_win32 code) (Win32 code) op)
        else new_error Other (Win32 hr) op)"

section \<open>Owned handles\<close>

definition from_raw :: "handle \<Rightarrow> handle option" where
  "from_raw x = (if x \<noteq> - 1 \<and> x \<noteq> 0 then Some x else None)"

definition handles_of :: "handle \<Rightarrow> handle multiset" where
  "handles_of x = (case from_raw x of None \<Rightarrow> {#} | Some d \<Rightarrow> {#d#})"

text \<open>What a successful call hands out.  The second handle of a pipe or a
  process is only counted along with the first: the code takes the first one before it looks at it.\<close>

definition opens_handle :: "WinCall \<Rightarrow> WinReply \<Rightarrow> handle multiset" where
  "opens_handle c r =
    (case c of
       CreateFileW _ _ _ _ _ _ \<Rightarrow> handles_of (wp_handle r)
     | NtCreateFile _ _ _ _ _ _ \<Rightarrow> handles_of (wp_handle r)
     | DuplicateHandle _ _ \<Rightarrow> handles_of (wp_handle r)
     | CreateJobObjectW \<Rightarrow> handles_of (wp_handle r)
     | OpenProcess _ _ \<Rightarrow> handles_of (wp_handle r)
     | CreatePipe _ \<Rightarrow>
         (if from_raw (wp_handle r) = None then {#} else handles_of (wp_handle r) + handles_of (wp_handle2 r))
     | CreateProcessW _ _ _ _ _ _ \<Rightarrow>
         (if from_raw (wp_handle r) = None then {#} else handles_of (wp_handle r) + handles_of (wp_handle2 r))
     | _ \<Rightarrow> {#})"

definition closes_handle :: "WinCall \<Rightarrow> handle multiset" where
  "closes_handle c = (case c of CloseHandle d \<Rightarrow> {#d#} | _ \<Rightarrow> {#})"

lemmas win_defs = opens_handle_def closes_handle_def

interpretation wins: handle_ledger opens_handle closes_handle CloseHandle
  by unfold_locales (simp_all add: win_defs)

text \<open>One call that returns a handle to own: \<open>none\<close> is the error when the value is not a handle.\<close>

definition owned ::
  "win \<Rightarrow> (u32 \<Rightarrow> PlatformError) \<Rightarrow> (u32 \<Rightarrow> PlatformError) \<Rightarrow> WinCall \<Rightarrow> handle weff" where
  "owned os mk none c =
    attempt (call os mk c) (\<lambda>r h.
      case from_raw (wp_handle r) of None \<Rightarrow> (Err (none (last_error h)), h) | Some d \<Rightarrow> (Ok d, h))"

definition duplicate :: "win \<Rightarrow> handle \<Rightarrow> bool \<Rightarrow> handle weff" where
  "duplicate os d inheritable =
    (let mk = last_win32_err ''DuplicateHandle'' '''' in owned os mk mk (DuplicateHandle d inheritable))"

definition unit_call :: "win \<Rightarrow> (u32 \<Rightarrow> PlatformError) \<Rightarrow> WinCall \<Rightarrow> unit weff" where
  "unit_call os mk c = attempt (call os mk c) (\<lambda>_. ret (Ok ()))"

section \<open>The ledger\<close>

lemma keeps_win_owned:
  assumes "closes_handle c = {#}" "\<And>r. opens_handle c r = handles_of (wp_handle r)"
  shows "wins.keeps H (\<lambda>d. add_mset d H) H (owned os mk none c)"
  unfolding owned_def
proof (rule accounts_attempt)
  show "wins.keeps H (\<lambda>r. handles_of (wp_handle r) + H) H (call os mk c)"
    using wins.keeps_open[OF assms(1), of H os mk] by (simp add: assms(2))
  show "wins.keeps (handles_of (wp_handle r) + H) (\<lambda>d. add_mset d H) H
      (\<lambda>h. case from_raw (wp_handle r) of None \<Rightarrow> (Err (none (last_error h)), h) | Some d \<Rightarrow> (Ok d, h))" for r
    by (cases "from_raw (wp_handle r)") (simp_all add: accounts_def handles_of_def)
qed

lemma keeps_duplicate [ledger]: "wins.keeps H (\<lambda>d'. add_mset d' H) H (duplicate os d i)"
  unfolding duplicate_def Let_def by (rule keeps_win_owned) (simp_all add: win_defs)

lemma keeps_win_then:
  assumes "closes_handle c = {#}" "\<And>r. opens_handle c r = {#}" "\<And>r. wins.keeps H own H (f r)"
  shows "wins.keeps H own H (attempt (call os mk c) f)"
  using assms by (intro accounts_attempt[OF wins.keeps_plain])

lemma keeps_unit_call:
  assumes "closes_handle c = {#}" "\<And>r. opens_handle c r = {#}"
  shows "wins.keeps H (\<lambda>_. H) H (unit_call os mk c)"
  unfolding unit_call_def using assms by (intro keeps_win_then accounts_ret)

text \<open>An operation on a handle it opens for itself and drops when it returns.\<close>

lemma keeps_with_handle:
  assumes "wins.keeps H (\<lambda>d. add_mset d H) H m" "\<And>d. wins.keeps (add_mset d H) (\<lambda>_. add_mset d H) (add_mset d H) (f d)"
  shows "wins.keeps H (\<lambda>_. H) H (attempt m (\<lambda>d. finally_close os (CloseHandle d) (f d)))"
  using assms by (intro accounts_attempt[OF assms(1)] wins.keeps_finally)

end
