(* ===== verification/Windows_Fs.thy ===== *)
theory Windows_Fs
  imports Windows_Calls Platform_Fs
begin

text \<open>
  The files of the Windows backend: opening relative to a handle (\<open>platform-windows/src/sys/nt.rs\<close>),
  the operations on handles (\<open>sys/fileio.rs\<close>), and the \<open>Dir\<close> and \<open>File\<close> traits on them
  (\<open>platform-windows/src/fs.rs\<close>).  Structures the kernel reads or fills are byte strings with the
  layout of 64-bit Windows.
\<close>

abbreviation FILE_LIST_DIRECTORY :: u32 where "FILE_LIST_DIRECTORY \<equiv> 1"
abbreviation FILE_WRITE_DATA :: u32 where "FILE_WRITE_DATA \<equiv> 2"
abbreviation FILE_APPEND_DATA :: u32 where "FILE_APPEND_DATA \<equiv> 4"
abbreviation FILE_TRAVERSE :: u32 where "FILE_TRAVERSE \<equiv> 0x20"
abbreviation FILE_READ_ATTRIBUTES :: u32 where "FILE_READ_ATTRIBUTES \<equiv> 0x80"
abbreviation W_DELETE :: u32 where "W_DELETE \<equiv> 0x10000"
abbreviation SYNCHRONIZE :: u32 where "SYNCHRONIZE \<equiv> 0x100000"
abbreviation FILE_GENERIC_READ :: u32 where "FILE_GENERIC_READ \<equiv> 0x120089"
abbreviation FILE_GENERIC_WRITE :: u32 where "FILE_GENERIC_WRITE \<equiv> 0x120116"
abbreviation FILE_OPEN :: u32 where "FILE_OPEN \<equiv> 1"
abbreviation FILE_CREATE :: u32 where "FILE_CREATE \<equiv> 2"
abbreviation FILE_OPEN_IF :: u32 where "FILE_OPEN_IF \<equiv> 3"
abbreviation FILE_OVERWRITE :: u32 where "FILE_OVERWRITE \<equiv> 4"
abbreviation FILE_OVERWRITE_IF :: u32 where "FILE_OVERWRITE_IF \<equiv> 5"
abbreviation FILE_DIRECTORY_FILE :: u32 where "FILE_DIRECTORY_FILE \<equiv> 1"
abbreviation FILE_SYNCHRONOUS_IO_NONALERT :: u32 where "FILE_SYNCHRONOUS_IO_NONALERT \<equiv> 0x20"
abbreviation FILE_NON_DIRECTORY_FILE :: u32 where "FILE_NON_DIRECTORY_FILE \<equiv> 0x40"
abbreviation FILE_OPEN_REPARSE_POINT :: u32 where "FILE_OPEN_REPARSE_POINT \<equiv> 0x200000"
abbreviation OBJ_CASE_INSENSITIVE :: u32 where "OBJ_CASE_INSENSITIVE \<equiv> 0x40"
abbreviation OBJ_DONT_REPARSE :: u32 where "OBJ_DONT_REPARSE \<equiv> 0x1000"
abbreviation FILE_SHARE_ALL :: u32 where "FILE_SHARE_ALL \<equiv> 7"
abbreviation OPEN_EXISTING :: u32 where "OPEN_EXISTING \<equiv> 3"
abbreviation FILE_FLAG_BACKUP_SEMANTICS :: u32 where "FILE_FLAG_BACKUP_SEMANTICS \<equiv> 0x2000000"
abbreviation FILE_ATTRIBUTE_DIRECTORY :: u32 where "FILE_ATTRIBUTE_DIRECTORY \<equiv> 0x10"
abbreviation FILE_ATTRIBUTE_REPARSE_POINT :: u32 where "FILE_ATTRIBUTE_REPARSE_POINT \<equiv> 0x400"
abbreviation FileBasicInfo :: u32 where "FileBasicInfo \<equiv> 0"
abbreviation FileStandardInfo :: u32 where "FileStandardInfo \<equiv> 1"
abbreviation FileFullDirectoryInfo :: u32 where "FileFullDirectoryInfo \<equiv> 14"
abbreviation FSCTL_SET_REPARSE_POINT :: u32 where "FSCTL_SET_REPARSE_POINT \<equiv> 0x900A4"
abbreviation FSCTL_GET_REPARSE_POINT :: u32 where "FSCTL_GET_REPARSE_POINT \<equiv> 0x900A8"
abbreviation IO_REPARSE_TAG_SYMLINK :: u32 where "IO_REPARSE_TAG_SYMLINK \<equiv> 0xA000000C"
abbreviation SYMLINK_FLAG_RELATIVE :: u32 where "SYMLINK_FLAG_RELATIVE \<equiv> 1"
abbreviation MAX_REPARSE_SIZE :: nat where "MAX_REPARSE_SIZE \<equiv> 16384"

section \<open>Opening relative to a handle\<close>

definition open_relative_attrs ::
  "(u32 \<Rightarrow> u32) \<Rightarrow> win \<Rightarrow> handle \<Rightarrow> string \<Rightarrow> u32 \<Rightarrow> u32 \<Rightarrow> u32 \<Rightarrow> u32 \<Rightarrow> handle weff" where
  "open_relative_attrs dos os root rel access disposition options attributes =
    (let wide = to_wide_nt_component rel
     in if 65535 < length wide * 2
        then ret (Err (with_path (new_error InvalidInput NoCode ''NtCreateFile'') rel))
        else owned os (nt_err dos ''NtCreateFile'' rel) (\<lambda>_. with_path (new_error Other NoCode ''NtCreateFile'') rel)
               (NtCreateFile root wide access attributes disposition options))"

definition open_relative ::
  "(u32 \<Rightarrow> u32) \<Rightarrow> win \<Rightarrow> handle \<Rightarrow> string \<Rightarrow> u32 \<Rightarrow> u32 \<Rightarrow> u32 \<Rightarrow> handle weff" where
  "open_relative dos os root rel access disposition options =
    open_relative_attrs dos os root rel access disposition options OBJ_CASE_INSENSITIVE"

definition open_relative_r2 ::
  "(u32 \<Rightarrow> u32) \<Rightarrow> win \<Rightarrow> handle \<Rightarrow> string \<Rightarrow> u32 \<Rightarrow> u32 \<Rightarrow> u32 \<Rightarrow> handle weff" where
  "open_relative_r2 dos os root rel access disposition options =
    open_relative_attrs dos os root rel access disposition options (OBJ_CASE_INSENSITIVE OR OBJ_DONT_REPARSE)"

definition open_ambient_dir :: "win \<Rightarrow> string \<Rightarrow> handle weff" where
  "open_ambient_dir os path =
    (let mk = last_win32_err ''CreateFileW'' path
     in owned os mk mk (CreateFileW (to_wide_nul path)
          (FILE_LIST_DIRECTORY OR FILE_READ_ATTRIBUTES OR FILE_TRAVERSE OR SYNCHRONIZE)
          FILE_SHARE_ALL False OPEN_EXISTING FILE_FLAG_BACKUP_SEMANTICS))"

section \<open>Reading and writing\<close>

definition clamp_u32 :: "nat \<Rightarrow> nat" where
  "clamp_u32 n = (if n < 2 ^ 32 then n else 2 ^ 32 - 1)"

definition read_handle :: "win \<Rightarrow> handle \<Rightarrow> bytes \<Rightarrow> (nat \<times> bytes) weff" where
  "read_handle os d buf h =
    (case invoke os (ReadFile d (clamp_u32 (length buf))) h of
       (Inl _, h1) \<Rightarrow>
         (let code = last_error h1
          in if code = ERROR_BROKEN_PIPE then (Ok (0, buf), h1)
             else (Err (last_win32_err ''ReadFile'' '''' code), h1))
     | (Inr r, h1) \<Rightarrow> (Ok (unat (wp_num r), read_into buf (wp_data r)), h1))"

definition write_handle :: "win \<Rightarrow> handle \<Rightarrow> bytes \<Rightarrow> nat weff" where
  "write_handle os d buf =
    attempt (call os (last_win32_err ''WriteFile'' '''') (WriteFile d (take (clamp_u32 (length buf)) buf)))
      (\<lambda>r. ret (Ok (unat (wp_num r))))"

definition sync_all_handle :: "win \<Rightarrow> handle \<Rightarrow> unit weff" where
  "sync_all_handle os d = unit_call os (last_win32_err ''FlushFileBuffers'' '''') (FlushFileBuffers d)"

section \<open>Metadata\<close>

definition file_type_of_attributes :: "u32 \<Rightarrow> FileType" where
  "file_type_of_attributes attrs =
    (if attrs AND FILE_ATTRIBUTE_REPARSE_POINT \<noteq> 0 then TSymlink
     else if attrs AND FILE_ATTRIBUTE_DIRECTORY \<noteq> 0 then TDir
     else TFile)"

definition EPOCH_DIFF_100NS :: u64 where
  "EPOCH_DIFF_100NS = 116444736000000000"

text \<open>The subtraction wraps, as it does in a release build; the division and remainder are on
  numbers that are not negative.\<close>

definition filetime_to_system_time :: "u64 \<Rightarrow> int" where
  "filetime_to_system_time filetime =
    (let unix_100ns = sint (filetime - EPOCH_DIFF_100NS)
     in if 0 \<le> unix_100ns
        then unix_100ns div 10000000 * 1000000000 + unix_100ns mod 10000000 * 100
        else (let x = - unix_100ns in - (x div 10000000 * 1000000000 + x mod 10000000 * 100)))"

definition file_standard_info :: "win \<Rightarrow> handle \<Rightarrow> string \<Rightarrow> (u64 \<times> u64) weff" where
  "file_standard_info os d path =
    attempt (call os (last_win32_err ''GetFileInformationByHandleEx'' path) (FileInformation d FileStandardInfo 24))
      (\<lambda>r. ret (Ok (wp_long r, ucast (wp_num r))))"

definition metadata_by_handle :: "win \<Rightarrow> handle \<Rightarrow> string \<Rightarrow> Metadata weff" where
  "metadata_by_handle os d path =
    attempt (call os (last_win32_err ''GetFileInformationByHandleEx'' path) (FileInformation d FileBasicInfo 40))
      (\<lambda>basic. let file_type = file_type_of_attributes (wp_num basic)
        in attempt (file_standard_info os d path) (\<lambda>(raw_len, nlink).
           ret (Ok \<lparr>md_type = file_type, md_len = (if file_type = TDir then 0 else raw_len), md_nlink = nlink,
                    md_modified = filetime_to_system_time (wp_long basic)\<rparr>)))"

definition file_id_by_handle :: "win \<Rightarrow> handle \<Rightarrow> string \<Rightarrow> (u64 \<times> u64) weff" where
  "file_id_by_handle os d path =
    attempt (call os (last_win32_err ''GetFileInformationByHandle'' path) (ByHandleInformation d)) (\<lambda>r.
    ret (Ok (ucast (wp_num r), push_bit 32 (ucast (wp_num2 r)) OR ucast (wp_num3 r))))"

section \<open>Directories\<close>

fun le_units :: "bytes \<Rightarrow> u16 list" where
  "le_units (a # b # bs) = from_le_bytes [a, b] # le_units bs"
| "le_units _ = []"

definition units_le :: "u16 list \<Rightarrow> bytes" where
  "units_le us = concat (map (to_le_bytes 2) us)"

text \<open>One \<open>FILE_FULL_DIR_INFO\<close> record: name, attributes, and the distance to the next.\<close>

definition dir_record :: "bytes \<Rightarrow> nat \<Rightarrow> (u16 list \<times> u32) \<times> nat" where
  "dir_record buf offset =
    (let name_len = unat (from_le_bytes (field_at (offset + 60) 4 buf) :: u32) div 2
     in ((le_units (field_at (offset + 68) (2 * name_len) buf), from_le_bytes (field_at (offset + 56) 4 buf)),
         unat (from_le_bytes (field_at offset 4 buf) :: u32)))"

text \<open>The chain of records.  The kernel keeps it inside the buffer; past its end the walk stops.\<close>

function dir_chain :: "bytes \<Rightarrow> nat \<Rightarrow> (u16 list \<times> u32) list" where
  "dir_chain buf offset =
    (case dir_record buf offset of (e, next) \<Rightarrow>
       if next = 0 \<or> length buf \<le> offset then [e] else e # dir_chain buf (offset + next))"
  by pat_completeness auto
termination dir_chain
  by (relation "measure (\<lambda>(buf, offset). length buf - offset)") auto

declare dir_chain.simps [simp del]

definition dir_listed :: "(u16 list \<times> u32) list \<Rightarrow> (string \<times> FileType) list" where
  "dir_listed es =
    map (\<lambda>(name, attrs). (from_wide name, file_type_of_attributes attrs))
      (filter (\<lambda>(name, _). name \<noteq> [46] \<and> name \<noteq> [46, 46]) es)"

partial_function (option) read_dir_entries ::
  "win \<Rightarrow> handle \<Rightarrow> bytes \<Rightarrow> (string \<times> FileType) list \<Rightarrow> win_calls \<Rightarrow>
   ((string \<times> FileType) list result \<times> win_calls) option" where
  [code]: "read_dir_entries os d buf out h =
    (case invoke os (FileInformation d FileFullDirectoryInfo (length buf)) h of
       (Inl _, h1) \<Rightarrow>
         (let code = last_error h1
          in if code = ERROR_NO_MORE_FILES then Some (Ok out, h1)
             else Some (Err (last_win32_err ''GetFileInformationByHandleEx'' '''' code), h1))
     | (Inr r, h1) \<Rightarrow>
         (let buf1 = read_into buf (wp_data r)
          in read_dir_entries os d buf1 (out @ dir_listed (dir_chain buf1 0)) h1))"

definition mark_delete :: "win \<Rightarrow> handle \<Rightarrow> string \<Rightarrow> unit weff" where
  "mark_delete os d path = unit_call os (last_win32_err ''SetFileInformationByHandle'' path) (SetDisposition d)"

section \<open>Renaming\<close>

text \<open>\<open>FILE_RENAME_INFORMATION\<close>: the flag, the root directory at 8, the length at 16, the name at 20.\<close>

definition rename_information :: "handle \<Rightarrow> bool \<Rightarrow> u16 list \<Rightarrow> bytes" where
  "rename_information root replace name =
    [of_bool replace] @ replicate 7 0 @ to_le_bytes 8 (of_int root :: u64)
      @ to_le_bytes 4 (of_nat (length name * 2) :: u32) @ units_le name"

definition open_to_rename :: "(u32 \<Rightarrow> u32) \<Rightarrow> win \<Rightarrow> handle \<Rightarrow> string \<Rightarrow> handle weff" where
  "open_to_rename dos os root from h =
    (case open_relative dos os root from (W_DELETE OR SYNCHRONIZE) FILE_OPEN
            (FILE_NON_DIRECTORY_FILE OR FILE_SYNCHRONOUS_IO_NONALERT) h of
       (Ok d, h1) \<Rightarrow> (Ok d, h1)
     | (Err _, h1) \<Rightarrow>
         open_relative dos os root from (W_DELETE OR SYNCHRONIZE) FILE_OPEN
           (FILE_DIRECTORY_FILE OR FILE_SYNCHRONOUS_IO_NONALERT) h1)"

definition rename_relative :: "(u32 \<Rightarrow> u32) \<Rightarrow> win \<Rightarrow> handle \<Rightarrow> string \<Rightarrow> string \<Rightarrow> bool \<Rightarrow> unit weff" where
  "rename_relative dos os root from to replace =
    attempt (open_to_rename dos os root from) (\<lambda>d.
      finally_close os (CloseHandle d)
        (unit_call os (nt_err dos ''NtSetInformationFile'' to)
          (NtSetInformationFile d (rename_information root replace (to_wide_nt_component to)))))"

section \<open>Symbolic links\<close>

text \<open>The units of the NT namespace prefix: backslash, two question marks, backslash.\<close>

abbreviation NT_PREFIX :: "u16 list" where "NT_PREFIX \<equiv> [92, 63, 63, 92]"
abbreviation NT_UNC :: "u16 list" where "NT_UNC \<equiv> [85, 78, 67]"

definition nt_substitute_name :: "u16 list \<Rightarrow> u16 list \<times> bool" where
  "nt_substitute_name target =
    (if 2 \<le> length target \<and> target ! 1 = 58 then (NT_PREFIX @ target, True)
     else if 2 \<le> length target \<and> target ! 0 = 92 \<and> target ! 1 = 92
     then (NT_PREFIX @ NT_UNC @ tl target, True)
     else (target, False))"

definition reparse_offsets :: "nat \<times> nat" where
  "reparse_offsets = (8, 20)"

text \<open>The \<open>REPARSE_DATA_BUFFER\<close> of a link.  The lengths wrap at 16 bits; a unit written past the
  end of the buffer is a panic, the value \<open>None\<close>.\<close>

definition symlink_buffer :: "string \<Rightarrow> bytes option" where
  "symlink_buffer target =
    (let print_name = to_wide_raw target;
         (substitute_name, is_absolute) = nt_substitute_name (to_wide_nt_component target);
         flags = (if is_absolute then 0 else SYMLINK_FLAG_RELATIVE);
         sub_bytes = (of_nat (length substitute_name * 2) :: u16);
         print_bytes = (of_nat (length print_name * 2) :: u16);
         (payload, path_buffer) = reparse_offsets;
         total_len = path_buffer + unat sub_bytes + unat print_bytes
     in if total_len < path_buffer + length substitute_name * 2
           \<or> total_len < path_buffer + unat sub_bytes + length print_name * 2
        then None
        else Some (to_le_bytes 4 IO_REPARSE_TAG_SYMLINK @ to_le_bytes 2 (of_nat (total_len - payload) :: u16)
          @ to_le_bytes 2 (0 :: u16)
          @ to_le_bytes 2 (0 :: u16) @ to_le_bytes 2 sub_bytes @ to_le_bytes 2 sub_bytes @ to_le_bytes 2 print_bytes
          @ to_le_bytes 4 flags @ units_le substitute_name @ units_le print_name))"

text \<open>A panic drops what is owned, as an early return does.\<close>

definition index_panic :: PlatformError where
  "index_panic = new_error Other NoCode ''panic: range end index out of range''"

definition symlink_relative :: "(u32 \<Rightarrow> u32) \<Rightarrow> win \<Rightarrow> handle \<Rightarrow> string \<Rightarrow> string \<Rightarrow> bool \<Rightarrow> unit weff" where
  "symlink_relative dos os root link_name target is_dir =
    attempt (open_relative dos os root link_name (FILE_GENERIC_WRITE OR SYNCHRONIZE) FILE_CREATE
        ((if is_dir then FILE_DIRECTORY_FILE else FILE_NON_DIRECTORY_FILE) OR FILE_SYNCHRONOUS_IO_NONALERT
         OR FILE_OPEN_REPARSE_POINT)) (\<lambda>d.
      finally_close os (CloseHandle d)
        (case symlink_buffer target of
           None \<Rightarrow> ret (Err index_panic)
         | Some buf \<Rightarrow>
             unit_call os (last_win32_err ''DeviceIoControl'' link_name)
               (DeviceIoControl d FSCTL_SET_REPARSE_POINT buf 0)))"

definition not_a_link :: "string \<Rightarrow> PlatformError" where
  "not_a_link rel = with_path (new_error InvalidInput NoCode ''read_link'') rel"

definition print_name_of :: "string \<Rightarrow> nat \<Rightarrow> bytes \<Rightarrow> string result" where
  "print_name_of rel bytes_returned buf =
    (if bytes_returned < 8 then Err (not_a_link rel)
     else if from_le_bytes (field_at 0 4 buf) \<noteq> IO_REPARSE_TAG_SYMLINK then Err (not_a_link rel)
     else
       (let (p, path_buffer) = reparse_offsets;
            offset = unat (from_le_bytes (field_at (p + 4) 2 buf) :: u16);
            len = unat (from_le_bytes (field_at (p + 6) 2 buf) :: u16);
            start = path_buffer + offset
        in if length buf < start + len then Err index_panic
           else Ok (from_wide (le_units (field_at start len buf)))))"

definition read_link_relative :: "(u32 \<Rightarrow> u32) \<Rightarrow> win \<Rightarrow> handle \<Rightarrow> string \<Rightarrow> string weff" where
  "read_link_relative dos os root rel =
    attempt (open_relative dos os root rel (FILE_READ_ATTRIBUTES OR SYNCHRONIZE) FILE_OPEN
        (FILE_SYNCHRONOUS_IO_NONALERT OR FILE_OPEN_REPARSE_POINT)) (\<lambda>d.
      finally_close os (CloseHandle d)
        (attempt (call os (last_win32_err ''DeviceIoControl'' rel)
            (DeviceIoControl d FSCTL_GET_REPARSE_POINT [] MAX_REPARSE_SIZE)) (\<lambda>r.
         ret (print_name_of rel (unat (wp_num r)) (read_into (replicate MAX_REPARSE_SIZE 0) (wp_data r))))))"

section \<open>The directory and file handles\<close>

record WindowsDir = wd_handle :: handle
record WindowsFile = wf_handle :: handle

definition windows_open_ambient :: "win \<Rightarrow> string \<Rightarrow> WindowsDir weff" where
  "windows_open_ambient os path = attempt (open_ambient_dir os path) (\<lambda>d. ret (Ok \<lparr>wd_handle = d\<rparr>))"

definition windows_file_of :: "handle \<Rightarrow> WindowsFile" where
  "windows_file_of d = \<lparr>wf_handle = d\<rparr>"

definition windows_file_read :: "win \<Rightarrow> WindowsFile \<Rightarrow> bytes \<Rightarrow> (nat \<times> bytes) weff" where
  "windows_file_read os f buf = read_handle os (wf_handle f) buf"

definition windows_file_write :: "win \<Rightarrow> WindowsFile \<Rightarrow> bytes \<Rightarrow> nat weff" where
  "windows_file_write os f buf = write_handle os (wf_handle f) buf"

definition windows_file_flush :: "WindowsFile \<Rightarrow> unit weff" where
  "windows_file_flush f = ret (Ok ())"

definition windows_file_sync_all :: "win \<Rightarrow> WindowsFile \<Rightarrow> unit weff" where
  "windows_file_sync_all os f = sync_all_handle os (wf_handle f)"

definition windows_file_try_clone :: "win \<Rightarrow> WindowsFile \<Rightarrow> WindowsFile weff" where
  "windows_file_try_clone os f =
    attempt (duplicate os (wf_handle f) False) (\<lambda>d. ret (Ok \<lparr>wf_handle = d\<rparr>))"

definition windows_drop_file :: "win \<Rightarrow> WindowsFile \<Rightarrow> win_calls \<Rightarrow> win_calls" where
  "windows_drop_file os f h = snd (invoke os (CloseHandle (wf_handle f)) h)"

definition open_params :: "OpenOptions \<Rightarrow> (u32 \<times> u32) result" where
  "open_params opts =
    (let access = SYNCHRONIZE;
         access = (if oo_read opts then access OR FILE_GENERIC_READ else access);
         access = (if oo_append opts
                   then access OR ((FILE_GENERIC_WRITE AND NOT FILE_WRITE_DATA) OR FILE_APPEND_DATA)
                   else if oo_write opts then access OR FILE_GENERIC_WRITE else access)
     in if \<not> oo_read opts \<and> \<not> oo_write opts \<and> \<not> oo_append opts
        then Err (new_error InvalidInput NoCode ''open'')
        else Ok (access,
          if oo_create_new opts then FILE_CREATE
          else if oo_create opts \<and> oo_truncate opts then FILE_OVERWRITE_IF
          else if oo_create opts then FILE_OPEN_IF
          else if oo_truncate opts then FILE_OVERWRITE
          else FILE_OPEN))"

definition windows_dir_open :: "(u32 \<Rightarrow> u32) \<Rightarrow> win \<Rightarrow> WindowsDir \<Rightarrow> string \<Rightarrow> OpenOptions \<Rightarrow> WindowsFile weff" where
  "windows_dir_open dos os dir rel opts =
    attempt (ret (open_params opts)) (\<lambda>(access, disposition).
    attempt (open_relative dos os (wd_handle dir) rel access disposition
        (FILE_NON_DIRECTORY_FILE OR FILE_SYNCHRONOUS_IO_NONALERT)) (\<lambda>d.
    ret (Ok \<lparr>wf_handle = d\<rparr>)))"

definition windows_open_dir :: "(u32 \<Rightarrow> u32) \<Rightarrow> win \<Rightarrow> WindowsDir \<Rightarrow> string \<Rightarrow> WindowsDir weff" where
  "windows_open_dir dos os dir rel =
    attempt (open_relative_r2 dos os (wd_handle dir) rel
        (FILE_LIST_DIRECTORY OR FILE_READ_ATTRIBUTES OR FILE_TRAVERSE OR SYNCHRONIZE) FILE_OPEN
        (FILE_DIRECTORY_FILE OR FILE_SYNCHRONOUS_IO_NONALERT)) (\<lambda>d.
    ret (Ok \<lparr>wd_handle = d\<rparr>))"

definition windows_create_dir :: "(u32 \<Rightarrow> u32) \<Rightarrow> win \<Rightarrow> WindowsDir \<Rightarrow> string \<Rightarrow> unit weff" where
  "windows_create_dir dos os dir rel =
    attempt (open_relative_r2 dos os (wd_handle dir) rel (FILE_LIST_DIRECTORY OR SYNCHRONIZE) FILE_CREATE
        (FILE_DIRECTORY_FILE OR FILE_SYNCHRONOUS_IO_NONALERT)) (\<lambda>d.
    finally_close os (CloseHandle d) (ret (Ok ())))"

definition windows_metadata :: "(u32 \<Rightarrow> u32) \<Rightarrow> win \<Rightarrow> WindowsDir \<Rightarrow> string \<Rightarrow> Metadata weff" where
  "windows_metadata dos os dir rel =
    attempt (open_relative dos os (wd_handle dir) rel (FILE_READ_ATTRIBUTES OR SYNCHRONIZE) FILE_OPEN
        (FILE_SYNCHRONOUS_IO_NONALERT OR FILE_OPEN_REPARSE_POINT)) (\<lambda>d.
    finally_close os (CloseHandle d) (metadata_by_handle os d rel))"

definition windows_access :: "(u32 \<Rightarrow> u32) \<Rightarrow> win \<Rightarrow> WindowsDir \<Rightarrow> string \<Rightarrow> AccessMode \<Rightarrow> unit weff" where
  "windows_access dos os dir rel mode =
    (if \<not> (am_read mode \<or> am_write mode \<or> am_execute mode) then ret (Ok ())
     else
       (let access = SYNCHRONIZE OR FILE_READ_ATTRIBUTES;
            access = (if am_read mode then access OR FILE_GENERIC_READ else access);
            access = (if am_write mode then access OR FILE_GENERIC_WRITE else access)
        in attempt (open_relative dos os (wd_handle dir) rel access FILE_OPEN FILE_SYNCHRONOUS_IO_NONALERT) (\<lambda>d.
           finally_close os (CloseHandle d) (ret (Ok ())))))"

definition windows_unix_mode :: "WindowsDir \<Rightarrow> string \<Rightarrow> UnixMode option weff" where
  "windows_unix_mode dir rel = ret (Ok None)"

definition windows_set_unix_mode :: "WindowsDir \<Rightarrow> string \<Rightarrow> Mode \<Rightarrow> unit weff" where
  "windows_set_unix_mode dir rel mode = ret (Err (new_error Unsupported NoCode ''set_unix_mode''))"

definition windows_file_id :: "(u32 \<Rightarrow> u32) \<Rightarrow> win \<Rightarrow> WindowsDir \<Rightarrow> string \<Rightarrow> FileId weff" where
  "windows_file_id dos os dir rel =
    attempt (open_relative dos os (wd_handle dir) rel (FILE_READ_ATTRIBUTES OR SYNCHRONIZE) FILE_OPEN
        (FILE_SYNCHRONOUS_IO_NONALERT OR FILE_OPEN_REPARSE_POINT)) (\<lambda>d.
    finally_close os (CloseHandle d)
      (attempt (file_id_by_handle os d rel) (\<lambda>(serial, index). ret (Ok (FileId serial index)))))"

definition windows_read_dir ::
  "(u32 \<Rightarrow> u32) \<Rightarrow> win \<Rightarrow> WindowsDir \<Rightarrow> win_calls \<Rightarrow> (DirEntry list result \<times> win_calls) option" where
  "windows_read_dir dos os dir h =
    (case open_relative dos os (wd_handle dir) [] (FILE_LIST_DIRECTORY OR SYNCHRONIZE) FILE_OPEN
            (FILE_DIRECTORY_FILE OR FILE_SYNCHRONOUS_IO_NONALERT) h of
       (Err e, h1) \<Rightarrow> Some (Err e, h1)
     | (Ok d, h1) \<Rightarrow>
        (case read_dir_entries os d (replicate 65536 0) [] h1 of
           None \<Rightarrow> None
         | Some (r, h2) \<Rightarrow>
             Some (map_sum id (map (\<lambda>(name, ty). \<lparr>de_name = name, de_type = ty\<rparr>)) r,
                   snd (invoke os (CloseHandle d) h2))))"

definition windows_remove_file :: "(u32 \<Rightarrow> u32) \<Rightarrow> win \<Rightarrow> WindowsDir \<Rightarrow> string \<Rightarrow> unit weff" where
  "windows_remove_file dos os dir rel =
    attempt (open_relative dos os (wd_handle dir) rel (W_DELETE OR SYNCHRONIZE) FILE_OPEN
        (FILE_NON_DIRECTORY_FILE OR FILE_SYNCHRONOUS_IO_NONALERT OR FILE_OPEN_REPARSE_POINT)) (\<lambda>d.
    finally_close os (CloseHandle d) (mark_delete os d rel))"

definition windows_remove_dir :: "(u32 \<Rightarrow> u32) \<Rightarrow> win \<Rightarrow> WindowsDir \<Rightarrow> string \<Rightarrow> unit weff" where
  "windows_remove_dir dos os dir rel =
    attempt (open_relative dos os (wd_handle dir) rel (W_DELETE OR SYNCHRONIZE) FILE_OPEN
        (FILE_DIRECTORY_FILE OR FILE_SYNCHRONOUS_IO_NONALERT OR FILE_OPEN_REPARSE_POINT)) (\<lambda>d.
    finally_close os (CloseHandle d) (mark_delete os d rel))"

definition windows_symlink :: "(u32 \<Rightarrow> u32) \<Rightarrow> win \<Rightarrow> WindowsDir \<Rightarrow> string \<Rightarrow> string \<Rightarrow> unit weff" where
  "windows_symlink dos os dir target link_name h =
    (case windows_metadata dos os dir target h of
       (r, h1) \<Rightarrow>
         symlink_relative dos os (wd_handle dir) link_name target
           (case r of Ok md \<Rightarrow> md_type md = TDir | Err _ \<Rightarrow> False) h1)"

definition windows_read_link :: "(u32 \<Rightarrow> u32) \<Rightarrow> win \<Rightarrow> WindowsDir \<Rightarrow> string \<Rightarrow> string weff" where
  "windows_read_link dos os dir rel = read_link_relative dos os (wd_handle dir) rel"

definition windows_rename :: "(u32 \<Rightarrow> u32) \<Rightarrow> win \<Rightarrow> WindowsDir \<Rightarrow> string \<Rightarrow> string \<Rightarrow> unit weff" where
  "windows_rename dos os dir from to = rename_relative dos os (wd_handle dir) from to True"

definition windows_rename_no_replace :: "(u32 \<Rightarrow> u32) \<Rightarrow> win \<Rightarrow> WindowsDir \<Rightarrow> string \<Rightarrow> string \<Rightarrow> unit weff" where
  "windows_rename_no_replace dos os dir from to = rename_relative dos os (wd_handle dir) from to False"

definition windows_create_memfd :: "string \<Rightarrow> WindowsFile weff" where
  "windows_create_memfd name = ret (Err (new_error Unsupported NoCode ''create_memfd''))"

text \<open>The directory that the trait's own \<open>write_atomic\<close> runs on; \<open>sync_dir\<close> is the default.\<close>

definition windows_dir_ops :: "(u32 \<Rightarrow> u32) \<Rightarrow> win \<Rightarrow> WindowsDir \<Rightarrow> (win_calls, WindowsFile) DirOps" where
  "windows_dir_ops dos os dir =
    \<lparr>do_open = (\<lambda>h rel opts. windows_dir_open dos os dir rel opts h),
     do_write = (\<lambda>h f buf. windows_file_write os f buf h),
     do_sync_all = (\<lambda>h f. windows_file_sync_all os f h),
     do_remove_file = (\<lambda>h rel. windows_remove_file dos os dir rel h),
     do_rename = (\<lambda>h from to. windows_rename dos os dir from to h),
     do_sync_dir = (\<lambda>h. (Ok (), h)),
     do_drop = (\<lambda>h f. windows_drop_file os f h)\<rparr>"

section \<open>Handles\<close>

lemma keeps_open_relative_attrs:
  "wins.keeps H (\<lambda>d. add_mset d H) H (open_relative_attrs dos os root rel acc disp opts attrs)"
  unfolding open_relative_attrs_def Let_def by (simp add: accounts_fail keeps_win_owned win_defs)

lemma keeps_open_relative [ledger]:
  "wins.keeps H (\<lambda>d. add_mset d H) H (open_relative dos os root rel acc disp opts)"
  "wins.keeps H (\<lambda>d. add_mset d H) H (open_relative_r2 dos os root rel acc disp opts)"
  unfolding open_relative_def open_relative_r2_def by (rule keeps_open_relative_attrs)+

lemma keeps_open_to_rename: "wins.keeps H (\<lambda>d. add_mset d H) H (open_to_rename dos os root from)"
  unfolding accounts_def
proof
  fix h
  let ?f = "open_relative dos os root from (W_DELETE OR SYNCHRONIZE) FILE_OPEN
    (FILE_NON_DIRECTORY_FILE OR FILE_SYNCHRONOUS_IO_NONALERT)"
  let ?d = "open_relative dos os root from (W_DELETE OR SYNCHRONIZE) FILE_OPEN
    (FILE_DIRECTORY_FILE OR FILE_SYNCHRONOUS_IO_NONALERT)"
  obtain r h1 where e: "?f h = (r, h1)" by force
  then obtain t where t: "h1 = h @ t"
    "H + acquired opens_handle t = released closes_handle t + (case r of Err _ \<Rightarrow> H | Ok x \<Rightarrow> add_mset x H)"
    using keeps_open_relative(1) by (rule_tac accounts_result)
  obtain r' h2 where e': "?d h1 = (r', h2)" by force
  then obtain u where u: "h2 = h1 @ u"
    "H + acquired opens_handle u = released closes_handle u + (case r' of Err _ \<Rightarrow> H | Ok x \<Rightarrow> add_mset x H)"
    using keeps_open_relative(1) by (rule_tac accounts_result)
  show "\<exists>t. snd (open_to_rename dos os root from h) = h @ t \<and> H + acquired opens_handle t =
      released closes_handle t + (case fst (open_to_rename dos os root from h) of Err _ \<Rightarrow> H | Ok x \<Rightarrow> add_mset x H)"
  proof (cases r)
    case (Inl x)
    have t': "acquired opens_handle t = released closes_handle t" using t(2) Inl by (simp add: add.commute)
    have "H + acquired opens_handle (t @ u) = released closes_handle (t @ u)
        + (case r' of Err _ \<Rightarrow> H | Ok x \<Rightarrow> add_mset x H)"
      unfolding acquired_simps released_simps t' using u(2) by (metis add.assoc add.left_commute)
    then show ?thesis using e e' t(1) u(1) Inl by (intro exI[of _ "t @ u"]) (simp add: open_to_rename_def)
  next
    case (Inr x)
    then show ?thesis using e t by (intro exI[of _ t]) (simp add: open_to_rename_def)
  qed
qed

lemma keeps_win_ret: "wins.keeps H (\<lambda>_. H) H (ret r)"
  by (rule accounts_ret)

lemma keeps_metadata_by_handle: "wins.keeps H (\<lambda>_. H) H (metadata_by_handle os d path)"
  unfolding metadata_by_handle_def file_standard_info_def Let_def
  by (intro keeps_win_then accounts_attempt[where own = "\<lambda>_. H"]) (simp_all add: win_defs accounts_def split: prod.split)

lemma keeps_file_id_by_handle: "wins.keeps H (\<lambda>_. H) H (file_id_by_handle os d path)"
  unfolding file_id_by_handle_def by (intro keeps_win_then keeps_win_ret) (simp_all add: win_defs)

lemma keeps_mark_delete: "wins.keeps H (\<lambda>_. H) H (mark_delete os d path)"
  unfolding mark_delete_def by (rule keeps_unit_call) (simp_all add: win_defs)

lemma keeps_metadata: "wins.keeps H (\<lambda>_. H) H (windows_metadata dos os dir rel)"
  unfolding windows_metadata_def by (intro keeps_with_handle keeps_open_relative keeps_metadata_by_handle)

lemma keeps_file_id: "wins.keeps H (\<lambda>_. H) H (windows_file_id dos os dir rel)"
  unfolding windows_file_id_def
  by (intro keeps_with_handle keeps_open_relative accounts_attempt[OF keeps_file_id_by_handle])
    (simp add: accounts_def split: prod.split)

lemma keeps_access: "wins.keeps H (\<lambda>_. H) H (windows_access dos os dir rel mode)"
proof -
  have "wins.keeps H (\<lambda>_. H) H (attempt (open_relative dos os (wd_handle dir) rel a FILE_OPEN FILE_SYNCHRONOUS_IO_NONALERT)
      (\<lambda>d. finally_close os (CloseHandle d) (ret (Ok ()))))" for a
    by (intro keeps_with_handle keeps_open_relative keeps_win_ret)
  then show ?thesis unfolding windows_access_def Let_def by (simp add: keeps_win_ret)
qed

lemma keeps_removals:
  "wins.keeps H (\<lambda>_. H) H (windows_remove_file dos os dir rel)"
  "wins.keeps H (\<lambda>_. H) H (windows_remove_dir dos os dir rel)"
  "wins.keeps H (\<lambda>_. H) H (windows_create_dir dos os dir rel)"
  unfolding windows_remove_file_def windows_remove_dir_def windows_create_dir_def
  by (intro keeps_with_handle keeps_open_relative keeps_mark_delete keeps_win_ret)+

lemma keeps_rename: "wins.keeps H (\<lambda>_. H) H (rename_relative dos os root from to replace)"
  unfolding rename_relative_def
  by (intro keeps_with_handle keeps_open_to_rename keeps_unit_call) (simp_all add: win_defs)

lemma keeps_symlink_relative: "wins.keeps H (\<lambda>_. H) H (symlink_relative dos os root link target is_dir)"
  unfolding symlink_relative_def
  by (intro keeps_with_handle keeps_open_relative)
    (auto split: option.split intro: keeps_win_ret keeps_unit_call simp: win_defs)

lemma keeps_symlink: "wins.keeps H (\<lambda>_. H) H (windows_symlink dos os dir target link)"
  unfolding accounts_def
proof
  fix h
  obtain r h1 where e: "windows_metadata dos os dir target h = (r, h1)" by force
  then obtain t where t: "h1 = h @ t" "H + acquired opens_handle t = released closes_handle t + H"
    using keeps_metadata[of H dos os dir target] by (elim accounts_result[rotated]) (auto split: sum.splits)
  let ?m = "symlink_relative dos os (wd_handle dir) link target (case r of Ok md \<Rightarrow> md_type md = TDir | Err _ \<Rightarrow> False)"
  obtain r' h2 where e': "?m h1 = (r', h2)" by force
  then obtain u where u: "h2 = h1 @ u" "H + acquired opens_handle u = released closes_handle u + H"
    using keeps_symlink_relative[of H dos os "wd_handle dir" link target] by (elim accounts_result[rotated]) (auto split: sum.splits)
  have "H + acquired opens_handle (t @ u) = released closes_handle (t @ u) + H"
    using t(2) u(2) by (simp add: add.assoc[symmetric])
  then show "\<exists>t. snd (windows_symlink dos os dir target link h) = h @ t \<and> H + acquired opens_handle t =
      released closes_handle t + (case fst (windows_symlink dos os dir target link h) of Err _ \<Rightarrow> H | Ok _ \<Rightarrow> H)"
    using e e' t u by (intro exI[of _ "t @ u"]) (simp add: windows_symlink_def split: sum.split)
qed

lemma keeps_read_link: "wins.keeps H (\<lambda>_. H) H (windows_read_link dos os dir rel)"
  unfolding windows_read_link_def read_link_relative_def
  by (intro keeps_with_handle keeps_open_relative keeps_win_then keeps_win_ret) (simp_all add: win_defs)

lemma keeps_read_write:
  "wins.keeps H (\<lambda>_. H) H (windows_file_read os f buf)"
  "wins.keeps H (\<lambda>_. H) H (windows_file_write os f bs)"
  "wins.keeps H (\<lambda>_. H) H (windows_file_sync_all os f)"
proof -
  let ?c = "ReadFile (wf_handle f) (clamp_u32 (length buf))"
  show "wins.keeps H (\<lambda>_. H) H (windows_file_read os f buf)"
    unfolding accounts_def windows_file_read_def
  proof
    fix h
    show "\<exists>t. snd (read_handle os (wf_handle f) buf h) = h @ t \<and> H + acquired opens_handle t =
        released closes_handle t + (case fst (read_handle os (wf_handle f) buf h) of Err _ \<Rightarrow> H | Ok _ \<Rightarrow> H)"
      by (cases "os h ?c") (simp_all add: read_handle_def invoke_eq win_defs Let_def)
  qed
  show "wins.keeps H (\<lambda>_. H) H (windows_file_write os f bs)"
    unfolding windows_file_write_def write_handle_def by (intro keeps_win_then keeps_win_ret) (simp_all add: win_defs)
  show "wins.keeps H (\<lambda>_. H) H (windows_file_sync_all os f)"
    unfolding windows_file_sync_all_def sync_all_handle_def by (rule keeps_unit_call) (simp_all add: win_defs)
qed

lemma keeps_new_handles:
  "wins.keeps H (\<lambda>d. add_mset (wd_handle d) H) H (windows_open_ambient os path)"
  "wins.keeps H (\<lambda>f. add_mset (wf_handle f) H) H (windows_dir_open dos os dir rel opts)"
  "wins.keeps H (\<lambda>d. add_mset (wd_handle d) H) H (windows_open_dir dos os dir rel)"
  "wins.keeps H (\<lambda>f. add_mset (wf_handle f) H) H (windows_file_try_clone os f)"
proof -
  have "wins.keeps H (\<lambda>d. add_mset d H) H (open_ambient_dir os path)"
    unfolding open_ambient_dir_def Let_def by (rule keeps_win_owned) (simp_all add: win_defs)
  then show "wins.keeps H (\<lambda>d. add_mset (wd_handle d) H) H (windows_open_ambient os path)"
    unfolding windows_open_ambient_def by (rule accounts_attempt) (simp add: accounts_def)
  show "wins.keeps H (\<lambda>f. add_mset (wf_handle f) H) H (windows_dir_open dos os dir rel opts)"
    unfolding windows_dir_open_def
    by (rule keeps_ret_then, simp split: prod.split, intro allI impI accounts_attempt[OF keeps_open_relative(1)])
      (simp add: accounts_def)
  show "wins.keeps H (\<lambda>d. add_mset (wd_handle d) H) H (windows_open_dir dos os dir rel)"
    unfolding windows_open_dir_def by (rule accounts_attempt[OF keeps_open_relative(2)]) (simp add: accounts_def)
  show "wins.keeps H (\<lambda>f. add_mset (wf_handle f) H) H (windows_file_try_clone os f)"
    unfolding windows_file_try_clone_def by (rule accounts_attempt[OF keeps_duplicate]) (simp add: accounts_def)
qed

section \<open>Units and bytes\<close>

lemma le_units_Cons: "le_units (to_le_bytes 2 u @ bs) = u # le_units bs"
proof -
  have "to_le_bytes 2 u = [of_nat (unat u), of_nat (unat u div 256)]"
    by (simp add: to_le_bytes_def numeral_2_eq_2 del: of_nat_unat)
  then show ?thesis using from_to_le_bytes_2[of u] by simp
qed

lemma le_units_units_le [simp]: "le_units (units_le us) = us"
  by (induction us) (simp_all add: units_le_def le_units_Cons)

lemma length_units_le [simp]: "length (units_le us) = 2 * length us"
  by (induction us) (simp_all add: units_le_def)

lemma unat_of_nat_u16_less: "n < 65536 \<Longrightarrow> unat (of_nat n :: u16) = n"
  by (simp add: unat_of_nat take_bit_nat_eq_self)

section \<open>Times\<close>

text \<open>The conversion is exact for every time of the 64-bit range that the subtraction keeps.\<close>

lemma filetime_exact:
  assumes "- (2 ^ 63) + 116444736000000000 \<le> sint filetime"
  shows "filetime_to_system_time filetime = (sint filetime - 116444736000000000) * 100"
proof -
  have "sint (EPOCH_DIFF_100NS) = 116444736000000000" by (simp add: EPOCH_DIFF_100NS_def)
  moreover have "sint filetime < 2 ^ 63" using sint_lt[of filetime] by simp
  ultimately have "sint (filetime - EPOCH_DIFF_100NS) = sint filetime - 116444736000000000"
    using assms signed_take_bit_int_eq_self[of 63 "sint filetime - 116444736000000000"]
    by (simp add: sint_word_ariths)
  moreover have "x div 10000000 * 1000000000 + x mod 10000000 * 100 = x * 100" for x :: int
    using div_mult_mod_eq[of x 10000000] by linarith
  ultimately show ?thesis by (simp add: filetime_to_system_time_def Let_def del: signed_take_bit_int_eq_self)
qed

section \<open>Symbolic links\<close>

definition link_fits :: "string \<Rightarrow> bool" where
  "link_fits target \<longleftrightarrow>
    20 + 2 * length (fst (nt_substitute_name (to_wide_nt_component target))) + 2 * length (encode_wide target)
      \<le> MAX_REPARSE_SIZE"

lemma print_name_of_packed:
  fixes sb pb len :: u16 and flags :: u32
  assumes "unat sb = 2 * length sub" "unat pb = 2 * length print"
  shows "print_name_of rel (20 + k) (to_le_bytes 4 IO_REPARSE_TAG_SYMLINK @ to_le_bytes 2 len
      @ to_le_bytes 2 (0 :: u16) @ to_le_bytes 2 (0 :: u16) @ to_le_bytes 2 sb @ to_le_bytes 2 sb
      @ to_le_bytes 2 pb @ to_le_bytes 4 flags @ units_le sub @ units_le print @ rest) = Ok (from_wide print)"
  by (simp add: print_name_of_def reparse_offsets_def field_at_skip assms)

lemma symlink_buffer_read:
  assumes "link_fits target"
  obtains buf where "symlink_buffer target = Some buf" "length buf \<le> MAX_REPARSE_SIZE"
    "\<And>rest. print_name_of rel (length buf) (buf @ rest) = Ok (from_wide (encode_wide target))"
proof -
  let ?print = "encode_wide target"
  obtain sub ab where sub: "nt_substitute_name (to_wide_nt_component target) = (sub, ab)" by force
  have fits: "20 + 2 * length sub + 2 * length ?print \<le> 16384" using assms by (simp add: link_fits_def sub)
  define sb pb :: u16 where "sb = of_nat (length sub * 2)" and "pb = of_nat (length ?print * 2)"
  have n: "unat sb = 2 * length sub" "unat pb = 2 * length ?print"
    using fits by (simp_all add: sb_def pb_def unat_of_nat_u16_less mult.commute del: of_nat_mult)
  define len :: u16 where "len = of_nat (20 + unat sb + unat pb - 8)"
  let ?flags = "if ab then 0 else SYMLINK_FLAG_RELATIVE"
  let ?buf = "to_le_bytes 4 IO_REPARSE_TAG_SYMLINK @ to_le_bytes 2 len
    @ to_le_bytes 2 (0 :: u16) @ to_le_bytes 2 (0 :: u16) @ to_le_bytes 2 sb @ to_le_bytes 2 sb
    @ to_le_bytes 2 pb @ to_le_bytes 4 ?flags @ units_le sub @ units_le ?print"
  have "symlink_buffer target = Some ?buf"
    unfolding symlink_buffer_def sub to_wide_raw_def reparse_offsets_def Let_def case_prod_conv
      sb_def[symmetric] pb_def[symmetric] len_def[symmetric] by (simp add: n)
  moreover have "length ?buf = 20 + (2 * length sub + 2 * length ?print)" by simp
  ultimately show ?thesis
    using that[of ?buf] fits print_name_of_packed[OF n, of rel _ len ?flags] by (simp only: append_assoc)
qed

text \<open>A file system with one link: every name opens, and the link holds what was last set.\<close>

fun link_now :: "win_calls \<Rightarrow> bytes option" where
  "link_now [] = None"
| "link_now ((c, a) # h) =
    (case link_now h of
       Some b \<Rightarrow> Some b
     | None \<Rightarrow> (case c of DeviceIoControl _ code b _ \<Rightarrow> if code = FSCTL_SET_REPARSE_POINT then Some b else None | _ \<Rightarrow> None))"

definition serves_link :: "win \<Rightarrow> bool" where
  "serves_link os \<longleftrightarrow> (\<forall>h.
    (\<forall>root name acc at disp opts. \<exists>r. os h (NtCreateFile root name acc at disp opts) = Inr r \<and> from_raw (wp_handle r) \<noteq> None)
    \<and> (\<forall>d b n. \<exists>r. os h (DeviceIoControl d FSCTL_SET_REPARSE_POINT b n) = Inr r)
    \<and> (\<forall>d b. link_now h = Some b \<and> length b \<le> MAX_REPARSE_SIZE \<longrightarrow>
        (\<exists>r. os h (DeviceIoControl d FSCTL_GET_REPARSE_POINT [] MAX_REPARSE_SIZE) = Inr r
           \<and> unat (wp_num r) = length b \<and> wp_data r = b)))"

lemma link_now_append: "link_now (h @ t) = (case link_now t of Some b \<Rightarrow> Some b | None \<Rightarrow> link_now h)"
  by (induction h) (auto split: option.split)

lemma served_open:
  assumes "serves_link os" "length (encode_wide rel) \<le> 32767"
  obtains d a where "open_relative dos os root rel acc disp opts h =
    (Ok d, h @ [(NtCreateFile root (to_wide_nt_component rel) acc OBJ_CASE_INSENSITIVE disp opts, a)])"
proof -
  obtain r d where "os h (NtCreateFile root (to_wide_nt_component rel) acc OBJ_CASE_INSENSITIVE disp opts) = Inr r"
    "from_raw (wp_handle r) = Some d" using assms(1) unfolding serves_link_def by blast
  then show ?thesis using assms(2) that[of d "Inr r"]
    by (simp add: open_relative_def open_relative_attrs_def owned_def attempt_def call_eq
        to_wide_nt_component_def)
qed

lemma served_symlink:
  assumes "serves_link os" "length (encode_wide link) \<le> 32767" "symlink_buffer target = Some buf"
  obtains t where "symlink_relative dos os root link target is_dir h = (Ok (), h @ t)" "link_now t = Some buf"
proof -
  let ?opts = "(if is_dir then FILE_DIRECTORY_FILE else FILE_NON_DIRECTORY_FILE) OR FILE_SYNCHRONOUS_IO_NONALERT
    OR FILE_OPEN_REPARSE_POINT"
  obtain d a where o: "open_relative dos os root link (FILE_GENERIC_WRITE OR SYNCHRONIZE) FILE_CREATE ?opts h =
      (Ok d, h @ [(NtCreateFile root (to_wide_nt_component link) (FILE_GENERIC_WRITE OR SYNCHRONIZE)
        OBJ_CASE_INSENSITIVE FILE_CREATE ?opts, a)])" (is "_ = (Ok d, ?h1)")
    using served_open[OF assms(1,2)] .
  let ?set = "DeviceIoControl d FSCTL_SET_REPARSE_POINT buf 0"
  obtain r where r: "os ?h1 ?set = Inr r" using assms(1) unfolding serves_link_def by blast
  let ?h2 = "?h1 @ [(?set, Inr r), (CloseHandle d, os (?h1 @ [(?set, Inr r)]) (CloseHandle d))]"
  have "symlink_relative dos os root link target is_dir h = (Ok (), ?h2)"
    unfolding symlink_relative_def using o assms(3) r
    by (simp add: attempt_def finally_close_def unit_call_def call_eq invoke_eq)
  then show ?thesis using that[of "drop (length h) ?h2"] by simp
qed

lemma metadata_extends: "\<exists>r t. windows_metadata dos os dir rel h = (r, h @ t)"
  using keeps_metadata[of "{#}" dos os dir rel] unfolding accounts_def by (metis prod.collapse)


lemma served_read_link:
  assumes "serves_link os" "length (encode_wide rel) \<le> 32767" "link_now h = Some buf" "length buf \<le> MAX_REPARSE_SIZE"
  shows "\<exists>rest. fst (windows_read_link dos os dir rel h) = print_name_of rel (length buf) (buf @ rest)"
proof -
  let ?acc = "FILE_READ_ATTRIBUTES OR SYNCHRONIZE" and ?opts = "FILE_SYNCHRONOUS_IO_NONALERT OR FILE_OPEN_REPARSE_POINT"
  obtain d a where o: "open_relative dos os (wd_handle dir) rel ?acc FILE_OPEN ?opts h =
      (Ok d, h @ [(NtCreateFile (wd_handle dir) (to_wide_nt_component rel) ?acc OBJ_CASE_INSENSITIVE FILE_OPEN ?opts, a)])"
    (is "_ = (Ok d, ?h1)") using served_open[OF assms(1,2)] .
  have "link_now ?h1 = Some buf" using assms(3) by (simp add: link_now_append)
  then obtain r where r: "os ?h1 (DeviceIoControl d FSCTL_GET_REPARSE_POINT [] MAX_REPARSE_SIZE) = Inr r"
    "unat (wp_num r) = length buf" "wp_data r = buf" using assms(1,4) unfolding serves_link_def by blast
  have "read_into (replicate MAX_REPARSE_SIZE 0) buf = buf @ drop (length buf) (replicate MAX_REPARSE_SIZE 0)"
    using assms(4) by (simp add: read_into_def)
  then show ?thesis unfolding windows_read_link_def read_link_relative_def using o r
    by (auto simp: attempt_def finally_close_def call_eq invoke_eq)
qed


definition link_device :: win where
  "link_device h c =
    (case c of
       DeviceIoControl _ code _ _ \<Rightarrow>
         (if code = FSCTL_GET_REPARSE_POINT
          then (case link_now h of None \<Rightarrow> Inl 4390
                | Some b \<Rightarrow> Inr (win_reply\<lparr>wp_num := of_nat (length b), wp_data := b\<rparr>))
          else Inr win_reply)
     | _ \<Rightarrow> Inr (win_reply\<lparr>wp_handle := 7\<rparr>))"

lemma link_device_serves: "serves_link link_device"
  by (simp add: serves_link_def link_device_def from_raw_def win_reply_def)


text \<open>A link that the kernel refuses (for lack of the privilege, say) leaves behind the empty file it
  was to become: nothing removes what \<open>FILE_CREATE\<close> made.\<close>

lemma symlink_refused_leaves_file:
  assumes "symlink_buffer target = Some buf" "length (encode_wide link) \<le> 32767"
    and open_ok: "os h (NtCreateFile root (to_wide_nt_component link) acc OBJ_CASE_INSENSITIVE FILE_CREATE opts) = Inr r"
    and acc: "acc = FILE_GENERIC_WRITE OR SYNCHRONIZE"
    and opts: "opts = (if is_dir then FILE_DIRECTORY_FILE else FILE_NON_DIRECTORY_FILE) OR
      FILE_SYNCHRONOUS_IO_NONALERT OR FILE_OPEN_REPARSE_POINT"
    and d: "from_raw (wp_handle r) = Some d"
    and refused: "os (h @ [(NtCreateFile root (to_wide_nt_component link) acc OBJ_CASE_INSENSITIVE FILE_CREATE opts, Inr r)])
      (DeviceIoControl d FSCTL_SET_REPARSE_POINT buf 0) = Inl e"
  shows "\<exists>a. symlink_relative dos os root link target is_dir h =
    (Err (last_win32_err ''DeviceIoControl'' link e),
     h @ [(NtCreateFile root (to_wide_nt_component link) acc OBJ_CASE_INSENSITIVE FILE_CREATE opts, Inr r),
          (DeviceIoControl d FSCTL_SET_REPARSE_POINT buf 0, Inl e), (CloseHandle d, a)])"
proof -
  have "open_relative dos os root link acc FILE_CREATE opts h =
      (Ok d, h @ [(NtCreateFile root (to_wide_nt_component link) acc OBJ_CASE_INSENSITIVE FILE_CREATE opts, Inr r)])"
    using assms(2) open_ok d
    by (simp add: open_relative_def open_relative_attrs_def owned_def attempt_def call_eq to_wide_nt_component_def)
  then show ?thesis
    unfolding symlink_relative_def acc[symmetric] opts[symmetric] using assms(1) refused
    by (simp add: attempt_def finally_close_def unit_call_def call_eq invoke_eq)
qed

section \<open>Handles and containment\<close>

lemma keeps_renames:
  "wins.keeps H (\<lambda>_. H) H (windows_rename dos os dir from to)"
  "wins.keeps H (\<lambda>_. H) H (windows_rename_no_replace dos os dir from to)"
  unfolding windows_rename_def windows_rename_no_replace_def by (rule keeps_rename)+

lemmas fs_keeps = keeps_new_handles keeps_removals keeps_metadata keeps_access keeps_file_id keeps_symlink
  keeps_read_link keeps_read_write keeps_renames


definition one_call :: "win_calls \<Rightarrow> WinCall \<Rightarrow> bool" where
  "one_call t c \<longleftrightarrow> (case t of [] \<Rightarrow> True | (c', a) # t' \<Rightarrow> c' = c \<and> (\<forall>x \<in> set t'. \<exists>d. fst x = CloseHandle d))"

lemma open_relative_r2_cases:
  obtains (long) e where "32767 < length (encode_wide rel)" "open_relative_r2 dos os root rel acc disp opts h = (Err e, h)"
  | (asked) r a where "length (encode_wide rel) \<le> 32767" "open_relative_r2 dos os root rel acc disp opts h =
      (r, h @ [(NtCreateFile root (to_wide_nt_component rel) acc (OBJ_CASE_INSENSITIVE OR OBJ_DONT_REPARSE) disp opts, a)])"
proof (cases "32767 < length (encode_wide rel)")
  case True
  then show ?thesis using long
    by (simp add: open_relative_r2_def open_relative_attrs_def Let_def to_wide_nt_component_def)
next
  case False
  let ?c = "NtCreateFile root (to_wide_nt_component rel) acc (OBJ_CASE_INSENSITIVE OR OBJ_DONT_REPARSE) disp opts"
  have "open_relative_r2 dos os root rel acc disp opts h = owned os (nt_err dos ''NtCreateFile'' rel)
      (\<lambda>_. with_path (new_error Other NoCode ''NtCreateFile'') rel) ?c h"
    using False by (simp add: open_relative_r2_def open_relative_attrs_def Let_def to_wide_nt_component_def)
  moreover have "\<exists>r. owned os mk none ?c h = (r, h @ [(?c, os h ?c)])" for mk none
    by (cases "os h ?c") (auto simp: owned_def attempt_def call_eq split: option.split)
  ultimately show ?thesis using False asked by (metis not_le)
qed

text \<open>C38. A subdirectory is opened or created by at most one resolution, relative to the handle of the
  directory and with reparse points refused anywhere on the way; nothing else is asked of the system
  but closing the handle.  A name of more than 65535 bytes is refused before any call.\<close>

theorem windows_dirs_contained:
  "(\<exists>t. snd (windows_open_dir dos os dir rel h) = h @ t \<and>
      one_call t (NtCreateFile (wd_handle dir) (to_wide_nt_component rel)
        (FILE_LIST_DIRECTORY OR FILE_READ_ATTRIBUTES OR FILE_TRAVERSE OR SYNCHRONIZE)
        (OBJ_CASE_INSENSITIVE OR OBJ_DONT_REPARSE) FILE_OPEN (FILE_DIRECTORY_FILE OR FILE_SYNCHRONOUS_IO_NONALERT)))
   \<and> (\<exists>t. snd (windows_create_dir dos os dir rel h) = h @ t \<and>
      one_call t (NtCreateFile (wd_handle dir) (to_wide_nt_component rel) (FILE_LIST_DIRECTORY OR SYNCHRONIZE)
        (OBJ_CASE_INSENSITIVE OR OBJ_DONT_REPARSE) FILE_CREATE (FILE_DIRECTORY_FILE OR FILE_SYNCHRONOUS_IO_NONALERT)))
   \<and> (32767 < length (encode_wide rel) \<longleftrightarrow>
        snd (windows_open_dir dos os dir rel h) = h \<and> snd (windows_create_dir dos os dir rel h) = h)"
proof -
  let ?big = "32767 < length (encode_wide rel)"
  let ?o = "NtCreateFile (wd_handle dir) (to_wide_nt_component rel)
    (FILE_LIST_DIRECTORY OR FILE_READ_ATTRIBUTES OR FILE_TRAVERSE OR SYNCHRONIZE)
    (OBJ_CASE_INSENSITIVE OR OBJ_DONT_REPARSE) FILE_OPEN (FILE_DIRECTORY_FILE OR FILE_SYNCHRONOUS_IO_NONALERT)"
  let ?c = "NtCreateFile (wd_handle dir) (to_wide_nt_component rel) (FILE_LIST_DIRECTORY OR SYNCHRONIZE)
    (OBJ_CASE_INSENSITIVE OR OBJ_DONT_REPARSE) FILE_CREATE (FILE_DIRECTORY_FILE OR FILE_SYNCHRONOUS_IO_NONALERT)"
  have o: "\<exists>t. snd (windows_open_dir dos os dir rel h) = h @ t \<and> one_call t ?o \<and> (t = []) = ?big"
    unfolding windows_open_dir_def attempt_def
    by (rule open_relative_r2_cases[of rel dos os "wd_handle dir" "FILE_LIST_DIRECTORY OR FILE_READ_ATTRIBUTES OR
          FILE_TRAVERSE OR SYNCHRONIZE" FILE_OPEN "FILE_DIRECTORY_FILE OR FILE_SYNCHRONOUS_IO_NONALERT" h])
      (auto simp: one_call_def split: sum.split)
  have c: "\<exists>t. snd (windows_create_dir dos os dir rel h) = h @ t \<and> one_call t ?c \<and> (t = []) = ?big"
    unfolding windows_create_dir_def attempt_def finally_close_def invoke_eq
    by (rule open_relative_r2_cases[of rel dos os "wd_handle dir" "FILE_LIST_DIRECTORY OR SYNCHRONIZE" FILE_CREATE
          "FILE_DIRECTORY_FILE OR FILE_SYNCHRONOUS_IO_NONALERT" h])
      (auto simp: one_call_def split: sum.split)
  show ?thesis using o c by auto
qed

section \<open>Listing a directory\<close>

text \<open>The records as the kernel packs them into a buffer: each starts at a multiple of eight.\<close>

definition entry_bytes :: "u32 \<Rightarrow> u16 list \<times> u32 \<Rightarrow> bytes" where
  "entry_bytes next e =
    to_le_bytes 4 next @ replicate 52 0 @ to_le_bytes 4 (snd e) @ to_le_bytes 4 (of_nat (2 * length (fst e)) :: u32)
      @ replicate 4 0 @ units_le (fst e)"

definition entry_size :: "u16 list \<times> u32 \<Rightarrow> nat" where
  "entry_size e = (68 + 2 * length (fst e) + 7) div 8 * 8"

fun pack_entries :: "(u16 list \<times> u32) list \<Rightarrow> bytes" where
  "pack_entries (e # f # es) =
    entry_bytes (of_nat (entry_size e)) e @ replicate (entry_size e - (68 + 2 * length (fst e))) 0 @ pack_entries (f # es)"
| "pack_entries [e] = entry_bytes 0 e"
| "pack_entries [] = []"

lemma length_entry_bytes [simp]: "length (entry_bytes next e) = 68 + 2 * length (fst e)"
  by (simp add: entry_bytes_def)

lemma entry_size_ge: "68 + 2 * length (fst e) \<le> entry_size e" "entry_size e \<le> 75 + 2 * length (fst e)"
  unfolding entry_size_def by linarith+

lemma field_at_append: "field_at (length pre + off) n (pre @ ys) = field_at off n ys"
  by (simp add: field_at_def)

lemma dir_record_packed:
  assumes "2 * length (fst e) < 2 ^ 32"
  shows "dir_record (pre @ entry_bytes next e @ rest) (length pre) = (e, unat next)"
proof -
  have n: "unat (of_nat (2 * length (fst e)) :: u32) = 2 * length (fst e)"
    using assms by (simp del: of_nat_mult)
  have at: "field_at 0 4 (entry_bytes next e @ rest) = to_le_bytes 4 next"
    "field_at 56 4 (entry_bytes next e @ rest) = to_le_bytes 4 (snd e)"
    "field_at 60 4 (entry_bytes next e @ rest) = to_le_bytes 4 (of_nat (2 * length (fst e)) :: u32)"
    "field_at 68 (2 * length (fst e)) (entry_bytes next e @ rest) = units_le (fst e)"
    unfolding entry_bytes_def by (simp_all add: field_at_skip del: of_nat_mult)
  show ?thesis
    unfolding dir_record_def Let_def field_at_append using field_at_append[of pre 0 4]
    by (simp add: at n del: of_nat_mult)
qed

lemma dir_chain_step:
  assumes "dir_record buf offset = (e, next)" "0 < next" "offset < length buf"
  shows "dir_chain buf offset = e # dir_chain buf (offset + next)"
  using assms by (subst dir_chain.simps) simp

lemma dir_chain_packed:
  assumes "es \<noteq> []" "\<forall>e \<in> set es. 2 * length (fst e) < 2 ^ 31"
  shows "dir_chain (pre @ pack_entries es @ rest) (length pre) = es"
  using assms
proof (induction es arbitrary: pre rule: pack_entries.induct)
  case (1 e f es)
  let ?n = "entry_size e"
  let ?pad = "replicate (?n - (68 + 2 * length (fst e))) (0 :: u8)"
  have small: "2 * length (fst e) < 2 ^ 32" using "1.prems"(2) by simp
  have n: "unat (of_nat ?n :: u32) = ?n" "0 < ?n"
    using "1.prems"(2) entry_size_ge[of e] by simp_all
  have rec: "dir_record (pre @ pack_entries (e # f # es) @ rest) (length pre) = (e, ?n)"
    using dir_record_packed[OF small, of pre "of_nat ?n" "?pad @ pack_entries (f # es) @ rest"] n by simp
  have "dir_chain ((pre @ entry_bytes (of_nat ?n) e @ ?pad) @ pack_entries (f # es) @ rest)
      (length (pre @ entry_bytes (of_nat ?n) e @ ?pad)) = f # es"
    using "1.prems"(2) by (intro "1.IH") simp_all
  moreover have "length (pre @ entry_bytes (of_nat ?n) e @ ?pad) = length pre + ?n"
    using entry_size_ge[of e] by simp
  ultimately have "dir_chain (pre @ pack_entries (e # f # es) @ rest) (length pre + ?n) = f # es" by simp
  moreover have "length pre < length (pre @ pack_entries (e # f # es) @ rest)" by simp
  ultimately show ?case using dir_chain_step[OF rec n(2)] by (simp only: refl)
next
  case (2 e)
  then show ?case using dir_record_packed[of e pre 0 rest] by (subst dir_chain.simps) simp
qed simp

text \<open>A directory whose listing comes in \<open>batches\<close> and then ends with the code \<open>final\<close>.\<close>

definition enum_call :: "handle \<Rightarrow> WinCall" where
  "enum_call d = FileInformation d FileFullDirectoryInfo 65536"

definition enum_pos :: "handle \<Rightarrow> win_calls \<Rightarrow> nat" where
  "enum_pos d h = length (filter (\<lambda>(c, _). c = enum_call d) h)"

definition serves_batches :: "win \<Rightarrow> handle \<Rightarrow> (u16 list \<times> u32) list list \<Rightarrow> u32 \<Rightarrow> bool" where
  "serves_batches os d batches final \<longleftrightarrow>
    (\<forall>es \<in> set batches. es \<noteq> [] \<and> length (pack_entries es) \<le> 65536 \<and> (\<forall>e \<in> set es. length (fst e) < 32768))
    \<and> (\<forall>h. os h (enum_call d) =
          (if enum_pos d h < length batches then Inr (win_reply\<lparr>wp_data := pack_entries (batches ! enum_pos d h)\<rparr>)
           else Inl final))"

lemma enum_pos_snoc [simp]: "enum_pos d (h @ [(enum_call d, a)]) = Suc (enum_pos d h)"
  by (simp add: enum_pos_def)

lemma dir_listed_Nil [simp]: "dir_listed [] = []"
  by (simp add: dir_listed_def)

lemma dir_listed_append: "dir_listed (xs @ ys) = dir_listed xs @ dir_listed ys"
  by (simp add: dir_listed_def)

lemma read_dir_entries_lists:
  assumes "serves_batches os d batches final" "drop (enum_pos d h) batches = rest" "length buf = 65536"
  shows "\<exists>t. read_dir_entries os d buf out h =
      Some (if final = ERROR_NO_MORE_FILES then Ok (out @ dir_listed (concat rest))
            else Err (last_win32_err ''GetFileInformationByHandleEx'' '''' final), h @ t)
    \<and> (\<forall>(c, a) \<in> set t. c = enum_call d)"
  using assms(2,3)
proof (induction rest arbitrary: h buf out)
  case Nil
  then have "os h (enum_call d) = Inl final" using assms(1) by (simp add: serves_batches_def)
  then show ?case using Nil.prems(2)
    by (subst read_dir_entries.simps) (simp add: invoke_eq flip: enum_call_def)
next
  case (Cons es rest)
  have i: "enum_pos d h < length batches" "batches ! enum_pos d h = es"
    using Cons.prems(1) by (metis drop_eq_Nil leI list.distinct(1), metis nth_via_drop)
  let ?r = "win_reply\<lparr>wp_data := pack_entries es\<rparr>" let ?h1 = "h @ [(enum_call d, Inr ?r)]"
  let ?buf = "read_into buf (pack_entries es)"
  have ans: "os h (enum_call d) = Inr ?r" using assms(1) i by (simp add: serves_batches_def)
  have es: "es \<noteq> []" "length (pack_entries es) \<le> 65536" "\<forall>e \<in> set es. 2 * length (fst e) < 2 ^ 31"
    using assms(1) i nth_mem[OF i(1)] unfolding serves_batches_def by fastforce+
  have "?buf = [] @ pack_entries es @ drop (length (pack_entries es)) buf"
    using es(2) Cons.prems(2) by (simp add: read_into_def)
  then have chain: "dir_chain ?buf 0 = es" using dir_chain_packed[OF es(1,3), of "[]"] by simp
  have "drop (enum_pos d ?h1) batches = rest" using Cons.prems(1) by (simp add: drop_Suc drop_tl)
  from Cons.IH[OF this, of ?buf "out @ dir_listed es"] obtain t where
    t: "read_dir_entries os d ?buf (out @ dir_listed es) ?h1 =
      Some (if final = ERROR_NO_MORE_FILES then Ok ((out @ dir_listed es) @ dir_listed (concat rest))
            else Err (last_win32_err ''GetFileInformationByHandleEx'' '''' final), ?h1 @ t)"
    "\<forall>(c, a) \<in> set t. c = enum_call d" using Cons.prems(2) by auto
  have "read_dir_entries os d buf out h = read_dir_entries os d ?buf (out @ dir_listed es) ?h1"
    using Cons.prems(2) ans
    by (subst read_dir_entries.simps) (simp add: invoke_eq chain win_reply_def flip: enum_call_def)
  then show ?case using t by (intro exI[of _ "(enum_call d, Inr ?r) # t"]) (simp add: dir_listed_append)
qed

lemma enum_calls_plain:
  assumes "\<forall>(c, a) \<in> set t. c = enum_call d"
  shows "acquired opens_handle t = {#}" "released closes_handle t = {#}"
  using assms by (induction t) (auto simp: acquired_def released_def enum_call_def win_defs split: sum.split)

text \<open>Listing a directory returns the entries of every batch the kernel hands out, in order and
  without the two dot entries; an error in the middle is reported, never taken for the end; and
  the handle opened for the enumeration is closed.\<close>

theorem windows_read_dir_lists:
  assumes "serves_batches os d batches final"
    and "os h c = Inr r" "from_raw (wp_handle r) = Some d" "enum_pos d h = 0"
    and c: "c = NtCreateFile (wd_handle dir) [] (FILE_LIST_DIRECTORY OR SYNCHRONIZE) OBJ_CASE_INSENSITIVE FILE_OPEN
      (FILE_DIRECTORY_FILE OR FILE_SYNCHRONOUS_IO_NONALERT)"
  shows "\<exists>t. windows_read_dir dos os dir h =
      Some (if final = ERROR_NO_MORE_FILES
            then Ok (map (\<lambda>(name, ty). \<lparr>de_name = name, de_type = ty\<rparr>) (dir_listed (concat batches)))
            else Err (last_win32_err ''GetFileInformationByHandleEx'' '''' final), h @ t)
    \<and> acquired opens_handle t = {#d#} \<and> released closes_handle t = {#d#}"
proof -
  let ?h1 = "h @ [(c, Inr r)]"
  have o: "open_relative dos os (wd_handle dir) [] (FILE_LIST_DIRECTORY OR SYNCHRONIZE) FILE_OPEN
      (FILE_DIRECTORY_FILE OR FILE_SYNCHRONOUS_IO_NONALERT) h = (Ok d, ?h1)"
    using assms(2,3) unfolding c
    by (simp add: open_relative_def open_relative_attrs_def owned_def attempt_def call_eq
        to_wide_nt_component_def encode_wide_def as_bytes_def)
  have "enum_pos d ?h1 = 0" using assms(4) unfolding c by (simp add: enum_pos_def enum_call_def)
  then obtain t where t: "read_dir_entries os d (replicate 65536 0) [] ?h1 =
      Some (if final = ERROR_NO_MORE_FILES then Ok (dir_listed (concat batches))
            else Err (last_win32_err ''GetFileInformationByHandleEx'' '''' final), ?h1 @ t)"
    "\<forall>(c, a) \<in> set t. c = enum_call d"
    using read_dir_entries_lists[OF assms(1), of ?h1 batches "replicate 65536 0" "[]"] by auto
  let ?close = "(CloseHandle d, os (?h1 @ t) (CloseHandle d))"
  have "acquired opens_handle [?close] = {#}" by (cases "os (?h1 @ t) (CloseHandle d)") (simp_all add: win_defs)
  moreover have "opens_handle c r = {#d#}" using assms(3) unfolding c by (simp add: win_defs handles_of_def)
  moreover have "closes_handle c = {#}" "closes_handle (CloseHandle d) = {#d#}" unfolding c by (simp_all add: win_defs)
  ultimately show ?thesis
    using o t(1) enum_calls_plain[OF t(2)]
    by (intro exI[of _ "[(c, Inr r)] @ t @ [?close]"]) (simp add: windows_read_dir_def invoke_eq ledger_Cons)
qed

definition one_batch :: "handle \<Rightarrow> win" where
  "one_batch d h c =
    (if c = enum_call d
     then (if enum_pos d h = 0 then Inr (win_reply\<lparr>wp_data := pack_entries [([46], 16), ([97], 0)]\<rparr>)
           else Inl ERROR_NO_MORE_FILES)
     else Inr (win_reply\<lparr>wp_handle := d\<rparr>))"

theorem windows_read_dir_lists_witness:
  "\<exists>t. windows_read_dir id (one_batch 9) \<lparr>wd_handle = 3\<rparr> [] = Some (Ok [\<lparr>de_name = from_wide [97], de_type = TFile\<rparr>], t)"
proof -
  let ?c = "NtCreateFile 3 [] (FILE_LIST_DIRECTORY OR SYNCHRONIZE) OBJ_CASE_INSENSITIVE FILE_OPEN
    (FILE_DIRECTORY_FILE OR FILE_SYNCHRONOUS_IO_NONALERT)"
  have s: "serves_batches (one_batch 9) 9 [[([46], 16), ([97], 0)]] ERROR_NO_MORE_FILES"
    by (auto simp: serves_batches_def one_batch_def entry_size_def)
  have l: "dir_listed [([46], 16), ([97], 0)] = [(from_wide [97], TFile)]"
    by (simp add: dir_listed_def file_type_of_attributes_def)
  have "one_batch 9 [] ?c = Inr (win_reply\<lparr>wp_handle := 9\<rparr>)" by (simp add: one_batch_def enum_call_def)
  from windows_read_dir_lists[OF s this, of "\<lparr>wd_handle = 3\<rparr>" id] show ?thesis
    by (auto simp: from_raw_def enum_pos_def l)
qed

end
