(* ===== verification/Windows_Process.thy ===== *)
theory Windows_Process
  imports Windows_Fs Winargv Platform_Process Utf8
begin

text \<open>
  The processes of the Windows backend: spawning, waiting and job objects
  (\<open>platform-windows/src/sys/proc.rs\<close>) and the spawner, the child and the group handle on them
  (\<open>platform-windows/src/process.rs\<close>).  The file given to \<open>Stdio::File\<close> is \<open>None\<close> when it belongs to
  another backend.  The children of \<open>wait_any\<close> are this backend's own.
\<close>

abbreviation STD_INPUT_HANDLE :: u32 where "STD_INPUT_HANDLE \<equiv> 0xFFFFFFF6"
abbreviation STD_OUTPUT_HANDLE :: u32 where "STD_OUTPUT_HANDLE \<equiv> 0xFFFFFFF5"
abbreviation STD_ERROR_HANDLE :: u32 where "STD_ERROR_HANDLE \<equiv> 0xFFFFFFF4"
abbreviation HANDLE_FLAG_INHERIT :: u32 where "HANDLE_FLAG_INHERIT \<equiv> 1"
abbreviation FILE_SHARE_READ_WRITE :: u32 where "FILE_SHARE_READ_WRITE \<equiv> 3"
abbreviation CREATE_SUSPENDED :: u32 where "CREATE_SUSPENDED \<equiv> 4"
abbreviation DETACHED_PROCESS :: u32 where "DETACHED_PROCESS \<equiv> 8"
abbreviation CREATE_NEW_PROCESS_GROUP :: u32 where "CREATE_NEW_PROCESS_GROUP \<equiv> 0x200"
abbreviation CREATE_UNICODE_ENVIRONMENT :: u32 where "CREATE_UNICODE_ENVIRONMENT \<equiv> 0x400"
abbreviation KILL_ON_JOB_CLOSE :: u32 where "KILL_ON_JOB_CLOSE \<equiv> 0x2000"
abbreviation PROCESS_TERMINATE :: u32 where "PROCESS_TERMINATE \<equiv> 1"
abbreviation PROCESS_SET_QUOTA :: u32 where "PROCESS_SET_QUOTA \<equiv> 0x100"
abbreviation PROCESS_QUERY_LIMITED_INFORMATION :: u32 where "PROCESS_QUERY_LIMITED_INFORMATION \<equiv> 0x1000"
abbreviation WAIT_OBJECT_0 :: u32 where "WAIT_OBJECT_0 \<equiv> 0"
abbreviation WAIT_TIMEOUT :: u32 where "WAIT_TIMEOUT \<equiv> 258"
abbreviation STILL_ACTIVE :: u32 where "STILL_ACTIVE \<equiv> 259"
abbreviation INFINITE :: u32 where "INFINITE \<equiv> 0xFFFFFFFF"

section \<open>The environment block\<close>

definition env_entry :: "string \<times> string \<Rightarrow> u16 list" where
  "env_entry kv = encode_wide (fst kv) @ [61] @ encode_wide (snd kv)"

definition env_block :: "EnvSpec \<Rightarrow> u16 list option" where
  "env_block env =
    (case env of
       EnvInherit \<Rightarrow> None
     | EnvExplicit m \<Rightarrow>
        (let block = concat (map (\<lambda>kv. env_entry kv @ [0]) m) @ [0]
         in Some (if length block = 1 then block @ [0] else block)))"

section \<open>The standard streams\<close>

definition win_fail :: "string \<Rightarrow> PlatformError" where
  "win_fail op = new_error Other NoCode op"

definition inheritable_nul :: "win \<Rightarrow> bool \<Rightarrow> handle weff" where
  "inheritable_nul os read =
    (let mk = last_win32_err ''CreateFileW'' ''NUL''
     in owned os mk mk (CreateFileW (to_wide_nul ''NUL'') (if read then FILE_GENERIC_READ else FILE_GENERIC_WRITE)
          FILE_SHARE_READ_WRITE True OPEN_EXISTING 0))"

text \<open>The child end and the parent end.\<close>

definition make_pipe :: "win \<Rightarrow> bool \<Rightarrow> (handle \<times> handle) weff" where
  "make_pipe os stdin_slot =
    attempt (call os (last_win32_err ''CreatePipe'' '''') (CreatePipe True)) (\<lambda>r.
      case from_raw (wp_handle r) of
        None \<Rightarrow> ret (Err (win_fail ''CreatePipe''))
      | Some rd \<Rightarrow>
         (case from_raw (wp_handle2 r) of
            None \<Rightarrow> or_close os (CloseHandle rd) (ret (Err (win_fail ''CreatePipe'')))
          | Some wr \<Rightarrow>
             (let (ch, parent) = (if stdin_slot then (rd, wr) else (wr, rd))
              in or_close os (CloseHandle ch) (or_close os (CloseHandle parent)
                   (attempt (call os (last_win32_err ''SetHandleInformation'' '''')
                      (SetHandleInformation parent HANDLE_FLAG_INHERIT 0)) (\<lambda>_.
                    ret (Ok (ch, parent))))))))"

definition inheritable_dup_of_file :: "win \<Rightarrow> WindowsFile option \<Rightarrow> handle weff" where
  "inheritable_dup_of_file os f =
    (case f of
       None \<Rightarrow> ret (Err (new_error Unsupported NoCode ''CreateProcessW: Stdio::File from a foreign backend''))
     | Some w \<Rightarrow> duplicate os (wf_handle w) True)"

definition std_handle_raw :: "win \<Rightarrow> u32 \<Rightarrow> win_calls \<Rightarrow> handle \<times> win_calls" where
  "std_handle_raw os slot h =
    (case invoke os (GetStdHandle slot) h of (Inl _, h1) \<Rightarrow> (- 1, h1) | (Inr r, h1) \<Rightarrow> (wp_handle r, h1))"

definition inheritable_dup_of_std :: "win \<Rightarrow> u32 \<Rightarrow> handle option weff" where
  "inheritable_dup_of_std os slot h =
    (case std_handle_raw os slot h of
       (current, h1) \<Rightarrow>
         (if current = 0 \<or> current = - 1 then (Ok None, h1)
          else attempt (call os (last_win32_err ''DuplicateHandle'' '''') (DuplicateHandle current True))
                 (\<lambda>r. ret (Ok (from_raw (wp_handle r)))) h1))"

text \<open>One slot: the handle for the child and, for a pipe, the parent's end.\<close>

definition wire_slot :: "win \<Rightarrow> nat \<Rightarrow> WindowsFile option Stdio \<Rightarrow> (handle option \<times> handle option) weff" where
  "wire_slot os i spec =
    (case spec of
       StdioNull \<Rightarrow> attempt (inheritable_nul os (i = 0)) (\<lambda>d. ret (Ok (Some d, None)))
     | StdioInherit \<Rightarrow>
         attempt (inheritable_dup_of_std os ([STD_INPUT_HANDLE, STD_OUTPUT_HANDLE, STD_ERROR_HANDLE] ! i))
           (\<lambda>d. ret (Ok (d, None)))
     | StdioPipe \<Rightarrow> attempt (make_pipe os (i = 0)) (\<lambda>(ch, parent). ret (Ok (Some ch, Some parent)))
     | StdioFile f \<Rightarrow> attempt (inheritable_dup_of_file os f) (\<lambda>d. ret (Ok (Some d, None))))"

definition somes :: "'a option list \<Rightarrow> 'a list" where
  "somes xs = List.map_filter id xs"

text \<open>Dropping several handles, in order.\<close>

fun close_all :: "win \<Rightarrow> handle list \<Rightarrow> win_calls \<Rightarrow> win_calls" where
  "close_all os [] h = h"
| "close_all os (d # ds) h = close_all os ds (snd (invoke os (CloseHandle d) h))"

definition or_close_all :: "win \<Rightarrow> handle list \<Rightarrow> 'a weff \<Rightarrow> 'a weff" where
  "or_close_all os ds m h =
    (case m h of (Err e, h1) \<Rightarrow> (Err e, close_all os ds h1) | (Ok x, h1) \<Rightarrow> (Ok x, h1))"

definition finally_close_all :: "win \<Rightarrow> handle list \<Rightarrow> 'a weff \<Rightarrow> 'a weff" where
  "finally_close_all os ds m h = (case m h of (r, h1) \<Rightarrow> (r, close_all os ds h1))"

fun wire_all ::
  "win \<Rightarrow> nat \<Rightarrow> WindowsFile option Stdio list \<Rightarrow> handle option list \<Rightarrow> handle option list \<Rightarrow>
   (handle option list \<times> handle option list) weff" where
  "wire_all os i [] slots pipes = ret (Ok (slots, pipes))"
| "wire_all os i (s # ss) slots pipes =
    attempt (or_close_all os (somes slots @ somes pipes) (wire_slot os i s))
      (\<lambda>(c, p). wire_all os (Suc i) ss (slots @ [c]) (pipes @ [p]))"

section \<open>Job objects\<close>

definition create_kill_on_close_job :: "win \<Rightarrow> handle weff" where
  "create_kill_on_close_job os =
    (let mk = last_win32_err ''CreateJobObjectW'' '''' in
     attempt (owned os mk mk CreateJobObjectW) (\<lambda>job.
       or_close os (CloseHandle job)
         (attempt (call os (last_win32_err ''SetInformationJobObject'' '''')
            (SetInformationJobObject job KILL_ON_JOB_CLOSE)) (\<lambda>_.
          ret (Ok job)))))"

definition assign_to_job :: "win \<Rightarrow> handle \<Rightarrow> handle \<Rightarrow> unit weff" where
  "assign_to_job os job process =
    unit_call os (last_win32_err ''AssignProcessToJobObject'' '''') (AssignProcessToJobObject job process)"

definition adopt_process :: "win \<Rightarrow> u32 \<Rightarrow> (handle \<times> handle) weff" where
  "adopt_process os pid =
    (let mk = last_win32_err ''OpenProcess'' '''' in
     attempt (owned os mk mk (OpenProcess (PROCESS_SET_QUOTA OR PROCESS_TERMINATE) pid)) (\<lambda>process.
       or_close os (CloseHandle process)
         (attempt (create_kill_on_close_job os) (\<lambda>job.
            or_close os (CloseHandle job)
              (attempt (assign_to_job os job process) (\<lambda>_. ret (Ok (process, job))))))))"

definition resume_thread :: "win \<Rightarrow> handle \<Rightarrow> unit weff" where
  "resume_thread os thread = unit_call os (last_win32_err ''ResumeThread'' '''') (ResumeThread thread)"

definition terminate_job :: "win \<Rightarrow> handle \<Rightarrow> unit weff" where
  "terminate_job os job = unit_call os (last_win32_err ''TerminateJobObject'' '''') (TerminateJobObject job 1)"

definition terminate_process :: "win \<Rightarrow> handle \<Rightarrow> unit weff" where
  "terminate_process os process = unit_call os (last_win32_err ''TerminateProcess'' '''') (TerminateProcess process 1)"

section \<open>Spawning\<close>

text \<open>The closure that puts the suspended child into its job and lets it run.\<close>

definition group_sequence :: "win \<Rightarrow> handle \<Rightarrow> handle option \<Rightarrow> handle weff" where
  "group_sequence os process thread =
    attempt (create_kill_on_close_job os) (\<lambda>job.
      or_close os (CloseHandle job)
        (attempt (assign_to_job os job process) (\<lambda>_.
         attempt (ret (case thread of None \<Rightarrow> Err (win_fail ''CreateProcessW thread'') | Some t \<Rightarrow> Ok t)) (\<lambda>t.
         attempt (resume_thread os t) (\<lambda>_. ret (Ok job))))))"

definition or_terminate :: "win \<Rightarrow> handle \<Rightarrow> 'a weff \<Rightarrow> 'a weff" where
  "or_terminate os process m h =
    (case m h of (Err e, h1) \<Rightarrow> (Err e, snd (terminate_process os process h1)) | (Ok x, h1) \<Rightarrow> (Ok x, h1))"

text \<open>After the process was created: the process and thread handles, the id, whether it leads a group.\<close>

definition enter_group :: "win \<Rightarrow> handle \<Rightarrow> handle option \<Rightarrow> bool \<Rightarrow> handle option weff" where
  "enter_group os process thread new_group =
    (if \<not> new_group then finally_close_all os (somes [thread]) (ret (Ok None))
     else or_close os (CloseHandle process) (finally_close_all os (somes [thread])
            (or_terminate os process (attempt (group_sequence os process thread) (\<lambda>job. ret (Ok (Some job)))))))"

definition std_triple :: "handle option list \<Rightarrow> handle \<times> handle \<times> handle" where
  "std_triple slots =
    (let raw = (\<lambda>x. case x of None \<Rightarrow> 0 | Some d \<Rightarrow> d) in (raw (slots ! 0), raw (slots ! 1), raw (slots ! 2)))"

definition creation_flags :: "EnvSpec \<Rightarrow> bool \<Rightarrow> bool \<Rightarrow> u32" where
  "creation_flags env new_group detached =
    (let flags = (if env_block env \<noteq> None then CREATE_UNICODE_ENVIRONMENT else 0);
         flags = (if new_group then flags OR CREATE_SUSPENDED else flags)
     in if detached then flags OR (CREATE_NEW_PROCESS_GROUP OR DETACHED_PROCESS) else flags)"

definition uses_handles :: "'f Stdio list \<Rightarrow> bool" where
  "uses_handles stdio = list_ex (\<lambda>s. case s of StdioInherit \<Rightarrow> False | _ \<Rightarrow> True) stdio"

definition create_process ::
  "win \<Rightarrow> u16 list \<Rightarrow> string \<Rightarrow> EnvSpec \<Rightarrow> bool \<Rightarrow> handle option list \<Rightarrow> bool \<Rightarrow> bool \<Rightarrow>
   (handle \<times> handle option \<times> u32) weff" where
  "create_process os line cwd env use slots new_group detached =
    attempt (call os (last_win32_err ''CreateProcessW'' cwd)
        (CreateProcessW (line @ [0]) use (creation_flags env new_group detached) (env_block env) (to_wide_nul cwd)
          (if use then Some (std_triple slots) else None))) (\<lambda>r.
      case from_raw (wp_handle r) of
        None \<Rightarrow> ret (Err (win_fail ''CreateProcessW''))
      | Some process \<Rightarrow>
          attempt (enter_group os process (from_raw (wp_handle2 r)) new_group) (\<lambda>job.
          ret (Ok (process, job, wp_num r))))"

definition spawn_process ::
  "win \<Rightarrow> u16 list \<Rightarrow> string \<Rightarrow> EnvSpec \<Rightarrow> WindowsFile option Stdio list \<Rightarrow> bool \<Rightarrow> bool \<Rightarrow>
   (handle \<times> handle option \<times> u32 \<times> handle option list) weff" where
  "spawn_process os line cwd env stdio new_group detached =
    (let use = uses_handles stdio in
     attempt (if use then wire_all os 0 stdio [] [] else ret (Ok ([None, None, None], [None, None, None])))
       (\<lambda>(slots, pipes).
         or_close_all os (somes pipes) (finally_close_all os (somes slots)
           (attempt (create_process os line cwd env use slots new_group detached) (\<lambda>(process, job, pid).
            ret (Ok (process, job, pid, pipes)))))))"

section \<open>Waiting\<close>

definition wait_chunk :: "win \<Rightarrow> handle list \<Rightarrow> u32 \<Rightarrow> nat option weff" where
  "wait_chunk os chunk ms h =
    (case invoke os (WaitForMultipleObjects chunk ms) h of
       (Inl _, h1) \<Rightarrow> (Err (last_win32_err ''WaitForMultipleObjects'' '''' (last_error h1)), h1)
     | (Inr r, h1) \<Rightarrow>
        (if wp_num r = WAIT_TIMEOUT then (Ok None, h1)
         else if unat (wp_num r - WAIT_OBJECT_0) < length chunk then (Ok (Some (unat (wp_num r - WAIT_OBJECT_0))), h1)
         else (Err (last_win32_err ''WaitForMultipleObjects'' '''' (last_error h1)), h1)))"

abbreviation MAXIMUM_WAIT_OBJECTS :: nat where "MAXIMUM_WAIT_OBJECTS \<equiv> 64"

text \<open>One sweep over the chunks with a zero timeout; \<open>base\<close> is the index of the first handle.\<close>

function sweep :: "win \<Rightarrow> nat \<Rightarrow> handle list \<Rightarrow> nat option weff" where
  "sweep os base raw h =
    (if raw = [] then (Ok None, h)
     else case wait_chunk os (take MAXIMUM_WAIT_OBJECTS raw) 0 h of
            (Err e, h1) \<Rightarrow> (Err e, h1)
          | (Ok (Some hit), h1) \<Rightarrow> (Ok (Some (base + hit)), h1)
          | (Ok None, h1) \<Rightarrow> sweep os (base + MAXIMUM_WAIT_OBJECTS) (drop MAXIMUM_WAIT_OBJECTS raw) h1)"
  by pat_completeness auto
termination sweep
  by (relation "measure (\<lambda>(_, _, raw, _). length raw)") auto

declare sweep.simps [simp del]

definition instant_now :: "win \<Rightarrow> win_calls \<Rightarrow> nat \<times> win_calls" where
  "instant_now os h =
    (case invoke os InstantNow h of (Inl _, h1) \<Rightarrow> (0, h1) | (Inr r, h1) \<Rightarrow> (wp_clock r, h1))"

text \<open>The clock is in nanoseconds; the deadline is \<open>None\<close> when there is no timeout.\<close>

partial_function (option) sweep_loop ::
  "win \<Rightarrow> handle list \<Rightarrow> nat option \<Rightarrow> win_calls \<Rightarrow> (nat option result \<times> win_calls) option" where
  [code]: "sweep_loop os raw deadline h =
    (case sweep os 0 raw h of
       (Inl e, h1) \<Rightarrow> Some (Err e, h1)
     | (Inr hit, h1) \<Rightarrow>
        (if hit \<noteq> None then Some (Ok hit, h1)
         else case (case deadline of None \<Rightarrow> (False, h1)
                    | Some d \<Rightarrow> (case instant_now os h1 of (t, h2) \<Rightarrow> (d \<le> t, h2))) of
                (expired, h2) \<Rightarrow>
                  (if expired then Some (Ok None, h2)
                   else sweep_loop os raw deadline (snd (invoke os (ThreadSleep 10) h2)))))"

definition wait_ms :: "nat option \<Rightarrow> u32" where
  "wait_ms timeout =
    (case timeout of None \<Rightarrow> INFINITE | Some t \<Rightarrow> of_nat (min (t div 1000000) (2 ^ 32 - 2)))"

definition wait_many :: "win \<Rightarrow> handle list \<Rightarrow> nat option \<Rightarrow> win_calls \<Rightarrow> (nat option result \<times> win_calls) option" where
  "wait_many os raw timeout h =
    (if length raw \<le> MAXIMUM_WAIT_OBJECTS then Some (wait_chunk os raw (wait_ms timeout) h)
     else case timeout of
            None \<Rightarrow> sweep_loop os raw None h
          | Some t \<Rightarrow> (case instant_now os h of (now, h1) \<Rightarrow> sweep_loop os raw (Some (now + t)) h1))"

definition exit_code :: "win \<Rightarrow> handle \<Rightarrow> u32 weff" where
  "exit_code os process =
    attempt (call os (last_win32_err ''GetExitCodeProcess'' '''') (GetExitCodeProcess process)) (\<lambda>r. ret (Ok (wp_num r)))"

definition try_wait_process :: "win \<Rightarrow> handle \<Rightarrow> ExitStatus option weff" where
  "try_wait_process os process h =
    (case invoke os (WaitForSingleObject process 0) h of
       (a, h1) \<Rightarrow>
         (if (case a of Inl _ \<Rightarrow> True | Inr r \<Rightarrow> wp_num r \<noteq> WAIT_OBJECT_0) then (Ok None, h1)
          else attempt (exit_code os process) (\<lambda>code. ret (Ok (Some (Code code)))) h1))"

definition wait_process :: "win \<Rightarrow> handle \<Rightarrow> ExitStatus weff" where
  "wait_process os process h =
    (case invoke os (WaitForSingleObject process INFINITE) h of
       (a, h1) \<Rightarrow>
         (if (case a of Inl _ \<Rightarrow> True | Inr r \<Rightarrow> wp_num r \<noteq> WAIT_OBJECT_0)
          then (Err (last_win32_err ''WaitForSingleObject'' '''' (last_error h1)), h1)
          else attempt (exit_code os process) (\<lambda>code. ret (Ok (Code code))) h1))"

definition is_alive_pid :: "win \<Rightarrow> u32 \<Rightarrow> bool weff" where
  "is_alive_pid os pid h =
    (case invoke os (OpenProcess PROCESS_QUERY_LIMITED_INFORMATION pid) h of
       (a, h1) \<Rightarrow>
         (case (case a of Inl _ \<Rightarrow> None | Inr r \<Rightarrow> from_raw (wp_handle r)) of
            None \<Rightarrow> (Ok (last_error h1 \<noteq> ERROR_INVALID_PARAMETER), h1)
          | Some process \<Rightarrow>
              finally_close os (CloseHandle process)
                (attempt (exit_code os process) (\<lambda>code. ret (Ok (code = STILL_ACTIVE)))) h1))"

section \<open>The child\<close>

record WindowsChild =
  wc_process :: handle
  wc_job :: "handle option"
  wc_pid :: u32
  wc_reaped :: "ExitStatus option"
  wc_pipes :: "handle option list"

definition from_parts :: "handle \<Rightarrow> handle option \<Rightarrow> u32 \<Rightarrow> WindowsChild" where
  "from_parts process job pid =
    \<lparr>wc_process = process, wc_job = job, wc_pid = pid, wc_reaped = None, wc_pipes = [None, None, None]\<rparr>"

text \<open>What a child owns, in the order in which its fields are dropped.\<close>

definition child_handles :: "WindowsChild \<Rightarrow> handle list" where
  "child_handles c = wc_process c # somes (wc_job c # wc_pipes c)"

definition disown :: "WindowsChild \<Rightarrow> handle option \<times> WindowsChild" where
  "disown c = (wc_job c, c\<lparr>wc_job := None\<rparr>)"

definition child_wait :: "win \<Rightarrow> WindowsChild \<Rightarrow> ExitStatus weff" where
  "child_wait os c =
    finally_close_all os (child_handles c)
      (case wc_reaped c of Some status \<Rightarrow> ret (Ok status) | None \<Rightarrow> wait_process os (wc_process c))"

definition child_id :: "WindowsChild \<Rightarrow> u32" where
  "child_id c = wc_pid c"

definition unsupported :: "string \<Rightarrow> 'a result" where
  "unsupported op = Err (new_error Unsupported NoCode op)"

definition child_kill_tree :: "win \<Rightarrow> Signal \<Rightarrow> WindowsChild \<Rightarrow> unit weff" where
  "child_kill_tree os sig c =
    (if sig \<noteq> SigKill then ret (unsupported ''kill_tree'')
     else case wc_job c of Some job \<Rightarrow> terminate_job os job | None \<Rightarrow> ret (unsupported ''kill_tree''))"

definition child_kill_single :: "win \<Rightarrow> Signal \<Rightarrow> WindowsChild \<Rightarrow> unit weff" where
  "child_kill_single os sig c =
    (if sig \<noteq> SigKill then ret (unsupported ''kill_single'') else terminate_process os (wc_process c))"

definition child_try_wait ::
  "win \<Rightarrow> WindowsChild \<Rightarrow> win_calls \<Rightarrow> ExitStatus option result \<times> WindowsChild \<times> win_calls" where
  "child_try_wait os c h =
    (if wc_reaped c = None
     then (case try_wait_process os (wc_process c) h of
             (Err e, h1) \<Rightarrow> (Err e, c, h1)
           | (Ok s, h1) \<Rightarrow> (Ok s, c\<lparr>wc_reaped := s\<rparr>, h1))
     else (Ok (wc_reaped c), c, h))"

definition child_wait_job :: "WindowsChild \<Rightarrow> ExitStatus result" where
  "child_wait_job c = unsupported ''wait_job''"

definition child_try_wait_job :: "WindowsChild \<Rightarrow> ExitStatus option result" where
  "child_try_wait_job c = unsupported ''try_wait_job''"

definition take_pipe :: "nat \<Rightarrow> WindowsChild \<Rightarrow> WindowsFile option \<times> WindowsChild" where
  "take_pipe i c = (map_option windows_file_of (wc_pipes c ! i), c\<lparr>wc_pipes := (wc_pipes c)[i := None]\<rparr>)"

definition take_stdin :: "WindowsChild \<Rightarrow> WindowsFile option \<times> WindowsChild" where "take_stdin = take_pipe 0"
definition take_stdout :: "WindowsChild \<Rightarrow> WindowsFile option \<times> WindowsChild" where "take_stdout = take_pipe 1"
definition take_stderr :: "WindowsChild \<Rightarrow> WindowsFile option \<times> WindowsChild" where "take_stderr = take_pipe 2"

record WindowsGroupHandle =
  wg_process :: handle
  wg_job :: handle

definition group_kill_tree :: "win \<Rightarrow> Signal \<Rightarrow> WindowsGroupHandle \<Rightarrow> unit weff" where
  "group_kill_tree os sig g =
    (if sig \<noteq> SigKill then ret (unsupported ''kill_tree'') else terminate_job os (wg_job g))"

definition group_kill_single :: "win \<Rightarrow> Signal \<Rightarrow> WindowsGroupHandle \<Rightarrow> unit weff" where
  "group_kill_single os sig g =
    (if sig \<noteq> SigKill then ret (unsupported ''kill_single'') else terminate_process os (wg_process g))"

section \<open>Finding the program\<close>

text \<open>The machine's answers: the environment variables, whether a path names a regular file, and
  the path functions of the standard library, whose parsing of drives, shares and verbatim prefixes
  the code does not depend on (\<open>Path::extension\<close>, \<open>Path::is_absolute\<close>, \<open>Path::join\<close>,
  \<open>env::split_paths\<close>).\<close>

record Paths =
  ps_pathext :: "string option"
  ps_path :: "string option"
  ps_is_file :: "string \<Rightarrow> bool"
  ps_extension :: "string \<Rightarrow> string option"
  ps_is_absolute :: "string \<Rightarrow> bool"
  ps_join :: "string \<Rightarrow> string \<Rightarrow> string"
  ps_split :: "string \<Rightarrow> string list"

definition DEFAULT_PATHEXT :: string where "DEFAULT_PATHEXT = ''.COM;.EXE;.BAT;.CMD''"

definition has_extension :: "Paths \<Rightarrow> string \<Rightarrow> bool" where
  "has_extension ps program = (case ps_extension ps program of None \<Rightarrow> False | Some e \<Rightarrow> e \<noteq> [])"

definition candidate_if_file :: "Paths \<Rightarrow> string \<Rightarrow> string option" where
  "candidate_if_file ps path = (if ps_is_file ps path then Some path else None)"

text \<open>\<open>str::trim\<close>.\<close>

definition str_trim :: "string \<Rightarrow> string" where
  "str_trim s =
    (let strip = dropWhile white_space
     in from_bytes (concat (map wtf8_char (rev (strip (rev (strip (wtf8_points (as_bytes s)))))))))"

text \<open>The text of an \<open>OsStr\<close>: a surrogate on its own becomes the replacement character.\<close>

definition wtf8_lossy :: "string \<Rightarrow> string" where
  "wtf8_lossy s =
    from_bytes (concat (map (\<lambda>c. wtf8_char (if 0xD800 \<le> c \<and> c < 0xE000 then 0xFFFD else c))
      (wtf8_points (as_bytes s))))"

definition extensions_of :: "string \<Rightarrow> string list" where
  "extensions_of pathext = filter (\<lambda>e. e \<noteq> []) (map str_trim (split_on (CHR '';'') (wtf8_lossy pathext)))"

fun first_hit :: "('a \<Rightarrow> 'b option) \<Rightarrow> 'a list \<Rightarrow> 'b option" where
  "first_hit f [] = None"
| "first_hit f (x # xs) = (case f x of Some y \<Rightarrow> Some y | None \<Rightarrow> first_hit f xs)"

definition resolve_with_pathext :: "Paths \<Rightarrow> string \<Rightarrow> string \<Rightarrow> string option" where
  "resolve_with_pathext ps base pathext =
    (case (if has_extension ps base then candidate_if_file ps base else None) of
       Some hit \<Rightarrow> Some hit
     | None \<Rightarrow> first_hit (\<lambda>ext. candidate_if_file ps (base @ ext)) (extensions_of pathext))"

text \<open>A backslash is character 92, a slash 47.\<close>

definition is_pathy :: "Paths \<Rightarrow> string \<Rightarrow> bool" where
  "is_pathy ps program \<longleftrightarrow> list_ex (\<lambda>b. b = 92 \<or> b = 47) (as_bytes (wtf8_lossy program)) \<or> ps_is_absolute ps program"

definition resolve :: "Paths \<Rightarrow> string \<Rightarrow> string result" where
  "resolve ps program =
    (let pathext = (case ps_pathext ps of None \<Rightarrow> DEFAULT_PATHEXT | Some e \<Rightarrow> e);
         found = (\<lambda>hit. case hit of Some p \<Rightarrow> Ok p | None \<Rightarrow> Err (with_path (new_error NotFound NoCode ''resolve'') program))
     in if program = [] then Err (with_path (new_error InvalidInput NoCode ''resolve'') program)
        else if is_pathy ps program then found (resolve_with_pathext ps program pathext)
        else found (case ps_path ps of
                      None \<Rightarrow> None
                    | Some path_var \<Rightarrow>
                        first_hit (\<lambda>dir. if dir = [] then None else resolve_with_pathext ps (ps_join ps dir program) pathext)
                          (ps_split ps path_var)))"

section \<open>The spawner\<close>

definition build_command_line :: "string \<Rightarrow> string list \<Rightarrow> u16 list result" where
  "build_command_line program args =
    (case build_command_line_wide (encode_wide program) (map encode_wide args) of
       Err e \<Rightarrow> Err (with_path e program) | Ok line \<Rightarrow> Ok line)"

definition spawn :: "win \<Rightarrow> Paths \<Rightarrow> WindowsFile option Command \<Rightarrow> WindowsChild weff" where
  "spawn os ps cmd =
    (if (case cmd_group cmd of JoinGroup _ \<Rightarrow> True | _ \<Rightarrow> False) then ret (unsupported ''spawn: GroupSpec::JoinGroup'')
     else if cmd_detached cmd \<and> cmd_group cmd = NewGroup
     then ret (unsupported ''spawn: detach with GroupSpec::NewGroup'')
     else
       attempt (ret (resolve ps (cmd_program cmd))) (\<lambda>resolved.
       attempt (ret (build_command_line resolved (cmd_argv cmd))) (\<lambda>line.
       attempt (spawn_process os line (cmd_cwd cmd) (cmd_env cmd) [cmd_stdin cmd, cmd_stdout cmd, cmd_stderr cmd]
                  (cmd_group cmd = NewGroup) (cmd_detached cmd)) (\<lambda>(process, job, pid, pipes).
       ret (Ok \<lparr>wc_process = process, wc_job = job, wc_pid = pid, wc_reaped = None, wc_pipes = pipes\<rparr>)))))"

text \<open>The first pass of \<open>wait_any\<close>: the index of a child that is known to have ended.\<close>

fun fast_pass ::
  "win \<Rightarrow> nat \<Rightarrow> WindowsChild list \<Rightarrow> win_calls \<Rightarrow> nat option result \<times> WindowsChild list \<times> win_calls" where
  "fast_pass os i [] h = (Ok None, [], h)"
| "fast_pass os i (c # cs) h =
    (case child_try_wait os c h of
       (Err e, c1, h1) \<Rightarrow> (Err e, c1 # cs, h1)
     | (Ok (Some _), c1, h1) \<Rightarrow> (Ok (Some i), c1 # cs, h1)
     | (Ok None, c1, h1) \<Rightarrow> (case fast_pass os (Suc i) cs h1 of (r, cs1, h2) \<Rightarrow> (r, c1 # cs1, h2)))"

definition spawner_wait_any ::
  "win \<Rightarrow> WindowsChild list \<Rightarrow> nat option \<Rightarrow> win_calls \<Rightarrow>
   (nat option result \<times> WindowsChild list \<times> win_calls) option" where
  "spawner_wait_any os cs timeout h =
    (if cs = [] then Some (Err (new_error InvalidInput NoCode ''wait_any''), cs, h)
     else case fast_pass os 0 cs h of
            (Err e, cs1, h1) \<Rightarrow> Some (Err e, cs1, h1)
          | (Ok (Some i), cs1, h1) \<Rightarrow> Some (Ok (Some i), cs1, h1)
          | (Ok None, cs1, h1) \<Rightarrow>
              (case wait_many os (map wc_process cs1) timeout h1 of
                 None \<Rightarrow> None
               | Some (Err e, h2) \<Rightarrow> Some (Err e, cs1, h2)
               | Some (Ok None, h2) \<Rightarrow> Some (Ok None, cs1, h2)
               | Some (Ok (Some index), h2) \<Rightarrow>
                   (case child_try_wait os (cs1 ! index) h2 of
                      (Err e, c1, h3) \<Rightarrow> Some (Err e, cs1[index := c1], h3)
                    | (Ok _, c1, h3) \<Rightarrow> Some (Ok (Some index), cs1[index := c1], h3))))"

definition adopt :: "win \<Rightarrow> u32 \<Rightarrow> WindowsGroupHandle weff" where
  "adopt os pid =
    attempt (adopt_process os pid) (\<lambda>(process, job). ret (Ok \<lparr>wg_process = process, wg_job = job\<rparr>))"

definition spawner_is_alive :: "win \<Rightarrow> u32 \<Rightarrow> bool weff" where
  "spawner_is_alive os pid = is_alive_pid os pid"

definition spawner_is_zombie :: "u32 \<Rightarrow> bool result" where
  "spawner_is_zombie pid = unsupported ''is_zombie''"

section \<open>The handles of a spawn\<close>

lemma somes_simps [simp]:
  "somes [] = []" "somes (None # xs) = somes xs" "somes (Some x # xs) = x # somes xs"
  "somes (xs @ ys) = somes xs @ somes ys"
  by (simp_all add: somes_def map_filter_def)

lemma close_all_Nil:
  "finally_close_all os [] m = m" "or_close_all os [] m = m"
  by (auto simp: finally_close_all_def or_close_all_def split: prod.splits sum.splits)

lemma close_all_Cons:
  "finally_close_all os (d # ds) m = finally_close_all os ds (finally_close os (CloseHandle d) m)"
  "or_close_all os (d # ds) m = or_close_all os ds (or_close os (CloseHandle d) m)"
  by (auto simp: finally_close_all_def or_close_all_def finally_close_def or_close_def split: prod.splits sum.splits)

lemma keeps_finally_all:
  "wins.keeps H (\<lambda>x. mset ds + own x) (mset ds + rest) m \<Longrightarrow> wins.keeps H own rest (finally_close_all os ds m)"
proof (induction ds arbitrary: m)
  case (Cons d ds)
  then show ?case by (auto simp: close_all_Cons intro: wins.keeps_finally)
qed (simp add: close_all_Nil)

lemma keeps_or_close_all:
  "wins.keeps H own (mset ds + rest) m \<Longrightarrow> wins.keeps H own rest (or_close_all os ds m)"
proof (induction ds arbitrary: m)
  case (Cons d ds)
  then show ?case by (auto simp: close_all_Cons intro: wins.keeps_or_close)
qed (simp add: close_all_Nil)

text \<open>A call whose failure is not an early return.\<close>

definition observing :: "win \<Rightarrow> WinCall \<Rightarrow> (i32 + WinReply \<Rightarrow> 'a weff) \<Rightarrow> 'a weff" where
  "observing os c f h = (case invoke os c h of (a, h1) \<Rightarrow> f a h1)"

lemma keeps_observing:
  assumes "closes_handle c = {#}" "\<And>r. opens_handle c r = {#}" "\<And>a. wins.keeps H own rest (f a)"
  shows "wins.keeps H own rest (observing os c f)"
  unfolding accounts_def
proof
  fix h
  let ?a = "os h c"
  obtain r h' where e: "f ?a (h @ [(c, ?a)]) = (r, h')" by force
  obtain t where "h' = (h @ [(c, ?a)]) @ t"
    "H + acquired opens_handle t = released closes_handle t + (case r of Err _ \<Rightarrow> rest | Ok x \<Rightarrow> own x)"
    using accounts_result[OF assms(3) e] .
  then show "\<exists>t. snd (observing os c f h) = h @ t \<and> H + acquired opens_handle t =
      released closes_handle t + (case fst (observing os c f h) of Err _ \<Rightarrow> rest | Ok x \<Rightarrow> own x)"
    using e by (intro exI[of _ "(c, ?a) # t"])
      (simp add: observing_def invoke_eq assms(1,2) acquired_plain ledger_Cons)
qed

lemma inheritable_dup_of_std_eq:
  "inheritable_dup_of_std os slot = observing os (GetStdHandle slot) (\<lambda>a.
     let current = (case a of Inl _ \<Rightarrow> - 1 | Inr r \<Rightarrow> wp_handle r)
     in if current = 0 \<or> current = - 1 then ret (Ok None)
        else attempt (call os (last_win32_err ''DuplicateHandle'' '''') (DuplicateHandle current True))
               (\<lambda>r. ret (Ok (from_raw (wp_handle r)))))"
  by (rule ext) (simp add: inheritable_dup_of_std_def std_handle_raw_def observing_def invoke_eq Let_def ret_def
      split: sum.split)

lemma mset_somes_from_raw: "mset (somes [from_raw d]) = handles_of d"
  by (simp add: handles_of_def from_raw_def)

lemma keeps_inheritable_dup_of_std:
  "wins.keeps H (\<lambda>d. mset (somes [d]) + H) H (inheritable_dup_of_std os slot)"
proof -
  have dup: "wins.keeps H (\<lambda>d. mset (somes [d]) + H) H (attempt (call os mk (DuplicateHandle c True))
      (\<lambda>r. ret (Ok (from_raw (wp_handle r)))))" for mk c
    by (rule accounts_attempt[OF wins.keeps_open]) (simp_all add: win_defs accounts_def mset_somes_from_raw)
  have none: "wins.keeps H (\<lambda>d. mset (somes [d]) + H) H (ret (Ok None))"
    by (simp add: accounts_def)
  show ?thesis unfolding inheritable_dup_of_std_eq Let_def
    by (rule keeps_observing) (simp_all add: win_defs dup none)
qed

lemma keeps_give:
  assumes "own x = H"
  shows "accounts opens closes H own rest (ret (Ok x))"
  using assms by (simp add: accounts_def)

lemma keeps_inheritable_nul: "wins.keeps H (\<lambda>d. add_mset d H) H (inheritable_nul os rd)"
  unfolding inheritable_nul_def Let_def by (rule keeps_win_owned) (simp_all add: win_defs)

lemma keeps_inheritable_dup_of_file: "wins.keeps H (\<lambda>d. add_mset d H) H (inheritable_dup_of_file os f)"
  by (cases f) (simp_all add: inheritable_dup_of_file_def keeps_duplicate accounts_fail)

lemma keeps_pipe_ends:
  "wins.keeps (add_mset c (add_mset p H)) (\<lambda>(ch, parent). add_mset ch (add_mset parent H)) H
     (or_close os (CloseHandle c) (or_close os (CloseHandle p)
       (attempt (call os mk (SetHandleInformation p HANDLE_FLAG_INHERIT 0)) (\<lambda>_. ret (Ok (c, p))))))"
proof (intro wins.keeps_or_close)
  show "wins.keeps (add_mset c (add_mset p H)) (\<lambda>(ch, parent). add_mset ch (add_mset parent H)) (add_mset p (add_mset c H))
     (attempt (call os mk (SetHandleInformation p HANDLE_FLAG_INHERIT 0)) (\<lambda>_. ret (Ok (c, p))))"
    unfolding add_mset_commute[of p c]
    by (intro accounts_attempt[OF wins.keeps_plain] keeps_give) (simp_all add: win_defs)
qed

lemma keeps_make_pipe:
  "wins.keeps H (\<lambda>(ch, parent). add_mset ch (add_mset parent H)) H (make_pipe os b)"
proof -
  have one: "wins.keeps (add_mset d H) own H (or_close os (CloseHandle d) (ret (Err e)))" for d e own
    by (intro wins.keeps_or_close accounts_fail)
  have swapped: "wins.keeps (add_mset p (add_mset c H)) (\<lambda>(ch, parent). add_mset ch (add_mset parent H)) H
     (or_close os (CloseHandle c) (or_close os (CloseHandle p)
       (attempt (call os mk (SetHandleInformation p HANDLE_FLAG_INHERIT 0)) (\<lambda>_. ret (Ok (c, p))))))" for c p mk
    using keeps_pipe_ends[of c p] by (simp only: add_mset_commute[of p c])
  show ?thesis unfolding make_pipe_def
    by (rule accounts_attempt[OF wins.keeps_open])
      (auto simp: win_defs handles_of_def accounts_fail one keeps_pipe_ends swapped split: option.split)
qed

lemma keeps_wire_slot:
  "wins.keeps H (\<lambda>(c, p). mset (somes [c, p]) + H) H (wire_slot os i s)"
proof (cases s)
  case StdioInherit
  have one: "wins.keeps (mset (somes [d]) + H) (\<lambda>(c, p). mset (somes [c, p]) + H) H (ret (Ok (d, None)))" for d
    by (cases d) (simp_all add: keeps_give)
  show ?thesis unfolding StdioInherit wire_slot_def Stdio.case
    by (rule accounts_attempt[OF keeps_inheritable_dup_of_std one])
next
  case StdioNull
  show ?thesis unfolding StdioNull wire_slot_def Stdio.case
    by (intro accounts_attempt[OF keeps_inheritable_nul] keeps_give) simp
next
  case StdioPipe
  show ?thesis unfolding StdioPipe wire_slot_def Stdio.case
    by (rule accounts_attempt[OF keeps_make_pipe]) (auto intro: keeps_give split: prod.split)
next
  case (StdioFile f)
  show ?thesis unfolding StdioFile wire_slot_def Stdio.case
    by (intro accounts_attempt[OF keeps_inheritable_dup_of_file] keeps_give) simp
qed

lemma keeps_wire_all:
  "wins.keeps (mset (somes slots @ somes pipes) + H) (\<lambda>(s, p). mset (somes s @ somes p) + H) H
     (wire_all os i ss slots pipes)"
proof (induction ss arbitrary: i slots pipes)
  case Nil
  show ?case unfolding wire_all.simps by (rule keeps_give) simp
next
  case (Cons s ss)
  let ?H = "mset (somes slots @ somes pipes) + H"
  have slot: "wins.keeps ?H (\<lambda>(c, p). mset (somes [c, p]) + ?H) H
      (or_close_all os (somes slots @ somes pipes) (wire_slot os i s))"
    by (rule keeps_or_close_all[OF keeps_wire_slot])
  have more_slots: "mset (somes [c, p]) + ?H = mset (somes (slots @ [c]) @ somes (pipes @ [p])) + H" for c p
    by (cases c; cases p) simp_all
  show ?case unfolding wire_all.simps
  proof (rule accounts_attempt[OF slot])
    fix x
    show "wins.keeps (case x of (c, p) \<Rightarrow> mset (somes [c, p]) + ?H) (\<lambda>(s, p). mset (somes s @ somes p) + H) H
        (case x of (c, p) \<Rightarrow> wire_all os (Suc i) ss (slots @ [c]) (pipes @ [p]))"
      unfolding more_slots by (cases x) (simp only: prod.case Cons.IH)
  qed
qed

lemma keeps_create_job: "wins.keeps H (\<lambda>job. add_mset job H) H (create_kill_on_close_job os)"
  unfolding create_kill_on_close_job_def Let_def
  by (intro accounts_attempt[OF keeps_win_owned] wins.keeps_or_close accounts_attempt[OF wins.keeps_plain] keeps_give)
    (simp_all add: win_defs)

lemma keeps_assign: "wins.keeps H (\<lambda>_. H) H (assign_to_job os job process)"
  unfolding assign_to_job_def by (rule keeps_unit_call) (simp_all add: win_defs)

lemma keeps_resume: "wins.keeps H (\<lambda>_. H) H (resume_thread os t)"
  unfolding resume_thread_def by (rule keeps_unit_call) (simp_all add: win_defs)

lemma keeps_group_sequence: "wins.keeps H (\<lambda>job. add_mset job H) H (group_sequence os process thread)"
  unfolding group_sequence_def
  by (intro accounts_attempt[OF keeps_create_job] wins.keeps_or_close accounts_attempt[OF keeps_assign]
      keeps_ret_then accounts_attempt[OF keeps_resume] keeps_give) simp

lemma keeps_adopt_process:
  "wins.keeps H (\<lambda>(process, job). add_mset process (add_mset job H)) H (adopt_process os pid)"
  unfolding adopt_process_def Let_def
  by (intro accounts_attempt[OF keeps_win_owned] wins.keeps_or_close accounts_attempt[OF keeps_create_job]
      accounts_attempt[OF keeps_assign] keeps_give) (simp_all add: win_defs add_mset_commute)

lemma keeps_or_terminate:
  assumes "wins.keeps H own rest m"
  shows "wins.keeps H own rest (or_terminate os process m)"
  unfolding accounts_def
proof
  fix h
  obtain r h1 where e: "m h = (r, h1)" by force
  obtain t where t: "h1 = h @ t"
    "H + acquired opens_handle t = released closes_handle t + (case r of Err _ \<Rightarrow> rest | Ok x \<Rightarrow> own x)"
    using accounts_result[OF assms e] .
  have kill: "wins.keeps rest (\<lambda>_. rest) rest (terminate_process os process)"
    unfolding terminate_process_def by (rule keeps_unit_call) (simp_all add: win_defs)
  obtain r' h2 where e': "terminate_process os process h1 = (r', h2)" by force
  obtain u where u: "h2 = h1 @ u" "rest + acquired opens_handle u = released closes_handle u + rest"
    using accounts_result[OF kill e'] by (auto split: sum.splits)
  let ?m = "or_terminate os process m"
  have "H + acquired opens_handle (t @ u) = released closes_handle (t @ u) + rest" if "\<exists>x. r = Err x"
    using t(2) u(2) that by (auto simp: union_assoc[symmetric])
  then show "\<exists>t. snd (?m h) = h @ t \<and> H + acquired opens_handle t =
      released closes_handle t + (case fst (?m h) of Err _ \<Rightarrow> rest | Ok x \<Rightarrow> own x)"
    using e e' t u(1) by (cases r) (force simp: or_terminate_def)+
qed

lemma keeps_enter_group:
  "wins.keeps (mset (process # somes [thread]) + H) (\<lambda>job. mset (process # somes [job]) + H) H
     (enter_group os process thread new_group)"
proof (cases new_group)
  case False
  have "wins.keeps (mset (process # somes [thread]) + H)
      (\<lambda>job. mset (somes [thread]) + (mset (process # somes [job]) + H)) (mset (somes [thread]) + H) (ret (Ok None))"
    by (rule keeps_give) (simp add: ac_simps)
  then show ?thesis using False by (simp only: enter_group_def if_True not_False_eq_True keeps_finally_all)
next
  case True
  let ?H = "mset (process # somes [thread]) + H"
  have "wins.keeps ?H (\<lambda>job. mset (somes [thread]) + (mset (process # somes [job]) + H)) ?H
     (attempt (group_sequence os process thread) (\<lambda>job. ret (Ok (Some job))))"
    by (intro accounts_attempt[OF keeps_group_sequence] keeps_give) simp
  moreover have "?H = mset (somes [thread]) + add_mset process H" by simp
  ultimately show ?thesis using True
    by (simp only: enter_group_def if_False not_True_eq_False)
      (intro wins.keeps_or_close keeps_finally_all keeps_or_terminate, simp only:)
qed

lemma keeps_create_process:
  "wins.keeps H (\<lambda>(process, job, pid). mset (process # somes [job]) + H) H
     (create_process os line cwd env use slots new_group detached)"
  unfolding create_process_def
proof (rule accounts_attempt[OF wins.keeps_open])
  fix r
  let ?c = "CreateProcessW (line @ [0]) use (creation_flags env new_group detached) (env_block env) (to_wide_nul cwd)
    (if use then Some (std_triple slots) else None)"
  have group: "wins.keeps (mset (process # somes [thread]) + H) (\<lambda>(process, job, pid). mset (process # somes [job]) + H) H
     (attempt (enter_group os process thread new_group) (\<lambda>job. ret (Ok (process, job, pid))))" for process thread pid
    by (intro accounts_attempt[OF keeps_enter_group] keeps_give) simp
  have opened: "opens_handle ?c r = (case from_raw (wp_handle r) of None \<Rightarrow> {#}
      | Some process \<Rightarrow> mset (process # somes [from_raw (wp_handle2 r)]))"
    by (simp add: win_defs handles_of_def mset_somes_from_raw[unfolded handles_of_def] split: option.split)
  show "wins.keeps (opens_handle ?c r + H) (\<lambda>(process, job, pid). mset (process # somes [job]) + H) H
      (case from_raw (wp_handle r) of None \<Rightarrow> ret (Err (win_fail ''CreateProcessW''))
       | Some process \<Rightarrow> attempt (enter_group os process (from_raw (wp_handle2 r)) new_group)
           (\<lambda>job. ret (Ok (process, job, wp_num r))))"
    unfolding opened by (cases "from_raw (wp_handle r)") (simp_all only: option.case group add_0 accounts_fail)
qed (simp add: win_defs)

lemma keeps_spawn_process:
  "wins.keeps H (\<lambda>(process, job, pid, pipes). mset (process # somes (job # pipes)) + H) H
     (spawn_process os line cwd env stdio new_group detached)"
proof -
  let ?own = "\<lambda>(process, job, pid, pipes). mset (process # somes (job # pipes)) + H"
  have body: "wins.keeps (mset (somes slots @ somes pipes) + H) ?own H
     (or_close_all os (somes pipes) (finally_close_all os (somes slots)
        (attempt (create_process os line cwd env use slots new_group detached)
           (\<lambda>(process, job, pid). ret (Ok (process, job, pid, pipes))))))" for use slots pipes
  proof (rule keeps_or_close_all, rule keeps_finally_all)
    let ?H = "mset (somes slots @ somes pipes) + H"
    have "wins.keeps ?H (\<lambda>x. mset (somes slots) + ?own x) ?H
       (attempt (create_process os line cwd env use slots new_group detached)
         (\<lambda>(process, job, pid). ret (Ok (process, job, pid, pipes))))"
      by (rule accounts_attempt[OF keeps_create_process]) (auto intro!: keeps_give simp: somes_def map_filter_def)
    then show "wins.keeps ?H (\<lambda>x. mset (somes slots) + ?own x) (mset (somes slots) + (mset (somes pipes) + H))
       (attempt (create_process os line cwd env use slots new_group detached)
         (\<lambda>(process, job, pid). ret (Ok (process, job, pid, pipes))))"
      by (simp add: union_assoc)
  qed
  have wired: "wins.keeps H (\<lambda>(s, p). mset (somes s @ somes p) + H) H
     (if use then wire_all os 0 stdio [] [] else ret (Ok ([None, None, None], [None, None, None])))" for use
    using keeps_wire_all[of "[]" "[]" H os 0 stdio] by (auto intro!: keeps_give)
  show ?thesis unfolding spawn_process_def Let_def
    by (rule accounts_attempt[OF wired]) (simp only: split_paired_all prod.case body)
qed

lemma keeps_spawn: "wins.keeps H (\<lambda>c. mset (child_handles c) + H) H (spawn os ps cmd)"
proof -
  have "wins.keeps H (\<lambda>c. mset (child_handles c) + H) H
     (attempt (spawn_process os line cwd env stdio ng dt) (\<lambda>(process, job, pid, pipes).
        ret (Ok \<lparr>wc_process = process, wc_job = job, wc_pid = pid, wc_reaped = None, wc_pipes = pipes\<rparr>)))"
    for line cwd env stdio ng dt
    by (rule accounts_attempt[OF keeps_spawn_process]) (auto intro!: keeps_give simp: child_handles_def)
  then show ?thesis
    unfolding spawn_def unsupported_def by (auto intro!: keeps_ret_then simp only: accounts_fail split: if_split)
qed

section \<open>The order of a spawn\<close>

text \<open>The reply names a process that was created suspended.\<close>

definition created_suspended :: "WinReply \<Rightarrow> win_calls \<Rightarrow> bool" where
  "created_suspended r p \<longleftrightarrow>
    (\<exists>line use flags env cwd std. (CreateProcessW line use flags env cwd std, Inr r) \<in> set p \<and> bit flags 2)"

definition uninheritable :: "WinReply \<Rightarrow> win_calls \<Rightarrow> bool" where
  "uninheritable r p \<longleftrightarrow>
    made (SetHandleInformation (wp_handle r) HANDLE_FLAG_INHERIT 0) p \<or>
    made (SetHandleInformation (wp_handle2 r) HANDLE_FLAG_INHERIT 0) p"

text \<open>When each call may be made: a process is created once every pipe before it has an end that
  no child inherits; a thread is resumed once its process, created suspended, was put into a job that
  kills its members when it is closed; a process is terminated only if it was created suspended.\<close>

definition spawn_order :: "win_calls \<Rightarrow> WinCall \<Rightarrow> bool" where
  "spawn_order p c =
    (case c of
       CreateProcessW _ _ _ _ _ _ \<Rightarrow> \<forall>r. (CreatePipe True, Inr r) \<in> set p \<longrightarrow> uninheritable r p
     | ResumeThread t \<Rightarrow>
         \<exists>r job. created_suspended r p \<and> wp_handle2 r = t \<and> made (SetInformationJobObject job KILL_ON_JOB_CLOSE) p \<and>
           made (AssignProcessToJobObject job (wp_handle r)) p
     | TerminateProcess d _ \<Rightarrow> \<exists>r. created_suspended r p \<and> wp_handle r = d
     | _ \<Rightarrow> True)"

definition harmless :: "WinCall \<Rightarrow> bool" where
  "harmless c =
    (case c of CreatePipe _ \<Rightarrow> False | CreateProcessW _ _ _ _ _ _ \<Rightarrow> False | ResumeThread _ \<Rightarrow> False
     | TerminateProcess _ _ \<Rightarrow> False | _ \<Rightarrow> True)"

definition sealed_but :: "WinReply option \<Rightarrow> win_calls \<Rightarrow> bool" where
  "sealed_but x p \<longleftrightarrow> (\<forall>r. (CreatePipe True, Inr r) \<in> set p \<longrightarrow> x = Some r \<or> uninheritable r p)"

abbreviation sealed :: "win_calls \<Rightarrow> bool" where "sealed \<equiv> sealed_but None"

lemma order_mono:
  "created_suspended r p \<Longrightarrow> created_suspended r (p @ t)"
  "uninheritable r p \<Longrightarrow> uninheritable r (p @ t)"
  "made c p \<Longrightarrow> made c (p @ t)"
  unfolding created_suspended_def uninheritable_def made_def set_append by blast+

lemma harmless_order: "harmless c \<Longrightarrow> spawn_order p c"
  by (cases c) (simp_all add: harmless_def spawn_order_def)

lemma sealed_harmless: "sealed_but x p \<Longrightarrow> c \<noteq> CreatePipe True \<Longrightarrow> sealed_but x (p @ [(c, a)])"
  using order_mono(2)[of _ p "[(c, a)]"] by (auto simp: sealed_but_def)

definition stable :: "(win_calls \<Rightarrow> bool) \<Rightarrow> bool" where
  "stable A \<longleftrightarrow> (\<forall>p c a. A p \<longrightarrow> harmless c \<longrightarrow> A (p @ [(c, a)]))"

lemma stable_sealed: "stable (sealed_but x)"
  by (auto simp: stable_def harmless_def intro: sealed_harmless)

lemma obeys_owned:
  assumes "stable A" "harmless c"
  shows "obeys spawn_order A (\<lambda>_. A) (owned os mk none c)"
  unfolding obeys_def owned_def attempt_def
  using assms harmless_order[of c]
  by (auto simp: call_eq stable_def split: sum.split option.split)

lemma obeys_observing:
  assumes "stable A" "harmless c" "\<And>a. obeys spawn_order A B (f a)"
  shows "obeys spawn_order A B (observing os c f)"
  unfolding obeys_def
proof (intro allI impI)
  fix h p assume A: "A p"
  let ?a = "os h c"
  obtain r h' where e: "f ?a (h @ [(c, ?a)]) = (r, h')" by force
  have "A (p @ [(c, ?a)])" using assms(1,2) A by (auto simp: stable_def)
  from obeysD[OF assms(3) this e] obtain t where t: "h' = (h @ [(c, ?a)]) @ t"
    "\<forall>i < length t. spawn_order ((p @ [(c, ?a)]) @ take i t) (fst (t ! i))"
    "\<forall>x. r = Ok x \<longrightarrow> B x ((p @ [(c, ?a)]) @ t)" .
  have "spawn_order (p @ take i ((c, ?a) # t)) (fst (((c, ?a) # t) ! i))" if "i < length ((c, ?a) # t)" for i
    using t(2) that harmless_order[OF assms(2)] by (cases i) auto
  then show "\<exists>t. snd (observing os c f h) = h @ t \<and> (\<forall>i < length t. spawn_order (p @ take i t) (fst (t ! i))) \<and>
      (\<forall>x. fst (observing os c f h) = Ok x \<longrightarrow> B x (p @ t))"
    using e t(1,3) by (intro exI[of _ "(c, ?a) # t"]) (simp add: observing_def invoke_eq)
qed

abbreviation anything :: "'a \<Rightarrow> win_calls \<Rightarrow> bool" where "anything \<equiv> (\<lambda>_ _. True)"

lemma obeys_finally_all:
  "obeys spawn_order A anything m \<Longrightarrow> obeys spawn_order A anything (finally_close_all os ds m)"
proof (induction ds arbitrary: m)
  case (Cons d ds)
  have "obeys spawn_order A anything (finally_close os (CloseHandle d) m)"
    using Cons.prems by (rule obeys_finally) (simp_all add: spawn_order_def)
  then show ?case using Cons.IH by (simp add: close_all_Cons)
qed (simp add: close_all_Nil)

lemma obeys_or_close_all:
  "obeys spawn_order A B m \<Longrightarrow> obeys spawn_order A B (or_close_all os ds m)"
proof (induction ds arbitrary: m)
  case (Cons d ds)
  have "obeys spawn_order A B (or_close os (CloseHandle d) m)"
    using Cons.prems by (rule obeys_or_close) (simp add: spawn_order_def)
  then show ?case using Cons.IH by (simp add: close_all_Cons)
qed (simp add: close_all_Nil)

lemma obeys_or_terminate:
  assumes m: "obeys spawn_order A B m" and kill: "\<And>p t. A p \<Longrightarrow> spawn_order (p @ t) (TerminateProcess d 1)"
  shows "obeys spawn_order A B (or_terminate os d m)"
  unfolding obeys_def
proof (intro allI impI)
  fix h p assume A: "A p"
  obtain r h1 where e: "m h = (r, h1)" by force
  obtain t where t: "h1 = h @ t" "\<forall>i < length t. spawn_order (p @ take i t) (fst (t ! i))"
    "\<forall>x. r = Ok x \<longrightarrow> B x (p @ t)" using obeysD[OF m A e] .
  have "snd (terminate_process os d h1) = h1 @ [(TerminateProcess d 1, os h1 (TerminateProcess d 1))]"
    by (cases "os h1 (TerminateProcess d 1)")
      (simp_all add: terminate_process_def unit_call_def attempt_def call_eq)
  then show "\<exists>t. snd (or_terminate os d m h) = h @ t \<and> (\<forall>i < length t. spawn_order (p @ take i t) (fst (t ! i))) \<and>
      (\<forall>x. fst (or_terminate os d m h) = Ok x \<longrightarrow> B x (p @ t))"
    using e t kill[OF A] by (cases r) (auto simp: or_terminate_def less_Suc_eq nth_append)
qed

lemma obeys_make_pipe: "obeys spawn_order sealed (\<lambda>_. sealed) (make_pipe os b)"
  unfolding make_pipe_def
proof (rule obeys_then)
  fix p :: win_calls and r
  show "spawn_order p (CreatePipe True)" by (simp add: spawn_order_def)
  assume "sealed p"
  then show "sealed_but (Some r) (p @ [(CreatePipe True, Inr r)])"
    using order_mono(2)[of _ p "[(CreatePipe True, Inr r)]"] by (auto simp: sealed_but_def)
next
  fix r
  have now_sealed: "sealed (p @ [(SetHandleInformation e HANDLE_FLAG_INHERIT 0, Inr x)])"
    if "sealed_but (Some r) p" "e = wp_handle r \<or> e = wp_handle2 r" for p e x
    using that order_mono(2)[of _ p "[(SetHandleInformation e HANDLE_FLAG_INHERIT 0, Inr x)]"]
    by (auto simp: sealed_but_def uninheritable_def)
  have ends: "obeys spawn_order (sealed_but (Some r)) (\<lambda>_. sealed) (or_close os (CloseHandle c) (or_close os (CloseHandle e)
      (attempt (call os mk (SetHandleInformation e HANDLE_FLAG_INHERIT 0)) (\<lambda>_. ret (Ok (c, e))))))"
    if "e = wp_handle r \<or> e = wp_handle2 r" for c e mk
    by (intro obeys_or_close obeys_then[where B = "\<lambda>_. sealed"] now_sealed obeys_ret that) (simp_all add: spawn_order_def)
  have one: "obeys spawn_order A B (or_close os (CloseHandle d) (ret (Err e)))" for A B d e
    by (intro obeys_or_close obeys_ret) (simp_all add: spawn_order_def)
  have raw: "from_raw x = Some y \<Longrightarrow> y = x" for x y by (simp add: from_raw_def split: if_splits)
  show "obeys spawn_order (sealed_but (Some r)) (\<lambda>_. sealed)
     (case from_raw (wp_handle r) of None \<Rightarrow> ret (Err (win_fail ''CreatePipe''))
      | Some rd \<Rightarrow> (case from_raw (wp_handle2 r) of
            None \<Rightarrow> or_close os (CloseHandle rd) (ret (Err (win_fail ''CreatePipe'')))
          | Some wr \<Rightarrow> let (ch, parent) = if b then (rd, wr) else (wr, rd)
              in or_close os (CloseHandle ch) (or_close os (CloseHandle parent)
                   (attempt (call os (last_win32_err ''SetHandleInformation'' '''')
                      (SetHandleInformation parent HANDLE_FLAG_INHERIT 0)) (\<lambda>_. ret (Ok (ch, parent)))))))"
    by (auto intro!: ends one obeys_ret dest!: raw split: option.split)
qed

lemma obeys_inheritable_dup_of_std:
  "obeys spawn_order sealed (\<lambda>_. sealed) (inheritable_dup_of_std os slot)"
proof -
  have dup: "obeys spawn_order sealed (\<lambda>_. sealed) (attempt (call os mk (DuplicateHandle c True))
      (\<lambda>r. ret (Ok (from_raw (wp_handle r)))))" for mk c
    by (intro obeys_then[where B = "\<lambda>_. sealed"] obeys_ret) (simp_all add: spawn_order_def sealed_harmless)
  show ?thesis unfolding inheritable_dup_of_std_eq Let_def
    by (rule obeys_observing[OF stable_sealed]) (auto simp: harmless_def intro!: dup obeys_ret)
qed

lemma obeys_keep_sealed:
  assumes "obeys spawn_order sealed (\<lambda>_. sealed) m"
  shows "obeys spawn_order sealed (\<lambda>_. sealed) (attempt m (\<lambda>x. ret (Ok (f x))))"
  using assms by (intro obeys_attempt[OF assms] obeys_ret)

lemma obeys_wire_slot: "obeys spawn_order sealed (\<lambda>_. sealed) (wire_slot os i s)"
proof (cases s)
  case (StdioFile f)
  have "obeys spawn_order sealed (\<lambda>_. sealed) (inheritable_dup_of_file os f)"
    by (cases f) (auto simp: inheritable_dup_of_file_def duplicate_def Let_def harmless_def
        intro!: obeys_owned stable_sealed obeys_ret)
  then show ?thesis unfolding StdioFile wire_slot_def Stdio.case by (rule obeys_keep_sealed)
next
  case StdioNull
  have "obeys spawn_order sealed (\<lambda>_. sealed) (inheritable_nul os b)" for b
    unfolding inheritable_nul_def Let_def by (rule obeys_owned[OF stable_sealed]) (simp add: harmless_def)
  then show ?thesis unfolding StdioNull wire_slot_def Stdio.case by (rule obeys_keep_sealed)
next
  case StdioInherit
  show ?thesis unfolding StdioInherit wire_slot_def Stdio.case by (rule obeys_keep_sealed[OF obeys_inheritable_dup_of_std])
next
  case StdioPipe
  show ?thesis unfolding StdioPipe wire_slot_def Stdio.case split_def by (rule obeys_keep_sealed[OF obeys_make_pipe])
qed

lemma obeys_wire_all: "obeys spawn_order sealed (\<lambda>_. sealed) (wire_all os i ss slots pipes)"
proof (induction ss arbitrary: i slots pipes)
  case (Cons s ss)
  then show ?case
    by (auto intro!: obeys_attempt[OF obeys_or_close_all[OF obeys_wire_slot]] split: prod.split)
qed (auto simp del: ret_def intro: obeys_ret)

text \<open>In the state after the process was created.\<close>

lemma obeys_group_sequence:
  assumes "thread = from_raw (wp_handle2 r)" "process = wp_handle r"
  shows "obeys spawn_order (created_suspended r) anything (group_sequence os process thread)"
proof -
  let ?job = "\<lambda>job p. created_suspended r p \<and> made (SetInformationJobObject job KILL_ON_JOB_CLOSE) p"
  let ?in = "\<lambda>job p. ?job job p \<and> made (AssignProcessToJobObject job process) p"
  have stable: "stable (created_suspended r)" by (simp add: stable_def order_mono)
  have job: "obeys spawn_order (created_suspended r) ?job (create_kill_on_close_job os)"
    unfolding create_kill_on_close_job_def Let_def
    by (rule obeys_attempt[OF obeys_owned[OF stable]],
        simp add: harmless_def,
        intro obeys_or_close obeys_then[where B = "\<lambda>_. ?job _"] obeys_ret)
      (auto simp: spawn_order_def order_mono)
  have assign: "obeys spawn_order (?job job) (\<lambda>_. ?in job) (assign_to_job os job process)" for job
    unfolding assign_to_job_def unit_call_def
    by (intro obeys_then[where B = "\<lambda>_. ?in job"] obeys_ret) (auto simp: spawn_order_def order_mono)
  have raw: "from_raw x = Some y \<Longrightarrow> y = x" for x y by (simp add: from_raw_def split: if_splits)
  have resume: "obeys spawn_order (?in job) anything (resume_thread os t)" if "thread = Some t" for job t
    unfolding resume_thread_def unit_call_def
    using that assms raw[of "wp_handle2 r" t]
    by (intro obeys_then[where B = anything] obeys_ret) (auto simp: spawn_order_def)
  show ?thesis unfolding group_sequence_def
    by (rule obeys_attempt[OF job], intro obeys_or_close obeys_attempt[OF assign] obeys_ret_then
        obeys_attempt[OF resume] obeys_ret) (auto simp: spawn_order_def split: option.splits)
qed

lemma created_suspendedI:
  "bit flags 2 \<Longrightarrow> created_suspended r (p @ [(CreateProcessW line use flags env cwd std, Inr r)])"
  unfolding created_suspended_def by (intro exI conjI) auto

lemma creation_flags_suspended: "bit (creation_flags env True detached) 2"
  by (simp add: creation_flags_def bit_simps Let_def)

lemma obeys_create_process:
  "obeys spawn_order sealed anything (create_process os line cwd env use slots new_group detached)"
  unfolding create_process_def
proof (rule obeys_then)
  let ?c = "CreateProcessW (line @ [0]) use (creation_flags env new_group detached) (env_block env) (to_wide_nul cwd)
    (if use then Some (std_triple slots) else None)"
  let ?B = "\<lambda>r p. new_group \<longrightarrow> created_suspended r p"
  fix p :: win_calls and r
  assume "sealed p"
  then show "spawn_order p ?c" by (simp add: spawn_order_def sealed_but_def)
  show "?B r (p @ [(?c, Inr r)])"
    by (auto intro!: created_suspendedI creation_flags_suspended)
next
  fix r
  let ?B = "\<lambda>r p. new_group \<longrightarrow> created_suspended r p"
  have kill: "spawn_order (p @ t) (TerminateProcess process 1)" if "created_suspended r p" "process = wp_handle r"
    for p t process using that order_mono(1)[of r p t] by (auto simp: spawn_order_def)
  have enter: "obeys spawn_order (?B r) anything (enter_group os process (from_raw (wp_handle2 r)) new_group)"
    if "process = wp_handle r" for process
  proof (cases new_group)
    case True
    have "obeys spawn_order (created_suspended r) anything
        (attempt (group_sequence os process (from_raw (wp_handle2 r))) (\<lambda>job. ret (Ok (Some job))))"
      using that by (intro obeys_attempt[OF obeys_group_sequence] obeys_ret) simp_all
    then show ?thesis using True that kill
      by (auto simp: enter_group_def spawn_order_def intro!: obeys_or_close obeys_finally_all obeys_or_terminate)
  next
    case False
    then show ?thesis by (auto simp: enter_group_def intro!: obeys_finally_all obeys_ret)
  qed
  have raw: "from_raw x = Some y \<Longrightarrow> y = x" for x y by (simp add: from_raw_def split: if_splits)
  show "obeys spawn_order (?B r) anything
      (case from_raw (wp_handle r) of None \<Rightarrow> ret (Err (win_fail ''CreateProcessW''))
       | Some process \<Rightarrow> attempt (enter_group os process (from_raw (wp_handle2 r)) new_group)
           (\<lambda>job. ret (Ok (process, job, wp_num r))))"
    using raw by (auto intro!: obeys_attempt[OF enter] obeys_ret split: option.split)
qed

lemma obeys_spawn_process:
  "obeys spawn_order sealed anything (spawn_process os line cwd env stdio new_group detached)"
proof -
  have wired: "obeys spawn_order sealed (\<lambda>_. sealed)
     (if use then wire_all os 0 stdio [] [] else ret (Ok ([None, None, None], [None, None, None])))" for use
    by (auto intro: obeys_wire_all obeys_ret)
  show ?thesis unfolding spawn_process_def Let_def split_def
    by (intro obeys_attempt[OF wired] obeys_or_close_all obeys_finally_all obeys_attempt[OF obeys_create_process] obeys_ret)
      simp
qed

lemma obeys_spawn: "obeys spawn_order sealed anything (spawn os ps cmd)"
  unfolding spawn_def unsupported_def split_def
  by (auto intro!: obeys_ret_then obeys_attempt[OF obeys_spawn_process] obeys_ret split: if_split)

lemma obeys_from_start:
  assumes "obeys J A B m" "A []"
  shows "\<exists>t. snd (m h) = h @ t \<and> justified J t"
  using assms unfolding obeys_def justified_def by (metis append_Nil)

text \<open>C14.  A spawn follows the protocol whatever the system answers, and it leaks nothing.  Every call it
  makes is warranted by the calls before it: a process is created only after each pipe has an end that no
  child inherits, a suspended process is resumed only after it was put into a job that kills its members
  when the job is closed, and only a process created suspended is ever terminated.  When the spawn fails
  every handle it acquired is closed; when it succeeds the handles it still holds are exactly those the
  child owns.\<close>

theorem windows_spawn_protocol:
  "\<exists>t. snd (spawn os ps cmd h) = h @ t \<and> justified spawn_order t \<and>
     acquired opens_handle t = released closes_handle t +
       (case fst (spawn os ps cmd h) of Err _ \<Rightarrow> {#} | Ok c \<Rightarrow> mset (child_handles c))"
proof -
  have "sealed []" by (simp add: sealed_but_def)
  from obeys_from_start[OF obeys_spawn this] obtain t
    where t: "snd (spawn os ps cmd h) = h @ t" "justified spawn_order t" by blast
  obtain u where u: "snd (spawn os ps cmd h) = h @ u" "{#} + acquired opens_handle u = released closes_handle u +
      (case fst (spawn os ps cmd h) of Err _ \<Rightarrow> {#} | Ok c \<Rightarrow> mset (child_handles c) + {#})"
    using keeps_spawn[of "{#}" os ps cmd] unfolding accounts_def by blast
  have "u = t" using t(1) u(1) by simp
  then show ?thesis using t u(2) by (intro exI[of _ t]) (simp cong: sum.case_cong)
qed

section \<open>Waiting for one of many\<close>

text \<open>The last call was a wait on the chunk that holds handle \<open>i\<close>, and its answer names that handle.\<close>

definition signalled :: "handle list \<Rightarrow> nat \<Rightarrow> win_calls \<Rightarrow> bool" where
  "signalled raw i h \<longleftrightarrow>
    (\<exists>t ms w. h = t @ [(WaitForMultipleObjects (take 64 (drop (64 * (i div 64)) raw)) ms, Inr w)] \<and>
       unat (wp_num w) = i mod 64)"

definition naps :: "win_calls \<Rightarrow> nat" where
  "naps h = length (filter (\<lambda>x. fst x = ThreadSleep 10) h)"

lemma naps_snoc: "naps (h @ [(c, a)]) = naps h + (if c = ThreadSleep 10 then 1 else 0)"
  by (simp add: naps_def)

lemma wait_chunk_hit:
  assumes "wait_chunk os chunk ms h = (r, h')"
  shows "naps h' = naps h"
    "r = Ok (Some j) \<Longrightarrow> j < length chunk \<and> (\<exists>w. h' = h @ [(WaitForMultipleObjects chunk ms, Inr w)] \<and> unat (wp_num w) = j)"
  using assms by (auto simp: wait_chunk_def invoke_eq naps_snoc split: sum.splits if_splits)

lemma sweep_hit:
  assumes "sweep os base raw h = (r, h')"
  shows "naps h' = naps h \<and>
    (\<forall>i. r = Ok (Some i) \<longrightarrow> base \<le> i \<and> i < base + length raw \<and> signalled raw (i - base) h')"
  using assms
proof (induction os base raw h rule: sweep.induct)
  case (1 os base raw h)
  show ?case
  proof (cases "raw = []")
    case True
    then show ?thesis using "1.prems" by (auto simp: sweep.simps)
  next
    case False
    obtain r1 h1 where c: "wait_chunk os (take 64 raw) 0 h = (r1, h1)" by force
    note hit = wait_chunk_hit[OF c]
    consider (err) e where "r1 = Err e" | (hit) j where "r1 = Ok (Some j)" | (miss) "r1 = Ok None"
      by (cases r1) auto
    then show ?thesis
    proof cases
      case (hit j)
      then obtain w where j: "j < 64" "j < length raw"
        "h1 = h @ [(WaitForMultipleObjects (take 64 raw) 0, Inr w)]" "unat (wp_num w) = j"
        using wait_chunk_hit(2)[OF c] by auto
      then have "signalled raw j h1" unfolding signalled_def by (intro exI[of _ h] exI[of _ 0] exI[of _ w]) simp
      then show ?thesis using "1.prems" False c hit j(2) wait_chunk_hit(1)[OF c] by (auto simp: sweep.simps)
    next
      case miss
      let ?raw = "drop 64 raw"
      have s: "sweep os (base + 64) ?raw h1 = (r, h')"
        using "1.prems" False c miss by (simp add: sweep.simps[of os base])
      have IH: "naps h' = naps h1 \<and> (\<forall>i. r = Ok (Some i) \<longrightarrow>
          base + 64 \<le> i \<and> i < base + 64 + length ?raw \<and> signalled ?raw (i - (base + 64)) h')"
        using "1.IH"[OF False c[symmetric] _ _ s] miss by simp
      have "signalled raw (i - base) h'" if "signalled ?raw (i - (base + 64)) h'" "base + 64 \<le> i" for i
      proof -
        let ?k = "i - (base + 64)"
        have e: "i - base = ?k + 64" using that(2) by simp
        have "64 * ((k + 64) div 64) = 64 * (k div 64) + 64" "(k + 64) mod 64 = k mod 64" for k :: nat
          by (simp_all add: div_add_self2)
        then show ?thesis using that(1) unfolding e signalled_def by (simp only: drop_drop)
      qed
      then show ?thesis using IH wait_chunk_hit(1)[OF c] by fastforce
    qed (use "1.prems" False c hit in \<open>auto simp: sweep.simps[of os base]\<close>)
  qed
qed

text \<open>The clock has counted at least the time slept.\<close>

definition clock_counts_naps :: "win \<Rightarrow> bool" where
  "clock_counts_naps os \<longleftrightarrow>
    (\<forall>h. \<exists>r. os h InstantNow = Inr r \<and> 10000000 * naps h \<le> wp_clock r)"

lemma instant_now_counts:
  assumes "clock_counts_naps os" "instant_now os h = (t, h')"
  shows "10000000 * naps h \<le> t" "naps h' = naps h"
proof -
  obtain r where "os h InstantNow = Inr r" "10000000 * naps h \<le> wp_clock r"
    using assms(1) unfolding clock_counts_naps_def by blast
  then show "10000000 * naps h \<le> t" "naps h' = naps h"
    using assms(2) by (auto simp: instant_now_def invoke_eq naps_snoc)
qed

lemma sweep_loop_returns:
  assumes clock: "clock_counts_naps os"
  shows "\<exists>r h'. sweep_loop os raw (Some d) h = Some (r, h') \<and>
    (\<forall>i. r = Ok (Some i) \<longrightarrow> i < length raw \<and> signalled raw i h')"
proof (induction "d - 10000000 * naps h" arbitrary: h rule: less_induct)
  case less
  obtain r h1 where s: "sweep os 0 raw h = (r, h1)" by force
  obtain t h2 where now: "instant_now os h1 = (t, h2)" by force
  show ?case
  proof (cases "r = Ok None \<and> t < d")
    case False
    then show ?thesis
      using s now sweep_hit[OF s] by (cases r) (auto simp: sweep_loop.simps[of os raw _ h])
  next
    case True
    define h3 where "h3 = snd (invoke os (ThreadSleep 10) h2)"
    have same: "naps h2 = naps h" using sweep_hit[OF s] instant_now_counts(2)[OF clock now] by simp
    have "10000000 * naps h < d"
      using instant_now_counts(1)[OF clock now] sweep_hit[OF s] True by simp
    moreover have "naps h3 = naps h + 1" by (simp add: h3_def invoke_eq naps_snoc same)
    ultimately have "d - 10000000 * naps h3 < d - 10000000 * naps h" by simp
    from less.hyps[OF this] show ?thesis
      using s now True by (simp add: sweep_loop.simps[of os raw _ h] h3_def)
  qed
qed


text \<open>A machine on which nothing ever ends.\<close>

definition idle_machine :: win where
  "idle_machine h c =
    (case c of
       InstantNow \<Rightarrow> Inr (win_reply\<lparr>wp_clock := 10000000 * naps h\<rparr>)
     | _ \<Rightarrow> Inr (win_reply\<lparr>wp_num := WAIT_TIMEOUT\<rparr>))"


section \<open>Reading the environment block\<close>

text \<open>How a process reads the block: entries up to a NUL each, until an empty one.\<close>

function block_entries :: "u16 list \<Rightarrow> u16 list list" where
  "block_entries us =
    (let e = takeWhile (\<lambda>u. u \<noteq> 0) us
     in if e = [] then [] else e # block_entries (drop (Suc (length e)) us))"
  by pat_completeness auto
termination block_entries
  by (relation "measure length") (auto simp: takeWhile_eq_Nil_iff intro!: diff_less)

declare block_entries.simps [simp del]

lemma block_entries_concat:
  assumes "\<And>e. e \<in> set es \<Longrightarrow> e \<noteq> [] \<and> 0 \<notin> set e"
  shows "block_entries (concat (map (\<lambda>e. e @ [0]) es) @ 0 # us) = es"
  using assms
proof (induction es)
  case Nil
  then show ?case by (simp add: block_entries.simps)
next
  case (Cons e es)
  let ?us = "concat (map (\<lambda>e. e @ [0]) es) @ 0 # us"
  have tw: "takeWhile (\<lambda>u. u \<noteq> 0) (e @ 0 # ?us) = e"
    using Cons.prems[of e] by (subst takeWhile_append2) (auto intro: ccontr)
  have "block_entries (e @ 0 # ?us) = e # block_entries ?us"
    using Cons.prems[of e] by (subst block_entries.simps) (simp add: tw Let_def)
  then show ?case using Cons by simp
qed

text \<open>A process reads exactly the variables of the map, in their order, as long as no name and no value
  has a NUL in it.  The code does not refuse one that has, see \<open>env_block_splits_at_nul\<close>.\<close>

lemma env_block_roundtrip:
  assumes "\<And>kv. kv \<in> set m \<Longrightarrow> 0 \<notin> set (env_entry kv)" "env_block (EnvExplicit m) = Some b"
  shows "block_entries b = map env_entry m"
proof -
  have "b = concat (map (\<lambda>e. e @ [0]) (map env_entry m)) @ 0 # (if m = [] then [0] else [])"
    using assms(2) by (cases m) (auto simp: env_block_def Let_def comp_def env_entry_def)
  moreover have "block_entries (concat (map (\<lambda>e. e @ [0]) (map env_entry m)) @ 0 # us) = map env_entry m" for us
    by (rule block_entries_concat) (use assms(1) in \<open>auto simp: env_entry_def\<close>)
  ultimately show ?thesis by simp
qed

text \<open>A NUL inside a value starts another variable: the two blocks are equal.\<close>

lemma env_block_splits_at_nul:
  "env_block (EnvExplicit [(''A'', ''1'' @ [CHR 0x00] @ ''B=2'')]) = env_block (EnvExplicit [(''A'', ''1''), (''B'', ''2'')])"
  by (simp add: env_block_def env_entry_def encode_wide_def as_bytes_def byte_of_def utf16_units_def nat_unit_def)

text \<open>A process that ended with code 259 is reported alive.\<close>

definition ended_with :: "u32 \<Rightarrow> win" where
  "ended_with code h c =
    (case c of
       OpenProcess _ _ \<Rightarrow> Inr (win_reply\<lparr>wp_handle := 8\<rparr>)
     | GetExitCodeProcess _ \<Rightarrow> Inr (win_reply\<lparr>wp_num := code\<rparr>)
     | _ \<Rightarrow> Inr win_reply)"

lemma ended_with_259_is_alive:
  "fst (is_alive_pid (ended_with code) pid []) = Ok (code = 259)"
  by (simp add: is_alive_pid_def ended_with_def invoke_eq finally_close_def attempt_def exit_code_def call_eq
      from_raw_def win_reply_def)

end
