(* ===== verification/Windows_Term.thy ===== *)
theory Windows_Term
  imports Windows_Process Platform_Net Terminal Signals
begin

text \<open>
  The Windows console: \<open>platform-windows/src/sys/console.rs\<close> over the console calls,
  \<open>WindowsTerminal\<close> of \<open>platform-windows/src/term.rs\<close>, which keeps the modes to restore and the
  console the process has acquired, and the deferred console control events of
  \<open>sys/csignals.rs\<close> and \<open>signals.rs\<close>.  Screen coordinates are 16-bit words and wrap, as they do in a
  release build.
\<close>

section \<open>Console modes\<close>

abbreviation ENABLE_PROCESSED_INPUT :: u32 where "ENABLE_PROCESSED_INPUT \<equiv> 1"
abbreviation ENABLE_LINE_INPUT :: u32 where "ENABLE_LINE_INPUT \<equiv> 2"
abbreviation ENABLE_ECHO_INPUT :: u32 where "ENABLE_ECHO_INPUT \<equiv> 4"
abbreviation ENABLE_VIRTUAL_TERMINAL_INPUT :: u32 where "ENABLE_VIRTUAL_TERMINAL_INPUT \<equiv> 0x200"
abbreviation ENABLE_PROCESSED_OUTPUT :: u32 where "ENABLE_PROCESSED_OUTPUT \<equiv> 1"
abbreviation ENABLE_VIRTUAL_TERMINAL_PROCESSING :: u32 where "ENABLE_VIRTUAL_TERMINAL_PROCESSING \<equiv> 4"
abbreviation ATTACH_PARENT_PROCESS :: u32 where "ATTACH_PARENT_PROCESS \<equiv> 0xFFFFFFFF"
abbreviation GENERIC_READ :: u32 where "GENERIC_READ \<equiv> 0x80000000"
abbreviation GENERIC_WRITE :: u32 where "GENERIC_WRITE \<equiv> 0x40000000"

definition slot :: "TermStream \<Rightarrow> u32" where
  "slot stream =
    (case stream of Stdin \<Rightarrow> STD_INPUT_HANDLE | Stdout \<Rightarrow> STD_OUTPUT_HANDLE | Stderr \<Rightarrow> STD_ERROR_HANDLE)"

definition std_handle :: "win \<Rightarrow> TermStream \<Rightarrow> win_calls \<Rightarrow> handle \<times> win_calls" where
  "std_handle os stream h =
    (case invoke os (GetStdHandle (slot stream)) h of (Inl _, h1) \<Rightarrow> (- 1, h1) | (Inr r, h1) \<Rightarrow> (wp_handle r, h1))"

definition get_mode :: "win \<Rightarrow> handle \<Rightarrow> u32 weff" where
  "get_mode os d =
    attempt (call os (last_win32_err ''GetConsoleMode'' '''') (GetConsoleMode d)) (\<lambda>r. ret (Ok (wp_num r)))"

definition set_mode :: "win \<Rightarrow> handle \<Rightarrow> u32 \<Rightarrow> unit weff" where
  "set_mode os d mode = unit_call os (last_win32_err ''SetConsoleMode'' '''') (SetConsoleMode d mode)"

definition console_is_tty :: "win \<Rightarrow> TermStream \<Rightarrow> win_calls \<Rightarrow> bool \<times> win_calls" where
  "console_is_tty os stream h =
    (case std_handle os stream h of
       (d, h1) \<Rightarrow>
         (if d = 0 \<or> d = - 1 then (False, h1)
          else case get_mode os d h1 of (r, h2) \<Rightarrow> (is_ok r, h2)))"

text \<open>The window of the screen buffer arrives as four signed 16-bit numbers: left, top, right, bottom.\<close>

definition extent :: "u16 \<Rightarrow> u16 \<Rightarrow> u16" where
  "extent lo hi = (let n = hi - lo + 1 in if sint n < 0 then 0 else n)"

definition screen_size :: "win \<Rightarrow> handle \<Rightarrow> (u16 \<times> u16) weff" where
  "screen_size os d =
    attempt (call os (last_win32_err ''GetConsoleScreenBufferInfo'' '''') (ConsoleScreenBufferInfo d)) (\<lambda>r.
      (let num = (\<lambda>i. from_le_bytes (field_at (2 * i) 2 (wp_data r)) :: u16)
       in ret (Ok (extent (num 1) (num 3), extent (num 0) (num 2)))))"

fun first_size :: "win \<Rightarrow> TermStream list \<Rightarrow> (u16 \<times> u16) weff" where
  "first_size os [] h = (Err (last_win32_err ''GetConsoleMode'' '''' (last_error h)), h)"
| "first_size os (s # ss) h =
    (case console_is_tty os s h of
       (tty, h1) \<Rightarrow>
         (if \<not> tty then first_size os ss h1
          else case std_handle os s h1 of (d, h2) \<Rightarrow> screen_size os d h2))"

definition console_window_size :: "win \<Rightarrow> (u16 \<times> u16) weff" where
  "console_window_size os = first_size os [Stdout, Stderr, Stdin]"

record SavedModes =
  sm_input :: u32
  sm_output :: "u32 option"

definition raw_input :: "u32 \<Rightarrow> u32" where
  "raw_input mode =
    (mode AND NOT (ENABLE_ECHO_INPUT OR ENABLE_LINE_INPUT OR ENABLE_PROCESSED_INPUT)) OR ENABLE_VIRTUAL_TERMINAL_INPUT"

definition vt_output :: "u32 \<Rightarrow> u32" where
  "vt_output mode = mode OR ENABLE_PROCESSED_OUTPUT OR ENABLE_VIRTUAL_TERMINAL_PROCESSING"

text \<open>The output is switched if it can be; what it was before is what is to be restored.\<close>

definition enter_vt :: "win \<Rightarrow> win_calls \<Rightarrow> u32 option \<times> win_calls" where
  "enter_vt os h =
    (case console_is_tty os Stdout h of
       (tty, h1) \<Rightarrow>
         (if \<not> tty then (None, h1)
          else case std_handle os Stdout h1 of
            (hout, h2) \<Rightarrow>
              (case get_mode os hout h2 of
                 (Err _, h3) \<Rightarrow> (None, h3)
               | (Ok out_mode, h3) \<Rightarrow>
                   (case set_mode os hout (vt_output out_mode) h3 of
                      (Err _, h4) \<Rightarrow> (None, h4)
                    | (Ok _, h4) \<Rightarrow> (Some out_mode, h4)))))"

definition console_enter_raw :: "win \<Rightarrow> SavedModes weff" where
  "console_enter_raw os h =
    (case std_handle os Stdin h of
       (hin, h1) \<Rightarrow>
         attempt (get_mode os hin) (\<lambda>in_mode.
         attempt (set_mode os hin (raw_input in_mode)) (\<lambda>_ h2.
           case enter_vt os h2 of (out, h3) \<Rightarrow> (Ok \<lparr>sm_input = in_mode, sm_output = out\<rparr>, h3))) h1)"

definition console_restore :: "win \<Rightarrow> SavedModes \<Rightarrow> unit weff" where
  "console_restore os sm h =
    (case std_handle os Stdin h of
       (hin, h1) \<Rightarrow>
         attempt (set_mode os hin (sm_input sm)) (\<lambda>_ h2.
           case sm_output sm of
             None \<Rightarrow> (Ok (), h2)
           | Some out_mode \<Rightarrow>
               (case std_handle os Stdout h2 of (hout, h3) \<Rightarrow> (Ok (), snd (set_mode os hout out_mode h3)))) h1)"

definition console_is_raw :: "win \<Rightarrow> win_calls \<Rightarrow> bool \<times> win_calls" where
  "console_is_raw os h =
    (case std_handle os Stdin h of
       (hin, h1) \<Rightarrow>
         (if hin = 0 \<or> hin = - 1 then (False, h1)
          else case get_mode os hin h1 of
                 (Err _, h2) \<Rightarrow> (False, h2)
               | (Ok mode, h2) \<Rightarrow> (mode AND (ENABLE_ECHO_INPUT OR ENABLE_LINE_INPUT) = 0, h2)))"

definition console_set_echo :: "win \<Rightarrow> bool \<Rightarrow> bool weff" where
  "console_set_echo os on h =
    (case std_handle os Stdin h of
       (hin, h1) \<Rightarrow>
         attempt (get_mode os hin) (\<lambda>mode.
           (let was_on = (mode AND ENABLE_ECHO_INPUT \<noteq> 0);
                next_mode = (if on then mode OR ENABLE_ECHO_INPUT else mode AND NOT ENABLE_ECHO_INPUT)
            in attempt (set_mode os hin next_mode) (\<lambda>_. ret (Ok was_on)))) h1)"

definition poll_ms :: "Duration option \<Rightarrow> u32" where
  "poll_ms timeout =
    (case timeout of
       None \<Rightarrow> INFINITE
     | Some d \<Rightarrow> (if as_millis d < 2 ^ 32 then of_nat (as_millis d) else 0xFFFFFFFF))"

definition wait_signaled :: "win \<Rightarrow> handle \<Rightarrow> u32 \<Rightarrow> bool weff" where
  "wait_signaled os d ms h =
    (case invoke os (WaitForSingleObject d ms) h of
       (a, h1) \<Rightarrow>
         (let code = (case a of Inl _ \<Rightarrow> 0xFFFFFFFF | Inr r \<Rightarrow> wp_num r)
          in if code = WAIT_OBJECT_0 then (Ok True, h1)
             else if code = WAIT_TIMEOUT then (Ok False, h1)
             else (Err (last_win32_err ''WaitForSingleObject'' '''' (last_error h1)), h1)))"

definition console_poll_readable :: "win \<Rightarrow> Duration option \<Rightarrow> bool weff" where
  "console_poll_readable os timeout h =
    (case std_handle os Stdin h of (hin, h1) \<Rightarrow> wait_signaled os hin (poll_ms timeout) h1)"

definition console_read_chunk :: "win \<Rightarrow> bytes \<Rightarrow> (nat \<times> bytes) weff" where
  "console_read_chunk os buf h =
    (case std_handle os Stdin h of
       (hin, h1) \<Rightarrow>
         attempt (call os (last_win32_err ''ReadFile'' '''') (ReadFile hin (clamp_u32 (length buf))))
           (\<lambda>r. ret (Ok (unat (wp_num r), read_into buf (wp_data r)))) h1)"

section \<open>Acquiring a console\<close>

datatype ConsoleState = NoConsole | Inherited | Allocated | Attached

definition reopen :: "win \<Rightarrow> string \<Rightarrow> u32 \<Rightarrow> handle weff" where
  "reopen os name access =
    (let mk = last_win32_err ''CreateFileW'' name
     in owned os mk mk (CreateFileW (to_wide_nul name) access FILE_SHARE_READ_WRITE False OPEN_EXISTING 0))"

definition has_console :: "win \<Rightarrow> win_calls \<Rightarrow> bool \<times> win_calls" where
  "has_console os h =
    (case reopen os ''CONIN$'' GENERIC_READ h of
       (Ok d, h1) \<Rightarrow> (True, snd (invoke os (CloseHandle d) h1))
     | (Err _, h1) \<Rightarrow> (False, h1))"

definition initial_state :: "win \<Rightarrow> win_calls \<Rightarrow> ConsoleState \<times> win_calls" where
  "initial_state os h = (case has_console os h of (b, h1) \<Rightarrow> (if b then Inherited else NoConsole, h1))"

definition console_alloc :: "win \<Rightarrow> unit weff" where
  "console_alloc os = unit_call os (last_win32_err ''AllocConsole'' '''') AllocConsole"

definition console_free :: "win \<Rightarrow> unit weff" where
  "console_free os = unit_call os (last_win32_err ''FreeConsole'' '''') FreeConsole"

definition console_attach :: "win \<Rightarrow> u32 option \<Rightarrow> unit weff" where
  "console_attach os pid =
    unit_call os (last_win32_err ''AttachConsole'' '''')
      (AttachConsole (case pid of None \<Rightarrow> ATTACH_PARENT_PROCESS | Some p \<Rightarrow> p))"

definition set_std :: "win \<Rightarrow> u32 \<Rightarrow> handle \<Rightarrow> string \<Rightarrow> unit weff" where
  "set_std os which d label = unit_call os (last_win32_err ''SetStdHandle'' label) (SetStdHandle which d)"

definition reopen_std_handles :: "win \<Rightarrow> unit weff" where
  "reopen_std_handles os =
    attempt (reopen os ''CONIN$'' (GENERIC_READ OR GENERIC_WRITE)) (\<lambda>hin.
    attempt (reopen os ''CONOUT$'' (GENERIC_READ OR GENERIC_WRITE)) (\<lambda>hout.
    attempt (reopen os ''CONOUT$'' (GENERIC_READ OR GENERIC_WRITE)) (\<lambda>herr.
    attempt (set_std os STD_INPUT_HANDLE hin ''stdin'') (\<lambda>_.
    attempt (set_std os STD_OUTPUT_HANDLE hout ''stdout'') (\<lambda>_.
    attempt (set_std os STD_ERROR_HANDLE herr ''stderr'') (\<lambda>_ h.
      case get_mode os hout h of
        (Err _, h1) \<Rightarrow> (Ok (), h1)
      | (Ok mode, h1) \<Rightarrow> (Ok (), snd (set_mode os hout (vt_output mode) h1))))))))"

section \<open>The terminal\<close>

record WindowsTerminal =
  wt_saved :: "SavedModes option"
  wt_console :: ConsoleState

type_synonym console_st = "WindowsTerminal \<times> win_calls"

definition windows_terminal_new :: "win \<Rightarrow> win_calls \<Rightarrow> console_st" where
  "windows_terminal_new os h =
    (case initial_state os h of (c, h1) \<Rightarrow> (\<lparr>wt_saved = None, wt_console = c\<rparr>, h1))"

definition windows_is_tty :: "win \<Rightarrow> TermStream \<Rightarrow> win_calls \<Rightarrow> bool \<times> win_calls" where
  "windows_is_tty os stream = console_is_tty os stream"

definition windows_window_size :: "win \<Rightarrow> WinSize weff" where
  "windows_window_size os = attempt (console_window_size os) (\<lambda>(r, c). ret (Ok \<lparr>rows = r, cols = c\<rparr>))"

definition windows_enter_raw :: "win \<Rightarrow> console_st \<Rightarrow> unit result \<times> console_st" where
  "windows_enter_raw os s =
    (case s of (t, h) \<Rightarrow>
       (if wt_saved t \<noteq> None then (Ok (), (t, h))
        else case console_enter_raw os h of
               (Err e, h1) \<Rightarrow> (Err e, (t, h1))
             | (Ok sm, h1) \<Rightarrow> (Ok (), (t\<lparr>wt_saved := Some sm\<rparr>, h1))))"

definition windows_leave_raw :: "win \<Rightarrow> console_st \<Rightarrow> unit result \<times> console_st" where
  "windows_leave_raw os s =
    (case s of (t, h) \<Rightarrow>
       (case wt_saved t of
          None \<Rightarrow> (Ok (), (t, h))
        | Some sm \<Rightarrow> (case console_restore os sm h of (r, h1) \<Rightarrow> (r, (t\<lparr>wt_saved := None\<rparr>, h1)))))"

definition windows_is_raw :: "win \<Rightarrow> win_calls \<Rightarrow> bool \<times> win_calls" where
  "windows_is_raw os = console_is_raw os"

definition windows_poll_readable :: "win \<Rightarrow> Duration option \<Rightarrow> bool weff" where
  "windows_poll_readable os = console_poll_readable os"

definition windows_read_chunk :: "win \<Rightarrow> bytes \<Rightarrow> (nat \<times> bytes) weff" where
  "windows_read_chunk os = console_read_chunk os"

definition windows_set_echo :: "win \<Rightarrow> bool \<Rightarrow> bool weff" where
  "windows_set_echo os = console_set_echo os"

definition console_state :: "WindowsTerminal \<Rightarrow> ConsoleState" where
  "console_state t = wt_console t"

text \<open>Acquiring: the console itself, then the standard handles, then the state.\<close>

definition acquire :: "win \<Rightarrow> unit weff \<Rightarrow> ConsoleState \<Rightarrow> console_st \<Rightarrow> unit result \<times> console_st" where
  "acquire os get st s =
    (case s of (t, h) \<Rightarrow>
       (case attempt get (\<lambda>_. reopen_std_handles os) h of
          (Err e, h1) \<Rightarrow> (Err e, (t, h1))
        | (Ok _, h1) \<Rightarrow> (Ok (), (t\<lparr>wt_console := st\<rparr>, h1))))"

definition alloc_console :: "win \<Rightarrow> console_st \<Rightarrow> unit result \<times> console_st" where
  "alloc_console os = acquire os (console_alloc os) Allocated"

definition attach_console :: "win \<Rightarrow> u32 option \<Rightarrow> console_st \<Rightarrow> unit result \<times> console_st" where
  "attach_console os pid = acquire os (console_attach os pid) Attached"

definition free_console :: "win \<Rightarrow> console_st \<Rightarrow> unit result \<times> console_st" where
  "free_console os s =
    (case s of (t, h) \<Rightarrow>
       (if wt_console t = NoConsole then (Ok (), (t, h))
        else case console_free os h of
               (Err e, h1) \<Rightarrow> (Err e, (t, h1))
             | (Ok _, h1) \<Rightarrow> (Ok (), (t\<lparr>wt_console := NoConsole\<rparr>, h1))))"

section \<open>Console control events\<close>

text \<open>The state is the atomic slot and whether the handler is registered.\<close>

record WindowsSignals =
  ctrl_pending :: u32
  ctrl_installed :: bool

abbreviation CTRL_C_EVENT :: u32 where "CTRL_C_EVENT \<equiv> 0"
abbreviation CTRL_BREAK_EVENT :: u32 where "CTRL_BREAK_EVENT \<equiv> 1"
abbreviation CTRL_CLOSE_EVENT :: u32 where "CTRL_CLOSE_EVENT \<equiv> 2"

definition ctrl_record :: "WindowsSignals \<Rightarrow> u32 \<Rightarrow> bool \<times> WindowsSignals" where
  "ctrl_record st ctrl =
    (if ctrl = CTRL_C_EVENT \<or> ctrl = CTRL_BREAK_EVENT \<or> ctrl = CTRL_CLOSE_EVENT
     then (True, st\<lparr>ctrl_pending := ctrl + 1\<rparr>) else (False, st))"

definition ctrl_install :: "win \<Rightarrow> WindowsSignals \<Rightarrow> win_calls \<Rightarrow> unit result \<times> WindowsSignals \<times> win_calls" where
  "ctrl_install os st h =
    (case unit_call os (last_win32_err ''SetConsoleCtrlHandler'' '''') SetConsoleCtrlHandler h of
       (Err e, h1) \<Rightarrow> (Err e, st, h1)
     | (Ok _, h1) \<Rightarrow> (Ok (), st\<lparr>ctrl_installed := True\<rparr>, h1))"

definition ctrl_take :: "WindowsSignals \<Rightarrow> u32 option \<times> WindowsSignals" where
  "ctrl_take st =
    (if ctrl_pending st = 0 then None else Some (ctrl_pending st - 1), st\<lparr>ctrl_pending := 0\<rparr>)"

definition ctrl_event_of :: "u32 \<Rightarrow> SignalEvent option" where
  "ctrl_event_of ctrl =
    (if ctrl = CTRL_C_EVENT then Some Interrupt else if ctrl = CTRL_BREAK_EVENT then Some Terminate
     else if ctrl = CTRL_CLOSE_EVENT then Some Hangup else None)"

definition windows_install ::
  "win \<Rightarrow> WindowsSignals \<Rightarrow> SignalEvent list \<Rightarrow> win_calls \<Rightarrow> unit result \<times> WindowsSignals \<times> win_calls" where
  "windows_install os st events = ctrl_install os st"

definition windows_take :: "WindowsSignals \<Rightarrow> SignalEvent option \<times> WindowsSignals" where
  "windows_take st = (case ctrl_take st of (c, st1) \<Rightarrow> (Option.bind c ctrl_event_of, st1))"

text \<open>The console delivers an event by running the handler, if it is registered.\<close>

definition ctrl_of :: "SignalEvent \<Rightarrow> u32" where
  "ctrl_of event =
    (case event of Interrupt \<Rightarrow> CTRL_C_EVENT | Terminate \<Rightarrow> CTRL_BREAK_EVENT | Hangup \<Rightarrow> CTRL_CLOSE_EVENT)"

definition windows_raise :: "WindowsSignals \<Rightarrow> SignalEvent \<Rightarrow> WindowsSignals" where
  "windows_raise st event = (if ctrl_installed st then snd (ctrl_record st (ctrl_of event)) else st)"

interpretation windows_signals: signal_slot
  "\<lambda>st. if ctrl_pending st = 0 then None else ctrl_event_of (ctrl_pending st - 1)"
  "\<lambda>st _. ctrl_installed st" windows_raise windows_take
  by unfold_locales
    (auto simp: windows_raise_def windows_take_def ctrl_take_def ctrl_record_def ctrl_event_of_def ctrl_of_def
      fun_eq_iff split: SignalEvent.split)

text \<open>Of a burst of control events the last one is reported, once.\<close>

lemma windows_burst_coalesces:
  assumes "ctrl_installed st"
  shows "fst (windows_take (foldl windows_raise st (es @ [e]))) = Some e"
    and "fst (windows_take (snd (windows_take st'))) = None"
  using windows_signals.take_burst assms by blast+

section \<open>A console\<close>

text \<open>The mode of a handle after some calls, and a system whose standard input and output are a
  console: it reports the mode last set on a handle and accepts every setting.\<close>

fun modes_now :: "(handle \<Rightarrow> u32) \<Rightarrow> win_calls \<Rightarrow> handle \<Rightarrow> u32" where
  "modes_now m [] = m"
| "modes_now m ((c, a) # h) = modes_now (case (c, a) of (SetConsoleMode d x, Inr _) \<Rightarrow> m(d := x) | _ \<Rightarrow> m) h"

definition serves_console :: "win \<Rightarrow> handle \<Rightarrow> handle \<Rightarrow> (handle \<Rightarrow> u32) \<Rightarrow> bool" where
  "serves_console os hin hout m \<longleftrightarrow>
    hin \<noteq> hout \<and> {hin, hout} \<inter> {0, - 1} = {} \<and>
    (\<forall>h. (\<exists>r. os h (GetStdHandle STD_INPUT_HANDLE) = Inr r \<and> wp_handle r = hin) \<and>
         (\<exists>r. os h (GetStdHandle STD_OUTPUT_HANDLE) = Inr r \<and> wp_handle r = hout)) \<and>
    (\<forall>h d. d = hin \<or> d = hout \<longrightarrow>
       (\<exists>r. os h (GetConsoleMode d) = Inr r \<and> wp_num r = modes_now m h d) \<and> (\<forall>x. \<exists>r. os h (SetConsoleMode d x) = Inr r))"

lemma modes_now_append [simp]: "modes_now m (h @ h') = modes_now (modes_now m h) h'"
  by (induction m h rule: modes_now.induct) simp_all

text \<open>One step on such a system: what it returns and the modes after it.\<close>

lemma served_std:
  assumes "serves_console os hin hout m"
  shows "\<exists>h1. std_handle os Stdin h = (hin, h1) \<and> modes_now m h1 = modes_now m h"
    "\<exists>h1. std_handle os Stdout h = (hout, h1) \<and> modes_now m h1 = modes_now m h"
proof -
  obtain r q where "os h (GetStdHandle STD_INPUT_HANDLE) = Inr r" "wp_handle r = hin"
    "os h (GetStdHandle STD_OUTPUT_HANDLE) = Inr q" "wp_handle q = hout"
    using assms unfolding serves_console_def by blast
  then show "\<exists>h1. std_handle os Stdin h = (hin, h1) \<and> modes_now m h1 = modes_now m h"
    "\<exists>h1. std_handle os Stdout h = (hout, h1) \<and> modes_now m h1 = modes_now m h"
    by (simp_all add: std_handle_def slot_def invoke_eq)
qed

lemma served_get_mode:
  assumes "serves_console os hin hout m" "d = hin \<or> d = hout"
  shows "\<exists>h1. get_mode os d h = (Ok (modes_now m h d), h1) \<and> modes_now m h1 = modes_now m h"
proof -
  obtain r where "os h (GetConsoleMode d) = Inr r" "wp_num r = modes_now m h d"
    using assms unfolding serves_console_def by blast
  then show ?thesis by (simp add: get_mode_def attempt_def call_eq)
qed

lemma served_set_mode:
  assumes "serves_console os hin hout m" "d = hin \<or> d = hout"
  shows "\<exists>h1. set_mode os d x h = (Ok (), h1) \<and> modes_now m h1 = (modes_now m h)(d := x)"
proof -
  obtain r where "os h (SetConsoleMode d x) = Inr r"
    using assms unfolding serves_console_def by blast
  then show ?thesis by (simp add: set_mode_def unit_call_def attempt_def call_eq)
qed

lemma enter_vt_served:
  assumes "serves_console os hin hout m"
  shows "\<exists>h1. enter_vt os h = (Some (modes_now m h hout), h1) \<and>
    modes_now m h1 = (modes_now m h)(hout := vt_output (modes_now m h hout))"
proof -
  have valid: "hout \<noteq> 0 \<and> hout \<noteq> - 1" using assms unfolding serves_console_def by blast
  obtain h1 where h1: "std_handle os Stdout h = (hout, h1)" "modes_now m h1 = modes_now m h"
    using served_std(2)[OF assms] by blast
  obtain h2 where h2: "get_mode os hout h1 = (Ok (modes_now m h1 hout), h2)" "modes_now m h2 = modes_now m h1"
    using served_get_mode[OF assms] by blast
  obtain h3 where h3: "std_handle os Stdout h2 = (hout, h3)" "modes_now m h3 = modes_now m h2"
    using served_std(2)[OF assms] by blast
  obtain h4 where h4: "get_mode os hout h3 = (Ok (modes_now m h3 hout), h4)" "modes_now m h4 = modes_now m h3"
    using served_get_mode[OF assms] by blast
  obtain h5 where h5: "set_mode os hout (vt_output (modes_now m h3 hout)) h4 = (Ok (), h5)"
    "modes_now m h5 = (modes_now m h4)(hout := vt_output (modes_now m h3 hout))"
    using served_set_mode[OF assms] by blast
  show ?thesis using h1 h2 h3 h4 h5 valid by (simp add: enter_vt_def console_is_tty_def)
qed

lemma console_enter_raw_served:
  assumes "serves_console os hin hout m"
  shows "\<exists>h1. console_enter_raw os h = (Ok \<lparr>sm_input = modes_now m h hin, sm_output = Some (modes_now m h hout)\<rparr>, h1)
    \<and> modes_now m h1 hin = raw_input (modes_now m h hin)"
proof -
  have ne: "hin \<noteq> hout" using assms unfolding serves_console_def by blast
  obtain h1 where h1: "std_handle os Stdin h = (hin, h1)" "modes_now m h1 = modes_now m h"
    using served_std(1)[OF assms] by blast
  obtain h2 where h2: "get_mode os hin h1 = (Ok (modes_now m h1 hin), h2)" "modes_now m h2 = modes_now m h1"
    using served_get_mode[OF assms] by blast
  obtain h3 where h3: "set_mode os hin (raw_input (modes_now m h1 hin)) h2 = (Ok (), h3)"
    "modes_now m h3 = (modes_now m h2)(hin := raw_input (modes_now m h1 hin))"
    using served_set_mode[OF assms] by blast
  obtain h4 where h4: "enter_vt os h3 = (Some (modes_now m h3 hout), h4)"
    "modes_now m h4 = (modes_now m h3)(hout := vt_output (modes_now m h3 hout))"
    using enter_vt_served[OF assms] by blast
  show ?thesis using h1 h2 h3 h4 ne by (simp add: console_enter_raw_def attempt_def)
qed

lemma console_restore_served:
  assumes "serves_console os hin hout m"
  shows "\<exists>h1. console_restore os \<lparr>sm_input = x, sm_output = Some y\<rparr> h = (Ok (), h1)
    \<and> modes_now m h1 hin = x \<and> modes_now m h1 hout = y"
proof -
  have ne: "hin \<noteq> hout" using assms unfolding serves_console_def by blast
  obtain h1 where h1: "std_handle os Stdin h = (hin, h1)" using served_std(1)[OF assms] by blast
  obtain h2 where h2: "set_mode os hin x h1 = (Ok (), h2)" "modes_now m h2 = (modes_now m h1)(hin := x)"
    using served_set_mode[OF assms] by blast
  obtain h3 where h3: "std_handle os Stdout h2 = (hout, h3)" "modes_now m h3 = modes_now m h2"
    using served_std(2)[OF assms] by blast
  obtain h4 where h4: "set_mode os hout y h3 = (Ok (), h4)" "modes_now m h4 = (modes_now m h3)(hout := y)"
    using served_set_mode[OF assms] by blast
  show ?thesis using h1 h2 h3 h4 ne by (simp add: console_restore_def attempt_def)
qed

lemma raw_input_raw: "raw_input mode AND (ENABLE_ECHO_INPUT OR ENABLE_LINE_INPUT) = 0"
proof -
  have "NOT (4 OR 2 OR 1) AND (4 OR 2) = (0 :: u32)" "0x200 AND (4 OR 2) = (0 :: u32)" by simp_all
  then show ?thesis unfolding raw_input_def
    by (simp only: bit.conj_disj_distrib2 and.assoc bit.conj_zero_right or.right_neutral)
qed

text \<open>On a console, \<open>with_raw\<close> over the Windows handle runs its body once with line editing and echo
  off, passes its result on, and afterwards both the input and the output have exactly the modes they
  had before, whatever the body did to them.\<close>

theorem windows_with_raw_restores:
  assumes tty: "serves_console os hin hout m"
    and body: "\<forall>s. wt_saved (fst (snd (body s))) = wt_saved (fst s)"
  shows "\<exists>s1 t2 h2. windows_enter_raw os (\<lparr>wt_saved = None, wt_console = c\<rparr>, h) = (Ok (), s1)
    \<and> fst (windows_is_raw os (snd s1))
    \<and> with_raw (windows_enter_raw os) (windows_leave_raw os) body (\<lparr>wt_saved = None, wt_console = c\<rparr>, h)
        = (fst (body s1), (t2, h2))
    \<and> wt_saved t2 = None
    \<and> modes_now m h2 hin = modes_now m h hin \<and> modes_now m h2 hout = modes_now m h hout"
proof -
  let ?sm = "\<lparr>sm_input = modes_now m h hin, sm_output = Some (modes_now m h hout)\<rparr>"
  obtain h1 where h1: "console_enter_raw os h = (Ok ?sm, h1)" "modes_now m h1 hin = raw_input (modes_now m h hin)"
    using console_enter_raw_served[OF tty] by blast
  let ?s1 = "(\<lparr>wt_saved = Some ?sm, wt_console = c\<rparr>, h1)"
  have enter: "windows_enter_raw os (\<lparr>wt_saved = None, wt_console = c\<rparr>, h) = (Ok (), ?s1)"
    using h1(1) by (simp add: windows_enter_raw_def)
  have valid: "hin \<noteq> 0 \<and> hin \<noteq> - 1" using tty unfolding serves_console_def by blast
  obtain g1 where g1: "std_handle os Stdin h1 = (hin, g1)" "modes_now m g1 = modes_now m h1"
    using served_std(1)[OF tty] by blast
  obtain g2 where g2: "get_mode os hin g1 = (Ok (modes_now m g1 hin), g2)" using served_get_mode[OF tty] by blast
  have is_raw: "fst (windows_is_raw os h1)"
    using g1 g2 h1(2) valid raw_input_raw[of "modes_now m h hin"]
    by (simp add: windows_is_raw_def console_is_raw_def del: word_not_simps)
  obtain res t2 hb where b: "body ?s1 = (res, (t2, hb))" by (metis prod.exhaust)
  have t2: "wt_saved t2 = Some ?sm" using body[rule_format, of ?s1] b by simp
  obtain h2 where h2: "console_restore os ?sm hb = (Ok (), h2)"
    "modes_now m h2 hin = modes_now m h hin" "modes_now m h2 hout = modes_now m h hout"
    using console_restore_served[OF tty] by blast
  have "windows_leave_raw os (t2, hb) = (Ok (), (t2\<lparr>wt_saved := None\<rparr>, h2))"
    using h2(1) t2 by (simp add: windows_leave_raw_def)
  then have "with_raw (windows_enter_raw os) (windows_leave_raw os) body (\<lparr>wt_saved = None, wt_console = c\<rparr>, h)
      = (res, (t2\<lparr>wt_saved := None\<rparr>, h2))"
    using enter b by (cases res) (simp_all add: with_raw_def)
  then show ?thesis using enter is_raw b h2 by (intro exI[of _ ?s1] exI[of _ "t2\<lparr>wt_saved := None\<rparr>"] exI[of _ h2]) simp
qed

definition console_device :: "(handle \<Rightarrow> u32) \<Rightarrow> win" where
  "console_device m h c =
    Inr (case c of
           GetStdHandle s \<Rightarrow> win_reply\<lparr>wp_handle := (if s = STD_INPUT_HANDLE then 3 else 7)\<rparr>
         | GetConsoleMode d \<Rightarrow> win_reply\<lparr>wp_num := modes_now m h d\<rparr>
         | _ \<Rightarrow> win_reply)"

theorem windows_with_raw_restores_witness:
  "\<exists>t2 h2. with_raw (windows_enter_raw (console_device (\<lambda>_. 7))) (windows_leave_raw (console_device (\<lambda>_. 7)))
      (\<lambda>s. (Ok (1 :: nat), s)) (\<lparr>wt_saved = None, wt_console = Inherited\<rparr>, []) = (Ok 1, (t2, h2))
    \<and> modes_now (\<lambda>_. 7) h2 3 = 7 \<and> modes_now (\<lambda>_. 7) h2 7 = 7"
proof -
  have "serves_console (console_device (\<lambda>_. 7)) 3 7 (\<lambda>_. 7)"
    by (simp add: serves_console_def console_device_def win_reply_def)
  from windows_with_raw_restores[OF this, of "\<lambda>s. (Ok (1 :: nat), s)" Inherited "[]"]
  show ?thesis by auto
qed

section \<open>A console that cannot be given back\<close>

text \<open>When the console was allocated but a standard handle could not be reopened, the allocation
  reports the error and the handle goes on saying that there is no console: releasing it then
  succeeds without a call, so the console stays.\<close>

theorem windows_alloc_failure_keeps_console:
  assumes "wt_console t = NoConsole" "console_alloc os h = (Ok (), h1)" "reopen_std_handles os h1 = (Err e, h2)"
  shows "alloc_console os (t, h) = (Err e, (t, h2)) \<and> free_console os (t, h2) = (Ok (), (t, h2))"
  using assms by (simp add: alloc_console_def acquire_def attempt_def free_console_def)

text \<open>A process whose new console cannot be opened for output.\<close>

definition half_console :: win where
  "half_console h c =
    (case c of
       CreateFileW name _ _ _ _ _ \<Rightarrow>
         (if name = to_wide_nul ''CONIN$'' then Inr (win_reply\<lparr>wp_handle := 3\<rparr>) else Inl ERROR_ACCESS_DENIED)
     | _ \<Rightarrow> Inr win_reply)"

theorem windows_alloc_failure_keeps_console_witness:
  "\<exists>e h2. alloc_console half_console (\<lparr>wt_saved = None, wt_console = NoConsole\<rparr>, [])
      = (Err e, (\<lparr>wt_saved = None, wt_console = NoConsole\<rparr>, h2))
    \<and> made AllocConsole h2
    \<and> free_console half_console (\<lparr>wt_saved = None, wt_console = NoConsole\<rparr>, h2)
      = (Ok (), (\<lparr>wt_saved = None, wt_console = NoConsole\<rparr>, h2))"
proof -
  have names: "to_wide_nul ''CONIN$'' \<noteq> to_wide_nul ''CONOUT$''"
    by (simp add: to_wide_nul_def encode_wide_def as_bytes_def byte_of_def utf16_units_def nat_unit_def)
  have alloc: "console_alloc half_console [] = (Ok (), [(AllocConsole, Inr win_reply)])"
    by (simp add: console_alloc_def unit_call_def attempt_def call_eq half_console_def)
  obtain e h2 where re: "reopen_std_handles half_console [(AllocConsole, Inr win_reply)] = (Err e, h2)" "made AllocConsole h2"
    using names by (simp add: reopen_std_handles_def reopen_def owned_def attempt_def call_eq half_console_def from_raw_def
        Let_def made_def)
  then show ?thesis
    using windows_alloc_failure_keeps_console[OF _ alloc re(1), of "\<lparr>wt_saved = None, wt_console = NoConsole\<rparr>"] by auto
qed

text \<open>A timeout of \<open>2 ^ 32\<close> milliseconds or more waits for ever.\<close>

lemma poll_ms_long_is_infinite: "2 ^ 32 - 1 \<le> as_millis d \<Longrightarrow> poll_ms (Some d) = INFINITE"
  by (cases "as_millis d = 2 ^ 32 - 1") (simp_all add: poll_ms_def)

end
