(* ===== verification/Windows_Security.thy ===== *)
theory Windows_Security
  imports Windows_Calls Platform_Security
begin

text \<open>
  The security services of the Windows backend, \<open>platform-windows/src/sys/security.rs\<close> and
  \<open>security.rs\<close>: random bytes, the Credential Manager and the store of root certificates.  A call
  answers with the bytes it fills or copies out; a certificate context is a handle, zero at the
  end of the enumeration.
\<close>

section \<open>Random bytes\<close>

text \<open>The length is narrowed to 32 bits on the way to the call.\<close>

definition fill_random :: "(u32 \<Rightarrow> u32) \<Rightarrow> win \<Rightarrow> bytes \<Rightarrow> bytes weff" where
  "fill_random dos os buf =
    attempt (call os (nt_err dos ''BCryptGenRandom'' '''') (BCryptGenRandom (length buf mod 2 ^ 32))) (\<lambda>r.
      ret (Ok (read_into buf (take (length buf mod 2 ^ 32) (wp_data r)))))"

section \<open>Credentials\<close>

definition credential_set :: "win \<Rightarrow> string \<Rightarrow> string \<Rightarrow> bytes \<Rightarrow> unit weff" where
  "credential_set os target_name user_name secret =
    unit_call os (last_win32_err ''CredWriteW'' '''')
      (CredWriteW (to_wide_nul target_name) (to_wide_nul user_name) (take (length secret mod 2 ^ 32) secret))"

definition credential_get :: "win \<Rightarrow> string \<Rightarrow> bytes option weff" where
  "credential_get os target_name h =
    (case call os (last_win32_err ''CredReadW'' '''') (CredReadW (to_wide_nul target_name)) h of
       (Err e, h1) \<Rightarrow> (if err_kind e = NotFound then (Ok None, h1) else (Err e, h1))
     | (Ok r, h1) \<Rightarrow> (Ok (Some (wp_data r)), snd (invoke os CredFree h1)))"

text \<open>The separator is character 1.\<close>

definition credential_target_name :: "string \<Rightarrow> string \<Rightarrow> string" where
  "credential_target_name service account = ''rustils'' @ [CHR 0x01] @ service @ [CHR 0x01] @ account"

definition windows_available :: CredentialStoreStatus where
  "windows_available = Available"

definition windows_get :: "win \<Rightarrow> string \<Rightarrow> string \<Rightarrow> bytes option weff" where
  "windows_get os service account = credential_get os (credential_target_name service account)"

definition windows_set :: "win \<Rightarrow> string \<Rightarrow> string \<Rightarrow> bytes \<Rightarrow> unit weff" where
  "windows_set os service account secret = credential_set os (credential_target_name service account) account secret"

section \<open>Trust anchors\<close>

partial_function (option) enum_certs ::
  "win \<Rightarrow> handle \<Rightarrow> handle \<Rightarrow> bytes list \<Rightarrow> win_calls \<Rightarrow> (bytes list \<times> win_calls) option" where
  [code]: "enum_certs os store ctx anchors h =
    (case (case invoke os (CertEnumCertificatesInStore store ctx) h of
             (Inl _, h1) \<Rightarrow> (0, [], h1) | (Inr r, h1) \<Rightarrow> (wp_handle r, wp_data r, h1)) of
       (ctx1, der, h1) \<Rightarrow>
         (if ctx1 = 0 then Some (anchors, h1)
          else enum_certs os store ctx1 (if der = [] then anchors else anchors @ [der]) h1))"

definition load_anchors :: "win \<Rightarrow> win_calls \<Rightarrow> (bytes list result \<times> win_calls) option" where
  "load_anchors os h =
    (let mk = last_win32_err ''CertOpenSystemStoreW(ROOT)'' ''ROOT''
     in case invoke os (CertOpenSystemStoreW (to_wide_nul ''ROOT'')) h of
          (a, h1) \<Rightarrow>
            (let store = (case a of Inl _ \<Rightarrow> 0 | Inr r \<Rightarrow> wp_handle r)
             in if store = 0 then Some (Err (mk (last_error h1)), h1)
                else case enum_certs os store 0 [] h1 of
                       None \<Rightarrow> None
                     | Some (anchors, h2) \<Rightarrow>
                         (let h3 = snd (invoke os (CertCloseStore store) h2)
                          in Some (if anchors = []
                                   then Err (new_error NotFound NoCode ''ROOT certificate store held no usable certificates'')
                                   else Ok anchors, h3))))"

section \<open>The sandbox\<close>

definition windows_confine_filesystem :: "string list \<Rightarrow> string list \<Rightarrow> SandboxStatus result" where
  "windows_confine_filesystem readable_roots writable_roots = Ok SandboxUnsupported"

definition windows_block_inet_sockets :: "SandboxStatus result" where
  "windows_block_inet_sockets = Ok SandboxUnsupported"

section \<open>What the Credential Manager keeps\<close>

text \<open>The manager keeps one secret per target name, which it reads up to the first NUL.\<close>

definition c_name :: "u16 list \<Rightarrow> u16 list" where
  "c_name us = takeWhile (\<lambda>u. u \<noteq> 0) us"

fun creds_now :: "(u16 list \<rightharpoonup> bytes) \<Rightarrow> win_calls \<Rightarrow> u16 list \<rightharpoonup> bytes" where
  "creds_now m [] = m"
| "creds_now m ((c, a) # h) =
    creds_now (case (c, a) of (CredWriteW t _ b, Inr _) \<Rightarrow> m(c_name t \<mapsto> b) | _ \<Rightarrow> m) h"

definition serves_creds :: "win \<Rightarrow> (u16 list \<rightharpoonup> bytes) \<Rightarrow> bool" where
  "serves_creds os m \<longleftrightarrow>
    (\<forall>h t. case creds_now m h (c_name t) of
       None \<Rightarrow> os h (CredReadW t) = Inl ERROR_NOT_FOUND
     | Some b \<Rightarrow> \<exists>r. os h (CredReadW t) = Inr r \<and> wp_data r = b) \<and>
    (\<forall>h t u b. \<exists>r. os h (CredWriteW t u b) = Inr r)"

lemma creds_now_append [simp]: "creds_now m (h @ h') = creds_now (creds_now m h) h'"
  by (induction m h rule: creds_now.induct) simp_all

lemma credential_get_served:
  assumes "serves_creds os m"
  shows "fst (credential_get os t h) = Ok (creds_now m h (c_name (to_wide_nul t)))"
proof -
  have "case creds_now m h (c_name (to_wide_nul t)) of
      None \<Rightarrow> os h (CredReadW (to_wide_nul t)) = Inl ERROR_NOT_FOUND
    | Some b \<Rightarrow> \<exists>r. os h (CredReadW (to_wide_nul t)) = Inr r \<and> wp_data r = b"
    using assms unfolding serves_creds_def by blast
  then show ?thesis
    by (auto simp: credential_get_def call_eq last_win32_err_def at_path_def kind_of_win32_def new_error_def
        split: option.splits)
qed

lemma credential_set_served:
  assumes "serves_creds os m" "length secret < 2 ^ 32"
  shows "\<exists>h1. credential_set os t u secret h = (Ok (), h1) \<and>
    creds_now m h1 = (creds_now m h)(c_name (to_wide_nul t) \<mapsto> secret)"
proof -
  obtain r where "os h (CredWriteW (to_wide_nul t) (to_wide_nul u) secret) = Inr r"
    using assms(1) unfolding serves_creds_def by blast
  then show ?thesis using assms(2) by (simp add: credential_set_def unit_call_def attempt_def call_eq)
qed

text \<open>Names without the separator, without NUL and in the text encoding of the system.\<close>

definition plain_name :: "string \<Rightarrow> string \<Rightarrow> bool" where
  "plain_name service account \<longleftrightarrow>
    CHR 0x01 \<notin> set service \<and> CHR 0x01 \<notin> set account \<and>
    is_wtf8 (credential_target_name service account) \<and> 0 \<notin> set (encode_wide (credential_target_name service account))"

lemma split_at_separator:
  assumes "x \<notin> set as" "x \<notin> set cs" "as @ x # bs = cs @ x # ds"
  shows "as = cs \<and> bs = ds"
  using assms
proof (induction as arbitrary: cs)
  case Nil
  then show ?case by (cases cs) auto
next
  case (Cons y ys)
  then show ?case by (cases cs) auto
qed

lemma target_name_inject:
  assumes "plain_name s a" "plain_name s' a'"
    "c_name (to_wide_nul (credential_target_name s a)) = c_name (to_wide_nul (credential_target_name s' a'))"
  shows "s = s' \<and> a = a'"
proof -
  have whole: "c_name (to_wide_nul t) = encode_wide t" if "0 \<notin> set (encode_wide t)" for t
    using that by (auto simp: c_name_def to_wide_nul_def takeWhile_append intro!: takeWhile_eq_all_conv[THEN iffD2])
  have "credential_target_name s a = credential_target_name s' a'"
    using assms whole encode_wide_inject unfolding plain_name_def by metis
  then have "s @ CHR 0x01 # a = s' @ CHR 0x01 # a'" by (simp add: credential_target_name_def)
  then show ?thesis using assms(1,2) by (intro split_at_separator) (simp_all add: plain_name_def)
qed


definition credential_manager :: win where
  "credential_manager h c =
    (case c of
       CredReadW t \<Rightarrow> (case creds_now Map.empty h (c_name t) of
           None \<Rightarrow> Inl ERROR_NOT_FOUND | Some b \<Rightarrow> Inr (win_reply\<lparr>wp_data := b\<rparr>))
     | _ \<Rightarrow> Inr win_reply)"


text \<open>Two pairs of names with the separator in them are one entry.\<close>

lemma separator_collides:
  "credential_target_name (s @ [CHR 0x01] @ t) a = credential_target_name s (t @ [CHR 0x01] @ a)"
  by (simp add: credential_target_name_def)

section \<open>Every certificate is reported\<close>

text \<open>A store with the given encodings; the context of entry \<open>i\<close> is \<open>i + 1\<close>.\<close>

definition serves_store :: "win \<Rightarrow> bytes list \<Rightarrow> bool" where
  "serves_store os ders \<longleftrightarrow>
    (\<forall>h name. \<exists>r. os h (CertOpenSystemStoreW name) = Inr r \<and> wp_handle r \<noteq> 0) \<and>
    (\<forall>h s i. i \<le> length ders \<longrightarrow> (\<exists>r. os h (CertEnumCertificatesInStore s (int i)) = Inr r \<and>
       (if i < length ders then wp_handle r = int i + 1 \<and> wp_data r = ders ! i else wp_handle r = 0)))"

lemma enum_certs_served:
  assumes "serves_store os ders" "i \<le> length ders"
  shows "\<exists>h1. enum_certs os s (int i) anchors h = Some (anchors @ filter (\<lambda>d. d \<noteq> []) (drop i ders), h1)"
  using assms(2)
proof (induction "length ders - i" arbitrary: i anchors h)
  case 0
  then have i: "i = length ders" by simp
  obtain r where "os h (CertEnumCertificatesInStore s (int i)) = Inr r" "wp_handle r = 0"
    using assms(1) i unfolding serves_store_def by (metis le_refl less_irrefl)
  then show ?case using i by (subst enum_certs.simps) (simp add: invoke_eq)
next
  case (Suc n)
  then have i: "i < length ders" by simp
  obtain r where r: "os h (CertEnumCertificatesInStore s (int i)) = Inr r" "wp_handle r = int i + 1" "wp_data r = ders ! i"
    using assms(1) i unfolding serves_store_def by (metis less_imp_le)
  have "n = length ders - Suc i" "Suc i \<le> length ders" using Suc.hyps(2) i by simp_all
  from Suc.hyps(1)[OF this, of "if ders ! i = [] then anchors else anchors @ [ders ! i]" "h @ [(CertEnumCertificatesInStore s (int i), Inr r)]"]
  show ?case using r i
    by (cases "ders ! i = []")
      (simp_all add: enum_certs.simps[of os s "int i"] invoke_eq Cons_nth_drop_Suc[symmetric] add.commute[of 1])
qed

text \<open>On such a store loading comes back, with every readable certificate in the order of the store, or with
  an error when there is none, and the store is closed at the end.\<close>

lemma windows_load_anchors_complete:
  assumes "serves_store os ders"
  shows "\<exists>h1 s a. load_anchors os h =
    Some (if filter (\<lambda>d. d \<noteq> []) ders = []
          then Err (new_error NotFound NoCode ''ROOT certificate store held no usable certificates'')
          else Ok (filter (\<lambda>d. d \<noteq> []) ders), h1 @ [(CertCloseStore s, a)])"
proof -
  obtain r where r: "os h (CertOpenSystemStoreW (to_wide_nul ''ROOT'')) = Inr r" "wp_handle r \<noteq> 0"
    using assms unfolding serves_store_def by blast
  obtain h2 where "enum_certs os (wp_handle r) (int 0) [] (h @ [(CertOpenSystemStoreW (to_wide_nul ''ROOT''), Inr r)])
      = Some ([] @ filter (\<lambda>d. d \<noteq> []) (drop 0 ders), h2)"
    using enum_certs_served[OF assms] by blast
  then show ?thesis using r
    by (intro exI[of _ h2] exI[of _ "wp_handle r"] exI[of _ "os h2 (CertCloseStore (wp_handle r))"])
      (simp add: load_anchors_def invoke_eq Let_def)
qed

text \<open>Of a buffer of \<open>2 ^ 32\<close> bytes nothing is filled.\<close>

lemma fill_random_wraps:
  assumes "length buf = 2 ^ 32" "os h (BCryptGenRandom 0) = Inr r"
  shows "fst (fill_random dos os buf h) = Ok buf"
  using assms by (simp add: fill_random_def attempt_def call_eq read_into_def)

end
