(* ===== verification/Windows_Pty.thy ===== *)
theory Windows_Pty
  imports Windows_Process Terminal
begin

text \<open>
  Hosting a child on a pseudo console: \<open>platform-windows/src/sys/pty.rs\<close>, and \<open>WindowsPty\<close> with its
  master side from \<open>platform-windows/src/pty.rs\<close>.  The thread that watches for the end of the child
  and the drop of the master share one flag; what they do is a transition system over that flag.
\<close>

section \<open>The pseudo console\<close>

abbreviation EXTENDED_STARTUPINFO_PRESENT :: u32 where "EXTENDED_STARTUPINFO_PRESENT \<equiv> 0x80000"

definition create_pipe_pair :: "win \<Rightarrow> (handle \<times> handle) weff" where
  "create_pipe_pair os =
    attempt (call os (last_win32_err ''CreatePipe'' '''') (CreatePipe False)) (\<lambda>r.
      case from_raw (wp_handle r) of
        None \<Rightarrow> ret (Err (win_fail ''CreatePipe''))
      | Some rd \<Rightarrow>
          or_close os (CloseHandle rd)
            (case from_raw (wp_handle2 r) of None \<Rightarrow> ret (Err (win_fail ''CreatePipe'')) | Some wr \<Rightarrow> ret (Ok (rd, wr))))"

definition create_pseudo_console :: "win \<Rightarrow> handle \<Rightarrow> handle \<Rightarrow> WinSize \<Rightarrow> handle weff" where
  "create_pseudo_console os input output sz =
    attempt (call os (\<lambda>hr. hresult_err hr ''CreatePseudoConsole'') (CreatePseudoConsole (cols sz) (rows sz) input output))
      (\<lambda>r. ret (Ok (wp_handle r)))"

text \<open>The console, the end the caller writes to and the end it reads from.\<close>

definition create_pty :: "win \<Rightarrow> WinSize \<Rightarrow> (handle \<times> handle \<times> handle) weff" where
  "create_pty os sz =
    attempt (create_pipe_pair os) (\<lambda>(conpty_input, master_input).
    attempt (or_close_all os [master_input, conpty_input] (create_pipe_pair os)) (\<lambda>(master_output, conpty_output).
    attempt (or_close_all os [master_output, master_input]
              (finally_close_all os [conpty_input, conpty_output]
                (create_pseudo_console os conpty_input conpty_output sz))) (\<lambda>hpc.
    ret (Ok (hpc, master_input, master_output)))))"

definition list_size :: "win \<Rightarrow> nat weff" where
  "list_size os h =
    (case invoke os AttributeListSize h of
       (a, h1) \<Rightarrow>
         (let n = (case a of Inl _ \<Rightarrow> 0 | Inr r \<Rightarrow> unat (wp_long r))
          in (if n = 0 then Err (last_win32_err ''InitializeProcThreadAttributeList'' '''' (last_error h1)) else Ok n, h1)))"

definition create_attached :: "win \<Rightarrow> handle \<Rightarrow> u16 list \<Rightarrow> string \<Rightarrow> EnvSpec \<Rightarrow> (handle \<times> u32) weff" where
  "create_attached os hpc line cwd env =
    attempt (call os (last_win32_err ''UpdateProcThreadAttribute'' '''') (UpdateAttribute hpc)) (\<lambda>_.
    attempt (call os (last_win32_err ''CreateProcessW'' cwd)
        (CreateProcessW (line @ [0]) False
          (if env_block env \<noteq> None then EXTENDED_STARTUPINFO_PRESENT OR CREATE_UNICODE_ENVIRONMENT
           else EXTENDED_STARTUPINFO_PRESENT)
          (env_block env) (to_wide_nul cwd) (Some (0, 0, 0)))) (\<lambda>r.
      case from_raw (wp_handle r) of
        None \<Rightarrow> ret (Err (win_fail ''CreateProcessW''))
      | Some process \<Rightarrow>
          finally_close_all os (somes [from_raw (wp_handle2 r)]) (ret (Ok (process, wp_num r)))))"

definition spawn_attached :: "win \<Rightarrow> handle \<Rightarrow> u16 list \<Rightarrow> string \<Rightarrow> EnvSpec \<Rightarrow> (handle \<times> u32) weff" where
  "spawn_attached os hpc line cwd env =
    attempt (list_size os) (\<lambda>n.
    attempt (call os (last_win32_err ''InitializeProcThreadAttributeList'' '''') (InitAttributeList n)) (\<lambda>_.
    finally_close os DeleteAttributeList (create_attached os hpc line cwd env)))"

definition resize :: "win \<Rightarrow> handle \<Rightarrow> WinSize \<Rightarrow> unit weff" where
  "resize os hpc sz = unit_call os (\<lambda>hr. hresult_err hr ''ResizePseudoConsole'') (ResizePseudoConsole hpc (cols sz) (rows sz))"

definition close_pseudo_console :: "win \<Rightarrow> handle \<Rightarrow> win_calls \<Rightarrow> win_calls" where
  "close_pseudo_console os hpc h = snd (invoke os (ClosePseudoConsole hpc) h)"

text \<open>How many bytes are ready in a pipe; \<open>None\<close> when it is broken.\<close>

definition peek :: "win \<Rightarrow> handle \<Rightarrow> win_calls \<Rightarrow> nat option \<times> win_calls" where
  "peek os d h =
    (case invoke os (PeekNamedPipe d) h of (Inl _, h1) \<Rightarrow> (None, h1) | (Inr r, h1) \<Rightarrow> (Some (unat (wp_num r)), h1))"

partial_function (option) wait_readable_loop ::
  "win \<Rightarrow> handle \<Rightarrow> nat \<Rightarrow> win_calls \<Rightarrow> (bool \<times> win_calls) option" where
  [code]: "wait_readable_loop os d deadline h =
    (case peek os d h of
       (n, h1) \<Rightarrow>
         (if n = Some 0
          then (case instant_now os h1 of
                  (t, h2) \<Rightarrow>
                    (if deadline \<le> t then Some (False, h2)
                     else wait_readable_loop os d deadline (snd (invoke os (ThreadSleep 10) h2))))
          else Some (True, h1)))"

definition wait_readable :: "win \<Rightarrow> handle \<Rightarrow> nat \<Rightarrow> win_calls \<Rightarrow> (bool \<times> win_calls) option" where
  "wait_readable os d budget h = (case instant_now os h of (t, h1) \<Rightarrow> wait_readable_loop os d (t + budget) h1)"

text \<open>Reading off what is left before the console is closed.\<close>

partial_function (option) drain :: "win \<Rightarrow> handle \<Rightarrow> nat \<Rightarrow> win_calls \<Rightarrow> win_calls option" where
  [code]: "drain os d deadline h =
    (case instant_now os h of
       (t, h1) \<Rightarrow>
         (if deadline \<le> t then Some h1
          else case peek os d h1 of
                 (n, h2) \<Rightarrow>
                   (if n = None then Some h2
                    else if n = Some 0 then drain os d deadline (snd (invoke os (ThreadSleep 5) h2))
                    else case invoke os (ReadFile d 4096) h2 of
                           (a, h3) \<Rightarrow> (if isl a then Some h3 else drain os d deadline h3))))"

definition close_pty :: "win \<Rightarrow> handle \<Rightarrow> handle \<Rightarrow> win_calls \<Rightarrow> win_calls option" where
  "close_pty os hpc output h =
    (case instant_now os h of
       (t, h1) \<Rightarrow>
         (case drain os output (t + 2000000000) h1 of None \<Rightarrow> None | Some h2 \<Rightarrow> Some (close_pseudo_console os hpc h2)))"

section \<open>Spawning and the master\<close>

record WindowsPtyMaster =
  pm_hpc :: handle
  pm_input :: handle
  pm_output :: handle

definition input_handle :: "WindowsPtyMaster \<Rightarrow> handle" where
  "input_handle p = pm_input p"

definition output_handle :: "WindowsPtyMaster \<Rightarrow> handle" where
  "output_handle p = pm_output p"

text \<open>The watcher owns a duplicate of the process handle, if it could be made.\<close>

definition spawn_exit_watcher :: "win \<Rightarrow> handle \<Rightarrow> win_calls \<Rightarrow> handle option \<times> win_calls" where
  "spawn_exit_watcher os process h =
    (case duplicate os process False h of (Err _, h1) \<Rightarrow> (None, h1) | (Ok d, h1) \<Rightarrow> (Some d, h1))"

definition prepare :: "win \<Rightarrow> Paths \<Rightarrow> WindowsFile option Command \<Rightarrow> WinSize \<Rightarrow>
    (u16 list \<times> handle \<times> handle \<times> handle) weff" where
  "prepare os ps cmd sz =
    (if (case cmd_group cmd of JoinGroup _ \<Rightarrow> True | _ \<Rightarrow> False)
     then ret (Err (new_error InvalidInput NoCode
            ''Pty::spawn: GroupSpec::JoinGroup is incompatible with a fresh pty session''))
     else
       attempt (ret (resolve ps (cmd_program cmd))) (\<lambda>resolved.
       attempt (ret (build_command_line resolved (cmd_argv cmd))) (\<lambda>line.
       attempt (create_pty os sz) (\<lambda>(hpc, input, output). ret (Ok (line, hpc, input, output))))))"

text \<open>The result has the master, the child and the handle of the watcher; without a value the drain
  of a failed spawn does not end.\<close>

definition pty_spawn ::
  "win \<Rightarrow> Paths \<Rightarrow> WindowsFile option Command \<Rightarrow> WinSize \<Rightarrow> win_calls \<Rightarrow>
   ((WindowsPtyMaster \<times> WindowsChild \<times> handle option) result \<times> win_calls) option" where
  "pty_spawn os ps cmd sz h =
    (case prepare os ps cmd sz h of
       (Err e, h1) \<Rightarrow> Some (Err e, h1)
     | (Ok (line, hpc, input, output), h1) \<Rightarrow>
         (case spawn_attached os hpc line (cmd_cwd cmd) (cmd_env cmd) h1 of
            (Ok (process, pid), h2) \<Rightarrow>
              (case spawn_exit_watcher os process h2 of
                 (w, h3) \<Rightarrow>
                   Some (Ok (\<lparr>pm_hpc = hpc, pm_input = input, pm_output = output\<rparr>, from_parts process None pid, w), h3))
          | (Err e, h2) \<Rightarrow>
              (case close_pty os hpc output h2 of
                 None \<Rightarrow> None
               | Some h3 \<Rightarrow> Some (Err e, close_all os [output, input] h3))))"

definition master_read :: "win \<Rightarrow> WindowsPtyMaster \<Rightarrow> bytes \<Rightarrow> (nat \<times> bytes) weff" where
  "master_read os p buf = read_handle os (pm_output p) buf"

definition master_write :: "win \<Rightarrow> WindowsPtyMaster \<Rightarrow> bytes \<Rightarrow> nat weff" where
  "master_write os p buf = write_handle os (pm_input p) buf"

definition master_resize :: "win \<Rightarrow> WindowsPtyMaster \<Rightarrow> WinSize \<Rightarrow> unit weff" where
  "master_resize os p sz = resize os (pm_hpc p) sz"

text \<open>Waiting for output with a budget comes back when the clock counts the time slept.\<close>

lemma wait_readable_returns:
  assumes clock: "clock_counts_naps os"
  shows "\<exists>r. wait_readable_loop os d deadline h = Some r"
proof (induction "deadline - 10000000 * naps h" arbitrary: h rule: less_induct)
  case less
  obtain n h1 where p: "peek os d h = (n, h1)" by force
  have naps1: "naps h1 = naps h" using p by (auto simp: peek_def invoke_eq naps_snoc split: sum.splits)
  obtain t h2 where now: "instant_now os h1 = (t, h2)" by force
  show ?case
  proof (cases "n = Some 0 \<and> t < deadline")
    case True
    define h3 where "h3 = snd (invoke os (ThreadSleep 10) h2)"
    have "naps h3 = naps h + 1" using instant_now_counts(2)[OF clock now] naps1 by (simp add: h3_def invoke_eq naps_snoc)
    moreover have "10000000 * naps h < deadline" using instant_now_counts(1)[OF clock now] naps1 True by simp
    ultimately have "deadline - 10000000 * naps h3 < deadline - 10000000 * naps h" by simp
    from less.hyps[OF this] show ?thesis using p now True by (simp add: wait_readable_loop.simps[of os d _ h] h3_def)
  next
    case False
    then show ?thesis using p now by (auto simp: wait_readable_loop.simps[of os d _ h])
  qed
qed

section \<open>The watcher and the drop\<close>

text \<open>The watcher waits for the child, then tries to set the flag and, if it was the one to set it,
  closes the console.  The drop of the master does the same.  While the master is alive it can be resized.\<close>

datatype watch = NoWatcher | Watching | WatchClosing | WatchDone
datatype master = MasterAlive | MasterClosing | MasterGone
datatype PtyEvent = ConsoleClosed | ConsoleResized

record PtyWorld =
  pw_closed :: bool
  pw_watch :: watch
  pw_master :: master
  pw_events :: "PtyEvent list"

definition pty_world :: "bool \<Rightarrow> PtyWorld" where
  "pty_world watched =
    \<lparr>pw_closed = False, pw_watch = (if watched then Watching else NoWatcher), pw_master = MasterAlive, pw_events = []\<rparr>"

definition cas_closed :: "PtyWorld \<Rightarrow> bool \<times> PtyWorld" where
  "cas_closed s = (if pw_closed s then (False, s) else (True, s\<lparr>pw_closed := True\<rparr>))"

definition watcher_wakes :: "PtyWorld \<Rightarrow> PtyWorld" where
  "watcher_wakes s = (case cas_closed s of (won, s1) \<Rightarrow> s1\<lparr>pw_watch := (if won then WatchClosing else WatchDone)\<rparr>)"

definition watcher_closes :: "PtyWorld \<Rightarrow> PtyWorld" where
  "watcher_closes s = s\<lparr>pw_watch := WatchDone, pw_events := pw_events s @ [ConsoleClosed]\<rparr>"

definition master_drop :: "PtyWorld \<Rightarrow> PtyWorld" where
  "master_drop s = (case cas_closed s of (won, s1) \<Rightarrow> s1\<lparr>pw_master := (if won then MasterClosing else MasterGone)\<rparr>)"

definition master_closes :: "PtyWorld \<Rightarrow> PtyWorld" where
  "master_closes s = s\<lparr>pw_master := MasterGone, pw_events := pw_events s @ [ConsoleClosed]\<rparr>"

definition master_resizes :: "PtyWorld \<Rightarrow> PtyWorld" where
  "master_resizes s = s\<lparr>pw_events := pw_events s @ [ConsoleResized]\<rparr>"

inductive pty_step :: "PtyWorld \<Rightarrow> PtyWorld \<Rightarrow> bool" where
  wakes: "pw_watch s = Watching \<Longrightarrow> pty_step s (watcher_wakes s)"
| watch_close: "pw_watch s = WatchClosing \<Longrightarrow> pty_step s (watcher_closes s)"
| drops: "pw_master s = MasterAlive \<Longrightarrow> pty_step s (master_drop s)"
| master_close: "pw_master s = MasterClosing \<Longrightarrow> pty_step s (master_closes s)"
| resizes: "pw_master s = MasterAlive \<Longrightarrow> pty_step s (master_resizes s)"

lemmas pty_world_defs = watcher_wakes_def watcher_closes_def master_drop_def master_closes_def master_resizes_def cas_closed_def

definition pty_inv :: "PtyWorld \<Rightarrow> bool" where
  "pty_inv s \<longleftrightarrow>
    count_list (pw_events s) ConsoleClosed =
      (if pw_closed s \<and> pw_watch s \<noteq> WatchClosing \<and> pw_master s \<noteq> MasterClosing then 1 else 0) \<and>
    \<not> (pw_watch s = WatchClosing \<and> pw_master s = MasterClosing) \<and>
    (pw_watch s = WatchClosing \<or> pw_watch s = WatchDone \<or> pw_master s \<noteq> MasterAlive \<longrightarrow> pw_closed s)"

lemma pty_inv_step: "pty_step s s' \<Longrightarrow> pty_inv s \<Longrightarrow> pty_inv s'"
proof (induction rule: pty_step.induct)
  case (wakes s)
  then show ?case by (cases "pw_closed s"; cases "pw_master s") (simp_all add: pty_inv_def pty_world_defs)
next
  case (watch_close s)
  then show ?case by (cases "pw_closed s"; cases "pw_master s") (simp_all add: pty_inv_def pty_world_defs)
next
  case (drops s)
  then show ?case by (cases "pw_closed s"; cases "pw_watch s") (simp_all add: pty_inv_def pty_world_defs)
next
  case (master_close s)
  then show ?case by (cases "pw_closed s"; cases "pw_watch s") (simp_all add: pty_inv_def pty_world_defs)
next
  case (resizes s)
  then show ?case by (cases "pw_closed s"; cases "pw_watch s") (simp_all add: pty_inv_def pty_world_defs)
qed

lemma three_steps: "R a b \<Longrightarrow> R b c \<Longrightarrow> R c d \<Longrightarrow> R\<^sup>*\<^sup>* a d"
  by (blast intro: converse_rtranclp_into_rtranclp rtranclp.rtrancl_refl)

lemma pty_inv_reachable: "pty_step\<^sup>*\<^sup>* (pty_world watched) s \<Longrightarrow> pty_inv s"
proof (induction rule: rtranclp_induct)
  case base
  then show ?case by (simp add: pty_inv_def pty_world_def)
qed (rule pty_inv_step)

text \<open>C15.  Whatever the order in which the child ends, the watcher wakes and the master is dropped, the
  pseudo console is closed at most once, and it has been closed exactly once when the master is gone
  and the watcher, if there is one, has finished.\<close>

theorem windows_pty_closed_once:
  assumes "pty_step\<^sup>*\<^sup>* (pty_world watched) s"
  shows "count_list (pw_events s) ConsoleClosed \<le> 1 \<and>
    (pw_master s = MasterGone \<and> pw_watch s \<noteq> Watching \<and> pw_watch s \<noteq> WatchClosing \<longrightarrow>
      count_list (pw_events s) ConsoleClosed = 1)"
  using pty_inv_reachable[OF assms] by (auto simp: pty_inv_def)

theorem windows_pty_closed_once_witness:
  "\<exists>s. pty_step\<^sup>*\<^sup>* (pty_world True) s \<and> pw_master s = MasterGone \<and> pw_watch s = WatchDone \<and>
     count_list (pw_events s) ConsoleClosed = 1"
proof -
  let ?s = "watcher_closes (master_drop (watcher_wakes (pty_world True)))"
  have "pty_step (pty_world True) (watcher_wakes (pty_world True))"
    by (rule wakes) (simp add: pty_world_def)
  moreover have "pty_step (watcher_wakes (pty_world True)) (master_drop (watcher_wakes (pty_world True)))"
    by (rule drops) (simp add: pty_world_def pty_world_defs)
  moreover have "pty_step (master_drop (watcher_wakes (pty_world True))) ?s"
    by (rule watch_close) (simp add: pty_world_def pty_world_defs)
  ultimately have reach: "pty_step\<^sup>*\<^sup>* (pty_world True) ?s" by (rule three_steps)
  have ends: "pw_master ?s = MasterGone" "pw_watch ?s = WatchDone" by (simp_all add: pty_world_def pty_world_defs)
  then have "count_list (pw_events ?s) ConsoleClosed = 1" using windows_pty_closed_once[OF reach] by simp
  then show ?thesis using reach ends by blast
qed

text \<open>The master can be resized after the watcher has closed its console.\<close>

lemma resize_after_close:
  "\<exists>s. pty_step\<^sup>*\<^sup>* (pty_world True) s \<and> pw_events s = [ConsoleClosed, ConsoleResized]"
proof -
  let ?s = "master_resizes (watcher_closes (watcher_wakes (pty_world True)))"
  have "pty_step (pty_world True) (watcher_wakes (pty_world True))"
    by (rule wakes) (simp add: pty_world_def)
  moreover have "pty_step (watcher_wakes (pty_world True)) (watcher_closes (watcher_wakes (pty_world True)))"
    by (rule watch_close) (simp add: pty_world_def pty_world_defs)
  moreover have "pty_step (watcher_closes (watcher_wakes (pty_world True))) ?s"
    by (rule resizes) (simp add: pty_world_def pty_world_defs)
  ultimately have "pty_step\<^sup>*\<^sup>* (pty_world True) ?s" by (rule three_steps)
  then show ?thesis by (intro exI[of _ ?s]) (simp add: pty_world_def pty_world_defs)
qed

section \<open>What a spawn holds\<close>

text \<open>Beside its handles a spawn owns the console and, for a while, the attribute list.\<close>

datatype PtyObject = PseudoConsole handle | AttributeList

definition opens_object :: "WinCall \<Rightarrow> WinReply \<Rightarrow> PtyObject multiset" where
  "opens_object c r =
    (case c of CreatePseudoConsole _ _ _ _ \<Rightarrow> {#PseudoConsole (wp_handle r)#} | InitAttributeList _ \<Rightarrow> {#AttributeList#} | _ \<Rightarrow> {#})"

definition closes_object :: "WinCall \<Rightarrow> PtyObject multiset" where
  "closes_object c =
    (case c of ClosePseudoConsole d \<Rightarrow> {#PseudoConsole d#} | DeleteAttributeList \<Rightarrow> {#AttributeList#} | _ \<Rightarrow> {#})"

definition drop_object :: "PtyObject \<Rightarrow> WinCall" where
  "drop_object x = (case x of PseudoConsole d \<Rightarrow> ClosePseudoConsole d | AttributeList \<Rightarrow> DeleteAttributeList)"

lemmas object_defs = opens_object_def closes_object_def drop_object_def

interpretation objects: handle_ledger opens_object closes_object drop_object
  by unfold_locales (auto simp: object_defs split: PtyObject.split)

lemma accounts_close_neutral:
  assumes m: "accounts opens closes H own rest m" and "closes c = {#}" "\<And>r. opens c r = {#}"
  shows "accounts opens closes H own rest (or_close os c m)" (is ?A)
    "accounts opens closes H own rest (finally_close os c m)" (is ?B)
proof -
  have "\<exists>t. snd (f h) = h @ t \<and> H + acquired opens t = released closes t + (case fst (f h) of Err _ \<Rightarrow> rest | Ok x \<Rightarrow> own x)"
    if f: "f = or_close os c m \<or> f = finally_close os c m" for f h
  proof -
    obtain r h1 where e: "m h = (r, h1)" by force
    obtain t where t: "h1 = h @ t"
      "H + acquired opens t = released closes t + (case r of Err _ \<Rightarrow> rest | Ok x \<Rightarrow> own x)"
      using accounts_result[OF m e] .
    let ?u = "t @ [(c, os h1 c)]"
    have u: "acquired opens ?u = acquired opens t" "released closes ?u = released closes t"
      using assms(2,3) by (cases "os h1 c"; simp)+
    have "f h = (r, h1) \<or> f h = (r, h @ ?u)"
      using f e t(1) by (cases r) (auto simp: or_close_def finally_close_def invoke_eq)
    then show ?thesis using t u by (metis fst_conv snd_conv)
  qed
  then show ?A ?B unfolding accounts_def by blast+
qed

lemma objects_close_all:
  assumes "objects.keeps H own rest m"
  shows "objects.keeps H own rest (or_close_all os ds m)" "objects.keeps H own rest (finally_close_all os ds m)"
proof -
  have neutral: "closes_object (CloseHandle d) = {#}" "opens_object (CloseHandle d) r = {#}" for d r
    by (simp_all add: object_defs)
  show "objects.keeps H own rest (or_close_all os ds m)" using assms
    by (induction ds arbitrary: m) (simp_all add: close_all_Nil close_all_Cons accounts_close_neutral neutral)
  show "objects.keeps H own rest (finally_close_all os ds m)" using assms
    by (induction ds arbitrary: m) (simp_all add: close_all_Nil close_all_Cons accounts_close_neutral neutral)
qed

lemma keeps_create_pipe_pair:
  "wins.keeps H (\<lambda>(rd, wr). add_mset rd (add_mset wr H)) H (create_pipe_pair os)"
  unfolding create_pipe_pair_def
  by (rule accounts_attempt[OF wins.keeps_open])
    (auto simp: win_defs handles_of_def accounts_fail add_mset_commute intro!: wins.keeps_or_close keeps_give split: option.split)

lemma objects_create_pipe_pair: "objects.keeps H (\<lambda>_. H) H (create_pipe_pair os)"
  unfolding create_pipe_pair_def
  by (rule accounts_attempt[OF objects.keeps_plain])
    (auto simp: object_defs intro!: accounts_close_neutral(1) accounts_fail keeps_give split: option.split)

lemma keeps_create_pseudo_console: "wins.keeps H (\<lambda>_. H) H (create_pseudo_console os i ou sz)"
  unfolding create_pseudo_console_def by (rule keeps_win_then) (simp_all add: win_defs accounts_ret)

lemma objects_create_pseudo_console:
  "objects.keeps H (\<lambda>hpc. add_mset (PseudoConsole hpc) H) H (create_pseudo_console os i ou sz)"
  unfolding create_pseudo_console_def
  by (rule accounts_attempt[OF objects.keeps_open]) (simp_all add: object_defs accounts_def)

lemma keeps_create_pty:
  "wins.keeps H (\<lambda>(hpc, i, ou). add_mset i (add_mset ou H)) H (create_pty os sz)"
proof -
  let ?own = "\<lambda>(hpc :: handle, i, ou). add_mset i (add_mset ou H)"
  have console: "wins.keeps (add_mset mo (add_mset co (add_mset ci (add_mset mi H)))) ?own H
      (attempt (or_close_all os [mo, mi] (finally_close_all os [ci, co] (create_pseudo_console os ci co sz)))
         (\<lambda>hpc. ret (Ok (hpc, mi, mo))))" for ci mi mo co
  proof (rule accounts_attempt)
    let ?H = "add_mset mo (add_mset co (add_mset ci (add_mset mi H)))"
    have "mset [ci, co] + (mset [mo, mi] + H) = ?H" by (simp add: add_mset_commute)
    then show "wins.keeps ?H (\<lambda>_. mset [mo, mi] + H) H
        (or_close_all os [mo, mi] (finally_close_all os [ci, co] (create_pseudo_console os ci co sz)))"
      using keeps_create_pseudo_console[of ?H os ci co sz] by (intro keeps_or_close_all keeps_finally_all) (simp only:)
    show "wins.keeps (mset [mo, mi] + H) ?own H (ret (Ok (hpc, mi, mo)))" for hpc
      by (rule keeps_give) (simp add: add_mset_commute)
  qed
  have pipe: "wins.keeps (add_mset ci (add_mset mi H)) (\<lambda>(rd, wr). add_mset rd (add_mset wr (add_mset ci (add_mset mi H)))) H
      (or_close_all os [mi, ci] (create_pipe_pair os))" for ci mi
  proof (rule keeps_or_close_all)
    have "mset [mi, ci] + H = add_mset ci (add_mset mi H)" by (simp add: add_mset_commute)
    then show "wins.keeps (add_mset ci (add_mset mi H)) (\<lambda>(rd, wr). add_mset rd (add_mset wr (add_mset ci (add_mset mi H))))
        (mset [mi, ci] + H) (create_pipe_pair os)"
      using keeps_create_pipe_pair[of "add_mset ci (add_mset mi H)" os] by (simp only:)
  qed
  have rest: "wins.keeps (add_mset ci (add_mset mi H)) ?own H
      (attempt (or_close_all os [mi, ci] (create_pipe_pair os)) (\<lambda>(mo, co).
         attempt (or_close_all os [mo, mi] (finally_close_all os [ci, co] (create_pseudo_console os ci co sz)))
           (\<lambda>hpc. ret (Ok (hpc, mi, mo)))))" for ci mi
    by (rule accounts_attempt[OF pipe]) (simp only: split_paired_all prod.case console)
  show ?thesis unfolding create_pty_def
    by (rule accounts_attempt[OF keeps_create_pipe_pair]) (simp only: split_paired_all prod.case rest)
qed

lemma objects_create_pty: "objects.keeps H (\<lambda>(hpc, _, _). add_mset (PseudoConsole hpc) H) H (create_pty os sz)"
  unfolding create_pty_def split_def
  by (intro accounts_attempt[OF objects_create_pipe_pair] accounts_attempt[OF objects_close_all(1)[OF objects_create_pipe_pair]]
      accounts_attempt[OF objects_close_all(1)[OF objects_close_all(2)[OF objects_create_pseudo_console]]] keeps_give)
    simp

lemma list_size_accounts:
  assumes "closes AttributeListSize = {#}" "\<And>r. opens AttributeListSize r = {#}"
  shows "accounts opens closes H (\<lambda>_. H) H (list_size os)"
  unfolding accounts_def list_size_def Let_def using assms
  by (auto simp: invoke_eq acquired_plain ledger_Cons split: sum.split)

lemma keeps_win_attached:
  "wins.keeps H (\<lambda>(process, pid). add_mset process H) H (spawn_attached os hpc line cwd env)"
proof -
  have thread: "wins.keeps (opens_handle (CreateProcessW l u f e w s) r + H) (\<lambda>(process, pid). add_mset process H) H
      (case from_raw (wp_handle r) of None \<Rightarrow> ret (Err (win_fail ''CreateProcessW''))
       | Some process \<Rightarrow> finally_close_all os (somes [from_raw (wp_handle2 r)]) (ret (Ok (process, wp_num r))))"
    for l u f e w s r
  proof (cases "from_raw (wp_handle r)")
    case None
    then show ?thesis by (simp add: win_defs accounts_fail)
  next
    case (Some process)
    have "opens_handle (CreateProcessW l u f e w s) r + H = mset (somes [from_raw (wp_handle2 r)]) + add_mset process H"
      using Some by (simp add: win_defs mset_somes_from_raw) (simp add: handles_of_def)
    then show ?thesis using Some
      by (auto intro!: keeps_finally_all keeps_give simp del: somes_simps)
  qed
  have created: "wins.keeps H (\<lambda>(process, pid). add_mset process H) H (create_attached os hpc line cwd env)"
    unfolding create_attached_def
    by (intro keeps_win_then accounts_attempt[OF wins.keeps_open thread]) (simp_all add: win_defs)
  show ?thesis unfolding spawn_attached_def
    by (intro accounts_attempt[OF list_size_accounts] keeps_win_then accounts_close_neutral(2) created)
      (simp_all add: win_defs)
qed

lemma objects_win_attached: "objects.keeps H (\<lambda>_. H) H (spawn_attached os hpc line cwd env)"
proof -
  have created: "objects.keeps H (\<lambda>_. H) H (create_attached os hpc line cwd env)" for H
    unfolding create_attached_def
    by (intro accounts_attempt[OF objects.keeps_plain])
      (auto simp: object_defs intro!: accounts_fail objects_close_all(2) keeps_give split: option.split)
  have "objects.keeps (add_mset AttributeList H) (\<lambda>_. H) H (finally_close os DeleteAttributeList (create_attached os hpc line cwd env))"
    using objects.keeps_finally[OF created[of "add_mset AttributeList H"], of os] by (simp add: drop_object_def)
  then show ?thesis unfolding spawn_attached_def
    by (intro accounts_attempt[OF list_size_accounts] accounts_attempt[OF objects.keeps_open]) (simp_all add: object_defs)
qed

section \<open>A failed spawn\<close>

text \<open>Calls that acquire and release nothing.\<close>

definition idle_call :: "WinCall \<Rightarrow> bool" where
  "idle_call c =
    (case c of InstantNow \<Rightarrow> True | ThreadSleep _ \<Rightarrow> True | PeekNamedPipe _ \<Rightarrow> True | ReadFile _ _ \<Rightarrow> True | _ \<Rightarrow> False)"

definition idle_calls :: "win_calls \<Rightarrow> bool" where
  "idle_calls t \<longleftrightarrow> (\<forall>x \<in> set t. idle_call (fst x))"

lemma idle_neutral:
  "idle_calls t \<Longrightarrow> acquired opens_handle t = {#} \<and> released closes_handle t = {#} \<and>
    acquired opens_object t = {#} \<and> released closes_object t = {#}"
proof (induction t)
  case (Cons x t)
  obtain c a where x: "x = (c, a)" by force
  have c: "closes_handle c = {#}" "opens_handle c r = {#}" "closes_object c = {#}" "opens_object c r = {#}" for r
    using Cons.prems x by (auto simp: idle_calls_def idle_call_def win_defs object_defs split: WinCall.splits)
  show ?case using Cons x c by (simp add: acquired_plain ledger_Cons idle_calls_def)
qed simp

text \<open>Every call takes time: the clock has counted at least one nanosecond for each.\<close>

definition clock_ticks :: "win \<Rightarrow> bool" where
  "clock_ticks os \<longleftrightarrow> (\<forall>h. \<exists>r. os h InstantNow = Inr r \<and> length h \<le> wp_clock r)"

lemma drain_returns:
  assumes "clock_ticks os"
  shows "\<exists>t. drain os d deadline h = Some (h @ t) \<and> idle_calls t"
proof (induction "deadline - length h" arbitrary: h rule: less_induct)
  case less
  obtain r where r: "os h InstantNow = Inr r" "length h \<le> wp_clock r"
    using assms unfolding clock_ticks_def by blast
  let ?h1 = "h @ [(InstantNow, Inr r)]"
  let ?p = "os ?h1 (PeekNamedPipe d)"
  let ?h2 = "?h1 @ [(PeekNamedPipe d, ?p)]"
  have now: "instant_now os h = (wp_clock r, ?h1)" using r by (simp add: instant_now_def invoke_eq)
  have peek: "peek os d ?h1 = (case ?p of Inl _ \<Rightarrow> None | Inr q \<Rightarrow> Some (unat (wp_num q)), ?h2)"
    by (simp add: peek_def invoke_eq split: sum.split)
  have idle2: "idle_calls [(InstantNow, Inr r), (PeekNamedPipe d, ?p)]" by (simp add: idle_calls_def idle_call_def)
  have again: "\<exists>t. drain os d deadline (?h2 @ [(c, a)]) = Some (h @ t) \<and> idle_calls t"
    if "wp_clock r < deadline" "idle_call c" for c a
  proof -
    have "deadline - length (?h2 @ [(c, a)]) < deadline - length h" using that(1) r(2) by simp
    from less.hyps[OF this] obtain t where "drain os d deadline (?h2 @ [(c, a)]) = Some ((?h2 @ [(c, a)]) @ t)" "idle_calls t"
      by blast
    then show ?thesis using idle2 that(2) by (intro exI[of _ "(InstantNow, Inr r) # (PeekNamedPipe d, ?p) # (c, a) # t"])
      (simp add: idle_calls_def)
  qed
  have unfold: "drain os d deadline h = (if deadline \<le> wp_clock r then Some ?h1
      else if fst (peek os d ?h1) = None then Some ?h2
      else if fst (peek os d ?h1) = Some 0 then drain os d deadline (?h2 @ [(ThreadSleep 5, os ?h2 (ThreadSleep 5))])
      else if isl (os ?h2 (ReadFile d 4096)) then Some (?h2 @ [(ReadFile d 4096, os ?h2 (ReadFile d 4096))])
      else drain os d deadline (?h2 @ [(ReadFile d 4096, os ?h2 (ReadFile d 4096))]))"
    by (subst drain.simps) (simp add: now peek invoke_eq)
  show ?case unfolding unfold
    using again[of "ThreadSleep 5"] again[of "ReadFile d 4096"]
    by (auto simp: idle_calls_def idle_call_def)
qed

lemma close_pty_returns:
  assumes "clock_ticks os"
  shows "\<exists>t a. close_pty os hpc d h = Some (h @ t @ [(ClosePseudoConsole hpc, a)]) \<and> idle_calls t"
proof -
  obtain r where r: "os h InstantNow = Inr r" using assms unfolding clock_ticks_def by blast
  let ?h1 = "h @ [(InstantNow, Inr r)]"
  obtain t where t: "drain os d (wp_clock r + 2000000000) ?h1 = Some (?h1 @ t)" "idle_calls t"
    using drain_returns[OF assms] by blast
  then show ?thesis using r
    by (intro exI[of _ "(InstantNow, Inr r) # t"])
      (simp add: close_pty_def instant_now_def close_pseudo_console_def invoke_eq idle_calls_def idle_call_def)
qed

section \<open>Spawning on a pseudo console\<close>

lemma close_pair:
  assumes "close_all os [a, b] h = h'"
  shows "\<exists>x y. h' = h @ [(CloseHandle a, x), (CloseHandle b, y)]"
  using assms by (auto simp: invoke_eq)

lemma acquired_close: "acquired opens_handle [(CloseHandle a, x), (CloseHandle b, y)] = {#}"
  "acquired opens_object [(CloseHandle a, x), (CloseHandle b, y)] = {#}"
  "acquired opens_object [(ClosePseudoConsole a, x)] = {#}" "acquired opens_handle [(ClosePseudoConsole a, x)] = {#}"
  by (cases x; cases y; simp add: ledger_Cons win_defs object_defs)+

lemma keeps_prepare: "wins.keeps H (\<lambda>(line, hpc, i, ou). add_mset i (add_mset ou H)) H (prepare os ps cmd sz)"
proof -
  have "wins.keeps H (\<lambda>(line, hpc, i, ou). add_mset i (add_mset ou H)) H
      (attempt (create_pty os sz) (\<lambda>(hpc, i, ou). ret (Ok (line, hpc, i, ou))))" for line :: "u16 list"
    by (rule accounts_attempt[OF keeps_create_pty]) (auto intro: keeps_give)
  then show ?thesis unfolding prepare_def by (auto intro!: keeps_ret_then accounts_fail)
qed

lemma objects_prepare: "objects.keeps H (\<lambda>(line, hpc, i, ou). add_mset (PseudoConsole hpc) H) H (prepare os ps cmd sz)"
proof -
  have "objects.keeps H (\<lambda>(line, hpc, i, ou). add_mset (PseudoConsole hpc) H) H
      (attempt (create_pty os sz) (\<lambda>(hpc, i, ou). ret (Ok (line, hpc, i, ou))))" for line :: "u16 list"
    by (rule accounts_attempt[OF objects_create_pty]) (auto intro: keeps_give)
  then show ?thesis unfolding prepare_def by (auto intro!: keeps_ret_then accounts_fail)
qed

text \<open>Both ledgers over the same calls.\<close>

lemma both_ledgers:
  assumes "wins.keeps H own H m" "objects.keeps G own' G m" "m h = (r, h')"
  obtains t where "h' = h @ t"
    "H + acquired opens_handle t = released closes_handle t + (case r of Err _ \<Rightarrow> H | Ok x \<Rightarrow> own x)"
    "G + acquired opens_object t = released closes_object t + (case r of Err _ \<Rightarrow> G | Ok x \<Rightarrow> own' x)"
proof -
  obtain t where t: "h' = h @ t"
    "H + acquired opens_handle t = released closes_handle t + (case r of Err _ \<Rightarrow> H | Ok x \<Rightarrow> own x)"
    using accounts_result[OF assms(1,3)] .
  obtain u where u: "h' = h @ u"
    "G + acquired opens_object u = released closes_object u + (case r of Err _ \<Rightarrow> G | Ok x \<Rightarrow> own' x)"
    using accounts_result[OF assms(2,3)] .
  show thesis using that t u by simp
qed

lemma objects_duplicate: "objects.keeps H (\<lambda>_. H) H (duplicate os d b)"
  unfolding duplicate_def owned_def Let_def
  by (rule accounts_attempt[OF objects.keeps_plain]) (auto simp: object_defs accounts_def split: option.split)

lemma spawn_exit_watcher_ledgers:
  assumes "spawn_exit_watcher os process h = (w, h')"
  obtains t where "h' = h @ t" "acquired opens_handle t = released closes_handle t + mset (somes [w])"
    "acquired opens_object t = released closes_object t"
proof -
  obtain r h1 where e: "duplicate os process False h = (r, h1)" by force
  from both_ledgers[OF keeps_duplicate objects_duplicate this, of "{#}" "{#}"] obtain t where "h1 = h @ t"
    "{#} + acquired opens_handle t = released closes_handle t + (case r of Err _ \<Rightarrow> {#} | Ok x \<Rightarrow> {#x#})"
    "{#} + acquired opens_object t = released closes_object t + (case r of Err _ \<Rightarrow> {#} | Ok x \<Rightarrow> {#})" .
  then show thesis using that[of t] assms e by (cases r) (auto simp: spawn_exit_watcher_def)
qed

text \<open>When the child could not be made: what the clean-up releases.\<close>

lemma pty_spawn_attach_fails:
  assumes "clock_ticks os" "prepare os ps cmd sz h = (Ok (line, hpc, i, ou), h1)"
    "spawn_attached os hpc line (cmd_cwd cmd) (cmd_env cmd) h1 = (Err e, h2)"
  obtains t where "pty_spawn os ps cmd sz h = Some (Err e, h2 @ t)"
    "acquired opens_handle t = {#}" "released closes_handle t = {#i, ou#}"
    "acquired opens_object t = {#}" "released closes_object t = {#PseudoConsole hpc#}"
proof -
  obtain u a where u: "close_pty os hpc ou h2 = Some (h2 @ u @ [(ClosePseudoConsole hpc, a)])" "idle_calls u"
    using close_pty_returns[OF assms(1)] by blast
  obtain b c where "close_all os [ou, i] (h2 @ u @ [(ClosePseudoConsole hpc, a)]) =
      (h2 @ u @ [(ClosePseudoConsole hpc, a)]) @ [(CloseHandle ou, b), (CloseHandle i, c)]"
    using close_pair[OF refl] by blast
  then show thesis
    using that[of "u @ [(ClosePseudoConsole hpc, a)] @ [(CloseHandle ou, b), (CloseHandle i, c)]"]
      assms(2,3) u(1) idle_neutral[OF u(2)]
    by (simp add: pty_spawn_def acquired_close ledger_Cons win_defs object_defs add_mset_commute del: append_Cons append_Nil)
qed


text \<open>A machine that answers every call, and one program on it.\<close>

definition willing_machine :: win where
  "willing_machine h c =
    Inr (case c of
           InstantNow \<Rightarrow> win_reply\<lparr>wp_clock := length h\<rparr>
         | _ \<Rightarrow> win_reply\<lparr>wp_handle := 5, wp_handle2 := 6, wp_num := 1, wp_long := 48\<rparr>)"

definition example_paths :: Paths where
  "example_paths =
    \<lparr>ps_pathext = None, ps_path = None, ps_is_file = (\<lambda>_. True), ps_extension = (\<lambda>_. Some ''exe''),
     ps_is_absolute = (\<lambda>_. True), ps_join = (\<lambda>d n. n), ps_split = (\<lambda>_. [])\<rparr>"


end
