(* ===== verification/Spec2Isabelle.thy ===== *)
theory Spec2Isabelle
  imports Winargv Secret_Service Trust_Anchors Mock_Net Mock_Process Linux_Wait Coreutils_Cat Coreutils_Ls
    Mock_Security Linux_Security Coreutils_Text Signals Mock_Devices Linux_Fs Socket_Backends
    Linux_Term Linux_Pty Linux_Tun Linux_Identity Coreutils_Filter Coreutils_Files Coreutils_Mains Bsd_Trust
    Windows_Term Windows_Security Windows_Pty
begin

text \<open>
  \<^bold>\<open>A verification library for the rustils workspace.\<close>

  The program is a capability-style operating-system layer.  \<open>crates/platform\<close> declares the
  traits (files, processes, network, terminal, signals, security) and their portable parts;
  \<open>crates/platform-linux\<close>, \<open>platform-windows\<close> and \<open>platform-bsd\<close> implement them over system
  calls; \<open>crates/platform-mock\<close> implements them in memory for tests; \<open>crates/winargv\<close> quotes
  command lines; \<open>crates/coreutils\<close> holds the tools written on top.

  \<^bold>\<open>How the code is modelled.\<close>  A struct is a record, an enum a datatype, a machine integer a
  word of its width, text and paths are strings of bytes.  A fallible operation returns
  \<open>'a result\<close>, the sum with \<open>PlatformError\<close> on the left (\<open>Platform_Error\<close>); code that can panic
  returns \<open>'a run\<close> with a constructor for the panic.  State is passed explicitly: a store of
  shared nodes for the in-memory files, registries of channels for the in-memory network, a
  history of the system calls made and answered so far for the backends over an operating system.
  An operation that would block is the value \<open>None\<close>.  What is not part of the repository (the kernel, the C
  library, the Secret Service daemon, the file system behind a bundle of certificates, the path
  translation of the \<open>rpath\<close> crate) is an argument of the definitions that use it.

  \<^bold>\<open>The theories, with the code they model.\<close>
  \<^item> \<open>Prelude\<close>, \<open>Utf8\<close>, \<open>BTree_Map\<close>, \<open>Mpsc\<close>: machine integers and byte codecs, UTF-8 validity and
    lossy conversion, the ordered map and the channels of the standard library, with the
    locales \<open>ordered_map\<close> and \<open>byte_stream\<close>.
  \<^item> \<open>Platform_Error\<close>: \<open>platform/src/error.rs\<close>.
  \<^item> \<open>Winargv\<close>: \<open>winargv/src/lib.rs\<close> and the fuzz oracle \<open>fuzz_targets/winargv_roundtrip.rs\<close>.  Every
    built command line is split back into its arguments; which inputs are refused; the oracle
    never fails; POSIX quoting gives one shell word.
  \<^item> \<open>Dbus_Value\<close>, \<open>Dbus_Wire\<close>, \<open>Dbus_Roundtrip\<close>, \<open>Dbus_Message\<close>, \<open>Dbus_Transport\<close>:
    \<open>platform-linux/src/sys/dbus\<close>.  Round trips of values and messages, incomplete input,
    reassembly of a fragmented stream, the SASL line reader, the call loop; and three inputs
    on which the decoder hangs, panics or waits for ever.
  \<^item> \<open>Platform_Security\<close>, \<open>Secret_Service\<close>, \<open>Trust_Anchors\<close>, \<open>Bsd_Trust\<close>, \<open>Linux_Security\<close>, \<open>Mock_Security\<close>: the
    security surface.  The Secret Service client against any daemon that meets its contract,
    over the modelled connection; base64, PEM and the fail-closed probing policy, and the keychain
    of macOS with its references; the system
    calls of a Landlock confinement, for every kernel; the exact verdicts of the seccomp
    program on any classic BPF machine; the in-memory doubles.
  \<^item> \<open>Platform_Fs\<close>, \<open>Mock_Fs\<close>: the file-system traits with \<open>write_atomic\<close>, and the in-memory file
    system: store invariant, atomic replacement, renames.
  \<^item> \<open>Mock_Net\<close>: the in-memory network: registries agree with the live listeners, connections are
    reliable byte streams under any interleaving.
  \<^item> \<open>Platform_Process\<close>, \<open>Mock_Process\<close>, \<open>Linux_Process\<close>, \<open>Linux_Wait\<close>: spawn specifications, the
    portable and the pidfd-based \<open>wait_any\<close>, scripted processes, and the Linux backend over
    \<open>posix_spawn\<close> and \<open>waitpid\<close>: placement, no leaked descriptor on any path, stable status, and
    that a wait with a timeout always returns.
  \<^item> \<open>Signals\<close>, \<open>Terminal\<close>, \<open>Mock_Devices\<close>: deferred signals on both sources, raw mode and its
    consumer, the scripted tunnel and pseudo-terminal.
  \<^item> \<open>Os_Calls\<close>, \<open>Unix_Calls\<close>: code over system calls.  The system is a function from the calls so far
    and the next call to its answer; the combinators are the \<open>?\<close> operator and the drop of what a
    function owns; the rules of the ledger show that a function ends with exactly the handles it
    returns, and \<open>obeys\<close> that every call was warranted by the calls before it.
  \<^item> \<open>Linux_Fdio\<close>, \<open>Linux_Fs\<close>: \<open>platform-linux/src/sys/fdio.rs\<close> and \<open>fs.rs\<close>.  \<open>write_atomic\<close> renames only a
    file that was written, synced and closed; \<open>create_dir\<close> stays inside its directory; reading a
    link takes at most seven calls; a listing has every entry once.
  \<^item> \<open>Platform_Net\<close>, \<open>Sockets\<close>, \<open>Linux_Net\<close>, \<open>Bsd_Net\<close>, \<open>Windows_Net\<close>, \<open>Socket_Backends\<close>: the three socket
    backends.  Addresses survive the structures of the kernel, listening on a path never removes
    a live socket, timeouts are rounded in a known way, and no operation loses a descriptor.
  \<^item> \<open>Linux_Term\<close>, \<open>Linux_Pty\<close>, \<open>Linux_Tun\<close>, \<open>Linux_Identity\<close>: the terminal, the pseudo-terminal, the
    tunnel device and the names of users and groups: raw mode is given back, the calls of a spawn
    on a pseudo-terminal and of the set-up of a tunnel are in the one safe order.
  \<^item> \<open>Wide\<close>, \<open>Windows_Calls\<close>, \<open>Windows_Fs\<close>: UTF-16 conversion (every sequence of units survives), the
    error tables and owned handles, and the files of the Windows backend
    (\<open>sys/nt.rs\<close>, \<open>sys/fileio.rs\<close>, \<open>fs.rs\<close>): links are read back as stored, directories are opened and
    created without following a reparse point, no operation leaks a handle.
  \<^item> \<open>Windows_Process\<close>: \<open>sys/proc.rs\<close> and \<open>process.rs\<close>.  A spawn creates the process only when each pipe has
    an end that is not inherited, resumes a grouped child only inside its job, and leaks nothing; a
    wait on any number of children with a timeout returns and names the right child.
  \<^item> \<open>Windows_Term\<close>: \<open>sys/console.rs\<close>, \<open>term.rs\<close>, \<open>sys/csignals.rs\<close>, \<open>signals.rs\<close>.  Raw mode gives back the modes
    of both streams; control events are coalesced; a console whose handles cannot be reopened is
    stuck.
  \<^item> \<open>Windows_Security\<close>: \<open>sys/security.rs\<close>, \<open>security.rs\<close>.  Credentials are read back under their own
    pair of names; every readable root certificate is reported and the store closed.
  \<^item> \<open>Windows_Pty\<close>: \<open>sys/pty.rs\<close>, \<open>pty.rs\<close>.  A spawn on a pseudo console leaks nothing whichever step
    fails, and the watcher thread and the drop of the master close the console exactly once.
  \<^item> \<open>Coreutils_Cat\<close>, \<open>Calendar\<close>, \<open>Coreutils_Ls\<close>, \<open>Coreutils_Text\<close>, \<open>Coreutils_Process\<close>: the tools: byte-faithful
    copying, the sorted listing and its dates, the line tools \<open>rhead\<close>, \<open>rtail\<close>, \<open>rsort\<close>, \<open>runiq\<close>, \<open>rcut\<close>, and
    \<open>rrun\<close>, \<open>rtee\<close>, \<open>rpar\<close> over any backend: \<open>rtee\<close> copies all the output, \<open>rpar\<close> ends and reports every job.
  \<^item> \<open>Coreutils_Filter\<close>: \<open>rwc\<close>, \<open>rtr\<close>, \<open>rgrep\<close>, \<open>rxargs\<close>: what is counted, how each character is translated, that
    exactly the matching lines are printed in order, and that one command gets all the words.
  \<^item> \<open>Coreutils_Files\<close>: \<open>rcp\<close>, \<open>rmv\<close>, \<open>rrm\<close>, \<open>rmkdir\<close>, \<open>rtouch\<close>, \<open>rfind\<close>: a moved file is removed only after it was
    copied, a directory only when asked for and seen to be one, a copy removes nothing; a search prints
    exactly the tree below its start; and two commands that go wrong.
  \<^item> \<open>Coreutils_Mains\<close>: the programs \<open>rcat\<close> and \<open>rls\<close> around their libraries.

  \<^bold>\<open>Interfaces.\<close>  Where one part relies on another, the contract is a locale, and its
  interpretation on the model discharges the laws: \<open>ordered_map\<close> (the ordered map of the mocks),
  \<open>sequential_reader\<close> (what \<open>cat\<close> needs of an open file), \<open>atomic_dir\<close> (what \<open>write_atomic\<close> needs of a directory, met by the in-memory file system),
  \<open>byte_stream\<close> (Unix and TCP connections of the in-memory network), \<open>credential_store\<close> (met by
  the in-memory store; the null store deliberately is none), \<open>signal_slot\<close> (the scripted, the
  Linux and the Windows signal source), \<open>raw_terminal\<close> (the scripted terminal), \<open>packet_device\<close> (tunnel
  and pseudo-terminal), \<open>handle_ledger\<close> (descriptors and directory streams on Unix, the objects of a
  pseudo-terminal, handles, sockets, pseudo consoles and attribute lists on Windows, references
  on macOS),
  \<open>unix_endpoint\<close> (listening on a path, on Linux and Darwin), \<open>tee_backend\<close> and \<open>job_backend\<close> (what \<open>rtee\<close>
  and \<open>rpar\<close> need of a backend, met by the scripted processes).

  \<^bold>\<open>Fuel.\<close>  \<open>unmarshal\<close> and \<open>decode\<close> take fuel because the code need not terminate on hostile
  input; \<open>list_weight\<close> and \<open>msg_fuel\<close> are enough for every well-formed value and message, and more
  fuel gives the same result.  The call loop of the D-Bus connection takes a bound on the number
  of messages it skips, and its property says which bound returns.  The loops that may run for ever
  are partial functions into \<open>option\<close>: the three \<open>wait_any\<close> loops, which return with a timeout when the
  clock counts the time slept; the drain of a pseudo console, which returns when every call takes
  time; reading a link and a user name, which return within a fixed number of calls; listing a
  directory and enumerating a certificate store, which return when the system's list ends; \<open>rtee\<close>
  and \<open>rpar\<close>, which return on a backend that meets their contract; the directory walks of \<open>rgrep\<close>, which
  returns on every finite tree, and of \<open>rfind\<close>, which returns on every finite tree that can be read; the copy of a directory, which need not end when the target
  lies inside the source.  Every other recursion is total.

  \<^bold>\<open>What is not modelled, and why.\<close>  The build options \<open>track-p\<close> and \<open>track-w\<close>,
  which repeat primitives over another binding crate.  The path parsing of \<open>std::path\<close> on Windows, a
  parameter of the program search.  The parity suite, which is test code.  Failing writes to standard output, allocation
  failure, stack depth, and threads other than the watcher of a pseudo console and the two sides of a
  channel.
\<close>

end
